(* ===== verification/Prelude.thy ===== *)
theory Prelude
  imports Complex_Main "HOL-Library.Word" "HOL-Library.Monad_Syntax"
begin

unbundle bit_operations_syntax

text \<open>
  What the components share: the machine integer types of \<^verbatim>\<open><stdint.h>\<close>, the big-endian
  readers and writers that every codec of the stack carries a private copy of, the two loops over
  arrays that the tables use (search by index, shift down after a removal), and the generic facts
  about them.

  C types are modelled so: \<^verbatim>\<open>uint8_t\<close>, \<^verbatim>\<open>uint16_t\<close>, \<^verbatim>\<open>uint32_t\<close> are words of that width,
  with the wrap-around of C's unsigned arithmetic; \<^verbatim>\<open>size_t\<close> is \<open>nat\<close> (every value the
  code computes is bounded by an array size); \<^verbatim>\<open>int\<close> is \<open>int\<close> or \<open>nat\<close>, with the casts to
  narrower types written out; \<^verbatim>\<open>double\<close> is \<open>real\<close>, without rounding. A fixed array is a
  list of that length, and a buffer with its length field is the list of its live bytes.
\<close>

section \<open>Machine integers\<close>

type_synonym u8 = "8 word"
type_synonym u16 = "16 word"
type_synonym u32 = "32 word"
type_synonym bytes = "8 word list"

named_theorems codec_simps "unfolding rules of the wire formats"
named_theorems world_simps "projection and update rules of the simulated world"

section \<open>Big-endian access\<close>

definition be16 :: "u8 \<Rightarrow> u8 \<Rightarrow> u16" where
  "be16 a b = push_bit 8 (ucast a) OR ucast b"

definition be32 :: "u8 \<Rightarrow> u8 \<Rightarrow> u8 \<Rightarrow> u8 \<Rightarrow> u32" where
  "be32 a b c d = push_bit 24 (ucast a) OR push_bit 16 (ucast b) OR push_bit 8 (ucast c) OR ucast d"

definition read_u16_be :: "bytes \<Rightarrow> nat \<Rightarrow> u16" where
  "read_u16_be raw i = be16 (raw ! i) (raw ! (i + 1))"

definition read_u32_be :: "bytes \<Rightarrow> nat \<Rightarrow> u32" where
  "read_u32_be raw i = be32 (raw ! i) (raw ! (i + 1)) (raw ! (i + 2)) (raw ! (i + 3))"

definition write_u16_be :: "u16 \<Rightarrow> bytes" where
  "write_u16_be v = [ucast (drop_bit 8 v), ucast (v AND 0xFF)]"

definition write_u32_be :: "u32 \<Rightarrow> bytes" where
  "write_u32_be v = [ucast (drop_bit 24 v), ucast (drop_bit 16 v), ucast (drop_bit 8 v), ucast (v AND 0xFF)]"

text \<open>Overwriting two bytes of an output buffer in place, as the checksum writers do.\<close>

definition patch_u16_be :: "nat \<Rightarrow> u16 \<Rightarrow> bytes \<Rightarrow> bytes" where
  "patch_u16_be i v out = out[i := ucast (drop_bit 8 v), i + 1 := ucast (v AND 0xFF)]"

lemma u8_bound: "unat (w :: u8) < 256"
  using unsigned_less [of w, where ?'a = nat] by simp

lemma u16_bound: "unat (w :: u16) < 65536"
  using unsigned_less [of w, where ?'a = nat] by simp

lemma u32_bound: "unat (w :: u32) < 4294967296"
  using unsigned_less [of w, where ?'a = nat] by simp

lemma u32_low16: "unat ((s :: u32) AND 0xFFFF) = unat s mod 65536"
proof -
  have "(0xFFFF :: u32) = mask 16" by (simp add: mask_eq_exp_minus_1)
  then have "s AND 0xFFFF = take_bit 16 s" by (simp add: take_bit_eq_mask)
  then have "s AND 0xFFFF = s mod 65536" by (simp add: take_bit_eq_mod)
  then show ?thesis by (simp add: unat_mod)
qed

lemma u32_high16: "unat (drop_bit 16 (s :: u32)) = unat s div 65536"
  by (simp add: unat_drop_bit_eq drop_bit_eq_div unat_div)

lemma u32_not: "unat (NOT (s :: u32)) = 4294967295 - unat s"
proof -
  have "NOT s = - 1 - s" by (simp add: not_eq_complement)
  also have "unat \<dots> = unat (- 1 :: u32) - unat s" by (rule unat_sub) simp
  also have "unat (- 1 :: u32) = 4294967295" by (simp add: unsigned_minus_1_eq_mask mask_eq_exp_minus_1)
  finally show ?thesis .
qed

lemma u16_of_u8: "unat (ucast (a :: u8) :: u16) = unat a"
  using u8_bound [of a] by (simp add: unsigned_ucast_eq take_bit_eq_mod)

lemma u32_of_u8: "unat (ucast (a :: u8) :: u32) = unat a"
  using u8_bound [of a] by (simp add: unsigned_ucast_eq take_bit_eq_mod)

lemma u32_of_u16: "unat (ucast (a :: u16) :: u32) = unat a"
  using u16_bound [of a] by (simp add: unsigned_ucast_eq take_bit_eq_mod)

lemma u16_of_u32: "unat (ucast (a :: u32) :: u16) = unat a mod 65536"
  by (simp add: unsigned_ucast_eq take_bit_eq_mod)

lemma bit_be16:
  "bit (be16 a b) n \<longleftrightarrow> (n < 16 \<and> (if n < 8 then bit b n else bit a (n - 8)))"
  by (auto simp: be16_def bit_simps dest: bit_imp_le_length)

lemma be16_split [simp]: "be16 (ucast (drop_bit 8 v)) (ucast (v AND 0xFF)) = v"
proof (rule bit_word_eqI)
  fix n assume "n < LENGTH(16)"
  have m: "(0xFF :: u16) = mask 8" by (simp add: mask_eq_exp_minus_1)
  show "bit (be16 (ucast (drop_bit 8 v)) (ucast (v AND 0xFF))) n = bit v n"
    using \<open>n < LENGTH(16)\<close> unfolding m
    by (auto simp: bit_be16 bit_simps)
qed

lemma be16_hi [simp]: "(ucast (drop_bit 8 (be16 a b)) :: u8) = a"
  by (rule bit_word_eqI) (auto simp: bit_be16 bit_simps)

lemma be16_lo [simp]: "(ucast (be16 a b AND 0xFF) :: u8) = b"
proof (rule bit_word_eqI)
  fix n assume "n < LENGTH(8)"
  have m: "(0xFF :: u16) = mask 8" by (simp add: mask_eq_exp_minus_1)
  show "bit (ucast (be16 a b AND 0xFF) :: u8) n = bit b n"
    using \<open>n < LENGTH(8)\<close> unfolding m by (auto simp: bit_be16 bit_simps)
qed

lemma be32_split [simp]:
  "be32 (ucast (drop_bit 24 v)) (ucast (drop_bit 16 v)) (ucast (drop_bit 8 v)) (ucast (v AND 0xFF)) = v"
proof (rule bit_word_eqI)
  fix n assume n: "n < LENGTH(32)"
  have m: "(0xFF :: u32) = mask 8" by (simp add: mask_eq_exp_minus_1)
  have "n < 8 \<or> (8 \<le> n \<and> n < 16) \<or> (16 \<le> n \<and> n < 24) \<or> (24 \<le> n \<and> n < 32)" using n by auto
  then show "bit (be32 (ucast (drop_bit 24 v)) (ucast (drop_bit 16 v)) (ucast (drop_bit 8 v))
      (ucast (v AND 0xFF))) n = bit v n"
    unfolding m be32_def by (elim disjE) (auto simp: bit_simps)
qed

lemma unat_be16: "unat (be16 a b) = unat a * 256 + unat b"
proof -
  have "push_bit 8 (ucast a :: u16) AND ucast b = 0"
    by (rule bit_word_eqI) (auto simp: bit_simps dest: bit_imp_le_length)
  then have "be16 a b = push_bit 8 (ucast a) + ucast b"
    by (simp add: be16_def disjunctive_add_eq_or)
  moreover have "unat (push_bit 8 (ucast a) :: u16) = unat a * 256"
    using u8_bound [of a] by (simp add: push_bit_eq_mult unat_word_ariths u16_of_u8)
  ultimately show ?thesis
    using u8_bound [of a] u8_bound [of b] by (simp add: unat_word_ariths u16_of_u8)
qed

lemma length_write_u16_be [simp]: "length (write_u16_be v) = 2"
  by (simp add: write_u16_be_def)

lemma length_write_u32_be [simp]: "length (write_u32_be v) = 4"
  by (simp add: write_u32_be_def)

lemma length_patch_u16_be [simp]: "length (patch_u16_be i v out) = length out"
  by (simp add: patch_u16_be_def)

lemma read_write_u16 [simp]: "read_u16_be (write_u16_be v @ r) 0 = v"
  by (simp add: read_u16_be_def write_u16_be_def)

lemma read_write_u32 [simp]: "read_u32_be (write_u32_be v @ r) 0 = v"
  by (simp add: read_u32_be_def write_u32_be_def)

section \<open>Loops over arrays\<close>

text \<open>The search loop \<^verbatim>\<open>for (i = 0; i < n; i++) if (...) return i;\<close>.\<close>

definition first_index :: "(nat \<Rightarrow> bool) \<Rightarrow> nat \<Rightarrow> nat option" where
  "first_index P n = List.find P [0..<n]"

lemma first_index_None [simp]: "first_index P n = None \<longleftrightarrow> (\<forall>i<n. \<not> P i)"
  by (auto simp: first_index_def find_None_iff)

lemma first_index_Some:
  "first_index P n = Some i \<longleftrightarrow> i < n \<and> P i \<and> (\<forall>j<i. \<not> P j)"
  by (auto simp: first_index_def find_Some_iff)

lemma first_index_cong [fundef_cong]:
  assumes "n = m" and "\<And>i. i < m \<Longrightarrow> P i = Q i"
  shows "first_index P n = first_index Q m"
  using assms by (auto simp: first_index_def intro!: find_cong)

text \<open>The removal loop \<^verbatim>\<open>for (; i + 1 < n; i++) a[i] = a[i + 1];\<close>.\<close>

function shift_down :: "nat \<Rightarrow> nat \<Rightarrow> 'a list \<Rightarrow> 'a list" where
  "shift_down i n xs = (if i + 1 < n then shift_down (i + 1) n (xs[i := xs ! (i + 1)]) else xs)"
  by pat_completeness auto
termination
  by (relation "measure (\<lambda>(i, n, _). n - i)") auto

declare shift_down.simps [simp del]

lemma length_shift_down [simp]: "length (shift_down i n xs) = length xs"
  by (induction i n xs rule: shift_down.induct) (subst shift_down.simps, simp)

lemma nth_shift_down:
  assumes "n \<le> length xs" "k < length xs"
  shows "shift_down i n xs ! k = (if i \<le> k \<and> k + 1 < n then xs ! (k + 1) else xs ! k)"
  using assms
proof (induction i n xs rule: shift_down.induct)
  case (1 i n xs)
  show ?case
  proof (cases "i + 1 < n")
    case True
    with "1.IH" "1.prems" show ?thesis
      by (subst shift_down.simps) (auto simp: nth_list_update)
  next
    case False
    then show ?thesis by (subst shift_down.simps) auto
  qed
qed

lemma take_shift_down:
  assumes "i < n" "n \<le> length xs"
  shows "take (n - 1) (shift_down i n xs) = take i xs @ drop (i + 1) (take n xs)"
  using assms by (intro nth_equalityI) (auto simp: nth_shift_down nth_append)

end
