(* ===== verification/Address.thy ===== *)
theory Address
  imports Prelude "HOL-Library.Char_ord"
begin

text \<open>
  MAC and IP addresses: \<^verbatim>\<open>core/mac.c\<close> and the address half of \<^verbatim>\<open>layer3/ipv4.c\<close>. An
  address array of fixed length is a constructor with that many bytes, so no length invariant is
  needed. \<open>ip_parse\<close> uses \<^verbatim>\<open>sscanf\<close>, whose conversions \<^verbatim>\<open>%u\<close> and \<^verbatim>\<open>%d\<close> and
  literal characters are modelled as the C standard describes them; a number that the target
  integer cannot represent is undefined there, and is the value \<open>None\<close> here.
\<close>

section \<open>MAC addresses\<close>

datatype mac_address = Mac u8 u8 u8 u8 u8 u8

primrec mac_bytes :: "mac_address \<Rightarrow> bytes" where
  "mac_bytes (Mac a b c d e f) = [a, b, c, d, e, f]"

fun bytes_equal :: "bytes \<Rightarrow> bytes \<Rightarrow> bool" where
  "bytes_equal (x # xs) (y # ys) = (if x \<noteq> y then False else bytes_equal xs ys)"
| "bytes_equal xs ys = (xs = ys)"

definition mac_equal :: "mac_address \<Rightarrow> mac_address \<Rightarrow> bool" where
  "mac_equal m1 m2 = bytes_equal (mac_bytes m1) (mac_bytes m2)"

definition mac_of_list :: "bytes \<Rightarrow> mac_address" where
  "mac_of_list bs = Mac (bs ! 0) (bs ! 1) (bs ! 2) (bs ! 3) (bs ! 4) (bs ! 5)"

text \<open>\<open>mac_random\<close> takes the six values \<^verbatim>\<open>rand\<close> returns as an argument.\<close>

definition mac_random :: "u32 list \<Rightarrow> mac_address" where
  "mac_random rs = mac_of_list (map ucast rs)"

definition mac_broadcast :: mac_address where
  "mac_broadcast = Mac 0xFF 0xFF 0xFF 0xFF 0xFF 0xFF"

definition mac_zero :: mac_address where
  "mac_zero = Mac 0 0 0 0 0 0"

fun all_ff :: "bytes \<Rightarrow> bool" where
  "all_ff [] = True"
| "all_ff (b # bs) = (if b \<noteq> 0xFF then False else all_ff bs)"

definition ethernet_is_broadcast :: "mac_address \<Rightarrow> bool" where
  "ethernet_is_broadcast m = all_ff (mac_bytes m)"

section \<open>IP addresses\<close>

datatype octets = Octets u8 u8 u8 u8

primrec octet_bytes :: "octets \<Rightarrow> bytes" where
  "octet_bytes (Octets a b c d) = [a, b, c, d]"

primrec octet0 :: "octets \<Rightarrow> u8" where
  "octet0 (Octets a b c d) = a"

primrec octet3 :: "octets \<Rightarrow> u8" where
  "octet3 (Octets a b c d) = d"

primrec set_octet3 :: "u8 \<Rightarrow> octets \<Rightarrow> octets" where
  "set_octet3 v (Octets a b c d) = Octets a b c v"

definition octets_of_list :: "bytes \<Rightarrow> octets" where
  "octets_of_list bs = Octets (bs ! 0) (bs ! 1) (bs ! 2) (bs ! 3)"

record ip_address =
  octet :: octets
  prefix :: u8

definition ip_init :: "octets \<Rightarrow> u8 \<Rightarrow> ip_address" where
  "ip_init os p = \<lparr>octet = os, prefix = p\<rparr>"

definition zero_ip :: ip_address where
  "zero_ip = ip_init (Octets 0 0 0 0) 0"

definition ip_equal :: "ip_address \<Rightarrow> ip_address \<Rightarrow> bool" where
  "ip_equal a b =
    (if \<not> bytes_equal (octet_bytes (octet a)) (octet_bytes (octet b)) then False
     else if prefix a \<noteq> prefix b then False else True)"

definition ip_octets_equal :: "ip_address \<Rightarrow> ip_address \<Rightarrow> bool" where
  "ip_octets_equal a b = (octet_bytes (octet a) = octet_bytes (octet b))"

definition ip_to_u32 :: "ip_address \<Rightarrow> u32" where
  "ip_to_u32 ip = (case octet ip of Octets a b c d \<Rightarrow> be32 a b c d)"

definition ip_prefix_to_mask :: "u8 \<Rightarrow> u32" where
  "ip_prefix_to_mask p =
    (if p = 0 then 0 else if 32 \<le> p then 0xFFFFFFFF else push_bit (32 - unat p) 0xFFFFFFFF)"

definition u32_octets :: "u32 \<Rightarrow> octets" where
  "u32_octets n = Octets (ucast (drop_bit 24 n)) (ucast (drop_bit 16 n)) (ucast (drop_bit 8 n)) (ucast (n AND 0xFF))"

definition ip_network_address :: "ip_address \<Rightarrow> ip_address" where
  "ip_network_address ip =
    (let value = ip_to_u32 ip; m = ip_prefix_to_mask (prefix ip); network = value AND m
     in ip\<lparr>octet := u32_octets network\<rparr>)"

definition ip_is_zero :: "ip_address \<Rightarrow> bool" where
  "ip_is_zero ip = (octet ip = Octets 0 0 0 0)"

definition ip_is_limited_broadcast :: "ip_address \<Rightarrow> bool" where
  "ip_is_limited_broadcast ip = (octet ip = Octets 255 255 255 255)"

section \<open>Text form\<close>

definition digit_char :: "nat \<Rightarrow> char" where
  "digit_char d = char_of (48 + d)"

fun decimal :: "nat \<Rightarrow> string" where
  "decimal n = (if n < 10 then [digit_char n] else decimal (n div 10) @ [digit_char (n mod 10)])"

declare decimal.simps [simp del]

text \<open>\<^verbatim>\<open>snprintf\<close> keeps what fits before the terminating zero.\<close>

definition ip_to_string :: "ip_address \<Rightarrow> nat \<Rightarrow> bool \<Rightarrow> string" where
  "ip_to_string ip out_size include_prefix =
    (case octet ip of Octets a b c d \<Rightarrow>
      let dotted = decimal (unat a) @ ''.'' @ decimal (unat b) @ ''.'' @ decimal (unat c) @ ''.'' @ decimal (unat d)
      in take (out_size - 1)
           (if include_prefix then dotted @ ''/'' @ decimal (unat (prefix ip)) else dotted))"

definition is_digit :: "char \<Rightarrow> bool" where
  "is_digit c \<longleftrightarrow> 48 \<le> (of_char c :: nat) \<and> (of_char c :: nat) \<le> 57"

definition is_space :: "char \<Rightarrow> bool" where
  "is_space c \<longleftrightarrow> (of_char c :: nat) = 32 \<or> (9 \<le> (of_char c :: nat) \<and> (of_char c :: nat) \<le> 13)"

fun scan_digits :: "nat \<Rightarrow> string \<Rightarrow> nat \<times> string" where
  "scan_digits acc [] = (acc, [])"
| "scan_digits acc (c # cs) =
    (if is_digit c then scan_digits (acc * 10 + (of_char c - 48)) cs else (acc, c # cs))"

definition scan_signed :: "string \<Rightarrow> (int \<times> string) option" where
  "scan_signed str =
    (let s = dropWhile is_space str;
         neg = (s \<noteq> [] \<and> hd s = CHR ''-'');
         s' = (if s \<noteq> [] \<and> (hd s = CHR ''-'' \<or> hd s = CHR ''+'') then tl s else s)
     in if s' \<noteq> [] \<and> is_digit (hd s')
        then (case scan_digits 0 s' of (n, rest) \<Rightarrow> Some (if neg then - int n else int n, rest))
        else None)"

datatype directive = Conv_u | Conv_d | Literal char

definition representable :: "directive \<Rightarrow> int \<Rightarrow> bool" where
  "representable d v \<longleftrightarrow>
    (case d of Conv_u \<Rightarrow> 0 \<le> v \<and> v < 2 ^ 32 | Conv_d \<Rightarrow> - (2 ^ 31) \<le> v \<and> v < 2 ^ 31 | Literal _ \<Rightarrow> True)"

fun sscanf :: "directive list \<Rightarrow> string \<Rightarrow> int list \<Rightarrow> int list option" where
  "sscanf [] str vs = Some vs"
| "sscanf (Literal c # ds) str vs =
    (case str of [] \<Rightarrow> Some vs | x # xs \<Rightarrow> if x = c then sscanf ds xs vs else Some vs)"
| "sscanf (d # ds) str vs =
    (case scan_signed str of
       None \<Rightarrow> Some vs
     | Some (v, rest) \<Rightarrow> if representable d v then sscanf ds rest (vs @ [v]) else None)"

definition ip_format :: "directive list" where
  "ip_format = [Conv_u, Literal CHR ''.'', Conv_u, Literal CHR ''.'', Conv_u, Literal CHR ''.'', Conv_u]"

text \<open>
  The octets are stored one by one, so a rejected octet leaves the earlier ones overwritten:
  the result is the return value and the address behind \<open>out_ip\<close> afterwards.
\<close>

fun store_octets :: "int list \<Rightarrow> bytes \<Rightarrow> bytes \<Rightarrow> bool \<times> bytes" where
  "store_octets (v # vs) done (b # bs) =
    (if 255 < v then (False, done @ b # bs) else store_octets vs (done @ [word_of_int v]) bs)"
| "store_octets vs done bs = (True, done @ bs)"

definition ip_store :: "int list \<Rightarrow> int \<Rightarrow> ip_address \<Rightarrow> bool \<times> ip_address" where
  "ip_store vs pre out_ip =
    (if pre < 0 \<or> 32 < pre then (False, out_ip)
     else case store_octets vs [] (octet_bytes (octet out_ip)) of
       (ok, bs) \<Rightarrow>
         let out1 = out_ip\<lparr>octet := octets_of_list bs\<rparr>
         in (ok, if ok then out1\<lparr>prefix := word_of_int pre\<rparr> else out1))"

definition ip_parse :: "string \<Rightarrow> ip_address \<Rightarrow> (bool \<times> ip_address) option" where
  "ip_parse str out_ip =
    (case sscanf (ip_format @ [Literal CHR ''/'', Conv_d]) str [] of
       None \<Rightarrow> None
     | Some vs \<Rightarrow>
         if length vs = 5 then Some (ip_store (take 4 vs) (vs ! 4) out_ip)
         else (case sscanf ip_format str [] of
                 None \<Rightarrow> None
               | Some ws \<Rightarrow> if length ws \<noteq> 4 then Some (False, out_ip) else Some (ip_store ws 0 out_ip)))"

section \<open>Address facts\<close>

lemma bytes_equal_iff [simp]: "bytes_equal xs ys \<longleftrightarrow> xs = ys"
  by (induction xs ys rule: bytes_equal.induct) auto

lemma mac_bytes_inject [simp]: "mac_bytes a = mac_bytes b \<longleftrightarrow> a = b"
  by (cases a; cases b) simp

lemma length_mac_bytes [simp]: "length (mac_bytes m) = 6"
  by (cases m) simp

lemma mac_of_mac_bytes [simp]: "mac_of_list (mac_bytes m @ r) = m"
  by (cases m) (simp add: mac_of_list_def)

lemma mac_equal_iff [simp]: "mac_equal a b \<longleftrightarrow> a = b"
  by (simp add: mac_equal_def)

lemma ethernet_is_broadcast_iff [simp]: "ethernet_is_broadcast m \<longleftrightarrow> m = mac_broadcast"
  by (cases m) (auto simp: ethernet_is_broadcast_def mac_broadcast_def)

lemma octet_bytes_inject [simp]: "octet_bytes a = octet_bytes b \<longleftrightarrow> a = b"
  by (cases a; cases b) simp

lemma length_octet_bytes [simp]: "length (octet_bytes os) = 4"
  by (cases os) simp

lemma octets_of_octet_bytes [simp]: "octets_of_list (octet_bytes os @ r) = os"
  by (cases os) (simp add: octets_of_list_def)

lemma ip_octets_equal_iff [simp]: "ip_octets_equal a b \<longleftrightarrow> octet a = octet b"
  by (simp add: ip_octets_equal_def)

lemma ip_equal_iff: "ip_equal a b \<longleftrightarrow> a = (b :: ip_address)"
  by (auto simp: ip_equal_def)

lemma u32_octets_u32 [simp]: "ip_to_u32 \<lparr>octet = u32_octets n, prefix = p\<rparr> = n"
  by (simp add: ip_to_u32_def u32_octets_def)

section \<open>Prefix masks\<close>

lemma bit_prefix_mask:
  "bit (ip_prefix_to_mask p) n \<longleftrightarrow> n < 32 \<and> 32 \<le> n + unat p"
proof -
  have m: "(0xFFFFFFFF :: u32) = mask 32" by (simp add: mask_eq_exp_minus_1)
  have le: "32 \<le> p \<longleftrightarrow> 32 \<le> unat p" by (simp add: word_le_nat_alt)
  have z: "p = 0 \<longleftrightarrow> unat p = 0" by (simp add: unat_eq_zero)
  show ?thesis
    unfolding ip_prefix_to_mask_def m le z by (auto simp: bit_simps)
qed

text \<open>Masked values agree exactly when the first \<open>prefix\<close> bits do.\<close>

lemma masked_eq_iff:
  "a AND ip_prefix_to_mask p = b AND ip_prefix_to_mask p
    \<longleftrightarrow> (\<forall>n<32. 32 \<le> n + unat p \<longrightarrow> bit a n = bit b n)"
  by (auto simp: bit_eq_iff bit_and_iff bit_prefix_mask dest: bit_imp_le_length)

lemma masked_idem [simp]: "(a AND ip_prefix_to_mask p) AND ip_prefix_to_mask p = a AND ip_prefix_to_mask p"
  by (simp add: and.assoc)

lemma ip_to_u32_update [simp]: "ip_to_u32 (ip\<lparr>octet := u32_octets n\<rparr>) = n"
  by (simp add: ip_to_u32_def u32_octets_def)

lemma ip_to_u32_network:
  "ip_to_u32 (ip_network_address ip) = ip_to_u32 ip AND ip_prefix_to_mask (prefix ip)"
  by (simp add: ip_network_address_def Let_def)

lemma prefix_network [simp]: "prefix (ip_network_address ip) = prefix ip"
  by (simp add: ip_network_address_def Let_def)

lemma ip_to_u32_octets: "u32_octets (ip_to_u32 ip) = octet ip"
proof -
  obtain a b c d where o: "octet ip = Octets a b c d" by (cases "octet ip")
  have "(ucast (drop_bit 24 (be32 a b c d)) :: u8) = a"
    by (rule bit_word_eqI) (auto simp: be32_def bit_simps dest: bit_imp_le_length)
  moreover have "(ucast (drop_bit 16 (be32 a b c d)) :: u8) = b"
    by (rule bit_word_eqI) (auto simp: be32_def bit_simps dest: bit_imp_le_length)
  moreover have "(ucast (drop_bit 8 (be32 a b c d)) :: u8) = c"
    by (rule bit_word_eqI) (auto simp: be32_def bit_simps dest: bit_imp_le_length)
  moreover have "(ucast (be32 a b c d AND 0xFF) :: u8) = d"
  proof -
    have m: "(0xFF :: u32) = mask 8" by (simp add: mask_eq_exp_minus_1)
    show ?thesis unfolding m
      by (rule bit_word_eqI) (auto simp: be32_def bit_simps dest: bit_imp_le_length)
  qed
  ultimately show ?thesis by (simp add: o ip_to_u32_def u32_octets_def)
qed

lemma ip_to_u32_inject: "ip_to_u32 a = ip_to_u32 b \<longleftrightarrow> octet a = octet b"
proof
  assume "ip_to_u32 a = ip_to_u32 b"
  then show "octet a = octet b" by (metis ip_to_u32_octets)
qed (simp add: ip_to_u32_def)

section \<open>Printing and parsing\<close>

lemma of_char_digit: "d < 10 \<Longrightarrow> of_char (digit_char d) = 48 + d"
  by (simp add: digit_char_def of_char_of)

lemma is_digit_digit [simp]: "d < 10 \<Longrightarrow> is_digit (digit_char d)"
  by (simp add: is_digit_def of_char_digit)

lemma decimal_Nil [simp]: "decimal n \<noteq> []"
  by (subst decimal.simps) simp

lemma decimal_hd: "is_digit (hd (decimal n @ r))"
proof (induction n arbitrary: r rule: decimal.induct)
  case (1 n)
  then show ?case by (subst decimal.simps) (auto simp: hd_append)
qed

lemma length_decimal: "n < 1000 \<Longrightarrow> length (decimal n) \<le> 3"
  by (subst decimal.simps, subst decimal.simps, subst decimal.simps) auto

lemma scan_digits_decimal:
  "scan_digits acc (decimal n @ r) = scan_digits (acc * 10 ^ length (decimal n) + n) r"
proof (induction n arbitrary: acc r rule: decimal.induct)
  case (1 n)
  show ?case
  proof (cases "n < 10")
    case True
    then show ?thesis by (subst (1 2) decimal.simps) (simp add: of_char_digit)
  next
    case False
    have "scan_digits acc (decimal n @ r)
        = scan_digits acc (decimal (n div 10) @ digit_char (n mod 10) # r)"
      using False by (subst decimal.simps) simp
    also have "\<dots> = scan_digits (acc * 10 ^ length (decimal (n div 10)) + n div 10) (digit_char (n mod 10) # r)"
      by (rule 1) (use False in simp)
    also have "\<dots> = scan_digits (acc * 10 ^ Suc (length (decimal (n div 10))) + n) r"
      by (simp add: of_char_digit algebra_simps)
    also have "Suc (length (decimal (n div 10))) = length (decimal n)"
      using False by (subst (2) decimal.simps) simp
    finally show ?thesis .
  qed
qed

lemma digit_not_space: "is_digit c \<Longrightarrow> \<not> is_space c"
  by (auto simp: is_digit_def is_space_def)

lemma digit_not_sign: "is_digit c \<Longrightarrow> c \<noteq> CHR ''-'' \<and> c \<noteq> CHR ''+''"
  by (auto simp: is_digit_def)

definition no_digit :: "string \<Rightarrow> bool" where
  "no_digit r \<longleftrightarrow> r = [] \<or> \<not> is_digit (hd r)"

lemma scan_signed_decimal:
  assumes "no_digit r"
  shows "scan_signed (decimal n @ r) = Some (int n, r)"
proof -
  have ne: "decimal n @ r \<noteq> []" by simp
  have d: "is_digit (hd (decimal n @ r))" by (rule decimal_hd)
  have drop: "dropWhile is_space (decimal n @ r) = decimal n @ r"
    using ne digit_not_space [OF d] by (cases "decimal n @ r") auto
  have stop: "scan_digits n r = (n, r)" using assms by (cases r) (auto simp: no_digit_def)
  have "scan_digits 0 (decimal n @ r) = (n, r)" by (simp add: scan_digits_decimal stop)
  then show ?thesis
    using d digit_not_sign [OF d] unfolding scan_signed_def Let_def drop by simp
qed

lemma sscanf_decimal_u:
  assumes "no_digit r" "n < 2 ^ 32"
  shows "sscanf (Conv_u # ds) (decimal n @ r) vs = sscanf ds r (vs @ [int n])"
proof -
  have "int n < 2 ^ 32" using assms(2) by (metis of_nat_less_iff of_nat_numeral of_nat_power)
  then show ?thesis by (simp add: scan_signed_decimal [OF assms(1)] representable_def)
qed

lemma sscanf_decimal_d:
  assumes "no_digit r" "n < 2 ^ 31"
  shows "sscanf (Conv_d # ds) (decimal n @ r) vs = sscanf ds r (vs @ [int n])"
proof -
  have "int n < 2 ^ 31" using assms(2) by (metis of_nat_less_iff of_nat_numeral of_nat_power)
  then show ?thesis by (simp add: scan_signed_decimal [OF assms(1)] representable_def)
qed

lemma no_digit_simps [simp]: "no_digit []" "no_digit (CHR ''.'' # r)" "no_digit (CHR ''/'' # r)"
  by (auto simp: no_digit_def is_digit_def)

lemma store_octets_fit:
  "(\<And>v. v \<in> set vs \<Longrightarrow> v \<le> 255) \<Longrightarrow> length vs = length bs
    \<Longrightarrow> store_octets vs done bs = (True, done @ map word_of_int vs)"
proof (induction vs "done" bs rule: store_octets.induct)
  case (1 v vs "done" b bs)
  then show ?case by (auto simp: not_less)
qed auto

text \<open>The dotted form without truncation.\<close>

definition dotted :: "octets \<Rightarrow> string \<Rightarrow> string" where
  "dotted os r = (case os of Octets a b c d \<Rightarrow>
     decimal (unat a) @ CHR ''.'' # decimal (unat b) @ CHR ''.'' # decimal (unat c) @ CHR ''.'' # decimal (unat d) @ r)"

lemma octet_decimal: "length (decimal (unat (b :: u8))) \<le> 3"
  using u8_bound [of b] by (intro length_decimal) simp

lemma ip_to_string_dotted:
  assumes "20 \<le> out_size"
  shows "ip_to_string ip out_size True = dotted (octet ip) (CHR ''/'' # decimal (unat (prefix ip)))"
    and "ip_to_string ip out_size False = dotted (octet ip) []"
proof -
  obtain a b c d where o: "octet ip = Octets a b c d" by (cases "octet ip")
  have "length (decimal (unat a)) + length (decimal (unat b)) + length (decimal (unat c))
      + length (decimal (unat d)) + length (decimal (unat (prefix ip))) \<le> 15"
    using octet_decimal [of a] octet_decimal [of b] octet_decimal [of c] octet_decimal [of d]
      octet_decimal [of "prefix ip"] by linarith
  with assms show "ip_to_string ip out_size True = dotted (octet ip) (CHR ''/'' # decimal (unat (prefix ip)))"
    and "ip_to_string ip out_size False = dotted (octet ip) []"
    by (simp_all add: ip_to_string_def dotted_def o Let_def)
qed

lemma sscanf_dotted:
  assumes "no_digit r"
  shows "sscanf (ip_format @ ds) (dotted (Octets a b c d) r) []
    = sscanf ds r [uint a, uint b, uint c, uint d]"
proof -
  have "unat x < 2 ^ 32" for x :: u8 using u8_bound [of x] by simp
  then show ?thesis
    by (simp add: ip_format_def dotted_def sscanf_decimal_u assms del: sscanf.simps(3))
qed

lemma ip_store_octets:
  assumes "pre \<le> 32"
  shows "ip_store [uint a, uint b, uint c, uint d] (int pre) out_ip
    = (True, out_ip\<lparr>octet := Octets a b c d, prefix := of_nat pre\<rparr>)"
proof -
  have le: "uint x \<le> 255" for x :: u8 using u8_bound [of x] unfolding uint_nat by linarith
  have "store_octets [uint a, uint b, uint c, uint d] [] (octet_bytes (octet out_ip))
      = (True, [a, b, c, d])"
    using le by (subst store_octets_fit) auto
  then show ?thesis
    using assms by (simp add: ip_store_def octets_of_list_def)
qed

lemma ip_parse_dotted_prefix:
  assumes "pre \<le> 32"
  shows "ip_parse (dotted os (CHR ''/'' # decimal pre)) out_ip
    = Some (True, out_ip\<lparr>octet := os, prefix := of_nat pre\<rparr>)"
proof (cases os)
  case (Octets a b c d)
  have "pre < 2 ^ 31" using assms by simp
  then have "sscanf [Conv_d] (decimal pre @ []) [uint a, uint b, uint c, uint d]
      = Some [uint a, uint b, uint c, uint d, int pre]"
    by (subst sscanf_decimal_d) simp_all
  then show ?thesis
    unfolding ip_parse_def Octets
    by (simp add: sscanf_dotted ip_store_octets assms del: sscanf.simps(3))
qed

lemma ip_parse_dotted:
  "ip_parse (dotted os []) out_ip = Some (True, out_ip\<lparr>octet := os, prefix := 0\<rparr>)"
proof (cases os)
  case (Octets a b c d)
  show ?thesis
    using sscanf_dotted [of "[]" "[]" a b c d] ip_store_octets [of 0 a b c d out_ip]
    unfolding ip_parse_def Octets by (simp add: sscanf_dotted)
qed

end
