(* ===== verification/Checksum.thy ===== *)
theory Checksum
  imports Prelude
begin

text \<open>
  The Internet checksum (RFC 1071) as every protocol of the stack computes it: a 32-bit
  accumulator, the next big-endian 16-bit word added, and the carry folded back after each
  addition. \<open>fold_carry\<close> is the inner \<^verbatim>\<open>while (sum >> 16)\<close> loop, \<open>sum_words\<close> the outer
  one over a buffer (an odd last byte is the high half of a word), \<open>finish_checksum\<close> the final
  complement. The lemmas relate the loops to the sum of the words in the natural numbers modulo
  65535, which is what makes a checksum verifiable.
\<close>

section \<open>The code\<close>

function fold_carry :: "u32 \<Rightarrow> u32" where
  "fold_carry s = (if drop_bit 16 s \<noteq> 0 then fold_carry ((s AND 0xFFFF) + drop_bit 16 s) else s)"
  by pat_completeness auto

lemma high16_zero: "drop_bit 16 (s :: u32) = 0 \<longleftrightarrow> unat s < 65536"
  using u32_high16 [of s] by (metis div_eq_0_iff unat_eq_zero zero_neq_numeral)

lemma unat_fold_step:
  "unat ((s AND 0xFFFF) + drop_bit 16 (s :: u32)) = unat s mod 65536 + unat s div 65536"
proof -
  have "unat s div 65536 \<le> 65535" using u32_bound [of s] by (simp add: less_mult_imp_div_less flip: less_Suc_eq_le)
  moreover have "unat s mod 65536 < 65536" by simp
  ultimately have "unat s mod 65536 + unat s div 65536 < 4294967296" by linarith
  then show ?thesis
    by (simp add: unat_word_ariths u32_low16 u32_high16)
qed

termination fold_carry
proof (relation "measure unat")
  fix s :: u32 assume "drop_bit 16 s \<noteq> 0"
  then have "65536 \<le> unat s" by (simp add: high16_zero)
  then have "unat s mod 65536 + unat s div 65536 < unat s"
    using div_mult_mod_eq [of "unat s" 65536] by linarith
  then show "((s AND 0xFFFF) + drop_bit 16 s, s) \<in> measure unat"
    by (simp add: unat_fold_step)
qed simp

declare fold_carry.simps [simp del]

definition add_word :: "u32 \<Rightarrow> u16 \<Rightarrow> u32" where
  "add_word s w = fold_carry (s + ucast w)"

fun sum_words :: "u32 \<Rightarrow> bytes \<Rightarrow> u32" where
  "sum_words s [] = s"
| "sum_words s [a] = add_word s (push_bit 8 (ucast a))"
| "sum_words s (a # b # raw) = sum_words (add_word s (be16 a b)) raw"

definition finish_checksum :: "u32 \<Rightarrow> u16" where
  "finish_checksum s = ucast (NOT s AND 0xFFFF)"

section \<open>The sum in the natural numbers\<close>

fun words_total :: "bytes \<Rightarrow> nat" where
  "words_total [] = 0"
| "words_total [a] = unat a * 256"
| "words_total (a # b # raw) = unat a * 256 + unat b + words_total raw"

lemma fold_carry_bound: "unat (fold_carry s) < 65536"
proof (induction s rule: fold_carry.induct)
  case (1 s)
  then show ?case by (subst fold_carry.simps) (auto simp: high16_zero)
qed

lemma fold_step_mod: "(n mod 65536 + n div 65536) mod 65535 = n mod (65535 :: nat)"
proof -
  have "n = n mod 65536 + n div 65536 + 65535 * (n div 65536)"
    using div_mult_mod_eq [of n 65536] by simp
  then show ?thesis by (metis mod_mult_self2)
qed

lemma fold_carry_mod: "unat (fold_carry s) mod 65535 = unat s mod 65535"
proof (induction s rule: fold_carry.induct)
  case (1 s)
  then show ?case
    by (subst fold_carry.simps) (auto simp: unat_fold_step fold_step_mod)
qed

lemma fold_carry_zero: "fold_carry s = 0 \<longleftrightarrow> s = 0"
proof (induction s rule: fold_carry.induct)
  case (1 s)
  show ?case
  proof (cases "drop_bit 16 s = 0")
    case True
    then show ?thesis by (subst fold_carry.simps) simp
  next
    case False
    then have "unat s div 65536 \<noteq> 0" by (simp add: high16_zero)
    then have "unat ((s AND 0xFFFF) + drop_bit 16 s) \<noteq> 0" by (simp add: unat_fold_step)
    then have "(s AND 0xFFFF) + drop_bit 16 s \<noteq> 0" by (metis unat_0)
    moreover have "s \<noteq> 0" using False by auto
    ultimately show ?thesis using "1" False by (subst fold_carry.simps) simp
  qed
qed

text \<open>A folded sum is a 16-bit value congruent to the total, and 0 only for an empty total.\<close>

definition folded :: "u32 \<Rightarrow> nat \<Rightarrow> bool" where
  "folded s n \<longleftrightarrow> unat s < 65536 \<and> unat s mod 65535 = n mod 65535 \<and> (s = 0 \<longleftrightarrow> n = 0)"

lemma folded_zero [simp]: "folded 0 0"
  by (simp add: folded_def)

lemma folded_add_word: "folded s n \<Longrightarrow> folded (add_word s w) (n + unat w)"
proof -
  assume f: "folded s n"
  have w: "unat w < 65536" by (rule u16_bound)
  have uw: "unat (ucast w :: u32) = unat w" by (rule u32_of_u16)
  have sum: "unat (s + ucast w) = unat s + unat w"
    using f w by (simp add: folded_def unat_word_ariths uw mod_less)
  have "s + ucast w = 0 \<longleftrightarrow> n + unat w = 0"
  proof -
    have "s + ucast w = 0 \<longleftrightarrow> unat (s + ucast w) = 0" by (simp add: unat_eq_zero)
    also have "\<dots> \<longleftrightarrow> unat s = 0 \<and> unat w = 0" unfolding sum by simp
    also have "\<dots> \<longleftrightarrow> n + unat w = 0" using f by (simp add: folded_def unat_eq_zero)
    finally show ?thesis .
  qed
  moreover have "(unat s + unat w) mod 65535 = (n + unat w) mod 65535"
    using f by (intro mod_add_cong) (auto simp: folded_def)
  ultimately show ?thesis
    by (simp add: folded_def add_word_def fold_carry_bound fold_carry_mod fold_carry_zero sum)
qed

lemma unat_high_byte: "unat (push_bit 8 (ucast (a :: u8)) :: u16) = unat a * 256"
  using unat_be16 [of a 0] by (simp add: be16_def)

lemma folded_sum_words: "folded s n \<Longrightarrow> folded (sum_words s raw) (n + words_total raw)"
proof (induction s raw arbitrary: n rule: sum_words.induct)
  case (2 s a)
  then show ?case using folded_add_word [of s n "push_bit 8 (ucast a)"]
    by (simp add: unat_high_byte)
next
  case (3 s a b raw)
  from "3.IH" [OF folded_add_word [OF "3.prems"]] show ?case
    by (simp add: unat_be16 add.assoc)
qed simp

lemma unat_finish: "unat s < 65536 \<Longrightarrow> unat (finish_checksum s) = 65535 - unat s"
proof -
  assume s: "unat s < 65536"
  have "4294967295 - unat s = 65536 * 65535 + (65535 - unat s)" using s by simp
  then have "unat (NOT s AND 0xFFFF) = (65536 * 65535 + (65535 - unat s)) mod 65536"
    by (simp only: u32_low16 u32_not)
  also have "\<dots> = (65535 - unat s) mod 65536" by (rule mod_mult_self4)
  also have "\<dots> = 65535 - unat s" by simp
  finally show ?thesis
    by (simp add: finish_checksum_def u16_of_u32)
qed

lemma mod_65535_zero: "(n :: nat) < 65536 \<Longrightarrow> n mod 65535 = 0 \<longleftrightarrow> n = 0 \<or> n = 65535"
  by (cases "n < 65535"; cases "n = 65535") auto

lemma finish_folded:
  assumes "folded s n"
  shows "finish_checksum s = 0 \<longleftrightarrow> 0 < n \<and> n mod 65535 = 0"
proof -
  have u: "unat s < 65536" "unat s mod 65535 = n mod 65535" "s = 0 \<longleftrightarrow> n = 0"
    using assms by (auto simp: folded_def)
  have "finish_checksum s = 0 \<longleftrightarrow> unat (finish_checksum s) = 0" by (simp add: unat_eq_zero)
  also have "\<dots> \<longleftrightarrow> unat s = 65535" using u(1) by (simp add: unat_finish) linarith
  also have "\<dots> \<longleftrightarrow> 0 < unat s \<and> unat s mod 65535 = 0"
    using mod_65535_zero [OF u(1)] by auto
  also have "\<dots> \<longleftrightarrow> 0 < n \<and> n mod 65535 = 0"
    using u(2,3) by (simp add: unat_gt_0)
  finally show ?thesis .
qed

text \<open>
  The fact receivers rely on: the complement of a folded sum, added to the words it was computed
  over, makes the total checksum vanish.
\<close>

lemma finish_completes:
  assumes "folded s n"
  shows "0 < n + unat (finish_checksum s) \<and> (n + unat (finish_checksum s)) mod 65535 = 0"
proof -
  have u: "unat s < 65536" "unat s mod 65535 = n mod 65535" "s = 0 \<longleftrightarrow> n = 0"
    using assms by (auto simp: folded_def)
  have c: "unat (finish_checksum s) = 65535 - unat s" by (rule unat_finish [OF u(1)])
  have "unat s + (65535 - unat s) = 65535" using u(1) by simp
  moreover have "(unat s + (65535 - unat s)) mod 65535 = (n + (65535 - unat s)) mod 65535"
    by (intro mod_add_cong u(2)) simp
  ultimately have "(n + (65535 - unat s)) mod 65535 = 0" by simp
  moreover have "0 < n + (65535 - unat s)"
    using u(3) by (cases "n = 0") auto
  ultimately show ?thesis by (simp add: c)
qed

section \<open>Patching the checksum field\<close>

lemma words_total_append:
  "even (length xs) \<Longrightarrow> words_total (xs @ ys) = words_total xs + words_total ys"
  by (induction xs rule: words_total.induct) auto

lemma words_total_write_u16 [simp]: "words_total (write_u16_be v) = unat v"
  using be16_split [of v] unat_be16 [of "ucast (drop_bit 8 v)" "ucast (v AND 0xFF)"]
  by (simp add: write_u16_be_def)

lemma patch_append:
  "length xs = i \<Longrightarrow> length mid = 2 \<Longrightarrow> patch_u16_be i v (xs @ mid @ ys) = xs @ write_u16_be v @ ys"
  by (cases mid; cases "tl mid")
    (auto simp: patch_u16_be_def write_u16_be_def list_update_append)

lemma words_total_patch:
  assumes "even i" "i + 1 < length bs" "bs ! i = 0" "bs ! (i + 1) = 0"
  shows "words_total (patch_u16_be i v bs) = words_total bs + unat v"
proof -
  have split: "bs = take i bs @ [0, 0] @ drop (i + 2) bs"
  proof -
    have "bs = take i bs @ bs ! i # drop (Suc i) bs" using assms(2) by (intro id_take_nth_drop) simp
    also have "drop (Suc i) bs = bs ! (i + 1) # drop (i + 2) bs"
      using assms(2) Cons_nth_drop_Suc [of "Suc i" bs] by simp
    finally show ?thesis unfolding assms(3,4) by simp
  qed
  let ?x = "take i bs" and ?y = "drop (i + 2) bs"
  have len: "length ?x = i" using assms by simp
  then have ev: "even (length ?x)" using assms by simp
  have "patch_u16_be i v bs = ?x @ write_u16_be v @ ?y"
    by (subst split, rule patch_append [OF len]) simp
  then have "words_total (patch_u16_be i v bs) = words_total ?x + (unat v + words_total ?y)"
    by (simp add: words_total_append [OF ev] words_total_append)
  also have "\<dots> = words_total (?x @ [0, 0] @ ?y) + unat v"
    by (simp add: words_total_append [OF ev])
  finally show ?thesis using split by simp
qed

lemma words_total_update:
  "k < length bs \<Longrightarrow> words_total (bs[k := b]) + (if even k then 256 else 1) * unat (bs ! k)
    = words_total bs + (if even k then 256 else 1) * unat b"
proof (induction bs arbitrary: k rule: words_total.induct)
  case (2 a)
  then show ?case by simp
next
  case (3 a c raw)
  consider "k = 0" | "k = 1" | j where "k = j + 2" "j < length raw"
    using "3.prems" by (cases k; cases "k - 1") auto
  then show ?case
  proof cases
    case (3 j)
    then show ?thesis using "3.IH" [of j] by simp
  qed auto
qed simp

text \<open>
  Error detection: changing one byte of the summed words changes the total by less than 65535,
  so no two such totals are congruent.
\<close>

lemma one_byte_detected:
  assumes "k < length bs" "b \<noteq> bs ! k" "(m + words_total bs) mod 65535 = 0"
  shows "(m + words_total (bs[k := b])) mod 65535 \<noteq> 0"
proof
  assume *: "(m + words_total (bs[k := b])) mod 65535 = 0"
  let ?w = "if even k then 256 else (1 :: nat)"
  let ?d = "int (?w * unat b) - int (?w * unat (bs ! k))"
  have eq: "int (m + words_total (bs[k := b])) - int (m + words_total bs) = ?d"
    using words_total_update [OF assms(1), of b] by (simp only: of_nat_add [symmetric] of_nat_mult [symmetric])
  have "65535 dvd int (m + words_total (bs[k := b]))" "65535 dvd int (m + words_total bs)"
    using * assms(3) by (metis dvd_eq_mod_eq_0 int_dvd_int_iff of_nat_numeral)+
  then have "65535 dvd ?d" unfolding eq [symmetric] by (rule dvd_diff)
  moreover have "\<bar>?d\<bar> < 65535"
  proof -
    have u: "0 \<le> uint x \<and> uint x < 256" for x :: u8
      using u8_bound [of x] unfolding uint_nat by linarith
    have bound: "0 \<le> x \<Longrightarrow> x < 256 \<Longrightarrow> 0 \<le> y \<Longrightarrow> y < 256
        \<Longrightarrow> \<bar>256 * x - 256 * y\<bar> < 65535 \<and> \<bar>x - y\<bar> < 65535" for x y :: int
      by auto
    show ?thesis using bound [of "uint b" "uint (bs ! k)"] u [of b] u [of "bs ! k"]
      by (cases "even k") auto
  qed
  moreover have "?d \<noteq> 0" using assms(2) by (auto simp: word_uint_eq_iff)
  ultimately show False by (metis dvd_imp_le_int abs_numeral linorder_not_le)
qed

section \<open>Plain and pseudo-header checksums\<close>

text \<open>\<open>ipv4_compute_checksum\<close> and \<open>icmp_compute_checksum\<close> are the same function.\<close>

definition compute_checksum :: "bytes \<Rightarrow> u16" where
  "compute_checksum raw = (if raw = [] then 0 else finish_checksum (sum_words 0 raw))"

text \<open>
  \<open>tcp_compute_checksum\<close> and \<open>udp_compute_checksum\<close> first add the pseudo-header: both
  addresses, the protocol number and the length.
\<close>

definition pseudo_sum :: "u16 \<Rightarrow> bytes \<Rightarrow> bytes \<Rightarrow> nat \<Rightarrow> u32" where
  "pseudo_sum protocol src dst len =
    add_word (add_word (sum_words (sum_words 0 src) dst) protocol) (of_nat len)"

definition pseudo_checksum :: "u16 \<Rightarrow> bytes \<Rightarrow> bytes \<Rightarrow> bytes \<Rightarrow> u16" where
  "pseudo_checksum protocol src dst raw =
    finish_checksum (sum_words (pseudo_sum protocol src dst (length raw)) raw)"

definition pseudo_total :: "u16 \<Rightarrow> bytes \<Rightarrow> bytes \<Rightarrow> nat \<Rightarrow> nat" where
  "pseudo_total protocol src dst len =
    words_total src + words_total dst + unat protocol + unat (of_nat len :: u16)"

lemma folded_plain: "folded (sum_words 0 raw) (words_total raw)"
  using folded_sum_words [OF folded_zero, of raw] by simp

lemma folded_pseudo:
  "folded (sum_words (pseudo_sum p src dst len) raw) (pseudo_total p src dst len + words_total raw)"
  unfolding pseudo_sum_def pseudo_total_def
  by (intro folded_sum_words folded_add_word folded_plain)

lemma compute_checksum_zero_iff:
  "raw \<noteq> [] \<Longrightarrow> compute_checksum raw = 0 \<longleftrightarrow> 0 < words_total raw \<and> words_total raw mod 65535 = 0"
  by (simp add: compute_checksum_def finish_folded [OF folded_plain])

lemma pseudo_checksum_zero_iff:
  "pseudo_checksum p src dst raw = 0 \<longleftrightarrow>
    0 < pseudo_total p src dst (length raw) + words_total raw \<and>
    (pseudo_total p src dst (length raw) + words_total raw) mod 65535 = 0"
  by (simp add: pseudo_checksum_def finish_folded [OF folded_pseudo])

text \<open>A buffer whose zero checksum field is filled in with its checksum verifies.\<close>

lemma compute_checksum_completes:
  assumes "even i" "i + 1 < length raw" "raw ! i = 0" "raw ! (i + 1) = 0"
  shows "compute_checksum (patch_u16_be i (compute_checksum raw) raw) = 0"
proof -
  have ne: "raw \<noteq> []" "patch_u16_be i v raw \<noteq> []" for v
    using assms(2) by (auto simp: patch_u16_be_def)
  show ?thesis
    using finish_completes [OF folded_plain, of raw] ne
    by (simp add: compute_checksum_zero_iff words_total_patch [OF assms])
      (simp add: compute_checksum_def)
qed

lemma pseudo_checksum_completes:
  assumes "even i" "i + 1 < length raw" "raw ! i = 0" "raw ! (i + 1) = 0"
  shows "pseudo_checksum p src dst (patch_u16_be i (pseudo_checksum p src dst raw) raw) = 0"
  using finish_completes [OF folded_pseudo, of p src dst "length raw" raw]
  by (simp add: pseudo_checksum_zero_iff words_total_patch [OF assms] add.assoc)
    (simp add: pseudo_checksum_def add.assoc)

lemma compute_checksum_detects:
  assumes "compute_checksum raw = 0" "k < length raw" "b \<noteq> raw ! k"
  shows "compute_checksum (raw[k := b]) \<noteq> 0"
proof -
  have ne: "raw \<noteq> []" using assms(2) by auto
  then have "(0 + words_total raw) mod 65535 = 0"
    using assms(1) by (simp add: compute_checksum_zero_iff)
  from one_byte_detected [OF assms(2,3) this] show ?thesis
    using ne by (simp add: compute_checksum_zero_iff)
qed

lemma pseudo_checksum_detects:
  assumes "pseudo_checksum p src dst raw = 0" "k < length raw" "b \<noteq> raw ! k"
  shows "pseudo_checksum p src dst (raw[k := b]) \<noteq> 0"
  using one_byte_detected [OF assms(2,3), of "pseudo_total p src dst (length raw)"] assms(1)
  by (simp add: pseudo_checksum_zero_iff)

end
