(* ===== verification/Ipv4.thy ===== *)
theory Ipv4
  imports Address Checksum
begin

text \<open>
  IPv4 packets: the packet half of \<^verbatim>\<open>layer3/ipv4.c\<close>. The serialiser always writes a
  20-byte header with zero type of service, identification and fragment fields; the parser skips
  those fields and any options; \<open>ipv4_validate_checksum\<close> serialises the parsed packet again and
  checks the received checksum against that canonical header.
\<close>

record ipv4_packet =
  ip4_version :: u8
  ip4_ihl :: u8
  ip4_total_length :: u16
  ip4_ttl :: u8
  ip4_protocol :: u8
  ip4_checksum :: u16
  ip4_src :: ip_address
  ip4_dst :: ip_address
  ip4_payload :: bytes

abbreviation IPV4_HEADER_SIZE :: nat where "IPV4_HEADER_SIZE \<equiv> 20"
abbreviation IPV4_MAX_PAYLOAD :: nat where "IPV4_MAX_PAYLOAD \<equiv> 1480"
abbreviation IPV4_PROTOCOL_ICMP :: u8 where "IPV4_PROTOCOL_ICMP \<equiv> 1"
abbreviation IPV4_PROTOCOL_TCP :: u8 where "IPV4_PROTOCOL_TCP \<equiv> 6"
abbreviation IPV4_PROTOCOL_UDP :: u8 where "IPV4_PROTOCOL_UDP \<equiv> 17"
abbreviation IPV4_DEFAULT_TTL :: u8 where "IPV4_DEFAULT_TTL \<equiv> 64"

definition ipv4_init :: ipv4_packet where
  "ipv4_init = \<lparr>ip4_version = 4, ip4_ihl = 5, ip4_total_length = 0, ip4_ttl = IPV4_DEFAULT_TTL,
     ip4_protocol = 0, ip4_checksum = 0, ip4_src = zero_ip, ip4_dst = zero_ip, ip4_payload = []\<rparr>"

definition ipv4_create :: "ip_address \<Rightarrow> ip_address \<Rightarrow> u8 \<Rightarrow> u8 \<Rightarrow> bytes \<Rightarrow> ipv4_packet option" where
  "ipv4_create src dst ttl protocol payload =
    (if IPV4_MAX_PAYLOAD < length payload then None
     else Some (ipv4_init\<lparr>ip4_src := src, ip4_dst := dst, ip4_ttl := ttl, ip4_protocol := protocol,
       ip4_total_length := of_nat (IPV4_HEADER_SIZE + length payload), ip4_payload := payload\<rparr>))"

definition ipv4_compute_checksum :: "bytes \<Rightarrow> u16" where
  "ipv4_compute_checksum header = compute_checksum header"

text \<open>The header as it stands before the checksum is patched in at offset 10.\<close>

definition ipv4_header :: "ipv4_packet \<Rightarrow> bytes" where
  "ipv4_header p =
    [push_bit 4 4 OR 5, 0] @ write_u16_be (of_nat (IPV4_HEADER_SIZE + length (ip4_payload p))) @
    write_u16_be 0 @ write_u16_be 0 @ [ip4_ttl p, ip4_protocol p] @ write_u16_be 0 @
    octet_bytes (octet (ip4_src p)) @ octet_bytes (octet (ip4_dst p))"

definition ipv4_to_bytes :: "ipv4_packet \<Rightarrow> nat \<Rightarrow> bytes option" where
  "ipv4_to_bytes p out_size =
    (if IPV4_MAX_PAYLOAD < length (ip4_payload p) then None
     else
       let total_length = of_nat (IPV4_HEADER_SIZE + length (ip4_payload p)) :: u16
       in if out_size < unat total_length then None
          else let out = ipv4_header p; checksum = ipv4_compute_checksum out
               in Some (patch_u16_be 10 checksum out @ ip4_payload p))"

definition ipv4_from_bytes :: "bytes \<Rightarrow> ipv4_packet option" where
  "ipv4_from_bytes raw =
    (if length raw < IPV4_HEADER_SIZE then None
     else
       let version = drop_bit 4 (raw ! 0); ihl = raw ! 0 AND 0x0F; header_len = unat ihl * 4
       in if version \<noteq> 4 \<or> ihl < 5 \<or> length raw < header_len then None
          else
            let total_length = read_u16_be raw 2
            in if unat total_length < header_len \<or> length raw < unat total_length then None
               else if IPV4_MAX_PAYLOAD < unat total_length - header_len then None
               else Some \<lparr>ip4_version = version, ip4_ihl = ihl, ip4_total_length = total_length,
                      ip4_ttl = raw ! 8, ip4_protocol = raw ! 9, ip4_checksum = read_u16_be raw 10,
                      ip4_src = \<lparr>octet = octets_of_list (drop 12 raw), prefix = 0\<rparr>,
                      ip4_dst = \<lparr>octet = octets_of_list (drop 16 raw), prefix = 0\<rparr>,
                      ip4_payload = take (unat total_length - header_len) (drop header_len raw)\<rparr>)"

definition ipv4_validate_checksum :: "ipv4_packet \<Rightarrow> bool" where
  "ipv4_validate_checksum p =
    (case ipv4_to_bytes p (IPV4_HEADER_SIZE + IPV4_MAX_PAYLOAD) of
       None \<Rightarrow> False
     | Some raw \<Rightarrow> if length raw < IPV4_HEADER_SIZE then False
                   else ipv4_compute_checksum (take IPV4_HEADER_SIZE (patch_u16_be 10 (ip4_checksum p) raw)) = 0)"

section \<open>The canonical header\<close>

lemma length_ipv4_header [simp]: "length (ipv4_header p) = 20"
  by (simp add: ipv4_header_def)

lemma total_length_unat:
  "n \<le> IPV4_MAX_PAYLOAD \<Longrightarrow> unat (of_nat (IPV4_HEADER_SIZE + n) :: u16) = 20 + n"
  by (simp add: unat_of_nat del: of_nat_add)

lemma ipv4_header_checksum_field: "ipv4_header p ! 10 = 0" "ipv4_header p ! 11 = 0"
  by (simp_all add: ipv4_header_def write_u16_be_def)

definition ipv4_checksum_of :: "ipv4_packet \<Rightarrow> u16" where
  "ipv4_checksum_of p = ipv4_compute_checksum (ipv4_header p)"

lemma ipv4_to_bytes_eq:
  "length (ip4_payload p) \<le> IPV4_MAX_PAYLOAD \<Longrightarrow> 20 + length (ip4_payload p) \<le> n \<Longrightarrow>
    ipv4_to_bytes p n = Some (patch_u16_be 10 (ipv4_checksum_of p) (ipv4_header p) @ ip4_payload p)"
  by (simp add: ipv4_to_bytes_def ipv4_checksum_of_def Let_def total_length_unat del: of_nat_add)

lemma ipv4_to_bytes_SomeD:
  "ipv4_to_bytes p n = Some raw \<Longrightarrow> length (ip4_payload p) \<le> IPV4_MAX_PAYLOAD \<and>
    raw = patch_u16_be 10 (ipv4_checksum_of p) (ipv4_header p) @ ip4_payload p"
  by (auto simp: ipv4_to_bytes_def ipv4_checksum_of_def Let_def split: if_splits)

lemma patch_take:
  "i + 1 < n \<Longrightarrow> n \<le> length raw \<Longrightarrow> take n (patch_u16_be i v raw) = patch_u16_be i v (take n raw)"
  by (simp add: patch_u16_be_def take_update_swap)

lemma patch_patch [simp]: "patch_u16_be i v (patch_u16_be i w raw) = patch_u16_be i v raw"
proof -
  have "raw[i := a, i + 1 := b, i := c] = raw[i := c, i + 1 := b]" for a b c
    by (subst list_update_swap) simp_all
  then show ?thesis by (simp add: patch_u16_be_def)
qed

text \<open>
  What \<open>ipv4_validate_checksum\<close> checks: the received checksum field, put into the canonical
  header of the parsed packet, makes the header sum vanish.
\<close>

lemma ipv4_validate_iff:
  "ipv4_validate_checksum p \<longleftrightarrow> length (ip4_payload p) \<le> IPV4_MAX_PAYLOAD \<and>
    compute_checksum (patch_u16_be 10 (ip4_checksum p) (ipv4_header p)) = 0"
proof (cases "length (ip4_payload p) \<le> IPV4_MAX_PAYLOAD")
  case True
  let ?raw = "patch_u16_be 10 (ipv4_checksum_of p) (ipv4_header p) @ ip4_payload p"
  have "ipv4_to_bytes p (20 + 1480) = Some ?raw"
    using True by (intro ipv4_to_bytes_eq) simp_all
  moreover have "take 20 (patch_u16_be 10 (ip4_checksum p) ?raw) = patch_u16_be 10 (ip4_checksum p) (ipv4_header p)"
    by (simp add: patch_take)
  ultimately show ?thesis
    using True by (simp add: ipv4_validate_checksum_def ipv4_compute_checksum_def)
next
  case False
  then show ?thesis by (simp add: ipv4_validate_checksum_def ipv4_to_bytes_def)
qed

section \<open>The round trip\<close>

definition ipv4_reparsed :: "ipv4_packet \<Rightarrow> ipv4_packet" where
  "ipv4_reparsed p = p\<lparr>ip4_version := 4, ip4_ihl := 5,
     ip4_total_length := of_nat (IPV4_HEADER_SIZE + length (ip4_payload p)),
     ip4_checksum := ipv4_checksum_of p,
     ip4_src := (ip4_src p)\<lparr>prefix := 0\<rparr>, ip4_dst := (ip4_dst p)\<lparr>prefix := 0\<rparr>\<rparr>"

lemma ipv4_header_reparsed [simp]: "ipv4_header (ipv4_reparsed p) = ipv4_header p"
  by (simp add: ipv4_header_def ipv4_reparsed_def)

lemma ipv4_wire:
  assumes "octet (ip4_src p) = Octets a b c d" "octet (ip4_dst p) = Octets e f g h"
  shows "patch_u16_be 10 v (ipv4_header p) @ r =
    [0x45, 0, ucast (drop_bit 8 (of_nat (20 + length (ip4_payload p)) :: u16)),
     ucast ((of_nat (20 + length (ip4_payload p)) :: u16) AND 0xFF), 0, 0, 0, 0,
     ip4_ttl p, ip4_protocol p, ucast (drop_bit 8 v), ucast (v AND 0xFF),
     a, b, c, d, e, f, g, h] @ r"
  using assms by (simp add: ipv4_header_def patch_u16_be_def write_u16_be_def del: of_nat_add)

lemma ipv4_from_wire:
  assumes "length (ip4_payload p) \<le> IPV4_MAX_PAYLOAD"
  shows "ipv4_from_bytes (patch_u16_be 10 (ipv4_checksum_of p) (ipv4_header p) @ ip4_payload p @ tail)
    = Some (ipv4_reparsed p)"
proof -
  obtain a b c d where s: "octet (ip4_src p) = Octets a b c d" by (cases "octet (ip4_src p)")
  obtain e f g h where t: "octet (ip4_dst p) = Octets e f g h" by (cases "octet (ip4_dst p)")
  note tl = total_length_unat [OF assms]
  show ?thesis
    unfolding ipv4_wire [OF s t] using assms tl s t
    by (simp add: ipv4_from_bytes_def Let_def read_u16_be_def octets_of_list_def ipv4_reparsed_def
        del: of_nat_add)
qed

lemma ipv4_from_to:
  assumes "ipv4_to_bytes p n = Some raw"
  shows "ipv4_from_bytes raw = Some (ipv4_reparsed p)"
  using ipv4_to_bytes_SomeD [OF assms] ipv4_from_wire [of p "[]"] by simp

lemma ipv4_reparsed_valid:
  assumes "length (ip4_payload p) \<le> IPV4_MAX_PAYLOAD"
  shows "ipv4_validate_checksum (ipv4_reparsed p)"
proof -
  have "compute_checksum (patch_u16_be 10 (compute_checksum (ipv4_header p)) (ipv4_header p)) = 0"
    by (rule compute_checksum_completes) (simp_all add: ipv4_header_checksum_field)
  moreover have "ip4_checksum (ipv4_reparsed p) = compute_checksum (ipv4_header p)"
    by (simp add: ipv4_reparsed_def ipv4_checksum_of_def ipv4_compute_checksum_def)
  moreover have "ip4_payload (ipv4_reparsed p) = ip4_payload p" by (simp add: ipv4_reparsed_def)
  ultimately show ?thesis using assms by (simp add: ipv4_validate_iff)
qed

lemma ipv4_from_bytes_payload: "ipv4_from_bytes raw = Some p \<Longrightarrow> length (ip4_payload p) \<le> IPV4_MAX_PAYLOAD"
  by (auto simp: ipv4_from_bytes_def Let_def split: if_splits)

text \<open>The parser reads neither the type of service nor the identification and fragment fields.\<close>

lemma ipv4_from_bytes_ignores:
  assumes "k \<in> {1, 4, 5, 6, 7}"
  shows "ipv4_from_bytes (raw[k := b]) = ipv4_from_bytes raw"
proof -
  have "drop m (raw[k := b]) = drop m raw" if "8 \<le> m" for m using assms that by auto
  moreover have "drop (unat (raw ! 0 AND 0x0F) * 4) (raw[k := b]) = drop (unat (raw ! 0 AND 0x0F) * 4) raw"
    if "\<not> raw ! 0 AND 0x0F < 5"
  proof -
    have "5 \<le> unat (raw ! 0 AND 0x0F)" using that by (simp add: not_less word_le_nat_alt)
    then show ?thesis using assms by (intro drop_update_cancel) auto
  qed
  ultimately show ?thesis
    using assms by (auto simp: ipv4_from_bytes_def read_u16_be_def nth_list_update Let_def)
qed

end
