(* ===== verification/Tcp.thy ===== *)
theory Tcp
  imports Ipv4
begin

text \<open>
  TCP segments: \<^verbatim>\<open>layer4/tcp.c\<close> and the flags and states of \<^verbatim>\<open>layer4/tcp.h\<close>. Like UDP, a
  segment is serialised with the checksum field it carries.
\<close>

datatype tcp_state =
    TCP_CLOSED | TCP_LISTEN | TCP_SYN_SENT | TCP_SYN_RECEIVED | TCP_ESTABLISHED
  | TCP_FIN_WAIT_1 | TCP_FIN_WAIT_2 | TCP_CLOSING | TCP_TIME_WAIT | TCP_CLOSE_WAIT | TCP_LAST_ACK

record tcp_segment =
  seg_src_port :: u16
  seg_dst_port :: u16
  seg_seq :: u32
  seg_ack :: u32
  seg_data_offset :: u8
  seg_flags :: u8
  seg_window :: u16
  seg_checksum :: u16
  seg_urgent :: u16
  seg_payload :: bytes

abbreviation TCP_HEADER_SIZE :: nat where "TCP_HEADER_SIZE \<equiv> 20"
abbreviation TCP_MAX_PAYLOAD :: nat where "TCP_MAX_PAYLOAD \<equiv> 1460"
abbreviation TCP_WINDOW_SIZE :: u16 where "TCP_WINDOW_SIZE \<equiv> 65535"
abbreviation TCP_FLAG_FIN :: u8 where "TCP_FLAG_FIN \<equiv> 0x01"
abbreviation TCP_FLAG_SYN :: u8 where "TCP_FLAG_SYN \<equiv> 0x02"
abbreviation TCP_FLAG_RST :: u8 where "TCP_FLAG_RST \<equiv> 0x04"
abbreviation TCP_FLAG_PSH :: u8 where "TCP_FLAG_PSH \<equiv> 0x08"
abbreviation TCP_FLAG_ACK :: u8 where "TCP_FLAG_ACK \<equiv> 0x10"
abbreviation TCP_FLAG_SYN_ACK :: u8 where "TCP_FLAG_SYN_ACK \<equiv> 0x12"

text \<open>The test \<^verbatim>\<open>segment->flags & mask\<close>.\<close>

definition has_flag :: "tcp_segment \<Rightarrow> u8 \<Rightarrow> bool" where
  "has_flag g f \<longleftrightarrow> seg_flags g AND f \<noteq> 0"

fun tcp_state_name :: "tcp_state \<Rightarrow> string" where
  "tcp_state_name TCP_CLOSED = ''CLOSED''"
| "tcp_state_name TCP_LISTEN = ''LISTEN''"
| "tcp_state_name TCP_SYN_SENT = ''SYN_SENT''"
| "tcp_state_name TCP_SYN_RECEIVED = ''SYN_RECEIVED''"
| "tcp_state_name TCP_ESTABLISHED = ''ESTABLISHED''"
| "tcp_state_name TCP_FIN_WAIT_1 = ''FIN_WAIT_1''"
| "tcp_state_name TCP_FIN_WAIT_2 = ''FIN_WAIT_2''"
| "tcp_state_name TCP_CLOSING = ''CLOSING''"
| "tcp_state_name TCP_TIME_WAIT = ''TIME_WAIT''"
| "tcp_state_name TCP_CLOSE_WAIT = ''CLOSE_WAIT''"
| "tcp_state_name TCP_LAST_ACK = ''LAST_ACK''"

definition tcp_init :: tcp_segment where
  "tcp_init = \<lparr>seg_src_port = 0, seg_dst_port = 0, seg_seq = 0, seg_ack = 0, seg_data_offset = 5,
     seg_flags = 0, seg_window = TCP_WINDOW_SIZE, seg_checksum = 0, seg_urgent = 0, seg_payload = []\<rparr>"

definition tcp_create ::
  "u16 \<Rightarrow> u16 \<Rightarrow> u32 \<Rightarrow> u32 \<Rightarrow> u8 \<Rightarrow> u16 \<Rightarrow> bytes \<Rightarrow> tcp_segment option" where
  "tcp_create src_port dst_port seq_num ack_num flags window payload =
    (if TCP_MAX_PAYLOAD < length payload then None
     else Some (tcp_init\<lparr>seg_src_port := src_port, seg_dst_port := dst_port, seg_seq := seq_num,
       seg_ack := ack_num, seg_flags := flags, seg_window := window, seg_payload := payload\<rparr>))"

definition tcp_compute_checksum :: "bytes \<Rightarrow> ip_address \<Rightarrow> ip_address \<Rightarrow> u16" where
  "tcp_compute_checksum raw src_ip dst_ip =
    pseudo_checksum 6 (octet_bytes (octet src_ip)) (octet_bytes (octet dst_ip)) raw"

definition tcp_wire :: "tcp_segment \<Rightarrow> bytes" where
  "tcp_wire g = write_u16_be (seg_src_port g) @ write_u16_be (seg_dst_port g) @
     write_u32_be (seg_seq g) @ write_u32_be (seg_ack g) @
     [push_bit 4 (seg_data_offset g), seg_flags g] @
     write_u16_be (seg_window g) @ write_u16_be (seg_checksum g) @ write_u16_be (seg_urgent g) @
     seg_payload g"

definition tcp_to_bytes :: "tcp_segment \<Rightarrow> nat \<Rightarrow> bytes option" where
  "tcp_to_bytes g out_size =
    (if TCP_MAX_PAYLOAD < length (seg_payload g) then None
     else if out_size < TCP_HEADER_SIZE + length (seg_payload g) then None
     else Some (tcp_wire g))"

definition tcp_from_bytes :: "bytes \<Rightarrow> tcp_segment option" where
  "tcp_from_bytes raw =
    (if length raw < TCP_HEADER_SIZE then None
     else
       let data_offset = drop_bit 4 (raw ! 12); header_len = unat data_offset * 4
       in if header_len < TCP_HEADER_SIZE \<or> length raw < header_len then None
          else if TCP_MAX_PAYLOAD < length raw - header_len then None
          else Some \<lparr>seg_src_port = read_u16_be raw 0, seg_dst_port = read_u16_be raw 2,
                 seg_seq = read_u32_be raw 4, seg_ack = read_u32_be raw 8,
                 seg_data_offset = data_offset, seg_flags = raw ! 13,
                 seg_window = read_u16_be raw 14, seg_checksum = read_u16_be raw 16,
                 seg_urgent = read_u16_be raw 18, seg_payload = drop header_len raw\<rparr>)"

definition tcp_validate_checksum :: "tcp_segment \<Rightarrow> ip_address \<Rightarrow> ip_address \<Rightarrow> bool" where
  "tcp_validate_checksum g src_ip dst_ip =
    (case tcp_to_bytes g (TCP_HEADER_SIZE + TCP_MAX_PAYLOAD) of
       None \<Rightarrow> False
     | Some raw \<Rightarrow> if length raw < TCP_HEADER_SIZE then False
                   else tcp_compute_checksum (patch_u16_be 16 (seg_checksum g) raw) src_ip dst_ip = 0)"

text \<open>
  How every sender of the stack completes a segment: serialise it into a buffer of the given size
  and, if that worked, store the checksum over the result.
\<close>

definition tcp_seal :: "nat \<Rightarrow> tcp_segment \<Rightarrow> ip_address \<Rightarrow> ip_address \<Rightarrow> tcp_segment" where
  "tcp_seal out_size g src_ip dst_ip =
    (case tcp_to_bytes g out_size of
       None \<Rightarrow> g
     | Some raw \<Rightarrow> g\<lparr>seg_checksum := tcp_compute_checksum raw src_ip dst_ip\<rparr>)"

section \<open>Serialised segments\<close>

lemma length_tcp_wire [simp]: "length (tcp_wire g) = 20 + length (seg_payload g)"
  by (simp add: tcp_wire_def)

lemma tcp_to_bytes_eq:
  "length (seg_payload g) \<le> TCP_MAX_PAYLOAD \<Longrightarrow> 20 + length (seg_payload g) \<le> n \<Longrightarrow>
    tcp_to_bytes g n = Some (tcp_wire g)"
  by (simp add: tcp_to_bytes_def)

lemma tcp_wire_patch: "patch_u16_be 16 v (tcp_wire g) = tcp_wire (g\<lparr>seg_checksum := v\<rparr>)"
  by (simp add: tcp_wire_def patch_u16_be_def write_u16_be_def write_u32_be_def)

lemma tcp_validate_iff:
  "tcp_validate_checksum g src dst \<longleftrightarrow> length (seg_payload g) \<le> TCP_MAX_PAYLOAD \<and>
    tcp_compute_checksum (tcp_wire g) src dst = 0"
proof (cases "length (seg_payload g) \<le> TCP_MAX_PAYLOAD")
  case True
  then have "tcp_to_bytes g (20 + 1460) = Some (tcp_wire g)" by (intro tcp_to_bytes_eq) simp_all
  then show ?thesis using True by (simp add: tcp_validate_checksum_def tcp_wire_patch)
next
  case False
  then show ?thesis by (simp add: tcp_validate_checksum_def tcp_to_bytes_def)
qed

definition wf_segment :: "tcp_segment \<Rightarrow> bool" where
  "wf_segment g \<longleftrightarrow> length (seg_payload g) \<le> TCP_MAX_PAYLOAD \<and> seg_data_offset g = 5"

lemma wf_segment_create: "tcp_create s d q a f w p = Some g \<Longrightarrow> wf_segment g"
  by (auto simp: tcp_create_def wf_segment_def tcp_init_def split: if_splits)

lemma wf_segment_checksum [simp]: "wf_segment (g\<lparr>seg_checksum := v\<rparr>) = wf_segment g"
  by (simp add: wf_segment_def)

lemma tcp_from_wire: "wf_segment g \<Longrightarrow> tcp_from_bytes (tcp_wire g) = Some g"
  by (cases g) (auto simp: tcp_from_bytes_def tcp_wire_def wf_segment_def Let_def read_u16_be_def
      read_u32_be_def write_u16_be_def write_u32_be_def)

lemma tcp_seal_valid:
  assumes "seg_checksum g = 0" "length (seg_payload g) \<le> TCP_MAX_PAYLOAD"
    "20 + length (seg_payload g) \<le> n"
  shows "tcp_validate_checksum (tcp_seal n g src dst) src dst"
proof -
  have z: "tcp_wire g ! 16 = 0" "tcp_wire g ! (16 + 1) = 0"
    using assms by (simp_all add: tcp_wire_def write_u16_be_def write_u32_be_def)
  have "tcp_compute_checksum (patch_u16_be 16 (tcp_compute_checksum (tcp_wire g) src dst) (tcp_wire g)) src dst = 0"
    unfolding tcp_compute_checksum_def by (rule pseudo_checksum_completes) (use z in simp_all)
  then show ?thesis
    using assms by (simp add: tcp_validate_iff tcp_seal_def tcp_to_bytes_eq tcp_wire_patch)
qed

lemma tcp_seal_simps [simp]:
  "seg_src_port (tcp_seal n g s d) = seg_src_port g" "seg_dst_port (tcp_seal n g s d) = seg_dst_port g"
  "seg_seq (tcp_seal n g s d) = seg_seq g" "seg_ack (tcp_seal n g s d) = seg_ack g"
  "seg_flags (tcp_seal n g s d) = seg_flags g" "seg_payload (tcp_seal n g s d) = seg_payload g"
  "seg_data_offset (tcp_seal n g s d) = seg_data_offset g" "wf_segment (tcp_seal n g s d) = wf_segment g"
  "has_flag (tcp_seal n g s d) f = has_flag g f"
  by (simp_all add: tcp_seal_def has_flag_def split: option.split)

lemma tcp_init_simps [simp]:
  "seg_checksum tcp_init = 0" "seg_payload tcp_init = []" "seg_data_offset tcp_init = 5"
  "seg_flags tcp_init = 0"
  by (simp_all add: tcp_init_def)

end
