(* ===== verification/Tcp_Socket.thy ===== *)
theory Tcp_Socket
  imports Tcp
begin

text \<open>
  TCP sockets: \<^verbatim>\<open>layer4/tcp_socket.c\<close>. The table of 16 sockets is a list, a pointer to a socket
  is its index; the data buffers are lists of their live bytes, the reassembly window is the two
  arrays of 4096 slots of the code. Every operation returns its result flag first.
\<close>

abbreviation TCP_SOCKET_BUFFER_SIZE :: nat where "TCP_SOCKET_BUFFER_SIZE \<equiv> 4096"
abbreviation TCP_MAX_SOCKETS :: nat where "TCP_MAX_SOCKETS \<equiv> 16"

record send_buffer =
  sb_data :: bytes
  sb_start_seq :: u32

record recv_buffer =
  rb_data :: bytes
  rb_pending :: bytes
  rb_valid :: "bool list"
  rb_count :: nat

record tcp_socket =
  sk_in_use :: bool
  sk_state :: tcp_state
  sk_local_ip :: ip_address
  sk_local_port :: u16
  sk_remote_ip :: ip_address
  sk_remote_port :: u16
  sk_send_seq :: u32
  sk_recv_seq :: u32
  sk_send_ack :: u32
  sk_recv_ack :: u32
  sk_send_buffer :: send_buffer
  sk_recv_buffer :: recv_buffer
  sk_is_listening :: bool
  sk_parent :: "nat option"
  sk_last_payload :: bytes
  sk_has_data :: bool

text \<open>A socket whose memory is all zero.\<close>

definition zero_recv_buffer :: recv_buffer where
  "zero_recv_buffer = \<lparr>rb_data = [], rb_pending = replicate TCP_SOCKET_BUFFER_SIZE 0,
     rb_valid = replicate TCP_SOCKET_BUFFER_SIZE False, rb_count = 0\<rparr>"

definition zero_socket :: tcp_socket where
  "zero_socket = \<lparr>sk_in_use = False, sk_state = TCP_CLOSED, sk_local_ip = zero_ip, sk_local_port = 0,
     sk_remote_ip = zero_ip, sk_remote_port = 0, sk_send_seq = 0, sk_recv_seq = 0, sk_send_ack = 0,
     sk_recv_ack = 0, sk_send_buffer = \<lparr>sb_data = [], sb_start_seq = 0\<rparr>,
     sk_recv_buffer = zero_recv_buffer, sk_is_listening = False, sk_parent = None,
     sk_last_payload = [], sk_has_data = False\<rparr>"

section \<open>Reassembly\<close>

text \<open>The part of a payload that starts before the next expected byte is cut off.\<close>

definition trim_received :: "u32 \<Rightarrow> u32 \<Rightarrow> bytes \<Rightarrow> (u32 \<times> bytes) option" where
  "trim_received recv_seq seq_num payload =
    (if seq_num < recv_seq then
       let already_received = recv_seq - seq_num
       in if length payload \<le> unat already_received then None
          else Some (seq_num + already_received, drop (unat already_received) payload)
     else Some (seq_num, payload))"

definition count_new :: "bool list \<Rightarrow> nat \<Rightarrow> nat \<Rightarrow> nat" where
  "count_new valid offset len = length (filter (\<lambda>i. \<not> valid ! (offset + i)) [0..<len])"

definition store_byte :: "nat \<Rightarrow> u8 \<Rightarrow> recv_buffer \<Rightarrow> recv_buffer" where
  "store_byte pos b buf =
    (if rb_valid buf ! pos then buf
     else buf\<lparr>rb_pending := (rb_pending buf)[pos := b], rb_valid := (rb_valid buf)[pos := True],
       rb_count := rb_count buf + 1\<rparr>)"

fun store_bytes :: "nat \<Rightarrow> bytes \<Rightarrow> recv_buffer \<Rightarrow> recv_buffer" where
  "store_bytes pos [] buf = buf"
| "store_bytes pos (b # bs) buf = store_bytes (Suc pos) bs (store_byte pos b buf)"

definition count_ready :: "recv_buffer \<Rightarrow> nat" where
  "count_ready buf = length (takeWhile (\<lambda>v. v) (take TCP_SOCKET_BUFFER_SIZE (rb_valid buf)))"

definition take_ready :: "nat \<Rightarrow> recv_buffer \<Rightarrow> recv_buffer" where
  "take_ready ready buf = buf\<lparr>rb_data := rb_data buf @ take ready (rb_pending buf),
     rb_count := rb_count buf - ready,
     rb_pending := drop ready (rb_pending buf) @ replicate ready 0,
     rb_valid := drop ready (rb_valid buf) @ replicate ready False\<rparr>"

definition tcp_buffer_payload :: "tcp_socket \<Rightarrow> u32 \<Rightarrow> bytes \<Rightarrow> bool \<times> tcp_socket" where
  "tcp_buffer_payload s seq_num payload =
    (if payload = [] then (True, s)
     else case trim_received (sk_recv_seq s) seq_num payload of
       None \<Rightarrow> (True, s)
     | Some (seq_num, payload) \<Rightarrow>
         let buf = sk_recv_buffer s;
             offset = unat (seq_num - sk_recv_seq s)
         in if TCP_SOCKET_BUFFER_SIZE \<le> offset \<or> TCP_SOCKET_BUFFER_SIZE - offset < length payload
            then (False, s)
            else if TCP_SOCKET_BUFFER_SIZE <
                length (rb_data buf) + rb_count buf + count_new (rb_valid buf) offset (length payload)
            then (False, s)
            else
              let buf = store_bytes offset payload buf;
                  ready = count_ready buf;
                  buf = (if 0 < ready then take_ready ready buf else buf)
              in (True, s\<lparr>sk_recv_buffer := buf, sk_recv_seq := sk_recv_seq s + of_nat ready,
                   sk_has_data := rb_data buf \<noteq> []\<rparr>))"

definition tcp_acknowledge_data :: "tcp_socket \<Rightarrow> u32 \<Rightarrow> tcp_socket" where
  "tcp_acknowledge_data s ack_num =
    (if ack_num \<le> sk_send_ack s \<or> sk_send_seq s < ack_num then s
     else
       let acked = min (unat (ack_num - sk_send_ack s)) (length (sb_data (sk_send_buffer s)));
           s = (if 0 < acked
                then s\<lparr>sk_send_buffer := \<lparr>sb_data = drop acked (sb_data (sk_send_buffer s)),
                       sb_start_seq = ack_num\<rparr>\<rparr>
                else s)
       in s\<lparr>sk_send_ack := ack_num\<rparr>)"

definition tcp_prepare_ack :: "tcp_socket \<Rightarrow> tcp_segment" where
  "tcp_prepare_ack s =
    tcp_seal TCP_HEADER_SIZE
      (tcp_init\<lparr>seg_src_port := sk_local_port s, seg_dst_port := sk_remote_port s,
         seg_seq := sk_send_seq s, seg_ack := sk_recv_seq s, seg_flags := TCP_FLAG_ACK,
         seg_window := TCP_WINDOW_SIZE\<rparr>)
      (sk_local_ip s) (sk_remote_ip s)"

section \<open>The socket table\<close>

definition tcp_socket_init :: "nat \<Rightarrow> tcp_socket list" where
  "tcp_socket_init count = replicate count zero_socket"

definition allocated_socket :: tcp_socket where
  "allocated_socket = zero_socket\<lparr>sk_in_use := True, sk_state := TCP_CLOSED\<rparr>"

text \<open>A free slot if there is one, otherwise one in \<^verbatim>\<open>TIME_WAIT\<close>.\<close>

definition tcp_socket_alloc :: "tcp_socket list \<Rightarrow> (nat \<times> tcp_socket list) option" where
  "tcp_socket_alloc sockets =
    (case first_index (\<lambda>i. \<not> sk_in_use (sockets ! i)) (length sockets) of
       Some i \<Rightarrow> Some (i, sockets[i := allocated_socket])
     | None \<Rightarrow>
         (case first_index (\<lambda>i. sk_in_use (sockets ! i) \<and> \<not> sk_is_listening (sockets ! i) \<and>
              sk_state (sockets ! i) = TCP_TIME_WAIT) (length sockets) of
            Some i \<Rightarrow> Some (i, sockets[i := allocated_socket])
          | None \<Rightarrow> None))"

definition tcp_socket_free :: "tcp_socket \<Rightarrow> tcp_socket" where
  "tcp_socket_free s = zero_socket"

definition matches_connection :: "tcp_socket \<Rightarrow> ip_address \<Rightarrow> u16 \<Rightarrow> ip_address \<Rightarrow> u16 \<Rightarrow> bool" where
  "matches_connection s local_ip local_port remote_ip remote_port \<longleftrightarrow>
    sk_in_use s \<and> \<not> sk_is_listening s \<and> sk_state s \<noteq> TCP_CLOSED \<and>
    ip_octets_equal (sk_local_ip s) local_ip \<and> sk_local_port s = local_port \<and>
    ip_octets_equal (sk_remote_ip s) remote_ip \<and> sk_remote_port s = remote_port"

definition matches_listener :: "tcp_socket \<Rightarrow> ip_address \<Rightarrow> u16 \<Rightarrow> bool" where
  "matches_listener s local_ip local_port \<longleftrightarrow>
    sk_in_use s \<and> sk_is_listening s \<and> ip_octets_equal (sk_local_ip s) local_ip \<and> sk_local_port s = local_port"

definition tcp_socket_find ::
  "tcp_socket list \<Rightarrow> ip_address \<Rightarrow> u16 \<Rightarrow> ip_address \<Rightarrow> u16 \<Rightarrow> nat option" where
  "tcp_socket_find sockets local_ip local_port remote_ip remote_port =
    (case first_index (\<lambda>i. matches_connection (sockets ! i) local_ip local_port remote_ip remote_port)
        (length sockets) of
       Some i \<Rightarrow> Some i
     | None \<Rightarrow> first_index (\<lambda>i. matches_listener (sockets ! i) local_ip local_port) (length sockets))"

definition port_used :: "tcp_socket list \<Rightarrow> ip_address \<Rightarrow> u16 \<Rightarrow> u16 \<Rightarrow> bool" where
  "port_used sockets remote_ip remote_port candidate \<longleftrightarrow>
    list_ex (\<lambda>s. sk_in_use s \<and> sk_state s \<noteq> TCP_CLOSED \<and> sk_local_port s = candidate \<and>
      sk_remote_port s = remote_port \<and> ip_octets_equal (sk_remote_ip s) remote_ip) sockets"

definition next_port :: "u16 \<Rightarrow> u16" where
  "next_port candidate = (if candidate = 65535 then 1024 else candidate + 1)"

fun port_search :: "nat \<Rightarrow> tcp_socket list \<Rightarrow> ip_address \<Rightarrow> u16 \<Rightarrow> u16 \<Rightarrow> u16" where
  "port_search 0 sockets remote_ip remote_port candidate = 0"
| "port_search (Suc attempts) sockets remote_ip remote_port candidate =
    (if \<not> port_used sockets remote_ip remote_port candidate then candidate
     else port_search attempts sockets remote_ip remote_port (next_port candidate))"

definition tcp_socket_select_source_port :: "tcp_socket list \<Rightarrow> ip_address \<Rightarrow> u16 \<Rightarrow> u16 \<Rightarrow> u16" where
  "tcp_socket_select_source_port sockets remote_ip remote_port preferred_port =
    port_search (65535 - 1024 + 1) sockets remote_ip remote_port
      (if 1024 \<le> preferred_port then preferred_port else 49152)"

section \<open>Calls of the application\<close>

definition tcp_socket_connect :: "tcp_socket \<Rightarrow> ip_address \<Rightarrow> u16 \<Rightarrow> ip_address \<Rightarrow> u16 \<Rightarrow> tcp_socket" where
  "tcp_socket_connect s local_ip src_port remote_ip dst_port =
    s\<lparr>sk_state := TCP_SYN_SENT, sk_local_ip := local_ip, sk_local_port := src_port,
      sk_remote_ip := remote_ip, sk_remote_port := dst_port, sk_send_seq := 1000, sk_recv_ack := 0,
      sk_recv_seq := 0, sk_send_ack := 0, sk_has_data := False\<rparr>"

definition tcp_socket_listen :: "tcp_socket \<Rightarrow> ip_address \<Rightarrow> u16 \<Rightarrow> tcp_socket" where
  "tcp_socket_listen s local_ip port =
    s\<lparr>sk_state := TCP_LISTEN, sk_local_ip := local_ip, sk_local_port := port,
      sk_is_listening := True, sk_send_seq := 0, sk_recv_seq := 0\<rparr>"

definition tcp_socket_accept :: "nat \<Rightarrow> tcp_socket list \<Rightarrow> nat option" where
  "tcp_socket_accept listener sockets =
    (if \<not> sk_is_listening (sockets ! listener) then None
     else first_index (\<lambda>i. i \<noteq> listener \<and> sk_in_use (sockets ! i) \<and>
       sk_parent (sockets ! i) = Some listener \<and> sk_state (sockets ! i) = TCP_ESTABLISHED) (length sockets))"

definition tcp_socket_send :: "tcp_socket \<Rightarrow> bytes \<Rightarrow> bool \<times> tcp_socket" where
  "tcp_socket_send s data =
    (if data = [] then (False, s)
     else if sk_state s \<noteq> TCP_ESTABLISHED then (False, s)
     else if TCP_SOCKET_BUFFER_SIZE < length (sb_data (sk_send_buffer s)) + length data then (False, s)
     else
       (True, s\<lparr>sk_send_buffer := \<lparr>sb_data = sb_data (sk_send_buffer s) @ data,
          sb_start_seq = (if sb_data (sk_send_buffer s) = [] then sk_send_seq s
                          else sb_start_seq (sk_send_buffer s))\<rparr>\<rparr>))"

text \<open>The bytes read; none means the code returned 0.\<close>

definition tcp_socket_recv :: "tcp_socket \<Rightarrow> nat \<Rightarrow> bytes \<times> tcp_socket" where
  "tcp_socket_recv s max_len =
    (let buf = sk_recv_buffer s in
     if max_len = 0 \<or> \<not> sk_has_data s \<or> rb_data buf = [] then ([], s)
     else
       let copy_len = min (length (rb_data buf)) max_len;
           rest = drop copy_len (rb_data buf)
       in (take copy_len (rb_data buf),
           s\<lparr>sk_recv_buffer := buf\<lparr>rb_data := rest\<rparr>, sk_has_data := rest \<noteq> []\<rparr>))"

definition tcp_socket_close :: "tcp_socket \<Rightarrow> bool \<times> tcp_socket" where
  "tcp_socket_close s =
    (case sk_state s of
       TCP_ESTABLISHED \<Rightarrow> (True, s\<lparr>sk_state := TCP_FIN_WAIT_1\<rparr>)
     | TCP_CLOSE_WAIT \<Rightarrow> (True, s\<lparr>sk_state := TCP_LAST_ACK\<rparr>)
     | TCP_CLOSED \<Rightarrow> (True, s\<lparr>sk_state := TCP_CLOSED\<rparr>)
     | TCP_LISTEN \<Rightarrow> (True, s\<lparr>sk_state := TCP_CLOSED\<rparr>)
     | _ \<Rightarrow> (False, s))"

definition tcp_socket_has_data :: "tcp_socket \<Rightarrow> bool" where
  "tcp_socket_has_data s = sk_has_data s"

section \<open>Incoming segments\<close>

text \<open>One function per state; the result is the return value, the socket and the response.\<close>

type_synonym rx_result = "bool \<times> tcp_socket \<times> tcp_segment"

definition rx_listen ::
  "tcp_socket \<Rightarrow> tcp_segment \<Rightarrow> ip_address \<Rightarrow> ip_address \<Rightarrow> tcp_segment \<Rightarrow> rx_result" where
  "rx_listen s g src_ip dst_ip response =
    (if has_flag g TCP_FLAG_SYN \<and> \<not> has_flag g (TCP_FLAG_ACK OR TCP_FLAG_FIN OR TCP_FLAG_RST) then
       let s = s\<lparr>sk_recv_seq := seg_seq g + 1, sk_send_seq := 2000 + ucast (seg_src_port g)\<rparr>;
           response = tcp_seal TCP_HEADER_SIZE
             (tcp_init\<lparr>seg_src_port := seg_dst_port g, seg_dst_port := seg_src_port g,
                seg_seq := sk_send_seq s, seg_ack := sk_recv_seq s, seg_flags := TCP_FLAG_SYN_ACK,
                seg_window := TCP_WINDOW_SIZE\<rparr>) dst_ip src_ip
       in (True, s\<lparr>sk_state := TCP_SYN_RECEIVED\<rparr>, response)
     else (False, s, response))"

definition rx_syn_sent :: "tcp_socket \<Rightarrow> tcp_segment \<Rightarrow> tcp_segment \<Rightarrow> rx_result" where
  "rx_syn_sent s g response =
    (if has_flag g TCP_FLAG_SYN \<and> has_flag g TCP_FLAG_ACK \<and>
        \<not> has_flag g (TCP_FLAG_FIN OR TCP_FLAG_RST) \<and> seg_ack g = sk_send_seq s + 1 then
       let s = s\<lparr>sk_recv_seq := seg_seq g + 1, sk_send_ack := seg_ack g\<rparr>;
           s = s\<lparr>sk_send_seq := sk_send_ack s\<rparr>
       in (True, s\<lparr>sk_state := TCP_ESTABLISHED\<rparr>, tcp_prepare_ack s)
     else (False, s, response))"

definition rx_syn_received :: "tcp_socket \<Rightarrow> tcp_segment \<Rightarrow> tcp_segment \<Rightarrow> rx_result" where
  "rx_syn_received s g response =
    (if has_flag g TCP_FLAG_ACK \<and> \<not> has_flag g (TCP_FLAG_SYN OR TCP_FLAG_FIN OR TCP_FLAG_RST) \<and>
        seg_ack g = sk_send_seq s + 1 \<and> seg_seq g = sk_recv_seq s then
       let s = s\<lparr>sk_send_ack := seg_ack g, sk_send_seq := seg_ack g, sk_state := TCP_ESTABLISHED\<rparr>
       in if seg_payload g \<noteq> [] then
            let s = snd (tcp_buffer_payload s (seg_seq g) (seg_payload g))
            in (True, s, tcp_prepare_ack s)
          else (True, s, response)
     else (False, s, response))"

text \<open>The sequence number of a FIN follows the payload of its segment.\<close>

definition fin_seq :: "tcp_segment \<Rightarrow> u32" where
  "fin_seq g = seg_seq g + of_nat (length (seg_payload g))"

definition buffer_segment :: "tcp_socket \<Rightarrow> tcp_segment \<Rightarrow> tcp_socket" where
  "buffer_segment s g =
    (if seg_payload g \<noteq> [] then snd (tcp_buffer_payload s (seg_seq g) (seg_payload g)) else s)"

definition rx_established :: "tcp_socket \<Rightarrow> tcp_segment \<Rightarrow> tcp_segment \<Rightarrow> rx_result" where
  "rx_established s g response =
    (let s = (if has_flag g TCP_FLAG_ACK then tcp_acknowledge_data s (seg_ack g) else s);
         s = buffer_segment s g
     in if has_flag g TCP_FLAG_FIN then
          if fin_seq g \<noteq> sk_recv_seq s then (True, s, tcp_prepare_ack s)
          else
            let s = s\<lparr>sk_recv_seq := sk_recv_seq s + 1\<rparr>
            in (True, s\<lparr>sk_state := TCP_CLOSE_WAIT\<rparr>, tcp_prepare_ack s)
        else if seg_payload g \<noteq> [] then (True, s, tcp_prepare_ack s)
        else if has_flag g TCP_FLAG_ACK then (True, s, response)
        else (False, s, response))"

definition rx_fin_wait_1 :: "tcp_socket \<Rightarrow> tcp_segment \<Rightarrow> tcp_segment \<Rightarrow> rx_result" where
  "rx_fin_wait_1 s g response =
    (let fin_acked = (has_flag g TCP_FLAG_ACK \<and> seg_ack g = sk_send_seq s);
         s = buffer_segment s g
     in if has_flag g TCP_FLAG_FIN then
          if fin_seq g \<noteq> sk_recv_seq s then (True, s, tcp_prepare_ack s)
          else
            let s = s\<lparr>sk_recv_seq := sk_recv_seq s + 1\<rparr>
            in (True, s\<lparr>sk_state := (if fin_acked then TCP_TIME_WAIT else TCP_CLOSING)\<rparr>, tcp_prepare_ack s)
        else
          let response = (if seg_payload g \<noteq> [] then tcp_prepare_ack s else response)
          in if fin_acked then (True, s\<lparr>sk_send_ack := seg_ack g, sk_state := TCP_FIN_WAIT_2\<rparr>, response)
             else if seg_payload g \<noteq> [] then (True, s, response)
             else (False, s, response))"

definition rx_fin_wait_2 :: "tcp_socket \<Rightarrow> tcp_segment \<Rightarrow> tcp_segment \<Rightarrow> rx_result" where
  "rx_fin_wait_2 s g response =
    (let s = buffer_segment s g
     in if has_flag g TCP_FLAG_FIN then
          if fin_seq g \<noteq> sk_recv_seq s then (True, s, tcp_prepare_ack s)
          else
            let s = s\<lparr>sk_recv_seq := sk_recv_seq s + 1\<rparr>
            in (True, s\<lparr>sk_state := TCP_TIME_WAIT\<rparr>, tcp_prepare_ack s)
        else if seg_payload g \<noteq> [] then (True, s, tcp_prepare_ack s)
        else (False, s, response))"

definition rx_closing :: "tcp_socket \<Rightarrow> tcp_segment \<Rightarrow> tcp_segment \<Rightarrow> rx_result" where
  "rx_closing s g response =
    (if has_flag g TCP_FLAG_ACK \<and> seg_ack g = sk_send_seq s
     then (True, s\<lparr>sk_send_ack := seg_ack g, sk_state := TCP_TIME_WAIT\<rparr>, response)
     else (False, s, response))"

definition rx_last_ack :: "tcp_socket \<Rightarrow> tcp_segment \<Rightarrow> tcp_segment \<Rightarrow> rx_result" where
  "rx_last_ack s g response =
    (if has_flag g TCP_FLAG_ACK \<and> seg_ack g = sk_send_seq s
     then (True, tcp_socket_free s, response)
     else (False, s, response))"

definition tcp_socket_receive_segment ::
  "tcp_socket \<Rightarrow> tcp_segment \<Rightarrow> ip_address \<Rightarrow> ip_address \<Rightarrow> tcp_segment \<Rightarrow> rx_result" where
  "tcp_socket_receive_segment s g src_ip dst_ip response =
    (if \<not> tcp_validate_checksum g src_ip dst_ip then (False, s, response)
     else case sk_state s of
       TCP_LISTEN \<Rightarrow> rx_listen s g src_ip dst_ip response
     | TCP_SYN_SENT \<Rightarrow> rx_syn_sent s g response
     | TCP_SYN_RECEIVED \<Rightarrow> rx_syn_received s g response
     | TCP_ESTABLISHED \<Rightarrow> rx_established s g response
     | TCP_FIN_WAIT_1 \<Rightarrow> rx_fin_wait_1 s g response
     | TCP_FIN_WAIT_2 \<Rightarrow> rx_fin_wait_2 s g response
     | TCP_CLOSING \<Rightarrow> rx_closing s g response
     | TCP_LAST_ACK \<Rightarrow> rx_last_ack s g response
     | TCP_TIME_WAIT \<Rightarrow> (True, s, response)
     | _ \<Rightarrow> (False, s, response))"

lemmas rx_defs = rx_listen_def rx_syn_sent_def rx_syn_received_def rx_established_def
  rx_fin_wait_1_def rx_fin_wait_2_def rx_closing_def rx_last_ack_def

section \<open>What the host and the socket layer build from a socket\<close>

text \<open>The child that \<^verbatim>\<open>host_receive\<close> sets up when a SYN arrives for a listener.\<close>

definition tcp_child :: "nat \<Rightarrow> tcp_socket \<Rightarrow> tcp_segment \<Rightarrow> ip_address \<Rightarrow> tcp_socket \<Rightarrow> tcp_socket" where
  "tcp_child listener_index listener g src_ip child =
    child\<lparr>sk_local_ip := sk_local_ip listener, sk_local_port := seg_dst_port g, sk_remote_ip := src_ip,
      sk_remote_port := seg_src_port g, sk_state := TCP_LISTEN, sk_parent := Some listener_index\<rparr>"

text \<open>The segments of \<^verbatim>\<open>magi_connect\<close>, \<^verbatim>\<open>magi_send\<close> and \<^verbatim>\<open>magi_close\<close>.\<close>

definition tcp_syn_segment :: "tcp_socket \<Rightarrow> tcp_segment" where
  "tcp_syn_segment s = tcp_seal TCP_HEADER_SIZE
    (tcp_init\<lparr>seg_src_port := sk_local_port s, seg_dst_port := sk_remote_port s, seg_seq := sk_send_seq s,
       seg_flags := TCP_FLAG_SYN, seg_window := TCP_WINDOW_SIZE\<rparr>) (sk_local_ip s) (sk_remote_ip s)"

definition tcp_data_segment :: "tcp_socket \<Rightarrow> bytes \<Rightarrow> tcp_segment" where
  "tcp_data_segment s data = tcp_seal (TCP_HEADER_SIZE + TCP_MAX_PAYLOAD)
    (tcp_init\<lparr>seg_src_port := sk_local_port s, seg_dst_port := sk_remote_port s, seg_seq := sk_send_seq s,
       seg_ack := sk_recv_seq s, seg_flags := TCP_FLAG_ACK OR TCP_FLAG_PSH, seg_window := TCP_WINDOW_SIZE,
       seg_payload := data\<rparr>) (sk_local_ip s) (sk_remote_ip s)"

definition tcp_fin_segment :: "tcp_socket \<Rightarrow> tcp_segment" where
  "tcp_fin_segment s = tcp_seal TCP_HEADER_SIZE
    (tcp_init\<lparr>seg_src_port := sk_local_port s, seg_dst_port := sk_remote_port s, seg_seq := sk_send_seq s,
       seg_ack := sk_recv_seq s, seg_flags := TCP_FLAG_FIN OR TCP_FLAG_ACK,
       seg_window := TCP_WINDOW_SIZE\<rparr>) (sk_local_ip s) (sk_remote_ip s)"

end
