(* ===== verification/Tcp_Stream.thy ===== *)
theory Tcp_Stream
  imports Tcp_Socket
begin

text \<open>
  Reassembly is correct: whatever pieces of the sender's stream arrive, in whatever order, with
  whatever overlap and repetition, the application reads a prefix of the stream, and every byte
  that was accepted is either delivered or waits in the window. The buffers never overflow.
\<close>

section \<open>Buffers\<close>

definition buf_ok :: "recv_buffer \<Rightarrow> bool" where
  "buf_ok buf \<longleftrightarrow> length (rb_pending buf) = 4096 \<and> length (rb_valid buf) = 4096 \<and>
    rb_count buf = length (filter (\<lambda>v. v) (rb_valid buf)) \<and> length (rb_data buf) + rb_count buf \<le> 4096"

lemma filter_update_True:
  "i < length vs \<Longrightarrow> \<not> vs ! i \<Longrightarrow> length (filter (\<lambda>v. v) (vs[i := True])) = length (filter (\<lambda>v. v) vs) + 1"
  by (induction vs arbitrary: i) (auto simp: nth_Cons' split: nat.splits)

lemma count_new_Suc:
  "count_new valid pos (Suc n) = (if valid ! pos then 0 else 1) + count_new valid (Suc pos) n"
proof -
  have "[0..<Suc n] = 0 # map Suc [0..<n]" by (simp only: map_Suc_upt upt_conv_Cons zero_less_Suc)
  then show ?thesis by (simp add: count_new_def filter_map comp_def)
qed

lemma count_new_update: "i < pos \<Longrightarrow> count_new (valid[i := True]) pos n = count_new valid pos n"
  by (simp add: count_new_def)

lemma store_bytes_frame [simp]:
  "rb_data (store_bytes pos bs buf) = rb_data buf"
  "length (rb_pending (store_bytes pos bs buf)) = length (rb_pending buf)"
  "length (rb_valid (store_bytes pos bs buf)) = length (rb_valid buf)"
  by (induction pos bs buf rule: store_bytes.induct) (simp_all add: store_byte_def)

lemma store_bytes_valid:
  assumes "pos + length bs \<le> length (rb_valid buf)" "i < length (rb_valid buf)"
  shows "rb_valid (store_bytes pos bs buf) ! i \<longleftrightarrow> rb_valid buf ! i \<or> pos \<le> i \<and> i < pos + length bs"
  using assms
  by (induction pos bs buf rule: store_bytes.induct) (auto simp: store_byte_def nth_list_update)

lemma store_bytes_pending:
  assumes "pos + length bs \<le> length (rb_valid buf)" "length (rb_pending buf) = length (rb_valid buf)"
    "i < length (rb_valid buf)"
  shows "rb_pending (store_bytes pos bs buf) ! i =
    (if \<not> rb_valid buf ! i \<and> pos \<le> i \<and> i < pos + length bs then bs ! (i - pos) else rb_pending buf ! i)"
  using assms
  by (induction pos bs buf rule: store_bytes.induct)
    (auto simp: store_byte_def nth_list_update nth_Cons' not_less_eq_eq Suc_le_eq le_less)

lemma store_bytes_count:
  assumes "pos + length bs \<le> length (rb_valid buf)" "rb_count buf = length (filter (\<lambda>v. v) (rb_valid buf))"
  shows "rb_count (store_bytes pos bs buf) = rb_count buf + count_new (rb_valid buf) pos (length bs)"
    "rb_count (store_bytes pos bs buf) = length (filter (\<lambda>v. v) (rb_valid (store_bytes pos bs buf)))"
  using assms
  by (induction pos bs buf rule: store_bytes.induct)
    (auto simp: store_byte_def count_new_Suc count_new_update filter_update_True, simp_all add: count_new_def)

lemma takeWhile_True: "takeWhile (\<lambda>v. v) vs = replicate (length (takeWhile (\<lambda>v. v) vs)) True"
  by (induction vs) simp_all

lemma ready_split:
  assumes "length (rb_valid buf) = 4096"
  shows "rb_valid buf = replicate (count_ready buf) True @ drop (count_ready buf) (rb_valid buf)"
    "count_ready buf \<le> 4096" "count_ready buf < 4096 \<Longrightarrow> \<not> rb_valid buf ! count_ready buf"
proof -
  let ?w = "takeWhile (\<lambda>v. v) (rb_valid buf)"
  have r: "count_ready buf = length ?w" using assms by (simp add: count_ready_def)
  have "rb_valid buf = ?w @ dropWhile (\<lambda>v. v) (rb_valid buf)" by simp
  then show "rb_valid buf = replicate (count_ready buf) True @ drop (count_ready buf) (rb_valid buf)"
    unfolding r using takeWhile_True [of "rb_valid buf"] by (simp add: dropWhile_eq_drop)
  show "count_ready buf \<le> 4096" unfolding r using length_takeWhile_le [of _ "rb_valid buf"] assms by metis
  show "\<not> rb_valid buf ! count_ready buf" if "count_ready buf < 4096"
    unfolding r using that assms r nth_length_takeWhile [of "\<lambda>v. v" "rb_valid buf"] by simp
qed

lemma take_ready_ok:
  assumes "length (rb_pending buf) = 4096" "length (rb_valid buf) = 4096"
    "rb_count buf = length (filter (\<lambda>v. v) (rb_valid buf))" "length (rb_data buf) + rb_count buf \<le> 4096"
  shows "buf_ok (take_ready (count_ready buf) buf)" "\<not> rb_valid (take_ready (count_ready buf) buf) ! 0"
proof -
  note R = ready_split [OF assms(2)]
  let ?r = "count_ready buf"
  have "length (filter (\<lambda>v. v) (rb_valid buf)) = ?r + length (filter (\<lambda>v. v) (drop ?r (rb_valid buf)))"
    by (subst R(1)) simp
  then show "buf_ok (take_ready ?r buf)"
    using assms R(2) by (simp add: buf_ok_def take_ready_def)
  show "\<not> rb_valid (take_ready ?r buf) ! 0"
    using R(2,3) assms(2) by (cases "?r = 4096") (simp_all add: take_ready_def nth_append)
qed

lemma take_ready_0: "take_ready 0 buf = buf"
  by (simp add: take_ready_def)

section \<open>The stream\<close>

text \<open>
  The receiver of a stream \<open>f\<close> of \<open>L\<close> bytes whose first byte has sequence number \<open>isn\<close>, when the
  application has read \<open>taken\<close>, the next expected byte is byte \<open>R\<close> and the bytes of \<open>A\<close> have been
  accepted.
\<close>

definition stream_ok :: "(nat \<Rightarrow> u8) \<Rightarrow> nat \<Rightarrow> u32 \<Rightarrow> nat set \<Rightarrow> bytes \<Rightarrow> nat \<Rightarrow> tcp_socket \<Rightarrow> bool" where
  "stream_ok f L isn A taken R s \<longleftrightarrow>
    (let buf = sk_recv_buffer s in
     buf_ok buf \<and> sk_recv_seq s = isn + of_nat R \<and> taken @ rb_data buf = map f [0..<R] \<and> R \<le> L \<and>
     sk_has_data s = (rb_data buf \<noteq> []) \<and> \<not> rb_valid buf ! 0 \<and>
     (\<forall>i<4096. rb_valid buf ! i \<longrightarrow> rb_pending buf ! i = f (R + i) \<and> R + i < L) \<and>
     (\<forall>j\<in>A. j < R \<or> j - R < 4096 \<and> rb_valid buf ! (j - R)))"

lemma stream_seq:
  assumes "unat (isn :: u32) + L < 2 ^ 32" "k \<le> L"
  shows "unat (isn + of_nat k) = unat isn + k"
proof -
  have "unat (of_nat k :: u32) = k" using assms by (simp add: unat_of_nat)
  then show ?thesis using assms by (simp add: unat_word_ariths)
qed

lemma unat_diff_of_nat: "k \<le> R \<Longrightarrow> R < 2 ^ 32 \<Longrightarrow> unat (of_nat R - of_nat k :: u32) = R - k"
  by (simp flip: of_nat_diff add: unat_of_nat)

lemma trim_stream:
  assumes nw: "unat (isn :: u32) + L < 2 ^ 32" and k: "k + n \<le> L" "0 < n" and R: "R \<le> L"
  shows "trim_received (isn + of_nat R) (isn + of_nat k) (map f [k..<k + n]) =
    (if k + n \<le> R then None else Some (isn + of_nat (max k R), map f [max k R..<k + n]))"
proof -
  have u: "unat (isn + of_nat k) = unat isn + k" "unat (isn + of_nat R) = unat isn + R"
    using stream_seq [OF nw] k R by simp_all
  have lt: "isn + of_nat k < isn + of_nat R \<longleftrightarrow> k < R" by (simp add: word_less_nat_alt u)
  show ?thesis
  proof (cases "k < R")
    case True
    have "unat (of_nat R - of_nat k :: u32) = R - k" using True R nw by (intro unat_diff_of_nat) simp_all
    then show ?thesis
      using True by (auto simp: trim_received_def lt Let_def drop_map)
  next
    case False
    then show ?thesis using k by (simp add: trim_received_def lt)
  qed
qed

lemma stream_offset:
  assumes "unat (isn :: u32) + L < 2 ^ 32" "R \<le> k" "k \<le> L"
  shows "unat (isn + of_nat k - (isn + of_nat R)) = k - R"
  using assms by (simp add: unat_diff_of_nat)

text \<open>Moving the run of consecutive bytes out of the window.\<close>

lemma take_ready_stream:
  assumes len: "length (rb_pending buf) = 4096" "length (rb_valid buf) = 4096"
    and win: "\<And>i. i < 4096 \<Longrightarrow> rb_valid buf ! i \<Longrightarrow> rb_pending buf ! i = f (R + i) \<and> R + i < L"
    and R: "R \<le> L"
  defines "r \<equiv> count_ready buf"
  shows "take r (rb_pending buf) = map f [R..<R + r]" "R + r \<le> L"
    "\<And>i. i < 4096 \<Longrightarrow> rb_valid (take_ready r buf) ! i \<longleftrightarrow> i + r < 4096 \<and> rb_valid buf ! (i + r)"
    "\<And>i. i < 4096 \<Longrightarrow> rb_valid (take_ready r buf) ! i \<Longrightarrow>
      rb_pending (take_ready r buf) ! i = f (R + r + i) \<and> R + r + i < L"
proof -
  note S = ready_split [OF len(2), folded r_def]
  have run: "rb_valid buf ! i" if "i < r" for i
    using that by (subst S(1)) (simp add: nth_append)
  show "take r (rb_pending buf) = map f [R..<R + r]"
  proof (rule nth_equalityI)
    fix i assume "i < length (take r (rb_pending buf))"
    then have "i < r" using S(2) len by simp
    then show "take r (rb_pending buf) ! i = map f [R..<R + r] ! i"
      using run win [of i] S(2) by simp
  qed (use S(2) len in simp)
  show "R + r \<le> L"
    using R run [of "r - 1"] win [of "r - 1"] S(2) by (cases r) auto
  show valid: "rb_valid (take_ready r buf) ! i \<longleftrightarrow> i + r < 4096 \<and> rb_valid buf ! (i + r)" if "i < 4096" for i
    using that len S(2) by (auto simp: take_ready_def nth_append add.commute)
  show "rb_pending (take_ready r buf) ! i = f (R + r + i) \<and> R + r + i < L"
    if "i < 4096" "rb_valid (take_ready r buf) ! i" for i
  proof -
    have "i + r < 4096" "rb_valid buf ! (i + r)" using that valid by auto
    moreover from this have "i < 4096 - r" by simp
    ultimately show ?thesis
      using win [of "i + r"] len S(2) by (simp add: take_ready_def nth_append add.commute add.left_commute)
  qed
qed

lemma buffer_payload_accepts:
  assumes "tcp_buffer_payload s seq_num payload = (acc, s')" "payload \<noteq> []"
    "trim_received (sk_recv_seq s) seq_num payload = Some (seq', payload')"
  shows "(\<not> acc \<and> s' = s) \<or>
    (let offset = unat (seq' - sk_recv_seq s); buf = sk_recv_buffer s;
         buf1 = store_bytes offset payload' buf; r = count_ready buf1
     in acc \<and> offset + length payload' \<le> 4096 \<and>
        length (rb_data buf) + rb_count buf + count_new (rb_valid buf) offset (length payload') \<le> 4096 \<and>
        s' = s\<lparr>sk_recv_buffer := take_ready r buf1, sk_recv_seq := sk_recv_seq s + of_nat r,
          sk_has_data := rb_data (take_ready r buf1) \<noteq> []\<rparr>)"
  using assms by (auto simp: tcp_buffer_payload_def Let_def take_ready_0 split: if_splits)

lemma buffer_stream:
  assumes ok: "stream_ok f L isn A taken R s" and nw: "unat isn + L < 2 ^ 32" and k: "k + n \<le> L"
    and res: "tcp_buffer_payload s (isn + of_nat k) (map f [k..<k + n]) = (acc, s')"
  shows "\<exists>R'\<ge>R. stream_ok f L isn (if acc then A \<union> {k..<k + n} else A) taken R' s'"
proof (cases "n = 0 \<or> k + n \<le> R")
  case True
  have R: "R \<le> L" and seq: "sk_recv_seq s = isn + of_nat R" using ok by (auto simp: stream_ok_def Let_def)
  have "tcp_buffer_payload s (isn + of_nat k) (map f [k..<k + n]) = (True, s)"
  proof (cases "n = 0")
    case False
    then have "trim_received (sk_recv_seq s) (isn + of_nat k) (map f [k..<k + n]) = None"
      using True trim_stream [OF nw k _ R] by (simp add: seq)
    then show ?thesis by (simp add: tcp_buffer_payload_def)
  qed (simp add: tcp_buffer_payload_def)
  then have "(acc, s') = (True, s)" using res by simp
  then show ?thesis using ok True by (intro exI [of _ R]) (auto simp: stream_ok_def Let_def)
next
  case False
  then have n: "0 < n" and kR: "\<not> k + n \<le> R" by auto
  let ?buf = "sk_recv_buffer s"
  have bok: "buf_ok ?buf" and seq: "sk_recv_seq s = isn + of_nat R" and data: "taken @ rb_data ?buf = map f [0..<R]"
    and R: "R \<le> L" and win: "\<And>i. i < 4096 \<Longrightarrow> rb_valid ?buf ! i \<Longrightarrow> rb_pending ?buf ! i = f (R + i) \<and> R + i < L"
    and A: "\<And>j. j \<in> A \<Longrightarrow> j < R \<or> j - R < 4096 \<and> rb_valid ?buf ! (j - R)"
    using ok by (auto simp: stream_ok_def Let_def)
  let ?k = "max k R" and ?n = "k + n - max k R"
  let ?off = "?k - R" and ?pay = "map f [?k..<k + n]"
  have tr: "trim_received (sk_recv_seq s) (isn + of_nat k) (map f [k..<k + n]) = Some (isn + of_nat ?k, ?pay)"
    using trim_stream [OF nw k n R] kR by (simp add: seq)
  have off: "unat (isn + of_nat ?k - sk_recv_seq s) = ?off"
    unfolding seq by (rule stream_offset [OF nw]) (use k R kR in auto)
  have ne: "map f [k..<k + n] \<noteq> []" using n by simp
  let ?b1 = "store_bytes ?off ?pay ?buf"
  let ?r = "count_ready ?b1"
  consider "\<not> acc" "s' = s"
    | "acc" "?off + ?n \<le> 4096" "length (rb_data ?buf) + rb_count ?buf + count_new (rb_valid ?buf) ?off ?n \<le> 4096"
      "s' = s\<lparr>sk_recv_buffer := take_ready ?r ?b1, sk_recv_seq := sk_recv_seq s + of_nat ?r,
        sk_has_data := rb_data (take_ready ?r ?b1) \<noteq> []\<rparr>"
    using buffer_payload_accepts [OF res ne tr] by (auto simp: Let_def off)
  then show ?thesis
  proof cases
    case 1
    then show ?thesis using ok by auto
  next
    case 2
    have len: "length (rb_pending ?buf) = 4096" "length (rb_valid ?buf) = 4096"
      and cnt: "rb_count ?buf = length (filter (\<lambda>v. v) (rb_valid ?buf))" using bok by (simp_all add: buf_ok_def)
    have fit: "?off + length ?pay \<le> length (rb_valid ?buf)" using 2(2) len by simp
    have len1: "length (rb_pending ?b1) = 4096" "length (rb_valid ?b1) = 4096" using len by simp_all
    have valid1: "rb_valid ?b1 ! i \<longleftrightarrow> rb_valid ?buf ! i \<or> ?off \<le> i \<and> i < ?off + ?n" if "i < 4096" for i
      using store_bytes_valid [OF fit, of i] that len by simp
    have win1: "rb_pending ?b1 ! i = f (R + i) \<and> R + i < L" if "i < 4096" "rb_valid ?b1 ! i" for i
      using store_bytes_pending [OF fit, of i] that len win [of i] valid1 [of i] kR k
      by (auto simp: add.commute)
    note T = take_ready_stream [of ?b1, OF len1 win1 R]
    have "rb_count ?b1 = length (filter (\<lambda>v. v) (rb_valid ?b1))" "length (rb_data ?b1) + rb_count ?b1 \<le> 4096"
      using store_bytes_count [OF fit cnt] 2(3) by simp_all
    note K = take_ready_ok [OF len1 this]
    have acc_new: "j < R + ?r \<or> j - (R + ?r) < 4096 \<and> rb_valid (take_ready ?r ?b1) ! (j - (R + ?r))"
      if "j < R \<or> j - R < 4096 \<and> rb_valid ?b1 ! (j - R)" for j
      using that T(3) [of "j - (R + ?r)"] by (cases "j < R + ?r") auto
    have old: "j < R \<or> j - R < 4096 \<and> rb_valid ?b1 ! (j - R)" if "j \<in> A" for j
      using A [OF that] valid1 by blast
    have new: "j < R \<or> j - R < 4096 \<and> rb_valid ?b1 ! (j - R)" if "j \<in> {k..<k + n}" for j
      using that valid1 [of "j - R"] 2(2) by (cases "j < R") auto
    have "taken @ rb_data (take_ready ?r ?b1) = map f [0..<R + ?r]"
      using data T(1) upt_add_eq_append [of 0 R ?r] by (simp add: take_ready_def)
    moreover have "\<forall>j\<in>A \<union> {k..<k + n}. j < R + ?r \<or>
        j - (R + ?r) < 4096 \<and> rb_valid (take_ready ?r ?b1) ! (j - (R + ?r))"
      using acc_new old new by blast
    moreover have "\<forall>i<4096. rb_valid (take_ready ?r ?b1) ! i \<longrightarrow>
        rb_pending (take_ready ?r ?b1) ! i = f (R + ?r + i) \<and> R + ?r + i < L"
      using T(4) by blast
    moreover have "sk_recv_seq s + of_nat ?r = isn + of_nat (R + ?r)" by (simp add: seq)
    ultimately have "stream_ok f L isn (A \<union> {k..<k + n}) taken (R + ?r) s'"
      unfolding stream_ok_def Let_def 2(4) using K T(2) by simp
    then show ?thesis using 2(1) by (intro exI [of _ "R + ?r"]) simp
  qed
qed

lemma recv_stream:
  assumes "stream_ok f L isn A taken R s" "tcp_socket_recv s m = (out, s')"
  shows "stream_ok f L isn A (taken @ out) R s'"
proof (cases "m = 0 \<or> \<not> sk_has_data s \<or> rb_data (sk_recv_buffer s) = []")
  case True
  then have "out = [] \<and> s' = s" using assms(2) by (auto simp: tcp_socket_recv_def Let_def)
  then show ?thesis using assms(1) by simp
next
  case False
  let ?n = "min (length (rb_data (sk_recv_buffer s))) m"
  have "out = take ?n (rb_data (sk_recv_buffer s))"
    "s' = s\<lparr>sk_recv_buffer := sk_recv_buffer s\<lparr>rb_data := drop ?n (rb_data (sk_recv_buffer s))\<rparr>,
      sk_has_data := drop ?n (rb_data (sk_recv_buffer s)) \<noteq> []\<rparr>"
    using False assms(2) by (auto simp: tcp_socket_recv_def Let_def)
  then show ?thesis
    using assms(1) by (auto simp: stream_ok_def Let_def buf_ok_def)
qed

section \<open>Any interleaving of arrivals and reads\<close>

text \<open>A piece of the stream arrives (bytes \<open>k\<close> to \<open>k + n\<close>), or the application reads.\<close>

datatype stream_event = Arrive nat nat | Read nat

fun stream_run :: "(nat \<Rightarrow> u8) \<Rightarrow> u32 \<Rightarrow> stream_event list \<Rightarrow> tcp_socket \<times> bytes \<times> nat set \<Rightarrow> tcp_socket \<times> bytes \<times> nat set" where
  "stream_run f isn [] st = st"
| "stream_run f isn (Arrive k n # es) (s, taken, A) =
    (let (acc, s) = tcp_buffer_payload s (isn + of_nat k) (map f [k..<k + n])
     in stream_run f isn es (s, taken, if acc then A \<union> {k..<k + n} else A))"
| "stream_run f isn (Read m # es) (s, taken, A) =
    (let (out, s) = tcp_socket_recv s m in stream_run f isn es (s, taken @ out, A))"

lemma stream_run_ok:
  assumes "stream_ok f L isn A taken R s" "unat isn + L < 2 ^ 32" "\<forall>k n. Arrive k n \<in> set es \<longrightarrow> k + n \<le> L"
    "stream_run f isn es (s, taken, A) = (s', taken', A')"
  shows "\<exists>R'. stream_ok f L isn A' taken' R' s'"
  using assms
proof (induction es arbitrary: A taken R s)
  case (Cons e es)
  show ?case
  proof (cases e)
    case (Arrive k n)
    obtain acc s1 where b: "tcp_buffer_payload s (isn + of_nat k) (map f [k..<k + n]) = (acc, s1)"
      by fastforce
    have "k + n \<le> L" using Cons.prems(3) Arrive by simp
    then obtain R1 where "stream_ok f L isn (if acc then A \<union> {k..<k + n} else A) taken R1 s1"
      using buffer_stream [OF Cons.prems(1,2) _ b] by blast
    then show ?thesis using Cons.IH Cons.prems Arrive b by auto
  next
    case (Read m)
    obtain out s1 where r: "tcp_socket_recv s m = (out, s1)" by fastforce
    show ?thesis using Cons.IH [OF recv_stream [OF Cons.prems(1) r]] Cons.prems Read r by auto
  qed
qed auto

lemma stream_ok_fresh:
  assumes "sk_recv_buffer s = zero_recv_buffer" "sk_recv_seq s = isn" "\<not> sk_has_data s"
  shows "stream_ok f L isn {} [] 0 s"
  using assms by (simp add: stream_ok_def buf_ok_def zero_recv_buffer_def)

lemma stream_ok_complete:
  assumes "stream_ok f L isn A taken R s" "{..<n} \<subseteq> A"
  shows "n \<le> R"
proof (rule ccontr)
  assume "\<not> n \<le> R"
  then have "R \<in> A" using assms(2) by auto
  then show False using assms(1) by (auto simp: stream_ok_def Let_def)
qed

text \<open>C1. Reassembly delivers the byte stream: for any arrivals of pieces of the sender's stream
  (out of order, overlapping, repeated, refused for lack of room) and any reads in between, what
  the application has read followed by what it can still read is a prefix of the stream, its
  length is the next expected sequence number, it contains every prefix all of whose bytes were
  accepted, and the receive buffer holds at most 4096 bytes. The stream must not wrap around the
  32-bit sequence space, since the code compares sequence numbers without it.\<close>

theorem reassembly_delivers_stream:
  assumes "sk_recv_buffer s = zero_recv_buffer" "sk_recv_seq s = isn" "\<not> sk_has_data s"
    and "unat isn + L < 2 ^ 32" "\<forall>k n. Arrive k n \<in> set es \<longrightarrow> k + n \<le> L"
    and "stream_run f isn es (s, [], {}) = (s', taken, accepted)"
  shows "\<exists>R\<le>L. taken @ rb_data (sk_recv_buffer s') = map f [0..<R] \<and> sk_recv_seq s' = isn + of_nat R \<and>
    (\<forall>n. {..<n} \<subseteq> accepted \<longrightarrow> n \<le> R) \<and>
    length (rb_data (sk_recv_buffer s')) + rb_count (sk_recv_buffer s') \<le> 4096"
proof -
  obtain R where ok: "stream_ok f L isn accepted taken R s'"
    using stream_run_ok [OF stream_ok_fresh [OF assms(1-3)] assms(4-6)] by blast
  then show ?thesis
    using stream_ok_complete [OF ok] by (intro exI [of _ R]) (simp add: stream_ok_def Let_def buf_ok_def)
qed

theorem reassembly_delivers_stream_witness:
  "\<exists>s' taken accepted. stream_run of_nat 7 [Arrive 2 3, Read 9, Arrive 0 4, Read 3] (zero_socket\<lparr>sk_recv_seq := 7\<rparr>, [], {})
      = (s', taken, accepted) \<and>
    (\<exists>R\<le>5. taken @ rb_data (sk_recv_buffer s') = map of_nat [0..<R])"
proof -
  obtain s' taken accepted where run: "stream_run of_nat 7 [Arrive 2 3, Read 9, Arrive 0 4, Read 3]
      (zero_socket\<lparr>sk_recv_seq := 7\<rparr>, [], {}) = (s', taken, accepted)"
    by (metis surj_pair)
  from reassembly_delivers_stream [OF _ _ _ _ _ run, of 5]
  show ?thesis using run by (auto simp: zero_socket_def)
qed

end
