(* ===== verification/Ring.thy ===== *)
theory Ring
  imports Prelude
begin

text \<open>
  The ring buffers of packets that wait for an address resolution (\<^verbatim>\<open>HostPendingQueue\<close>,
  \<^verbatim>\<open>RouterPendingQueue\<close>): an array with head, tail and size. The loops over it are written once
  over any item type and shown to implement operations of a bounded list; the locale
  \<open>pending_queue\<close> is the contract the resolution code relies on.
\<close>

record 'e ring =
  ring_items :: "'e list"
  ring_head :: nat
  ring_tail :: nat
  ring_size :: nat

definition ring_reset :: "'e ring \<Rightarrow> 'e ring" where
  "ring_reset q = q\<lparr>ring_head := 0, ring_tail := 0, ring_size := 0\<rparr>"

definition ring_store :: "nat \<Rightarrow> 'e \<Rightarrow> 'e ring \<Rightarrow> 'e ring" where
  "ring_store cap e q = q\<lparr>ring_items := (ring_items q)[ring_tail q := e],
     ring_tail := (ring_tail q + 1) mod cap, ring_size := ring_size q + 1\<rparr>"

definition ring_push :: "nat \<Rightarrow> 'e \<Rightarrow> 'e ring \<Rightarrow> bool \<times> 'e ring" where
  "ring_push cap e q = (if cap \<le> ring_size q then (False, q) else (True, ring_store cap e q))"

definition ring_drop_head :: "nat \<Rightarrow> 'e ring \<Rightarrow> 'e ring" where
  "ring_drop_head cap q = q\<lparr>ring_head := (ring_head q + 1) mod cap, ring_size := ring_size q - 1\<rparr>"

text \<open>One turn of the ring: the first match is taken out, everything else goes to the back.\<close>

fun ring_dequeue_loop :: "nat \<Rightarrow> ('e \<Rightarrow> bool) \<Rightarrow> nat \<Rightarrow> 'e option \<Rightarrow> 'e ring \<Rightarrow> 'e option \<times> 'e ring" where
  "ring_dequeue_loop cap match 0 found q = (found, q)"
| "ring_dequeue_loop cap match (Suc n) found q =
    (let current = ring_items q ! ring_head q;
         q = ring_drop_head cap q
     in if found = None \<and> match current then ring_dequeue_loop cap match n (Some current) q
        else ring_dequeue_loop cap match n found (ring_store cap current q))"

definition ring_dequeue :: "nat \<Rightarrow> ('e \<Rightarrow> bool) \<Rightarrow> 'e ring \<Rightarrow> 'e option \<times> 'e ring" where
  "ring_dequeue cap match q = ring_dequeue_loop cap match (ring_size q) None q"

text \<open>The position of the first match, from \<open>index\<close> over \<open>n\<close> items.\<close>

fun ring_find_loop :: "nat \<Rightarrow> ('e \<Rightarrow> bool) \<Rightarrow> nat \<Rightarrow> nat \<Rightarrow> 'e ring \<Rightarrow> 'e option" where
  "ring_find_loop cap match 0 index q = None"
| "ring_find_loop cap match (Suc n) index q =
    (if match (ring_items q ! index) then Some (ring_items q ! index)
     else ring_find_loop cap match n ((index + 1) mod cap) q)"

definition ring_find :: "nat \<Rightarrow> ('e \<Rightarrow> bool) \<Rightarrow> 'e ring \<Rightarrow> 'e option" where
  "ring_find cap match q = ring_find_loop cap match (ring_size q) (ring_head q) q"

fun ring_count_loop :: "nat \<Rightarrow> ('e \<Rightarrow> bool) \<Rightarrow> nat \<Rightarrow> nat \<Rightarrow> 'e ring \<Rightarrow> nat \<Rightarrow> nat" where
  "ring_count_loop cap match 0 index q count = count"
| "ring_count_loop cap match (Suc n) index q count =
    ring_count_loop cap match n ((index + 1) mod cap) q
      (if match (ring_items q ! index) then count + 1 else count)"

definition ring_count :: "nat \<Rightarrow> ('e \<Rightarrow> bool) \<Rightarrow> 'e ring \<Rightarrow> nat" where
  "ring_count cap match q = ring_count_loop cap match (ring_size q) (ring_head q) q 0"

fun ring_update_loop :: "nat \<Rightarrow> ('e \<Rightarrow> bool) \<Rightarrow> ('e \<Rightarrow> 'e) \<Rightarrow> nat \<Rightarrow> nat \<Rightarrow> 'e ring \<Rightarrow> 'e ring" where
  "ring_update_loop cap match f 0 index q = q"
| "ring_update_loop cap match f (Suc n) index q =
    ring_update_loop cap match f n ((index + 1) mod cap)
      (if match (ring_items q ! index)
       then q\<lparr>ring_items := (ring_items q)[index := f (ring_items q ! index)]\<rparr> else q)"

definition ring_update :: "nat \<Rightarrow> ('e \<Rightarrow> bool) \<Rightarrow> ('e \<Rightarrow> 'e) \<Rightarrow> 'e ring \<Rightarrow> 'e ring" where
  "ring_update cap match f q = ring_update_loop cap match f (ring_size q) (ring_head q) q"

section \<open>The ring as a list\<close>

definition ring_list :: "nat \<Rightarrow> 'e ring \<Rightarrow> 'e list" where
  "ring_list cap q = map (\<lambda>i. ring_items q ! ((ring_head q + i) mod cap)) [0..<ring_size q]"

definition wf_ring :: "nat \<Rightarrow> 'e ring \<Rightarrow> bool" where
  "wf_ring cap q \<longleftrightarrow> 0 < cap \<and> length (ring_items q) = cap \<and> ring_head q < cap \<and>
    ring_size q \<le> cap \<and> ring_tail q = (ring_head q + ring_size q) mod cap"

fun remove_first :: "('e \<Rightarrow> bool) \<Rightarrow> 'e list \<Rightarrow> 'e list" where
  "remove_first P [] = []"
| "remove_first P (x # xs) = (if P x then xs else x # remove_first P xs)"

lemma length_ring_list [simp]: "length (ring_list cap q) = ring_size q"
  by (simp add: ring_list_def)

lemma wf_reset: "0 < cap \<Longrightarrow> length (ring_items q) = cap \<Longrightarrow> wf_ring cap (ring_reset q) \<and> ring_list cap (ring_reset q) = []"
  by (simp add: wf_ring_def ring_reset_def ring_list_def)

text \<open>Positions of the ring.\<close>

lemma mod_wrap: "h < c \<Longrightarrow> i \<le> c \<Longrightarrow> (h + i) mod c = (if h + i < c then h + i else h + i - (c::nat))"
  by (auto simp: le_mod_geq)

lemma mod_add_inject:
  assumes "h < c" "i < c" "j < c" "(h + i) mod c = (h + j) mod (c::nat)"
  shows "i = j"
  using assms by (simp add: mod_wrap split: if_splits)

lemma ring_list_Cons:
  assumes "wf_ring cap q" "0 < ring_size q"
  shows "ring_list cap q = ring_items q ! ring_head q # ring_list cap (ring_drop_head cap q)"
proof -
  obtain m where m: "ring_size q = Suc m" using assms(2) by (cases "ring_size q") simp_all
  have shift: "((ring_head q + 1) mod cap + i) mod cap = (ring_head q + Suc i) mod cap" for i
    by (simp add: mod_add_left_eq)
  have "ring_list cap q = map (\<lambda>i. ring_items q ! ((ring_head q + i) mod cap)) (0 # map Suc [0..<m])"
    unfolding ring_list_def m by (simp only: upt_conv_Cons map_Suc_upt zero_less_Suc)
  then show ?thesis
    using assms(1) shift by (simp add: ring_list_def ring_drop_head_def wf_ring_def comp_def m)
qed

lemma wf_drop_head:
  assumes "wf_ring cap q" "0 < ring_size q"
  shows "wf_ring cap (ring_drop_head cap q)"
proof -
  obtain m where m: "ring_size q = Suc m" using assms(2) by (cases "ring_size q") simp_all
  have "((ring_head q + 1) mod cap + m) mod cap = (ring_head q + Suc m) mod cap"
    by (simp add: mod_add_left_eq)
  then show ?thesis using assms by (simp add: wf_ring_def ring_drop_head_def m)
qed

lemma ring_store_list:
  assumes wf: "wf_ring cap q" and room: "ring_size q < cap"
  shows "wf_ring cap (ring_store cap e q)" "ring_list cap (ring_store cap e q) = ring_list cap q @ [e]"
proof -
  note D = wf [unfolded wf_ring_def]
  have t: "ring_tail q = (ring_head q + ring_size q) mod cap" "ring_tail q < length (ring_items q)"
    using D by simp_all
  show "wf_ring cap (ring_store cap e q)"
    using D room by (simp add: wf_ring_def ring_store_def mod_Suc_eq)
  have "(ring_items q)[ring_tail q := e] ! ((ring_head q + i) mod cap) = ring_items q ! ((ring_head q + i) mod cap)"
    if "i < ring_size q" for i
  proof -
    have "(ring_head q + i) mod cap \<noteq> ring_tail q"
      using mod_add_inject [of "ring_head q" cap i "ring_size q"] that D room by auto
    then show ?thesis by simp
  qed
  then show "ring_list cap (ring_store cap e q) = ring_list cap q @ [e]"
    using t by (simp add: ring_list_def ring_store_def)
qed

lemma ring_push_list:
  assumes "wf_ring cap q"
  shows "wf_ring cap (snd (ring_push cap e q))"
    "fst (ring_push cap e q) \<longleftrightarrow> ring_size q < cap"
    "ring_list cap (snd (ring_push cap e q)) = ring_list cap q @ (if ring_size q < cap then [e] else [])"
  using assms ring_store_list [OF assms] by (simp_all add: ring_push_def)

section \<open>Dequeuing\<close>

lemma ring_dequeue_loop_list:
  assumes "wf_ring cap q" "ring_list cap q = rest @ done" "length rest = n"
  shows "wf_ring cap (snd (ring_dequeue_loop cap P n found q))"
    "fst (ring_dequeue_loop cap P n found q) = (case found of None \<Rightarrow> find P rest | Some x \<Rightarrow> Some x)"
    "ring_list cap (snd (ring_dequeue_loop cap P n found q)) =
      done @ (if found = None then remove_first P rest else rest)"
  using assms
proof (induction cap P n found q arbitrary: rest "done" rule: ring_dequeue_loop.induct)
  case (1 cap P found q)
  { case 1 then show ?case by simp }
  { case 2 then show ?case by (simp split: option.split) }
  { case 3 then show ?case by simp }
next
  case (2 cap P n found q)
  let ?x = "ring_items q ! ring_head q" and ?q = "ring_drop_head cap q"
  have *: "wf_ring cap (snd (ring_dequeue_loop cap P (Suc n) found q)) \<and>
    fst (ring_dequeue_loop cap P (Suc n) found q) = (case found of None \<Rightarrow> find P rest | Some x \<Rightarrow> Some x) \<and>
    ring_list cap (snd (ring_dequeue_loop cap P (Suc n) found q)) =
      done @ (if found = None then remove_first P rest else rest)"
    if wf: "wf_ring cap q" and l: "ring_list cap q = rest @ done" and n: "length rest = Suc n" for rest "done"
  proof -
    have s: "0 < ring_size q" using l n by (metis length_ring_list length_append add_is_0 neq0_conv nat.simps(3))
    obtain rest' where r: "rest = ?x # rest'" and l': "ring_list cap ?q = rest' @ done" and n': "length rest' = n"
      using ring_list_Cons [OF wf s] l n by (cases rest) auto
    note wf' = wf_drop_head [OF wf s]
    have "ring_size ?q < cap" using wf s by (auto simp: ring_drop_head_def wf_ring_def)
    note st = ring_store_list [OF wf' this, of ?x]
    show ?thesis
    proof (cases "found = None \<and> P ?x")
      case True
      from "2.IH"(1-3) [OF refl refl True wf' l' n'] True show ?thesis by (simp add: r)
    next
      case False
      have l'': "ring_list cap (ring_store cap ?x ?q) = rest' @ (done @ [?x])" using st(2) l' by simp
      from "2.IH"(4-6) [OF refl refl False st(1) l'' n'] False show ?thesis
        by (auto simp: r Let_def split: option.splits)
    qed
  qed
  { case 1 then show ?case using * by blast }
  { case 2 then show ?case using * by blast }
  { case 3 then show ?case using * by blast }
qed

lemma ring_dequeue_list:
  assumes "wf_ring cap q"
  shows "wf_ring cap (snd (ring_dequeue cap P q))"
    "fst (ring_dequeue cap P q) = find P (ring_list cap q)"
    "ring_list cap (snd (ring_dequeue cap P q)) = remove_first P (ring_list cap q)"
  using ring_dequeue_loop_list [OF assms, of "ring_list cap q" "[]" "ring_size q" P None]
  by (simp_all add: ring_dequeue_def)

section \<open>Searching, counting and updating\<close>

lemma ring_scan:
  assumes "wf_ring cap q"
  shows "ring_find_loop cap P n ((ring_head q + j) mod cap) q =
      find P (map (\<lambda>i. ring_items q ! ((ring_head q + i) mod cap)) [j..<j + n])"
    and "ring_count_loop cap P n ((ring_head q + j) mod cap) q c =
      c + length (filter P (map (\<lambda>i. ring_items q ! ((ring_head q + i) mod cap)) [j..<j + n]))"
proof (induction n arbitrary: j c)
  case (Suc n)
  have step: "((ring_head q + j) mod cap + 1) mod cap = (ring_head q + Suc j) mod cap" for j
    by (simp add: mod_Suc_eq)
  have upt: "[j..<j + Suc n] = j # [Suc j..<Suc j + n]" for j by (simp add: upt_rec)
  { case 1 show ?case unfolding ring_find_loop.simps step Suc.IH(1) upt by simp }
  { case 2 show ?case unfolding ring_count_loop.simps step Suc.IH(2) upt by simp }
qed simp_all

lemma ring_find_list: "wf_ring cap q \<Longrightarrow> ring_find cap P q = find P (ring_list cap q)"
  using ring_scan(1) [of cap q P "ring_size q" 0]
  by (simp add: ring_find_def ring_list_def wf_ring_def)

lemma ring_count_list: "wf_ring cap q \<Longrightarrow> ring_count cap P q = length (filter P (ring_list cap q))"
  using ring_scan(2) [of cap q P "ring_size q" 0 0]
  by (simp add: ring_count_def ring_list_def wf_ring_def)

lemma ring_update_loop_frame [simp]:
  "ring_head (ring_update_loop cap P f n i q) = ring_head q"
  "ring_tail (ring_update_loop cap P f n i q) = ring_tail q"
  "ring_size (ring_update_loop cap P f n i q) = ring_size q"
  "length (ring_items (ring_update_loop cap P f n i q)) = length (ring_items q)"
  by (induction cap P f n i q rule: ring_update_loop.induct) simp_all

lemma ring_update_loop_nth:
  assumes "length (ring_items q) = cap" "h < cap" "n + j \<le> cap" "k < cap"
  shows "ring_items (ring_update_loop cap P f n ((h + j) mod cap) q) ! ((h + k) mod cap) =
    (let x = ring_items q ! ((h + k) mod cap) in if j \<le> k \<and> k < j + n \<and> P x then f x else x)"
  using assms
proof (induction n arbitrary: j q)
  case (Suc n)
  have step: "((h + j) mod cap + 1) mod cap = (h + Suc j) mod cap" by (simp add: mod_Suc_eq)
  have "(h + j) mod cap = (h + k) mod cap \<longleftrightarrow> j = k"
    using mod_add_inject [of h cap j k] Suc.prems by auto
  moreover have "(h + k) mod cap < length (ring_items q)" using Suc.prems by simp
  ultimately show ?case
    using Suc.IH [of _ "Suc j"] Suc.prems
    by (auto simp only: ring_update_loop.simps step Let_def split: if_splits) auto
qed (auto simp: Let_def)

lemma ring_update_list:
  assumes "wf_ring cap q"
  shows "wf_ring cap (ring_update cap P f q)"
    "ring_list cap (ring_update cap P f q) = map (\<lambda>x. if P x then f x else x) (ring_list cap q)"
proof -
  show "wf_ring cap (ring_update cap P f q)"
    using assms by (simp add: ring_update_def wf_ring_def)
  have "ring_items (ring_update cap P f q) ! ((ring_head q + k) mod cap) =
      (let x = ring_items q ! ((ring_head q + k) mod cap) in if P x then f x else x)" if "k < ring_size q" for k
    using ring_update_loop_nth [of q cap "ring_head q" "ring_size q" 0 k P f] assms that
    by (simp add: ring_update_def wf_ring_def)
  then show "ring_list cap (ring_update cap P f q) = map (\<lambda>x. if P x then f x else x) (ring_list cap q)"
    by (simp add: ring_list_def ring_update_def Let_def)
qed

section \<open>The contract of a pending queue\<close>

lemma find_filter: "find P xs = (case filter P xs of [] \<Rightarrow> None | x # _ \<Rightarrow> Some x)"
  by (induction xs) simp_all

lemma filter_remove_first: "filter P (remove_first P xs) = tl (filter P xs)"
  by (induction xs) simp_all

lemma filter_not_remove_first: "filter (\<lambda>x. \<not> P x) (remove_first P xs) = filter (\<lambda>x. \<not> P x) xs"
  by (induction xs) simp_all

lemma filter_remove_first_other:
  "(\<And>x. P x \<Longrightarrow> \<not> Q x) \<Longrightarrow> filter Q (remove_first P xs) = filter Q xs"
  by (induction xs) auto

lemma length_remove_first: "find P xs \<noteq> None \<Longrightarrow> length xs = Suc (length (remove_first P xs))"
  by (induction xs) auto

text \<open>
  What is waiting for one key leaves in the order it came, and nothing that waits for another
  key is lost, duplicated or reordered.
\<close>

locale pending_queue =
  fixes empty :: 'q
    and push :: "'q \<Rightarrow> 'e \<Rightarrow> bool \<times> 'q"
    and take_for :: "'q \<Rightarrow> 'k \<Rightarrow> 'e option \<times> 'q"
    and waiting :: "'q \<Rightarrow> 'e list"
    and key :: "'e \<Rightarrow> 'k"
    and cap :: nat
    and inv :: "'q \<Rightarrow> bool"
  assumes inv_empty: "inv empty"
    and waiting_empty: "waiting empty = []"
    and push_inv: "inv q \<Longrightarrow> inv (snd (push q e))"
    and push_ok: "inv q \<Longrightarrow> fst (push q e) \<longleftrightarrow> length (waiting q) < cap"
    and push_waiting: "inv q \<Longrightarrow>
      waiting (snd (push q e)) = waiting q @ (if length (waiting q) < cap then [e] else [])"
    and take_inv: "inv q \<Longrightarrow> inv (snd (take_for q k))"
    and take_result: "inv q \<Longrightarrow> fst (take_for q k) = find (\<lambda>e. key e = k) (waiting q)"
    and take_waiting: "inv q \<Longrightarrow> waiting (snd (take_for q k)) = remove_first (\<lambda>e. key e = k) (waiting q)"
begin

abbreviation waiting_for :: "'q \<Rightarrow> 'k \<Rightarrow> 'e list" where
  "waiting_for q k \<equiv> filter (\<lambda>e. key e = k) (waiting q)"

lemma take_fifo:
  assumes "inv q"
  shows "fst (take_for q k) = (case waiting_for q k of [] \<Rightarrow> None | e # _ \<Rightarrow> Some e)"
    "waiting_for (snd (take_for q k)) k = tl (waiting_for q k)"
    "k' \<noteq> k \<Longrightarrow> waiting_for (snd (take_for q k)) k' = waiting_for q k'"
proof -
  show "fst (take_for q k) = (case waiting_for q k of [] \<Rightarrow> None | e # _ \<Rightarrow> Some e)"
    "waiting_for (snd (take_for q k)) k = tl (waiting_for q k)"
    using assms by (simp_all add: take_result take_waiting find_filter filter_remove_first)
  show "waiting_for (snd (take_for q k)) k' = waiting_for q k'" if "k' \<noteq> k"
    unfolding take_waiting [OF assms] by (rule filter_remove_first_other) (use that in auto)
qed

lemma push_fifo:
  assumes "inv q" "fst (push q e)"
  shows "waiting_for (snd (push q e)) k = waiting_for q k @ (if key e = k then [e] else [])"
  using assms by (simp add: push_waiting push_ok)

text \<open>Taking out until nothing is left: as many steps as there are matches.\<close>

fun drain :: "nat \<Rightarrow> 'q \<Rightarrow> 'k \<Rightarrow> 'e list \<times> 'q" where
  "drain 0 q k = ([], q)"
| "drain (Suc n) q k =
    (case take_for q k of (None, q') \<Rightarrow> ([], q') | (Some e, q') \<Rightarrow> apfst ((#) e) (drain n q' k))"

lemma take_none_waiting:
  assumes "inv q" "fst (take_for q k) = None"
  shows "waiting (snd (take_for q k)) = waiting q"
proof -
  have "remove_first P xs = xs" if "find P xs = None" for P and xs :: "'e list"
    using that by (induction xs) (auto split: if_splits)
  then show ?thesis using assms by (simp add: take_result take_waiting)
qed

lemma drain_fifo:
  assumes "inv q" "length (waiting_for q k) < n"
  shows "fst (drain n q k) = waiting_for q k \<and> inv (snd (drain n q k)) \<and>
    waiting (snd (drain n q k)) = filter (\<lambda>e. key e \<noteq> k) (waiting q)"
  using assms
proof (induction n arbitrary: q)
  case (Suc n)
  obtain r q' where t: "take_for q k = (r, q')" by (cases "take_for q k")
  note F = take_fifo(1,2) [OF Suc.prems(1), of k, unfolded t] take_inv [OF Suc.prems(1), of k, unfolded t]
    take_waiting [OF Suc.prems(1), of k, unfolded t]
  show ?case
  proof (cases "waiting_for q k")
    case Nil
    then have "filter (\<lambda>e. key e \<noteq> k) (waiting q) = waiting q" by (auto simp: filter_empty_conv filter_id_conv)
    then show ?thesis
      using Nil F take_none_waiting [OF Suc.prems(1), of k] by (simp add: t)
  next
    case (Cons e es)
    have "length (waiting_for q' k) < n" using Suc.prems(2) F(2) Cons by simp
    note IH = Suc.IH [OF F(3) [simplified] this]
    have "filter (\<lambda>e. key e \<noteq> k) (waiting q') = filter (\<lambda>e. key e \<noteq> k) (waiting q)"
      using F(4) filter_not_remove_first by simp
    then show ?thesis using Cons F IH by (simp add: t)
  qed
qed simp

end

end
