(* ===== verification/Tcp_Machine.thy ===== *)
theory Tcp_Machine
  imports Tcp_Stream Ring
begin

text \<open>
  The TCP connection as a state machine: what every operation keeps (bounded buffers), which
  transitions there are, and the three conversations a connection is made for: the handshake, a
  data transfer, and the orderly close.
\<close>

section \<open>Steps of a socket\<close>

definition sock_ok :: "tcp_socket \<Rightarrow> bool" where
  "sock_ok s \<longleftrightarrow> buf_ok (sk_recv_buffer s) \<and> (sk_has_data s \<longrightarrow> rb_data (sk_recv_buffer s) \<noteq> []) \<and>
    length (sb_data (sk_send_buffer s)) \<le> 4096"

inductive tcp_step :: "tcp_socket \<Rightarrow> tcp_socket \<Rightarrow> bool" where
  Connect: "sk_state s = TCP_CLOSED \<Longrightarrow> tcp_step s (tcp_socket_connect s lip sp rip dp)"
| Listen: "sk_state s = TCP_CLOSED \<Longrightarrow> tcp_step s (tcp_socket_listen s lip p)"
| Child: "sk_state s = TCP_CLOSED \<Longrightarrow> tcp_step s (tcp_child i l g src s)"
| Send: "tcp_step s (snd (tcp_socket_send s data))"
| Sent: "tcp_step s (s\<lparr>sk_send_seq := sk_send_seq s + n\<rparr>)"
| Recv: "tcp_step s (snd (tcp_socket_recv s m))"
| Close: "tcp_step s (snd (tcp_socket_close s))"
| Segment: "tcp_socket_receive_segment s g src dst r = (handled, s', r') \<Longrightarrow> tcp_step s s'"

text \<open>The arcs of the diagram of RFC 793 that the code implements.\<close>

inductive tcp_arc :: "tcp_state \<Rightarrow> tcp_state \<Rightarrow> bool" where
  "tcp_arc TCP_CLOSED TCP_SYN_SENT"
| "tcp_arc TCP_CLOSED TCP_LISTEN"
| "tcp_arc TCP_LISTEN TCP_CLOSED"
| "tcp_arc TCP_LISTEN TCP_SYN_RECEIVED"
| "tcp_arc TCP_SYN_SENT TCP_ESTABLISHED"
| "tcp_arc TCP_SYN_RECEIVED TCP_ESTABLISHED"
| "tcp_arc TCP_ESTABLISHED TCP_FIN_WAIT_1"
| "tcp_arc TCP_ESTABLISHED TCP_CLOSE_WAIT"
| "tcp_arc TCP_FIN_WAIT_1 TCP_FIN_WAIT_2"
| "tcp_arc TCP_FIN_WAIT_1 TCP_CLOSING"
| "tcp_arc TCP_FIN_WAIT_1 TCP_TIME_WAIT"
| "tcp_arc TCP_FIN_WAIT_2 TCP_TIME_WAIT"
| "tcp_arc TCP_CLOSING TCP_TIME_WAIT"
| "tcp_arc TCP_CLOSE_WAIT TCP_LAST_ACK"
| "tcp_arc TCP_LAST_ACK TCP_CLOSED"

code_pred tcp_arc .

inductive_simps tcp_arc_from [simp]:
  "tcp_arc TCP_CLOSED x" "tcp_arc TCP_LISTEN x" "tcp_arc TCP_SYN_SENT x" "tcp_arc TCP_SYN_RECEIVED x"
  "tcp_arc TCP_ESTABLISHED x" "tcp_arc TCP_FIN_WAIT_1 x" "tcp_arc TCP_FIN_WAIT_2 x"
  "tcp_arc TCP_CLOSING x" "tcp_arc TCP_TIME_WAIT x" "tcp_arc TCP_CLOSE_WAIT x" "tcp_arc TCP_LAST_ACK x"

section \<open>Frames\<close>

text \<open>Buffering and acknowledging touch nothing but buffers and sequence numbers.\<close>

lemma buffer_payload_frame [simp]:
  "sk_state (snd (tcp_buffer_payload s q p)) = sk_state s"
  "sk_send_seq (snd (tcp_buffer_payload s q p)) = sk_send_seq s"
  "sk_send_ack (snd (tcp_buffer_payload s q p)) = sk_send_ack s"
  "sk_send_buffer (snd (tcp_buffer_payload s q p)) = sk_send_buffer s"
  "sk_local_ip (snd (tcp_buffer_payload s q p)) = sk_local_ip s"
  "sk_remote_ip (snd (tcp_buffer_payload s q p)) = sk_remote_ip s"
  "sk_local_port (snd (tcp_buffer_payload s q p)) = sk_local_port s"
  "sk_remote_port (snd (tcp_buffer_payload s q p)) = sk_remote_port s"
  "sk_is_listening (snd (tcp_buffer_payload s q p)) = sk_is_listening s"
  "sk_in_use (snd (tcp_buffer_payload s q p)) = sk_in_use s"
  by (simp_all add: tcp_buffer_payload_def Let_def split: option.split)

lemma buffer_segment_frame [simp]:
  "sk_state (buffer_segment s g) = sk_state s" "sk_send_seq (buffer_segment s g) = sk_send_seq s"
  "sk_send_ack (buffer_segment s g) = sk_send_ack s"
  "sk_send_buffer (buffer_segment s g) = sk_send_buffer s" "sk_local_ip (buffer_segment s g) = sk_local_ip s"
  "sk_remote_ip (buffer_segment s g) = sk_remote_ip s" "sk_local_port (buffer_segment s g) = sk_local_port s"
  "sk_remote_port (buffer_segment s g) = sk_remote_port s"
  "sk_is_listening (buffer_segment s g) = sk_is_listening s" "sk_in_use (buffer_segment s g) = sk_in_use s"
  by (simp_all add: buffer_segment_def)

lemma acknowledge_frame [simp]:
  "sk_state (tcp_acknowledge_data s a) = sk_state s" "sk_send_seq (tcp_acknowledge_data s a) = sk_send_seq s"
  "sk_recv_seq (tcp_acknowledge_data s a) = sk_recv_seq s"
  "sk_recv_buffer (tcp_acknowledge_data s a) = sk_recv_buffer s"
  "sk_has_data (tcp_acknowledge_data s a) = sk_has_data s"
  "sk_local_ip (tcp_acknowledge_data s a) = sk_local_ip s" "sk_remote_ip (tcp_acknowledge_data s a) = sk_remote_ip s"
  "sk_local_port (tcp_acknowledge_data s a) = sk_local_port s"
  "sk_remote_port (tcp_acknowledge_data s a) = sk_remote_port s"
  "sk_is_listening (tcp_acknowledge_data s a) = sk_is_listening s"
  "sk_in_use (tcp_acknowledge_data s a) = sk_in_use s"
  by (simp_all add: tcp_acknowledge_data_def Let_def)

section \<open>Buffers are never overrun\<close>

lemma sock_ok_zero [simp]: "sock_ok zero_socket" "sock_ok allocated_socket"
  by (simp_all add: sock_ok_def buf_ok_def zero_socket_def allocated_socket_def zero_recv_buffer_def)

lemma sock_ok_acknowledge: "sock_ok s \<Longrightarrow> sock_ok (tcp_acknowledge_data s a)"
  by (auto simp: sock_ok_def tcp_acknowledge_data_def Let_def)

lemma sock_ok_payload:
  assumes "sock_ok s"
  shows "sock_ok (snd (tcp_buffer_payload s q p))"
proof (cases "p = [] \<or> trim_received (sk_recv_seq s) q p = None")
  case True
  then show ?thesis using assms by (auto simp: tcp_buffer_payload_def)
next
  case False
  then obtain q' p' where tr: "trim_received (sk_recv_seq s) q p = Some (q', p')" by auto
  obtain acc s' where b: "tcp_buffer_payload s q p = (acc, s')" by fastforce
  let ?off = "unat (q' - sk_recv_seq s)"
  let ?b1 = "store_bytes ?off p' (sk_recv_buffer s)"
  consider "s' = s"
    | "?off + length p' \<le> 4096"
      "length (rb_data (sk_recv_buffer s)) + rb_count (sk_recv_buffer s) +
        count_new (rb_valid (sk_recv_buffer s)) ?off (length p') \<le> 4096"
      "s' = s\<lparr>sk_recv_buffer := take_ready (count_ready ?b1) ?b1,
        sk_recv_seq := sk_recv_seq s + of_nat (count_ready ?b1),
        sk_has_data := rb_data (take_ready (count_ready ?b1) ?b1) \<noteq> []\<rparr>"
    using buffer_payload_accepts [OF b _ tr] False by (auto simp: Let_def)
  then show ?thesis
  proof cases
    case 2
    have bok: "buf_ok (sk_recv_buffer s)" using assms by (simp add: sock_ok_def)
    then have fit: "?off + length p' \<le> length (rb_valid (sk_recv_buffer s))"
      and cnt: "rb_count (sk_recv_buffer s) = length (filter (\<lambda>v. v) (rb_valid (sk_recv_buffer s)))"
      using 2(1) by (simp_all add: buf_ok_def)
    have "buf_ok (take_ready (count_ready ?b1) ?b1)"
      by (rule take_ready_ok(1))
        (use bok store_bytes_count [OF fit cnt] 2(2) in \<open>simp_all add: buf_ok_def\<close>)
    then show ?thesis using assms 2(3) by (simp add: b sock_ok_def)
  qed (use assms b in simp)
qed

lemma sock_ok_segment: "sock_ok s \<Longrightarrow> sock_ok (buffer_segment s g)"
  by (simp add: buffer_segment_def sock_ok_payload)

lemma sock_ok_fields [simp]:
  "sock_ok (s\<lparr>sk_recv_seq := v\<rparr>) = sock_ok s" "sock_ok (s\<lparr>sk_send_seq := v\<rparr>) = sock_ok s"
  "sock_ok (s\<lparr>sk_send_ack := v\<rparr>) = sock_ok s" "sock_ok (s\<lparr>sk_state := st\<rparr>) = sock_ok s"
  by (simp_all add: sock_ok_def)

lemma sock_ok_receive:
  "sock_ok s \<Longrightarrow> tcp_socket_receive_segment s g src dst r = (handled, s', r') \<Longrightarrow> sock_ok s'"
  by (auto simp: tcp_socket_receive_segment_def rx_defs Let_def tcp_socket_free_def
      sock_ok_segment sock_ok_acknowledge sock_ok_payload split: if_splits tcp_state.splits)

lemma sock_ok_step: "tcp_step s s' \<Longrightarrow> sock_ok s \<Longrightarrow> sock_ok s'"
proof (induction rule: tcp_step.induct)
  case (Recv s m)
  then show ?case by (auto simp: sock_ok_def tcp_socket_recv_def Let_def buf_ok_def)
next
  case (Segment s g src dst r handled s' r')
  then show ?case using sock_ok_receive by blast
qed (auto simp: sock_ok_def tcp_socket_connect_def tcp_socket_listen_def tcp_child_def tcp_socket_send_def
    tcp_socket_close_def split: tcp_state.splits)

text \<open>C20. No sequence of socket operations and no sequence of incoming segments, valid or hostile,
  overruns a buffer of a socket: the bytes to send, and the bytes to read together with those
  that wait in the reassembly window, never exceed the 4096 bytes of the arrays, the count of
  waiting bytes is exact, and the socket is only reported readable when there is something to
  read.\<close>

theorem tcp_buffers_bounded:
  assumes "tcp_step\<^sup>*\<^sup>* allocated_socket s"
  shows "length (sb_data (sk_send_buffer s)) \<le> TCP_SOCKET_BUFFER_SIZE \<and>
    length (rb_data (sk_recv_buffer s)) + rb_count (sk_recv_buffer s) \<le> TCP_SOCKET_BUFFER_SIZE \<and>
    rb_count (sk_recv_buffer s) = length (filter (\<lambda>v. v) (rb_valid (sk_recv_buffer s))) \<and>
    (sk_has_data s \<longrightarrow> rb_data (sk_recv_buffer s) \<noteq> [])"
proof -
  have "sock_ok s" using assms by (induction rule: rtranclp_induct) (auto intro: sock_ok_step)
  then show ?thesis by (simp add: sock_ok_def buf_ok_def)
qed

theorem tcp_buffers_bounded_witness:
  "length (sb_data (sk_send_buffer (tcp_socket_connect allocated_socket zero_ip 1 zero_ip 2))) \<le> 4096"
proof -
  have "tcp_step allocated_socket (tcp_socket_connect allocated_socket zero_ip 1 zero_ip 2)"
    by (rule tcp_step.Connect) (simp add: allocated_socket_def)
  from tcp_buffers_bounded [OF r_into_rtranclp [of tcp_step, OF this]] show ?thesis by simp
qed

section \<open>Transitions\<close>

lemma flag_mono: "has_flag g f \<Longrightarrow> m AND f = f \<Longrightarrow> has_flag g m"
  unfolding has_flag_def by (metis and.assoc and.right_neutral and_zero_eq word_bw_comms(1))

lemma receive_arc:
  "tcp_socket_receive_segment s g src dst r = (handled, s', r') \<Longrightarrow>
    sk_state s' = sk_state s \<or> tcp_arc (sk_state s) (sk_state s')"
  by (auto simp: tcp_socket_receive_segment_def rx_defs Let_def tcp_socket_free_def zero_socket_def
      split: if_splits tcp_state.splits)

lemma step_arc: "tcp_step s s' \<Longrightarrow> sk_state s' = sk_state s \<or> tcp_arc (sk_state s) (sk_state s')"
proof (induction rule: tcp_step.induct)
  case (Segment s g src dst r handled s' r')
  then show ?case by (rule receive_arc)
next
  case (Close s)
  then show ?case by (cases "sk_state s") (simp_all add: tcp_socket_close_def)
qed (simp_all add: tcp_socket_connect_def tcp_socket_listen_def tcp_child_def tcp_socket_send_def
    tcp_socket_recv_def Let_def)

text \<open>
  What happens to a slot of the table, with its own arguments: the calls of the application and of the socket layer,
  an incoming segment, the freeing of the slot, and its reuse for a new socket.
\<close>

datatype tcp_event =
    Connects ip_address u16 ip_address u16
  | Listens ip_address u16
  | Child_Of nat tcp_socket tcp_segment ip_address
  | Sends bytes
  | Counts_Sent u32
  | Reads nat
  | Closes
  | Arrives tcp_segment ip_address ip_address tcp_segment
  | Freed
  | Taken

fun tcp_after :: "tcp_event \<Rightarrow> tcp_socket \<Rightarrow> tcp_socket option" where
  "tcp_after (Connects lip sp rip dp) s = (if sk_state s = TCP_CLOSED then Some (tcp_socket_connect s lip sp rip dp) else None)"
| "tcp_after (Listens lip p) s = (if sk_state s = TCP_CLOSED then Some (tcp_socket_listen s lip p) else None)"
| "tcp_after (Child_Of i l g src) s = (if sk_state s = TCP_CLOSED then Some (tcp_child i l g src s) else None)"
| "tcp_after (Sends data) s = Some (snd (tcp_socket_send s data))"
| "tcp_after (Counts_Sent n) s = Some (s\<lparr>sk_send_seq := sk_send_seq s + n\<rparr>)"
| "tcp_after (Reads m) s = Some (snd (tcp_socket_recv s m))"
| "tcp_after Closes s = Some (snd (tcp_socket_close s))"
| "tcp_after (Arrives g src dst r) s = Some (fst (snd (tcp_socket_receive_segment s g src dst r)))"
| "tcp_after Freed s = Some (tcp_socket_free s)"
| "tcp_after Taken s =
    (if \<not> sk_in_use s \<or> \<not> sk_is_listening s \<and> sk_state s = TCP_TIME_WAIT then Some allocated_socket else None)"

lemma after_step:
  assumes "tcp_after e s = Some s'" "e \<noteq> Freed" "e \<noteq> Taken"
  shows "tcp_step s s'"
proof (cases e)
  case (Arrives g src dst r)
  obtain handled s1 r' where "tcp_socket_receive_segment s g src dst r = (handled, s1, r')" by (rule prod_cases3)
  then show ?thesis using assms(1) Arrives tcp_step.Segment by simp
qed (use assms in \<open>auto intro: tcp_step.intros split: if_split_asm\<close>)

text \<open>The segment that establishes a connection, in either of the two states.\<close>

definition establishes :: "tcp_segment \<Rightarrow> ip_address \<Rightarrow> ip_address \<Rightarrow> tcp_socket \<Rightarrow> tcp_socket \<Rightarrow> bool" where
  "establishes g src dst s s' \<longleftrightarrow> tcp_validate_checksum g src dst \<and> has_flag g TCP_FLAG_ACK \<and>
     \<not> has_flag g (TCP_FLAG_FIN OR TCP_FLAG_RST) \<and> seg_ack g = sk_send_seq s + 1 \<and> sk_send_seq s' = seg_ack g \<and>
     (sk_state s = TCP_SYN_SENT \<and> has_flag g TCP_FLAG_SYN \<and> sk_recv_seq s' = seg_seq g + 1 \<or>
      sk_state s = TCP_SYN_RECEIVED \<and> \<not> has_flag g TCP_FLAG_SYN \<and> seg_seq g = sk_recv_seq s)"

lemma receive_establishes:
  assumes "sk_state (fst (snd (tcp_socket_receive_segment s g src dst r))) = TCP_ESTABLISHED" "sk_state s \<noteq> TCP_ESTABLISHED"
  shows "establishes g src dst s (fst (snd (tcp_socket_receive_segment s g src dst r)))"
proof -
  let ?res = "tcp_socket_receive_segment s g src dst r"
  have fr: "\<not> has_flag g (TCP_FLAG_SYN OR TCP_FLAG_FIN OR TCP_FLAG_RST) \<Longrightarrow> \<not> has_flag g (TCP_FLAG_FIN OR TCP_FLAG_RST) \<and> \<not> has_flag g TCP_FLAG_SYN"
    using flag_mono [of g "TCP_FLAG_FIN OR TCP_FLAG_RST" "TCP_FLAG_SYN OR TCP_FLAG_FIN OR TCP_FLAG_RST"]
      flag_mono [of g "TCP_FLAG_SYN" "TCP_FLAG_SYN OR TCP_FLAG_FIN OR TCP_FLAG_RST"] by auto
  obtain handled s1 r1 where res: "?res = (handled, s1, r1)" by (rule prod_cases3)
  have "sk_state s = TCP_SYN_SENT \<or> sk_state s = TCP_SYN_RECEIVED"
    using receive_arc [OF res] assms unfolding res by (cases "sk_state s") simp_all
  moreover have ok: "tcp_validate_checksum g src dst"
  proof (rule ccontr)
    assume "\<not> tcp_validate_checksum g src dst"
    then have "?res = (False, s, r)" by (simp add: tcp_socket_receive_segment_def)
    then show False using assms by simp
  qed
  moreover have "?res = rx_syn_sent s g r" if "sk_state s = TCP_SYN_SENT" using that ok by (simp add: tcp_socket_receive_segment_def)
  moreover have "?res = rx_syn_received s g r" if "sk_state s = TCP_SYN_RECEIVED" using that ok by (simp add: tcp_socket_receive_segment_def)
  ultimately show ?thesis
    using assms fr
    by (auto simp: establishes_def rx_syn_sent_def rx_syn_received_def Let_def split: if_splits)
qed

lemma calls_establish_nothing:
  assumes "tcp_after e s = Some s'" "sk_state s' = TCP_ESTABLISHED" "sk_state s \<noteq> TCP_ESTABLISHED"
  obtains g src dst r where "e = Arrives g src dst r"
proof (cases e)
  case (Arrives g src dst r)
  then show ?thesis by (rule that)
next
  case Closes
  then have "sk_state s' \<noteq> TCP_ESTABLISHED" using assms(1,3) by (cases "sk_state s") (auto simp: tcp_socket_close_def)
  then show ?thesis using assms(2) by contradiction
next
  case (Sends data)
  then have "sk_state s' = sk_state s" using assms(1) by (auto simp: tcp_socket_send_def Let_def)
  then show ?thesis using assms(2,3) by simp
next
  case (Reads m)
  then have "sk_state s' = sk_state s" using assms(1) by (auto simp: tcp_socket_recv_def Let_def)
  then show ?thesis using assms(2,3) by simp
qed (use assms in \<open>auto simp: tcp_socket_connect_def tcp_socket_listen_def tcp_child_def tcp_socket_free_def zero_socket_def
    allocated_socket_def split: if_split_asm\<close>)

text \<open>C22. Whatever happens to a slot of the socket table (a call of the application or of the socket layer, an incoming segment,
  the freeing of the slot, or its reuse for a new socket) keeps the state of the socket or follows an arc of the RFC 793 diagram; only freeing
  the slot and taking it again lead to \<^verbatim>\<open>CLOSED\<close> from elsewhere. A connection is only established
  by an incoming segment, and this very segment has a correct checksum, carries ACK and neither FIN nor RST, and acknowledges exactly the
  byte after our initial sequence number, which is where sending goes on: in \<^verbatim>\<open>SYN_SENT\<close> it carries SYN too, and its
  sequence number is where receiving starts; in \<^verbatim>\<open>SYN_RECEIVED\<close> it does not, and its sequence number is the expected one.\<close>

theorem tcp_transitions:
  assumes "tcp_after e s = Some s'"
  shows "(sk_state s' = sk_state s \<or> tcp_arc (sk_state s) (sk_state s') \<or> e \<in> {Freed, Taken} \<and> sk_state s' = TCP_CLOSED) \<and>
    (sk_state s' = TCP_ESTABLISHED \<longrightarrow> sk_state s = TCP_ESTABLISHED \<or> (\<exists>g src dst r. e = Arrives g src dst r \<and> establishes g src dst s s'))"
proof (intro conjI impI)
  show "sk_state s' = sk_state s \<or> tcp_arc (sk_state s) (sk_state s') \<or> e \<in> {Freed, Taken} \<and> sk_state s' = TCP_CLOSED"
  proof (cases "e \<in> {Freed, Taken}")
    case True
    then have "sk_state s' = TCP_CLOSED"
      using assms by (auto simp: tcp_socket_free_def zero_socket_def allocated_socket_def split: if_split_asm)
    with True show ?thesis by blast
  next
    case False
    then show ?thesis using step_arc [OF after_step [OF assms]] by blast
  qed
  assume est: "sk_state s' = TCP_ESTABLISHED"
  show "sk_state s = TCP_ESTABLISHED \<or> (\<exists>g src dst r. e = Arrives g src dst r \<and> establishes g src dst s s')"
  proof (cases "sk_state s = TCP_ESTABLISHED")
    case new: False
    obtain g src dst r where e: "e = Arrives g src dst r" by (rule calls_establish_nothing [OF assms est new])
    then have s': "s' = fst (snd (tcp_socket_receive_segment s g src dst r))" using assms by simp
    have "establishes g src dst s s'"
      unfolding s' by (rule receive_establishes [OF _ new]) (use est in \<open>simp only: s'\<close>)
    with e show ?thesis by blast
  qed simp
qed

theorem tcp_transitions_witness:
  "tcp_arc (sk_state allocated_socket) (sk_state (tcp_socket_listen allocated_socket zero_ip 80))"
  using tcp_transitions [of "Listens zero_ip 80" allocated_socket "tcp_socket_listen allocated_socket zero_ip 80"]
  by (simp add: allocated_socket_def tcp_socket_listen_def zero_socket_def)

text \<open>A reset does nothing: in every state a segment that carries RST and neither data, ACK nor
  FIN leaves the socket as it is and is answered by nothing.\<close>

theorem tcp_reset_ignored:
  assumes "has_flag g TCP_FLAG_RST" "\<not> has_flag g TCP_FLAG_ACK" "\<not> has_flag g TCP_FLAG_FIN" "seg_payload g = []"
  shows "snd (tcp_socket_receive_segment s g src dst r) = (s, r)"
proof -
  have "has_flag g (TCP_FLAG_ACK OR TCP_FLAG_FIN OR TCP_FLAG_RST)"
    by (rule flag_mono [OF assms(1)]) simp
  then show ?thesis
    using assms by (cases "sk_state s") (simp_all add: tcp_socket_receive_segment_def rx_defs buffer_segment_def Let_def)
qed

theorem tcp_reset_ignored_witness:
  "snd (tcp_socket_receive_segment (allocated_socket\<lparr>sk_state := TCP_ESTABLISHED\<rparr>)
      (tcp_init\<lparr>seg_flags := TCP_FLAG_RST\<rparr>) zero_ip zero_ip tcp_init) =
    (allocated_socket\<lparr>sk_state := TCP_ESTABLISHED\<rparr>, tcp_init)"
  by (rule tcp_reset_ignored) (simp_all add: has_flag_def)

section \<open>The handshake\<close>

text \<open>Two ends that agree: what one sends next is what the other expects next.\<close>

definition tcp_synced :: "tcp_socket \<Rightarrow> tcp_socket \<Rightarrow> bool" where
  "tcp_synced a b \<longleftrightarrow> sk_send_seq a = sk_recv_seq b \<and> sk_send_seq b = sk_recv_seq a \<and>
    octet (sk_local_ip a) = octet (sk_remote_ip b) \<and> octet (sk_remote_ip a) = octet (sk_local_ip b) \<and>
    sk_local_port a = sk_remote_port b \<and> sk_remote_port a = sk_local_port b"

lemma sealed_valid:
  assumes "seg_checksum g = 0" "length (seg_payload g) \<le> TCP_MAX_PAYLOAD" "20 + length (seg_payload g) \<le> n"
    "octet src = octet src'" "octet dst = octet dst'"
  shows "tcp_validate_checksum (tcp_seal n g src dst) src' dst'"
proof -
  have "tcp_seal n g src dst = tcp_seal n g src' dst'"
    by (simp add: tcp_seal_def tcp_compute_checksum_def assms(4,5) split: option.split)
  then show ?thesis using tcp_seal_valid [OF assms(1-3)] by simp
qed

lemma prepared_ack_simps [simp]:
  "has_flag (tcp_prepare_ack s) f = (TCP_FLAG_ACK AND f \<noteq> 0)" "seg_ack (tcp_prepare_ack s) = sk_recv_seq s"
  "seg_seq (tcp_prepare_ack s) = sk_send_seq s" "seg_payload (tcp_prepare_ack s) = []"
  "seg_src_port (tcp_prepare_ack s) = sk_local_port s" "seg_dst_port (tcp_prepare_ack s) = sk_remote_port s"
  by (simp_all add: tcp_prepare_ack_def) (simp add: has_flag_def)

lemma prepared_ack_valid:
  "octet src = octet (sk_local_ip s) \<Longrightarrow> octet dst = octet (sk_remote_ip s) \<Longrightarrow>
    tcp_validate_checksum (tcp_prepare_ack s) src dst"
  unfolding tcp_prepare_ack_def by (rule sealed_valid) simp_all

lemma built_segment_simps [simp]:
  "has_flag (tcp_syn_segment s) f = (TCP_FLAG_SYN AND f \<noteq> 0)"
  "seg_seq (tcp_syn_segment s) = sk_send_seq s" "seg_src_port (tcp_syn_segment s) = sk_local_port s"
  "seg_dst_port (tcp_syn_segment s) = sk_remote_port s"
  "has_flag (tcp_data_segment s d) f = ((TCP_FLAG_ACK OR TCP_FLAG_PSH) AND f \<noteq> 0)"
  "seg_seq (tcp_data_segment s d) = sk_send_seq s" "seg_ack (tcp_data_segment s d) = sk_recv_seq s"
  "seg_payload (tcp_data_segment s d) = d"
  "has_flag (tcp_fin_segment s) f = ((TCP_FLAG_FIN OR TCP_FLAG_ACK) AND f \<noteq> 0)"
  "seg_seq (tcp_fin_segment s) = sk_send_seq s" "seg_ack (tcp_fin_segment s) = sk_recv_seq s"
  "seg_payload (tcp_fin_segment s) = []"
  by (simp_all add: tcp_syn_segment_def tcp_data_segment_def tcp_fin_segment_def) (simp_all add: has_flag_def)

lemma built_segments_valid:
  assumes "octet src = octet (sk_local_ip s)" "octet dst = octet (sk_remote_ip s)"
  shows "tcp_validate_checksum (tcp_syn_segment s) src dst" "tcp_validate_checksum (tcp_fin_segment s) src dst"
    "length d \<le> 1460 \<Longrightarrow> tcp_validate_checksum (tcp_data_segment s d) src dst"
  unfolding tcp_syn_segment_def tcp_fin_segment_def tcp_data_segment_def
  by (rule sealed_valid; use assms in simp)+

text \<open>C11. The three-way handshake: a client that connects to a listening port, the child socket that
  the host of the listener sets up for its SYN, the SYN-ACK the child answers and the ACK the
  client answers bring both ends to \<^verbatim>\<open>ESTABLISHED\<close>, with the sequence numbers each will send
  next being those the other expects next. The three segments are the ones the code builds, and
  each of them passes the checksum test of its receiver.\<close>

theorem handshake_establishes:
  assumes "client = tcp_socket_connect c0 client_ip client_port server_ip server_port"
    and "octet (sk_local_ip listener) = octet server_ip"
    and "child = tcp_child i listener (tcp_syn_segment client) client_ip allocated_socket"
    and "tcp_socket_receive_segment child (tcp_syn_segment client) client_ip server_ip r0 = (ok1, server1, syn_ack)"
    and "tcp_socket_receive_segment client syn_ack server_ip client_ip r0 = (ok2, client2, ack)"
    and "tcp_socket_receive_segment server1 ack client_ip server_ip r0 = (ok3, server3, r3)"
  shows "ok1 \<and> ok2 \<and> ok3 \<and> sk_state client2 = TCP_ESTABLISHED \<and> sk_state server3 = TCP_ESTABLISHED \<and>
    tcp_synced client2 server3 \<and> sk_send_ack client2 = sk_send_seq client2 \<and>
    sk_send_ack server3 = sk_send_seq server3 \<and> sk_parent server3 = Some i"
proof -
  have c: "sk_state client = TCP_SYN_SENT" "sk_local_ip client = client_ip" "sk_remote_ip client = server_ip"
    "sk_local_port client = client_port" "sk_remote_port client = server_port" "sk_send_seq client = 1000"
    using assms(1) by (simp_all add: tcp_socket_connect_def)
  have k: "sk_state child = TCP_LISTEN" "octet (sk_local_ip child) = octet server_ip" "sk_remote_ip child = client_ip"
    "sk_local_port child = server_port" "sk_remote_port child = client_port" "sk_parent child = Some i"
    using assms(2,3) c by (simp_all add: tcp_child_def)
  have "tcp_validate_checksum (tcp_syn_segment client) client_ip server_ip"
    by (rule built_segments_valid) (simp_all add: c)
  then have s1: "ok1" "server1 = child\<lparr>sk_recv_seq := 1001, sk_send_seq := 2000 + ucast client_port,
      sk_state := TCP_SYN_RECEIVED\<rparr>"
    "syn_ack = tcp_seal 20 (tcp_init\<lparr>seg_src_port := server_port, seg_dst_port := client_port,
      seg_seq := 2000 + ucast client_port, seg_ack := 1001, seg_flags := 0x12\<rparr>) server_ip client_ip"
    using assms(4) c k by (simp_all add: tcp_socket_receive_segment_def rx_listen_def Let_def tcp_init_def)
  have "tcp_validate_checksum syn_ack server_ip client_ip"
    unfolding s1(3) by (rule sealed_valid) simp_all
  then have s2: "ok2" "client2 = client\<lparr>sk_recv_seq := 2001 + ucast client_port, sk_send_ack := 1001,
      sk_send_seq := 1001, sk_state := TCP_ESTABLISHED\<rparr>"
    and ack: "ack = tcp_prepare_ack (client\<lparr>sk_recv_seq := 2001 + ucast client_port, sk_send_ack := 1001,
      sk_send_seq := 1001\<rparr>)"
    using assms(5) c
    by (simp_all add: s1(3) tcp_socket_receive_segment_def rx_syn_sent_def Let_def has_flag_def)
  have "tcp_validate_checksum ack client_ip server_ip"
    unfolding ack by (rule prepared_ack_valid) (simp_all add: c)
  then have "ok3" "server3 = server1\<lparr>sk_send_ack := 2001 + ucast client_port, sk_send_seq := 2001 + ucast client_port,
      sk_state := TCP_ESTABLISHED\<rparr>"
    using assms(6)
    by (simp_all add: ack s1(2) tcp_socket_receive_segment_def rx_syn_received_def Let_def)
  then show ?thesis using s1 s2 c k by (simp add: tcp_synced_def)
qed

theorem handshake_establishes_witness:
  "\<exists>(client :: tcp_socket) (server :: tcp_socket). sk_state client = TCP_ESTABLISHED \<and> sk_state server = TCP_ESTABLISHED \<and> tcp_synced client server"
proof -
  let ?client = "tcp_socket_connect allocated_socket zero_ip 40000 zero_ip 80"
  let ?child = "tcp_child 3 (tcp_socket_listen allocated_socket zero_ip 80) (tcp_syn_segment ?client) zero_ip allocated_socket"
  obtain ok1 server1 syn_ack where 1: "tcp_socket_receive_segment ?child (tcp_syn_segment ?client) zero_ip zero_ip tcp_init
      = (ok1, server1, syn_ack)" by (metis surj_pair)
  obtain ok2 client2 ack where 2: "tcp_socket_receive_segment ?client syn_ack zero_ip zero_ip tcp_init = (ok2, client2, ack)"
    by (metis surj_pair)
  obtain ok3 server3 r3 where 3: "tcp_socket_receive_segment server1 ack zero_ip zero_ip tcp_init = (ok3, server3, r3)"
    by (metis surj_pair)
  from handshake_establishes [OF refl _ refl 1 2 3] show ?thesis
    by (auto simp: tcp_socket_listen_def)
qed

section \<open>Data transfer\<close>

definition window_clear :: "recv_buffer \<Rightarrow> bool" where
  "window_clear buf \<longleftrightarrow> length (rb_pending buf) = 4096 \<and> rb_valid buf = replicate 4096 False \<and> rb_count buf = 0"

lemma in_order_store:
  assumes "window_clear buf" "length p < 4096" "length (rb_data buf) + length p \<le> 4096"
  defines "b1 \<equiv> store_bytes 0 p buf"
  shows "count_ready b1 = length p" "rb_data (take_ready (length p) b1) = rb_data buf @ p"
    "window_clear (take_ready (length p) b1)" "count_new (rb_valid buf) 0 (length p) = length p"
proof -
  have len: "length (rb_valid buf) = 4096" "length (rb_pending buf) = 4096" and none: "\<And>i. i < 4096 \<Longrightarrow> \<not> rb_valid buf ! i"
    using assms(1) by (simp_all add: window_clear_def)
  have fit: "0 + length p \<le> length (rb_valid buf)" using assms(2) len by simp
  have valid: "rb_valid b1 ! i \<longleftrightarrow> i < length p" if "i < 4096" for i
    using store_bytes_valid [OF fit, of i] that len none by (simp add: b1_def)
  have len1: "length (rb_valid b1) = 4096" "length (rb_pending b1) = 4096" using len by (simp_all add: b1_def)
  note S = ready_split [OF len1(1)]
  show r: "count_ready b1 = length p"
  proof (rule antisym)
    show "count_ready b1 \<le> length p"
    proof (rule ccontr)
      assume *: "\<not> count_ready b1 \<le> length p"
      then have "rb_valid b1 ! length p" by (subst S(1)) (simp add: nth_append)
      then show False using valid assms(2) by simp
    qed
    show "length p \<le> count_ready b1"
      using S(2,3) valid [of "count_ready b1"] assms(2) by (cases "count_ready b1 = 4096") auto
  qed
  have "take (length p) (rb_pending b1) = p"
    using store_bytes_pending [OF fit] len none assms(2) len1 by (intro nth_equalityI) (simp_all add: b1_def)
  then show "rb_data (take_ready (length p) b1) = rb_data buf @ p" by (simp add: take_ready_def b1_def)
  show new: "count_new (rb_valid buf) 0 (length p) = length p"
    using none assms(2) by (simp add: count_new_def filter_id_conv)
  have "rb_count b1 = length p"
    using store_bytes_count(1) [OF fit, unfolded new] assms(1) by (simp add: window_clear_def b1_def)
  moreover have "drop (length p) (rb_valid b1) @ replicate (length p) False = replicate 4096 False"
    using valid len1 assms(2) by (intro nth_equalityI) (simp_all add: nth_append)
  ultimately show "window_clear (take_ready (length p) b1)"
    using len1 assms(2) by (simp add: window_clear_def take_ready_def)
qed

lemma in_order_payload:
  assumes "window_clear (sk_recv_buffer s)" "p \<noteq> []" "length p < 4096"
    "length (rb_data (sk_recv_buffer s)) + length p \<le> 4096"
  shows "\<exists>buf. tcp_buffer_payload s (sk_recv_seq s) p = (True, s\<lparr>sk_recv_buffer := buf,
      sk_recv_seq := sk_recv_seq s + of_nat (length p), sk_has_data := True\<rparr>) \<and>
    window_clear buf \<and> rb_data buf = rb_data (sk_recv_buffer s) @ p"
proof -
  note I = in_order_store [OF assms(1,3,4)]
  have "rb_count (sk_recv_buffer s) = 0" using assms(1) by (simp add: window_clear_def)
  then have "tcp_buffer_payload s (sk_recv_seq s) p = (True,
      s\<lparr>sk_recv_buffer := take_ready (length p) (store_bytes 0 p (sk_recv_buffer s)),
        sk_recv_seq := sk_recv_seq s + of_nat (length p), sk_has_data := True\<rparr>)"
    using assms I by (simp add: tcp_buffer_payload_def trim_received_def Let_def)
  then show ?thesis using I by blast
qed

lemma acknowledge_all:
  assumes "sk_send_ack s < a" "a = sk_send_seq s" "unat (a - sk_send_ack s) = length (sb_data (sk_send_buffer s))"
  shows "sb_data (sk_send_buffer (tcp_acknowledge_data s a)) = []" "sk_send_ack (tcp_acknowledge_data s a) = a"
  using assms by (auto simp: tcp_acknowledge_data_def Let_def)

text \<open>C8. A data transfer on an established connection: what the application sends in one segment is
  appended to what the peer can read, the acknowledgement that comes back empties the send buffer,
  and the connection is again in the state it needs for the next transfer. The sequence numbers
  must not wrap and the peer must have room.\<close>

theorem transfer_delivers:
  assumes "sk_state a = TCP_ESTABLISHED" "sk_state b = TCP_ESTABLISHED" "tcp_synced a b"
    and "window_clear (sk_recv_buffer b)" "sb_data (sk_send_buffer a) = []" "sk_send_ack a = sk_send_seq a"
    and "data \<noteq> []" "length data \<le> TCP_MAX_PAYLOAD"
    and room: "length (rb_data (sk_recv_buffer b)) + length data \<le> TCP_SOCKET_BUFFER_SIZE"
    and nowrap: "unat (sk_send_seq a) + length data < 2 ^ 32"
    and send: "tcp_socket_send a data = (sent, a1)"
    and deliver: "tcp_socket_receive_segment b (tcp_data_segment a1 data) (sk_local_ip a) (sk_local_ip b) r0 = (ok1, b1, ack)"
    and answer: "tcp_socket_receive_segment (a1\<lparr>sk_send_seq := sk_send_seq a1 + of_nat (length data)\<rparr>) ack
      (sk_local_ip b) (sk_local_ip a) r0 = (ok2, a2, r2)"
  shows "sent \<and> ok1 \<and> ok2 \<and>
    rb_data (sk_recv_buffer b1) = rb_data (sk_recv_buffer b) @ data \<and> sk_has_data b1 \<and>
    sb_data (sk_send_buffer a2) = [] \<and> sk_send_ack a2 = sk_send_seq a2 \<and> tcp_synced a2 b1 \<and>
    window_clear (sk_recv_buffer b1) \<and> sk_state a2 = TCP_ESTABLISHED \<and> sk_state b1 = TCP_ESTABLISHED"
proof -
  note sync = assms(3) [unfolded tcp_synced_def]
  have a1: "sent" "a1 = a\<lparr>sk_send_buffer := \<lparr>sb_data = data, sb_start_seq = sk_send_seq a\<rparr>\<rparr>"
    using send assms(1,5,7,8) by (auto simp: tcp_socket_send_def)
  define g where "g = tcp_data_segment a1 data"
  have g: "seg_seq g = sk_recv_seq b" "seg_payload g = data" "has_flag g TCP_FLAG_ACK" "\<not> has_flag g TCP_FLAG_FIN"
    using sync by (simp_all add: g_def a1(2))
  have v: "tcp_validate_checksum g (sk_local_ip a) (sk_local_ip b)"
    unfolding g_def by (rule built_segments_valid) (use sync assms(8) in \<open>simp_all add: a1(2)\<close>)
  define bk where "bk = tcp_acknowledge_data b (seg_ack g)"
  have bk: "sk_recv_buffer bk = sk_recv_buffer b" "sk_recv_seq bk = sk_recv_seq b" "sk_state bk = sk_state b"
    "sk_send_seq bk = sk_send_seq b" "sk_local_ip bk = sk_local_ip b" "sk_remote_ip bk = sk_remote_ip b"
    "sk_local_port bk = sk_local_port b" "sk_remote_port bk = sk_remote_port b"
    by (simp_all add: bk_def)
  obtain buf where buf: "tcp_buffer_payload bk (sk_recv_seq bk) data = (True, bk\<lparr>sk_recv_buffer := buf,
      sk_recv_seq := sk_recv_seq bk + of_nat (length data), sk_has_data := True\<rparr>)"
    "window_clear buf" "rb_data buf = rb_data (sk_recv_buffer b) @ data"
    using in_order_payload [of bk data] assms(4,7,8) room by (auto simp: bk)
  have b1: "ok1" "b1 = bk\<lparr>sk_recv_buffer := buf, sk_recv_seq := sk_recv_seq b + of_nat (length data), sk_has_data := True\<rparr>"
    "ack = tcp_prepare_ack b1"
    using deliver v assms(2,7) g buf(1)
    by (auto simp: tcp_socket_receive_segment_def rx_established_def Let_def buffer_segment_def bk
        simp flip: g_def bk_def)
  have ackv: "tcp_validate_checksum ack (sk_local_ip b) (sk_local_ip a)"
    unfolding b1(3) by (rule prepared_ack_valid) (use sync in \<open>simp_all add: b1(2) bk\<close>)
  let ?a = "a1\<lparr>sk_send_seq := sk_send_seq a1 + of_nat (length data)\<rparr>"
  have len: "unat (of_nat (length data) :: u32) = length data" using nowrap by (simp add: unat_of_nat)
  have "sk_send_ack ?a < sk_send_seq ?a"
    using nowrap assms(6,7) len by (simp add: a1(2) word_less_nat_alt unat_word_ariths)
  note ackall = acknowledge_all [OF this refl]
  have "ok2" "a2 = tcp_acknowledge_data ?a (sk_send_seq ?a)"
    using answer ackv sync assms(1)
    by (auto simp: tcp_socket_receive_segment_def rx_established_def Let_def buffer_segment_def b1 bk a1(2))
  then show ?thesis
    using a1 b1 bk buf(2,3) sync ackall assms(1,2,6) len by (simp add: tcp_synced_def)
qed

theorem transfer_delivers_witness:
  "\<exists>b1 :: tcp_socket. sk_has_data b1 \<and> rb_data (sk_recv_buffer b1) = [1, 2, 3]"
proof -
  let ?s = "allocated_socket\<lparr>sk_state := TCP_ESTABLISHED\<rparr>"
  obtain sent a1 where 1: "tcp_socket_send ?s [1, 2, 3] = (sent, a1)" by (metis surj_pair)
  obtain ok1 b1 ack where 2: "tcp_socket_receive_segment ?s (tcp_data_segment a1 [1, 2, 3]) (sk_local_ip ?s) (sk_local_ip ?s)
      tcp_init = (ok1, b1, ack)" by (metis surj_pair)
  obtain ok2 a2 r2 where 3: "tcp_socket_receive_segment (a1\<lparr>sk_send_seq := sk_send_seq a1 + of_nat (length [1, 2, 3 :: u8])\<rparr>)
      ack (sk_local_ip ?s) (sk_local_ip ?s) tcp_init = (ok2, a2, r2)" by (metis surj_pair)
  from transfer_delivers [OF _ _ _ _ _ _ _ _ _ _ 1 2 3]
  have "sk_has_data b1 \<and> rb_data (sk_recv_buffer b1) = [1, 2, 3]"
    by (simp add: allocated_socket_def zero_socket_def zero_recv_buffer_def tcp_synced_def window_clear_def)
  then show ?thesis by blast
qed

section \<open>The orderly close\<close>

text \<open>C12. The orderly close: when one end of an established connection closes, its FIN, the
  acknowledgement of the other end, the FIN of the other end once its application closes too and
  the last acknowledgement take the first end through \<^verbatim>\<open>FIN_WAIT_1\<close> and \<^verbatim>\<open>FIN_WAIT_2\<close> to
  \<^verbatim>\<open>TIME_WAIT\<close>, and the other end through \<^verbatim>\<open>CLOSE_WAIT\<close> and \<^verbatim>\<open>LAST_ACK\<close> to a freed slot of
  the socket table.\<close>

theorem close_completes:
  assumes "sk_state a = TCP_ESTABLISHED" "sk_state b = TCP_ESTABLISHED" "tcp_synced a b"
    and close1: "tcp_socket_close a = (c1, a1)" and a2: "a2 = a1\<lparr>sk_send_seq := sk_send_seq a1 + 1\<rparr>"
    and fin1: "tcp_socket_receive_segment b (tcp_fin_segment a) (sk_local_ip a) (sk_local_ip b) r0 = (ok1, b1, ack1)"
    and ack1: "tcp_socket_receive_segment a2 ack1 (sk_local_ip b) (sk_local_ip a) r0 = (ok2, a3, r2)"
    and close2: "tcp_socket_close b1 = (c2, b2)" and b3: "b3 = b2\<lparr>sk_send_seq := sk_send_seq b2 + 1\<rparr>"
    and fin2: "tcp_socket_receive_segment a3 (tcp_fin_segment b1) (sk_local_ip b) (sk_local_ip a) r0 = (ok3, a4, ack2)"
    and ack2: "tcp_socket_receive_segment b3 ack2 (sk_local_ip a) (sk_local_ip b) r0 = (ok4, b4, r4)"
  shows "c1 \<and> c2 \<and> ok1 \<and> ok2 \<and> ok3 \<and> ok4 \<and> sk_state a1 = TCP_FIN_WAIT_1 \<and> sk_state b1 = TCP_CLOSE_WAIT \<and>
    sk_state a3 = TCP_FIN_WAIT_2 \<and> sk_state b2 = TCP_LAST_ACK \<and> sk_state a4 = TCP_TIME_WAIT \<and> b4 = zero_socket"
proof -
  note sync = assms(3) [unfolded tcp_synced_def]
  have A: "c1" "a2 = a\<lparr>sk_state := TCP_FIN_WAIT_1, sk_send_seq := sk_send_seq a + 1\<rparr>" "sk_state a1 = TCP_FIN_WAIT_1"
    using close1 a2 assms(1) by (simp_all add: tcp_socket_close_def) auto
  have "tcp_validate_checksum (tcp_fin_segment a) (sk_local_ip a) (sk_local_ip b)"
    by (rule built_segments_valid) (use sync in simp_all)
  then have B: "ok1" "sk_state b1 = TCP_CLOSE_WAIT" "sk_recv_seq b1 = sk_send_seq a + 1" "sk_send_seq b1 = sk_recv_seq a"
    "sk_local_ip b1 = sk_local_ip b" "sk_remote_ip b1 = sk_remote_ip b" "sk_local_port b1 = sk_local_port b"
    "sk_remote_port b1 = sk_remote_port b"
    and ackeq: "\<exists>s. ack1 = tcp_prepare_ack s \<and> sk_recv_seq s = sk_send_seq a + 1 \<and> sk_local_ip s = sk_local_ip b \<and>
      sk_remote_ip s = sk_remote_ip b"
    using fin1 sync assms(2)
    by (auto simp: tcp_socket_receive_segment_def rx_established_def Let_def buffer_segment_def fin_seq_def)
  obtain s1 where s1: "ack1 = tcp_prepare_ack s1" "sk_recv_seq s1 = sk_send_seq a + 1"
    "sk_local_ip s1 = sk_local_ip b" "sk_remote_ip s1 = sk_remote_ip b" using ackeq by blast
  have "tcp_validate_checksum ack1 (sk_local_ip b) (sk_local_ip a)"
    unfolding s1(1) by (rule prepared_ack_valid) (use s1 sync in simp_all)
  then have C: "ok2" "a3 = a2\<lparr>sk_send_ack := sk_send_seq a + 1, sk_state := TCP_FIN_WAIT_2\<rparr>"
    using ack1 s1(1,2) by (auto simp: tcp_socket_receive_segment_def rx_fin_wait_1_def Let_def buffer_segment_def A(2))
  have D: "c2" "sk_state b2 = TCP_LAST_ACK" "b3 = b1\<lparr>sk_state := TCP_LAST_ACK, sk_send_seq := sk_send_seq b1 + 1\<rparr>"
    using close2 b3 B(2) by (auto simp: tcp_socket_close_def)
  have "tcp_validate_checksum (tcp_fin_segment b1) (sk_local_ip b) (sk_local_ip a)"
    by (rule built_segments_valid) (use sync B in simp_all)
  then have E: "ok3" "sk_state a4 = TCP_TIME_WAIT"
    and ackeq2: "\<exists>s. ack2 = tcp_prepare_ack s \<and> sk_recv_seq s = sk_send_seq b1 + 1 \<and> sk_local_ip s = sk_local_ip a \<and>
      sk_remote_ip s = sk_remote_ip a"
    using fin2 B(4)
    by (auto simp: tcp_socket_receive_segment_def rx_fin_wait_2_def Let_def buffer_segment_def fin_seq_def C(2) A(2))
  obtain s2 where s2: "ack2 = tcp_prepare_ack s2" "sk_recv_seq s2 = sk_send_seq b1 + 1"
    "sk_local_ip s2 = sk_local_ip a" "sk_remote_ip s2 = sk_remote_ip a" using ackeq2 by blast
  have "tcp_validate_checksum ack2 (sk_local_ip a) (sk_local_ip b)"
    unfolding s2(1) by (rule prepared_ack_valid) (use s2 sync in simp_all)
  then have "ok4" "b4 = zero_socket"
    using ack2 s2 by (auto simp: tcp_socket_receive_segment_def rx_last_ack_def D(3) tcp_socket_free_def)
  then show ?thesis using A B C D E by simp
qed

theorem close_completes_witness:
  "\<exists>(a4 :: tcp_socket) b4. sk_state a4 = TCP_TIME_WAIT \<and> b4 = zero_socket"
proof -
  let ?s = "allocated_socket\<lparr>sk_state := TCP_ESTABLISHED\<rparr>"
  obtain c1 a1 where 1: "tcp_socket_close ?s = (c1, a1)" by (metis surj_pair)
  obtain ok1 b1 ack1 where 2: "tcp_socket_receive_segment ?s (tcp_fin_segment ?s) (sk_local_ip ?s) (sk_local_ip ?s) tcp_init
      = (ok1, b1, ack1)" by (metis surj_pair)
  obtain ok2 a3 r2 where 3: "tcp_socket_receive_segment (a1\<lparr>sk_send_seq := sk_send_seq a1 + 1\<rparr>) ack1 (sk_local_ip ?s)
      (sk_local_ip ?s) tcp_init = (ok2, a3, r2)" by (metis surj_pair)
  obtain c2 b2 where 4: "tcp_socket_close b1 = (c2, b2)" by (metis surj_pair)
  obtain ok3 a4 ack2 where 5: "tcp_socket_receive_segment a3 (tcp_fin_segment b1) (sk_local_ip ?s) (sk_local_ip ?s) tcp_init
      = (ok3, a4, ack2)" by (metis surj_pair)
  obtain ok4 b4 r4 where 6: "tcp_socket_receive_segment (b2\<lparr>sk_send_seq := sk_send_seq b2 + 1\<rparr>) ack2 (sk_local_ip ?s)
      (sk_local_ip ?s) tcp_init = (ok4, b4, r4)" by (metis surj_pair)
  have "tcp_synced ?s ?s" by (simp add: tcp_synced_def allocated_socket_def zero_socket_def)
  from close_completes [OF _ _ this 1 refl 2 3 4 refl 5 6]
  have "sk_state a4 = TCP_TIME_WAIT \<and> b4 = zero_socket" by simp
  then show ?thesis by blast
qed

section \<open>The socket table\<close>

text \<open>The candidates of the port search visit every port from 1024 to 65535.\<close>

definition port_at :: "nat \<Rightarrow> u16" where
  "port_at k = of_nat (1024 + k mod 64512)"

lemma port_at_unat: "unat (port_at k) = 1024 + k mod 64512"
proof -
  have "k mod 64512 < 64512" by simp
  then have "1024 + k mod 64512 < 65536" by linarith
  then show ?thesis unfolding port_at_def unat_of_nat by simp
qed

lemma next_port_at: "next_port (port_at k) = port_at (Suc k)"
proof (cases "k mod 64512 = 64511")
  case True
  then have "port_at k = 65535" by (simp add: port_at_def)
  moreover have "Suc k mod 64512 = 0" using True by (simp add: mod_Suc)
  then have "port_at (Suc k) = 1024" by (simp add: port_at_def)
  ultimately show ?thesis by (simp add: next_port_def)
next
  case False
  have k: "Suc k mod 64512 = Suc (k mod 64512)" using False by (simp add: mod_Suc)
  have "port_at k \<noteq> 65535"
  proof
    assume "port_at k = 65535"
    then have "unat (port_at k) = 65535" by simp
    then show False using False by (simp add: port_at_unat)
  qed
  then show ?thesis using k by (simp add: next_port_def port_at_def)
qed

lemma port_at_onto: "1024 \<le> p \<Longrightarrow> p = port_at (unat p - 1024)"
proof -
  assume "1024 \<le> p"
  then have "1024 \<le> unat p" by (simp add: word_le_nat_alt)
  moreover have "unat p < 65536" using u16_bound .
  ultimately have "unat p = 1024 + (unat p - 1024) mod 64512" by simp
  then have "unat p = unat (port_at (unat p - 1024))" by (simp only: port_at_unat)
  then show ?thesis by (simp only: word_unat_eq_iff)
qed

lemma port_search_spec:
  "(\<exists>i<n. \<not> port_used ss ip rp (port_at (k + i))) \<and>
    (\<exists>i<n. port_search n ss ip rp (port_at k) = port_at (k + i) \<and> \<not> port_used ss ip rp (port_at (k + i))) \<or>
   (\<forall>i<n. port_used ss ip rp (port_at (k + i))) \<and> port_search n ss ip rp (port_at k) = 0"
proof (induction n arbitrary: k)
  case (Suc n)
  show ?case
  proof (cases "port_used ss ip rp (port_at k)")
    case True
    have step: "port_search (Suc n) ss ip rp (port_at k) = port_search n ss ip rp (port_at (Suc k))"
      using True by (simp add: next_port_at)
    from Suc.IH [of "Suc k"] show ?thesis
    proof
      assume "(\<exists>i<n. \<not> port_used ss ip rp (port_at (Suc k + i))) \<and>
        (\<exists>i<n. port_search n ss ip rp (port_at (Suc k)) = port_at (Suc k + i) \<and> \<not> port_used ss ip rp (port_at (Suc k + i)))"
      then obtain i where "i < n" "port_search n ss ip rp (port_at (Suc k)) = port_at (Suc k + i)"
        "\<not> port_used ss ip rp (port_at (Suc k + i))" by blast
      then have "Suc i < Suc n \<and> port_search (Suc n) ss ip rp (port_at k) = port_at (k + Suc i) \<and>
        \<not> port_used ss ip rp (port_at (k + Suc i))" unfolding step by simp
      then show ?thesis by blast
    next
      assume *: "(\<forall>i<n. port_used ss ip rp (port_at (Suc k + i))) \<and> port_search n ss ip rp (port_at (Suc k)) = 0"
      have "port_used ss ip rp (port_at (k + i))" if "i < Suc n" for i
        using that * True by (cases i) auto
      then show ?thesis unfolding step using * by blast
    qed
  next
    case False
    then have "port_search (Suc n) ss ip rp (port_at k) = port_at (k + 0)" by simp
    then show ?thesis using False by (metis add_0_right zero_less_Suc)
  qed
qed simp

text \<open>The search for a source port is complete: it fails only if all 64512 ports from 1024 to
  65535 are taken by open connections to the same remote end, which a table of fewer sockets
  rules out, and a port it returns is not below 1024 and not used by any of them.\<close>

theorem source_port_unused:
  assumes "length sockets < 64512"
    and port_def: "port = tcp_socket_select_source_port sockets remote_ip remote_port preferred"
  shows "1024 \<le> unat port \<and>
    (\<forall>s\<in>set sockets. \<not> (sk_in_use s \<and> sk_state s \<noteq> TCP_CLOSED \<and> sk_local_port s = port \<and>
      sk_remote_port s = remote_port \<and> octet (sk_remote_ip s) = octet remote_ip))"
proof -
  define start where "start = (if 1024 \<le> preferred then preferred else 49152)"
  have "1024 \<le> start" by (simp add: start_def)
  then obtain k where k: "start = port_at k" using port_at_onto by blast
  have port: "port = port_search 64512 sockets remote_ip remote_port (port_at k)"
    unfolding port_def tcp_socket_select_source_port_def start_def [symmetric] k by simp
  let ?used = "\<lambda>i. port_used sockets remote_ip remote_port (port_at (k + i))"
  have "\<not> (\<forall>i<64512. ?used i)"
  proof
    assume all: "\<forall>i<64512. ?used i"
    have "inj_on (\<lambda>i. unat (port_at (k + i))) {..<64512}"
    proof (rule inj_onI)
      fix i j assume ij: "i \<in> {..<64512}" "j \<in> {..<64512}" "unat (port_at (k + i)) = unat (port_at (k + j))"
      have "(k mod 64512 + i) mod 64512 = (k mod 64512 + j) mod 64512"
        using ij(3) by (simp add: port_at_unat mod_add_left_eq)
      then show "i = j" using mod_add_inject [of "k mod 64512" 64512 i j] ij(1,2) by simp
    qed
    then have "card ((\<lambda>i. unat (port_at (k + i))) ` {..<64512}) = 64512" by (simp add: card_image)
    moreover have "(\<lambda>i. unat (port_at (k + i))) ` {..<64512} \<subseteq> (\<lambda>s. unat (sk_local_port s)) ` set sockets"
      using all by (force simp: port_used_def list_ex_iff)
    then have "card ((\<lambda>i. unat (port_at (k + i))) ` {..<64512}) \<le> length sockets"
      by (meson card_image_le card_length card_mono finite_imageI le_trans List.finite_set)
    ultimately show False using assms(1) by simp
  qed
  then obtain i where "port = port_at (k + i)" "\<not> ?used i"
    using port_search_spec [of 64512 sockets remote_ip remote_port k] unfolding port by blast
  then show ?thesis by (auto simp: port_at_unat port_used_def list_ex_iff)
qed

theorem source_port_unused_witness:
  "1024 \<le> unat (tcp_socket_select_source_port (replicate 16 (allocated_socket\<lparr>sk_state := TCP_ESTABLISHED, sk_local_port := 5000\<rparr>))
    zero_ip 80 5000)"
  using source_port_unused [OF _ refl, of "replicate 16 (allocated_socket\<lparr>sk_state := TCP_ESTABLISHED, sk_local_port := 5000\<rparr>)" zero_ip 80 5000]
  by simp

lemma alloc_cases:
  assumes "tcp_socket_alloc ss = Some (i, ss')"
  shows "i < length ss" "ss' = ss[i := allocated_socket]"
    "\<not> sk_in_use (ss ! i) \<or> sk_state (ss ! i) = TCP_TIME_WAIT \<and> \<not> sk_is_listening (ss ! i) \<and> (\<forall>s\<in>set ss. sk_in_use s)"
proof -
  have "i < length ss \<and> ss' = ss[i := allocated_socket] \<and>
    (\<not> sk_in_use (ss ! i) \<or> sk_state (ss ! i) = TCP_TIME_WAIT \<and> \<not> sk_is_listening (ss ! i) \<and> (\<forall>s\<in>set ss. sk_in_use s))"
    using assms
    by (auto simp: tcp_socket_alloc_def all_set_conv_all_nth first_index_Some split: option.splits)
  then show "i < length ss" "ss' = ss[i := allocated_socket]"
    "\<not> sk_in_use (ss ! i) \<or> sk_state (ss ! i) = TCP_TIME_WAIT \<and> \<not> sk_is_listening (ss ! i) \<and> (\<forall>s\<in>set ss. sk_in_use s)"
    by blast+
qed

text \<open>Allocating a socket never takes one away from a live connection or a listener: the slot
  given out was free or, when no slot was free, in \<^verbatim>\<open>TIME_WAIT\<close>; all other slots are untouched;
  and allocation fails exactly when every slot is in use and none of them can be recycled.\<close>

theorem alloc_protects_connections:
  "(case tcp_socket_alloc ss of
      Some (i, ss') \<Rightarrow> i < length ss \<and> ss' ! i = allocated_socket \<and> length ss' = length ss \<and>
        (\<forall>j. j \<noteq> i \<longrightarrow> ss' ! j = ss ! j) \<and>
        (sk_in_use (ss ! i) \<longrightarrow> sk_state (ss ! i) = TCP_TIME_WAIT \<and> \<not> sk_is_listening (ss ! i) \<and>
          (\<forall>s\<in>set ss. sk_in_use s))
    | None \<Rightarrow> (\<forall>s\<in>set ss. sk_in_use s \<and> (sk_is_listening s \<or> sk_state s \<noteq> TCP_TIME_WAIT)))"
proof (cases "tcp_socket_alloc ss")
  case None
  then show ?thesis
    by (auto simp: tcp_socket_alloc_def all_set_conv_all_nth first_index_None split: option.splits)
next
  case (Some p)
  obtain i ss' where p: "p = (i, ss')" by (cases p)
  note A = alloc_cases [OF Some [unfolded p]]
  then show ?thesis by (auto simp: Some p)
qed

theorem alloc_protects_connections_witness:
  "case tcp_socket_alloc [allocated_socket, allocated_socket\<lparr>sk_state := TCP_TIME_WAIT\<rparr>] of
     Some (i, ss') \<Rightarrow> ss' ! i = allocated_socket \<and> length ss' = 2
   | None \<Rightarrow> False"
proof -
  have "tcp_socket_alloc [allocated_socket, allocated_socket\<lparr>sk_state := TCP_TIME_WAIT\<rparr>] \<noteq> None"
    by (simp add: tcp_socket_alloc_def first_index_def allocated_socket_def zero_socket_def upt_rec)
  then show ?thesis
    using alloc_protects_connections [of "[allocated_socket, allocated_socket\<lparr>sk_state := TCP_TIME_WAIT\<rparr>]"]
    by (auto split: option.splits)
qed

text \<open>Demultiplexing: an incoming segment goes to the open connection with its addresses and
  ports if there is one, to a listener on its local address and port otherwise, and to nobody only
  if there is neither.\<close>

theorem find_prefers_connection:
  "(case tcp_socket_find ss lip lp rip rp of
      Some i \<Rightarrow> i < length ss \<and>
        (matches_connection (ss ! i) lip lp rip rp \<or>
         matches_listener (ss ! i) lip lp \<and> (\<forall>s\<in>set ss. \<not> matches_connection s lip lp rip rp))
    | None \<Rightarrow> \<forall>s\<in>set ss. \<not> matches_connection s lip lp rip rp \<and> \<not> matches_listener s lip lp)"
  by (auto simp: tcp_socket_find_def all_set_conv_all_nth first_index_Some split: option.splits)

theorem find_prefers_connection_witness:
  "\<exists>i. tcp_socket_find [tcp_socket_listen allocated_socket zero_ip 80] zero_ip 80 zero_ip 4000 = Some i"
  using find_prefers_connection [of "[tcp_socket_listen allocated_socket zero_ip 80]" zero_ip 80 zero_ip 4000]
  by (auto simp: matches_listener_def tcp_socket_listen_def allocated_socket_def split: option.splits)

end
