(* ===== verification/Table.thy ===== *)
theory Table
  imports Prelude
begin

text \<open>
  The bounded tables of the stack (\<^verbatim>\<open>Map\<close>, \<^verbatim>\<open>ArpTable\<close>, \<^verbatim>\<open>SwitchMacTable\<close>) are one data
  structure written out three times: a fixed array of entries with the number of entries in use,
  searched linearly, updated in place or appended to, and closed up by a shift after a removal.
  This theory has the three loops once, over any entry type, and shows that they implement a
  partial map with a capacity, as long as the entries in use have distinct keys.
\<close>

record 'e table =
  tab_entries :: "'e list"
  tab_size :: nat

definition tab_find :: "('e \<Rightarrow> bool) \<Rightarrow> 'e table \<Rightarrow> nat option" where
  "tab_find match t = first_index (\<lambda>i. match (tab_entries t ! i)) (tab_size t)"

definition tab_get :: "('e \<Rightarrow> bool) \<Rightarrow> ('e \<Rightarrow> 'v) \<Rightarrow> 'e table \<Rightarrow> 'v option" where
  "tab_get match val t =
    (case tab_find match t of None \<Rightarrow> None | Some i \<Rightarrow> Some (val (tab_entries t ! i)))"

definition tab_put :: "('e \<Rightarrow> bool) \<Rightarrow> ('e \<Rightarrow> 'e) \<Rightarrow> 'e \<Rightarrow> nat \<Rightarrow> 'e table \<Rightarrow> bool \<times> 'e table" where
  "tab_put match upd new cap t =
    (case tab_find match t of
       Some i \<Rightarrow> (True, t\<lparr>tab_entries := (tab_entries t)[i := upd (tab_entries t ! i)]\<rparr>)
     | None \<Rightarrow>
         if cap \<le> tab_size t then (False, t)
         else (True, t\<lparr>tab_entries := (tab_entries t)[tab_size t := new], tab_size := tab_size t + 1\<rparr>))"

definition tab_remove :: "('e \<Rightarrow> bool) \<Rightarrow> 'e table \<Rightarrow> bool \<times> 'e table" where
  "tab_remove match t =
    (case tab_find match t of
       None \<Rightarrow> (False, t)
     | Some i \<Rightarrow> (True, t\<lparr>tab_entries := shift_down i (tab_size t) (tab_entries t),
                        tab_size := tab_size t - 1\<rparr>))"

section \<open>Entries in use\<close>

definition live :: "'e table \<Rightarrow> 'e list" where
  "live t = take (tab_size t) (tab_entries t)"

definition wf_table :: "('e \<Rightarrow> 'k) \<Rightarrow> nat \<Rightarrow> 'e table \<Rightarrow> bool" where
  "wf_table key cap t \<longleftrightarrow>
    length (tab_entries t) = cap \<and> tab_size t \<le> cap \<and> distinct (map key (live t))"

definition tab_map :: "('e \<Rightarrow> 'k) \<Rightarrow> ('e \<Rightarrow> 'v) \<Rightarrow> 'e table \<Rightarrow> 'k \<Rightarrow> 'v option" where
  "tab_map key val t = map_of (map (\<lambda>e. (key e, val e)) (live t))"

lemma wf_tableD:
  assumes "wf_table key cap t"
  shows "length (tab_entries t) = cap" "tab_size t \<le> cap" "length (live t) = tab_size t"
    "distinct (map key (live t))"
  using assms by (auto simp: wf_table_def live_def)

lemma live_nth: "i < tab_size t \<Longrightarrow> live t ! i = tab_entries t ! i"
  by (simp add: live_def)

lemma map_of_nth_distinct:
  assumes "distinct (map key es)" "i < length es"
  shows "map_of (map (\<lambda>e. (key e, val e)) es) (key (es ! i)) = Some (val (es ! i))"
  using assms by (intro map_of_is_SomeI) (auto simp: o_def)

lemma map_of_None_iff:
  "map_of (map (\<lambda>e. (key e, val e)) es) k = None \<longleftrightarrow> (\<forall>i<length es. key (es ! i) \<noteq> k)"
  by (simp add: map_of_eq_None_iff image_image) (metis (mono_tags) image_iff in_set_conv_nth)

lemma tab_find_None:
  assumes "wf_table key cap t"
  shows "tab_find (\<lambda>e. key e = k) t = None \<longleftrightarrow> tab_map key val t k = None"
  using wf_tableD [OF assms]
  by (auto simp: tab_find_def tab_map_def map_of_None_iff live_nth)

lemma tab_find_Some:
  assumes "wf_table key cap t" "tab_find (\<lambda>e. key e = k) t = Some i"
  shows "i < tab_size t" "key (live t ! i) = k" "tab_map key val t k = Some (val (live t ! i))"
proof -
  show i: "i < tab_size t" and k: "key (live t ! i) = k"
    using assms(2) by (auto simp: tab_find_def first_index_Some live_nth)
  show "tab_map key val t k = Some (val (live t ! i))"
    using map_of_nth_distinct [of key "live t" i val] wf_tableD [OF assms(1)] i k
    by (simp add: tab_map_def)
qed

lemma tab_get_map:
  assumes "wf_table key cap t"
  shows "tab_get (\<lambda>e. key e = k) val t = tab_map key val t k"
proof (cases "tab_find (\<lambda>e. key e = k) t")
  case None
  then show ?thesis using tab_find_None [OF assms, of k val] by (simp add: tab_get_def)
next
  case (Some i)
  from tab_find_Some(1) [OF assms Some] tab_find_Some(3) [OF assms Some, of val]
  show ?thesis by (simp add: tab_get_def Some live_nth)
qed

lemma tab_size_card:
  assumes "wf_table key cap t"
  shows "card (dom (tab_map key val t)) = tab_size t"
proof -
  have "dom (tab_map key val t) = set (map key (live t))"
    by (simp add: tab_map_def dom_map_of_conv_image_fst image_image)
  then show ?thesis
    using distinct_card [of "map key (live t)"] wf_tableD [OF assms] by simp
qed

section \<open>Insertion\<close>

lemma live_update:
  "i < tab_size t \<Longrightarrow> live (t\<lparr>tab_entries := (tab_entries t)[i := e]\<rparr>) = (live t)[i := e]"
  by (simp add: live_def take_update_swap)

lemma live_append:
  "tab_size t < length (tab_entries t) \<Longrightarrow>
    live (t\<lparr>tab_entries := (tab_entries t)[tab_size t := e], tab_size := tab_size t + 1\<rparr>) = live t @ [e]"
  by (simp add: live_def take_Suc_conv_app_nth)

lemma map_of_update_distinct:
  assumes "distinct (map key es)" "i < length es" "key e = key (es ! i)"
  shows "map_of (map (\<lambda>e. (key e, val e)) (es[i := e]))
    = (map_of (map (\<lambda>e. (key e, val e)) es))(key e \<mapsto> val e)"
  using assms
proof (induction es arbitrary: i)
  case (Cons x xs)
  show ?case
  proof (cases i)
    case (Suc j)
    have "key (xs ! j) \<in> key ` set xs" using Suc Cons.prems by (intro imageI nth_mem) simp
    then have "key (xs ! j) \<noteq> key x" using Cons.prems by auto
    then show ?thesis using Suc Cons by (auto simp: fun_eq_iff)
  qed (use Cons.prems in auto)
qed simp

lemma map_of_append_new:
  assumes "\<forall>i<length es. key (es ! i) \<noteq> key e"
  shows "map_of (map (\<lambda>e. (key e, val e)) (es @ [e]))
    = (map_of (map (\<lambda>e. (key e, val e)) es))(key e \<mapsto> val e)"
proof -
  have "map_of (map (\<lambda>e. (key e, val e)) es) (key e) = None"
    using assms by (simp add: map_of_None_iff)
  then show ?thesis by (auto simp: map_add_def fun_eq_iff split: option.split)
qed

lemma tab_put_room:
  assumes wf: "wf_table key cap t" and upd: "\<And>e. key e = k \<Longrightarrow> key (upd e) = k \<and> val (upd e) = v"
    and new: "key new = k" "val new = v" and room: "tab_map key val t k \<noteq> None \<or> tab_size t < cap"
  shows "fst (tab_put (\<lambda>e. key e = k) upd new cap t)"
    and "tab_map key val (snd (tab_put (\<lambda>e. key e = k) upd new cap t)) = (tab_map key val t)(k \<mapsto> v)"
    and "wf_table key cap (snd (tab_put (\<lambda>e. key e = k) upd new cap t))"
proof -
  note D = wf_tableD [OF wf]
  let ?r = "tab_put (\<lambda>e. key e = k) upd new cap t"
  have "fst ?r \<and> tab_map key val (snd ?r) = (tab_map key val t)(k \<mapsto> v) \<and> wf_table key cap (snd ?r)"
  proof (cases "tab_find (\<lambda>e. key e = k) t")
    case None
    then have absent: "\<forall>i<length (live t). key (live t ! i) \<noteq> k" and "tab_map key val t k = None"
      using tab_find_None [OF wf, of k val] by (simp_all add: tab_map_def map_of_None_iff)
    then have lt: "tab_size t < cap" using room by simp
    moreover have "distinct (map key (live t @ [new]))"
      using D absent new(1) by (auto simp: in_set_conv_nth)
    ultimately show ?thesis
      using None D absent new map_of_append_new [of "live t" key new val]
      by (simp add: tab_put_def tab_map_def wf_table_def live_append del: One_nat_def)
  next
    case (Some i)
    note F = tab_find_Some(1,2) [OF wf Some] tab_find_Some(3) [OF wf Some, of val]
    have "key (upd (live t ! i)) = key (live t ! i)" "val (upd (live t ! i)) = v" using F(2) upd by auto
    moreover have "map key ((live t)[i := upd (live t ! i)]) = map key (live t)"
      using calculation F(1) D by (simp add: map_update list_update_same_conv)
    ultimately show ?thesis
      using D F Some map_of_update_distinct [of key "live t" i "upd (live t ! i)" val]
      by (simp add: tab_put_def tab_map_def wf_table_def live_update live_nth)
  qed
  then show "fst ?r" "tab_map key val (snd ?r) = (tab_map key val t)(k \<mapsto> v)" "wf_table key cap (snd ?r)"
    by simp_all
qed

lemma tab_put_full:
  assumes "wf_table key cap t" "tab_map key val t k = None" "cap \<le> tab_size t"
  shows "tab_put (\<lambda>e. key e = k) upd new cap t = (False, t)"
  using assms tab_find_None [OF assms(1), of k val] by (simp add: tab_put_def)

section \<open>Removal\<close>

lemma map_of_remove_distinct:
  assumes "distinct (map key es)" "i < length es" "key (es ! i) = k"
  shows "map_of (map (\<lambda>e. (key e, val e)) (take i es @ drop (i + 1) es))
    = (map_of (map (\<lambda>e. (key e, val e)) es))(k := None)"
  using assms
proof (induction es arbitrary: i)
  case (Cons x xs)
  show ?case
  proof (cases i)
    case 0
    with Cons.prems have "k \<notin> key ` set xs" by auto
    then have "map_of (map (\<lambda>e. (key e, val e)) xs) k = None"
      by (auto simp: map_of_eq_None_iff image_image)
    then show ?thesis using 0 Cons.prems by (auto simp: fun_eq_iff)
  next
    case (Suc j)
    with Cons.prems have "key x \<noteq> k" by auto
    with Suc Cons show ?thesis by (auto simp: fun_upd_twist)
  qed
qed simp

lemma tab_remove_present:
  assumes wf: "wf_table key cap t" and "tab_map key val t k \<noteq> None"
  shows "fst (tab_remove (\<lambda>e. key e = k) t)"
    and "tab_map key val (snd (tab_remove (\<lambda>e. key e = k) t)) = (tab_map key val t)(k := None)"
    and "wf_table key cap (snd (tab_remove (\<lambda>e. key e = k) t))"
proof -
  note D = wf_tableD [OF wf]
  obtain i where i: "tab_find (\<lambda>e. key e = k) t = Some i"
    using assms tab_find_None [OF wf, of k val] by auto
  note F = tab_find_Some(1,2) [OF wf i] tab_find_Some(3) [OF wf i, of val]
  let ?r = "snd (tab_remove (\<lambda>e. key e = k) t)"
  have live: "live ?r = take i (live t) @ drop (i + 1) (live t)"
    using take_shift_down [of i "tab_size t" "tab_entries t"] F(1) D
    by (simp add: tab_remove_def i live_def min_def)
  show "fst (tab_remove (\<lambda>e. key e = k) t)" by (simp add: tab_remove_def i)
  show "tab_map key val ?r = (tab_map key val t)(k := None)"
    unfolding tab_map_def live by (rule map_of_remove_distinct) (use D F in simp_all)
  have "distinct (map key (take i (live t)) @ map key (drop (i + 1) (live t)))"
  proof -
    have "map key (live t) = map key (take i (live t)) @ key (live t ! i) # map key (drop (i + 1) (live t))"
      using F(1) D arg_cong [OF id_take_nth_drop [of i "live t"], of "map key"] by simp
    then show ?thesis using D(4) by auto
  qed
  then show "wf_table key cap ?r"
    using D F(1) live by (simp add: wf_table_def) (simp add: tab_remove_def i)
qed

lemma tab_remove_absent:
  assumes "wf_table key cap t" "tab_map key val t k = None"
  shows "tab_remove (\<lambda>e. key e = k) t = (False, t)"
  using assms tab_find_None [OF assms(1), of k val] by (simp add: tab_remove_def)

end
