(* ===== verification/Bounded_Map.thy ===== *)
theory Bounded_Map
  imports Main
begin

text \<open>
  The contract between the bounded tables and their clients. \<open>bounded_lookup\<close> is what a client
  that only learns and looks up relies on (hosts and routers of their ARP tables, switches of
  their MAC tables): a table has a capacity, an insertion of a known key overwrites, an insertion
  of a new key succeeds exactly while there is room and otherwise changes nothing. Keys are
  compared through \<open>key\<close>, since the ARP table ignores the prefix length of an address, and
  \<open>legal\<close> is what the operations check or assume of their arguments. \<open>bounded_map\<close> adds
  removal.
\<close>

locale bounded_lookup =
  fixes empty :: 't
    and lookup :: "'t \<Rightarrow> 'a \<Rightarrow> 'v option"
    and insert :: "'t \<Rightarrow> 'a \<Rightarrow> 'v \<Rightarrow> bool \<times> 't"
    and count :: "'t \<Rightarrow> nat"
    and cap :: nat
    and key :: "'a \<Rightarrow> 'k"
    and legal :: "'a \<Rightarrow> 'v \<Rightarrow> bool"
    and inv :: "'t \<Rightarrow> bool"
  assumes inv_empty: "inv empty"
    and count_empty: "count empty = 0"
    and lookup_empty: "lookup empty a = None"
    and lookup_key: "key a = key b \<Longrightarrow> lookup t a = lookup t b"
    and insert_inv: "inv t \<Longrightarrow> legal a v \<Longrightarrow> inv (snd (insert t a v))"
    and insert_room: "inv t \<Longrightarrow> legal a v \<Longrightarrow> lookup t a \<noteq> None \<or> count t < cap \<Longrightarrow> fst (insert t a v)"
    and insert_lookup: "inv t \<Longrightarrow> legal a v \<Longrightarrow> fst (insert t a v) \<Longrightarrow>
      lookup (snd (insert t a v)) b = (if key b = key a then Some v else lookup t b)"
    and insert_count: "inv t \<Longrightarrow> legal a v \<Longrightarrow>
      count (snd (insert t a v)) = (if lookup t a = None \<and> count t < cap then count t + 1 else count t)"
    and insert_full: "inv t \<Longrightarrow> legal a v \<Longrightarrow> lookup t a = None \<Longrightarrow> cap \<le> count t \<Longrightarrow> insert t a v = (False, t)"
begin

lemma insert_succeeds_iff:
  "inv t \<Longrightarrow> legal a v \<Longrightarrow> fst (insert t a v) \<longleftrightarrow> lookup t a \<noteq> None \<or> count t < cap"
  using insert_room insert_full by (metis fst_conv leI)

lemma insert_unchanged: "inv t \<Longrightarrow> legal a v \<Longrightarrow> \<not> fst (insert t a v) \<Longrightarrow> snd (insert t a v) = t"
  using insert_room insert_full by (metis leI snd_conv)

text \<open>A key once known is never forgotten by learning.\<close>

lemma known_stays:
  "inv t \<Longrightarrow> legal a v \<Longrightarrow> lookup t b \<noteq> None \<Longrightarrow> lookup (snd (insert t a v)) b \<noteq> None"
  using insert_lookup insert_unchanged by (cases "fst (insert t a v)") auto

text \<open>Learning a sequence of bindings.\<close>

definition insert_all :: "('a \<times> 'v) list \<Rightarrow> 't \<Rightarrow> 't" where
  "insert_all kvs t = fold (\<lambda>(a, v) t. snd (insert t a v)) kvs t"

lemma insert_all_simps [simp]:
  "insert_all [] t = t" "insert_all ((a, v) # kvs) t = insert_all kvs (snd (insert t a v))"
  by (simp_all add: insert_all_def)

lemma insert_all_inv:
  "inv t \<Longrightarrow> \<forall>(a, v) \<in> set kvs. legal a v \<Longrightarrow> inv (insert_all kvs t)"
  by (induction kvs arbitrary: t) (auto simp: insert_inv)

lemma insert_all_known:
  assumes "inv t" "\<forall>(a, v) \<in> set kvs. legal a v" "lookup t b \<noteq> None"
  shows "lookup (insert_all kvs t) b \<noteq> None"
  using assms
proof (induction kvs arbitrary: t)
  case (Cons kv kvs)
  obtain a v where kv: "kv = (a, v)" by (cases kv)
  have "legal a v" using Cons.prems(2) kv by simp
  then show ?case
    using Cons.IH [of "snd (insert t a v)"] Cons.prems known_stays insert_inv kv by auto
qed simp

text \<open>With room for all of them the last binding of each key is found.\<close>

lemma insert_all_lookup:
  assumes "inv t" "\<forall>(a, v) \<in> set kvs. legal a v" "count t + length kvs \<le> cap"
  shows "lookup (insert_all kvs t) b =
    (case map_of (rev (map (\<lambda>(a, v). (key a, v)) kvs)) (key b) of Some v \<Rightarrow> Some v | None \<Rightarrow> lookup t b)"
  using assms
proof (induction kvs arbitrary: t)
  case (Cons kv kvs)
  obtain a v where kv: "kv = (a, v)" by (cases kv)
  have l: "legal a v" and i: "inv t" using Cons.prems kv by simp_all
  have ok: "fst (insert t a v)" using insert_room [OF i l] Cons.prems(3) by simp
  have c: "count (snd (insert t a v)) + length kvs \<le> cap"
    using insert_count [OF i l] Cons.prems(3) by simp
  have "lookup (insert_all kvs (snd (insert t a v))) b =
      (case map_of (rev (map (\<lambda>(a, v). (key a, v)) kvs)) (key b) of Some v \<Rightarrow> Some v
       | None \<Rightarrow> lookup (snd (insert t a v)) b)"
    by (rule Cons.IH) (use insert_inv [OF i l] Cons.prems(2) c in auto)
  then show ?case
    using insert_lookup [OF i l ok, of b]
    by (auto simp: kv map_add_def split: option.splits)
qed simp

end

locale bounded_map = bounded_lookup empty lookup insert count cap key legal inv
  for empty :: 't
    and lookup :: "'t \<Rightarrow> 'a \<Rightarrow> 'v option"
    and insert :: "'t \<Rightarrow> 'a \<Rightarrow> 'v \<Rightarrow> bool \<times> 't"
    and count :: "'t \<Rightarrow> nat"
    and cap :: nat
    and key :: "'a \<Rightarrow> 'k"
    and legal :: "'a \<Rightarrow> 'v \<Rightarrow> bool"
    and inv :: "'t \<Rightarrow> bool" +
  fixes remove :: "'t \<Rightarrow> 'a \<Rightarrow> bool \<times> 't"
  assumes remove_inv: "inv t \<Longrightarrow> inv (snd (remove t a))"
    and remove_succeeds: "inv t \<Longrightarrow> fst (remove t a) \<longleftrightarrow> lookup t a \<noteq> None"
    and remove_lookup: "inv t \<Longrightarrow>
      lookup (snd (remove t a)) b = (if key b = key a then None else lookup t b)"
    and remove_count: "inv t \<Longrightarrow>
      count (snd (remove t a)) = (if lookup t a = None then count t else count t - 1)"
    and count_pos: "inv t \<Longrightarrow> lookup t a \<noteq> None \<Longrightarrow> 0 < count t"
    and count_cap: "inv t \<Longrightarrow> count t \<le> cap"
begin

lemma remove_then_absent: "inv t \<Longrightarrow> lookup (snd (remove t a)) a = None"
  by (simp add: remove_lookup)

text \<open>Removing what was just learned gives the earlier bindings back.\<close>

lemma insert_remove_lookup:
  assumes "inv t" "legal a v" "lookup t a = None"
  shows "lookup (snd (remove (snd (insert t a v)) a)) b = lookup t b"
proof (cases "key b = key a")
  case True
  then show ?thesis
    using assms lookup_key [of b a t] by (simp add: remove_lookup insert_inv)
next
  case False
  then show ?thesis
    using assms insert_lookup [of t a v b] insert_unchanged [of t a v]
    by (cases "fst (insert t a v)") (simp_all add: remove_lookup insert_inv)
qed

text \<open>A removal always makes room for a new key.\<close>

lemma remove_makes_room:
  assumes "inv t" "lookup t a \<noteq> None" "legal b v"
  shows "fst (insert (snd (remove t a)) b v)"
proof -
  have "count (snd (remove t a)) < cap"
    using remove_count [OF assms(1), of a] count_pos [OF assms(1,2)] count_cap [OF assms(1)] assms(2)
    by simp
  then show ?thesis
    using insert_room [OF remove_inv [OF assms(1)] assms(3)] by blast
qed

end

end
