(* ===== verification/Keyed_Table.thy ===== *)
theory Keyed_Table
  imports Table Bounded_Map
begin

text \<open>
  Every table of the stack whose operations are the loops of \<open>Table\<close> over some key gives the
  contract \<open>bounded_map\<close>: shown once here, so that each of the tables only has to exhibit its
  key, its value and its entries.
\<close>

locale keyed_table =
  fixes zero :: "'e table"
    and get :: "'e table \<Rightarrow> 'a \<Rightarrow> 'v option"
    and put :: "'e table \<Rightarrow> 'a \<Rightarrow> 'v \<Rightarrow> bool \<times> 'e table"
    and remove :: "'e table \<Rightarrow> 'a \<Rightarrow> bool \<times> 'e table"
    and cap :: nat
    and key :: "'e \<Rightarrow> 'k"
    and val :: "'e \<Rightarrow> 'v"
    and arg :: "'a \<Rightarrow> 'k"
    and legal :: "'a \<Rightarrow> 'v \<Rightarrow> bool"
  assumes zero_size: "tab_size zero = 0" "length (tab_entries zero) = cap"
    and get_is: "get t a = tab_get (\<lambda>e. key e = arg a) val t"
    and put_is: "legal a v \<Longrightarrow> \<exists>upd new. put t a v = tab_put (\<lambda>e. key e = arg a) upd new cap t \<and>
      key new = arg a \<and> val new = v \<and> (\<forall>e. key e = arg a \<longrightarrow> key (upd e) = arg a \<and> val (upd e) = v)"
    and remove_flag: "fst (remove t a) = fst (tab_remove (\<lambda>e. key e = arg a) t)"
    and remove_live: "wf_table key cap t \<Longrightarrow> live (snd (remove t a)) = live (snd (tab_remove (\<lambda>e. key e = arg a) t))"
      "tab_size (snd (remove t a)) = tab_size (snd (tab_remove (\<lambda>e. key e = arg a) t))"
      "length (tab_entries (snd (remove t a))) = length (tab_entries (snd (tab_remove (\<lambda>e. key e = arg a) t)))"
begin

abbreviation inv :: "'e table \<Rightarrow> bool" where
  "inv \<equiv> wf_table key cap"

abbreviation contents :: "'e table \<Rightarrow> 'k \<Rightarrow> 'v option" where
  "contents \<equiv> tab_map key val"

lemma get_contents: "inv t \<Longrightarrow> get t a = contents t (arg a)"
  by (simp add: get_is tab_get_map)

lemma put_room:
  assumes "inv t" "legal a v" "contents t (arg a) \<noteq> None \<or> tab_size t < cap"
  shows "fst (put t a v)" "contents (snd (put t a v)) = (contents t)(arg a \<mapsto> v)" "inv (snd (put t a v))"
proof -
  obtain upd new where p: "put t a v = tab_put (\<lambda>e. key e = arg a) upd new cap t"
    and n: "key new = arg a" "val new = v"
    and u: "\<And>e. key e = arg a \<Longrightarrow> key (upd e) = arg a \<and> val (upd e) = v"
    using put_is [OF assms(2)] by meson
  show "fst (put t a v)" "contents (snd (put t a v)) = (contents t)(arg a \<mapsto> v)" "inv (snd (put t a v))"
    unfolding p using tab_put_room [of key cap t "arg a" upd val v new, OF assms(1) u n assms(3)] by simp_all
qed

lemma put_full:
  assumes "inv t" "legal a v" "contents t (arg a) = None" "cap \<le> tab_size t"
  shows "put t a v = (False, t)"
  using put_is [OF assms(2), of t] tab_put_full [OF assms(1,3,4)] by auto

lemma remove_absent: "inv t \<Longrightarrow> contents t (arg a) = None \<Longrightarrow>
    \<not> fst (remove t a) \<and> contents (snd (remove t a)) = contents t \<and>
    tab_size (snd (remove t a)) = tab_size t \<and> inv (snd (remove t a))"
  using tab_remove_absent [of key cap t val "arg a"]
  by (simp add: remove_flag remove_live tab_map_def wf_table_def)

lemma remove_present:
  assumes i: "inv t" and "contents t (arg a) \<noteq> None"
  shows "fst (remove t a)" "contents (snd (remove t a)) = (contents t)(arg a := None)" "inv (snd (remove t a))"
  using tab_remove_present [OF assms]
  by (simp_all add: remove_flag remove_live(1) [OF i] remove_live(2,3) tab_map_def wf_table_def)

lemma dom_size: "inv t \<Longrightarrow> card (dom (contents t)) = tab_size t"
  by (rule tab_size_card)

lemma finite_contents: "finite (dom (contents t))"
  by (simp add: tab_map_def finite_dom_map_of)

lemma size_put:
  assumes "inv t" "legal a v"
  shows "tab_size (snd (put t a v)) =
    (if contents t (arg a) = None \<and> tab_size t < cap then tab_size t + 1 else tab_size t)"
proof (cases "contents t (arg a) \<noteq> None \<or> tab_size t < cap")
  case True
  note r = put_room [OF assms True]
  have "tab_size (snd (put t a v)) = card (insert (arg a) (dom (contents t)))"
    using dom_size [OF r(3)] r(2) by simp
  also have "\<dots> = (if contents t (arg a) = None then card (dom (contents t)) + 1 else card (dom (contents t)))"
    by (simp add: card_insert_if finite_contents domIff)
  finally show ?thesis using True by (auto simp: dom_size [OF assms(1)])
next
  case False
  then show ?thesis using put_full [OF assms] by simp
qed

lemma size_remove:
  assumes "inv t"
  shows "tab_size (snd (remove t a)) = (if contents t (arg a) = None then tab_size t else tab_size t - 1)"
proof (cases "contents t (arg a) = None")
  case True
  then show ?thesis using remove_absent [OF assms] by simp
next
  case False
  note r = remove_present [OF assms False]
  have "tab_size (snd (remove t a)) = card (dom (contents t) - {arg a})"
    using dom_size [OF r(3)] r(2) by simp
  also have "\<dots> = card (dom (contents t)) - 1"
    using False by (intro card_Diff_singleton) (simp add: domIff)
  finally show ?thesis using False by (auto simp: dom_size [OF assms])
qed

lemma size_positive:
  assumes "inv t" "contents t k \<noteq> None"
  shows "0 < tab_size t"
proof -
  have "dom (contents t) \<noteq> {}" using assms(2) by (auto simp: dom_def)
  then show ?thesis using finite_contents dom_size [OF assms(1)] by (metis card_gt_0_iff)
qed

end

sublocale keyed_table \<subseteq> bounded_map zero get put tab_size cap arg legal inv remove
proof unfold_locales
  show z: "inv zero" by (simp add: wf_table_def zero_size live_def)
  show "tab_size zero = 0" by (rule zero_size)
  have "live zero = []" by (simp add: live_def zero_size)
  then show "get zero a = None" for a by (simp add: get_contents [OF z] tab_map_def)
  show "arg a = arg b \<Longrightarrow> get t a = get t b" for a b t by (simp add: get_is)
next
  fix t a v assume i: "inv t" and l: "legal a v"
  show inv: "inv (snd (put t a v))"
    using put_room(3) [OF i l] put_full [OF i l] i
    by (cases "contents t (arg a) \<noteq> None \<or> tab_size t < cap") auto
  show "get t a \<noteq> None \<or> tab_size t < cap \<Longrightarrow> fst (put t a v)"
    using put_room(1) [OF i l] by (simp add: get_contents [OF i])
  show "tab_size (snd (put t a v)) = (if get t a = None \<and> tab_size t < cap then tab_size t + 1 else tab_size t)"
    using size_put [OF i l] by (simp add: get_contents [OF i])
  show "get t a = None \<Longrightarrow> cap \<le> tab_size t \<Longrightarrow> put t a v = (False, t)"
    using put_full [OF i l] by (simp add: get_contents [OF i])
  fix b assume "fst (put t a v)"
  then have "contents t (arg a) \<noteq> None \<or> tab_size t < cap"
    using put_full [OF i l] by fastforce
  from put_room(2) [OF i l this]
  show "get (snd (put t a v)) b = (if arg b = arg a then Some v else get t b)"
    by (simp add: get_contents [OF i] get_contents [OF inv])
next
  fix t a assume i: "inv t"
  show inv: "inv (snd (remove t a))"
    using remove_absent [OF i] remove_present(3) [OF i] by (cases "contents t (arg a) = None") auto
  show "fst (remove t a) = (get t a \<noteq> None)"
    using remove_absent [OF i] remove_present(1) [OF i]
    by (cases "contents t (arg a) = None") (auto simp: get_contents [OF i])
  show "get (snd (remove t a)) b = (if arg b = arg a then None else get t b)" for b
    using remove_absent [OF i] remove_present(2) [OF i]
    by (cases "contents t (arg a) = None") (auto simp: get_contents [OF i] get_contents [OF inv])
  show "tab_size (snd (remove t a)) = (if get t a = None then tab_size t else tab_size t - 1)"
    using size_remove [OF i] by (simp add: get_contents [OF i])
  show "get t a \<noteq> None \<Longrightarrow> 0 < tab_size t"
    using size_positive [OF i] by (simp add: get_contents [OF i])
  show "tab_size t \<le> cap" using i by (simp add: wf_table_def)
qed

end
