(* ===== verification/String_Map.thy ===== *)
theory String_Map
  imports Keyed_Table
begin

text \<open>
  The string map of \<^verbatim>\<open>dataStructure/map.c\<close>: parallel arrays of 100 keys and 100 values, each a
  buffer of 100 characters that holds a NUL-terminated string of at most 99 (a \<open>string\<close> here).
  Arguments that do not fit are cut off when they are stored, but compared uncut.
\<close>

abbreviation MAP_MAX_ENTRIES :: nat where "MAP_MAX_ENTRIES \<equiv> 100"
abbreviation MAP_MAX_KEY_LENGTH :: nat where "MAP_MAX_KEY_LENGTH \<equiv> 100"
abbreviation MAP_MAX_VALUE_LENGTH :: nat where "MAP_MAX_VALUE_LENGTH \<equiv> 100"

record map_entry =
  me_key :: string
  me_value :: string

type_synonym string_map = "map_entry table"

definition map_find_index :: "string_map \<Rightarrow> string \<Rightarrow> nat option" where
  "map_find_index m key = tab_find (\<lambda>e. me_key e = key) m"

definition copy_string :: "nat \<Rightarrow> string \<Rightarrow> string" where
  "copy_string destination_size source = take (destination_size - 1) source"

definition map_init :: "string_map \<Rightarrow> string_map" where
  "map_init m = m\<lparr>tab_size := 0\<rparr>"

definition map_insert :: "string_map \<Rightarrow> string \<Rightarrow> string \<Rightarrow> bool \<times> string_map" where
  "map_insert m key value =
    tab_put (\<lambda>e. me_key e = key)
      (\<lambda>e. e\<lparr>me_value := copy_string MAP_MAX_VALUE_LENGTH value\<rparr>)
      \<lparr>me_key = copy_string MAP_MAX_KEY_LENGTH key, me_value = copy_string MAP_MAX_VALUE_LENGTH value\<rparr>
      MAP_MAX_ENTRIES m"

text \<open>The slot that a removal frees is cleared.\<close>

definition map_remove :: "string_map \<Rightarrow> string \<Rightarrow> bool \<times> string_map" where
  "map_remove m key =
    (case tab_remove (\<lambda>e. me_key e = key) m of
       (False, m) \<Rightarrow> (False, m)
     | (True, m) \<Rightarrow> (True, m\<lparr>tab_entries := (tab_entries m)[tab_size m := \<lparr>me_key = [], me_value = []\<rparr>]\<rparr>))"

definition map_get :: "string_map \<Rightarrow> string \<Rightarrow> string option" where
  "map_get m key = tab_get (\<lambda>e. me_key e = key) me_value m"

definition string_map_zero :: string_map where
  "string_map_zero = \<lparr>tab_entries = replicate MAP_MAX_ENTRIES \<lparr>me_key = [], me_value = []\<rparr>, tab_size = 0\<rparr>"

lemma copy_string_fits [simp]: "length s < n \<Longrightarrow> copy_string n s = s"
  by (simp add: copy_string_def)

lemma copy_string_short: "0 < n \<Longrightarrow> length (copy_string n s) < n"
  by (simp add: copy_string_def)

abbreviation string_map_inv :: "string_map \<Rightarrow> bool" where
  "string_map_inv \<equiv> wf_table me_key MAP_MAX_ENTRIES"

abbreviation fits :: "string \<Rightarrow> string \<Rightarrow> bool" where
  "fits key value \<equiv> length key < MAP_MAX_KEY_LENGTH \<and> length value < MAP_MAX_VALUE_LENGTH"

interpretation smap: keyed_table string_map_zero map_get map_insert map_remove
  MAP_MAX_ENTRIES me_key me_value id fits
proof unfold_locales
  show "\<exists>upd new. map_insert t a v = tab_put (\<lambda>e. me_key e = id a) upd new MAP_MAX_ENTRIES t \<and>
      me_key new = id a \<and> me_value new = v \<and>
      (\<forall>e. me_key e = id a \<longrightarrow> me_key (upd e) = id a \<and> me_value (upd e) = v)"
    if "fits a v" for a v t
    using that
    by (intro exI [of _ "\<lambda>e. e\<lparr>me_value := v\<rparr>"] exI [of _ "\<lparr>me_key = a, me_value = v\<rparr>"])
      (simp add: map_insert_def)
  show "fst (map_remove t a) = fst (tab_remove (\<lambda>e. me_key e = id a) t)"
    "tab_size (snd (map_remove t a)) = tab_size (snd (tab_remove (\<lambda>e. me_key e = id a) t))"
    "length (tab_entries (snd (map_remove t a))) = length (tab_entries (snd (tab_remove (\<lambda>e. me_key e = id a) t)))"
    "live (snd (map_remove t a)) = live (snd (tab_remove (\<lambda>e. me_key e = id a) t))" for t a
    by (simp_all add: map_remove_def live_def split: prod.split bool.split)
qed (simp_all add: string_map_zero_def map_get_def)

end
