(* ===== verification/Node.thy ===== *)
theory Node
  imports Address
begin

text \<open>
  Nodes, interfaces and links as data: \<^verbatim>\<open>core/interface.h\<close>, \<^verbatim>\<open>core/link.h\<close> and the parts of
  \<^verbatim>\<open>core/interface.c\<close> that do not send. Nodes live on a heap and are named by numbers, a pointer
  to an interface is its node and its index there, a pointer to a link is its index in the link
  array of the simulator. The virtual method table of a node is its constructor in the heap.
\<close>

abbreviation MAX_NAME :: nat where "MAX_NAME \<equiv> 32"
abbreviation MAX_PORT :: nat where "MAX_PORT \<equiv> 32"

datatype node_type = NODE_UNKNOWN | NODE_HOST | NODE_SWITCH | NODE_ROUTER

type_synonym node_id = nat
type_synonym iface_ref = "node_id \<times> nat"
type_synonym link_ref = nat

record interface =
  if_port :: nat
  if_mac :: mac_address
  if_link :: "link_ref option"
  if_node :: "node_id option"

record node_base =
  nb_type :: node_type
  nb_name :: string
  nb_num :: nat
  nb_ifs :: "interface list"

record link =
  ln_if1 :: "iface_ref option"
  ln_if2 :: "iface_ref option"
  ln_delay :: real

definition interface_init :: "nat \<Rightarrow> mac_address \<Rightarrow> interface" where
  "interface_init num mac = \<lparr>if_port = num, if_mac = mac, if_link = None, if_node = None\<rparr>"

definition normalize_interface_count :: "int \<Rightarrow> nat" where
  "normalize_interface_count n = (if n < 0 then 0 else if int MAX_PORT < n then MAX_PORT else nat n)"

text \<open>
  \<^verbatim>\<open>rand()\<close> is a sequence of values and a position in it. The addresses the caller gives are used
  for the interfaces in use, the others are random.
\<close>

definition draw_mac :: "(nat \<Rightarrow> u32) \<Rightarrow> nat \<Rightarrow> mac_address" where
  "draw_mac rnd k = mac_random (map rnd [k..<k + 6])"

fun init_interfaces ::
  "(nat \<Rightarrow> u32) \<Rightarrow> node_id \<Rightarrow> nat \<Rightarrow> mac_address list option \<Rightarrow> nat list \<Rightarrow> nat \<Rightarrow> interface list \<times> nat" where
  "init_interfaces rnd node num macs [] k = ([], k)"
| "init_interfaces rnd node num macs (i # is) k =
    (let (mac, k) = (case macs of
           Some ms \<Rightarrow> if i < num then (ms ! i, k) else (draw_mac rnd k, k + 6)
         | None \<Rightarrow> (draw_mac rnd k, k + 6));
         iface = (interface_init (i + 1) mac)\<lparr>if_node := (if i < num then Some node else None)\<rparr>;
         (ifs, k) = init_interfaces rnd node num macs is k
     in (iface # ifs, k))"

definition node_init_with_macs ::
  "(nat \<Rightarrow> u32) \<Rightarrow> nat \<Rightarrow> node_id \<Rightarrow> node_type \<Rightarrow> int \<Rightarrow> mac_address list option \<Rightarrow> node_base \<times> nat" where
  "node_init_with_macs rnd k node type num_interfaces macs =
    (let num = normalize_interface_count num_interfaces;
         (ifs, k) = init_interfaces rnd node num macs [0..<MAX_PORT] k
     in (\<lparr>nb_type = type, nb_name = [], nb_num = num, nb_ifs = ifs\<rparr>, k))"

definition node_get_interface :: "node_base \<Rightarrow> int \<Rightarrow> nat option" where
  "node_get_interface node port_number =
    (if port_number < 1 \<or> int (nb_num node) < port_number then None else Some (nat (port_number - 1)))"

primrec node_type_to_string :: "node_type \<Rightarrow> string" where
  "node_type_to_string NODE_HOST = ''host''"
| "node_type_to_string NODE_SWITCH = ''switch''"
| "node_type_to_string NODE_ROUTER = ''router''"
| "node_type_to_string NODE_UNKNOWN = ''unknown''"

section \<open>Fresh nodes\<close>

lemma init_interfaces_props:
  "list_all2 (\<lambda>i f. if_port f = i + 1 \<and> if_link f = None \<and> if_node f = (if i < num then Some node else None))
    is (fst (init_interfaces rnd node num macs is k))"
  by (induction "is" arbitrary: k) (simp_all add: interface_init_def case_prod_unfold Let_def)

definition wf_node :: "node_base \<Rightarrow> bool" where
  "wf_node node \<longleftrightarrow> nb_num node \<le> MAX_PORT \<and> length (nb_ifs node) = MAX_PORT \<and>
    (\<forall>i<MAX_PORT. if_port (nb_ifs node ! i) = i + 1)"

lemma node_init_wf: "wf_node (fst (node_init_with_macs rnd k node type num macs))"
proof -
  let ?n = "normalize_interface_count num"
  obtain ifs k' where i: "init_interfaces rnd node ?n macs [0..<MAX_PORT] k = (ifs, k')" by fastforce
  have "list_all2 (\<lambda>i f. if_port f = i + 1 \<and> if_link f = None \<and> if_node f = (if i < ?n then Some node else None))
      [0..<MAX_PORT] ifs"
    using init_interfaces_props [of ?n node "[0..<MAX_PORT]" rnd macs k] unfolding i by simp
  moreover have "?n \<le> MAX_PORT" by (auto simp: normalize_interface_count_def)
  ultimately show ?thesis
    unfolding wf_node_def node_init_with_macs_def Let_def i by (simp add: list_all2_conv_all_nth)
qed

lemma node_get_interface_bound:
  "wf_node node \<Longrightarrow> node_get_interface node p = Some i \<Longrightarrow> i < nb_num node \<and> int i + 1 = p \<and> i < length (nb_ifs node)"
  by (auto simp: node_get_interface_def wf_node_def split: if_splits)

end
