(* ===== verification/Sim_Clock.thy ===== *)
theory Sim_Clock
  imports Node
begin

text \<open>
  The simulation clock: \<^verbatim>\<open>core/sim_clock.c\<close>. \<^verbatim>\<open>clock_gettime\<close> is a sequence of readings (seconds
  and nanoseconds) and a position in it; the static variables are the fields of a record; the 256
  slots of packets in flight are a list. \<^verbatim>\<open>sim_clock_tick\<close>, which delivers, is in \<open>Network\<close>.
\<close>

abbreviation SIM_INFLIGHT_MAX :: nat where "SIM_INFLIGHT_MAX \<equiv> 256"
abbreviation SIM_INFLIGHT_PAYLOAD_MAX :: nat where "SIM_INFLIGHT_PAYLOAD_MAX \<equiv> 2048"

record in_flight =
  fl_active :: bool
  fl_sender :: iface_ref
  fl_receiver :: iface_ref
  fl_link :: link_ref
  fl_launch :: real
  fl_deliver :: real
  fl_ethertype :: u16
  fl_l4_protocol :: u8
  fl_bytes :: bytes

record sim_clock =
  ck_readings :: "nat \<Rightarrow> int \<times> int"
  ck_next :: nat
  ck_realtime :: bool
  ck_in_flight :: "in_flight list"
  ck_t0 :: "(int \<times> int) option"
  ck_speed :: real
  ck_paused :: bool
  ck_paused_at :: real
  ck_paused_accum :: real

definition empty_slot :: in_flight where
  "empty_slot = \<lparr>fl_active = False, fl_sender = (0, 0), fl_receiver = (0, 0), fl_link = 0, fl_launch = 0,
     fl_deliver = 0, fl_ethertype = 0, fl_l4_protocol = 0, fl_bytes = []\<rparr>"

definition sim_clock_initial :: "(nat \<Rightarrow> int \<times> int) \<Rightarrow> sim_clock" where
  "sim_clock_initial readings = \<lparr>ck_readings = readings, ck_next = 0, ck_realtime = False,
     ck_in_flight = replicate SIM_INFLIGHT_MAX empty_slot, ck_t0 = None, ck_speed = 1, ck_paused = False,
     ck_paused_at = 0, ck_paused_accum = 0\<rparr>"

definition clock_gettime :: "sim_clock \<Rightarrow> (int \<times> int) \<times> sim_clock" where
  "clock_gettime c = (ck_readings c (ck_next c), c\<lparr>ck_next := ck_next c + 1\<rparr>)"

definition ensure_t0 :: "sim_clock \<Rightarrow> sim_clock" where
  "ensure_t0 c =
    (case ck_t0 c of
       None \<Rightarrow> (let (t, c) = clock_gettime c in c\<lparr>ck_t0 := Some t\<rparr>)
     | Some _ \<Rightarrow> c)"

definition monotonic_ms_since_t0 :: "sim_clock \<Rightarrow> real \<times> sim_clock" where
  "monotonic_ms_since_t0 c =
    (let c = ensure_t0 c;
         (now, c) = clock_gettime c;
         (s0, n0) = the (ck_t0 c)
     in (real_of_int (fst now - s0) * 1000 + real_of_int (snd now - n0) / 1000000, c))"

definition sim_clock_set_realtime :: "bool \<Rightarrow> sim_clock \<Rightarrow> sim_clock" where
  "sim_clock_set_realtime on c =
    (let c = c\<lparr>ck_realtime := on\<rparr> in if on then ensure_t0 c else c)"

definition sim_clock_realtime_enabled :: "sim_clock \<Rightarrow> bool" where
  "sim_clock_realtime_enabled c = ck_realtime c"

definition sim_clock_set_speed :: "real \<Rightarrow> sim_clock \<Rightarrow> sim_clock" where
  "sim_clock_set_speed factor c =
    (let factor = (if factor < 5 / 100 then 5 / 100 else factor);
         factor = (if 64 < factor then 64 else factor)
     in c\<lparr>ck_speed := factor\<rparr>)"

definition sim_clock_get_speed :: "sim_clock \<Rightarrow> real" where
  "sim_clock_get_speed c = ck_speed c"

definition sim_clock_now_ms :: "sim_clock \<Rightarrow> real \<times> sim_clock" where
  "sim_clock_now_ms c =
    (if ck_paused c then (ck_paused_at c, c)
     else let (m, c) = monotonic_ms_since_t0 c in (m - ck_paused_accum c, c))"

definition sim_clock_set_paused :: "bool \<Rightarrow> sim_clock \<Rightarrow> sim_clock" where
  "sim_clock_set_paused paused c =
    (if paused \<and> \<not> ck_paused c then
       let (now, c) = sim_clock_now_ms c in c\<lparr>ck_paused_at := now, ck_paused := True\<rparr>
     else if \<not> paused \<and> ck_paused c then
       let (real_now, c) = monotonic_ms_since_t0 c
       in c\<lparr>ck_paused_accum := real_now - ck_paused_at c, ck_paused := False\<rparr>
     else c)"

definition sim_clock_is_paused :: "sim_clock \<Rightarrow> bool" where
  "sim_clock_is_paused c = ck_paused c"

definition sim_clock_step :: "real \<Rightarrow> sim_clock \<Rightarrow> sim_clock" where
  "sim_clock_step advance_ms c =
    (if ck_paused c \<and> 0 < advance_ms then c\<lparr>ck_paused_at := ck_paused_at c + advance_ms\<rparr> else c)"

definition parse_protocol_hint :: "in_flight \<Rightarrow> in_flight" where
  "parse_protocol_hint p =
    (let p = p\<lparr>fl_ethertype := 0, fl_l4_protocol := 0\<rparr>; b = fl_bytes p
     in if length b < 14 then p
        else
          let p = p\<lparr>fl_ethertype := read_u16_be b 12\<rparr>
          in if fl_ethertype p = 0x0800 \<and> 14 + 10 \<le> length b then p\<lparr>fl_l4_protocol := b ! (14 + 9)\<rparr> else p)"

definition sim_clock_enqueue ::
  "iface_ref \<Rightarrow> iface_ref \<Rightarrow> link_ref \<Rightarrow> real \<Rightarrow> bytes \<Rightarrow> sim_clock \<Rightarrow> bool \<times> sim_clock" where
  "sim_clock_enqueue sender receiver link link_delay bs c =
    (if \<not> ck_realtime c then (False, c)
     else if bs = [] \<or> SIM_INFLIGHT_PAYLOAD_MAX < length bs then (False, c)
     else case first_index (\<lambda>i. \<not> fl_active (ck_in_flight c ! i)) SIM_INFLIGHT_MAX of
       None \<Rightarrow> (False, c)
     | Some i \<Rightarrow>
         let (launch, c) = sim_clock_now_ms c;
             delay = (if link_delay < 0 then 0 else link_delay);
             effective = (if 0 < ck_speed c then delay / ck_speed c else delay);
             p = parse_protocol_hint ((ck_in_flight c ! i)\<lparr>fl_active := True, fl_sender := sender,
               fl_receiver := receiver, fl_link := link, fl_launch := launch,
               fl_deliver := launch + effective, fl_bytes := bs\<rparr>)
         in (True, c\<lparr>ck_in_flight := (ck_in_flight c)[i := p]\<rparr>))"

text \<open>One step of the delivery loop: the packet of a slot that is due, and the slot freed.\<close>

definition take_due :: "real \<Rightarrow> nat \<Rightarrow> sim_clock \<Rightarrow> in_flight option \<times> sim_clock" where
  "take_due now_ms i c =
    (let p = ck_in_flight c ! i
     in if \<not> fl_active p then (None, c)
        else if fl_deliver p \<le> now_ms
        then (Some p, c\<lparr>ck_in_flight := (ck_in_flight c)[i := p\<lparr>fl_active := False\<rparr>]\<rparr>)
        else (None, c))"

definition sim_clock_clear :: "sim_clock \<Rightarrow> sim_clock" where
  "sim_clock_clear c = c\<lparr>ck_in_flight := map (\<lambda>p. p\<lparr>fl_active := False\<rparr>) (ck_in_flight c)\<rparr>"

definition sim_clock_in_flight_count :: "sim_clock \<Rightarrow> nat" where
  "sim_clock_in_flight_count c = length (filter fl_active (ck_in_flight c))"

definition sim_clock_in_flight_at :: "nat \<Rightarrow> sim_clock \<Rightarrow> in_flight option" where
  "sim_clock_in_flight_at idx c =
    (let ps = filter fl_active (ck_in_flight c) in if idx < length ps then Some (ps ! idx) else None)"

section \<open>The frames of the operations\<close>

lemma gettime_frame [simp]: "snd (clock_gettime c) = c\<lparr>ck_next := ck_next c + 1\<rparr>"
  by (simp add: clock_gettime_def)

lemma ensure_t0_frame [simp]:
  "ck_in_flight (ensure_t0 c) = ck_in_flight c" "ck_realtime (ensure_t0 c) = ck_realtime c"
  "ck_readings (ensure_t0 c) = ck_readings c" "ck_paused (ensure_t0 c) = ck_paused c"
  "ck_paused_at (ensure_t0 c) = ck_paused_at c" "ck_paused_accum (ensure_t0 c) = ck_paused_accum c"
  "ck_speed (ensure_t0 c) = ck_speed c"
  by (simp_all add: ensure_t0_def clock_gettime_def split: option.split)

lemma monotonic_frame [simp]:
  "ck_in_flight (snd (monotonic_ms_since_t0 c)) = ck_in_flight c"
  "ck_realtime (snd (monotonic_ms_since_t0 c)) = ck_realtime c"
  "ck_readings (snd (monotonic_ms_since_t0 c)) = ck_readings c"
  "ck_paused (snd (monotonic_ms_since_t0 c)) = ck_paused c"
  "ck_paused_at (snd (monotonic_ms_since_t0 c)) = ck_paused_at c"
  "ck_paused_accum (snd (monotonic_ms_since_t0 c)) = ck_paused_accum c"
  "ck_speed (snd (monotonic_ms_since_t0 c)) = ck_speed c"
  by (simp_all add: monotonic_ms_since_t0_def Let_def clock_gettime_def split: prod.split)

lemma now_frame [simp]:
  "ck_in_flight (snd (sim_clock_now_ms c)) = ck_in_flight c"
  "ck_realtime (snd (sim_clock_now_ms c)) = ck_realtime c"
  "ck_readings (snd (sim_clock_now_ms c)) = ck_readings c"
  "ck_paused (snd (sim_clock_now_ms c)) = ck_paused c"
  "ck_paused_at (snd (sim_clock_now_ms c)) = ck_paused_at c"
  "ck_paused_accum (snd (sim_clock_now_ms c)) = ck_paused_accum c"
  "ck_speed (snd (sim_clock_now_ms c)) = ck_speed c"
  by (simp_all add: sim_clock_now_ms_def case_prod_unfold Let_def)

section \<open>Simulated time never runs backwards\<close>

definition reading_ms :: "int \<times> int \<Rightarrow> real" where
  "reading_ms r = real_of_int (fst r) * 1000 + real_of_int (snd r) / 1000000"

definition monotone_readings :: "sim_clock \<Rightarrow> bool" where
  "monotone_readings c \<longleftrightarrow> (\<forall>k. reading_ms (ck_readings c k) \<le> reading_ms (ck_readings c (Suc k)))"

lemma monotone_readings_frame [simp]:
  "monotone_readings (c\<lparr>ck_next := n\<rparr>) = monotone_readings c"
  "monotone_readings (c\<lparr>ck_t0 := t\<rparr>) = monotone_readings c"
  "monotone_readings (c\<lparr>ck_paused := p\<rparr>) = monotone_readings c"
  "monotone_readings (c\<lparr>ck_paused_at := x\<rparr>) = monotone_readings c"
  "monotone_readings (c\<lparr>ck_paused_accum := x\<rparr>) = monotone_readings c"
  "monotone_readings (c\<lparr>ck_speed := x\<rparr>) = monotone_readings c"
  "monotone_readings (c\<lparr>ck_realtime := on\<rparr>) = monotone_readings c"
  by (simp_all add: monotone_readings_def)

text \<open>No later reading of the simulated time can be below \<open>L\<close>.\<close>

definition not_before :: "real \<Rightarrow> sim_clock \<Rightarrow> bool" where
  "not_before L c \<longleftrightarrow>
    (if ck_paused c then L \<le> ck_paused_at c
     else case ck_t0 c of
       None \<Rightarrow> L \<le> - ck_paused_accum c
     | Some t \<Rightarrow> L \<le> reading_ms (ck_readings c (ck_next c)) - reading_ms t - ck_paused_accum c)"

lemma monotonic_value:
  "ck_t0 c = Some t \<Longrightarrow> monotonic_ms_since_t0 c =
    (reading_ms (ck_readings c (ck_next c)) - reading_ms t, c\<lparr>ck_next := ck_next c + 1\<rparr>)"
  "ck_t0 c = None \<Longrightarrow> monotonic_ms_since_t0 c =
    (reading_ms (ck_readings c (ck_next c + 1)) - reading_ms (ck_readings c (ck_next c)),
     c\<lparr>ck_next := ck_next c + 2, ck_t0 := Some (ck_readings c (ck_next c))\<rparr>)"
  by (simp_all add: monotonic_ms_since_t0_def ensure_t0_def clock_gettime_def reading_ms_def Let_def
      case_prod_unfold algebra_simps diff_divide_distrib)

lemma now_not_before:
  assumes "not_before L c" "monotone_readings c" "sim_clock_now_ms c = (t, c')"
  shows "L \<le> t" "not_before t c'" "monotone_readings c'"
proof -
  have m: "reading_ms (ck_readings c k) \<le> reading_ms (ck_readings c (Suc k))" for k
    using assms(2) by (simp add: monotone_readings_def)
  have "L \<le> t \<and> not_before t c' \<and> monotone_readings c'"
  proof (cases "ck_paused c")
    case True
    then show ?thesis using assms by (auto simp: sim_clock_now_ms_def not_before_def)
  next
    case False
    then show ?thesis
      using assms m [of "ck_next c"] m [of "Suc (ck_next c)"]
      by (cases "ck_t0 c") (auto simp: sim_clock_now_ms_def not_before_def monotonic_value Let_def)
  qed
  then show "L \<le> t" "not_before t c'" "monotone_readings c'" by simp_all
qed

datatype clock_op = Now | Pause bool | Step real | Speed real | Realtime bool

fun clock_run :: "clock_op list \<Rightarrow> sim_clock \<Rightarrow> real list" where
  "clock_run [] c = []"
| "clock_run (Now # ops) c = (let (t, c) = sim_clock_now_ms c in t # clock_run ops c)"
| "clock_run (Pause p # ops) c = clock_run ops (sim_clock_set_paused p c)"
| "clock_run (Step a # ops) c = clock_run ops (sim_clock_step a c)"
| "clock_run (Speed f # ops) c = clock_run ops (sim_clock_set_speed f c)"
| "clock_run (Realtime on # ops) c = clock_run ops (sim_clock_set_realtime on c)"

lemma paused_not_before:
  assumes "not_before L c" "monotone_readings c"
  shows "not_before L (sim_clock_set_paused p c)" "monotone_readings (sim_clock_set_paused p c)"
proof -
  have m: "reading_ms (ck_readings c k) \<le> reading_ms (ck_readings c (Suc k))" for k
    using assms(2) by (simp add: monotone_readings_def)
  obtain t c' where now: "sim_clock_now_ms c = (t, c')" by fastforce
  note N = now_not_before [OF assms now]
  have "not_before L (sim_clock_set_paused p c) \<and> monotone_readings (sim_clock_set_paused p c)"
  proof (cases "p \<and> \<not> ck_paused c")
    case True
    then show ?thesis using N now by (simp add: sim_clock_set_paused_def not_before_def)
  next
    case False
    then show ?thesis
      using assms m [of "ck_next c"] m [of "Suc (ck_next c)"]
      by (cases "ck_t0 c")
        (auto simp: sim_clock_set_paused_def not_before_def monotonic_value)
  qed
  then show "not_before L (sim_clock_set_paused p c)" "monotone_readings (sim_clock_set_paused p c)" by simp_all
qed

lemma other_not_before:
  assumes "not_before L c" "monotone_readings c"
  shows "not_before L (sim_clock_step a c) \<and> monotone_readings (sim_clock_step a c)"
    "not_before L (sim_clock_set_speed f c) \<and> monotone_readings (sim_clock_set_speed f c)"
    "not_before L (sim_clock_set_realtime on c) \<and> monotone_readings (sim_clock_set_realtime on c)"
proof -
  have m: "reading_ms (ck_readings c k) \<le> reading_ms (ck_readings c (Suc k))" for k
    using assms(2) by (simp add: monotone_readings_def)
  show "not_before L (sim_clock_step a c) \<and> monotone_readings (sim_clock_step a c)"
    "not_before L (sim_clock_set_speed f c) \<and> monotone_readings (sim_clock_set_speed f c)"
    using assms by (auto simp: sim_clock_step_def sim_clock_set_speed_def not_before_def Let_def split: option.splits)
  show "not_before L (sim_clock_set_realtime on c) \<and> monotone_readings (sim_clock_set_realtime on c)"
    using assms m [of "ck_next c"]
    by (auto simp: sim_clock_set_realtime_def ensure_t0_def clock_gettime_def Let_def not_before_def split: option.splits)
qed

lemma clock_run_sorted:
  "not_before L c \<Longrightarrow> monotone_readings c \<Longrightarrow> sorted (clock_run ops c) \<and> (\<forall>t\<in>set (clock_run ops c). L \<le> t)"
proof (induction ops c arbitrary: L rule: clock_run.induct)
  case (2 ops c)
  obtain t c' where now: "sim_clock_now_ms c = (t, c')" by fastforce
  note N = now_not_before [OF "2.prems" now]
  show ?case using "2.IH" [OF now [symmetric] refl N(2,3)] N(1) by (auto simp: now)
qed (auto dest: other_not_before paused_not_before)

text \<open>With exact arithmetic simulated time never runs backwards: whatever is paused, resumed, stepped, sped up or switched
  to real time in between, the times that \<^verbatim>\<open>sim_clock_now_ms\<close> reports are non-decreasing, as long
  as the readings of the monotonic system clock are. The code computes in doubles: the two subtractions of a pause and of a reading
  after it are rounded, and a time after the pause can come out below the paused time by the last digits.\<close>

theorem simulated_time_monotone:
  assumes "\<forall>k. reading_ms (readings k) \<le> reading_ms (readings (Suc k))"
  shows "sorted (clock_run ops (sim_clock_initial readings))"
proof -
  have "not_before 0 (sim_clock_initial readings)" "monotone_readings (sim_clock_initial readings)"
    using assms by (simp_all add: not_before_def monotone_readings_def sim_clock_initial_def)
  then show ?thesis using clock_run_sorted by blast
qed

theorem simulated_time_monotone_witness:
  "sorted (clock_run [Now, Pause True, Step 50, Now, Pause False, Now] (sim_clock_initial (\<lambda>k. (int k, 0))))"
  by (rule simulated_time_monotone) (simp add: reading_ms_def)

section \<open>The slots\<close>

lemma all_active_iff: "length (filter fl_active ps) < length ps \<longleftrightarrow> \<not> (\<forall>i<length ps. fl_active (ps ! i))"
  by (metis all_set_conv_all_nth filter_id_conv length_filter_less less_irrefl nth_mem)

lemma filter_activate:
  "i < length ps \<Longrightarrow> \<not> fl_active (ps ! i) \<Longrightarrow> fl_active p \<Longrightarrow>
    length (filter fl_active (ps[i := p])) = length (filter fl_active ps) + 1"
  by (induction ps arbitrary: i) (auto simp: nth_Cons' split: nat.splits)

lemma parse_protocol_hint_frame [simp]:
  "fl_active (parse_protocol_hint p) = fl_active p" "fl_sender (parse_protocol_hint p) = fl_sender p"
  "fl_receiver (parse_protocol_hint p) = fl_receiver p" "fl_bytes (parse_protocol_hint p) = fl_bytes p"
  "fl_launch (parse_protocol_hint p) = fl_launch p" "fl_deliver (parse_protocol_hint p) = fl_deliver p"
  by (simp_all add: parse_protocol_hint_def Let_def)

text \<open>Scheduling: in real time a packet that fits is put in the first free slot, due not before its
  launch, with its bytes and ends unchanged and no other slot touched; it is refused only when it
  is empty or too long or all 256 slots are taken.\<close>

theorem enqueue_schedules:
  assumes "length (ck_in_flight c) = SIM_INFLIGHT_MAX" "ck_realtime c"
    and "sim_clock_enqueue s r l d bs c = (ok, c')"
  shows "(ok \<longleftrightarrow> bs \<noteq> [] \<and> length bs \<le> SIM_INFLIGHT_PAYLOAD_MAX \<and> sim_clock_in_flight_count c < SIM_INFLIGHT_MAX) \<and>
    (ok \<longrightarrow> sim_clock_in_flight_count c' = sim_clock_in_flight_count c + 1 \<and>
      (\<exists>i<SIM_INFLIGHT_MAX. \<not> fl_active (ck_in_flight c ! i) \<and> fl_active (ck_in_flight c' ! i) \<and>
        fl_sender (ck_in_flight c' ! i) = s \<and> fl_receiver (ck_in_flight c' ! i) = r \<and>
        fl_bytes (ck_in_flight c' ! i) = bs \<and> fl_launch (ck_in_flight c' ! i) \<le> fl_deliver (ck_in_flight c' ! i) \<and>
        (\<forall>j. j \<noteq> i \<longrightarrow> ck_in_flight c' ! j = ck_in_flight c ! j)))"
proof -
  let ?free = "first_index (\<lambda>i. \<not> fl_active (ck_in_flight c ! i)) SIM_INFLIGHT_MAX"
  have cnt: "sim_clock_in_flight_count c < SIM_INFLIGHT_MAX \<longleftrightarrow> ?free \<noteq> None"
    using all_active_iff [of "ck_in_flight c"] assms(1) by (simp add: sim_clock_in_flight_count_def)
  show ?thesis
  proof (cases ?free)
    case None
    have "sim_clock_enqueue s r l d bs c = (False, c)" by (simp add: sim_clock_enqueue_def None)
    then show ?thesis using assms cnt None by simp
  next
    case (Some i)
    then have i: "i < 256" "\<not> fl_active (ck_in_flight c ! i)" by (auto simp: first_index_Some)
    show ?thesis
    proof (cases "bs = [] \<or> SIM_INFLIGHT_PAYLOAD_MAX < length bs")
      case True
      then show ?thesis using assms by (auto simp: sim_clock_enqueue_def)
    next
      case False
      obtain t c1 where now: "sim_clock_now_ms c = (t, c1)" by fastforce
      then have c1: "ck_in_flight c1 = ck_in_flight c" using now_frame(1) [of c] by simp
      define p where "p = parse_protocol_hint ((ck_in_flight c ! i)\<lparr>fl_active := True, fl_sender := s,
        fl_receiver := r, fl_link := l, fl_launch := t, fl_deliver := t +
          (if 0 < ck_speed c1 then (if d < 0 then 0 else d) / ck_speed c1 else if d < 0 then 0 else d),
        fl_bytes := bs\<rparr>)"
      have "(ok, c') = (True, c1\<lparr>ck_in_flight := (ck_in_flight c)[i := p]\<rparr>)"
        using assms(2,3) False by (simp add: sim_clock_enqueue_def Some now c1 Let_def p_def)
      then have c': "ok" "ck_in_flight c' = (ck_in_flight c)[i := p]" by simp_all
      have p: "fl_active p" "fl_sender p = s" "fl_receiver p = r" "fl_bytes p = bs" "fl_launch p \<le> fl_deliver p"
        by (simp_all add: p_def)
      have "length (filter fl_active ((ck_in_flight c)[i := p])) = length (filter fl_active (ck_in_flight c)) + 1"
        by (rule filter_activate) (use i p assms(1) in simp_all)
      then show ?thesis
        using False cnt Some c' p i assms(1) by (auto simp: sim_clock_in_flight_count_def)
    qed
  qed
qed

theorem enqueue_schedules_witness:
  "fst (sim_clock_enqueue (0, 0) (1, 0) 0 5 [1, 2, 3] ((sim_clock_initial (\<lambda>k. (int k, 0)))\<lparr>ck_realtime := True\<rparr>))"
proof -
  let ?c = "(sim_clock_initial (\<lambda>k. (int k, 0)))\<lparr>ck_realtime := True\<rparr>"
  obtain ok c' where e: "sim_clock_enqueue (0, 0) (1, 0) 0 5 [1, 2, 3] ?c = (ok, c')" by fastforce
  from enqueue_schedules [OF _ _ e] have ok
    by (simp add: sim_clock_initial_def sim_clock_in_flight_count_def empty_slot_def)
  then show ?thesis by (simp only: e fst_conv)
qed

end
