(* ===== verification/Ethernet.thy ===== *)
theory Ethernet
  imports Address
begin

text \<open>
  Ethernet frames: \<^verbatim>\<open>layer2/ethernet.c\<close>. \<open>ethernet_to_bytes\<close> and \<open>ethernet_from_bytes\<close>
  return \<open>None\<close> where the C functions return 0. A payload array with its length is the list of
  the payload bytes; the \<^verbatim>\<open>vtable\<close> and \<^verbatim>\<open>type\<close> of the base class are the record type.
\<close>

record ethernet_frame =
  eth_dst :: mac_address
  eth_src :: mac_address
  eth_has_vlan :: bool
  eth_vlan_id :: u16
  eth_type :: u16
  eth_payload :: bytes

abbreviation ETHERNET_MAX_PAYLOAD :: nat where "ETHERNET_MAX_PAYLOAD \<equiv> 1500"
abbreviation ETHERNET_HEADER_SIZE :: nat where "ETHERNET_HEADER_SIZE \<equiv> 14"
abbreviation ETHERNET_VLAN_HEADER_SIZE :: nat where "ETHERNET_VLAN_HEADER_SIZE \<equiv> 18"
abbreviation ETHERNET_TYPE_IPV4 :: u16 where "ETHERNET_TYPE_IPV4 \<equiv> 0x0800"
abbreviation ETHERNET_TYPE_ARP :: u16 where "ETHERNET_TYPE_ARP \<equiv> 0x0806"
abbreviation ETHERNET_TYPE_VLAN :: u16 where "ETHERNET_TYPE_VLAN \<equiv> 0x8100"
abbreviation ETHERNET_VLAN_ID_MASK :: u16 where "ETHERNET_VLAN_ID_MASK \<equiv> 0x0FFF"

definition ethernet_to_bytes :: "ethernet_frame \<Rightarrow> nat \<Rightarrow> bytes option" where
  "ethernet_to_bytes f out_size =
    (let header_size = (if eth_has_vlan f then ETHERNET_VLAN_HEADER_SIZE else ETHERNET_HEADER_SIZE)
     in if ETHERNET_MAX_PAYLOAD < length (eth_payload f) \<or>
           out_size < header_size + length (eth_payload f) then None
        else Some (mac_bytes (eth_dst f) @ mac_bytes (eth_src f) @
               (if eth_has_vlan f
                then write_u16_be ETHERNET_TYPE_VLAN @ write_u16_be (eth_vlan_id f AND ETHERNET_VLAN_ID_MASK)
                else []) @
               write_u16_be (eth_type f) @ eth_payload f))"

definition ethernet_from_bytes :: "bytes \<Rightarrow> ethernet_frame option" where
  "ethernet_from_bytes raw =
    (if length raw < ETHERNET_HEADER_SIZE then None
     else
       let dst = mac_of_list raw; src = mac_of_list (drop 6 raw);
           type_or_vlan = read_u16_be raw 12
       in if type_or_vlan = ETHERNET_TYPE_VLAN
          then (if length raw < ETHERNET_VLAN_HEADER_SIZE then None
                else if ETHERNET_MAX_PAYLOAD < length raw - 18 then None
                else Some \<lparr>eth_dst = dst, eth_src = src, eth_has_vlan = True,
                       eth_vlan_id = read_u16_be raw 14 AND ETHERNET_VLAN_ID_MASK,
                       eth_type = read_u16_be raw 16, eth_payload = drop 18 raw\<rparr>)
          else if ETHERNET_MAX_PAYLOAD < length raw - 14 then None
               else Some \<lparr>eth_dst = dst, eth_src = src, eth_has_vlan = False, eth_vlan_id = 0,
                      eth_type = type_or_vlan, eth_payload = drop 14 raw\<rparr>)"

definition ethernet_init :: ethernet_frame where
  "ethernet_init = \<lparr>eth_dst = mac_zero, eth_src = mac_zero, eth_has_vlan = False, eth_vlan_id = 0,
     eth_type = 0, eth_payload = []\<rparr>"

definition ethernet_create :: "mac_address \<Rightarrow> mac_address \<Rightarrow> u16 \<Rightarrow> bytes \<Rightarrow> ethernet_frame option" where
  "ethernet_create dst src ethertype payload =
    (if ETHERNET_MAX_PAYLOAD < length payload then None
     else Some (ethernet_init\<lparr>eth_dst := dst, eth_src := src, eth_type := ethertype, eth_payload := payload\<rparr>))"

definition ethernet_set_vlan :: "ethernet_frame \<Rightarrow> u16 \<Rightarrow> ethernet_frame option" where
  "ethernet_set_vlan f vid =
    (if vid = 0 \<or> ETHERNET_VLAN_ID_MASK < vid then None
     else Some (f\<lparr>eth_has_vlan := True, eth_vlan_id := vid\<rparr>))"

definition ethernet_clear_vlan :: "ethernet_frame \<Rightarrow> ethernet_frame" where
  "ethernet_clear_vlan f = f\<lparr>eth_has_vlan := False, eth_vlan_id := 0\<rparr>"

lemmas ethernet_codec = ethernet_to_bytes_def ethernet_from_bytes_def

section \<open>Well-formed frames and the round trip\<close>

text \<open>What \<open>ethernet_create\<close>, \<open>ethernet_set_vlan\<close> and \<open>ethernet_clear_vlan\<close> build, as long as
  the type is not the tag value itself.\<close>

definition wf_frame :: "ethernet_frame \<Rightarrow> bool" where
  "wf_frame f \<longleftrightarrow> length (eth_payload f) \<le> ETHERNET_MAX_PAYLOAD \<and>
    (if eth_has_vlan f then eth_vlan_id f \<le> ETHERNET_VLAN_ID_MASK
     else eth_vlan_id f = 0 \<and> eth_type f \<noteq> ETHERNET_TYPE_VLAN)"

lemma masked_vlan_id: "vid \<le> (0x0FFF :: u16) \<Longrightarrow> vid AND 0x0FFF = vid"
proof -
  assume "vid \<le> 0x0FFF"
  then have "unat vid < 2 ^ 12" by (simp add: word_le_nat_alt)
  then have "take_bit 12 vid = vid"
    by (metis take_bit_nat_eq_self unsigned_take_bit_eq word_unat_eq_iff)
  moreover have "(0x0FFF :: u16) = mask 12" by (simp add: mask_eq_exp_minus_1)
  ultimately show ?thesis by (simp add: take_bit_eq_mask)
qed

lemma ethernet_to_bytes_Some:
  assumes "wf_frame f" "18 + length (eth_payload f) \<le> n"
  shows "\<exists>raw. ethernet_to_bytes f n = Some raw"
  using assms by (auto simp: ethernet_to_bytes_def wf_frame_def Let_def)

lemma ethernet_from_to:
  assumes wf: "wf_frame f" and out: "ethernet_to_bytes f n = Some raw"
  shows "ethernet_from_bytes raw = Some f"
proof -
  obtain dst src hv vid ty pl where f: "f = \<lparr>eth_dst = dst, eth_src = src, eth_has_vlan = hv,
      eth_vlan_id = vid, eth_type = ty, eth_payload = pl\<rparr>" by (cases f)
  obtain a b c d e g where dst: "dst = Mac a b c d e g" by (cases dst)
  obtain h i j k l m where src: "src = Mac h i j k l m" by (cases src)
  have tag: "be16 129 0 = ETHERNET_TYPE_VLAN" by (simp add: be16_def)
  show ?thesis
  proof (cases hv)
    case True
    with wf have vid: "vid AND 0x0FFF = vid" by (simp add: wf_frame_def masked_vlan_id f)
    show ?thesis
      using wf out True unfolding f dst src
      by (auto simp: ethernet_codec wf_frame_def Let_def read_u16_be_def write_u16_be_def
          mac_of_list_def vid tag split: if_splits)
  next
    case False
    then show ?thesis
      using wf out unfolding f dst src
      by (auto simp: ethernet_codec wf_frame_def Let_def read_u16_be_def write_u16_be_def
          mac_of_list_def split: if_splits)
  qed
qed

lemma ethernet_from_bytes_wf: "ethernet_from_bytes raw = Some f \<Longrightarrow> wf_frame f"
proof -
  assume f: "ethernet_from_bytes raw = Some f"
  have "v AND 0xFFF \<le> (0xFFF :: u16)" for v :: u16 by (rule word_and_le1)
  with f show ?thesis
    by (auto simp: ethernet_from_bytes_def wf_frame_def Let_def split: if_splits)
qed

lemma wf_frame_create:
  "ethernet_create dst src t p = Some f \<Longrightarrow> t \<noteq> ETHERNET_TYPE_VLAN \<Longrightarrow> wf_frame f"
  by (auto simp: ethernet_create_def wf_frame_def ethernet_init_def split: if_splits)

lemma wf_frame_set_vlan: "wf_frame f \<Longrightarrow> ethernet_set_vlan f vid = Some f' \<Longrightarrow> wf_frame f'"
  by (auto simp: ethernet_set_vlan_def wf_frame_def split: if_splits)

lemma wf_frame_clear_vlan:
  "wf_frame f \<Longrightarrow> eth_type f \<noteq> ETHERNET_TYPE_VLAN \<Longrightarrow> wf_frame (ethernet_clear_vlan f)"
  by (auto simp: ethernet_clear_vlan_def wf_frame_def split: if_splits)

end
