(* ===== verification/Switch_Table.thy ===== *)
theory Switch_Table
  imports Node Keyed_Table Ethernet
begin

text \<open>
  The state of a switch and its operations that do not send: the MAC table, the port
  configurations and the VLAN rules of \<^verbatim>\<open>layer2/switch.c\<close>. VLAN ids and ports are C \<^verbatim>\<open>int\<close>s.
\<close>

abbreviation SWITCH_DEFAULT_VLAN_ID :: int where "SWITCH_DEFAULT_VLAN_ID \<equiv> 1"
abbreviation SWITCH_MAC_TABLE_MAX_ENTRIES :: nat where "SWITCH_MAC_TABLE_MAX_ENTRIES \<equiv> 256"

datatype switch_port_mode = SWITCH_PORT_ACCESS | SWITCH_PORT_TRUNK

record switch_port_config =
  pc_mode :: switch_port_mode
  pc_vlan_id :: int

record switch_mac_entry =
  sm_vlan_id :: int
  sm_mac :: mac_address
  sm_port :: int

type_synonym switch_mac_table = "switch_mac_entry table"

record switch =
  sw_base :: node_base
  sw_ports :: "switch_port_config list"
  sw_macs :: switch_mac_table

section \<open>The MAC table\<close>

definition mac_entry_match :: "int \<Rightarrow> mac_address \<Rightarrow> switch_mac_entry \<Rightarrow> bool" where
  "mac_entry_match vlan_id mac e \<longleftrightarrow> sm_vlan_id e = vlan_id \<and> mac_equal (sm_mac e) mac"

definition switch_mac_table_find_index :: "switch_mac_table \<Rightarrow> int \<Rightarrow> mac_address \<Rightarrow> nat option" where
  "switch_mac_table_find_index t vlan_id mac = tab_find (mac_entry_match vlan_id mac) t"

definition switch_mac_table_init :: "switch_mac_table \<Rightarrow> switch_mac_table" where
  "switch_mac_table_init t = t\<lparr>tab_size := 0\<rparr>"

definition switch_mac_table_set ::
  "switch_mac_table \<Rightarrow> int \<Rightarrow> mac_address \<Rightarrow> int \<Rightarrow> bool \<times> switch_mac_table" where
  "switch_mac_table_set t vlan_id mac port_number =
    (if vlan_id < 1 \<or> port_number < 1 then (False, t)
     else tab_put (mac_entry_match vlan_id mac) (\<lambda>e. e\<lparr>sm_port := port_number\<rparr>)
       \<lparr>sm_vlan_id = vlan_id, sm_mac = mac, sm_port = port_number\<rparr> SWITCH_MAC_TABLE_MAX_ENTRIES t)"

definition switch_mac_table_remove :: "switch_mac_table \<Rightarrow> int \<Rightarrow> mac_address \<Rightarrow> bool \<times> switch_mac_table" where
  "switch_mac_table_remove t vlan_id mac = tab_remove (mac_entry_match vlan_id mac) t"

definition switch_mac_table_get :: "switch_mac_table \<Rightarrow> int \<Rightarrow> mac_address \<Rightarrow> int option" where
  "switch_mac_table_get t vlan_id mac = tab_get (mac_entry_match vlan_id mac) sm_port t"

section \<open>Ports and VLANs\<close>

definition switch_init_port_configs :: "int \<Rightarrow> switch \<Rightarrow> switch" where
  "switch_init_port_configs default_vlan_id sw =
    (let v = (if default_vlan_id < 1 then SWITCH_DEFAULT_VLAN_ID else default_vlan_id)
     in sw\<lparr>sw_ports := replicate MAX_PORT \<lparr>pc_mode = SWITCH_PORT_ACCESS, pc_vlan_id = v\<rparr>\<rparr>)"

definition valid_port :: "switch \<Rightarrow> int \<Rightarrow> bool" where
  "valid_port sw port_number \<longleftrightarrow> 1 \<le> port_number \<and> port_number \<le> int (nb_num (sw_base sw))"

abbreviation port_config :: "switch \<Rightarrow> int \<Rightarrow> switch_port_config" where
  "port_config sw p \<equiv> sw_ports sw ! nat (p - 1)"

definition switch_set_access_port :: "switch \<Rightarrow> int \<Rightarrow> int \<Rightarrow> bool \<times> switch" where
  "switch_set_access_port sw port_number vlan_id =
    (if \<not> valid_port sw port_number \<or> vlan_id < 1 then (False, sw)
     else (True, sw\<lparr>sw_ports := (sw_ports sw)[nat (port_number - 1) :=
       \<lparr>pc_mode = SWITCH_PORT_ACCESS, pc_vlan_id = vlan_id\<rparr>]\<rparr>))"

definition switch_set_trunk_port :: "switch \<Rightarrow> int \<Rightarrow> bool \<times> switch" where
  "switch_set_trunk_port sw port_number =
    (if \<not> valid_port sw port_number then (False, sw)
     else (True, sw\<lparr>sw_ports := (sw_ports sw)[nat (port_number - 1) :=
       \<lparr>pc_mode = SWITCH_PORT_TRUNK, pc_vlan_id = 0\<rparr>]\<rparr>))"

definition switch_port_allows_vlan :: "switch \<Rightarrow> int \<Rightarrow> int \<Rightarrow> bool" where
  "switch_port_allows_vlan sw port_number vlan_id =
    (if \<not> valid_port sw port_number \<or> vlan_id < 1 then False
     else if pc_mode (port_config sw port_number) = SWITCH_PORT_TRUNK then True
     else pc_vlan_id (port_config sw port_number) = vlan_id)"

definition switch_determine_ingress_vlan :: "switch \<Rightarrow> int \<Rightarrow> ethernet_frame \<Rightarrow> int option" where
  "switch_determine_ingress_vlan sw in_port frame =
    (if \<not> valid_port sw in_port then None
     else
       let config = port_config sw in_port
       in if pc_mode config = SWITCH_PORT_ACCESS then
            if eth_has_vlan frame then None
            else if 1 \<le> pc_vlan_id config then Some (pc_vlan_id config) else None
          else if \<not> eth_has_vlan frame \<or> eth_vlan_id frame < 1 then None
          else Some (int (unat (eth_vlan_id frame))))"

definition switch_learn_from_frame :: "switch \<Rightarrow> int \<Rightarrow> ethernet_frame \<Rightarrow> bool \<times> switch" where
  "switch_learn_from_frame sw in_port frame =
    (case switch_determine_ingress_vlan sw in_port frame of
       None \<Rightarrow> (False, sw)
     | Some vlan_id \<Rightarrow>
         let (ok, t) = switch_mac_table_set (sw_macs sw) vlan_id (eth_src frame) in_port
         in (ok, sw\<lparr>sw_macs := t\<rparr>))"

text \<open>The memory of a new switch is zeroed before it is initialised.\<close>

definition switch_mac_table_zero :: switch_mac_table where
  "switch_mac_table_zero = \<lparr>tab_entries = replicate SWITCH_MAC_TABLE_MAX_ENTRIES
     \<lparr>sm_vlan_id = 0, sm_mac = mac_zero, sm_port = 0\<rparr>, tab_size = 0\<rparr>"

definition switch_init_with_macs ::
  "(nat \<Rightarrow> u32) \<Rightarrow> nat \<Rightarrow> node_id \<Rightarrow> int \<Rightarrow> mac_address list option \<Rightarrow> switch \<times> nat" where
  "switch_init_with_macs rnd k node num_interfaces macs =
    (let (base, k) = node_init_with_macs rnd k node NODE_SWITCH num_interfaces macs;
         sw = \<lparr>sw_base = base, sw_ports = [], sw_macs = switch_mac_table_zero\<rparr>;
         sw = switch_init_port_configs SWITCH_DEFAULT_VLAN_ID sw
     in (sw\<lparr>sw_macs := switch_mac_table_init (sw_macs sw)\<rparr>, k))"

section \<open>The MAC table is a bounded map\<close>

abbreviation sm_key :: "switch_mac_entry \<Rightarrow> int \<times> mac_address" where
  "sm_key e \<equiv> (sm_vlan_id e, sm_mac e)"

abbreviation mac_table_inv :: "switch_mac_table \<Rightarrow> bool" where
  "mac_table_inv \<equiv> wf_table sm_key SWITCH_MAC_TABLE_MAX_ENTRIES"

lemma mac_entry_match_key: "mac_entry_match vlan_id mac = (\<lambda>e. sm_key e = (vlan_id, mac))"
  by (auto simp: mac_entry_match_def fun_eq_iff)

interpretation macs: keyed_table switch_mac_table_zero "\<lambda>t (v, m). switch_mac_table_get t v m"
  "\<lambda>t (v, m). switch_mac_table_set t v m" "\<lambda>t (v, m). switch_mac_table_remove t v m"
  SWITCH_MAC_TABLE_MAX_ENTRIES sm_key sm_port "\<lambda>a. a" "\<lambda>a p. 1 \<le> fst a \<and> 1 \<le> p"
proof unfold_locales
  fix a :: "int \<times> mac_address" and p :: int and t
  assume legal: "1 \<le> fst a \<and> 1 \<le> p"
  obtain v m where a: "a = (v, m)" by (cases a)
  show "\<exists>upd new. (case a of (v, m) \<Rightarrow> switch_mac_table_set t v m) p =
      tab_put (\<lambda>e. sm_key e = a) upd new SWITCH_MAC_TABLE_MAX_ENTRIES t \<and>
      sm_key new = a \<and> sm_port new = p \<and> (\<forall>e. sm_key e = a \<longrightarrow> sm_key (upd e) = a \<and> sm_port (upd e) = p)"
    using legal unfolding a
    by (intro exI [of _ "\<lambda>e. e\<lparr>sm_port := p\<rparr>"] exI [of _ "\<lparr>sm_vlan_id = v, sm_mac = m, sm_port = p\<rparr>"])
      (simp add: switch_mac_table_set_def mac_entry_match_key)
qed (simp_all add: switch_mac_table_zero_def switch_mac_table_get_def switch_mac_table_remove_def
    mac_entry_match_key split: prod.splits)

end
