(* ===== verification/Arp.thy ===== *)
theory Arp
  imports Address Keyed_Table
begin

text \<open>
  ARP: the messages and the table of \<^verbatim>\<open>layer2/arp.c\<close>. Table keys are the four octets of an
  address; the prefix length is stored but not compared.
\<close>

section \<open>Messages\<close>

datatype arp_opcode = ARP_OPCODE_REQUEST | ARP_OPCODE_REPLY

primrec opcode_value :: "arp_opcode \<Rightarrow> u16" where
  "opcode_value ARP_OPCODE_REQUEST = 1"
| "opcode_value ARP_OPCODE_REPLY = 2"

record arp_message =
  arp_op :: arp_opcode
  arp_sender_mac :: mac_address
  arp_sender_ip :: ip_address
  arp_target_mac :: mac_address
  arp_target_ip :: ip_address

abbreviation ARP_SERIALIZED_SIZE :: nat where "ARP_SERIALIZED_SIZE \<equiv> 28"

definition arp_wire :: "arp_message \<Rightarrow> bytes" where
  "arp_wire m =
    write_u16_be 1 @ write_u16_be 0x0800 @ [6, 4] @ write_u16_be (opcode_value (arp_op m)) @
    mac_bytes (arp_sender_mac m) @ octet_bytes (octet (arp_sender_ip m)) @
    mac_bytes (arp_target_mac m) @ octet_bytes (octet (arp_target_ip m))"

definition arp_message_to_bytes :: "arp_message \<Rightarrow> nat \<Rightarrow> bytes option" where
  "arp_message_to_bytes m out_size = (if out_size < ARP_SERIALIZED_SIZE then None else Some (arp_wire m))"

definition arp_message_from_bytes :: "bytes \<Rightarrow> arp_message option" where
  "arp_message_from_bytes raw =
    (if length raw < ARP_SERIALIZED_SIZE then None
     else if read_u16_be raw 0 \<noteq> 1 \<or> read_u16_be raw 2 \<noteq> 0x0800 \<or> raw ! 4 \<noteq> 6 \<or> raw ! 5 \<noteq> 4 then None
     else
       let opcode = read_u16_be raw 6
       in if opcode \<noteq> 1 \<and> opcode \<noteq> 2 then None
          else Some \<lparr>arp_op = (if opcode = 1 then ARP_OPCODE_REQUEST else ARP_OPCODE_REPLY),
                 arp_sender_mac = mac_of_list (drop 8 raw),
                 arp_sender_ip = \<lparr>octet = octets_of_list (drop 14 raw), prefix = 0\<rparr>,
                 arp_target_mac = mac_of_list (drop 18 raw),
                 arp_target_ip = \<lparr>octet = octets_of_list (drop 24 raw), prefix = 0\<rparr>\<rparr>)"

definition arp_message_init_request :: "mac_address \<Rightarrow> ip_address \<Rightarrow> ip_address \<Rightarrow> arp_message" where
  "arp_message_init_request sender_mac sender_ip target_ip =
    \<lparr>arp_op = ARP_OPCODE_REQUEST, arp_sender_mac = sender_mac, arp_sender_ip = sender_ip,
     arp_target_mac = mac_zero, arp_target_ip = target_ip\<rparr>"

definition arp_message_init_reply ::
  "mac_address \<Rightarrow> ip_address \<Rightarrow> mac_address \<Rightarrow> ip_address \<Rightarrow> arp_message" where
  "arp_message_init_reply sender_mac sender_ip target_mac target_ip =
    \<lparr>arp_op = ARP_OPCODE_REPLY, arp_sender_mac = sender_mac, arp_sender_ip = sender_ip,
     arp_target_mac = target_mac, arp_target_ip = target_ip\<rparr>"

definition strip_prefix :: "ip_address \<Rightarrow> ip_address" where
  "strip_prefix ip = ip\<lparr>prefix := 0\<rparr>"

lemma octet_strip_prefix [simp]: "octet (strip_prefix ip) = octet ip"
  by (simp add: strip_prefix_def)

lemma length_arp_wire [simp]: "length (arp_wire m) = 28"
  by (simp add: arp_wire_def)

text \<open>Addresses travel without their prefix length.\<close>

definition arp_received :: "arp_message \<Rightarrow> arp_message" where
  "arp_received m = m\<lparr>arp_sender_ip := strip_prefix (arp_sender_ip m),
     arp_target_ip := strip_prefix (arp_target_ip m)\<rparr>"

lemma arp_from_wire: "arp_message_from_bytes (arp_wire m @ tail) = Some (arp_received m)"
proof -
  obtain opc sm si tm ti where m: "m = \<lparr>arp_op = opc, arp_sender_mac = sm, arp_sender_ip = si,
      arp_target_mac = tm, arp_target_ip = ti\<rparr>" by (cases m)
  obtain a b c d e f where sm: "sm = Mac a b c d e f" by (cases sm)
  obtain a' b' c' d' e' f' where tm: "tm = Mac a' b' c' d' e' f'" by (cases tm)
  obtain g h i j p where si: "si = \<lparr>octet = Octets g h i j, prefix = p\<rparr>"
    by (cases si) (metis octets.exhaust)
  obtain g' h' i' j' p' where ti: "ti = \<lparr>octet = Octets g' h' i' j', prefix = p'\<rparr>"
    by (cases ti) (metis octets.exhaust)
  show ?thesis
    unfolding m sm tm si ti
    by (cases opc) (simp_all add: arp_message_from_bytes_def arp_wire_def write_u16_be_def
        read_u16_be_def be16_def Let_def mac_of_list_def octets_of_list_def arp_received_def strip_prefix_def)
qed

section \<open>The table\<close>

abbreviation ARP_TABLE_MAX_ENTRIES :: nat where "ARP_TABLE_MAX_ENTRIES \<equiv> 100"

record arp_entry =
  ae_ip :: ip_address
  ae_mac :: mac_address

type_synonym arp_table = "arp_entry table"

definition arp_match :: "ip_address \<Rightarrow> arp_entry \<Rightarrow> bool" where
  "arp_match ip e = ip_octets_equal (ae_ip e) ip"

definition arp_table_find_index :: "arp_table \<Rightarrow> ip_address \<Rightarrow> nat option" where
  "arp_table_find_index t ip = tab_find (arp_match ip) t"

definition arp_table_init :: "arp_table \<Rightarrow> arp_table" where
  "arp_table_init t = t\<lparr>tab_size := 0\<rparr>"

definition arp_table_set :: "arp_table \<Rightarrow> ip_address \<Rightarrow> mac_address \<Rightarrow> bool \<times> arp_table" where
  "arp_table_set t ip mac =
    tab_put (arp_match ip) (\<lambda>e. e\<lparr>ae_mac := mac\<rparr>) \<lparr>ae_ip = ip, ae_mac = mac\<rparr> ARP_TABLE_MAX_ENTRIES t"

definition arp_table_remove :: "arp_table \<Rightarrow> ip_address \<Rightarrow> bool \<times> arp_table" where
  "arp_table_remove t ip = tab_remove (arp_match ip) t"

definition arp_table_get :: "arp_table \<Rightarrow> ip_address \<Rightarrow> mac_address option" where
  "arp_table_get t ip = tab_get (arp_match ip) ae_mac t"

text \<open>The table of a freshly allocated (zeroed) node.\<close>

definition arp_table_zero :: arp_table where
  "arp_table_zero = \<lparr>tab_entries = replicate ARP_TABLE_MAX_ENTRIES \<lparr>ae_ip = zero_ip, ae_mac = mac_zero\<rparr>, tab_size = 0\<rparr>"

lemma arp_match_key: "arp_match ip = (\<lambda>e. octet (ae_ip e) = octet ip)"
  by (simp add: arp_match_def fun_eq_iff)

text \<open>The keys in use are distinct.\<close>

abbreviation arp_inv :: "arp_table \<Rightarrow> bool" where
  "arp_inv \<equiv> wf_table (\<lambda>e. octet (ae_ip e)) ARP_TABLE_MAX_ENTRIES"

interpretation arp: keyed_table arp_table_zero arp_table_get arp_table_set arp_table_remove
  ARP_TABLE_MAX_ENTRIES "\<lambda>e. octet (ae_ip e)" ae_mac octet "\<lambda>_ _. True"
proof unfold_locales
  show "\<exists>upd new. arp_table_set t a v = tab_put (\<lambda>e. octet (ae_ip e) = octet a) upd new ARP_TABLE_MAX_ENTRIES t \<and>
      octet (ae_ip new) = octet a \<and> ae_mac new = v \<and>
      (\<forall>e. octet (ae_ip e) = octet a \<longrightarrow> octet (ae_ip (upd e)) = octet a \<and> ae_mac (upd e) = v)" for a v t
    by (intro exI [of _ "\<lambda>e. e\<lparr>ae_mac := v\<rparr>"] exI [of _ "\<lparr>ae_ip = a, ae_mac = v\<rparr>"])
      (simp add: arp_table_set_def arp_match_key)
qed (simp_all add: arp_table_zero_def arp_table_get_def arp_table_remove_def arp_match_key)

end
