(* ===== verification/Udp.thy ===== *)
theory Udp
  imports Ipv4
begin

text \<open>
  UDP datagrams: \<^verbatim>\<open>layer4/udp.c\<close>. The serialiser writes the checksum field as it is, so a
  sender serialises once with a zero field, computes the checksum over the pseudo-header and the
  result, and serialises again.
\<close>

record udp_datagram =
  udp_src_port :: u16
  udp_dst_port :: u16
  udp_length :: u16
  udp_checksum :: u16
  udp_payload :: bytes

abbreviation UDP_HEADER_SIZE :: nat where "UDP_HEADER_SIZE \<equiv> 8"
abbreviation UDP_MAX_PAYLOAD :: nat where "UDP_MAX_PAYLOAD \<equiv> 1472"

definition udp_init :: udp_datagram where
  "udp_init = \<lparr>udp_src_port = 0, udp_dst_port = 0, udp_length = 8, udp_checksum = 0, udp_payload = []\<rparr>"

definition udp_create :: "u16 \<Rightarrow> u16 \<Rightarrow> bytes \<Rightarrow> udp_datagram option" where
  "udp_create src_port dst_port payload =
    (if UDP_MAX_PAYLOAD < length payload then None
     else Some (udp_init\<lparr>udp_src_port := src_port, udp_dst_port := dst_port,
       udp_length := of_nat (UDP_HEADER_SIZE + length payload), udp_payload := payload\<rparr>))"

definition udp_compute_checksum :: "bytes \<Rightarrow> ip_address \<Rightarrow> ip_address \<Rightarrow> u16" where
  "udp_compute_checksum raw src_ip dst_ip =
    pseudo_checksum 17 (octet_bytes (octet src_ip)) (octet_bytes (octet dst_ip)) raw"

definition udp_wire :: "udp_datagram \<Rightarrow> bytes" where
  "udp_wire d = write_u16_be (udp_src_port d) @ write_u16_be (udp_dst_port d) @
     write_u16_be (udp_length d) @ write_u16_be (udp_checksum d) @ udp_payload d"

definition udp_to_bytes :: "udp_datagram \<Rightarrow> nat \<Rightarrow> bytes option" where
  "udp_to_bytes d out_size =
    (if UDP_MAX_PAYLOAD < length (udp_payload d) then None
     else if out_size < UDP_HEADER_SIZE + length (udp_payload d) then None
     else Some (udp_wire d))"

definition udp_from_bytes :: "bytes \<Rightarrow> udp_datagram option" where
  "udp_from_bytes raw =
    (if length raw < UDP_HEADER_SIZE then None
     else
       let len = read_u16_be raw 4
       in if unat len < UDP_HEADER_SIZE \<or> length raw < unat len then None
          else if UDP_MAX_PAYLOAD < unat len - UDP_HEADER_SIZE then None
          else Some \<lparr>udp_src_port = read_u16_be raw 0, udp_dst_port = read_u16_be raw 2,
                 udp_length = len, udp_checksum = read_u16_be raw 6,
                 udp_payload = take (unat len - UDP_HEADER_SIZE) (drop UDP_HEADER_SIZE raw)\<rparr>)"

definition udp_validate_checksum :: "udp_datagram \<Rightarrow> ip_address \<Rightarrow> ip_address \<Rightarrow> bool" where
  "udp_validate_checksum d src_ip dst_ip =
    (case udp_to_bytes d (UDP_HEADER_SIZE + UDP_MAX_PAYLOAD) of
       None \<Rightarrow> False
     | Some raw \<Rightarrow> if length raw < UDP_HEADER_SIZE then False
                   else udp_compute_checksum (patch_u16_be 6 (udp_checksum d) raw) src_ip dst_ip = 0)"

text \<open>The two-step send: serialise, compute the checksum, store it in the datagram.\<close>

definition udp_seal :: "udp_datagram \<Rightarrow> ip_address \<Rightarrow> ip_address \<Rightarrow> udp_datagram" where
  "udp_seal d src_ip dst_ip = d\<lparr>udp_checksum := udp_compute_checksum (udp_wire d) src_ip dst_ip\<rparr>"

section \<open>Serialised datagrams\<close>

lemma length_udp_wire [simp]: "length (udp_wire d) = 8 + length (udp_payload d)"
  by (simp add: udp_wire_def)

lemma udp_to_bytes_eq:
  "length (udp_payload d) \<le> UDP_MAX_PAYLOAD \<Longrightarrow> 8 + length (udp_payload d) \<le> n \<Longrightarrow>
    udp_to_bytes d n = Some (udp_wire d)"
  by (simp add: udp_to_bytes_def)

lemma udp_wire_patch: "patch_u16_be 6 v (udp_wire d) = udp_wire (d\<lparr>udp_checksum := v\<rparr>)"
  by (simp add: udp_wire_def patch_u16_be_def write_u16_be_def)

lemma udp_validate_iff:
  "udp_validate_checksum d src dst \<longleftrightarrow> length (udp_payload d) \<le> UDP_MAX_PAYLOAD \<and>
    udp_compute_checksum (udp_wire d) src dst = 0"
proof (cases "length (udp_payload d) \<le> UDP_MAX_PAYLOAD")
  case True
  then have "udp_to_bytes d (8 + 1472) = Some (udp_wire d)" by (intro udp_to_bytes_eq) simp_all
  then show ?thesis using True by (simp add: udp_validate_checksum_def udp_wire_patch)
next
  case False
  then show ?thesis by (simp add: udp_validate_checksum_def udp_to_bytes_def)
qed

definition wf_udp :: "udp_datagram \<Rightarrow> bool" where
  "wf_udp d \<longleftrightarrow> length (udp_payload d) \<le> UDP_MAX_PAYLOAD \<and> unat (udp_length d) = 8 + length (udp_payload d)"

lemma wf_udp_create: "udp_create s d p = Some u \<Longrightarrow> wf_udp u"
  by (auto simp: udp_create_def wf_udp_def unat_of_nat split: if_splits simp del: of_nat_add)

lemma udp_from_wire: "wf_udp d \<Longrightarrow> udp_from_bytes (udp_wire d @ tail) = Some d"
  by (cases d) (auto simp: udp_from_bytes_def udp_wire_def wf_udp_def Let_def read_u16_be_def write_u16_be_def)

lemma wf_udp_checksum [simp]: "wf_udp (d\<lparr>udp_checksum := v\<rparr>) = wf_udp d"
  by (simp add: wf_udp_def)

lemma udp_seal_valid:
  assumes "udp_checksum d = 0" "length (udp_payload d) \<le> UDP_MAX_PAYLOAD"
  shows "udp_validate_checksum (udp_seal d src dst) src dst"
proof -
  have z: "udp_wire d ! 6 = 0" "udp_wire d ! (6 + 1) = 0"
    using assms by (simp_all add: udp_wire_def write_u16_be_def)
  have "udp_compute_checksum (patch_u16_be 6 (udp_compute_checksum (udp_wire d) src dst) (udp_wire d)) src dst = 0"
    unfolding udp_compute_checksum_def by (rule pseudo_checksum_completes) (use z in simp_all)
  then show ?thesis
    using assms(2) by (simp add: udp_validate_iff udp_seal_def udp_wire_patch)
qed

end
