(* ===== verification/Icmp.thy ===== *)
theory Icmp
  imports Ipv4
begin

text \<open>
  ICMP messages: \<^verbatim>\<open>layer3/icmp.c\<close>. As for IPv4, the serialiser recomputes the checksum, and
  validation serialises the parsed message again with the received checksum in place.
\<close>

record icmp_message =
  icmp_type :: u8
  icmp_code :: u8
  icmp_checksum :: u16
  icmp_identifier :: u16
  icmp_sequence :: u16
  icmp_payload :: bytes

abbreviation ICMP_ECHO_REPLY :: u8 where "ICMP_ECHO_REPLY \<equiv> 0"
abbreviation ICMP_DEST_UNREACHABLE :: u8 where "ICMP_DEST_UNREACHABLE \<equiv> 3"
abbreviation ICMP_ECHO_REQUEST :: u8 where "ICMP_ECHO_REQUEST \<equiv> 8"
abbreviation ICMP_TIME_EXCEEDED :: u8 where "ICMP_TIME_EXCEEDED \<equiv> 11"
abbreviation ICMP_MAX_PAYLOAD :: nat where "ICMP_MAX_PAYLOAD \<equiv> 1472"
abbreviation ICMP_HEADER_SIZE :: nat where "ICMP_HEADER_SIZE \<equiv> 8"

definition icmp_init :: icmp_message where
  "icmp_init = \<lparr>icmp_type = 0, icmp_code = 0, icmp_checksum = 0, icmp_identifier = 0,
     icmp_sequence = 0, icmp_payload = []\<rparr>"

definition icmp_create :: "u8 \<Rightarrow> u8 \<Rightarrow> u16 \<Rightarrow> u16 \<Rightarrow> bytes \<Rightarrow> icmp_message option" where
  "icmp_create ty code identifier sequence payload =
    (if ICMP_MAX_PAYLOAD < length payload then None
     else Some (icmp_init\<lparr>icmp_type := ty, icmp_code := code, icmp_identifier := identifier,
       icmp_sequence := sequence, icmp_payload := payload\<rparr>))"

definition icmp_compute_checksum :: "bytes \<Rightarrow> u16" where
  "icmp_compute_checksum raw = compute_checksum raw"

text \<open>The message with a zero checksum field.\<close>

definition icmp_body :: "icmp_message \<Rightarrow> bytes" where
  "icmp_body m = [icmp_type m, icmp_code m] @ write_u16_be 0 @ write_u16_be (icmp_identifier m) @
     write_u16_be (icmp_sequence m) @ icmp_payload m"

definition icmp_to_bytes :: "icmp_message \<Rightarrow> nat \<Rightarrow> bytes option" where
  "icmp_to_bytes m out_size =
    (if ICMP_MAX_PAYLOAD < length (icmp_payload m) then None
     else
       let total_len = ICMP_HEADER_SIZE + length (icmp_payload m)
       in if out_size < total_len then None
          else let out = icmp_body m; checksum = icmp_compute_checksum out
               in Some (patch_u16_be 2 checksum out))"

definition icmp_from_bytes :: "bytes \<Rightarrow> icmp_message option" where
  "icmp_from_bytes raw =
    (if length raw < ICMP_HEADER_SIZE then None
     else if ICMP_MAX_PAYLOAD < length raw - ICMP_HEADER_SIZE then None
     else Some \<lparr>icmp_type = raw ! 0, icmp_code = raw ! 1, icmp_checksum = read_u16_be raw 2,
            icmp_identifier = read_u16_be raw 4, icmp_sequence = read_u16_be raw 6,
            icmp_payload = drop ICMP_HEADER_SIZE raw\<rparr>)"

definition icmp_validate_checksum :: "icmp_message \<Rightarrow> bool" where
  "icmp_validate_checksum m =
    (case icmp_to_bytes m (ICMP_HEADER_SIZE + ICMP_MAX_PAYLOAD) of
       None \<Rightarrow> False
     | Some raw \<Rightarrow> if length raw < ICMP_HEADER_SIZE then False
                   else icmp_compute_checksum (patch_u16_be 2 (icmp_checksum m) raw) = 0)"

section \<open>Serialised messages\<close>

lemma length_icmp_body [simp]: "length (icmp_body m) = 8 + length (icmp_payload m)"
  by (simp add: icmp_body_def)

lemma icmp_body_checksum_field: "icmp_body m ! 2 = 0" "icmp_body m ! 3 = 0"
  by (simp_all add: icmp_body_def write_u16_be_def)

definition icmp_checksum_of :: "icmp_message \<Rightarrow> u16" where
  "icmp_checksum_of m = compute_checksum (icmp_body m)"

definition icmp_wire :: "icmp_message \<Rightarrow> bytes" where
  "icmp_wire m = patch_u16_be 2 (icmp_checksum_of m) (icmp_body m)"

lemma length_icmp_wire [simp]: "length (icmp_wire m) = 8 + length (icmp_payload m)"
  by (simp add: icmp_wire_def)

lemma icmp_to_bytes_eq:
  "length (icmp_payload m) \<le> ICMP_MAX_PAYLOAD \<Longrightarrow> 8 + length (icmp_payload m) \<le> n \<Longrightarrow>
    icmp_to_bytes m n = Some (icmp_wire m)"
  by (simp add: icmp_to_bytes_def icmp_wire_def icmp_checksum_of_def icmp_compute_checksum_def Let_def)

lemma icmp_to_bytes_SomeD:
  "icmp_to_bytes m n = Some raw \<Longrightarrow> length (icmp_payload m) \<le> ICMP_MAX_PAYLOAD \<and> raw = icmp_wire m"
  by (auto simp: icmp_to_bytes_def icmp_wire_def icmp_checksum_of_def icmp_compute_checksum_def Let_def
      split: if_splits)

lemma icmp_validate_iff:
  "icmp_validate_checksum m \<longleftrightarrow> length (icmp_payload m) \<le> ICMP_MAX_PAYLOAD \<and>
    compute_checksum (patch_u16_be 2 (icmp_checksum m) (icmp_body m)) = 0"
proof (cases "length (icmp_payload m) \<le> ICMP_MAX_PAYLOAD")
  case True
  then have "icmp_to_bytes m (8 + 1472) = Some (icmp_wire m)"
    by (intro icmp_to_bytes_eq) simp_all
  then show ?thesis
    using True by (simp add: icmp_validate_checksum_def icmp_wire_def icmp_compute_checksum_def)
next
  case False
  then show ?thesis by (simp add: icmp_validate_checksum_def icmp_to_bytes_def)
qed

lemma icmp_from_wire:
  assumes "length (icmp_payload m) \<le> ICMP_MAX_PAYLOAD"
  shows "icmp_from_bytes (patch_u16_be 2 v (icmp_body m)) = Some (m\<lparr>icmp_checksum := v\<rparr>)"
  using assms
  by (cases m) (simp add: icmp_from_bytes_def icmp_body_def patch_u16_be_def write_u16_be_def read_u16_be_def)

lemma icmp_from_to:
  assumes "icmp_to_bytes m n = Some raw"
  shows "icmp_from_bytes raw = Some (m\<lparr>icmp_checksum := icmp_checksum_of m\<rparr>)"
  using icmp_to_bytes_SomeD [OF assms] by (simp add: icmp_wire_def icmp_from_wire)

lemma icmp_body_checksum [simp]: "icmp_body (m\<lparr>icmp_checksum := v\<rparr>) = icmp_body m"
  by (simp add: icmp_body_def)

lemma icmp_wire_valid:
  assumes "length (icmp_payload m) \<le> ICMP_MAX_PAYLOAD"
  shows "icmp_validate_checksum (m\<lparr>icmp_checksum := icmp_checksum_of m\<rparr>)"
proof -
  have "compute_checksum (patch_u16_be 2 (compute_checksum (icmp_body m)) (icmp_body m)) = 0"
    by (rule compute_checksum_completes) (simp_all add: icmp_body_checksum_field)
  then show ?thesis using assms by (simp add: icmp_validate_iff icmp_checksum_of_def)
qed

text \<open>Every byte of a message is summed, so a message with one byte changed does not validate.\<close>

lemma icmp_validate_raw:
  assumes "icmp_from_bytes raw = Some m"
  shows "icmp_validate_checksum m \<longleftrightarrow> compute_checksum raw = 0"
proof -
  have l: "8 \<le> length raw" "length raw \<le> 1480" using assms by (auto simp: icmp_from_bytes_def split: if_splits)
  then obtain a b c d e f g h r where raw: "raw = a # b # c # d # e # f # g # h # r"
    by (auto simp: numeral_eq_Suc Suc_le_length_iff)
  have "patch_u16_be 2 (icmp_checksum m) (icmp_body m) = raw" "length (icmp_payload m) \<le> ICMP_MAX_PAYLOAD"
    using assms l unfolding raw
    by (auto simp: icmp_from_bytes_def icmp_body_def patch_u16_be_def write_u16_be_def read_u16_be_def split: if_splits)
  then show ?thesis by (simp add: icmp_validate_iff)
qed

end
