(* ===== verification/Host_State.thy ===== *)
theory Host_State
  imports Node Ethernet Arp Ring Udp Icmp Tcp_Socket
begin

text \<open>
  The state of a host and its operations that do not send: \<^verbatim>\<open>layer2/host.h\<close> and the queue and
  table operations of \<^verbatim>\<open>layer2/host.c\<close>.
\<close>

abbreviation HOST_PENDING_QUEUE_MAX_ENTRIES :: nat where "HOST_PENDING_QUEUE_MAX_ENTRIES \<equiv> 64"
abbreviation HOST_ARP_MAX_ATTEMPTS :: nat where "HOST_ARP_MAX_ATTEMPTS \<equiv> 3"
abbreviation HOST_ARP_RETRY_INTERVAL_MS :: real where "HOST_ARP_RETRY_INTERVAL_MS \<equiv> 1000"

record host_pending =
  hp_target :: ip_address
  hp_ethertype :: u16
  hp_payload :: bytes
  hp_attempts :: nat
  hp_last :: real

record host =
  h_base :: node_base
  h_ip :: ip_address
  h_gateway :: ip_address
  h_has_ip :: bool
  h_icmp_type :: u8
  h_icmp_code :: u8
  h_icmp_source :: ip_address
  h_icmp_sequence :: u16
  h_has_icmp :: bool
  h_icmp_sent_at :: real
  h_icmp_in_flight :: bool
  h_icmp_rtt :: real
  h_arp :: arp_table
  h_queue :: "host_pending ring"
  h_tcp :: "tcp_socket list"
  h_last_udp :: udp_datagram
  h_last_udp_src :: ip_address
  h_has_udp :: bool
  h_last_tcp :: tcp_segment
  h_has_tcp :: bool
  h_tcp_data_ready :: bool
  h_next_tcp_port :: u16
  h_magi_fd :: int

definition host_pending_queue_init :: "host_pending ring \<Rightarrow> host_pending ring" where
  "host_pending_queue_init q = ring_reset q"

definition zero_pending :: host_pending where
  "zero_pending = \<lparr>hp_target = zero_ip, hp_ethertype = 0, hp_payload = [], hp_attempts = 0, hp_last = 0\<rparr>"

definition zero_host_queue :: "host_pending ring" where
  "zero_host_queue = \<lparr>ring_items = replicate HOST_PENDING_QUEUE_MAX_ENTRIES zero_pending, ring_head = 0,
     ring_tail = 0, ring_size = 0\<rparr>"

text \<open>A host in zeroed memory, initialised.\<close>

definition host_init_with_macs ::
  "(nat \<Rightarrow> u32) \<Rightarrow> nat \<Rightarrow> node_id \<Rightarrow> int \<Rightarrow> mac_address list option \<Rightarrow> host \<times> nat" where
  "host_init_with_macs rnd k node num_interfaces macs =
    (let (base, k) = node_init_with_macs rnd k node NODE_HOST num_interfaces macs
     in (\<lparr>h_base = base, h_ip = zero_ip, h_gateway = zero_ip, h_has_ip = False, h_icmp_type = 0,
          h_icmp_code = 0, h_icmp_source = zero_ip, h_icmp_sequence = 0, h_has_icmp = False,
          h_icmp_sent_at = 0, h_icmp_in_flight = False, h_icmp_rtt = 0,
          h_arp = arp_table_init arp_table_zero, h_queue = host_pending_queue_init zero_host_queue,
          h_tcp = tcp_socket_init TCP_MAX_SOCKETS,
          h_last_udp = udp_init\<lparr>udp_length := 0\<rparr>,
          h_last_udp_src = zero_ip, h_has_udp = False,
          h_last_tcp = tcp_init\<lparr>seg_data_offset := 0, seg_window := 0\<rparr>, h_has_tcp = False,
          h_tcp_data_ready = False, h_next_tcp_port = 0, h_magi_fd = - 1\<rparr>, k))"

definition host_is_same_subnet :: "host \<Rightarrow> ip_address \<Rightarrow> bool" where
  "host_is_same_subnet h target_ip =
    (if \<not> h_has_ip h then False
     else
       let mask = ip_prefix_to_mask (prefix (h_ip h))
       in ip_to_u32 (h_ip h) AND mask = ip_to_u32 target_ip AND mask)"

section \<open>The pending queue\<close>

definition host_queue_pending_packet_with_arp_state ::
  "host \<Rightarrow> ip_address \<Rightarrow> u16 \<Rightarrow> bytes \<Rightarrow> nat \<Rightarrow> real \<Rightarrow> bool \<times> host" where
  "host_queue_pending_packet_with_arp_state h target_ip ethertype payload arp_attempts arp_last_attempt_ms =
    (if ETHERNET_MAX_PAYLOAD < length payload then (False, h)
     else
       let (ok, q) = ring_push HOST_PENDING_QUEUE_MAX_ENTRIES
             \<lparr>hp_target = target_ip, hp_ethertype = ethertype, hp_payload = payload,
              hp_attempts = arp_attempts, hp_last = arp_last_attempt_ms\<rparr> (h_queue h)
       in (ok, h\<lparr>h_queue := q\<rparr>))"

definition host_queue_pending_packet :: "host \<Rightarrow> ip_address \<Rightarrow> u16 \<Rightarrow> bytes \<Rightarrow> bool \<times> host" where
  "host_queue_pending_packet h target_ip ethertype payload =
    host_queue_pending_packet_with_arp_state h target_ip ethertype payload 0 0"

definition waits_for :: "ip_address \<Rightarrow> host_pending \<Rightarrow> bool" where
  "waits_for ip p = ip_octets_equal (hp_target p) ip"

definition host_dequeue_pending_packet_for_ip :: "host \<Rightarrow> ip_address \<Rightarrow> host_pending option \<times> host" where
  "host_dequeue_pending_packet_for_ip h target_ip =
    (let (r, q) = ring_dequeue HOST_PENDING_QUEUE_MAX_ENTRIES (waits_for target_ip) (h_queue h)
     in (r, h\<lparr>h_queue := q\<rparr>))"

definition host_pending_count_for_ip :: "host \<Rightarrow> ip_address \<Rightarrow> nat" where
  "host_pending_count_for_ip h target_ip =
    ring_count HOST_PENDING_QUEUE_MAX_ENTRIES (waits_for target_ip) (h_queue h)"

definition host_find_pending_for_ip :: "host \<Rightarrow> ip_address \<Rightarrow> host_pending option" where
  "host_find_pending_for_ip h target_ip =
    ring_find HOST_PENDING_QUEUE_MAX_ENTRIES (waits_for target_ip) (h_queue h)"

definition host_set_arp_attempt_for_ip :: "host \<Rightarrow> ip_address \<Rightarrow> nat \<Rightarrow> real \<Rightarrow> host" where
  "host_set_arp_attempt_for_ip h target_ip arp_attempts attempt_ms =
    h\<lparr>h_queue := ring_update HOST_PENDING_QUEUE_MAX_ENTRIES (waits_for target_ip)
      (\<lambda>p. p\<lparr>hp_attempts := arp_attempts, hp_last := attempt_ms\<rparr>) (h_queue h)\<rparr>"

text \<open>The first packet whose last request is too long ago.\<close>

definition host_find_due :: "host \<Rightarrow> real \<Rightarrow> host_pending option" where
  "host_find_due h now_ms =
    ring_find HOST_PENDING_QUEUE_MAX_ENTRIES
      (\<lambda>p. 0 < hp_attempts p \<and> hp_last p + HOST_ARP_RETRY_INTERVAL_MS \<le> now_ms) (h_queue h)"

definition host_learn_arp :: "host \<Rightarrow> arp_message \<Rightarrow> bool \<times> host" where
  "host_learn_arp h m =
    (let (ok, t) = arp_table_set (h_arp h) (arp_sender_ip m) (arp_sender_mac m) in (ok, h\<lparr>h_arp := t\<rparr>))"

definition host_select_tcp_source_port :: "host \<Rightarrow> ip_address \<Rightarrow> u16 \<Rightarrow> u16 \<Rightarrow> u16 \<times> host" where
  "host_select_tcp_source_port h remote_ip remote_port initial_preferred =
    (let candidate = (if h_next_tcp_port h \<noteq> 0 then h_next_tcp_port h else initial_preferred);
         candidate = tcp_socket_select_source_port (h_tcp h) remote_ip remote_port candidate
     in if candidate \<noteq> 0
        then (candidate, h\<lparr>h_next_tcp_port := (if candidate = 65535 then 1024 else candidate + 1)\<rparr>)
        else (candidate, h))"

section \<open>The contract of the queue\<close>

lemma zero_host_queue_wf: "wf_ring HOST_PENDING_QUEUE_MAX_ENTRIES zero_host_queue"
    "ring_list HOST_PENDING_QUEUE_MAX_ENTRIES zero_host_queue = []"
  by (simp_all add: wf_ring_def zero_host_queue_def ring_list_def)

interpretation hostq: pending_queue zero_host_queue
  "\<lambda>q e. ring_push HOST_PENDING_QUEUE_MAX_ENTRIES e q"
  "\<lambda>q k. ring_dequeue HOST_PENDING_QUEUE_MAX_ENTRIES (\<lambda>p. octet (hp_target p) = k) q"
  "ring_list HOST_PENDING_QUEUE_MAX_ENTRIES" "\<lambda>p. octet (hp_target p)" HOST_PENDING_QUEUE_MAX_ENTRIES
  "wf_ring HOST_PENDING_QUEUE_MAX_ENTRIES"
  by unfold_locales (simp_all add: ring_push_list ring_dequeue_list zero_host_queue_wf)

lemma waits_for_key: "waits_for ip = (\<lambda>p. octet (hp_target p) = octet ip)"
  by (simp add: waits_for_def fun_eq_iff)

abbreviation host_waiting :: "host \<Rightarrow> host_pending list" where
  "host_waiting h \<equiv> ring_list HOST_PENDING_QUEUE_MAX_ENTRIES (h_queue h)"

definition wf_host :: "host \<Rightarrow> bool" where
  "wf_host h \<longleftrightarrow> wf_node (h_base h) \<and> wf_ring HOST_PENDING_QUEUE_MAX_ENTRIES (h_queue h) \<and>
    arp_inv (h_arp h) \<and> length (h_tcp h) = TCP_MAX_SOCKETS"

lemma host_init_wf: "wf_host (fst (host_init_with_macs rnd k node num macs))"
proof -
  obtain base k' where b: "node_init_with_macs rnd k node NODE_HOST num macs = (base, k')" by fastforce
  then have "wf_node base" using node_init_wf [of rnd k node NODE_HOST num macs] by simp
  moreover have "arp_table_init arp_table_zero = arp_table_zero" by (simp add: arp_table_init_def arp_table_zero_def)
  moreover have "host_pending_queue_init zero_host_queue = zero_host_queue"
    by (simp add: host_pending_queue_init_def ring_reset_def zero_host_queue_def)
  ultimately show ?thesis
    using hostq.inv_empty arp.inv_empty
    by (simp add: host_init_with_macs_def b wf_host_def tcp_socket_init_def)
qed

end
