(* ===== verification/Router_State.thy ===== *)
theory Router_State
  imports Node Arp Ring Ipv4 Icmp
begin

text \<open>
  The state of a router and its operations that do not send: \<^verbatim>\<open>layer3/router.h\<close>, the routing
  table, the ARP table with the VLAN of each entry, and the queue of packets waiting for an
  address. The routing table is the list of its entries in use; nothing is ever removed from it.
\<close>

abbreviation ROUTER_MAX_ROUTES :: nat where "ROUTER_MAX_ROUTES \<equiv> 128"
abbreviation ROUTER_PENDING_QUEUE_MAX_ENTRIES :: nat where "ROUTER_PENDING_QUEUE_MAX_ENTRIES \<equiv> 128"
abbreviation ROUTER_ARP_MAX_ATTEMPTS :: nat where "ROUTER_ARP_MAX_ATTEMPTS \<equiv> 3"
abbreviation ROUTER_ARP_RETRY_INTERVAL_MS :: real where "ROUTER_ARP_RETRY_INTERVAL_MS \<equiv> 1000"

record router_interface_address =
  ri_port :: nat
  ri_ip :: ip_address
  ri_has_ip :: bool

record route =
  rt_destination :: ip_address
  rt_next_hop :: ip_address
  rt_out_interface :: int

record router_pending =
  rp_next_hop :: ip_address
  rp_out_interface :: int
  rp_vlan_id :: int
  rp_packet :: ipv4_packet
  rp_attempts :: nat
  rp_last :: real

record router =
  r_base :: node_base
  r_ips :: "router_interface_address list"
  r_routes :: "route list"
  r_arp :: arp_table
  r_arp_vlans :: "int list"
  r_vlans :: "int list"
  r_queue :: "router_pending ring"

definition router_pending_queue_init :: "router_pending ring \<Rightarrow> router_pending ring" where
  "router_pending_queue_init q = ring_reset q"

definition zero_router_queue :: "router_pending ring" where
  "zero_router_queue = \<lparr>ring_items = replicate ROUTER_PENDING_QUEUE_MAX_ENTRIES
      \<lparr>rp_next_hop = zero_ip, rp_out_interface = 0, rp_vlan_id = 0, rp_packet = ipv4_init,
       rp_attempts = 0, rp_last = 0\<rparr>,
     ring_head = 0, ring_tail = 0, ring_size = 0\<rparr>"

definition router_init_with_macs ::
  "(nat \<Rightarrow> u32) \<Rightarrow> nat \<Rightarrow> node_id \<Rightarrow> int \<Rightarrow> mac_address list option \<Rightarrow> router \<times> nat" where
  "router_init_with_macs rnd k node num_interfaces macs =
    (let (base, k) = node_init_with_macs rnd k node NODE_ROUTER num_interfaces macs
     in (\<lparr>r_base = base,
          r_ips = map (\<lambda>i. \<lparr>ri_port = i + 1, ri_ip = zero_ip, ri_has_ip = False\<rparr>) [0..<MAX_PORT],
          r_routes = [], r_arp = arp_table_init arp_table_zero,
          r_arp_vlans = replicate ARP_TABLE_MAX_ENTRIES 0, r_vlans = replicate MAX_PORT 0,
          r_queue = router_pending_queue_init zero_router_queue\<rparr>, k))"

section \<open>Addresses of the router\<close>

definition router_arp_index_for_ip :: "router \<Rightarrow> ip_address \<Rightarrow> nat option" where
  "router_arp_index_for_ip r ip = tab_find (arp_match ip) (r_arp r)"

definition router_vlan_for_ip :: "router \<Rightarrow> ip_address \<Rightarrow> int \<Rightarrow> int" where
  "router_vlan_for_ip r ip fallback_vlan =
    (case router_arp_index_for_ip r ip of
       Some i \<Rightarrow> if 0 < r_arp_vlans r ! i then r_arp_vlans r ! i else fallback_vlan
     | None \<Rightarrow> fallback_vlan)"

definition router_has_interface_ip :: "router \<Rightarrow> ip_address \<Rightarrow> nat option" where
  "router_has_interface_ip r ip =
    first_index (\<lambda>i. ri_has_ip (r_ips r ! i) \<and> ip_octets_equal (ri_ip (r_ips r ! i)) ip) (nb_num (r_base r))"

definition router_port_ok :: "router \<Rightarrow> int \<Rightarrow> bool" where
  "router_port_ok r port \<longleftrightarrow> 1 \<le> port \<and> port \<le> int (nb_num (r_base r))"

definition router_interface_ip_or_zero :: "router \<Rightarrow> int \<Rightarrow> ip_address" where
  "router_interface_ip_or_zero r port =
    (if router_port_ok r port \<and> ri_has_ip (r_ips r ! nat (port - 1)) then ri_ip (r_ips r ! nat (port - 1))
     else ip_init (Octets 0 0 0 0) 0)"

section \<open>The routing table\<close>

definition router_add_route :: "router \<Rightarrow> ip_address \<Rightarrow> ip_address \<Rightarrow> int \<Rightarrow> bool \<times> router" where
  "router_add_route r destination next_hop out_interface =
    (if \<not> router_port_ok r out_interface \<or> 32 < prefix destination then (False, r)
     else
       let destination = ip_network_address destination
       in if list_ex (\<lambda>e. rt_out_interface e = out_interface \<and> prefix (rt_destination e) = prefix destination \<and>
              ip_octets_equal (rt_destination e) destination \<and> ip_octets_equal (rt_next_hop e) next_hop) (r_routes r)
          then (True, r)
          else if ROUTER_MAX_ROUTES \<le> length (r_routes r) then (False, r)
          else (True, r\<lparr>r_routes := r_routes r @
            [\<lparr>rt_destination = destination, rt_next_hop = next_hop, rt_out_interface = out_interface\<rparr>]\<rparr>))"

fun add_direct_routes :: "nat list \<Rightarrow> router \<Rightarrow> nat \<Rightarrow> nat \<times> router" where
  "add_direct_routes [] r added = (added, r)"
| "add_direct_routes (i # is) r added =
    (if ri_has_ip (r_ips r ! i) then
       let (ok, r') = router_add_route r (ri_ip (r_ips r ! i)) (ip_init (Octets 0 0 0 0) 0) (int i + 1)
       in add_direct_routes is r' (if ok then added + 1 else added)
     else add_direct_routes is r added)"

definition router_add_direct_routes :: "router \<Rightarrow> nat \<times> router" where
  "router_add_direct_routes r = add_direct_routes [0..<nb_num (r_base r)] r 0"

definition route_matches :: "u32 \<Rightarrow> route \<Rightarrow> bool" where
  "route_matches dst_value e \<longleftrightarrow>
    (let mask = ip_prefix_to_mask (prefix (rt_destination e))
     in dst_value AND mask = ip_to_u32 (rt_destination e) AND mask)"

fun route_search :: "u32 \<Rightarrow> route list \<Rightarrow> route option \<Rightarrow> int \<Rightarrow> route option" where
  "route_search dst_value [] best best_prefix = best"
| "route_search dst_value (e # es) best best_prefix =
    (if route_matches dst_value e \<and> best_prefix < int (unat (prefix (rt_destination e)))
     then route_search dst_value es (Some e) (int (unat (prefix (rt_destination e))))
     else route_search dst_value es best best_prefix)"

definition router_lookup_route :: "router \<Rightarrow> ip_address \<Rightarrow> route option" where
  "router_lookup_route r dst_ip = route_search (ip_to_u32 dst_ip) (r_routes r) None (- 1)"

definition route_next_hop :: "route \<Rightarrow> ip_address \<Rightarrow> ip_address" where
  "route_next_hop e dst_ip = (if ip_is_zero (rt_next_hop e) then dst_ip else rt_next_hop e)"

section \<open>The ARP table and the queue\<close>

definition router_learn_arp :: "router \<Rightarrow> arp_message \<Rightarrow> int \<Rightarrow> bool \<times> router" where
  "router_learn_arp r m vlan_id =
    (let (ok, t) = arp_table_set (r_arp r) (arp_sender_ip m) (arp_sender_mac m); r = r\<lparr>r_arp := t\<rparr>
     in if \<not> ok then (False, r)
        else (True, case router_arp_index_for_ip r (arp_sender_ip m) of
          Some i \<Rightarrow> r\<lparr>r_arp_vlans := (r_arp_vlans r)[i := vlan_id]\<rparr>
        | None \<Rightarrow> r))"

definition router_queue_pending_packet ::
  "router \<Rightarrow> ip_address \<Rightarrow> int \<Rightarrow> int \<Rightarrow> ipv4_packet \<Rightarrow> nat \<Rightarrow> real \<Rightarrow> bool \<times> router" where
  "router_queue_pending_packet r next_hop_ip out_interface vlan_id packet arp_attempts arp_last_attempt_ms =
    (let (ok, q) = ring_push ROUTER_PENDING_QUEUE_MAX_ENTRIES
           \<lparr>rp_next_hop = next_hop_ip, rp_out_interface = out_interface, rp_vlan_id = vlan_id,
            rp_packet = packet, rp_attempts = arp_attempts, rp_last = arp_last_attempt_ms\<rparr> (r_queue r)
     in (ok, r\<lparr>r_queue := q\<rparr>))"

definition hops_over :: "ip_address \<Rightarrow> router_pending \<Rightarrow> bool" where
  "hops_over ip p = ip_octets_equal (rp_next_hop p) ip"

definition router_dequeue_pending_for_ip :: "router \<Rightarrow> ip_address \<Rightarrow> router_pending option \<times> router" where
  "router_dequeue_pending_for_ip r next_hop_ip =
    (let (p, q) = ring_dequeue ROUTER_PENDING_QUEUE_MAX_ENTRIES (hops_over next_hop_ip) (r_queue r)
     in (p, r\<lparr>r_queue := q\<rparr>))"

definition router_find_pending_for_ip :: "router \<Rightarrow> ip_address \<Rightarrow> router_pending option" where
  "router_find_pending_for_ip r next_hop_ip =
    ring_find ROUTER_PENDING_QUEUE_MAX_ENTRIES (hops_over next_hop_ip) (r_queue r)"

definition router_set_arp_attempt_for_ip :: "router \<Rightarrow> ip_address \<Rightarrow> nat \<Rightarrow> real \<Rightarrow> router" where
  "router_set_arp_attempt_for_ip r next_hop_ip arp_attempts attempt_ms =
    r\<lparr>r_queue := ring_update ROUTER_PENDING_QUEUE_MAX_ENTRIES (hops_over next_hop_ip)
      (\<lambda>p. p\<lparr>rp_attempts := arp_attempts, rp_last := attempt_ms\<rparr>) (r_queue r)\<rparr>"

definition router_find_due :: "router \<Rightarrow> real \<Rightarrow> router_pending option" where
  "router_find_due r now_ms =
    ring_find ROUTER_PENDING_QUEUE_MAX_ENTRIES (\<lambda>p. rp_last p + ROUTER_ARP_RETRY_INTERVAL_MS \<le> now_ms) (r_queue r)"

definition router_can_send_error_for_packet :: "ipv4_packet \<Rightarrow> bool" where
  "router_can_send_error_for_packet packet =
    (if ip4_protocol packet \<noteq> IPV4_PROTOCOL_ICMP then True
     else case icmp_from_bytes (ip4_payload packet) of
       None \<Rightarrow> True
     | Some icmp \<Rightarrow> icmp_type icmp \<noteq> ICMP_DEST_UNREACHABLE \<and> icmp_type icmp \<noteq> ICMP_TIME_EXCEEDED)"

lemma zero_router_queue_wf: "wf_ring ROUTER_PENDING_QUEUE_MAX_ENTRIES zero_router_queue"
    "ring_list ROUTER_PENDING_QUEUE_MAX_ENTRIES zero_router_queue = []"
  by (simp_all add: wf_ring_def zero_router_queue_def ring_list_def)

interpretation routerq: pending_queue zero_router_queue
  "\<lambda>q e. ring_push ROUTER_PENDING_QUEUE_MAX_ENTRIES e q"
  "\<lambda>q k. ring_dequeue ROUTER_PENDING_QUEUE_MAX_ENTRIES (\<lambda>p. octet (rp_next_hop p) = k) q"
  "ring_list ROUTER_PENDING_QUEUE_MAX_ENTRIES" "\<lambda>p. octet (rp_next_hop p)" ROUTER_PENDING_QUEUE_MAX_ENTRIES
  "wf_ring ROUTER_PENDING_QUEUE_MAX_ENTRIES"
  by unfold_locales (simp_all add: ring_push_list ring_dequeue_list zero_router_queue_wf)

lemma hops_over_key: "hops_over ip = (\<lambda>p. octet (rp_next_hop p) = octet ip)"
  by (simp add: hops_over_def fun_eq_iff)

end
