(* ===== verification/World.thy ===== *)
theory World
  imports Sim_Clock Switch_Table Host_State Router_State
begin

text \<open>
  The whole mutable state of the simulator: the nodes on the heap, the links of the simulator,
  the clock, and the static variables of the application layer. A function that sends takes the
  world and returns it changed; sending is synchronous in the code (the receiver's handler runs
  before the call returns, and may send back), so a function that sends gets the sending function
  as an argument, and \<open>Network\<close> ties the knot. A result \<open>None\<close> is a call that does not
  return normally: it runs for ever, or dereferences a pointer to a node that is not there.
\<close>

section \<open>Application sockets and services\<close>

abbreviation MAGI_SOCKET_MAX_SOCKETS :: nat where "MAGI_SOCKET_MAX_SOCKETS \<equiv> 16"
abbreviation DHCP_MAX_CLIENTS :: nat where "DHCP_MAX_CLIENTS \<equiv> 16"

datatype magi_socket_type = MAGI_SOCK_UNUSED | MAGI_SOCK_TCP | MAGI_SOCK_UDP

record magi_socket =
  ms_in_use :: bool
  ms_type :: magi_socket_type
  ms_tcp_sock :: "(node_id \<times> nat) option"
  ms_tcp_slot :: int
  ms_udp_local_port :: u16
  ms_local_ip :: ip_address
  ms_remote_ip :: ip_address
  ms_local_port :: u16
  ms_remote_port :: u16
  ms_is_listening :: bool
  ms_host :: "node_id option"

definition zero_magi_socket :: magi_socket where
  "zero_magi_socket = \<lparr>ms_in_use = False, ms_type = MAGI_SOCK_UNUSED, ms_tcp_sock = None, ms_tcp_slot = 0,
     ms_udp_local_port = 0, ms_local_ip = zero_ip, ms_remote_ip = zero_ip, ms_local_port = 0,
     ms_remote_port = 0, ms_is_listening = False, ms_host = None\<rparr>"

record dhcp_client =
  dc_in_use :: bool
  dc_chaddr :: bytes
  dc_ip :: ip_address
  dc_lease_time :: u32
  dc_xid :: u32

record dhcp_state =
  dh_clients :: "dhcp_client list"
  dh_next_ip_octet :: int
  dh_server_ip :: ip_address
  dh_server_ip_set :: bool
  dh_bound_host :: "node_id option"

record dns_state =
  dn_table :: "(string \<times> ip_address) list"
  dn_bound_host :: "node_id option"

record http_state =
  hs_running :: bool
  hs_root_dir :: string
  hs_bound_host :: "node_id option"
  hs_listen_sockfd :: int

section \<open>The world\<close>

datatype node = HostNode host | SwitchNode switch | RouterNode router

record world =
  w_nodes :: "node_id \<Rightarrow> node option"
  w_links :: "link list"
  w_clock :: sim_clock
  w_socks :: "magi_socket list"
  w_socks_initialized :: bool
  w_dhcp :: dhcp_state
  w_dns :: dns_state
  w_http :: http_state

type_synonym sender = "iface_ref \<Rightarrow> bytes \<Rightarrow> world \<Rightarrow> world option"

primrec node_base_of :: "node \<Rightarrow> node_base" where
  "node_base_of (HostNode h) = h_base h"
| "node_base_of (SwitchNode s) = sw_base s"
| "node_base_of (RouterNode r) = r_base r"

primrec map_base :: "(node_base \<Rightarrow> node_base) \<Rightarrow> node \<Rightarrow> node" where
  "map_base f (HostNode h) = HostNode (h\<lparr>h_base := f (h_base h)\<rparr>)"
| "map_base f (SwitchNode s) = SwitchNode (s\<lparr>sw_base := f (sw_base s)\<rparr>)"
| "map_base f (RouterNode r) = RouterNode (r\<lparr>r_base := f (r_base r)\<rparr>)"

definition get_host :: "node_id \<Rightarrow> world \<Rightarrow> host option" where
  "get_host n w = (case w_nodes w n of Some (HostNode h) \<Rightarrow> Some h | _ \<Rightarrow> None)"

definition get_switch :: "node_id \<Rightarrow> world \<Rightarrow> switch option" where
  "get_switch n w = (case w_nodes w n of Some (SwitchNode s) \<Rightarrow> Some s | _ \<Rightarrow> None)"

definition get_router :: "node_id \<Rightarrow> world \<Rightarrow> router option" where
  "get_router n w = (case w_nodes w n of Some (RouterNode r) \<Rightarrow> Some r | _ \<Rightarrow> None)"

definition put_node :: "node_id \<Rightarrow> node \<Rightarrow> world \<Rightarrow> world" where
  "put_node n nd w = w\<lparr>w_nodes := (w_nodes w)(n \<mapsto> nd)\<rparr>"

abbreviation put_host :: "node_id \<Rightarrow> host \<Rightarrow> world \<Rightarrow> world" where
  "put_host n h \<equiv> put_node n (HostNode h)"

abbreviation put_switch :: "node_id \<Rightarrow> switch \<Rightarrow> world \<Rightarrow> world" where
  "put_switch n s \<equiv> put_node n (SwitchNode s)"

abbreviation put_router :: "node_id \<Rightarrow> router \<Rightarrow> world \<Rightarrow> world" where
  "put_router n r \<equiv> put_node n (RouterNode r)"

definition get_iface :: "iface_ref \<Rightarrow> world \<Rightarrow> interface option" where
  "get_iface r w =
    (case w_nodes w (fst r) of
       None \<Rightarrow> None
     | Some nd \<Rightarrow> (let ifs = nb_ifs (node_base_of nd) in if snd r < length ifs then Some (ifs ! snd r) else None))"

definition upd_iface :: "iface_ref \<Rightarrow> (interface \<Rightarrow> interface) \<Rightarrow> world \<Rightarrow> world" where
  "upd_iface r f w =
    (case w_nodes w (fst r) of
       None \<Rightarrow> w
     | Some nd \<Rightarrow> put_node (fst r)
         (map_base (\<lambda>b. b\<lparr>nb_ifs := (nb_ifs b)[snd r := f (nb_ifs b ! snd r)]\<rparr>) nd) w)"

definition now_ms :: "world \<Rightarrow> real \<times> world" where
  "now_ms w = (let (t, c) = sim_clock_now_ms (w_clock w) in (t, w\<lparr>w_clock := c\<rparr>))"

section \<open>Reading what was written\<close>

lemma get_put [simp]:
  "get_host n (put_host n' h w) = (if n' = n then Some h else get_host n w)"
  "get_host n (put_switch n' s w) = (if n' = n then None else get_host n w)"
  "get_host n (put_router n' r w) = (if n' = n then None else get_host n w)"
  "get_switch n (put_host n' h w) = (if n' = n then None else get_switch n w)"
  "get_switch n (put_switch n' s w) = (if n' = n then Some s else get_switch n w)"
  "get_switch n (put_router n' r w) = (if n' = n then None else get_switch n w)"
  "get_router n (put_host n' h w) = (if n' = n then None else get_router n w)"
  "get_router n (put_switch n' s w) = (if n' = n then None else get_router n w)"
  "get_router n (put_router n' r w) = (if n' = n then Some r else get_router n w)"
  by (simp_all add: get_host_def get_switch_def get_router_def put_node_def)

lemma put_node_frame [simp]:
  "w_links (put_node n nd w) = w_links w" "w_clock (put_node n nd w) = w_clock w"
  "w_socks (put_node n nd w) = w_socks w" "w_dhcp (put_node n nd w) = w_dhcp w"
  "w_dns (put_node n nd w) = w_dns w" "w_http (put_node n nd w) = w_http w"
  "w_nodes (put_node n nd w) = (w_nodes w)(n \<mapsto> nd)"
  by (simp_all add: put_node_def)

lemma put_put [simp]: "put_node n a (put_node n b w) = put_node n a w"
  by (simp add: put_node_def)

lemma get_clock [simp]:
  "get_host n (w\<lparr>w_clock := c\<rparr>) = get_host n w" "get_switch n (w\<lparr>w_clock := c\<rparr>) = get_switch n w"
  "get_router n (w\<lparr>w_clock := c\<rparr>) = get_router n w" "get_iface r (w\<lparr>w_clock := c\<rparr>) = get_iface r w"
  by (simp_all add: get_host_def get_switch_def get_router_def get_iface_def)

lemma now_ms_frame [simp]:
  "get_host n (snd (now_ms w)) = get_host n w" "get_switch n (snd (now_ms w)) = get_switch n w"
  "get_router n (snd (now_ms w)) = get_router n w" "w_nodes (snd (now_ms w)) = w_nodes w"
  "w_links (snd (now_ms w)) = w_links w" "ck_realtime (w_clock (snd (now_ms w))) = ck_realtime (w_clock w)"
  by (simp_all add: now_ms_def case_prod_unfold Let_def)

end
