(* ===== verification/Link.thy ===== *)
theory Link
  imports World
begin

text \<open>
  Links and sending over them: \<^verbatim>\<open>core/link.c\<close> and the sending half of \<^verbatim>\<open>core/interface.c\<close>. The
  sleep that stands for the delay of a link when there is no real time has no effect on the state.
\<close>

definition link_unlink :: "link_ref \<Rightarrow> world \<Rightarrow> world" where
  "link_unlink l w =
    (let link = w_links w ! l;
         w = (case ln_if1 link of Some r \<Rightarrow> upd_iface r (\<lambda>f. f\<lparr>if_link := None\<rparr>) w | None \<Rightarrow> w);
         w = (case ln_if2 link of Some r \<Rightarrow> upd_iface r (\<lambda>f. f\<lparr>if_link := None\<rparr>) w | None \<Rightarrow> w)
     in w\<lparr>w_links := (w_links w)[l := link\<lparr>ln_if1 := None, ln_if2 := None\<rparr>]\<rparr>)"

definition link_link :: "link_ref \<Rightarrow> iface_ref \<Rightarrow> iface_ref \<Rightarrow> world \<Rightarrow> world" where
  "link_link l int1 int2 w =
    (if map_option if_link (get_iface int1 w) \<noteq> Some None \<or> map_option if_link (get_iface int2 w) \<noteq> Some None then w
     else
       let w = w\<lparr>w_links := (w_links w)[l := (w_links w ! l)\<lparr>ln_if1 := Some int1, ln_if2 := Some int2\<rparr>]\<rparr>;
           w = upd_iface int1 (\<lambda>f. f\<lparr>if_link := Some l\<rparr>) w
       in upd_iface int2 (\<lambda>f. f\<lparr>if_link := Some l\<rparr>) w)"

definition link_init :: "link_ref \<Rightarrow> iface_ref \<Rightarrow> iface_ref \<Rightarrow> real \<Rightarrow> world \<Rightarrow> world" where
  "link_init l int1 int2 delay w =
    link_link l int1 int2
      (w\<lparr>w_links := (w_links w)[l := \<lparr>ln_if1 = None, ln_if2 = None, ln_delay = delay\<rparr>]\<rparr>)"

text \<open>The other end of a link, seen from one of its interfaces.\<close>

definition other_end :: "link \<Rightarrow> iface_ref \<Rightarrow> iface_ref option" where
  "other_end link sender =
    (if Some sender = ln_if1 link then ln_if2 link
     else if Some sender = ln_if2 link then ln_if1 link
     else None)"

definition transmit :: "sender \<Rightarrow> iface_ref \<Rightarrow> link_ref \<Rightarrow> bytes \<Rightarrow> world \<Rightarrow> world option" where
  "transmit receive sender l packet w =
    (let link = w_links w ! l in
     case other_end link sender of
       None \<Rightarrow> Some w
     | Some receiver \<Rightarrow>
         if sim_clock_realtime_enabled (w_clock w) \<and> 0 < ln_delay link then
           let (queued, c) = sim_clock_enqueue sender receiver l (ln_delay link) packet (w_clock w);
               w = w\<lparr>w_clock := c\<rparr>
           in if queued then Some w else receive receiver packet w
         else receive receiver packet w)"

definition interface_send :: "sender \<Rightarrow> iface_ref \<Rightarrow> bytes \<Rightarrow> world \<Rightarrow> world option" where
  "interface_send receive sender raw w =
    (case get_iface sender w of
       None \<Rightarrow> None
     | Some iface \<Rightarrow>
         (case if_link iface of
            None \<Rightarrow> Some w
          | Some l \<Rightarrow> transmit receive sender l raw w))"

lemma other_end_sym:
  "other_end link a = Some b \<Longrightarrow> ln_if1 link \<noteq> ln_if2 link \<Longrightarrow> other_end link b = Some a"
  by (auto simp: other_end_def split: if_splits)

end
