(* ===== verification/Host_Send.thy ===== *)
theory Host_Send
  imports Link
begin

text \<open>
  The sending side of a host (\<^verbatim>\<open>layer2/host.c\<close>): frames, ARP requests and replies, the next hop of
  a packet, packets waiting for an address, retries and failures of the resolution. \<open>send\<close> is
  \<^verbatim>\<open>interface_send\<close>; it may run the handlers of other nodes and this host's own, so the host is
  read again from the world after every use of it.
\<close>

definition host_send_ethernet_frame ::
  "sender \<Rightarrow> node_id \<Rightarrow> mac_address \<Rightarrow> u16 \<Rightarrow> bytes \<Rightarrow> world \<Rightarrow> (bool \<times> world) option" where
  "host_send_ethernet_frame send n dst_mac ethertype payload w = do {
    h \<leftarrow> get_host n w;
    case ethernet_create dst_mac (if_mac (nb_ifs (h_base h) ! 0)) ethertype payload of
      None \<Rightarrow> Some (False, w)
    | Some frame \<Rightarrow>
        (case ethernet_to_bytes frame (ETHERNET_VLAN_HEADER_SIZE + ETHERNET_MAX_PAYLOAD) of
           None \<Rightarrow> Some (False, w)
         | Some raw \<Rightarrow> do {
             w \<leftarrow> send (n, 0) raw w;
             Some (True, w)
           })
  }"

definition host_send_arp_request :: "sender \<Rightarrow> node_id \<Rightarrow> ip_address \<Rightarrow> world \<Rightarrow> (bool \<times> world) option" where
  "host_send_arp_request send n target_ip w = do {
    h \<leftarrow> get_host n w;
    if \<not> h_has_ip h then Some (False, w)
    else
      case arp_message_to_bytes
          (arp_message_init_request (if_mac (nb_ifs (h_base h) ! 0)) (h_ip h) target_ip) 28 of
        None \<Rightarrow> Some (False, w)
      | Some raw \<Rightarrow> host_send_ethernet_frame send n mac_broadcast ETHERNET_TYPE_ARP raw w
  }"

definition host_send_arp_reply :: "sender \<Rightarrow> node_id \<Rightarrow> arp_message \<Rightarrow> world \<Rightarrow> (bool \<times> world) option" where
  "host_send_arp_reply send n request w = do {
    h \<leftarrow> get_host n w;
    if \<not> h_has_ip h then Some (False, w)
    else
      case arp_message_to_bytes
          (arp_message_init_reply (if_mac (nb_ifs (h_base h) ! 0)) (h_ip h)
            (arp_sender_mac request) (arp_sender_ip request)) 28 of
        None \<Rightarrow> Some (False, w)
      | Some raw \<Rightarrow> host_send_ethernet_frame send n (arp_sender_mac request) ETHERNET_TYPE_ARP raw w
  }"

section \<open>Failed resolutions\<close>

definition host_record_icmp_rtt :: "node_id \<Rightarrow> world \<Rightarrow> world option" where
  "host_record_icmp_rtt n w = do {
    h \<leftarrow> get_host n w;
    if \<not> h_icmp_in_flight h then Some w
    else
      let (t, w) = now_ms w
      in Some (put_host n (h\<lparr>h_icmp_rtt := t - h_icmp_sent_at h, h_icmp_in_flight := False\<rparr>) w)
  }"

definition host_report_arp_failure :: "node_id \<Rightarrow> host_pending \<Rightarrow> world \<Rightarrow> world option" where
  "host_report_arp_failure n failed w = do {
    h \<leftarrow> get_host n w;
    if hp_ethertype failed \<noteq> ETHERNET_TYPE_IPV4 then Some w
    else case ipv4_from_bytes (hp_payload failed) of
      None \<Rightarrow> Some w
    | Some ip_packet \<Rightarrow>
        if ip4_protocol ip_packet \<noteq> IPV4_PROTOCOL_ICMP \<or> \<not> ip_octets_equal (ip4_src ip_packet) (h_ip h) then Some w
        else case icmp_from_bytes (ip4_payload ip_packet) of
          None \<Rightarrow> Some w
        | Some icmp \<Rightarrow>
            if icmp_type icmp \<noteq> ICMP_ECHO_REQUEST then Some w
            else host_record_icmp_rtt n (put_host n (h\<lparr>h_icmp_type := ICMP_DEST_UNREACHABLE, h_icmp_code := 1,
              h_icmp_source := h_ip h, h_icmp_sequence := icmp_sequence icmp, h_has_icmp := True\<rparr>) w)
  }"

text \<open>The packets for an address are taken out and reported one by one.\<close>

partial_function (option) host_fail_pending :: "node_id \<Rightarrow> ip_address \<Rightarrow> world \<Rightarrow> world option" where
  "host_fail_pending n target_ip w = do {
    h \<leftarrow> get_host n w;
    let (r, h) = host_dequeue_pending_packet_for_ip h target_ip;
    (case r of
       None \<Rightarrow> Some (put_host n h w)
     | Some failed \<Rightarrow> do {
         w \<leftarrow> host_report_arp_failure n failed (put_host n h w);
         host_fail_pending n target_ip w
       })
  }"

text \<open>Retries up to a time: the unbounded loop of the code.\<close>

partial_function (option) host_poll_arp :: "sender \<Rightarrow> node_id \<Rightarrow> real \<Rightarrow> world \<Rightarrow> world option" where
  "host_poll_arp send n now w = do {
    h \<leftarrow> get_host n w;
    (case host_find_due h now of
       None \<Rightarrow> Some w
     | Some pending \<Rightarrow>
         if HOST_ARP_MAX_ATTEMPTS \<le> hp_attempts pending then do {
           w \<leftarrow> host_fail_pending n (hp_target pending) w;
           host_poll_arp send n now w
         } else do {
           let h = host_set_arp_attempt_for_ip h (hp_target pending) (hp_attempts pending + 1)
             (hp_last pending + HOST_ARP_RETRY_INTERVAL_MS);
           (_, w) \<leftarrow> host_send_arp_request send n (hp_target pending) (put_host n h w);
           host_poll_arp send n now w
         })
  }"

section \<open>Sending a packet\<close>

definition host_send_l3_packet ::
  "sender \<Rightarrow> node_id \<Rightarrow> ip_address \<Rightarrow> u16 \<Rightarrow> bytes \<Rightarrow> world \<Rightarrow> (bool \<times> world) option" where
  "host_send_l3_packet send n target_ip ethertype payload w = do {
    h \<leftarrow> get_host n w;
    if ETHERNET_MAX_PAYLOAD < length payload then Some (False, w)
    else if ip_is_limited_broadcast target_ip
    then host_send_ethernet_frame send n mac_broadcast ethertype payload w
    else if \<not> h_has_ip h then Some (False, w)
    else
      let next_hop_ip = (if host_is_same_subnet h target_ip then target_ip else h_gateway h)
      in case arp_table_get (h_arp h) next_hop_ip of
        Some next_hop_mac \<Rightarrow> host_send_ethernet_frame send n next_hop_mac ethertype payload w
      | None \<Rightarrow>
          let existing_pending = host_find_pending_for_ip h next_hop_ip;
              (now, w) = now_ms w;
              (queued, h) = host_queue_pending_packet_with_arp_state h next_hop_ip ethertype payload
                (case existing_pending of None \<Rightarrow> 1 | Some p \<Rightarrow> hp_attempts p)
                (case existing_pending of None \<Rightarrow> now | Some p \<Rightarrow> hp_last p);
              w = put_host n h w
          in if \<not> queued then Some (False, w)
             else if existing_pending \<noteq> None then Some (True, w)
             else do {
               (sent, w) \<leftarrow> host_send_arp_request send n next_hop_ip w;
               if \<not> sent then Some (False, w)
               else do {
                 h \<leftarrow> get_host n w;
                 if \<not> sim_clock_realtime_enabled (w_clock w) \<and> arp_table_get (h_arp h) next_hop_ip = None then do {
                   w \<leftarrow> host_poll_arp send n
                     (now + HOST_ARP_RETRY_INTERVAL_MS * real (HOST_ARP_MAX_ATTEMPTS + 1)) w;
                   Some (True, w)
                 } else Some (True, w)
               }
             }
  }"

text \<open>
  The pointer to the MAC address found before the loop stays valid: entry \<open>i\<close> of the ARP table is
  read again for every packet.
\<close>

partial_function (option) host_flush_loop ::
  "sender \<Rightarrow> node_id \<Rightarrow> ip_address \<Rightarrow> nat \<Rightarrow> nat \<Rightarrow> world \<Rightarrow> (nat \<times> world) option" where
  "host_flush_loop send n resolved_ip i sent w = do {
    h \<leftarrow> get_host n w;
    let (r, h) = host_dequeue_pending_packet_for_ip h resolved_ip;
    let w = put_host n h w;
    (case r of
       None \<Rightarrow> Some (sent, w)
     | Some packet \<Rightarrow> do {
         (ok, w) \<leftarrow> host_send_ethernet_frame send n (ae_mac (tab_entries (h_arp h) ! i))
           (hp_ethertype packet) (hp_payload packet) w;
         host_flush_loop send n resolved_ip i (if ok then sent + 1 else sent) w
       })
  }"

definition host_flush_pending_packets :: "sender \<Rightarrow> node_id \<Rightarrow> ip_address \<Rightarrow> world \<Rightarrow> (nat \<times> world) option" where
  "host_flush_pending_packets send n resolved_ip w = do {
    h \<leftarrow> get_host n w;
    case arp_table_find_index (h_arp h) resolved_ip of
      None \<Rightarrow> Some (0, w)
    | Some i \<Rightarrow> host_flush_loop send n resolved_ip i 0 w
  }"

definition host_send_icmp_echo_request ::
  "sender \<Rightarrow> node_id \<Rightarrow> ip_address \<Rightarrow> u8 \<Rightarrow> u16 \<Rightarrow> world \<Rightarrow> (bool \<times> world) option" where
  "host_send_icmp_echo_request send n target_ip ttl sequence w = do {
    h \<leftarrow> get_host n w;
    if \<not> h_has_ip h then Some (False, w)
    else
      let payload = map of_nat [0..<32];
          (now, w) = now_ms w;
          h = h\<lparr>h_has_icmp := False, h_icmp_in_flight := True, h_icmp_rtt := 0, h_icmp_sent_at := now\<rparr>;
          w = put_host n h w
      in case icmp_create ICMP_ECHO_REQUEST 0 0x1234 sequence payload of
        None \<Rightarrow> Some (False, put_host n (h\<lparr>h_icmp_in_flight := False\<rparr>) w)
      | Some icmp \<Rightarrow>
          (case icmp_to_bytes icmp (ICMP_HEADER_SIZE + ICMP_MAX_PAYLOAD) of
             None \<Rightarrow> Some (False, w)
           | Some icmp_raw \<Rightarrow>
               (case ipv4_create (h_ip h) target_ip ttl IPV4_PROTOCOL_ICMP icmp_raw of
                  None \<Rightarrow> Some (False, w)
                | Some packet \<Rightarrow>
                    (case ipv4_to_bytes packet (IPV4_HEADER_SIZE + IPV4_MAX_PAYLOAD) of
                       None \<Rightarrow> Some (False, w)
                     | Some ip_raw \<Rightarrow> host_send_l3_packet send n target_ip ETHERNET_TYPE_IPV4 ip_raw w)))
  }"

end
