(* ===== verification/Magi_Socket.thy ===== *)
theory Magi_Socket
  imports Host_Send
begin

text \<open>
  The application sockets: \<^verbatim>\<open>layer7/magi_socket.c\<close>. A descriptor is a C \<^verbatim>\<open>int\<close>, -1 for failure;
  a pointer to a TCP socket is its host and its slot there. \<^verbatim>\<open>magi_resolve\<close> and
  \<^verbatim>\<open>magi_http_get\<close> are in \<open>Http\<close>.
\<close>

abbreviation AF_INET :: int where "AF_INET \<equiv> 2"
abbreviation SOCK_STREAM :: int where "SOCK_STREAM \<equiv> 1"
abbreviation SOCK_DGRAM :: int where "SOCK_DGRAM \<equiv> 2"

definition magi_socket_init_all :: "nat \<Rightarrow> magi_socket list" where
  "magi_socket_init_all count = replicate count zero_magi_socket"

definition magi_socket_reset_all :: "world \<Rightarrow> world" where
  "magi_socket_reset_all w = w\<lparr>w_socks := magi_socket_init_all MAGI_SOCKET_MAX_SOCKETS, w_socks_initialized := False\<rparr>"

definition valid_fd :: "int \<Rightarrow> world \<Rightarrow> bool" where
  "valid_fd fd w \<longleftrightarrow> 0 \<le> fd \<and> fd < int MAGI_SOCKET_MAX_SOCKETS \<and> ms_in_use (w_socks w ! nat fd)"

abbreviation sock_of :: "int \<Rightarrow> world \<Rightarrow> magi_socket" where
  "sock_of fd w \<equiv> w_socks w ! nat fd"

definition put_sock :: "int \<Rightarrow> magi_socket \<Rightarrow> world \<Rightarrow> world" where
  "put_sock fd s w = w\<lparr>w_socks := (w_socks w)[nat fd := s]\<rparr>"

definition magi_socket :: "int \<Rightarrow> int \<Rightarrow> world \<Rightarrow> int \<times> world" where
  "magi_socket domain type w =
    (let w = (if w_socks_initialized w then w
              else w\<lparr>w_socks := magi_socket_init_all MAGI_SOCKET_MAX_SOCKETS, w_socks_initialized := True\<rparr>)
     in if domain \<noteq> AF_INET then (- 1, w)
        else case first_index (\<lambda>i. \<not> ms_in_use (w_socks w ! i)) MAGI_SOCKET_MAX_SOCKETS of
          None \<Rightarrow> (- 1, w)
        | Some i \<Rightarrow>
            if type = SOCK_STREAM
            then (int i, put_sock (int i) (zero_magi_socket\<lparr>ms_in_use := True, ms_type := MAGI_SOCK_TCP\<rparr>) w)
            else if type = SOCK_DGRAM
            then (int i, put_sock (int i) (zero_magi_socket\<lparr>ms_in_use := True, ms_type := MAGI_SOCK_UDP\<rparr>) w)
            else (- 1, put_sock (int i) zero_magi_socket w))"

definition magi_socket_attach_host :: "int \<Rightarrow> node_id \<Rightarrow> world \<Rightarrow> int \<times> world" where
  "magi_socket_attach_host fd n w =
    (if \<not> valid_fd fd w then (- 1, w) else (1, put_sock fd ((sock_of fd w)\<lparr>ms_host := Some n\<rparr>) w))"

definition magi_bind :: "int \<Rightarrow> ip_address \<Rightarrow> u16 \<Rightarrow> world \<Rightarrow> int \<times> world" where
  "magi_bind fd ip port w =
    (if \<not> valid_fd fd w then (- 1, w)
     else (1, put_sock fd ((sock_of fd w)\<lparr>ms_local_ip := ip, ms_local_port := port\<rparr>) w))"

text \<open>A TCP socket of a host, by pointer.\<close>

definition get_tcp :: "node_id \<times> nat \<Rightarrow> world \<Rightarrow> tcp_socket option" where
  "get_tcp p w = do { h \<leftarrow> get_host (fst p) w; Some (h_tcp h ! snd p) }"

definition put_tcp :: "node_id \<times> nat \<Rightarrow> tcp_socket \<Rightarrow> world \<Rightarrow> world option" where
  "put_tcp p s w = do { h \<leftarrow> get_host (fst p) w; Some (put_host (fst p) (h\<lparr>h_tcp := (h_tcp h)[snd p := s]\<rparr>) w) }"

definition magi_listen :: "int \<Rightarrow> int \<Rightarrow> world \<Rightarrow> (int \<times> world) option" where
  "magi_listen fd backlog w =
    (if \<not> valid_fd fd w then Some (- 1, w)
     else
       let sock = sock_of fd w
       in if ms_type sock \<noteq> MAGI_SOCK_TCP then Some (- 1, w)
          else case ms_host sock of
            None \<Rightarrow> Some (- 1, w)
          | Some n \<Rightarrow> do {
              h \<leftarrow> get_host n w;
              case tcp_socket_alloc (h_tcp h) of
                None \<Rightarrow> Some (- 1, w)
              | Some (slot, socks) \<Rightarrow>
                  let socks = socks[slot := tcp_socket_listen (socks ! slot) (ms_local_ip sock) (ms_local_port sock)];
                      sock = sock\<lparr>ms_tcp_slot := int slot, ms_tcp_sock := Some (n, slot), ms_is_listening := True\<rparr>
                  in Some (1, put_sock fd sock (put_host n (h\<lparr>h_tcp := socks\<rparr>) w))
            })"

text \<open>The search for a child goes on while a new descriptor cannot be made.\<close>

fun accept_loop :: "int \<Rightarrow> node_id \<Rightarrow> nat \<Rightarrow> nat list \<Rightarrow> (ip_address \<times> u16) option \<Rightarrow> world
    \<Rightarrow> (int \<times> (ip_address \<times> u16) option \<times> world) option" where
  "accept_loop fd n listener [] client w = Some (- 1, client, w)"
| "accept_loop fd n listener (i # is) client w = do {
    s \<leftarrow> get_tcp (n, i) w;
    if sk_in_use s \<and> sk_parent s = Some listener \<and> sk_state s = TCP_ESTABLISHED then
      let client = Some (sk_remote_ip s, sk_remote_port s);
          (conn, w) = magi_socket AF_INET SOCK_STREAM w
      in if 0 \<le> conn
         then Some (conn, client, put_sock conn ((sock_of conn w)\<lparr>ms_host := Some n, ms_tcp_slot := int i,
           ms_tcp_sock := Some (n, i), ms_local_ip := sk_local_ip s, ms_local_port := sk_local_port s,
           ms_remote_ip := sk_remote_ip s, ms_remote_port := sk_remote_port s\<rparr>) w)
         else accept_loop fd n listener is client w
    else accept_loop fd n listener is client w
  }"

definition magi_accept :: "int \<Rightarrow> world \<Rightarrow> (int \<times> (ip_address \<times> u16) option \<times> world) option" where
  "magi_accept fd w =
    (if \<not> valid_fd fd w then Some (- 1, None, w)
     else
       let sock = sock_of fd w
       in if \<not> ms_is_listening sock then Some (- 1, None, w)
          else case ms_tcp_sock sock of
            None \<Rightarrow> Some (- 1, None, w)
          | Some (n, listener) \<Rightarrow> accept_loop fd n listener [0..<TCP_MAX_SOCKETS] None w)"

text \<open>What a socket operation does with a finished segment: wrap it in a packet and serialise that.\<close>

definition segment_packet :: "ip_address \<Rightarrow> ip_address \<Rightarrow> tcp_segment \<Rightarrow> nat \<Rightarrow> bytes option" where
  "segment_packet src dst g out_size = do {
    tcp_raw \<leftarrow> tcp_to_bytes g out_size;
    packet \<leftarrow> ipv4_create src dst IPV4_DEFAULT_TTL IPV4_PROTOCOL_TCP tcp_raw;
    ipv4_to_bytes packet (IPV4_HEADER_SIZE + IPV4_MAX_PAYLOAD)
  }"

definition magi_connect :: "sender \<Rightarrow> int \<Rightarrow> ip_address \<Rightarrow> u16 \<Rightarrow> world \<Rightarrow> (int \<times> world) option" where
  "magi_connect send fd ip port w =
    (if \<not> valid_fd fd w then Some (- 1, w)
     else
       let sock = sock_of fd w
       in if ms_type sock \<noteq> MAGI_SOCK_TCP then Some (- 1, w)
          else case ms_host sock of
            None \<Rightarrow> Some (- 1, w)
          | Some n \<Rightarrow> do {
              h \<leftarrow> get_host n w;
              case tcp_socket_alloc (h_tcp h) of
                None \<Rightarrow> Some (- 1, w)
              | Some (slot, socks) \<Rightarrow>
                  let h = h\<lparr>h_tcp := socks\<rparr>;
                      sock = sock\<lparr>ms_tcp_slot := int slot, ms_tcp_sock := Some (n, slot), ms_remote_ip := ip,
                        ms_remote_port := port\<rparr>;
                      preferred = (if 65535 < unat port + 2000 then 49152 else of_nat (unat port + 2000));
                      (src_port, h) = host_select_tcp_source_port h ip port preferred
                  in if src_port = 0
                     then Some (- 1, put_sock fd (sock\<lparr>ms_tcp_sock := None, ms_tcp_slot := - 1\<rparr>)
                       (put_host n (h\<lparr>h_tcp := (h_tcp h)[slot := tcp_socket_free (h_tcp h ! slot)]\<rparr>) w))
                     else
                       let s = tcp_socket_connect (h_tcp h ! slot) (h_ip h) src_port ip port;
                           w = put_sock fd sock (put_host n (h\<lparr>h_tcp := (h_tcp h)[slot := s]\<rparr>) w)
                       in do {
                         w \<leftarrow> (case segment_packet (h_ip h) ip (tcp_syn_segment s) TCP_HEADER_SIZE of
                             None \<Rightarrow> Some w
                           | Some ip_raw \<Rightarrow> do {
                               (_, w) \<leftarrow> host_send_l3_packet send n ip ETHERNET_TYPE_IPV4 ip_raw w;
                               Some w
                             });
                         (pn, ps) \<leftarrow> ms_tcp_sock (sock_of fd w);
                         s \<leftarrow> get_tcp (pn, ps) w;
                         if sk_state s \<noteq> TCP_ESTABLISHED then do {
                           w \<leftarrow> put_tcp (pn, ps) (tcp_socket_free s) w;
                           Some (- 1, put_sock fd ((sock_of fd w)\<lparr>ms_tcp_sock := None, ms_tcp_slot := - 1\<rparr>) w)
                         } else Some (1, w)
                       }
            })"

section \<open>Sending and receiving\<close>

text \<open>A datagram with its checksum, in a packet.\<close>

definition datagram_packet :: "ip_address \<Rightarrow> ip_address \<Rightarrow> u16 \<Rightarrow> u16 \<Rightarrow> bytes \<Rightarrow> bytes option" where
  "datagram_packet src dst src_port dst_port data = do {
    udp \<leftarrow> udp_create src_port dst_port data;
    udp_raw \<leftarrow> udp_to_bytes (udp_seal udp src dst) (UDP_HEADER_SIZE + UDP_MAX_PAYLOAD);
    packet \<leftarrow> ipv4_create src dst IPV4_DEFAULT_TTL IPV4_PROTOCOL_UDP udp_raw;
    ipv4_to_bytes packet (IPV4_HEADER_SIZE + IPV4_MAX_PAYLOAD)
  }"

definition send_datagram ::
  "sender \<Rightarrow> node_id \<Rightarrow> ip_address \<Rightarrow> u16 \<Rightarrow> u16 \<Rightarrow> bytes \<Rightarrow> world \<Rightarrow> (int \<times> world) option" where
  "send_datagram send n dst src_port dst_port data w = do {
    h \<leftarrow> get_host n w;
    case datagram_packet (h_ip h) dst src_port dst_port data of
      None \<Rightarrow> Some (- 1, w)
    | Some ip_raw \<Rightarrow> do {
        (ok, w) \<leftarrow> host_send_l3_packet send n dst ETHERNET_TYPE_IPV4 ip_raw w;
        Some (if ok then int (length data) else - 1, w)
      }
  }"

definition magi_send_tcp :: "sender \<Rightarrow> magi_socket \<Rightarrow> bytes \<Rightarrow> world \<Rightarrow> (int \<times> world) option" where
  "magi_send_tcp send sock data w =
    (case (ms_tcp_sock sock, ms_host sock) of
       (Some p, Some n) \<Rightarrow>
         if data = [] \<or> TCP_MAX_PAYLOAD < length data then Some (- 1, w)
         else do {
           s \<leftarrow> get_tcp p w;
           let (ok, s) = tcp_socket_send s data;
           if \<not> ok then Some (- 1, w)
           else do {
             w \<leftarrow> put_tcp p s w;
             case segment_packet (sk_local_ip s) (sk_remote_ip s) (tcp_data_segment s data)
                 (TCP_HEADER_SIZE + TCP_MAX_PAYLOAD) of
               None \<Rightarrow> Some (- 1, w)
             | Some ip_raw \<Rightarrow> do {
                 w \<leftarrow> put_tcp p (s\<lparr>sk_send_seq := sk_send_seq s + of_nat (length data)\<rparr>) w;
                 (sent, w) \<leftarrow> host_send_l3_packet send n (sk_remote_ip s) ETHERNET_TYPE_IPV4 ip_raw w;
                 Some (if sent then int (length data) else - 1, w)
               }
           }
         }
     | _ \<Rightarrow> Some (- 1, w))"

definition magi_send :: "sender \<Rightarrow> int \<Rightarrow> bytes \<Rightarrow> world \<Rightarrow> (int \<times> world) option" where
  "magi_send send fd data w =
    (if \<not> valid_fd fd w then Some (- 1, w)
     else
       let sock = sock_of fd w
       in case ms_type sock of
         MAGI_SOCK_TCP \<Rightarrow> magi_send_tcp send sock data w
       | MAGI_SOCK_UDP \<Rightarrow>
           (case ms_host sock of
              None \<Rightarrow> Some (- 1, w)
            | Some n \<Rightarrow>
                if UDP_MAX_PAYLOAD < length data then Some (- 1, w)
                else send_datagram send n (ms_remote_ip sock) (ms_local_port sock) (ms_remote_port sock) data w)
       | MAGI_SOCK_UNUSED \<Rightarrow> Some (- 1, w))"

definition magi_sendto :: "sender \<Rightarrow> int \<Rightarrow> bytes \<Rightarrow> ip_address \<Rightarrow> u16 \<Rightarrow> world \<Rightarrow> (int \<times> world) option" where
  "magi_sendto send fd data dst_ip dst_port w =
    (if \<not> valid_fd fd w then Some (- 1, w)
     else
       let sock = sock_of fd w
       in if ms_type sock \<noteq> MAGI_SOCK_UDP then Some (- 1, w)
          else case ms_host sock of
            None \<Rightarrow> Some (- 1, w)
          | Some n \<Rightarrow>
              if UDP_MAX_PAYLOAD < length data then Some (- 1, w)
              else send_datagram send n dst_ip (ms_local_port sock) dst_port data w)"

definition magi_recv :: "int \<Rightarrow> nat \<Rightarrow> world \<Rightarrow> (int \<times> bytes \<times> world) option" where
  "magi_recv fd bufsize w =
    (if \<not> valid_fd fd w then Some (- 1, [], w)
     else
       let sock = sock_of fd w
       in case ms_type sock of
         MAGI_SOCK_TCP \<Rightarrow>
           (case ms_tcp_sock sock of
              None \<Rightarrow> Some (- 1, [], w)
            | Some p \<Rightarrow> do {
                s \<leftarrow> get_tcp p w;
                let (out, s) = tcp_socket_recv s bufsize;
                w \<leftarrow> put_tcp p s w;
                Some (int (length out), out, w)
              })
       | MAGI_SOCK_UDP \<Rightarrow>
           (case ms_host sock of
              None \<Rightarrow> Some (- 1, [], w)
            | Some n \<Rightarrow> do {
                h \<leftarrow> get_host n w;
                if \<not> h_has_udp h then Some (0, [], w)
                else
                  let out = take bufsize (udp_payload (h_last_udp h))
                  in Some (int (length out), out, put_host n (h\<lparr>h_has_udp := False\<rparr>) w)
              })
       | MAGI_SOCK_UNUSED \<Rightarrow> Some (- 1, [], w))"

definition magi_recvfrom :: "int \<Rightarrow> nat \<Rightarrow> world \<Rightarrow> (int \<times> (bytes \<times> ip_address \<times> u16) option \<times> world) option" where
  "magi_recvfrom fd bufsize w =
    (if \<not> valid_fd fd w then Some (- 1, None, w)
     else
       let sock = sock_of fd w
       in if ms_type sock \<noteq> MAGI_SOCK_UDP then Some (- 1, None, w)
          else case ms_host sock of
            None \<Rightarrow> Some (- 1, None, w)
          | Some n \<Rightarrow> do {
              h \<leftarrow> get_host n w;
              if \<not> h_has_udp h then Some (0, None, w)
              else if ms_local_port sock \<noteq> 0 \<and> udp_dst_port (h_last_udp h) \<noteq> ms_local_port sock then Some (0, None, w)
              else
                let out = take bufsize (udp_payload (h_last_udp h))
                in Some (int (length out), Some (out, h_last_udp_src h, udp_src_port (h_last_udp h)),
                  put_host n (h\<lparr>h_has_udp := False\<rparr>) w)
            })"

section \<open>Closing\<close>

definition magi_close_tcp ::
  "sender \<Rightarrow> node_id \<times> nat \<Rightarrow> node_id \<Rightarrow> int \<Rightarrow> world \<Rightarrow> (int \<times> world) option" where
  "magi_close_tcp send p n fd w = do {
    s \<leftarrow> get_tcp p w;
    if sk_state s \<noteq> TCP_ESTABLISHED \<and> sk_state s \<noteq> TCP_CLOSE_WAIT then do {
      w \<leftarrow> (if sk_state s \<in> {TCP_CLOSED, TCP_LISTEN, TCP_SYN_SENT, TCP_SYN_RECEIVED}
            then put_tcp p (tcp_socket_free s) w else Some w);
      Some (1, put_sock fd zero_magi_socket w)
    } else
      case segment_packet (sk_local_ip s) (sk_remote_ip s) (tcp_fin_segment s) TCP_HEADER_SIZE of
        None \<Rightarrow> Some (- 1, w)
      | Some ip_raw \<Rightarrow>
          let (closed, s) = tcp_socket_close s
          in if \<not> closed then Some (- 1, w)
             else do {
               w \<leftarrow> put_tcp p (s\<lparr>sk_send_seq := sk_send_seq s + 1\<rparr>) w;
               (sent, w) \<leftarrow> host_send_l3_packet send n (sk_remote_ip s) ETHERNET_TYPE_IPV4 ip_raw w;
               if sent then Some (1, put_sock fd zero_magi_socket w) else Some (- 1, w)
             }
  }"

definition magi_close :: "sender \<Rightarrow> int \<Rightarrow> world \<Rightarrow> (int \<times> world) option" where
  "magi_close send fd w =
    (if \<not> valid_fd fd w then Some (- 1, w)
     else
       let sock = sock_of fd w
       in case (ms_type sock, ms_tcp_sock sock, ms_host sock) of
         (MAGI_SOCK_TCP, Some p, Some n) \<Rightarrow> magi_close_tcp send p n fd w
       | _ \<Rightarrow> Some (1, put_sock fd zero_magi_socket w))"

end
