(* ===== verification/Dhcp.thy ===== *)
theory Dhcp
  imports Magi_Socket
begin

text \<open>
  The DHCP server: \<^verbatim>\<open>layer7/dhcp_server.c\<close>. Its static variables are \<open>dhcp_state\<close> of the
  world. A read past the end of the option array, which \<^verbatim>\<open>dhcp_get_msg_type\<close> makes when the
  last option is cut off, is \<open>None\<close>. The console output is left out.
\<close>

abbreviation DHCP_SERVER_PORT :: u16 where "DHCP_SERVER_PORT \<equiv> 67"
abbreviation DHCP_CLIENT_PORT :: u16 where "DHCP_CLIENT_PORT \<equiv> 68"
abbreviation DHCP_HEADER_SIZE :: nat where "DHCP_HEADER_SIZE \<equiv> 240"
abbreviation DHCP_OPTIONS_SIZE :: nat where "DHCP_OPTIONS_SIZE \<equiv> 60"
abbreviation DHCP_BOOTREQUEST :: u8 where "DHCP_BOOTREQUEST \<equiv> 1"
abbreviation DHCP_BOOTREPLY :: u8 where "DHCP_BOOTREPLY \<equiv> 2"
abbreviation DHCP_DISCOVER :: u8 where "DHCP_DISCOVER \<equiv> 1"
abbreviation DHCP_OFFER :: u8 where "DHCP_OFFER \<equiv> 2"
abbreviation DHCP_REQUEST :: u8 where "DHCP_REQUEST \<equiv> 3"
abbreviation DHCP_ACK :: u8 where "DHCP_ACK \<equiv> 5"
abbreviation DHCP_OPTION_SUBNET_MASK :: u8 where "DHCP_OPTION_SUBNET_MASK \<equiv> 1"
abbreviation DHCP_OPTION_ROUTER :: u8 where "DHCP_OPTION_ROUTER \<equiv> 3"
abbreviation DHCP_OPTION_HOSTNAME :: u8 where "DHCP_OPTION_HOSTNAME \<equiv> 12"
abbreviation DHCP_OPTION_LEASE_TIME :: u8 where "DHCP_OPTION_LEASE_TIME \<equiv> 51"
abbreviation DHCP_OPTION_MSG_TYPE :: u8 where "DHCP_OPTION_MSG_TYPE \<equiv> 53"
abbreviation DHCP_OPTION_SERVER_ID :: u8 where "DHCP_OPTION_SERVER_ID \<equiv> 54"
abbreviation DHCP_OPTION_REQUEST_LIST :: u8 where "DHCP_OPTION_REQUEST_LIST \<equiv> 55"
abbreviation DHCP_OPTION_END :: u8 where "DHCP_OPTION_END \<equiv> 255"
abbreviation DHCP_MAGIC_COOKIE :: u32 where "DHCP_MAGIC_COOKIE \<equiv> 0x63825363"

section \<open>Messages\<close>

record dhcp_message =
  dm_op :: u8
  dm_htype :: u8
  dm_hlen :: u8
  dm_hops :: u8
  dm_xid :: u32
  dm_secs :: u16
  dm_flags :: u16
  dm_ciaddr :: ip_address
  dm_yiaddr :: ip_address
  dm_siaddr :: ip_address
  dm_giaddr :: ip_address
  dm_chaddr :: bytes
  dm_sname :: bytes
  dm_file :: bytes
  dm_magic_cookie :: u32
  dm_options :: bytes
  dm_options_len :: nat

definition zero_dhcp_message :: dhcp_message where
  "zero_dhcp_message = \<lparr>dm_op = 0, dm_htype = 0, dm_hlen = 0, dm_hops = 0, dm_xid = 0, dm_secs = 0,
     dm_flags = 0, dm_ciaddr = zero_ip, dm_yiaddr = zero_ip, dm_siaddr = zero_ip, dm_giaddr = zero_ip,
     dm_chaddr = replicate 16 0, dm_sname = replicate 64 0, dm_file = replicate 128 0,
     dm_magic_cookie = 0, dm_options = replicate DHCP_OPTIONS_SIZE 0, dm_options_len = 0\<rparr>"

definition wf_dhcp_message :: "dhcp_message \<Rightarrow> bool" where
  "wf_dhcp_message m \<longleftrightarrow> length (dm_chaddr m) = 16 \<and> length (dm_sname m) = 64 \<and> length (dm_file m) = 128 \<and>
     length (dm_options m) = DHCP_OPTIONS_SIZE \<and> dm_options_len m \<le> DHCP_OPTIONS_SIZE"

text \<open>The value is \<open>Some (- 1)\<close> when there is no type option.\<close>

function msg_type_loop :: "bytes \<Rightarrow> nat \<Rightarrow> nat \<Rightarrow> int option" where
  "msg_type_loop options options_len offset =
    (if \<not> offset < options_len then Some (- 1)
     else
       let tag = options ! offset
       in if tag = DHCP_OPTION_END then Some (- 1)
          else if tag = 0 then msg_type_loop options options_len (offset + 1)
          else if length options \<le> offset + 1 then None
          else
            let len = options ! (offset + 1)
            in if tag = DHCP_OPTION_MSG_TYPE \<and> len = 1
               then (if length options \<le> offset + 2 then None else Some (uint (options ! (offset + 2))))
               else msg_type_loop options options_len (offset + 2 + unat len))"
  by pat_completeness auto
termination
  by (relation "measure (\<lambda>(_, n, i). n - i)") auto

declare msg_type_loop.simps [simp del]

definition dhcp_get_msg_type :: "dhcp_message \<Rightarrow> int option" where
  "dhcp_get_msg_type m = msg_type_loop (dm_options m) (dm_options_len m) 0"

text \<open>Overwriting part of an array, as \<^verbatim>\<open>memcpy\<close> does.\<close>

definition overwrite :: "nat \<Rightarrow> 'a list \<Rightarrow> 'a list \<Rightarrow> 'a list" where
  "overwrite i xs a = take i a @ xs @ drop (i + length xs) a"

definition dhcp_add_option :: "dhcp_message \<Rightarrow> u8 \<Rightarrow> bytes \<Rightarrow> bool \<times> dhcp_message" where
  "dhcp_add_option m tag data =
    (let offset = dm_options_len m; len = length data
     in if DHCP_OPTIONS_SIZE < offset + 2 + len then (False, m)
        else (True, m\<lparr>dm_options := overwrite offset (tag # of_nat len # data) (dm_options m),
               dm_options_len := offset + 2 + len\<rparr>))"

definition dhcp_finish_options :: "dhcp_message \<Rightarrow> dhcp_message" where
  "dhcp_finish_options m =
    (if dm_options_len m < DHCP_OPTIONS_SIZE
     then m\<lparr>dm_options := (dm_options m)[dm_options_len m := DHCP_OPTION_END],
       dm_options_len := dm_options_len m + 1\<rparr>
     else m)"

text \<open>Options added one after the other, results ignored, and the end mark.\<close>

definition dhcp_with_options :: "dhcp_message \<Rightarrow> (u8 \<times> bytes) list \<Rightarrow> dhcp_message" where
  "dhcp_with_options m opts = dhcp_finish_options (fold (\<lambda>(tag, data) m. snd (dhcp_add_option m tag data)) opts m)"

definition dhcp_message_to_bytes :: "dhcp_message \<Rightarrow> nat \<Rightarrow> bytes option" where
  "dhcp_message_to_bytes m out_size =
    (if out_size < DHCP_HEADER_SIZE + dm_options_len m then None
     else Some ([dm_op m, dm_htype m, dm_hlen m, dm_hops m] @ write_u32_be (dm_xid m) @
       write_u16_be (dm_secs m) @ write_u16_be (dm_flags m) @
       octet_bytes (octet (dm_ciaddr m)) @ octet_bytes (octet (dm_yiaddr m)) @
       octet_bytes (octet (dm_siaddr m)) @ octet_bytes (octet (dm_giaddr m)) @
       dm_chaddr m @ dm_sname m @ dm_file m @ write_u32_be DHCP_MAGIC_COOKIE @
       take (dm_options_len m) (dm_options m)))"

definition raw_ip :: "bytes \<Rightarrow> nat \<Rightarrow> ip_address" where
  "raw_ip raw i = zero_ip\<lparr>octet := octets_of_list (take 4 (drop i raw))\<rparr>"

definition dhcp_message_from_bytes :: "bytes \<Rightarrow> dhcp_message option" where
  "dhcp_message_from_bytes raw =
    (if length raw < DHCP_HEADER_SIZE then None
     else
       let n = min (length raw - DHCP_HEADER_SIZE) DHCP_OPTIONS_SIZE
       in Some \<lparr>dm_op = raw ! 0, dm_htype = raw ! 1, dm_hlen = raw ! 2, dm_hops = raw ! 3,
            dm_xid = read_u32_be raw 4, dm_secs = read_u16_be raw 8, dm_flags = read_u16_be raw 10,
            dm_ciaddr = raw_ip raw 12, dm_yiaddr = raw_ip raw 16, dm_siaddr = raw_ip raw 20,
            dm_giaddr = raw_ip raw 24, dm_chaddr = take 16 (drop 28 raw), dm_sname = take 64 (drop 44 raw),
            dm_file = take 128 (drop 108 raw), dm_magic_cookie = read_u32_be raw 236,
            dm_options = take n (drop 240 raw) @ replicate (DHCP_OPTIONS_SIZE - n) 0,
            dm_options_len = n\<rparr>)"

section \<open>Leases\<close>

definition zero_dhcp_client :: dhcp_client where
  "zero_dhcp_client = \<lparr>dc_in_use = False, dc_chaddr = replicate 16 0, dc_ip = zero_ip, dc_lease_time = 0, dc_xid = 0\<rparr>"

definition dhcp_server_set_ip :: "ip_address \<Rightarrow> dhcp_state \<Rightarrow> dhcp_state" where
  "dhcp_server_set_ip ip d = d\<lparr>dh_server_ip := ip, dh_server_ip_set := True\<rparr>"

definition dhcp_server_init :: "dhcp_state \<Rightarrow> dhcp_state" where
  "dhcp_server_init d = d\<lparr>dh_clients := replicate DHCP_MAX_CLIENTS zero_dhcp_client, dh_next_ip_octet := 20\<rparr>"

definition with_octet3 :: "ip_address \<Rightarrow> int \<Rightarrow> ip_address" where
  "with_octet3 ip n = ip\<lparr>octet := set_octet3 (of_int n) (octet ip)\<rparr>"

definition dhcp_taken :: "dhcp_client list \<Rightarrow> ip_address \<Rightarrow> bool" where
  "dhcp_taken clients ip \<longleftrightarrow>
    first_index (\<lambda>i. dc_in_use (clients ! i) \<and> ip_octets_equal (dc_ip (clients ! i)) ip) DHCP_MAX_CLIENTS \<noteq> None"

text \<open>The search for an address no client has, from the state of the counter.\<close>

function dhcp_search :: "dhcp_client list \<Rightarrow> ip_address \<Rightarrow> int \<Rightarrow> ip_address \<times> int" where
  "dhcp_search clients out next_octet =
    (if next_octet < 255 \<and> dhcp_taken clients out
     then dhcp_search clients (with_octet3 out (next_octet + 1)) (next_octet + 1)
     else (out, next_octet))"
  by pat_completeness auto
termination
  by (relation "measure (\<lambda>(_, _, n). nat (255 - n))") auto

declare dhcp_search.simps [simp del]

definition dhcp_allocate_ip :: "dhcp_state \<Rightarrow> bytes \<Rightarrow> ip_address option \<times> dhcp_state" where
  "dhcp_allocate_ip d chaddr =
    (let start = with_octet3 (dh_server_ip d) (dh_next_ip_octet d);
         (ip, n) = dhcp_search (dh_clients d) start (dh_next_ip_octet d + 1);
         d = d\<lparr>dh_next_ip_octet := n\<rparr>
     in if 254 \<le> n then (None, d)
        else case first_index (\<lambda>i. \<not> dc_in_use (dh_clients d ! i)) DHCP_MAX_CLIENTS of
          None \<Rightarrow> (Some ip, d)
        | Some slot \<Rightarrow>
            let c = dh_clients d ! slot
            in (Some ip, d\<lparr>dh_clients := (dh_clients d)[slot := c\<lparr>dc_in_use := True, dc_ip := ip,
                 dc_lease_time := 86400, dc_chaddr := overwrite 0 (take 6 chaddr) (dc_chaddr c)\<rparr>]\<rparr>))"

definition dhcp_client_index :: "dhcp_state \<Rightarrow> bytes \<Rightarrow> nat option" where
  "dhcp_client_index d mac =
    first_index (\<lambda>i. dc_in_use (dh_clients d ! i) \<and> take 6 (dc_chaddr (dh_clients d ! i)) = take 6 mac) DHCP_MAX_CLIENTS"

definition dhcp_get_lease :: "dhcp_state \<Rightarrow> bytes \<Rightarrow> ip_address option" where
  "dhcp_get_lease d mac = map_option (\<lambda>i. dc_ip (dh_clients d ! i)) (dhcp_client_index d mac)"

section \<open>The server's answers\<close>

text \<open>OFFER and ACK are built by the same statements.\<close>

definition dhcp_reply :: "ip_address \<Rightarrow> dhcp_message \<Rightarrow> u8 \<Rightarrow> ip_address \<Rightarrow> dhcp_message" where
  "dhcp_reply server_ip request msg_type yiaddr =
    dhcp_with_options
      (zero_dhcp_message\<lparr>dm_op := DHCP_BOOTREPLY, dm_htype := 1, dm_hlen := 6, dm_hops := 0,
        dm_xid := dm_xid request, dm_yiaddr := yiaddr, dm_siaddr := server_ip,
        dm_chaddr := dm_chaddr request, dm_magic_cookie := DHCP_MAGIC_COOKIE, dm_options_len := 0\<rparr>)
      [(DHCP_OPTION_MSG_TYPE, [msg_type]), (DHCP_OPTION_SERVER_ID, octet_bytes (octet server_ip)),
       (DHCP_OPTION_SUBNET_MASK, [255, 255, 255, 0]),
       (DHCP_OPTION_ROUTER, octet_bytes (set_octet3 1 (octet server_ip))),
       (DHCP_OPTION_LEASE_TIME, write_u32_be 86400)]"

definition dhcp_server_handle_discover :: "dhcp_state \<Rightarrow> dhcp_message \<Rightarrow> dhcp_message option \<times> dhcp_state" where
  "dhcp_server_handle_discover d discover =
    (if \<not> dh_server_ip_set d then (None, d)
     else case dhcp_allocate_ip d (dm_chaddr discover) of
       (None, d) \<Rightarrow> (None, d)
     | (Some offered, d) \<Rightarrow> (Some (dhcp_reply (dh_server_ip d) discover DHCP_OFFER offered), d))"

definition dhcp_requested_ip :: "dhcp_message \<Rightarrow> ip_address" where
  "dhcp_requested_ip request =
    (if octet0 (octet (dm_ciaddr request)) = 0 \<and> octet3 (octet (dm_ciaddr request)) = 0
     then dm_yiaddr request else dm_ciaddr request)"

definition dhcp_server_handle_request :: "dhcp_state \<Rightarrow> dhcp_message \<Rightarrow> dhcp_message option \<times> dhcp_state" where
  "dhcp_server_handle_request d request =
    (if \<not> dh_server_ip_set d then (None, d)
     else
       let ip = dhcp_requested_ip request
       in (Some (dhcp_reply (dh_server_ip d) request DHCP_ACK ip),
           case dhcp_client_index d (dm_chaddr request) of
             None \<Rightarrow> d
           | Some i \<Rightarrow> d\<lparr>dh_clients := (dh_clients d)[i := (dh_clients d ! i)\<lparr>dc_xid := dm_xid request, dc_ip := ip\<rparr>]\<rparr>))"

section \<open>The client's messages\<close>

definition magi_host_name :: bytes where
  "magi_host_name = map (\<lambda>c. of_nat (of_char c)) ''magi-host''"

definition dhcp_create_discover :: "u32 \<Rightarrow> bytes \<Rightarrow> dhcp_message" where
  "dhcp_create_discover xid mac =
    dhcp_with_options
      (zero_dhcp_message\<lparr>dm_op := DHCP_BOOTREQUEST, dm_htype := 1, dm_hlen := 6, dm_xid := xid,
        dm_chaddr := overwrite 0 (take 6 mac) (replicate 16 0), dm_magic_cookie := DHCP_MAGIC_COOKIE\<rparr>)
      [(DHCP_OPTION_MSG_TYPE, [DHCP_DISCOVER]), (DHCP_OPTION_REQUEST_LIST, [1, 3, 6, 15, 51]),
       (DHCP_OPTION_HOSTNAME, magi_host_name)]"

definition dhcp_create_request :: "u32 \<Rightarrow> bytes \<Rightarrow> ip_address \<Rightarrow> ip_address \<Rightarrow> dhcp_message" where
  "dhcp_create_request xid mac requested_ip server_ip =
    dhcp_with_options
      (zero_dhcp_message\<lparr>dm_op := DHCP_BOOTREQUEST, dm_htype := 1, dm_hlen := 6, dm_xid := xid,
        dm_ciaddr := requested_ip, dm_chaddr := overwrite 0 (take 6 mac) (replicate 16 0),
        dm_magic_cookie := DHCP_MAGIC_COOKIE\<rparr>)
      [(DHCP_OPTION_MSG_TYPE, [DHCP_REQUEST]), (50, octet_bytes (octet requested_ip)),
       (DHCP_OPTION_SERVER_ID, octet_bytes (octet server_ip))]"

section \<open>The server on a host\<close>

definition dhcp_server_attach_host :: "node_id \<Rightarrow> world \<Rightarrow> world option" where
  "dhcp_server_attach_host n w = do {
    h \<leftarrow> get_host n w;
    let d = (w_dhcp w)\<lparr>dh_bound_host := Some n\<rparr>;
        d = (if h_has_ip h then dhcp_server_set_ip (h_ip h) d else d)
    in Some (w\<lparr>w_dhcp := dhcp_server_init d\<rparr>)
  }"

definition dhcp_server_detach_host :: "world \<Rightarrow> world" where
  "dhcp_server_detach_host w = w\<lparr>w_dhcp := (w_dhcp w)\<lparr>dh_bound_host := None\<rparr>\<rparr>"

text \<open>One datagram through a socket of its own, as the DHCP and the DNS server send theirs.\<close>

definition reply_by_socket ::
  "sender \<Rightarrow> node_id \<Rightarrow> u16 \<Rightarrow> bytes \<Rightarrow> ip_address \<Rightarrow> u16 \<Rightarrow> world \<Rightarrow> (bool \<times> world) option" where
  "reply_by_socket send n port data dst_ip dst_port w =
    (let (fd, w) = magi_socket AF_INET SOCK_DGRAM w
     in if fd < 0 then Some (False, w)
        else
          let (r, w) = magi_socket_attach_host fd n w
          in if r < 0 then do { (_, w) \<leftarrow> magi_close send fd w; Some (False, w) }
             else do {
               h \<leftarrow> get_host n w;
               let (r, w) = magi_bind fd (h_ip h) port w;
               if r < 0 then do { (_, w) \<leftarrow> magi_close send fd w; Some (False, w) }
               else do {
                 (r, w) \<leftarrow> magi_sendto send fd data dst_ip dst_port w;
                 (_, w) \<leftarrow> magi_close send fd w;
                 Some (0 < r, w)
               }
             })"

definition dhcp_send_response :: "sender \<Rightarrow> node_id \<Rightarrow> dhcp_message \<Rightarrow> world \<Rightarrow> (bool \<times> world) option" where
  "dhcp_send_response send n response w =
    (case dhcp_message_to_bytes response (DHCP_HEADER_SIZE + DHCP_OPTIONS_SIZE) of
       None \<Rightarrow> Some (False, w)
     | Some raw \<Rightarrow>
         reply_by_socket send n DHCP_SERVER_PORT raw (ip_init (Octets 255 255 255 255) 0) DHCP_CLIENT_PORT w)"

definition dhcp_server_dispatch :: "sender \<Rightarrow> node_id \<Rightarrow> udp_datagram \<Rightarrow> world \<Rightarrow> (bool \<times> world) option" where
  "dhcp_server_dispatch send n request w =
    (if dh_bound_host (w_dhcp w) \<noteq> Some n then Some (False, w)
     else case dhcp_message_from_bytes (udp_payload request) of
       None \<Rightarrow> Some (False, w)
     | Some incoming \<Rightarrow> do {
         msg_type \<leftarrow> dhcp_get_msg_type incoming;
         if msg_type = uint DHCP_DISCOVER \<or> msg_type = uint DHCP_REQUEST then
           let (response, d) = (if msg_type = uint DHCP_DISCOVER then dhcp_server_handle_discover (w_dhcp w) incoming
                                else dhcp_server_handle_request (w_dhcp w) incoming);
               w = w\<lparr>w_dhcp := d\<rparr>
           in case response of
                None \<Rightarrow> Some (False, w)
              | Some m \<Rightarrow> dhcp_send_response send n m w
         else Some (False, w)
       })"

end
