(* ===== verification/Dns.thy ===== *)
theory Dns
  imports Dhcp
begin

text \<open>
  The DNS server and the messages of its clients: \<^verbatim>\<open>layer7/dns_server.c\<close>. A C string is a
  \<open>string\<close> without the terminating zero; a buffer that is then used as a C string is cut at its
  first zero by \<open>c_string\<close>. The decoder follows compression pointers and may never stop, and it
  may read a byte that is not part of the message: both are \<open>None\<close>.
\<close>

abbreviation DNS_SERVER_PORT :: u16 where "DNS_SERVER_PORT \<equiv> 53"
abbreviation DNS_MAX_NAME :: nat where "DNS_MAX_NAME \<equiv> 256"
abbreviation DNS_MAX_ENTRIES :: nat where "DNS_MAX_ENTRIES \<equiv> 32"
abbreviation DNS_QR_QUERY :: u16 where "DNS_QR_QUERY \<equiv> 0x0000"
abbreviation DNS_QR_RESPONSE :: u16 where "DNS_QR_RESPONSE \<equiv> 0x8000"
abbreviation DNS_OPCODE_QUERY :: u16 where "DNS_OPCODE_QUERY \<equiv> 0x0000"
abbreviation DNS_AA_FLAG :: u16 where "DNS_AA_FLAG \<equiv> 0x0400"
abbreviation DNS_RD_FLAG :: u16 where "DNS_RD_FLAG \<equiv> 0x0100"
abbreviation DNS_RA_FLAG :: u16 where "DNS_RA_FLAG \<equiv> 0x0080"
abbreviation DNS_RCODE_NXDOMAIN :: u16 where "DNS_RCODE_NXDOMAIN \<equiv> 3"
abbreviation DNS_TYPE_A :: u16 where "DNS_TYPE_A \<equiv> 1"
abbreviation DNS_CLASS_IN :: u16 where "DNS_CLASS_IN \<equiv> 1"

definition byte_of_char :: "char \<Rightarrow> u8" where
  "byte_of_char c = of_nat (of_char c)"

definition char_of_byte :: "u8 \<Rightarrow> char" where
  "char_of_byte b = char_of (unat b)"

definition c_string :: "string \<Rightarrow> string" where
  "c_string s = takeWhile (\<lambda>c. c \<noteq> CHR 0x00) s"

section \<open>The table of names\<close>

fun dns_set_first :: "string \<Rightarrow> ip_address \<Rightarrow> (string \<times> ip_address) list \<Rightarrow> (string \<times> ip_address) list option" where
  "dns_set_first hostname ip [] = None"
| "dns_set_first hostname ip ((k, v) # es) =
    (if k = hostname then Some ((k, ip) # es) else map_option (Cons (k, v)) (dns_set_first hostname ip es))"

definition dns_server_add_entry :: "string \<Rightarrow> ip_address \<Rightarrow> dns_state \<Rightarrow> bool \<times> dns_state" where
  "dns_server_add_entry hostname ip d =
    (if DNS_MAX_ENTRIES \<le> length (dn_table d) then (False, d)
     else case dns_set_first hostname ip (dn_table d) of
       Some table \<Rightarrow> (True, d\<lparr>dn_table := table\<rparr>)
     | None \<Rightarrow> (True, d\<lparr>dn_table := dn_table d @ [(take (DNS_MAX_NAME - 1) hostname, ip)]\<rparr>))"

definition dns_server_init :: "dns_state \<Rightarrow> dns_state" where
  "dns_server_init d =
    (let ip1 = ip_init (Octets 10 0 0 5) 0;
         ip2 = ip_init (Octets 192 168 1 10) 0;
         ip3 = ip_init (Octets 10 0 0 1) 0
     in fold (\<lambda>(name, ip) d. snd (dns_server_add_entry name ip d))
          [(''www.magi.com'', ip1), (''magi.com'', ip1), (''www.internet.com'', ip1),
           (''server.magi.com'', ip2), (''router.magi.com'', ip3), (''localhost'', ip2)]
          (d\<lparr>dn_table := []\<rparr>))"

definition dns_clean_name :: "string \<Rightarrow> string" where
  "dns_clean_name hostname =
    (let h = (if take 7 hostname = ''http://'' then drop 7 hostname else hostname)
     in takeWhile (\<lambda>c. c \<noteq> CHR ''/'') (take (DNS_MAX_NAME - 1) h))"

definition dns_server_resolve :: "string \<Rightarrow> dns_state \<Rightarrow> ip_address option" where
  "dns_server_resolve hostname d =
    map_option snd (List.find (\<lambda>e. fst e = dns_clean_name hostname) (dn_table d))"

section \<open>Names on the wire\<close>

function dns_encode_loop :: "bytes \<Rightarrow> nat \<Rightarrow> string \<Rightarrow> bytes option" where
  "dns_encode_loop out out_size p =
    (if p = [] then (if out_size < length out + 1 then None else Some (out @ [0]))
     else
       let label = takeWhile (\<lambda>c. c \<noteq> CHR ''.'') p
       in if out_size < length out + 1 + length label then None
          else dns_encode_loop (out @ of_nat (length label) # map byte_of_char label) out_size
            (tl (dropWhile (\<lambda>c. c \<noteq> CHR ''.'') p)))"
  by pat_completeness auto
termination
proof (relation "measure (\<lambda>(_, _, p). length p)", goal_cases)
  case (2 out out_size p label)
  have "length (dropWhile (\<lambda>c. c \<noteq> CHR ''.'') p) \<le> length p" by (rule length_dropWhile_le)
  moreover from 2 have "0 < length p" by simp
  ultimately have "length (dropWhile (\<lambda>c. c \<noteq> CHR ''.'') p) - 1 < length p" by linarith
  then show ?case by simp
qed simp

declare dns_encode_loop.simps [simp del]

definition dns_encode_name :: "nat \<Rightarrow> string \<Rightarrow> bytes option" where
  "dns_encode_name out_size name = dns_encode_loop [] out_size name"

text \<open>
  The result is the number of bytes of the source that the name takes, 0 for an error, and the
  characters written. The second byte of the first pointer is read after the position has
  already moved past the pointer.
\<close>

partial_function (option) dns_decode_loop ::
  "bytes \<Rightarrow> nat \<Rightarrow> nat \<Rightarrow> nat \<Rightarrow> string \<Rightarrow> bool \<Rightarrow> (nat \<times> string) option" where
  "dns_decode_loop raw max_len out_size src_pos out jumped =
    (if \<not> src_pos < max_len then Some (if jumped then 2 else src_pos, out)
     else if length raw \<le> src_pos then None
     else
       let label_len = raw ! src_pos
       in if label_len AND 0xC0 = 0xC0 then
            if max_len < src_pos + 2 then Some (0, out)
            else
              let src_pos = (if jumped then src_pos else src_pos + 2)
              in if length raw \<le> src_pos + 1 then None
                 else
                   let target = unat (label_len AND 0x3F) * 256 + unat (raw ! (src_pos + 1))
                   in if max_len \<le> target then Some (0, out)
                      else dns_decode_loop raw max_len out_size target out True
          else
            let src_pos = src_pos + 1; len = unat label_len
            in if len = 0 then Some (if jumped then 2 else src_pos, out)
               else
                 let out = (if out \<noteq> [] \<and> length out < out_size - 1 then out @ ''.'' else out)
                 in if max_len < src_pos + len then Some (0, out)
                    else if out_size \<le> length out + len then Some (0, out)
                    else dns_decode_loop raw max_len out_size (src_pos + len)
                      (out @ map char_of_byte (take len (drop src_pos raw))) jumped)"

definition dns_decode_name :: "bytes \<Rightarrow> nat \<Rightarrow> nat \<Rightarrow> (nat \<times> string) option" where
  "dns_decode_name raw max_len out_size = dns_decode_loop raw max_len out_size 0 [] False"

section \<open>Messages\<close>

definition dns_create_query :: "nat \<Rightarrow> u16 \<Rightarrow> string \<Rightarrow> bytes option" where
  "dns_create_query out_size ident hostname =
    (case dns_encode_name DNS_MAX_NAME hostname of
       None \<Rightarrow> None
     | Some name \<Rightarrow>
         if out_size < 12 then None
         else if out_size < 12 + length name + 4 then None
         else Some (write_u16_be ident @ write_u16_be (DNS_QR_QUERY OR DNS_OPCODE_QUERY OR DNS_RD_FLAG) @
           write_u16_be 1 @ write_u16_be 0 @ write_u16_be 0 @ write_u16_be 0 @
           name @ write_u16_be DNS_TYPE_A @ write_u16_be DNS_CLASS_IN))"

text \<open>The position after the question section, or \<open>None\<close> inside for a malformed name.\<close>

fun dns_skip_questions :: "nat \<Rightarrow> bytes \<Rightarrow> nat \<Rightarrow> nat option option" where
  "dns_skip_questions 0 raw pos = Some (Some pos)"
| "dns_skip_questions (Suc n) raw pos =
    (if \<not> pos < length raw then Some (Some pos)
     else do {
       (consumed, _) \<leftarrow> dns_decode_name (drop pos raw) (length raw - pos) DNS_MAX_NAME;
       if consumed = 0 then Some None else dns_skip_questions n raw (pos + consumed + 4)
     })"

fun dns_scan_answers :: "nat \<Rightarrow> bytes \<Rightarrow> nat \<Rightarrow> ip_address option option" where
  "dns_scan_answers 0 raw pos = Some None"
| "dns_scan_answers (Suc n) raw pos =
    (if \<not> pos < length raw then Some None
     else do {
       consumed \<leftarrow> (if raw ! pos AND 0xC0 = 0xC0 then Some 2
                    else map_option fst (dns_decode_name (drop pos raw) (length raw - pos) DNS_MAX_NAME));
       if consumed = 0 then Some None
       else
         let pos = pos + consumed
         in if length raw < pos + 10 then Some None
            else
              let rtype = read_u16_be raw pos;
                  rdlength = read_u16_be raw (pos + 8);
                  pos = pos + 10
              in if rtype = DNS_TYPE_A \<and> rdlength = 4 \<and> pos + 4 \<le> length raw
                 then Some (Some (ip_init (octets_of_list (take 4 (drop pos raw))) 0))
                 else dns_scan_answers n raw (pos + unat rdlength)
     })"

definition dns_parse_response :: "bytes \<Rightarrow> ip_address option option" where
  "dns_parse_response raw =
    (if length raw < 12 then Some None
     else if read_u16_be raw 2 AND 0x000F \<noteq> 0 then Some None
     else do {
       pos \<leftarrow> dns_skip_questions (unat (read_u16_be raw 4)) raw 12;
       case pos of
         None \<Rightarrow> Some None
       | Some pos \<Rightarrow> dns_scan_answers (unat (read_u16_be raw 6)) raw pos
     })"

definition dns_response_flags :: "bool \<Rightarrow> u16" where
  "dns_response_flags found =
    (let flags = DNS_QR_RESPONSE OR DNS_OPCODE_QUERY OR DNS_AA_FLAG OR DNS_RD_FLAG OR DNS_RA_FLAG
     in if found then flags else flags OR DNS_RCODE_NXDOMAIN)"

definition dns_build_response :: "nat \<Rightarrow> u16 \<Rightarrow> bytes \<Rightarrow> ip_address option \<Rightarrow> bytes option" where
  "dns_build_response max_resp_len ident enc_name resolved =
    (if max_resp_len < 12 then None
     else if max_resp_len < 12 + length enc_name + 4 then None
     else
       let out = write_u16_be ident @ write_u16_be (dns_response_flags (resolved \<noteq> None)) @ write_u16_be 1 @
             write_u16_be (if resolved \<noteq> None then 1 else 0) @ write_u16_be 0 @ write_u16_be 0 @
             enc_name @ write_u16_be DNS_TYPE_A @ write_u16_be DNS_CLASS_IN
       in case resolved of
            None \<Rightarrow> Some out
          | Some ip \<Rightarrow>
              if max_resp_len < length out + 2 then None
              else if max_resp_len < length out + 2 + 8 + 4 then None
              else Some (out @ write_u16_be 0xC00C @ write_u16_be DNS_TYPE_A @ write_u16_be DNS_CLASS_IN @
                write_u32_be 300 @ write_u16_be 4 @ octet_bytes (octet ip)))"

definition dns_server_handle_query :: "dns_state \<Rightarrow> bytes \<Rightarrow> nat \<Rightarrow> bytes option option" where
  "dns_server_handle_query d query max_resp_len =
    (if length query < 12 then Some None
     else do {
       (decoded, buffer) \<leftarrow> dns_decode_name (drop 12 query) (length query - 12) DNS_MAX_NAME;
       if decoded = 0 then Some None
       else
         let qname = c_string buffer
         in case dns_encode_name DNS_MAX_NAME qname of
              None \<Rightarrow> Some None
            | Some enc_name \<Rightarrow>
                Some (dns_build_response max_resp_len (read_u16_be query 0) enc_name (dns_server_resolve qname d))
     })"

section \<open>The server on a host\<close>

definition dns_server_attach_host :: "node_id \<Rightarrow> world \<Rightarrow> world" where
  "dns_server_attach_host n w =
    (let d = (w_dns w)\<lparr>dn_bound_host := Some n\<rparr>
     in w\<lparr>w_dns := if dn_table d = [] then dns_server_init d else d\<rparr>)"

definition dns_server_detach_host :: "world \<Rightarrow> world" where
  "dns_server_detach_host w = w\<lparr>w_dns := (w_dns w)\<lparr>dn_bound_host := None\<rparr>\<rparr>"

definition dns_server_dispatch ::
  "sender \<Rightarrow> node_id \<Rightarrow> udp_datagram \<Rightarrow> ip_address \<Rightarrow> u16 \<Rightarrow> world \<Rightarrow> (bool \<times> world) option" where
  "dns_server_dispatch send n request src_ip src_port w =
    (if dn_bound_host (w_dns w) \<noteq> Some n then Some (False, w)
     else do {
       answer \<leftarrow> dns_server_handle_query (w_dns w) (udp_payload request) 1024;
       case answer of
         None \<Rightarrow> Some (False, w)
       | Some response \<Rightarrow> reply_by_socket send n DNS_SERVER_PORT response src_ip src_port w
     })"

end
