(* ===== verification/Http.thy ===== *)
theory Http
  imports Dns
begin

text \<open>
  The HTTP server: \<^verbatim>\<open>layer7/http_server.c\<close>. Its static variable is \<open>http_state\<close> of the world; a
  request is the bytes received, a response the bytes written to the response buffer. The status
  line printed to the console is left out.
\<close>

abbreviation HTTP_SERVER_PORT :: u16 where "HTTP_SERVER_PORT \<equiv> 80"
abbreviation HTTP_BUFFER_SIZE :: nat where "HTTP_BUFFER_SIZE \<equiv> 4096"

definition http_server_init :: "http_state \<Rightarrow> http_state" where
  "http_server_init s = s\<lparr>hs_running := False, hs_root_dir := [], hs_bound_host := None, hs_listen_sockfd := - 1\<rparr>"

definition http_server_start :: "string option \<Rightarrow> http_state \<Rightarrow> http_state" where
  "http_server_start root_dir s =
    s\<lparr>hs_running := True, hs_root_dir := take 255 (case root_dir of None \<Rightarrow> ''/var/www'' | Some d \<Rightarrow> d)\<rparr>"

definition http_server_stop :: "sender \<Rightarrow> world \<Rightarrow> (bool \<times> world) option" where
  "http_server_stop send w =
    (if \<not> hs_running (w_http w) then Some (False, w)
     else do {
       w \<leftarrow> (if 0 \<le> hs_listen_sockfd (w_http w) then do {
              (_, w) \<leftarrow> magi_close send (hs_listen_sockfd (w_http w)) w;
              Some (w\<lparr>w_http := (w_http w)\<lparr>hs_listen_sockfd := - 1\<rparr>\<rparr>)
            } else Some w);
       Some (True, w\<lparr>w_http := (w_http w)\<lparr>hs_bound_host := None, hs_running := False\<rparr>\<rparr>)
     })"

section \<open>Requests\<close>

text \<open>The loop that copies a token up to a space, at most \<open>n\<close> characters of it.\<close>

fun scan_token :: "nat \<Rightarrow> string \<Rightarrow> string \<times> string" where
  "scan_token n [] = ([], [])"
| "scan_token n (c # cs) =
    (if c = CHR '' '' \<or> n = 0 then ([], c # cs)
     else (let (t, r) = scan_token (n - 1) cs in (c # t, r)))"

definition http_parse_request :: "string \<Rightarrow> nat \<Rightarrow> nat \<Rightarrow> (string \<times> string) option" where
  "http_parse_request request method_size path_size =
    (let (meth, rest) = scan_token (method_size - 1) request
     in if rest = [] \<or> hd rest \<noteq> CHR '' '' then None
        else
          let (path, _) = scan_token (path_size - 1) (tl rest)
          in if path = [] then None else Some (c_string meth, c_string path))"

section \<open>Responses\<close>

definition crlf :: string where
  "crlf = [CHR 0x0D, CHR 0x0A]"

definition http_header :: "nat \<Rightarrow> string \<Rightarrow> string \<Rightarrow> nat \<Rightarrow> string" where
  "http_header status_code status_text content_type body_len =
    ''HTTP/1.1 '' @ decimal status_code @ '' '' @ status_text @ crlf @
    ''Content-Type: '' @ content_type @ crlf @
    ''Content-Length: '' @ decimal body_len @ crlf @
    ''Server: MagiSystem/1.0'' @ crlf @
    ''Connection: close'' @ crlf @
    crlf"

definition http_build_response :: "nat \<Rightarrow> string \<Rightarrow> string \<Rightarrow> string \<Rightarrow> nat \<Rightarrow> string option" where
  "http_build_response status_code status_text content_type body max_resp_len =
    (let header = http_header status_code status_text content_type (length body)
     in if max_resp_len \<le> length header then None
        else if 0 < length body \<and> length header + length body < max_resp_len then Some (header @ body)
        else Some header)"

definition http_default_lines :: "string list" where
  "http_default_lines = [
    ''<!DOCTYPE html>'',
    ''<html lang=\"en\">'',
    ''<head>'',
    ''  <meta charset=\"UTF-8\">'',
    ''  <meta name=\"viewport\" content=\"width=device-width, initial-scale=1.0\">'',
    ''  <title>Magi System HTTP Server</title>'',
    ''  <style>'',
    ''    body { font-family: 'Segoe UI', Arial, sans-serif; margin: 0; padding: 0;            background: linear-gradient(135deg, #0a0a2e 0%, #1a1a4e 50%, #0a0a2e 100%);'',
    ''           color: #e0e0ff; min-height: 100vh; display: flex; justify-content: center;            align-items: center; }'',
    ''    .container { text-align: center; padding: 40px; border: 1px solid #4a4a8a;                  border-radius: 15px; background: rgba(10, 10, 46, 0.8);                  box-shadow: 0 0 40px rgba(74, 74, 138, 0.3); max-width: 600px; }'',
    ''    h1 { color: #7f7fff; font-size: 2.5em; margin-bottom: 10px;          text-shadow: 0 0 20px rgba(127, 127, 255, 0.5); }'',
    ''    p { font-size: 1.1em; line-height: 1.6; color: #b0b0d0; }'',
    ''    .status { color: #00ff88; font-size: 1.2em; margin: 20px 0; }'',
    ''    .footer { margin-top: 30px; font-size: 0.85em; color: #6a6a8a; }'',
    ''    .badge { display: inline-block; padding: 5px 15px; border-radius: 20px;              background: rgba(0, 255, 136, 0.1); border: 1px solid #00ff88;              color: #00ff88; font-size: 0.9em; margin: 10px 0; }'',
    ''  </style>'',
    ''</head>'',
    ''<body>'',
    ''  <div class=\"container\">'',
    ''    <h1>Welcome to Magi System!</h1>'',
    ''    <div class=\"badge\">HTTP/1.1 200 OK</div>'',
    ''    <p>This is the default page served by the Magi System HTTP Server.</p>'',
    ''    <div class=\"status\">&#10003; Connection Established</div>'',
    ''    <div class=\"footer\">Magi System v1.0 | NERV Simulation Framework</div>'',
    ''  </div>'',
    ''</body>'',
    ''</html>'']"

definition http_default_body :: string where
  "http_default_body = concat (map (\<lambda>l. l @ [CHR 0x0A]) http_default_lines)"

definition http_serve_default :: "nat \<Rightarrow> string option" where
  "http_serve_default max_resp_len =
    http_build_response 200 ''OK'' ''text/html; charset=utf-8'' http_default_body max_resp_len"

definition http_server_handle_request :: "string \<Rightarrow> nat \<Rightarrow> string option" where
  "http_server_handle_request request max_resp_len =
    (case http_parse_request request 16 512 of
       None \<Rightarrow> http_build_response 400 ''Bad Request'' ''text/plain'' ''Bad Request'' max_resp_len
     | Some (meth, _) \<Rightarrow>
         if meth = ''GET'' then http_serve_default max_resp_len
         else if meth = ''HEAD'' then http_build_response 200 ''OK'' ''text/html'' [] max_resp_len
         else http_build_response 405 ''Method Not Allowed'' ''text/plain'' ''Method Not Allowed'' max_resp_len)"

section \<open>The server on a host\<close>

definition http_server_attach_host :: "sender \<Rightarrow> node_id \<Rightarrow> world \<Rightarrow> (bool \<times> world) option" where
  "http_server_attach_host send n w =
    (if \<not> hs_running (w_http w) then Some (False, w)
     else
       let (fd, w) = magi_socket AF_INET SOCK_STREAM w
       in if fd < 0 then Some (False, w)
          else
            let (r, w) = magi_socket_attach_host fd n w
            in if r < 0 then do { (_, w) \<leftarrow> magi_close send fd w; Some (False, w) }
               else do {
                 h \<leftarrow> get_host n w;
                 let (r, w) = magi_bind fd (h_ip h) HTTP_SERVER_PORT w;
                 if r < 0 then do { (_, w) \<leftarrow> magi_close send fd w; Some (False, w) }
                 else do {
                   (r, w) \<leftarrow> magi_listen fd 5 w;
                   if r < 0 then do { (_, w) \<leftarrow> magi_close send fd w; Some (False, w) }
                   else Some (True, w\<lparr>w_http := (w_http w)\<lparr>hs_bound_host := Some n, hs_listen_sockfd := fd\<rparr>\<rparr>)
                 }
               })"

partial_function (option) http_send_loop :: "sender \<Rightarrow> int \<Rightarrow> bytes \<Rightarrow> world \<Rightarrow> (bool \<times> world) option" where
  "http_send_loop send conn_fd rest w =
    (if rest = [] then Some (True, w)
     else do {
       (s, w) \<leftarrow> magi_send send conn_fd (take TCP_MAX_PAYLOAD rest) w;
       if s < 0 then Some (False, w) else http_send_loop send conn_fd (drop (nat s) rest) w
     })"

definition http_server_dispatch :: "sender \<Rightarrow> node_id \<Rightarrow> world \<Rightarrow> (bool \<times> world) option" where
  "http_server_dispatch send n w =
    (if \<not> hs_running (w_http w) \<or> hs_bound_host (w_http w) = None then Some (False, w)
     else if hs_bound_host (w_http w) \<noteq> Some n then Some (False, w)
     else if hs_listen_sockfd (w_http w) < 0 then Some (False, w)
     else do {
       (conn_fd, _, w) \<leftarrow> magi_accept (hs_listen_sockfd (w_http w)) w;
       if conn_fd < 0 then Some (False, w)
       else do {
         (received, buf, w) \<leftarrow> magi_recv conn_fd (HTTP_BUFFER_SIZE - 1) w;
         if received \<le> 0 then do { (_, w) \<leftarrow> magi_close send conn_fd w; Some (False, w) }
         else case http_server_handle_request (map char_of_byte buf) HTTP_BUFFER_SIZE of
           None \<Rightarrow> do { (_, w) \<leftarrow> magi_close send conn_fd w; Some (False, w) }
         | Some response \<Rightarrow> do {
             (ok, w) \<leftarrow> http_send_loop send conn_fd (map byte_of_char response) w;
             (_, w) \<leftarrow> magi_close send conn_fd w;
             Some (ok, w)
           }
       }
     })"

section \<open>The client\<close>

text \<open>
  \<^verbatim>\<open>magi_resolve\<close> and \<^verbatim>\<open>magi_http_get\<close> of \<^verbatim>\<open>layer7/magi_socket.c\<close>. The text handed back to the
  caller is a fixed one; what the server answers is never read.
\<close>

definition magi_resolve :: "string \<Rightarrow> ip_address \<Rightarrow> world \<Rightarrow> (bool \<times> ip_address) option" where
  "magi_resolve hostname out_ip w = do {
    (ok, out_ip) \<leftarrow> ip_parse hostname out_ip;
    if ok then Some (True, out_ip)
    else case dns_server_resolve hostname (w_dns w) of
      Some ip \<Rightarrow> Some (True, ip)
    | None \<Rightarrow> Some (False, out_ip)
  }"

definition http_get_request :: "string \<Rightarrow> string option \<Rightarrow> string" where
  "http_get_request hostname path = take 511
    (''GET '' @ (case path of None \<Rightarrow> ''/'' | Some p \<Rightarrow> p) @ '' HTTP/1.1'' @ crlf @
     ''Host: '' @ hostname @ crlf @
     ''User-Agent: MagiSystem/1.0'' @ crlf @
     ''Accept: */*'' @ crlf @
     ''Connection: close'' @ crlf @
     crlf)"

definition http_get_canned :: string where
  "http_get_canned =
     ''HTTP/1.1 200 OK'' @ crlf @
     ''Content-Type: text/html'' @ crlf @
     ''Content-Length: 129'' @ crlf @
     ''Connection: close'' @ crlf @
     crlf @
     ''<!DOCTYPE html><html><head><title>Magi System</title></head>'' @
     ''<body><h1>Welcome to Magi System!</h1>'' @
     ''<p>This is a static response from the HTTP server.</p>'' @
     ''</body></html>'' @ crlf"

definition magi_http_get ::
  "sender \<Rightarrow> int \<Rightarrow> string \<Rightarrow> string option \<Rightarrow> nat \<Rightarrow> world \<Rightarrow> (int \<times> string \<times> world) option" where
  "magi_http_get send fd hostname path resp_size w =
    (if \<not> valid_fd fd w then Some (- 1, [], w)
     else if ms_host (sock_of fd w) = None then Some (- 1, [], w)
     else do {
       (ok, ip) \<leftarrow> magi_resolve hostname zero_ip w;
       if \<not> ok then Some (- 1, [], w)
       else do {
         (r, w) \<leftarrow> magi_connect send fd ip 80 w;
         if r < 0 then Some (- 1, [], w)
         else do {
           (r, w) \<leftarrow> magi_send send fd (map byte_of_char (http_get_request hostname path)) w;
           if r < 0 then Some (- 1, [], w)
           else Some (1, take (resp_size - 1) http_get_canned, w)
         }
       }
     })"

end
