(* ===== verification/Host.thy ===== *)
theory Host
  imports Http
begin

text \<open>
  What a host does with a frame it receives: \<^verbatim>\<open>host_receive\<close> of \<^verbatim>\<open>layer2/host.c\<close>, one definition
  per protocol. The socket that a segment is for is a slot of the host's array; it is read again
  after the response is sent, because sending may change it.
\<close>

definition host_handle_arp :: "sender \<Rightarrow> node_id \<Rightarrow> bytes \<Rightarrow> world \<Rightarrow> world option" where
  "host_handle_arp send n payload w = do {
    h \<leftarrow> get_host n w;
    case arp_message_from_bytes payload of
      None \<Rightarrow> Some w
    | Some arp \<Rightarrow>
        let h = snd (host_learn_arp h arp);
            w = put_host n h w
        in if arp_op arp = ARP_OPCODE_REQUEST \<and> h_has_ip h \<and> ip_octets_equal (arp_target_ip arp) (h_ip h) then do {
             (_, w) \<leftarrow> host_send_arp_reply send n arp w;
             Some w
           }
           else if arp_op arp = ARP_OPCODE_REPLY then do {
             (_, w) \<leftarrow> host_flush_pending_packets send n (arp_sender_ip arp) w;
             Some w
           }
           else Some w
  }"

definition host_handle_udp :: "sender \<Rightarrow> node_id \<Rightarrow> ipv4_packet \<Rightarrow> world \<Rightarrow> world option" where
  "host_handle_udp send n packet w = do {
    h \<leftarrow> get_host n w;
    case udp_from_bytes (ip4_payload packet) of
      None \<Rightarrow> Some w
    | Some udp \<Rightarrow>
        if \<not> udp_validate_checksum udp (ip4_src packet) (ip4_dst packet) then Some w
        else
          let w = put_host n (h\<lparr>h_last_udp := udp, h_last_udp_src := ip4_src packet, h_has_udp := True\<rparr>) w
          in if udp_dst_port udp = DHCP_SERVER_PORT \<and> dh_bound_host (w_dhcp w) = Some n then do {
               (_, w) \<leftarrow> dhcp_server_dispatch send n udp w;
               Some w
             }
             else if udp_dst_port udp = DNS_SERVER_PORT \<and> dn_bound_host (w_dns w) = Some n then do {
               (_, w) \<leftarrow> dns_server_dispatch send n udp (ip4_src packet) (udp_src_port udp) w;
               Some w
             }
             else Some w
  }"

text \<open>The socket for a segment; a SYN for a listener gets a new socket, if there is a free one.\<close>

definition host_tcp_target ::
  "tcp_socket list \<Rightarrow> ip_address \<Rightarrow> tcp_segment \<Rightarrow> ip_address \<Rightarrow> (nat \<times> tcp_socket list) option" where
  "host_tcp_target socks local_ip g src_ip =
    (case tcp_socket_find socks local_ip (seg_dst_port g) src_ip (seg_src_port g) of
       None \<Rightarrow> None
     | Some i \<Rightarrow>
         if sk_is_listening (socks ! i) \<and> has_flag g TCP_FLAG_SYN \<and>
            \<not> has_flag g (TCP_FLAG_ACK OR TCP_FLAG_FIN OR TCP_FLAG_RST) then
           (case tcp_socket_alloc socks of
              None \<Rightarrow> None
            | Some (c, socks) \<Rightarrow> Some (c, socks[c := tcp_child i (socks ! i) g src_ip (socks ! c)]))
         else Some (i, socks))"

definition host_send_tcp_response ::
  "sender \<Rightarrow> node_id \<Rightarrow> ip_address \<Rightarrow> tcp_segment \<Rightarrow> world \<Rightarrow> world option" where
  "host_send_tcp_response send n dst response w = do {
    h \<leftarrow> get_host n w;
    if seg_flags response \<noteq> 0 \<and> 0 < seg_src_port response then
      (case segment_packet (h_ip h) dst response TCP_HEADER_SIZE of
         None \<Rightarrow> Some w
       | Some ip_raw \<Rightarrow> do {
           (_, w) \<leftarrow> host_send_l3_packet send n dst ETHERNET_TYPE_IPV4 ip_raw w;
           Some w
         })
    else Some w
  }"

definition host_handle_tcp :: "sender \<Rightarrow> node_id \<Rightarrow> ipv4_packet \<Rightarrow> world \<Rightarrow> world option" where
  "host_handle_tcp send n packet w = do {
    h \<leftarrow> get_host n w;
    case tcp_from_bytes (ip4_payload packet) of
      None \<Rightarrow> Some w
    | Some g \<Rightarrow>
        if \<not> tcp_validate_checksum g (ip4_src packet) (ip4_dst packet) then Some w
        else case host_tcp_target (h_tcp h) (h_ip h) g (ip4_src packet) of
          None \<Rightarrow> Some w
        | Some (i, socks) \<Rightarrow>
            let (ok, s, response) =
                  tcp_socket_receive_segment (socks ! i) g (ip4_src packet) (ip4_dst packet) tcp_init;
                h = h\<lparr>h_tcp := socks[i := s]\<rparr>
            in if \<not> ok then Some (put_host n h w)
               else do {
                 w \<leftarrow> host_send_tcp_response send n (ip4_src packet) response
                   (put_host n (h\<lparr>h_last_tcp := g, h_has_tcp := True\<rparr>) w);
                 s \<leftarrow> get_tcp (n, i) w;
                 if sk_state s = TCP_ESTABLISHED \<and> sk_has_data s \<and> sk_local_port s = HTTP_SERVER_PORT \<and>
                    hs_bound_host (w_http w) = Some n then do {
                   (_, w) \<leftarrow> http_server_dispatch send n w;
                   Some w
                 } else Some w
               }
  }"

definition host_echo_reply :: "ip_address \<Rightarrow> ip_address \<Rightarrow> icmp_message \<Rightarrow> bytes option" where
  "host_echo_reply src dst icmp = do {
    reply \<leftarrow> icmp_create ICMP_ECHO_REPLY 0 (icmp_identifier icmp) (icmp_sequence icmp) (icmp_payload icmp);
    icmp_raw \<leftarrow> icmp_to_bytes reply (ICMP_HEADER_SIZE + ICMP_MAX_PAYLOAD);
    response \<leftarrow> ipv4_create src dst IPV4_DEFAULT_TTL IPV4_PROTOCOL_ICMP icmp_raw;
    ipv4_to_bytes response (IPV4_HEADER_SIZE + IPV4_MAX_PAYLOAD)
  }"

definition host_handle_icmp :: "sender \<Rightarrow> node_id \<Rightarrow> ipv4_packet \<Rightarrow> world \<Rightarrow> world option" where
  "host_handle_icmp send n packet w = do {
    h \<leftarrow> get_host n w;
    case icmp_from_bytes (ip4_payload packet) of
      None \<Rightarrow> Some w
    | Some icmp \<Rightarrow>
        if \<not> icmp_validate_checksum icmp then Some w
        else
          let w = put_host n (h\<lparr>h_icmp_type := icmp_type icmp, h_icmp_code := icmp_code icmp,
                h_icmp_source := ip4_src packet, h_icmp_sequence := icmp_sequence icmp, h_has_icmp := True\<rparr>) w
          in if icmp_type icmp = ICMP_ECHO_REQUEST then
               (case host_echo_reply (h_ip h) (ip4_src packet) icmp of
                  None \<Rightarrow> Some w
                | Some ip_raw \<Rightarrow> do {
                    (_, w) \<leftarrow> host_send_l3_packet send n (ip4_src packet) ETHERNET_TYPE_IPV4 ip_raw w;
                    Some w
                  })
             else if icmp_type icmp = ICMP_ECHO_REPLY \<or> icmp_type icmp = ICMP_TIME_EXCEEDED \<or>
                icmp_type icmp = ICMP_DEST_UNREACHABLE
             then host_record_icmp_rtt n w
             else Some w
  }"

definition host_receive :: "sender \<Rightarrow> node_id \<Rightarrow> bytes \<Rightarrow> world \<Rightarrow> world option" where
  "host_receive send n raw w = do {
    h \<leftarrow> get_host n w;
    case ethernet_from_bytes raw of
      None \<Rightarrow> Some w
    | Some frame \<Rightarrow>
        if \<not> ethernet_is_broadcast (eth_dst frame) \<and>
           \<not> mac_equal (eth_dst frame) (if_mac (nb_ifs (h_base h) ! 0)) then Some w
        else if eth_has_vlan frame then Some w
        else if eth_type frame = ETHERNET_TYPE_ARP then host_handle_arp send n (eth_payload frame) w
        else if eth_type frame = ETHERNET_TYPE_IPV4 then
          (case ipv4_from_bytes (eth_payload frame) of
             None \<Rightarrow> Some w
           | Some packet \<Rightarrow>
               if \<not> ipv4_validate_checksum packet then Some w
               else if \<not> (h_has_ip h \<and> ip_octets_equal (ip4_dst packet) (h_ip h)) \<and>
                 \<not> ip_is_limited_broadcast (ip4_dst packet) then Some w
               else if ip4_protocol packet = IPV4_PROTOCOL_UDP then host_handle_udp send n packet w
               else if ip4_protocol packet = IPV4_PROTOCOL_TCP then host_handle_tcp send n packet w
               else if ip4_protocol packet = IPV4_PROTOCOL_ICMP then host_handle_icmp send n packet w
               else Some w)
        else Some w
  }"

end
