(* ===== verification/Switch.thy ===== *)
theory Switch
  imports Link
begin

text \<open>
  What a switch does with a frame it receives: the sending half of \<^verbatim>\<open>layer2/switch.c\<close>. Sending may
  run handlers of other nodes and, through a loop in the wiring, this switch's own, so the switch
  is read again for every port.
\<close>

definition switch_outbound :: "switch \<Rightarrow> int \<Rightarrow> int \<Rightarrow> ethernet_frame \<Rightarrow> ethernet_frame option" where
  "switch_outbound sw out_port vlan_id frame =
    (if pc_mode (port_config sw out_port) = SWITCH_PORT_TRUNK
     then ethernet_set_vlan frame (word_of_int vlan_id)
     else Some (ethernet_clear_vlan frame))"

definition switch_send_frame_on_port ::
  "sender \<Rightarrow> node_id \<Rightarrow> int \<Rightarrow> int \<Rightarrow> ethernet_frame \<Rightarrow> world \<Rightarrow> (bool \<times> world) option" where
  "switch_send_frame_on_port send n out_port vlan_id frame w = do {
    sw \<leftarrow> get_switch n w;
    if \<not> valid_port sw out_port then Some (False, w)
    else if \<not> switch_port_allows_vlan sw out_port vlan_id then Some (False, w)
    else case switch_outbound sw out_port vlan_id frame of
      None \<Rightarrow> Some (False, w)
    | Some outbound \<Rightarrow>
        (case ethernet_to_bytes outbound (ETHERNET_VLAN_HEADER_SIZE + ETHERNET_MAX_PAYLOAD) of
           None \<Rightarrow> Some (False, w)
         | Some raw \<Rightarrow>
             (case node_get_interface (sw_base sw) out_port of
                None \<Rightarrow> Some (False, w)
              | Some i \<Rightarrow>
                  if if_link (nb_ifs (sw_base sw) ! i) = None then Some (False, w)
                  else do {
                    w \<leftarrow> send (n, i) raw w;
                    Some (True, w)
                  }))
  }"

fun switch_flood_loop ::
  "sender \<Rightarrow> node_id \<Rightarrow> int \<Rightarrow> int \<Rightarrow> ethernet_frame \<Rightarrow> int list \<Rightarrow> nat \<Rightarrow> world \<Rightarrow> (nat \<times> world) option" where
  "switch_flood_loop send n in_port vlan_id frame [] sent w = Some (sent, w)"
| "switch_flood_loop send n in_port vlan_id frame (port # ports) sent w =
    (if port = in_port then switch_flood_loop send n in_port vlan_id frame ports sent w
     else do {
       (ok, w) \<leftarrow> switch_send_frame_on_port send n port vlan_id frame w;
       switch_flood_loop send n in_port vlan_id frame ports (if ok then sent + 1 else sent) w
     })"

definition switch_flood_frame ::
  "sender \<Rightarrow> node_id \<Rightarrow> int \<Rightarrow> int \<Rightarrow> ethernet_frame \<Rightarrow> world \<Rightarrow> (nat \<times> world) option" where
  "switch_flood_frame send n in_port vlan_id frame w = do {
    sw \<leftarrow> get_switch n w;
    switch_flood_loop send n in_port vlan_id frame [1..int (nb_num (sw_base sw))] 0 w
  }"

definition switch_receive :: "sender \<Rightarrow> node_id \<Rightarrow> nat \<Rightarrow> bytes \<Rightarrow> world \<Rightarrow> world option" where
  "switch_receive send n in_if raw w = do {
    sw \<leftarrow> get_switch n w;
    case ethernet_from_bytes raw of
      None \<Rightarrow> Some w
    | Some frame \<Rightarrow>
        let in_port = int (if_port (nb_ifs (sw_base sw) ! in_if))
        in case switch_determine_ingress_vlan sw in_port frame of
          None \<Rightarrow> Some w
        | Some vlan_id \<Rightarrow>
            let macs = snd (switch_mac_table_set (sw_macs sw) vlan_id (eth_src frame) in_port);
                w = put_switch n (sw\<lparr>sw_macs := macs\<rparr>) w
            in if ethernet_is_broadcast (eth_dst frame) then do {
                 (_, w) \<leftarrow> switch_flood_frame send n in_port vlan_id frame w;
                 Some w
               }
               else case switch_mac_table_get macs vlan_id (eth_dst frame) of
                 None \<Rightarrow> do {
                   (_, w) \<leftarrow> switch_flood_frame send n in_port vlan_id frame w;
                   Some w
                 }
               | Some out_port \<Rightarrow>
                   if out_port = in_port then Some w
                   else do {
                     (_, w) \<leftarrow> switch_send_frame_on_port send n out_port vlan_id frame w;
                     Some w
                   }
  }"

end
