(* ===== verification/Router.thy ===== *)
theory Router
  imports Link Router_State
begin

text \<open>
  The sending side of a router and what it does with a frame: \<^verbatim>\<open>layer3/router.c\<close>. As in a host,
  the router is read again from the world after everything that sends. The loop that empties the
  queue after an ARP reply calls the function that may put a packet back; it is not bounded, and
  \<open>None\<close> is its result when it never ends.
\<close>

definition router_send_ethernet_frame ::
  "sender \<Rightarrow> node_id \<Rightarrow> int \<Rightarrow> int \<Rightarrow> mac_address \<Rightarrow> u16 \<Rightarrow> bytes \<Rightarrow> world \<Rightarrow> (bool \<times> world) option" where
  "router_send_ethernet_frame send n out_interface vlan_id dst_mac ethertype payload w = do {
    r \<leftarrow> get_router n w;
    if \<not> router_port_ok r out_interface then Some (False, w)
    else case node_get_interface (r_base r) out_interface of
      None \<Rightarrow> Some (False, w)
    | Some i \<Rightarrow>
        (case ethernet_create dst_mac (if_mac (nb_ifs (r_base r) ! i)) ethertype payload of
           None \<Rightarrow> Some (False, w)
         | Some frame \<Rightarrow>
             let frame = (if 0 < vlan_id
                   then (case ethernet_set_vlan frame (word_of_int vlan_id) of None \<Rightarrow> frame | Some f \<Rightarrow> f)
                   else frame)
             in case ethernet_to_bytes frame (ETHERNET_VLAN_HEADER_SIZE + ETHERNET_MAX_PAYLOAD) of
                  None \<Rightarrow> Some (False, w)
                | Some raw \<Rightarrow> do {
                    w \<leftarrow> send (n, i) raw w;
                    Some (True, w)
                  })
  }"

definition router_send_arp_request ::
  "sender \<Rightarrow> node_id \<Rightarrow> int \<Rightarrow> ip_address \<Rightarrow> int \<Rightarrow> world \<Rightarrow> (bool \<times> world) option" where
  "router_send_arp_request send n out_interface target_ip vlan_id w = do {
    r \<leftarrow> get_router n w;
    if \<not> router_port_ok r out_interface then Some (False, w)
    else
      let sender_ip = router_interface_ip_or_zero r out_interface
      in case node_get_interface (r_base r) out_interface of
        None \<Rightarrow> Some (False, w)
      | Some i \<Rightarrow>
          if ip_is_zero sender_ip then Some (False, w)
          else
            (case arp_message_to_bytes
                 (arp_message_init_request (if_mac (nb_ifs (r_base r) ! i)) sender_ip target_ip) 28 of
               None \<Rightarrow> Some (False, w)
             | Some raw \<Rightarrow>
                 router_send_ethernet_frame send n out_interface vlan_id mac_broadcast ETHERNET_TYPE_ARP raw w)
  }"

definition router_send_arp_reply ::
  "sender \<Rightarrow> node_id \<Rightarrow> arp_message \<Rightarrow> int \<Rightarrow> int \<Rightarrow> world \<Rightarrow> (bool \<times> world) option" where
  "router_send_arp_reply send n request out_interface vlan_id w = do {
    r \<leftarrow> get_router n w;
    if \<not> router_port_ok r out_interface then Some (False, w)
    else case node_get_interface (r_base r) out_interface of
      None \<Rightarrow> Some (False, w)
    | Some i \<Rightarrow>
        (case arp_message_to_bytes
             (arp_message_init_reply (if_mac (nb_ifs (r_base r) ! i)) (arp_target_ip request)
               (arp_sender_mac request) (arp_sender_ip request)) 28 of
           None \<Rightarrow> Some (False, w)
         | Some raw \<Rightarrow>
             router_send_ethernet_frame send n out_interface vlan_id (arp_sender_mac request) ETHERNET_TYPE_ARP raw w)
  }"

section \<open>Sending packets and ICMP errors\<close>

text \<open>
  A packet whose next hop has no known address waits in the queue, and without real time the ARP
  queue is polled until the packet is gone; the poll reports packets that have waited in vain with
  an ICMP error, which is sent like any other packet. The functions before the poll get it as an
  argument, and the poll, the only one of them that is recursive, passes itself.
\<close>

type_synonym poller = "real \<Rightarrow> world \<Rightarrow> world option"

definition router_queue_for_arp ::
  "node_id \<Rightarrow> ipv4_packet \<Rightarrow> ip_address \<Rightarrow> int \<Rightarrow> int \<Rightarrow> world \<Rightarrow> (bool \<times> bool \<times> real \<times> world) option" where
  "router_queue_for_arp n packet next_hop_ip out_interface vlan_id w = do {
    r \<leftarrow> get_router n w;
    let existing_pending = router_find_pending_for_ip r next_hop_ip;
    let (now, w) = now_ms w;
    let (queued, r) = router_queue_pending_packet r next_hop_ip out_interface vlan_id packet
          (case existing_pending of None \<Rightarrow> 1 | Some p \<Rightarrow> rp_attempts p)
          (case existing_pending of None \<Rightarrow> now | Some p \<Rightarrow> rp_last p);
    Some (queued, existing_pending \<noteq> None, now, put_router n r w)
  }"

definition router_send_packet_to_next_hop ::
  "poller \<Rightarrow> sender \<Rightarrow> node_id \<Rightarrow> ipv4_packet \<Rightarrow> ip_address \<Rightarrow> int \<Rightarrow> world \<Rightarrow> (bool \<times> world) option" where
  "router_send_packet_to_next_hop poll send n packet next_hop_ip out_interface w = do {
    r \<leftarrow> get_router n w;
    if \<not> router_port_ok r out_interface then Some (False, w)
    else
      let vlan_id = router_vlan_for_ip r next_hop_ip (r_vlans r ! nat (out_interface - 1))
      in case arp_table_get (r_arp r) next_hop_ip of
        Some next_hop_mac \<Rightarrow>
          (case ipv4_to_bytes packet (IPV4_HEADER_SIZE + IPV4_MAX_PAYLOAD) of
             None \<Rightarrow> Some (False, w)
           | Some raw_ip \<Rightarrow>
               router_send_ethernet_frame send n out_interface vlan_id next_hop_mac ETHERNET_TYPE_IPV4 raw_ip w)
      | None \<Rightarrow> do {
          (queued, waiting, now, w) \<leftarrow> router_queue_for_arp n packet next_hop_ip out_interface vlan_id w;
          if \<not> queued then Some (False, w)
          else if waiting then Some (True, w)
          else do {
            (sent, w) \<leftarrow> router_send_arp_request send n out_interface next_hop_ip vlan_id w;
            if \<not> sent then Some (False, w)
            else do {
              r \<leftarrow> get_router n w;
              if \<not> sim_clock_realtime_enabled (w_clock w) \<and> arp_table_get (r_arp r) next_hop_ip = None then do {
                w \<leftarrow> poll (now + ROUTER_ARP_RETRY_INTERVAL_MS * real (ROUTER_ARP_MAX_ATTEMPTS + 1)) w;
                Some (True, w)
              } else Some (True, w)
            }
          }
        }
  }"

definition router_send_ipv4_packet ::
  "poller \<Rightarrow> sender \<Rightarrow> node_id \<Rightarrow> ipv4_packet \<Rightarrow> world \<Rightarrow> (bool \<times> world) option" where
  "router_send_ipv4_packet poll send n packet w = do {
    r \<leftarrow> get_router n w;
    case router_lookup_route r (ip4_dst packet) of
      None \<Rightarrow> Some (False, w)
    | Some route \<Rightarrow>
        router_send_packet_to_next_hop poll send n packet (route_next_hop route (ip4_dst packet))
          (rt_out_interface route) w
  }"

definition router_icmp_error :: "router \<Rightarrow> ipv4_packet \<Rightarrow> u8 \<Rightarrow> u8 \<Rightarrow> ipv4_packet option" where
  "router_icmp_error r original ty code = do {
    route \<leftarrow> router_lookup_route r (ip4_src original);
    let src_ip = router_interface_ip_or_zero r (rt_out_interface route);
    if ip_is_zero src_ip then None
    else do {
      let original_raw = (case ipv4_to_bytes original (IPV4_HEADER_SIZE + IPV4_MAX_PAYLOAD) of
          None \<Rightarrow> [] | Some raw \<Rightarrow> raw);
      icmp \<leftarrow> icmp_create ty code 0 0 (take 28 original_raw);
      icmp_raw \<leftarrow> icmp_to_bytes icmp (ICMP_HEADER_SIZE + ICMP_MAX_PAYLOAD);
      ipv4_create src_ip (ip4_src original) IPV4_DEFAULT_TTL IPV4_PROTOCOL_ICMP icmp_raw
    }
  }"

definition router_send_icmp_error ::
  "poller \<Rightarrow> sender \<Rightarrow> node_id \<Rightarrow> ipv4_packet \<Rightarrow> u8 \<Rightarrow> u8 \<Rightarrow> world \<Rightarrow> world option" where
  "router_send_icmp_error poll send n original ty code w = do {
    r \<leftarrow> get_router n w;
    case router_icmp_error r original ty code of
      None \<Rightarrow> Some w
    | Some response \<Rightarrow> do {
        (_, w) \<leftarrow> router_send_ipv4_packet poll send n response w;
        Some w
      }
  }"

text \<open>
  The two nested loops of \<^verbatim>\<open>router_poll_arp\<close> as one recursion: \<open>failing\<close> is the next hop whose
  packets the inner loop is reporting.
\<close>

lemma mono_case_option:
  assumes "mono_option A" "\<And>y. mono_option (\<lambda>f. B f y)"
  shows "mono_option (\<lambda>f. case x of None \<Rightarrow> A f | Some y \<Rightarrow> B f y)"
  using assms by (cases x) simp_all

lemma mono_case_prod:
  assumes "\<And>a b. mono_option (\<lambda>f. B f a b)"
  shows "mono_option (\<lambda>f. case p of (a, b) \<Rightarrow> B f a b)"
  using assms by (cases p) simp

lemmas mono_rules = bind_mono if_mono call_mono option.const_mono mono_case_option mono_case_prod

lemma router_send_packet_to_next_hop_mono [partial_function_mono]:
  assumes "\<And>t w. mono_option (\<lambda>f. poll f t w)"
  shows "mono_option (\<lambda>f. router_send_packet_to_next_hop (poll f) send n packet ip out w)"
  unfolding router_send_packet_to_next_hop_def Let_def by (intro mono_rules assms)

lemma router_send_ipv4_packet_mono [partial_function_mono]:
  assumes "\<And>t w. mono_option (\<lambda>f. poll f t w)"
  shows "mono_option (\<lambda>f. router_send_ipv4_packet (poll f) send n packet w)"
  unfolding router_send_ipv4_packet_def by (intro mono_rules router_send_packet_to_next_hop_mono assms)

lemma router_send_icmp_error_mono [partial_function_mono]:
  assumes "\<And>t w. mono_option (\<lambda>f. poll f t w)"
  shows "mono_option (\<lambda>f. router_send_icmp_error (poll f) send n packet ty code w)"
  unfolding router_send_icmp_error_def by (intro mono_rules router_send_ipv4_packet_mono assms)

partial_function (option) router_poll_loop ::
  "sender \<Rightarrow> node_id \<Rightarrow> ip_address option \<Rightarrow> real \<Rightarrow> world \<Rightarrow> world option" where
  "router_poll_loop send n failing now w = do {
    r \<leftarrow> get_router n w;
    (case failing of
       Some next_hop_ip \<Rightarrow>
         let (p, r) = router_dequeue_pending_for_ip r next_hop_ip; w = put_router n r w
         in (case p of
               None \<Rightarrow> router_poll_loop send n None now w
             | Some failed \<Rightarrow> do {
                 w \<leftarrow> (if router_can_send_error_for_packet (rp_packet failed)
                      then router_send_icmp_error (router_poll_loop send n None) send n (rp_packet failed)
                        ICMP_DEST_UNREACHABLE 1 w
                      else Some w);
                 router_poll_loop send n failing now w
               })
     | None \<Rightarrow>
         (case router_find_due r now of
            None \<Rightarrow> Some w
          | Some pending \<Rightarrow>
              if ROUTER_ARP_MAX_ATTEMPTS \<le> rp_attempts pending
              then router_poll_loop send n (Some (rp_next_hop pending)) now w
              else do {
                (_, w) \<leftarrow> router_send_arp_request send n (rp_out_interface pending) (rp_next_hop pending)
                  (rp_vlan_id pending)
                  (put_router n (router_set_arp_attempt_for_ip r (rp_next_hop pending) (rp_attempts pending + 1)
                    (rp_last pending + ROUTER_ARP_RETRY_INTERVAL_MS)) w);
                router_poll_loop send n None now w
              }))
  }"

definition router_poll_arp :: "sender \<Rightarrow> node_id \<Rightarrow> real \<Rightarrow> world \<Rightarrow> world option" where
  "router_poll_arp send n now w = router_poll_loop send n None now w"

abbreviation send_to_next_hop where
  "send_to_next_hop send n \<equiv> router_send_packet_to_next_hop (router_poll_arp send n) send n"

abbreviation send_ipv4 where
  "send_ipv4 send n \<equiv> router_send_ipv4_packet (router_poll_arp send n) send n"

abbreviation send_icmp_error where
  "send_icmp_error send n \<equiv> router_send_icmp_error (router_poll_arp send n) send n"

partial_function (option) router_flush_loop ::
  "sender \<Rightarrow> node_id \<Rightarrow> ip_address \<Rightarrow> nat \<Rightarrow> world \<Rightarrow> (nat \<times> world) option" where
  "router_flush_loop send n resolved_ip sent w = do {
    r \<leftarrow> get_router n w;
    let (p, r) = router_dequeue_pending_for_ip r resolved_ip;
    let w = put_router n r w;
    (case p of
       None \<Rightarrow> Some (sent, w)
     | Some pending \<Rightarrow> do {
         (ok, w) \<leftarrow> send_to_next_hop send n (rp_packet pending) (rp_next_hop pending)
           (rp_out_interface pending) w;
         router_flush_loop send n resolved_ip (if ok then sent + 1 else sent) w
       })
  }"

definition router_flush_pending_packets :: "sender \<Rightarrow> node_id \<Rightarrow> ip_address \<Rightarrow> world \<Rightarrow> (nat \<times> world) option" where
  "router_flush_pending_packets send n resolved_ip w = router_flush_loop send n resolved_ip 0 w"

section \<open>Receiving\<close>

definition router_forward_ipv4_packet :: "sender \<Rightarrow> node_id \<Rightarrow> ipv4_packet \<Rightarrow> world \<Rightarrow> world option" where
  "router_forward_ipv4_packet send n packet w = do {
    r \<leftarrow> get_router n w;
    if ip4_ttl packet \<le> 1 then send_icmp_error send n packet ICMP_TIME_EXCEEDED 0 w
    else
      let packet = packet\<lparr>ip4_ttl := ip4_ttl packet - 1\<rparr>
      in case router_lookup_route r (ip4_dst packet) of
        None \<Rightarrow> send_icmp_error send n packet ICMP_DEST_UNREACHABLE 0 w
      | Some route \<Rightarrow> do {
          (_, w) \<leftarrow> send_to_next_hop send n packet (route_next_hop route (ip4_dst packet))
            (rt_out_interface route) w;
          Some w
        }
  }"

definition router_echo_reply :: "ipv4_packet \<Rightarrow> icmp_message \<Rightarrow> ipv4_packet option" where
  "router_echo_reply packet request = do {
    reply \<leftarrow> icmp_create ICMP_ECHO_REPLY 0 (icmp_identifier request) (icmp_sequence request) (icmp_payload request);
    icmp_raw \<leftarrow> icmp_to_bytes reply (ICMP_HEADER_SIZE + ICMP_MAX_PAYLOAD);
    ipv4_create (ip4_dst packet) (ip4_src packet) IPV4_DEFAULT_TTL IPV4_PROTOCOL_ICMP icmp_raw
  }"

definition router_handle_local_ipv4 :: "sender \<Rightarrow> node_id \<Rightarrow> ipv4_packet \<Rightarrow> world \<Rightarrow> world option" where
  "router_handle_local_ipv4 send n packet w =
    (if ip4_protocol packet \<noteq> IPV4_PROTOCOL_ICMP then Some w
     else case icmp_from_bytes (ip4_payload packet) of
       None \<Rightarrow> Some w
     | Some request \<Rightarrow>
         if \<not> icmp_validate_checksum request then Some w
         else if icmp_type request = ICMP_ECHO_REQUEST then
           (case router_echo_reply packet request of
              None \<Rightarrow> Some w
            | Some response \<Rightarrow> do {
                (_, w) \<leftarrow> send_ipv4 send n response w;
                Some w
              })
         else Some w)"

definition router_handle_arp :: "sender \<Rightarrow> node_id \<Rightarrow> int \<Rightarrow> int \<Rightarrow> bytes \<Rightarrow> world \<Rightarrow> world option" where
  "router_handle_arp send n in_port vlan_id payload w = do {
    r \<leftarrow> get_router n w;
    case arp_message_from_bytes payload of
      None \<Rightarrow> Some w
    | Some arp \<Rightarrow>
        let r = snd (router_learn_arp r arp vlan_id);
            w = put_router n r w
        in if arp_op arp = ARP_OPCODE_REQUEST \<and> router_has_interface_ip r (arp_target_ip arp) \<noteq> None then do {
             (_, w) \<leftarrow> router_send_arp_reply send n arp in_port vlan_id w;
             Some w
           }
           else if arp_op arp = ARP_OPCODE_REPLY then do {
             (_, w) \<leftarrow> router_flush_pending_packets send n (arp_sender_ip arp) w;
             Some w
           }
           else Some w
  }"

definition router_receive :: "sender \<Rightarrow> node_id \<Rightarrow> nat \<Rightarrow> bytes \<Rightarrow> world \<Rightarrow> world option" where
  "router_receive send n in_if raw w = do {
    r \<leftarrow> get_router n w;
    case ethernet_from_bytes raw of
      None \<Rightarrow> Some w
    | Some frame \<Rightarrow>
        let iface = nb_ifs (r_base r) ! in_if;
            in_port = int (if_port iface);
            vlan_id = (if eth_has_vlan frame then int (unat (eth_vlan_id frame)) else 0);
            r = (if 0 < vlan_id then r\<lparr>r_vlans := (r_vlans r)[nat (in_port - 1) := vlan_id]\<rparr> else r);
            w = put_router n r w
        in if \<not> ethernet_is_broadcast (eth_dst frame) \<and> \<not> mac_equal (eth_dst frame) (if_mac iface) then Some w
           else if eth_type frame = ETHERNET_TYPE_ARP then router_handle_arp send n in_port vlan_id (eth_payload frame) w
           else if eth_type frame = ETHERNET_TYPE_IPV4 then
             (case ipv4_from_bytes (eth_payload frame) of
                None \<Rightarrow> Some w
              | Some packet \<Rightarrow>
                  if \<not> ipv4_validate_checksum packet then Some w
                  else if router_has_interface_ip r (ip4_dst packet) \<noteq> None
                  then router_handle_local_ipv4 send n packet w
                  else router_forward_ipv4_packet send n packet w)
           else Some w
  }"

definition router_send_icmp_echo_request ::
  "sender \<Rightarrow> node_id \<Rightarrow> ip_address \<Rightarrow> u8 \<Rightarrow> u16 \<Rightarrow> world \<Rightarrow> (bool \<times> world) option" where
  "router_send_icmp_echo_request send n target_ip ttl sequence w = do {
    r \<leftarrow> get_router n w;
    case router_lookup_route r target_ip of
      None \<Rightarrow> Some (False, w)
    | Some route \<Rightarrow>
        let src_ip = router_interface_ip_or_zero r (rt_out_interface route)
        in if ip_is_zero src_ip then Some (False, w)
           else case do {
               icmp \<leftarrow> icmp_create ICMP_ECHO_REQUEST 0 0xBEEF sequence (map of_nat [0..<32]);
               icmp_raw \<leftarrow> icmp_to_bytes icmp (ICMP_HEADER_SIZE + ICMP_MAX_PAYLOAD);
               ipv4_create src_ip target_ip ttl IPV4_PROTOCOL_ICMP icmp_raw
             } of
             None \<Rightarrow> Some (False, w)
           | Some packet \<Rightarrow> send_ipv4 send n packet w
  }"

end
