(* ===== verification/Network.thy ===== *)
theory Network
  imports Host Switch Router
begin

text \<open>
  The knot of the sending functions: \<^verbatim>\<open>receive\<close> and \<^verbatim>\<open>node_receive\<close> of \<^verbatim>\<open>core/interface.c\<close> call
  the handler of the receiving node, which sends through \<^verbatim>\<open>interface_send\<close>. The number bounds the
  depth of nested sends (the C call stack); a run that needs more, a forwarding loop for instance,
  has no result for any number. \<^verbatim>\<open>sim_clock_tick\<close> delivers the packets in flight.
\<close>

definition node_receive :: "sender \<Rightarrow> node_id \<Rightarrow> nat \<Rightarrow> bytes \<Rightarrow> world \<Rightarrow> world option" where
  "node_receive send n in_if raw w =
    (case w_nodes w n of
       None \<Rightarrow> None
     | Some (HostNode _) \<Rightarrow> host_receive send n raw w
     | Some (SwitchNode _) \<Rightarrow> switch_receive send n in_if raw w
     | Some (RouterNode _) \<Rightarrow> router_receive send n in_if raw w)"

definition receive :: "sender \<Rightarrow> sender" where
  "receive send receiver raw w =
    (case get_iface receiver w of
       None \<Rightarrow> None
     | Some iface \<Rightarrow>
         (case if_node iface of
            None \<Rightarrow> Some w
          | Some n \<Rightarrow> node_receive send n (snd receiver) raw w))"

fun net_send :: "nat \<Rightarrow> sender" where
  "net_send 0 r raw w = None"
| "net_send (Suc depth) r raw w = interface_send (receive (net_send depth)) r raw w"

fun tick_slots :: "sender \<Rightarrow> real \<Rightarrow> nat list \<Rightarrow> world \<Rightarrow> world option" where
  "tick_slots deliver now [] w = Some w"
| "tick_slots deliver now (i # is) w =
    (let (p, c) = take_due now i (w_clock w); w = w\<lparr>w_clock := c\<rparr>
     in case p of
          None \<Rightarrow> tick_slots deliver now is w
        | Some pkt \<Rightarrow> do {
            w \<leftarrow> deliver (fl_receiver pkt) (fl_bytes pkt) w;
            tick_slots deliver now is w
          })"

definition sim_clock_tick :: "sender \<Rightarrow> real \<Rightarrow> world \<Rightarrow> world option" where
  "sim_clock_tick send now w = tick_slots (receive send) now [0..<SIM_INFLIGHT_MAX] w"

end
