(* ===== verification/Simulator.thy ===== *)
theory Simulator
  imports Network
begin

text \<open>
  The simulator: \<^verbatim>\<open>simulator.c\<close>. Its node list and its list of registered interfaces are the lists
  of their entries in use; its link array has a fixed length and a count, because interfaces point
  into it, and what lies past the count can still be reached by such a pointer. A node lives at an
  address that was never used before; \<^verbatim>\<open>calloc\<close> is taken to succeed. \<^verbatim>\<open>atoi\<close> on a number that an
  \<^verbatim>\<open>int\<close> cannot represent is undefined, and \<open>None\<close>.
\<close>

abbreviation SIMULATOR_MAX_NODES :: nat where "SIMULATOR_MAX_NODES \<equiv> 128"
abbreviation SIMULATOR_MAX_LINKS :: nat where "SIMULATOR_MAX_LINKS \<equiv> 256"
abbreviation SIMULATOR_MAX_INTERFACES :: nat where "SIMULATOR_MAX_INTERFACES \<equiv> 4096"

datatype simulator_node_type = SIM_NODE_HOST | SIM_NODE_SWITCH | SIM_NODE_ROUTER

record simulator_node_entry =
  en_name :: string
  en_type :: simulator_node_type
  en_node :: "node_id option"

record simulator =
  si_world :: world
  si_nodes :: "simulator_node_entry list"
  si_link_count :: nat
  si_interfaces :: "iface_ref list"
  si_next :: node_id
  si_rand :: nat

definition simulator_init :: "simulator \<Rightarrow> simulator" where
  "simulator_init s = s\<lparr>si_nodes := [], si_link_count := 0, si_interfaces := []\<rparr>"

definition simulator_find_node :: "simulator \<Rightarrow> string \<Rightarrow> nat option" where
  "simulator_find_node s name = first_index (\<lambda>i. en_name (si_nodes s ! i) = name) (length (si_nodes s))"

definition parse_node_type :: "string \<Rightarrow> simulator_node_type option" where
  "parse_node_type type_str =
    (if type_str = ''host'' then Some SIM_NODE_HOST
     else if type_str = ''switch'' then Some SIM_NODE_SWITCH
     else if type_str = ''router'' then Some SIM_NODE_ROUTER
     else None)"

definition atoi :: "string \<Rightarrow> int option" where
  "atoi str =
    (case scan_signed str of
       None \<Rightarrow> Some 0
     | Some (v, _) \<Rightarrow> if representable Conv_d v then Some v else None)"

definition parse_endpoint :: "string \<Rightarrow> nat \<Rightarrow> (string \<times> int) option" where
  "parse_endpoint endpoint name_size =
    (let name = takeWhile (\<lambda>c. c \<noteq> CHR '':'') endpoint;
         rest = dropWhile (\<lambda>c. c \<noteq> CHR '':'') endpoint;
         out_name = take (name_size - 1) name
     in if rest = [] then Some (out_name, 1)
        else map_option (\<lambda>port. (out_name, port)) (atoi (tl rest)))"

text \<open>The interface an endpoint names; the outer \<open>None\<close> is the undefined conversion.\<close>

definition endpoint_to_interface :: "simulator \<Rightarrow> string \<Rightarrow> iface_ref option option" where
  "endpoint_to_interface s endpoint = do {
    (name, port) \<leftarrow> parse_endpoint endpoint MAX_NAME;
    case simulator_find_node s name of
      None \<Rightarrow> Some None
    | Some idx \<Rightarrow>
        (case en_node (si_nodes s ! idx) of
           None \<Rightarrow> Some None
         | Some n \<Rightarrow> do {
             nd \<leftarrow> w_nodes (si_world s) n;
             Some (map_option (\<lambda>i. (n, i)) (node_get_interface (node_base_of nd) port))
           })
  }"

section \<open>Nodes\<close>

definition new_node :: "(nat \<Rightarrow> u32) \<Rightarrow> nat \<Rightarrow> node_id \<Rightarrow> simulator_node_type \<Rightarrow> int \<Rightarrow> node \<times> nat" where
  "new_node rnd k n ty num_ports =
    (case ty of
       SIM_NODE_HOST \<Rightarrow> map_prod HostNode id (host_init_with_macs rnd k n num_ports None)
     | SIM_NODE_SWITCH \<Rightarrow> map_prod SwitchNode id (switch_init_with_macs rnd k n num_ports None)
     | SIM_NODE_ROUTER \<Rightarrow> map_prod RouterNode id (router_init_with_macs rnd k n num_ports None))"

definition simulator_create_node ::
  "(nat \<Rightarrow> u32) \<Rightarrow> string \<Rightarrow> string \<Rightarrow> int \<Rightarrow> simulator \<Rightarrow> bool \<times> simulator" where
  "simulator_create_node rnd type name requested_ports s =
    (if simulator_find_node s name \<noteq> None then (False, s)
     else if SIMULATOR_MAX_NODES \<le> length (si_nodes s) then (False, s)
     else case parse_node_type type of
       None \<Rightarrow> (False, s)
     | Some ty \<Rightarrow>
         let num_ports = (if 0 < requested_ports then requested_ports else 1);
             num_ports = (if int MAX_PORT < num_ports then int MAX_PORT else num_ports);
             n = si_next s;
             (nd, k) = new_node rnd (si_rand s) n ty num_ports;
             nd = map_base (\<lambda>b. b\<lparr>nb_name := take (MAX_NAME - 1) name\<rparr>) nd;
             room = SIMULATOR_MAX_INTERFACES - length (si_interfaces s)
         in (True, s\<lparr>si_world := put_node n nd (si_world s),
              si_nodes := si_nodes s @ [\<lparr>en_name = take (MAX_NAME - 1) name, en_type = ty, en_node = Some n\<rparr>],
              si_interfaces := si_interfaces s @ take room (map (Pair n) [0..<nat num_ports]),
              si_next := n + 1, si_rand := k\<rparr>))"

section \<open>Links\<close>

definition joins :: "iface_ref \<Rightarrow> iface_ref \<Rightarrow> link \<Rightarrow> bool" where
  "joins a b l \<longleftrightarrow> (ln_if1 l = Some a \<and> ln_if2 l = Some b) \<or> (ln_if1 l = Some b \<and> ln_if2 l = Some a)"

definition simulator_link :: "string \<Rightarrow> string \<Rightarrow> real \<Rightarrow> simulator \<Rightarrow> (bool \<times> simulator) option" where
  "simulator_link endpoint_a endpoint_b delay_ms s =
    (if SIMULATOR_MAX_LINKS \<le> si_link_count s then Some (False, s)
     else
       let delay_ms = (if delay_ms < 0 then 0 else delay_ms); w = si_world s
       in do {
         ea \<leftarrow> endpoint_to_interface s endpoint_a;
         case ea of
           None \<Rightarrow> Some (False, s)
         | Some a \<Rightarrow> do {
             eb \<leftarrow> endpoint_to_interface s endpoint_b;
             case eb of
               None \<Rightarrow> Some (False, s)
             | Some b \<Rightarrow> do {
                 fa \<leftarrow> get_iface a w;
                 fb \<leftarrow> get_iface b w;
                 if a = b then Some (False, s)
                 else if if_link fa \<noteq> None \<or> if_link fb \<noteq> None then Some (False, s)
                 else if first_index (\<lambda>i. joins a b (w_links w ! i)) (si_link_count s) \<noteq> None then Some (False, s)
                 else Some (True, s\<lparr>si_world := link_init (si_link_count s) a b delay_ms w,
                   si_link_count := si_link_count s + 1\<rparr>)
               }
           }
       })"

text \<open>Unlinking slot \<open>i\<close> and moving the later links down.\<close>

definition drop_link :: "nat \<Rightarrow> simulator \<Rightarrow> simulator" where
  "drop_link i s =
    (let w = link_unlink i (si_world s)
     in s\<lparr>si_world := w\<lparr>w_links := shift_down i (si_link_count s) (w_links w)\<rparr>,
          si_link_count := si_link_count s - 1\<rparr>)"

definition simulator_unlink :: "string \<Rightarrow> string \<Rightarrow> simulator \<Rightarrow> (bool \<times> simulator) option" where
  "simulator_unlink endpoint_a endpoint_b s = do {
    ea \<leftarrow> endpoint_to_interface s endpoint_a;
    case ea of
      None \<Rightarrow> Some (False, s)
    | Some a \<Rightarrow> do {
        eb \<leftarrow> endpoint_to_interface s endpoint_b;
        case eb of
          None \<Rightarrow> Some (False, s)
        | Some b \<Rightarrow>
            (case first_index (\<lambda>i. joins a b (w_links (si_world s) ! i)) (si_link_count s) of
               None \<Rightarrow> Some (False, s)
             | Some i \<Rightarrow> Some (True, drop_link i s))
      }
  }"

section \<open>Removal\<close>

definition link_of_iface :: "iface_ref \<Rightarrow> simulator \<Rightarrow> nat option" where
  "link_of_iface r s =
    first_index (\<lambda>i. ln_if1 (w_links (si_world s) ! i) = Some r \<or> ln_if2 (w_links (si_world s) ! i) = Some r)
      (si_link_count s)"

definition unlink_iface :: "iface_ref \<Rightarrow> simulator \<Rightarrow> simulator" where
  "unlink_iface r s =
    (if map_option if_link (get_iface r (si_world s)) = Some None then s
     else case link_of_iface r s of None \<Rightarrow> s | Some i \<Rightarrow> drop_link i s)"

definition simulator_remove_node :: "string \<Rightarrow> simulator \<Rightarrow> (bool \<times> simulator) option" where
  "simulator_remove_node name s =
    (case simulator_find_node s name of
       None \<Rightarrow> Some (False, s)
     | Some idx \<Rightarrow>
         (case en_node (si_nodes s ! idx) of
            None \<Rightarrow> Some (False, s)
          | Some n \<Rightarrow> do {
              nd \<leftarrow> w_nodes (si_world s) n;
              let ifs = map (Pair n) [0..<nb_num (node_base_of nd)];
              let s = fold unlink_iface ifs s;
              let s = s\<lparr>si_interfaces := fold remove1 ifs (si_interfaces s)\<rparr>;
              let w = si_world s;
              Some (True, s\<lparr>si_world := w\<lparr>w_nodes := (w_nodes w)(n := None)\<rparr>,
                si_nodes := take idx (si_nodes s) @ drop (idx + 1) (si_nodes s)\<rparr>)
            }))"

definition simulator_clear :: "simulator \<Rightarrow> simulator" where
  "simulator_clear s =
    (let w = fold link_unlink [0..<si_link_count s] (si_world s);
         freed = map en_node (si_nodes s)
     in s\<lparr>si_world := w\<lparr>w_nodes := (\<lambda>n. if Some n \<in> set freed then None else w_nodes w n)\<rparr>, si_nodes := [],
          si_link_count := 0, si_interfaces := []\<rparr>)"

end
