(* ===== verification/Wire.thy ===== *)
theory Wire
  imports Magi_Socket Host
begin

text \<open>
  What one node puts on the wire another one reads: the codecs of all layers together, from the
  functions that build packets to the ones that parse and check them.
\<close>

lemma ipv4_create_payload:
  "ipv4_create src dst ttl proto pl = Some p \<Longrightarrow> length pl \<le> IPV4_MAX_PAYLOAD \<and> ip4_payload p = pl \<and>
    ip4_src p = src \<and> ip4_dst p = dst \<and> ip4_ttl p = ttl \<and> ip4_protocol p = proto"
  by (auto simp: ipv4_create_def split: if_splits)

text \<open>The receiver's view of a packet that was created and serialised.\<close>

lemma ipv4_survives:
  assumes "ipv4_create src dst ttl proto pl = Some p" "ipv4_to_bytes p n = Some raw"
  shows "ipv4_from_bytes raw = Some (ipv4_reparsed p)" "ipv4_validate_checksum (ipv4_reparsed p)"
    "ip4_payload (ipv4_reparsed p) = pl" "octet (ip4_src (ipv4_reparsed p)) = octet src"
    "octet (ip4_dst (ipv4_reparsed p)) = octet dst" "ip4_protocol (ipv4_reparsed p) = proto"
    "ip4_ttl (ipv4_reparsed p) = ttl"
  using ipv4_from_to [OF assms(2)] ipv4_reparsed_valid [of p] ipv4_create_payload [OF assms(1)]
  by (simp_all add: ipv4_reparsed_def)

lemma udp_checksum_octets:
  "octet a = octet a' \<Longrightarrow> octet b = octet b' \<Longrightarrow> udp_validate_checksum u a b = udp_validate_checksum u a' b'"
  by (simp add: udp_validate_iff udp_compute_checksum_def)

lemma tcp_checksum_octets:
  "octet a = octet a' \<Longrightarrow> octet b = octet b' \<Longrightarrow> tcp_validate_checksum g a b = tcp_validate_checksum g a' b'"
  by (simp add: tcp_validate_iff tcp_compute_checksum_def)

lemma udp_seal_wf [simp]: "wf_udp (udp_seal u a b) = wf_udp u"
  by (simp add: udp_seal_def)

lemma ethernet_survives:
  assumes "ethernet_create dst src ethertype payload = Some f0" "ethertype \<noteq> ETHERNET_TYPE_VLAN"
    and "f = f0 \<or> ethernet_set_vlan f0 vid = Some f" and "ethernet_to_bytes f n = Some raw"
  shows "ethernet_from_bytes raw = Some f \<and> eth_payload f = payload \<and> eth_dst f = dst \<and> eth_src f = src"
proof -
  have "wf_frame f" using assms(1-3) wf_frame_create wf_frame_set_vlan by metis
  moreover have "eth_payload f0 = payload" "eth_dst f0 = dst" "eth_src f0 = src"
    using assms(1) by (auto simp: ethernet_create_def split: if_splits)
  ultimately show ?thesis
    using ethernet_from_to assms(3,4) by (auto simp: ethernet_set_vlan_def split: if_splits)
qed

text \<open>C40. Every frame a node builds (created with a type other than 0x8100, then tagged with a VLAN or not) is parsed back to itself by the
  node at the other end, with the tag and the payload it was given.\<close>

theorem frame_survives:
  assumes "ethernet_create dst src ethertype payload = Some f0" "ethertype \<noteq> ETHERNET_TYPE_VLAN"
    and "f = f0 \<or> ethernet_set_vlan f0 vid = Some f" and "ethernet_to_bytes f n = Some raw"
  shows "ethernet_from_bytes raw = Some f \<and> eth_payload f = payload \<and> eth_dst f = dst \<and> eth_src f = src"
  using assms by (rule ethernet_survives)

theorem frame_survives_witness:
  "\<exists>f0 f raw. ethernet_create mac_broadcast mac_zero 0x0806 [1, 2, 3] = Some f0 \<and> ethernet_set_vlan f0 7 = Some f \<and>
    ethernet_to_bytes f 1518 = Some raw \<and> ethernet_from_bytes raw = Some f"
proof -
  obtain f0 where 1: "ethernet_create mac_broadcast mac_zero 0x0806 [1, 2, 3] = Some f0"
    by (simp add: ethernet_create_def)
  have "\<exists>f. ethernet_set_vlan f0 7 = Some f" by (simp add: ethernet_set_vlan_def)
  then obtain f where 2: "ethernet_set_vlan f0 7 = Some f" by blast
  have "eth_payload f = [1, 2, 3]"
    using 1 2 by (auto simp: ethernet_create_def ethernet_set_vlan_def split: if_splits)
  then have "\<exists>raw. ethernet_to_bytes f 1518 = Some raw" by (simp add: ethernet_to_bytes_def)
  then obtain raw where 3: "ethernet_to_bytes f 1518 = Some raw" by blast
  have 4: "0x0806 \<noteq> ETHERNET_TYPE_VLAN" by simp
  show ?thesis using frame_survives [OF 1 4 disjI2 [OF 2] 3] 1 2 3 by blast
qed

text \<open>What the receiving host finds in a packet with a datagram.\<close>

definition udp_carried :: "bytes \<Rightarrow> ip_address \<Rightarrow> ip_address \<Rightarrow> u16 \<Rightarrow> u16 \<Rightarrow> bytes \<Rightarrow> ipv4_packet \<Rightarrow> udp_datagram \<Rightarrow> bool" where
  "udp_carried raw src dst sp dp data p u \<longleftrightarrow>
     ipv4_from_bytes raw = Some p \<and> ipv4_validate_checksum p \<and> ip4_protocol p = IPV4_PROTOCOL_UDP \<and>
     octet (ip4_src p) = octet src \<and> octet (ip4_dst p) = octet dst \<and>
     udp_from_bytes (ip4_payload p) = Some u \<and> udp_validate_checksum u (ip4_src p) (ip4_dst p) \<and>
     udp_src_port u = sp \<and> udp_dst_port u = dp \<and> udp_payload u = data"

lemma datagram_packet_carried:
  assumes "datagram_packet src dst sp dp data = Some raw"
  shows "\<exists>p u. udp_carried raw src dst sp dp data p u"
proof -
  obtain u pl p where u: "udp_create sp dp data = Some u"
    and pl: "udp_to_bytes (udp_seal u src dst) (8 + 1472) = Some pl"
    and p: "ipv4_create src dst IPV4_DEFAULT_TTL IPV4_PROTOCOL_UDP pl = Some p" "ipv4_to_bytes p (20 + 1480) = Some raw"
    using assms by (auto simp: datagram_packet_def bind_eq_Some_conv)
  note s = ipv4_survives [OF p]
  let ?u = "udp_seal u src dst"
  have wf: "wf_udp ?u" using wf_udp_create [OF u] by simp
  have "pl = udp_wire ?u" using pl by (simp add: udp_to_bytes_def split: if_splits)
  then have "udp_from_bytes pl = Some ?u" using udp_from_wire [OF wf, of "[]"] by simp
  moreover have "udp_validate_checksum ?u src dst"
    using u by (intro udp_seal_valid) (auto simp: udp_create_def udp_init_def split: if_splits)
  moreover have "udp_src_port ?u = sp" "udp_dst_port ?u = dp" "udp_payload ?u = data"
    using u by (auto simp: udp_create_def udp_seal_def split: if_splits)
  ultimately show ?thesis
    using s udp_checksum_octets [OF s(4,5), of ?u]
    by (intro exI [of _ "ipv4_reparsed p"] exI [of _ ?u]) (simp add: udp_carried_def)
qed

text \<open>A datagram sent by \<^verbatim>\<open>magi_send\<close> or \<^verbatim>\<open>magi_sendto\<close> reaches the receiving host's checks intact: the
  packet parses, its header checksum and the datagram's checksum over the pseudo-header are
  accepted, and ports, addresses and data are the sender's.\<close>

theorem datagram_survives:
  assumes "datagram_packet src dst sp dp data = Some raw"
  shows "\<exists>p u. ipv4_from_bytes raw = Some p \<and> ipv4_validate_checksum p \<and> ip4_protocol p = IPV4_PROTOCOL_UDP \<and>
    octet (ip4_src p) = octet src \<and> octet (ip4_dst p) = octet dst \<and>
    udp_from_bytes (ip4_payload p) = Some u \<and> udp_validate_checksum u (ip4_src p) (ip4_dst p) \<and>
    udp_src_port u = sp \<and> udp_dst_port u = dp \<and> udp_payload u = data"
  using datagram_packet_carried [OF assms] by (simp add: udp_carried_def)

theorem datagram_survives_witness:
  "\<exists>raw p u. datagram_packet zero_ip zero_ip 53 7 [1, 2] = Some raw \<and> ipv4_from_bytes raw = Some p \<and>
    udp_from_bytes (ip4_payload p) = Some u \<and> udp_payload u = [1, 2]"
proof -
  have "\<exists>raw. datagram_packet zero_ip zero_ip 53 7 [1, 2] = Some raw"
    by (simp add: datagram_packet_def udp_create_def udp_to_bytes_eq udp_seal_def ipv4_create_def ipv4_to_bytes_eq)
  then obtain raw where r: "datagram_packet zero_ip zero_ip 53 7 [1, 2] = Some raw" by blast
  show ?thesis using datagram_survives [OF r] r by blast
qed

definition tcp_carried :: "bytes \<Rightarrow> ip_address \<Rightarrow> ip_address \<Rightarrow> tcp_segment \<Rightarrow> ipv4_packet \<Rightarrow> bool" where
  "tcp_carried raw src dst g p \<longleftrightarrow>
     ipv4_from_bytes raw = Some p \<and> ipv4_validate_checksum p \<and> ip4_protocol p = IPV4_PROTOCOL_TCP \<and>
     octet (ip4_src p) = octet src \<and> octet (ip4_dst p) = octet dst \<and>
     tcp_from_bytes (ip4_payload p) = Some g \<and> tcp_validate_checksum g (ip4_src p) (ip4_dst p)"

lemma segment_packet_carried:
  assumes "wf_segment g" "seg_checksum g = 0" "20 + length (seg_payload g) \<le> n"
    and "segment_packet src dst (tcp_seal n g src dst) n = Some raw"
  shows "\<exists>p. tcp_carried raw src dst (tcp_seal n g src dst) p"
proof -
  let ?g = "tcp_seal n g src dst"
  obtain pl p where pl: "tcp_to_bytes ?g n = Some pl"
    and p: "ipv4_create src dst IPV4_DEFAULT_TTL IPV4_PROTOCOL_TCP pl = Some p" "ipv4_to_bytes p (20 + 1480) = Some raw"
    using assms(4) by (auto simp: segment_packet_def bind_eq_Some_conv)
  note s = ipv4_survives [OF p]
  have "pl = tcp_wire ?g" using pl by (simp add: tcp_to_bytes_def split: if_splits)
  then have "tcp_from_bytes pl = Some ?g" using tcp_from_wire [of ?g] assms(1) by simp
  moreover have "tcp_validate_checksum ?g src dst"
    using assms(1-3) by (intro tcp_seal_valid) (simp_all add: wf_segment_def)
  ultimately show ?thesis
    using s tcp_checksum_octets [OF s(4,5), of ?g] by (intro exI [of _ "ipv4_reparsed p"]) (simp add: tcp_carried_def)
qed

text \<open>C23. A TCP segment completed with its checksum survives the way to the receiver: the packet and the
  segment parse, and both checksums are accepted there.\<close>

theorem segment_survives:
  assumes "wf_segment g" "seg_checksum g = 0" "20 + length (seg_payload g) \<le> n"
    and "segment_packet src dst (tcp_seal n g src dst) n = Some raw"
  shows "\<exists>p. ipv4_from_bytes raw = Some p \<and> ipv4_validate_checksum p \<and> ip4_protocol p = IPV4_PROTOCOL_TCP \<and>
    octet (ip4_src p) = octet src \<and> octet (ip4_dst p) = octet dst \<and>
    tcp_from_bytes (ip4_payload p) = Some (tcp_seal n g src dst) \<and>
    tcp_validate_checksum (tcp_seal n g src dst) (ip4_src p) (ip4_dst p)"
  using segment_packet_carried [OF assms] by (simp add: tcp_carried_def)

theorem segment_survives_witness:
  "\<exists>raw p. segment_packet zero_ip zero_ip (tcp_seal 20 tcp_init zero_ip zero_ip) 20 = Some raw \<and>
    ipv4_from_bytes raw = Some p \<and> ipv4_validate_checksum p"
proof -
  have wf: "wf_segment tcp_init" by (simp add: wf_segment_def)
  have "\<exists>raw. segment_packet zero_ip zero_ip (tcp_seal 20 tcp_init zero_ip zero_ip) 20 = Some raw"
    by (simp add: segment_packet_def tcp_to_bytes_eq ipv4_create_def ipv4_to_bytes_eq)
  then obtain raw where r: "segment_packet zero_ip zero_ip (tcp_seal 20 tcp_init zero_ip zero_ip) 20 = Some raw" by blast
  show ?thesis using segment_survives [OF wf _ _ r] r by auto
qed

text \<open>A valid ICMP message with any one byte changed on the way is not accepted: the receiver's
  checksum test fails, whichever byte it is.\<close>

theorem corrupted_icmp_dropped:
  assumes "icmp_from_bytes raw = Some m" "icmp_validate_checksum m"
    and "k < length raw" "b \<noteq> raw ! k" "icmp_from_bytes (raw[k := b]) = Some m'"
  shows "\<not> icmp_validate_checksum m'"
  using assms compute_checksum_detects [of raw k b] icmp_validate_raw by metis

theorem corrupted_icmp_dropped_witness:
  "\<not> icmp_validate_checksum (the (icmp_from_bytes ([8, 0, 0xF7, 0xFF, 0, 0, 0, 0][0 := 9])))"
proof -
  let ?raw = "[8, 0, 0xF7, 0xFF, 0, 0, 0, 0] :: bytes"
  have 1: "icmp_from_bytes ?raw = Some (the (icmp_from_bytes ?raw))" by (simp add: icmp_from_bytes_def)
  have 2: "icmp_validate_checksum (the (icmp_from_bytes ?raw))"
    unfolding icmp_validate_raw [OF 1] by code_simp
  have 3: "icmp_from_bytes (?raw[0 := 9]) = Some (the (icmp_from_bytes (?raw[0 := 9])))"
    by (simp add: icmp_from_bytes_def)
  show ?thesis using corrupted_icmp_dropped [OF 1 2 _ _ 3] by simp
qed

text \<open>What the header checksum does not protect: a change of the type of service, of the identification
  or of the fragment fields of a received IPv4 header has no effect on how it is parsed, and so
  none on whether it is accepted.\<close>

theorem header_fields_ignored:
  assumes "k \<in> {1, 4, 5, 6, 7}"
  shows "ipv4_from_bytes (raw[k := b]) = ipv4_from_bytes raw \<and>
    map_option ipv4_validate_checksum (ipv4_from_bytes (raw[k := b]))
      = map_option ipv4_validate_checksum (ipv4_from_bytes raw)"
  using ipv4_from_bytes_ignores [OF assms] by simp

theorem header_fields_ignored_witness:
  "ipv4_from_bytes ((replicate 20 0)[1 := 0xFF]) = ipv4_from_bytes (replicate 20 0)"
  using header_fields_ignored [of 1 "replicate 20 0" "0xFF"] by simp

text \<open>Printing an address with its prefix and parsing the text gives the address back, whatever was in
  the address that the parser writes to.\<close>

theorem address_text_roundtrip:
  assumes "20 \<le> out_size" "prefix ip \<le> 32"
  shows "ip_parse (ip_to_string ip out_size True) out_ip = Some (True, ip)"
proof -
  have "unat (prefix ip) \<le> 32" using assms(2) by (simp add: word_le_nat_alt)
  from ip_parse_dotted_prefix [OF this, of "octet ip" out_ip] show ?thesis
    by (simp add: ip_to_string_dotted [OF assms(1)])
qed

theorem address_text_roundtrip_witness:
  "ip_parse (ip_to_string (ip_init (Octets 10 0 0 5) 24) 32 True) zero_ip = Some (True, ip_init (Octets 10 0 0 5) 24)"
  by (rule address_text_roundtrip) (simp_all add: ip_init_def)

text \<open>ARP requests and replies are parsed back as they were built, up to the prefix lengths, which ARP
  does not carry.\<close>

theorem arp_survives:
  "arp_message_to_bytes m 28 = Some (arp_wire m) \<and> arp_message_from_bytes (arp_wire m) = Some (arp_received m) \<and>
    arp_op (arp_received m) = arp_op m \<and> arp_sender_mac (arp_received m) = arp_sender_mac m \<and>
    octet (arp_sender_ip (arp_received m)) = octet (arp_sender_ip m) \<and>
    octet (arp_target_ip (arp_received m)) = octet (arp_target_ip m)"
  using arp_from_wire [of m "[]"] by (simp add: arp_message_to_bytes_def arp_received_def)

end
