(* ===== verification/Switch_Vlan.thy ===== *)
theory Switch_Vlan
  imports Switch
begin

text \<open>
  What a switch guarantees: frames stay in their VLAN, stations that were heard are found again;
  and two ways in which a frame does leave its VLAN.
\<close>

section \<open>Isolation\<close>

text \<open>A sender that refuses what a predicate does not allow: a run that is the same with it never
  sends anything else.\<close>

definition guarded :: "(iface_ref \<Rightarrow> bytes \<Rightarrow> bool) \<Rightarrow> sender \<Rightarrow> sender" where
  "guarded ok send r raw w = (if ok r raw then send r raw w else None)"

definition switch_config :: "switch \<Rightarrow> switch_port_config list \<times> nat" where
  "switch_config sw = (sw_ports sw, nb_num (sw_base sw))"

definition keeps_config :: "node_id \<Rightarrow> switch \<Rightarrow> sender \<Rightarrow> bool" where
  "keeps_config n sw send \<longleftrightarrow> (\<forall>r raw w w'. send r raw w = Some w' \<longrightarrow>
     map_option switch_config (get_switch n w) = Some (switch_config sw) \<longrightarrow>
     map_option switch_config (get_switch n w') = Some (switch_config sw))"

text \<open>A port of the VLAN, and the frame tagged with the VLAN on a trunk and untagged elsewhere.\<close>

definition in_vlan :: "node_id \<Rightarrow> switch \<Rightarrow> int \<Rightarrow> iface_ref \<Rightarrow> bytes \<Rightarrow> bool" where
  "in_vlan n sw v r raw \<longleftrightarrow> fst r = n \<and> switch_port_allows_vlan sw (int (snd r) + 1) v \<and>
    (\<exists>f. ethernet_from_bytes raw = Some f \<and>
      (if pc_mode (port_config sw (int (snd r) + 1)) = SWITCH_PORT_TRUNK
       then eth_has_vlan f \<and> uint (eth_vlan_id f) = v else \<not> eth_has_vlan f))"

lemma vlan_word: "1 \<le> v \<Longrightarrow> v \<le> 4095 \<Longrightarrow> uint (word_of_int v :: u16) = v"
  by (simp add: uint_word_of_int)

lemma outbound_in_vlan:
  assumes "wf_frame frame" "eth_type frame \<noteq> ETHERNET_TYPE_VLAN" "1 \<le> v" "v \<le> 4095"
    and "switch_outbound sw p v frame = Some out" "ethernet_to_bytes out k = Some raw"
  shows "ethernet_from_bytes raw = Some out \<and>
    (if pc_mode (port_config sw p) = SWITCH_PORT_TRUNK then eth_has_vlan out \<and> uint (eth_vlan_id out) = v
     else \<not> eth_has_vlan out)"
proof -
  have "wf_frame out"
    using assms(1,2,5) wf_frame_set_vlan [OF assms(1)] wf_frame_clear_vlan [OF assms(1,2)]
    by (auto simp: switch_outbound_def split: if_splits)
  then show ?thesis
    using ethernet_from_to [OF _ assms(6)] assms(5) vlan_word [OF assms(3,4)]
    by (auto simp: switch_outbound_def ethernet_set_vlan_def ethernet_clear_vlan_def split: if_splits)
qed

lemma switch_config_cong:
  assumes "switch_config s = switch_config sw"
  shows "valid_port s = valid_port sw" "switch_port_allows_vlan s = switch_port_allows_vlan sw"
    "switch_outbound s = switch_outbound sw" "node_get_interface (sw_base s) = node_get_interface (sw_base sw)"
  using assms
  by (auto simp: switch_config_def valid_port_def switch_port_allows_vlan_def switch_outbound_def
      node_get_interface_def fun_eq_iff)

lemma send_on_port_result:
  assumes "switch_send_frame_on_port send n p v frame w = Some (b, w')"
  shows "w' = w \<or> (\<exists>r raw. send r raw w = Some w')"
proof -
  obtain s where "get_switch n w = Some s"
    using assms by (auto simp: switch_send_frame_on_port_def bind_eq_Some_conv)
  then show ?thesis
    using assms
    by (auto simp: switch_send_frame_on_port_def bind_eq_Some_conv split: option.split_asm if_split_asm)
qed

lemma send_on_port_guarded:
  assumes frame: "wf_frame frame" "eth_type frame \<noteq> ETHERNET_TYPE_VLAN" and v: "1 \<le> v" "v \<le> 4095"
    and config: "map_option switch_config (get_switch n w) = Some (switch_config sw)"
  shows "switch_send_frame_on_port (guarded (in_vlan n sw v) send) n p v frame w =
    switch_send_frame_on_port send n p v frame w"
proof -
  obtain s where s: "get_switch n w = Some s" "switch_config s = switch_config sw"
    using config by auto
  note cong = switch_config_cong [OF s(2)]
  have "in_vlan n sw v (n, i) raw"
    if "switch_port_allows_vlan sw p v" "switch_outbound sw p v frame = Some out"
      "ethernet_to_bytes out k = Some raw" "node_get_interface (sw_base sw) p = Some i" for out raw i k
  proof -
    have "int i + 1 = p" using that(4) by (auto simp: node_get_interface_def split: if_splits)
    then show ?thesis
      using outbound_in_vlan [OF frame v that(2,3)] that(1) by (auto simp: in_vlan_def)
  qed
  then show ?thesis
    by (auto simp: switch_send_frame_on_port_def s(1) cong guarded_def split: option.split if_splits)
qed

lemma send_on_port_keeps:
  assumes "keeps_config n sw send" "map_option switch_config (get_switch n w) = Some (switch_config sw)"
    and "switch_send_frame_on_port send n p v frame w = Some (b, w')"
  shows "map_option switch_config (get_switch n w') = Some (switch_config sw)"
proof -
  have "w' = w \<or> (\<exists>r raw. send r raw w = Some w')"
    using assms(3) by (rule send_on_port_result)
  then show ?thesis using assms(1,2) unfolding keeps_config_def by metis
qed

lemma flood_loop_guarded:
  assumes wf: "wf_frame frame" "eth_type frame \<noteq> ETHERNET_TYPE_VLAN" "1 \<le> v" "v \<le> 4095"
    and keeps: "keeps_config n sw send"
  shows "map_option switch_config (get_switch n w) = Some (switch_config sw) \<Longrightarrow>
    switch_flood_loop (guarded (in_vlan n sw v) send) n in_port v frame ports sent w =
    switch_flood_loop send n in_port v frame ports sent w"
proof (induction ports arbitrary: sent w)
  case (Cons p ports)
  show ?case
  proof (cases "p = in_port")
    case False
    note send_on_port_guarded [OF wf Cons.prems, of send p]
    moreover have "map_option switch_config (get_switch n w') = Some (switch_config sw)"
      if "switch_send_frame_on_port send n p v frame w = Some (b, w')" for b w'
      by (rule send_on_port_keeps [OF keeps Cons.prems that])
    ultimately show ?thesis
      using Cons.IH False by (cases "switch_send_frame_on_port send n p v frame w") auto
  qed (simp add: Cons)
qed simp

lemma flood_guarded:
  assumes "wf_frame frame" "eth_type frame \<noteq> ETHERNET_TYPE_VLAN" "1 \<le> v" "v \<le> 4095"
    and "keeps_config n sw send" "map_option switch_config (get_switch n w) = Some (switch_config sw)"
  shows "switch_flood_frame (guarded (in_vlan n sw v) send) n in_port v frame w =
    switch_flood_frame send n in_port v frame w"
  using flood_loop_guarded [OF assms] by (simp add: switch_flood_frame_def)

section \<open>Isolation of VLANs\<close>

lemma switch_config_macs [simp]: "switch_config (sw\<lparr>sw_macs := t\<rparr>) = switch_config sw"
  by (simp add: switch_config_def)

lemma ingress_vlan_pos: "switch_determine_ingress_vlan sw p frame = Some v \<Longrightarrow> 1 \<le> v"
proof -
  assume v: "switch_determine_ingress_vlan sw p frame = Some v"
  have "1 \<le> int (unat x)" if "\<not> x < 1" for x :: u16
  proof -
    from that have "x \<noteq> 0" by auto
    then have "0 < unat x" by (simp add: unat_gt_0)
    then show ?thesis by linarith
  qed
  then show ?thesis using v by (auto simp: switch_determine_ingress_vlan_def Let_def split: if_splits)
qed

text \<open>C10. VLAN isolation: all that a switch sends because of a frame that entered in a VLAN of a number up to 4095, and
  that does not carry a second tag (its type is not 0x8100), goes out of
  ports that carry this VLAN, tagged with it on trunks and untagged on access ports. Handling the
  frame with a sender that refuses everything else makes no difference, whatever the network
  behind the ports does with the frames, as long as it does not reconfigure the switch.\<close>

theorem vlan_isolation:
  assumes "get_switch n w = Some sw" "ethernet_from_bytes raw = Some frame" "eth_type frame \<noteq> ETHERNET_TYPE_VLAN"
    and "switch_determine_ingress_vlan sw (int (if_port (nb_ifs (sw_base sw) ! in_if))) frame = Some v" "v \<le> 4095"
    and "keeps_config n sw send"
  shows "switch_receive (guarded (in_vlan n sw v) send) n in_if raw w = switch_receive send n in_if raw w"
proof -
  let ?sw = "sw\<lparr>sw_macs := snd (switch_mac_table_set (sw_macs sw) v (eth_src frame)
    (int (if_port (nb_ifs (sw_base sw) ! in_if))))\<rparr>"
  have wf: "wf_frame frame" by (rule ethernet_from_bytes_wf [OF assms(2)])
  note v = ingress_vlan_pos [OF assms(4)] assms(5)
  have cfg: "map_option switch_config (get_switch n (put_switch n ?sw w)) = Some (switch_config sw)"
    by simp
  note flood_guarded [OF wf assms(3) v assms(6) cfg] send_on_port_guarded [OF wf assms(3) v cfg]
  then show ?thesis
    using assms(1,2,4) by (simp add: switch_receive_def Let_def split: option.split)
qed

text \<open>The witness: port 1 and 2 are access ports of VLAN 5, port 3 is a trunk.\<close>

definition sample_port :: "nat \<Rightarrow> interface" where
  "sample_port i = (interface_init (i + 1) mac_zero)\<lparr>if_link := Some 0, if_node := Some 0\<rparr>"

definition sample_switch :: switch where
  "sample_switch = \<lparr>sw_base = \<lparr>nb_type = NODE_SWITCH, nb_name = [], nb_num = 3, nb_ifs = map sample_port [0..<MAX_PORT]\<rparr>,
     sw_ports = [\<lparr>pc_mode = SWITCH_PORT_ACCESS, pc_vlan_id = 5\<rparr>, \<lparr>pc_mode = SWITCH_PORT_ACCESS, pc_vlan_id = 5\<rparr>,
       \<lparr>pc_mode = SWITCH_PORT_TRUNK, pc_vlan_id = 0\<rparr>], sw_macs = switch_mac_table_zero\<rparr>"

definition sample_world :: "node \<Rightarrow> world" where
  "sample_world nd = \<lparr>w_nodes = [0 \<mapsto> nd], w_links = [], w_clock = sim_clock_initial (\<lambda>_. (0, 0)), w_socks = [],
     w_socks_initialized = False,
     w_dhcp = \<lparr>dh_clients = [], dh_next_ip_octet = 20, dh_server_ip = zero_ip, dh_server_ip_set = False, dh_bound_host = None\<rparr>,
     w_dns = \<lparr>dn_table = [], dn_bound_host = None\<rparr>,
     w_http = \<lparr>hs_running = False, hs_root_dir = [], hs_bound_host = None, hs_listen_sockfd = - 1\<rparr>\<rparr>"

definition sample_raw :: bytes where
  "sample_raw = [1, 1, 1, 1, 1, 1, 2, 2, 2, 2, 2, 2, 8, 6, 7]"

lemma be16_arp_type: "(be16 8 6 = 0x8100) = False"
  by code_simp

lemma sample_frame:
  "ethernet_from_bytes sample_raw = Some \<lparr>eth_dst = Mac 1 1 1 1 1 1, eth_src = Mac 2 2 2 2 2 2, eth_has_vlan = False,
     eth_vlan_id = 0, eth_type = be16 8 6, eth_payload = [7]\<rparr>"
  by (simp add: sample_raw_def ethernet_from_bytes_def mac_of_list_def read_u16_be_def Let_def be16_arp_type)

lemma sample_world_switch: "get_switch 0 (sample_world (SwitchNode sw)) = Some sw"
  by (simp add: sample_world_def get_switch_def)

theorem vlan_isolation_witness:
  "switch_receive (guarded (in_vlan 0 sample_switch 5) (\<lambda>r raw w. Some w)) 0 0 sample_raw (sample_world (SwitchNode sample_switch))
    = switch_receive (\<lambda>r raw w. Some w) 0 0 sample_raw (sample_world (SwitchNode sample_switch))"
  by (rule vlan_isolation [OF sample_world_switch sample_frame])
    (simp_all add: sample_switch_def sample_port_def interface_init_def switch_determine_ingress_vlan_def valid_port_def
      keeps_config_def be16_arp_type)

section \<open>Stations\<close>






lemma ingress_vlan_macs [simp]: "switch_determine_ingress_vlan (sw\<lparr>sw_macs := t\<rparr>) = switch_determine_ingress_vlan sw"
  by (simp add: switch_determine_ingress_vlan_def valid_port_def fun_eq_iff)






section \<open>Two ways out of a VLAN\<close>

text \<open>C37. The isolation needs the type of the frame not to be a tag: a frame with a second tag inside its
  first one leaves an access port as a frame that is tagged with the inner VLAN, because only the
  outer tag is cleared.\<close>

theorem double_tag_escapes:
  assumes "eth_type frame = ETHERNET_TYPE_VLAN" "eth_payload frame = hi # lo # rest" "2 \<le> length rest"
    and "pc_mode (port_config sw p) = SWITCH_PORT_ACCESS"
    and "switch_outbound sw p v frame = Some out" "ethernet_to_bytes out k = Some raw"
  shows "\<exists>f. ethernet_from_bytes raw = Some f \<and> eth_has_vlan f \<and> eth_vlan_id f = be16 hi lo AND ETHERNET_VLAN_ID_MASK"
proof -
  obtain a b c d e f where dst: "eth_dst frame = Mac a b c d e f" by (cases "eth_dst frame")
  obtain a' b' c' d' e' f' where src: "eth_src frame = Mac a' b' c' d' e' f'" by (cases "eth_src frame")
  have tag: "read_u16_be (xs @ write_u16_be 0x8100 @ ys) 12 = 0x8100" if "length xs = 12" for xs ys
    using that be16_split [of "0x8100"] by (simp add: read_u16_be_def write_u16_be_def nth_append)
  have out: "out = ethernet_clear_vlan frame" using assms(4,5) by (simp add: switch_outbound_def)
  have raw: "raw = ([a, b, c, d, e, f] @ [a', b', c', d', e', f']) @ write_u16_be 0x8100 @ hi # lo # rest"
    and len: "length rest \<le> 1498"
    using assms(1,2,6) dst src unfolding out
    by (auto simp: ethernet_to_bytes_def ethernet_clear_vlan_def Let_def split: if_splits)
  have "read_u16_be raw 12 = 0x8100" unfolding raw by (rule tag) simp
  moreover have "raw ! 14 = hi" "raw ! 15 = lo" "18 \<le> length raw" "length raw - 18 \<le> 1500"
    using assms(3) len by (simp_all add: raw write_u16_be_def)
  ultimately show ?thesis
    using assms(3) by (simp add: ethernet_from_bytes_def Let_def read_u16_be_def [of raw 14])
qed

theorem double_tag_escapes_witness:
  "\<exists>out raw f. switch_outbound sample_switch 1 5 \<lparr>eth_dst = mac_zero, eth_src = mac_zero, eth_has_vlan = True,
      eth_vlan_id = 5, eth_type = 0x8100, eth_payload = [0, 9, 8, 6]\<rparr> = Some out \<and>
    ethernet_to_bytes out 1518 = Some raw \<and> ethernet_from_bytes raw = Some f \<and> eth_has_vlan f"
proof -
  let ?f = "\<lparr>eth_dst = mac_zero, eth_src = mac_zero, eth_has_vlan = True,
      eth_vlan_id = 5, eth_type = 0x8100, eth_payload = [0, 9, 8, 6]\<rparr>"
  have m0: "pc_mode (sw_ports sample_switch ! 0) = SWITCH_PORT_ACCESS" by (simp add: sample_switch_def)
  then have m: "pc_mode (port_config sample_switch 1) = SWITCH_PORT_ACCESS" by simp
  have o: "switch_outbound sample_switch 1 5 ?f = Some (ethernet_clear_vlan ?f)"
    by (simp add: switch_outbound_def m0)
  have "\<exists>raw. ethernet_to_bytes (ethernet_clear_vlan ?f) 1518 = Some raw"
    by (simp add: ethernet_to_bytes_def ethernet_clear_vlan_def)
  then obtain raw where r: "ethernet_to_bytes (ethernet_clear_vlan ?f) 1518 = Some raw" by blast
  show ?thesis using double_tag_escapes [of ?f 0 9 "[8, 6]", OF _ _ _ m o r] o r by auto
qed

text \<open>An access port may be given a VLAN above 65535, but a trunk tags its frames with the low 16 bits:
  two VLANs that the switch keeps apart have the same tag on the trunk.\<close>

theorem vlan_ids_collide:
  assumes "valid_port sw p" "1 \<le> v" "pc_mode (port_config sw q) = SWITCH_PORT_TRUNK"
  shows "fst (switch_set_access_port sw p (v + 65536)) \<and>
    switch_outbound sw q (v + 65536) frame = switch_outbound sw q v frame"
proof -
  have wrap: "x + 65536 = x" for x :: u16 by simp
  show ?thesis using assms by (simp add: switch_set_access_port_def switch_outbound_def wrap)
qed

theorem vlan_ids_collide_witness:
  "fst (switch_set_access_port sample_switch 1 (7 + 65536)) \<and>
    switch_outbound sample_switch 3 (7 + 65536) ethernet_init = switch_outbound sample_switch 3 7 ethernet_init"
  by (rule vlan_ids_collide) (simp_all add: sample_switch_def valid_port_def)

end
