(* ===== verification/Routing.thy ===== *)
theory Routing
  imports Router
begin

text \<open>
  What the routing table of a router means, and what a router does with packets it forwards.
\<close>

section \<open>The longest prefix\<close>

text \<open>The reference: among the matching entries, the first of those with the longest prefix.\<close>

definition best_route :: "u32 \<Rightarrow> route list \<Rightarrow> route option" where
  "best_route v es =
    (let ms = filter (route_matches v) es; longest = Max (set (map (\<lambda>e. unat (prefix (rt_destination e))) ms))
     in find (\<lambda>e. unat (prefix (rt_destination e)) = longest) ms)"

abbreviation route_len :: "route \<Rightarrow> nat" where
  "route_len e \<equiv> unat (prefix (rt_destination e))"

lemma longest_attained:
  fixes es :: "route list"
  assumes "es \<noteq> []"
  obtains e where "find (\<lambda>e. route_len e = Max (set (map route_len es))) es = Some e"
    and "e \<in> set es" "route_len e = Max (set (map route_len es))"
proof -
  let ?m = "Max (set (map route_len es))"
  have "?m \<in> set (map route_len es)" using assms by (intro Max_in) auto
  then have "\<exists>x \<in> set es. route_len x = ?m" by auto
  then have "find (\<lambda>e. route_len e = ?m) es \<noteq> None" by (auto simp: find_None_iff)
  then obtain e where "find (\<lambda>e. route_len e = ?m) es = Some e" by blast
  moreover from this have "e \<in> set es" "route_len e = ?m" by (auto simp: find_Some_iff)
  ultimately show ?thesis by (rule that)
qed

lemma best_route_cases:
  obtains "filter (route_matches v) es = []" "best_route v es = None"
  | e where "filter (route_matches v) es \<noteq> []" "best_route v es = Some e" "e \<in> set es" "route_matches v e"
    "route_len e = Max (set (map route_len (filter (route_matches v) es)))"
proof (cases "filter (route_matches v) es = []")
  case True
  then show ?thesis using that(1) by (simp add: best_route_def)
next
  case False
  show ?thesis by (rule longest_attained [OF False]) (use False in \<open>auto intro!: that(2) simp: best_route_def Let_def\<close>)
qed

lemma route_search_best:
  "route_search v es best b =
    (case best_route v es of
       None \<Rightarrow> best
     | Some e \<Rightarrow> if b < int (route_len e) then Some e else best)"
proof (induction es arbitrary: best b)
  case Nil
  then show ?case by (simp add: best_route_def)
next
  case (Cons e es)
  let ?ms = "filter (route_matches v) es"
  show ?case
  proof (cases "route_matches v e")
    case False
    then show ?thesis using Cons by (simp add: best_route_def)
  next
    case match: True
    show ?thesis
    proof (cases v es rule: best_route_cases)
      case 1
      with match show ?thesis by (simp add: Cons best_route_def)
    next
      case (2 e')
      have M: "Max (set (map route_len (e # ?ms))) = max (route_len e) (route_len e')"
        using 2 by (simp del: set_filter)
      have "find (\<lambda>e. route_len e = route_len e') ?ms = Some e'"
        using 2 by (simp add: best_route_def Let_def)
      moreover have "best_route v (e # es) = find (\<lambda>x. route_len x = max (route_len e) (route_len e')) (e # ?ms)"
        using match by (simp only: best_route_def Let_def filter.simps if_True M)
      ultimately have "best_route v (e # es) = (if route_len e' \<le> route_len e then Some e else Some e')"
        by (auto simp: max_def)
      then show ?thesis using 2(2) match by (auto simp: Cons word_le_nat_alt [symmetric] word_le_def)
    qed
  qed
qed

text \<open>C9. Routing is longest prefix match: the one loop of \<^verbatim>\<open>router_lookup_route\<close> finds the first of
  the matching entries with the longest prefix, and nothing when no entry matches.\<close>

theorem longest_prefix_match:
  "router_lookup_route r ip = best_route (ip_to_u32 ip) (r_routes r)"
proof -
  have "- 1 < int (unat x)" for x :: u8 by linarith
  then show ?thesis
    by (simp only: router_lookup_route_def route_search_best if_True) (simp split: option.split)
qed

lemma best_route_props:
  assumes "best_route v es = Some e"
  shows "e \<in> set es" "route_matches v e" "\<And>e'. e' \<in> set es \<Longrightarrow> route_matches v e' \<Longrightarrow> route_len e' \<le> route_len e"
  using assms by (cases v es rule: best_route_cases; auto)+

lemma best_route_None: "best_route v es = None \<longleftrightarrow> (\<forall>e \<in> set es. \<not> route_matches v e)"
  by (cases v es rule: best_route_cases) (auto simp: filter_empty_conv)

section \<open>The table\<close>

definition wf_routes :: "router \<Rightarrow> bool" where
  "wf_routes r \<longleftrightarrow> length (r_routes r) \<le> ROUTER_MAX_ROUTES \<and>
    (\<forall>e \<in> set (r_routes r). router_port_ok r (rt_out_interface e) \<and> prefix (rt_destination e) \<le> 32 \<and>
       ip_network_address (rt_destination e) = rt_destination e) \<and>
    distinct (map (\<lambda>e. (octet (rt_destination e), prefix (rt_destination e), octet (rt_next_hop e), rt_out_interface e))
      (r_routes r))"

lemma network_idem [simp]: "ip_network_address (ip_network_address ip) = ip_network_address ip"
  by (simp add: ip_network_address_def Let_def)

text \<open>C30. Every route that \<^verbatim>\<open>router_add_route\<close> accepts keeps the table well formed: no entry twice,
  never more than 128, only networks (the host bits cleared), prefixes up to 32 and ports that
  exist; a route that is already there is accepted and changes nothing.\<close>

theorem routes_invariant:
  assumes "wf_routes r"
  shows "wf_routes (snd (router_add_route r d h p)) \<and>
    (fst (router_add_route r d h p) \<longrightarrow>
      router_add_route (snd (router_add_route r d h p)) d h p = (True, snd (router_add_route r d h p)))"
proof -
  have port: "router_port_ok (r\<lparr>r_routes := es\<rparr>) = router_port_ok r" for es
    by (simp add: router_port_ok_def fun_eq_iff)
  have "prefix d \<le> 32" if "\<not> 32 < prefix d" using that by simp
  then show ?thesis
    using assms by (auto simp: wf_routes_def router_add_route_def Let_def port list_ex_iff not_less)
qed

theorem routes_invariant_witness:
  "\<exists>r :: router. wf_routes r \<and> r_routes r \<noteq> [] \<and> wf_routes (snd (router_add_route r zero_ip zero_ip 1))"
proof -
  obtain r0 :: router where r0: "r_routes r0 = []" "nb_num (r_base r0) = 1"
    by (rule that [of "(undefined :: router)\<lparr>r_routes := [], r_base := (undefined :: node_base)\<lparr>nb_num := 1\<rparr>\<rparr>"]) simp_all
  let ?r = "snd (router_add_route r0 (ip_init (Octets 10 0 0 0) 8) zero_ip 1)"
  have w: "wf_routes r0" using r0 by (simp add: wf_routes_def)
  have "wf_routes ?r" using routes_invariant [OF w] by simp
  moreover have "r_routes ?r \<noteq> []"
    using r0 by (simp add: router_add_route_def router_port_ok_def ip_init_def)
  ultimately show ?thesis using routes_invariant [of ?r zero_ip zero_ip 1] by blast
qed

text \<open>A route that was added is used: every destination in its network is routed from then on, through
  this entry or through one with a prefix at least as long.\<close>

theorem route_reaches:
  assumes "fst (router_add_route r d h p)"
    and "ip_to_u32 ip AND ip_prefix_to_mask (prefix d) = ip_to_u32 d AND ip_prefix_to_mask (prefix d)"
  shows "\<exists>e. router_lookup_route (snd (router_add_route r d h p)) ip = Some e \<and> prefix d \<le> prefix (rt_destination e)"
proof -
  let ?r = "snd (router_add_route r d h p)"
  have "\<exists>e \<in> set (r_routes ?r). octet (rt_destination e) = octet (ip_network_address d) \<and> prefix (rt_destination e) = prefix d"
    using assms(1) by (auto simp: router_add_route_def Let_def list_ex_iff split: if_split_asm)
  then obtain e where e: "e \<in> set (r_routes ?r)" "octet (rt_destination e) = octet (ip_network_address d)"
      "prefix (rt_destination e) = prefix d" by blast
  have "ip_to_u32 (rt_destination e) = ip_to_u32 (ip_network_address d)"
    using e(2) by (simp add: ip_to_u32_inject)
  then have match: "route_matches (ip_to_u32 ip) e"
    using assms(2) e(3) by (simp add: route_matches_def ip_to_u32_network)
  then obtain e' where e': "best_route (ip_to_u32 ip) (r_routes ?r) = Some e'"
    using e(1) best_route_None by blast
  have "route_len e \<le> route_len e'" by (rule best_route_props(3) [OF e' e(1) match])
  then show ?thesis using e' e(3) by (auto simp: longest_prefix_match word_le_nat_alt)
qed

text \<open>The witness: on a router with one port, a route for 10.0.0.0/8 serves 10.1.2.3.\<close>

theorem route_reaches_witness:
  "\<exists>r :: router. r_routes r = [] \<and>
    (\<exists>e. router_lookup_route (snd (router_add_route r (ip_init (Octets 10 0 0 0) 8) zero_ip 1))
        (ip_init (Octets 10 1 2 3) 32) = Some e \<and> 8 \<le> prefix (rt_destination e))"
proof -
  obtain r :: router where r: "r_routes r = []" "nb_num (r_base r) = 1"
    by (rule that [of "(undefined :: router)\<lparr>r_routes := [], r_base := (undefined :: node_base)\<lparr>nb_num := 1\<rparr>\<rparr>"]) simp_all
  have "fst (router_add_route r (ip_init (Octets 10 0 0 0) 8) zero_ip 1)"
    using r by (simp add: router_add_route_def router_port_ok_def ip_init_def)
  moreover have "ip_to_u32 (ip_init (Octets 10 1 2 3) 32) AND ip_prefix_to_mask 8 =
      ip_to_u32 (ip_init (Octets 10 0 0 0) 8) AND ip_prefix_to_mask 8" by code_simp
  ultimately show ?thesis
    using r route_reaches [of r "ip_init (Octets 10 0 0 0) 8" zero_ip 1 "ip_init (Octets 10 1 2 3) 32"]
    by (auto simp: ip_init_def)
qed

end
