(* ===== verification/Forwarding.thy ===== *)
theory Forwarding
  imports Wire Routing
begin

text \<open>
  What a router does with a packet, as the node at the other end of the wire sees it: it forwards
  with the time to live decremented, and reports what it cannot forward to the sender.
\<close>

section \<open>A packet to a neighbour whose address is known\<close>

text \<open>The frame a router sends, read by the neighbour.\<close>

definition carries :: "bytes \<Rightarrow> mac_address \<Rightarrow> mac_address \<Rightarrow> ipv4_packet \<Rightarrow> bool" where
  "carries raw dst src p \<longleftrightarrow>
    (case ethernet_from_bytes raw of
       None \<Rightarrow> False
     | Some f \<Rightarrow> eth_dst f = dst \<and> eth_src f = src \<and> eth_type f = ETHERNET_TYPE_IPV4 \<and>
         ipv4_from_bytes (eth_payload f) = Some p \<and> ipv4_validate_checksum p)"

lemma router_frame:
  assumes "get_router n w = Some r" "node_get_interface (r_base r) port = Some i"
    and "ipv4_to_bytes p (IPV4_HEADER_SIZE + IPV4_MAX_PAYLOAD) = Some raw"
  obtains out where
    "router_send_ethernet_frame send n port vlan mac ETHERNET_TYPE_IPV4 raw w = map_option (Pair True) (send (n, i) out w)"
    "carries out mac (if_mac (nb_ifs (r_base r) ! i)) (ipv4_reparsed p)"
proof -
  have port: "router_port_ok r port"
    using assms(2) by (auto simp: router_port_ok_def node_get_interface_def split: if_splits)
  have pl: "length (ip4_payload p) \<le> IPV4_MAX_PAYLOAD" and len: "length raw \<le> ETHERNET_MAX_PAYLOAD"
    using ipv4_to_bytes_SomeD [OF assms(3)] by auto
  then obtain f0 where f0: "ethernet_create mac (if_mac (nb_ifs (r_base r) ! i)) ETHERNET_TYPE_IPV4 raw = Some f0"
    by (simp add: ethernet_create_def)
  define f where
    "f = (if 0 < vlan then (case ethernet_set_vlan f0 (word_of_int vlan) of None \<Rightarrow> f0 | Some f \<Rightarrow> f) else f0)"
  have tag: "f = f0 \<or> ethernet_set_vlan f0 (word_of_int vlan) = Some f"
    by (auto simp: f_def split: option.split)
  have "wf_frame f" using tag wf_frame_create [OF f0] wf_frame_set_vlan by auto
  moreover have "eth_payload f = raw" "eth_type f = ETHERNET_TYPE_IPV4"
    using tag f0 by (auto simp: ethernet_create_def ethernet_set_vlan_def split: if_splits)
  ultimately obtain out where out: "ethernet_to_bytes f (ETHERNET_VLAN_HEADER_SIZE + ETHERNET_MAX_PAYLOAD) = Some out"
    using ethernet_to_bytes_Some [of f] len by fastforce
  have e: "ethernet_from_bytes out = Some f \<and> eth_payload f = raw \<and> eth_dst f = mac \<and> eth_src f = if_mac (nb_ifs (r_base r) ! i)"
    by (rule ethernet_survives [OF f0 _ tag out]) simp
  show ?thesis
  proof (rule that)
    show "router_send_ethernet_frame send n port vlan mac ETHERNET_TYPE_IPV4 raw w = map_option (Pair True) (send (n, i) out w)"
      using assms(1,2) port f0 out
      by (simp add: router_send_ethernet_frame_def Let_def map_conv_bind_option comp_def flip: f_def)
    show "carries out mac (if_mac (nb_ifs (r_base r) ! i)) (ipv4_reparsed p)"
      using e \<open>eth_type f = _\<close> ipv4_from_to [OF assms(3)] ipv4_reparsed_valid [OF pl] by (simp add: carries_def)
  qed
qed

lemma to_next_hop:
  assumes "get_router n w = Some r" "node_get_interface (r_base r) port = Some i"
    and "arp_table_get (r_arp r) hop = Some mac" "length (ip4_payload p) \<le> IPV4_MAX_PAYLOAD"
  obtains out where
    "router_send_packet_to_next_hop poll send n p hop port w = map_option (Pair True) (send (n, i) out w)"
    "carries out mac (if_mac (nb_ifs (r_base r) ! i)) (ipv4_reparsed p)"
proof -
  let ?v = "router_vlan_for_ip r hop (r_vlans r ! nat (port - 1))"
  have port: "router_port_ok r port"
    using assms(2) by (auto simp: router_port_ok_def node_get_interface_def split: if_splits)
  have "\<exists>raw. ipv4_to_bytes p (IPV4_HEADER_SIZE + IPV4_MAX_PAYLOAD) = Some raw"
    using ipv4_to_bytes_eq [OF assms(4)] assms(4) by simp
  then obtain raw where raw: "ipv4_to_bytes p (IPV4_HEADER_SIZE + IPV4_MAX_PAYLOAD) = Some raw" by blast
  obtain out where
    "router_send_ethernet_frame send n port ?v mac ETHERNET_TYPE_IPV4 raw w = map_option (Pair True) (send (n, i) out w)"
    "carries out mac (if_mac (nb_ifs (r_base r) ! i)) (ipv4_reparsed p)"
    by (rule router_frame [OF assms(1,2) raw])
  then show ?thesis
    using assms(1,3) port raw by (intro that) (simp_all add: router_send_packet_to_next_hop_def)
qed

lemma put_router_same: "get_router n w = Some r \<Longrightarrow> put_router n r w = w"
  by (auto simp: get_router_def put_node_def fun_upd_idem split: option.splits node.splits)

section \<open>Forwarding\<close>

text \<open>The state of the router after it has noted the VLAN of the interface a frame came in through.\<close>

definition note_vlan :: "router \<Rightarrow> nat \<Rightarrow> ethernet_frame \<Rightarrow> router" where
  "note_vlan r in_if f =
    (if eth_has_vlan f \<and> eth_vlan_id f \<noteq> 0
     then r\<lparr>r_vlans := (r_vlans r)[if_port (nb_ifs (r_base r) ! in_if) - 1 := int (unat (eth_vlan_id f))]\<rparr> else r)"

lemma note_vlan_same [simp]:
  "r_base (note_vlan r in_if f) = r_base r" "r_arp (note_vlan r in_if f) = r_arp r"
  "router_lookup_route (note_vlan r in_if f) = router_lookup_route r"
  "router_has_interface_ip (note_vlan r in_if f) = router_has_interface_ip r"
  "router_interface_ip_or_zero (note_vlan r in_if f) = router_interface_ip_or_zero r"
  by (simp_all add: note_vlan_def router_lookup_route_def router_has_interface_ip_def fun_eq_iff
      router_interface_ip_or_zero_def router_port_ok_def)

text \<open>The packets a router does not keep for itself.\<close>

definition transit :: "router \<Rightarrow> nat \<Rightarrow> bytes \<Rightarrow> ethernet_frame \<Rightarrow> ipv4_packet \<Rightarrow> bool" where
  "transit r in_if raw f p \<longleftrightarrow> ethernet_from_bytes raw = Some f \<and> eth_type f = ETHERNET_TYPE_IPV4 \<and>
     eth_dst f = if_mac (nb_ifs (r_base r) ! in_if) \<and> ipv4_from_bytes (eth_payload f) = Some p \<and>
     ipv4_validate_checksum p \<and> router_has_interface_ip r (ip4_dst p) = None"

lemma receive_transit:
  assumes "get_router n w = Some r" "transit r in_if raw f p"
  shows "router_receive send n in_if raw w = router_forward_ipv4_packet send n p (put_router n (note_vlan r in_if f) w)"
proof -
  have "0 < int (unat (eth_vlan_id f)) \<longleftrightarrow> eth_vlan_id f \<noteq> 0" by (simp add: unat_gt_0 del: of_nat_unat)
  then show ?thesis
    using assms
    by (auto simp: router_receive_def transit_def note_vlan_def Let_def mac_equal_def put_router_same nat_diff_distrib'
        router_has_interface_ip_def simp del: of_nat_unat split: if_splits)
qed

text \<open>C7. Forwarding: a valid packet that is not for the router itself, has hops left and a route whose
  next hop is in the ARP table leaves by the interface of the route, in a frame from this interface
  to the next hop. The next node accepts it, with the time to live one less and the addresses, the
  protocol and the payload unchanged.\<close>

theorem packet_forwarded:
  assumes "get_router n w = Some r" "transit r in_if raw f p" "1 < ip4_ttl p"
    and "router_lookup_route r (ip4_dst p) = Some e" "node_get_interface (r_base r) (rt_out_interface e) = Some i"
    and "arp_table_get (r_arp r) (route_next_hop e (ip4_dst p)) = Some mac"
  shows "\<exists>out q. router_receive send n in_if raw w = send (n, i) out (put_router n (note_vlan r in_if f) w) \<and>
    carries out mac (if_mac (nb_ifs (r_base r) ! i)) q \<and> ip4_ttl q = ip4_ttl p - 1 \<and>
    octet (ip4_src q) = octet (ip4_src p) \<and> octet (ip4_dst q) = octet (ip4_dst p) \<and>
    ip4_protocol q = ip4_protocol p \<and> ip4_payload q = ip4_payload p"
proof -
  let ?w = "put_router n (note_vlan r in_if f) w" and ?p = "p\<lparr>ip4_ttl := ip4_ttl p - 1\<rparr>"
  have pl: "length (ip4_payload ?p) \<le> IPV4_MAX_PAYLOAD"
    using assms(2) ipv4_from_bytes_payload by (auto simp: transit_def)
  have r: "get_router n ?w = Some (note_vlan r in_if f)" by simp
  obtain out where out: "send_to_next_hop send n ?p (route_next_hop e (ip4_dst p)) (rt_out_interface e) ?w =
      map_option (Pair True) (send (n, i) out ?w)"
    "carries out mac (if_mac (nb_ifs (r_base r) ! i)) (ipv4_reparsed ?p)"
    by (rule to_next_hop [OF r, of "rt_out_interface e" i "route_next_hop e (ip4_dst p)" mac ?p]) (use assms pl in simp_all)
  have "\<not> ip4_ttl p \<le> 1" using assms(3) by (simp add: not_le)
  then have "router_receive send n in_if raw w = send (n, i) out ?w"
    using assms(4) out(1) by (simp add: receive_transit [OF assms(1,2)] router_forward_ipv4_packet_def map_conv_bind_option)
  then show ?thesis using out(2) by (intro exI [of _ out] exI [of _ "ipv4_reparsed ?p"]) (simp add: ipv4_reparsed_def)
qed

text \<open>A router between 10.0.1.0/24 and 10.0.2.0/24 that knows one host on each side.\<close>

definition sample_mac :: "u8 \<Rightarrow> mac_address" where
  "sample_mac b = Mac 2 0 0 0 0 b"

definition sample_router :: router where
  "sample_router = \<lparr>
     r_base = \<lparr>nb_type = NODE_ROUTER, nb_name = [], nb_num = 2,
       nb_ifs = map (\<lambda>i. interface_init (i + 1) (sample_mac (of_nat i))) [0..<MAX_PORT]\<rparr>,
     r_ips = [\<lparr>ri_port = 1, ri_ip = ip_init (Octets 10 0 1 1) 24, ri_has_ip = True\<rparr>,
              \<lparr>ri_port = 2, ri_ip = ip_init (Octets 10 0 2 1) 24, ri_has_ip = True\<rparr>],
     r_routes = [\<lparr>rt_destination = ip_init (Octets 10 0 1 0) 24, rt_next_hop = zero_ip, rt_out_interface = 1\<rparr>,
                 \<lparr>rt_destination = ip_init (Octets 10 0 2 0) 24, rt_next_hop = zero_ip, rt_out_interface = 2\<rparr>],
     r_arp = \<lparr>tab_entries = [\<lparr>ae_ip = ip_init (Octets 10 0 1 2) 0, ae_mac = sample_mac 101\<rparr>,
                             \<lparr>ae_ip = ip_init (Octets 10 0 2 2) 0, ae_mac = sample_mac 102\<rparr>], tab_size = 2\<rparr>,
     r_arp_vlans = [0, 0], r_vlans = [0, 0], r_queue = zero_router_queue\<rparr>"

lemma sample_router_simps [simp]:
  "nb_ifs (r_base sample_router) ! 0 = interface_init 1 (sample_mac 0)"
  "nb_ifs (r_base sample_router) ! Suc 0 = interface_init 2 (sample_mac 1)"
  "nb_num (r_base sample_router) = 2"
  by (simp_all add: sample_router_def numeral_2_eq_2 del: upt_Suc)

lemma sample_router_lookups:
  "router_has_interface_ip sample_router (ip_init (Octets 10 0 2 2) 0) = None"
  "router_has_interface_ip sample_router (ip_init (Octets 10 0 9 2) 0) = None"
  "router_lookup_route sample_router (ip_init (Octets 10 0 1 2) 0) =
     Some \<lparr>rt_destination = ip_init (Octets 10 0 1 0) 24, rt_next_hop = zero_ip, rt_out_interface = 1\<rparr>"
  "router_lookup_route sample_router (ip_init (Octets 10 0 2 2) 0) =
     Some \<lparr>rt_destination = ip_init (Octets 10 0 2 0) 24, rt_next_hop = zero_ip, rt_out_interface = 2\<rparr>"
  "router_lookup_route sample_router (ip_init (Octets 10 0 9 2) 0) = None"
  "arp_table_get (r_arp sample_router) (ip_init (Octets 10 0 1 2) 0) = Some (sample_mac 101)"
  "arp_table_get (r_arp sample_router) (ip_init (Octets 10 0 2 2) 0) = Some (sample_mac 102)"
  "router_interface_ip_or_zero sample_router 1 = ip_init (Octets 10 0 1 1) 24"
  by (code_simp; simp add: sample_router_def)+

lemma transit_frame:
  assumes "length (ip4_payload p) \<le> IPV4_MAX_PAYLOAD" "router_has_interface_ip r (ip4_dst p) = None"
  obtains raw f where "transit r in_if raw f (ipv4_reparsed p)" "\<not> eth_has_vlan f"
proof -
  let ?mac = "if_mac (nb_ifs (r_base r) ! in_if)"
  have "\<exists>pl. ipv4_to_bytes p (IPV4_HEADER_SIZE + IPV4_MAX_PAYLOAD) = Some pl"
    using ipv4_to_bytes_eq [OF assms(1)] assms(1) by simp
  then obtain pl where pl: "ipv4_to_bytes p (IPV4_HEADER_SIZE + IPV4_MAX_PAYLOAD) = Some pl" by blast
  then have len: "length pl \<le> ETHERNET_MAX_PAYLOAD" using ipv4_to_bytes_SomeD by fastforce
  then obtain f where f: "ethernet_create ?mac mac_zero ETHERNET_TYPE_IPV4 pl = Some f"
    by (simp add: ethernet_create_def)
  then have ff: "eth_payload f = pl" "eth_type f = ETHERNET_TYPE_IPV4" "eth_dst f = ?mac" "\<not> eth_has_vlan f"
    by (auto simp: ethernet_create_def ethernet_init_def split: if_splits)
  obtain raw where raw: "ethernet_to_bytes f (18 + ETHERNET_MAX_PAYLOAD) = Some raw"
    using ethernet_to_bytes_Some [OF wf_frame_create [OF f], of "18 + ETHERNET_MAX_PAYLOAD"] ff(1) len by auto
  have "ethernet_from_bytes raw = Some f" using ethernet_survives [OF f _ _ raw] by simp
  moreover have "router_has_interface_ip r (ip4_dst (ipv4_reparsed p)) = None"
    using assms(2) by (simp add: router_has_interface_ip_def ipv4_reparsed_def)
  ultimately show ?thesis
    using ff ipv4_from_to [OF pl] ipv4_reparsed_valid [OF assms(1)] by (intro that [of raw f]) (auto simp: transit_def)
qed

text \<open>The witness: 10.0.1.2 sends a byte to 10.0.2.2.\<close>

definition sample_packet :: "octets \<Rightarrow> u8 \<Rightarrow> ipv4_packet" where
  "sample_packet dst ttl = ipv4_init\<lparr>ip4_src := ip_init (Octets 10 0 1 2) 0, ip4_dst := ip_init dst 0,
     ip4_ttl := ttl, ip4_protocol := IPV4_PROTOCOL_UDP, ip4_payload := [7]\<rparr>"

lemma sample_packet_simps [simp]:
  "ip4_payload (ipv4_reparsed (sample_packet dst ttl)) = [7]" "ip4_ttl (ipv4_reparsed (sample_packet dst ttl)) = ttl"
  "ip4_dst (ipv4_reparsed (sample_packet dst ttl)) = ip_init dst 0" "ip4_payload (sample_packet dst ttl) = [7]"
  "ip4_src (ipv4_reparsed (sample_packet dst ttl)) = ip_init (Octets 10 0 1 2) 0"
  "ip4_dst (sample_packet dst ttl) = ip_init dst 0"
  by (simp_all add: sample_packet_def ipv4_reparsed_def ip_init_def)

theorem packet_forwarded_witness:
  "\<exists>send :: sender. \<exists>n raw w out q. router_receive send n 0 raw w = send (n, 1) out w \<and>
    carries out (sample_mac 102) (sample_mac 1) q \<and> ip4_ttl q = 63 \<and> ip4_payload q = [7]"
proof -
  let ?p = "sample_packet (Octets 10 0 2 2) 64"
  obtain raw f where t: "transit sample_router 0 raw f (ipv4_reparsed ?p)" "\<not> eth_has_vlan f"
    by (rule transit_frame [of ?p sample_router 0]) (simp_all add: sample_router_lookups)
  obtain w :: world where w: "get_router 0 w = Some sample_router"
    by (rule that [of "put_router 0 sample_router undefined"]) simp
  let ?send = "\<lambda>_ _. Some :: world \<Rightarrow> world option"
  have "put_router 0 (note_vlan sample_router 0 f) w = w" using w t(2) by (simp add: note_vlan_def put_router_same)
  moreover have "(1 :: u8) < ip4_ttl (ipv4_reparsed ?p)" by simp
  moreover have "route_next_hop \<lparr>rt_destination = ip_init (Octets 10 0 2 0) 24, rt_next_hop = zero_ip, rt_out_interface = 2\<rparr>
      (ip_init (Octets 10 0 2 2) 0) = ip_init (Octets 10 0 2 2) 0" by code_simp
  ultimately have "\<exists>out q. router_receive ?send 0 0 raw w = ?send (0, 1) out w \<and>
      carries out (sample_mac 102) (sample_mac 1) q \<and> ip4_ttl q = 63 \<and> ip4_payload q = [7]"
    using packet_forwarded [OF w t(1), of "\<lparr>rt_destination = ip_init (Octets 10 0 2 0) 24, rt_next_hop = zero_ip, rt_out_interface = 2\<rparr>"
        1 "sample_mac 102" ?send]
    by (auto simp: sample_router_lookups node_get_interface_def interface_init_def)
  then show ?thesis by (intro exI [of _ ?send] exI [of _ 0]) blast
qed

section \<open>Errors\<close>

text \<open>What the sender of an undeliverable packet receives.\<close>

definition reports :: "ipv4_packet \<Rightarrow> u8 \<Rightarrow> u8 \<Rightarrow> ipv4_packet \<Rightarrow> bool" where
  "reports q ty code original \<longleftrightarrow> ip4_protocol q = IPV4_PROTOCOL_ICMP \<and>
     (case icmp_from_bytes (ip4_payload q) of
        None \<Rightarrow> False
      | Some m \<Rightarrow> icmp_validate_checksum m \<and> icmp_type m = ty \<and> icmp_code m = code \<and>
          ipv4_to_bytes original (IPV4_HEADER_SIZE + IPV4_MAX_PAYLOAD) \<noteq> None \<and>
          icmp_payload m = take 28 (the (ipv4_to_bytes original (IPV4_HEADER_SIZE + IPV4_MAX_PAYLOAD))))"

lemma router_icmp_error_reports:
  assumes "router_lookup_route r (ip4_src p) = Some e" "\<not> ip_is_zero (router_interface_ip_or_zero r (rt_out_interface e))"
    and "length (ip4_payload p) \<le> IPV4_MAX_PAYLOAD"
  obtains q where "router_icmp_error r p ty code = Some q" "reports (ipv4_reparsed q) ty code p"
    "length (ip4_payload q) \<le> IPV4_MAX_PAYLOAD" "ip4_dst q = ip4_src p"
    "ip4_src q = router_interface_ip_or_zero r (rt_out_interface e)" "ip4_ttl q = IPV4_DEFAULT_TTL"
proof -
  let ?src = "router_interface_ip_or_zero r (rt_out_interface e)"
  have "\<exists>raw. ipv4_to_bytes p (IPV4_HEADER_SIZE + IPV4_MAX_PAYLOAD) = Some raw"
    using ipv4_to_bytes_eq [OF assms(3)] assms(3) by simp
  then obtain raw where raw: "ipv4_to_bytes p (IPV4_HEADER_SIZE + IPV4_MAX_PAYLOAD) = Some raw" by blast
  have len: "length (take 28 raw) \<le> 28" by simp
  then have "\<exists>m. icmp_create ty code 0 0 (take 28 raw) = Some m" by (auto simp: icmp_create_def)
  then obtain m where m: "icmp_create ty code 0 0 (take 28 raw) = Some m" by blast
  then have mm: "icmp_payload m = take 28 raw" "icmp_type m = ty" "icmp_code m = code"
    by (auto simp: icmp_create_def split: if_splits)
  then have pl: "length (icmp_payload m) \<le> ICMP_MAX_PAYLOAD" using len by simp
  have im: "icmp_to_bytes m (ICMP_HEADER_SIZE + ICMP_MAX_PAYLOAD) = Some (icmp_wire m)"
    by (rule icmp_to_bytes_eq [OF pl]) (use pl in simp)
  have "length (icmp_wire m) \<le> IPV4_MAX_PAYLOAD" using mm(1) by simp
  then obtain q where q: "ipv4_create ?src (ip4_src p) IPV4_DEFAULT_TTL IPV4_PROTOCOL_ICMP (icmp_wire m) = Some q"
    by (simp add: ipv4_create_def)
  note qq = ipv4_create_payload [OF q]
  show ?thesis
  proof (rule that [of q])
    show "router_icmp_error r p ty code = Some q"
      using assms(1,2) raw m im q by (simp add: router_icmp_error_def)
    show "reports (ipv4_reparsed q) ty code p"
      using qq raw mm icmp_from_to [OF im] icmp_wire_valid [OF pl] by (simp add: reports_def ipv4_reparsed_def)
  qed (use qq in simp_all)
qed

text \<open>C15. A packet in transit that has used up its hops, or has no route, is not forwarded. When the router has a route
  back to the sender, the interface of this route exists and has an address, and the hardware address of the next hop towards the sender is in
  the ARP table, then all that the router sends, and at once, is one
  ICMP error (time exceeded, or destination unreachable) to the packet's sender, from the router's address on that side,
  which quotes the header and the first bytes of the packet and passes every check.\<close>

theorem failure_reported:
  assumes "get_router n w = Some r" "transit r in_if raw f p"
    and "ip4_ttl p \<le> 1 \<and> ty = ICMP_TIME_EXCEEDED \<and> quoted = p \<or>
      1 < ip4_ttl p \<and> router_lookup_route r (ip4_dst p) = None \<and> ty = ICMP_DEST_UNREACHABLE \<and>
      quoted = p\<lparr>ip4_ttl := ip4_ttl p - 1\<rparr>"
    and "router_lookup_route r (ip4_src p) = Some e" "node_get_interface (r_base r) (rt_out_interface e) = Some i"
    and "\<not> ip_is_zero (router_interface_ip_or_zero r (rt_out_interface e))"
    and "arp_table_get (r_arp r) (route_next_hop e (ip4_src p)) = Some mac"
  shows "\<exists>out q. router_receive send n in_if raw w = send (n, i) out (put_router n (note_vlan r in_if f) w) \<and>
    carries out mac (if_mac (nb_ifs (r_base r) ! i)) q \<and> reports q ty 0 quoted \<and> ip4_ttl q = IPV4_DEFAULT_TTL \<and>
    octet (ip4_dst q) = octet (ip4_src p) \<and>
    octet (ip4_src q) = octet (router_interface_ip_or_zero r (rt_out_interface e))"
proof -
  let ?r = "note_vlan r in_if f"
  let ?w = "put_router n ?r w"
  have pl: "length (ip4_payload p) \<le> IPV4_MAX_PAYLOAD"
    using assms(2) ipv4_from_bytes_payload by (auto simp: transit_def)
  have quoted: "ip4_src quoted = ip4_src p" "length (ip4_payload quoted) \<le> IPV4_MAX_PAYLOAD"
    using assms(3) pl by auto
  obtain q where q: "router_icmp_error ?r quoted ty 0 = Some q" "reports (ipv4_reparsed q) ty 0 quoted"
    "length (ip4_payload q) \<le> IPV4_MAX_PAYLOAD" "ip4_dst q = ip4_src quoted"
    "ip4_src q = router_interface_ip_or_zero ?r (rt_out_interface e)" "ip4_ttl q = IPV4_DEFAULT_TTL"
    by (rule router_icmp_error_reports [of ?r quoted e ty 0]) (use assms quoted in simp_all)
  have r: "get_router n ?w = Some ?r" by simp
  obtain out where out: "send_to_next_hop send n q (route_next_hop e (ip4_dst q)) (rt_out_interface e) ?w =
      map_option (Pair True) (send (n, i) out ?w)"
    "carries out mac (if_mac (nb_ifs (r_base r) ! i)) (ipv4_reparsed q)"
    by (rule to_next_hop [OF r, of "rt_out_interface e" i "route_next_hop e (ip4_dst q)" mac q]) (use assms q quoted in simp_all)
  have "router_receive send n in_if raw w = send_icmp_error send n quoted ty 0 ?w"
    using assms(3) by (auto simp: receive_transit [OF assms(1,2)] router_forward_ipv4_packet_def)
  also have "\<dots> = send (n, i) out ?w"
    using out(1) assms(4) q quoted by (simp add: router_send_icmp_error_def router_send_ipv4_packet_def map_conv_bind_option)
  finally show ?thesis
    using q quoted out(2) by (intro exI [of _ out] exI [of _ "ipv4_reparsed q"]) (auto simp: ipv4_reparsed_def)
qed

theorem failure_reported_witness:
  "\<exists>send :: sender. \<exists>n raw w out q original. router_receive send n 0 raw w = send (n, 0) out w \<and>
    carries out (sample_mac 101) (sample_mac 0) q \<and> reports q ICMP_TIME_EXCEEDED 0 original \<and> ip4_payload original = [7]"
proof -
  let ?p = "sample_packet (Octets 10 0 9 2) 1"
  let ?e = "\<lparr>rt_destination = ip_init (Octets 10 0 1 0) 24, rt_next_hop = zero_ip, rt_out_interface = 1\<rparr>"
  obtain raw f where t: "transit sample_router 0 raw f (ipv4_reparsed ?p)" "\<not> eth_has_vlan f"
    by (rule transit_frame [of ?p sample_router 0]) (simp_all add: sample_router_lookups)
  obtain w :: world where w: "get_router 0 w = Some sample_router"
    by (rule that [of "put_router 0 sample_router undefined"]) simp
  let ?send = "\<lambda>_ _. Some :: world \<Rightarrow> world option"
  have "put_router 0 (note_vlan sample_router 0 f) w = w" using w t(2) by (simp add: note_vlan_def put_router_same)
  moreover have "route_next_hop ?e (ip_init (Octets 10 0 1 2) 0) = ip_init (Octets 10 0 1 2) 0"
    "\<not> ip_is_zero (ip_init (Octets 10 0 1 1) 24)" by code_simp+
  ultimately have "\<exists>out q. router_receive ?send 0 0 raw w = ?send (0, 0) out w \<and>
      carries out (sample_mac 101) (sample_mac 0) q \<and> reports q ICMP_TIME_EXCEEDED 0 (ipv4_reparsed ?p)"
    using failure_reported [OF w t(1), of ICMP_TIME_EXCEEDED "ipv4_reparsed ?p" ?e 0 "sample_mac 101" ?send]
    by (auto simp: sample_router_lookups node_get_interface_def interface_init_def)
  then obtain out q where "router_receive ?send 0 0 raw w = ?send (0, 0) out w \<and>
      carries out (sample_mac 101) (sample_mac 0) q \<and> reports q ICMP_TIME_EXCEEDED 0 (ipv4_reparsed ?p) \<and>
      ip4_payload (ipv4_reparsed ?p) = [7]" by auto
  then show ?thesis by blast
qed

end
