(* ===== verification/Router_Flush.thy ===== *)
theory Router_Flush
  imports Router
begin







lemma router_same_port [simp]: "router_port_ok (r\<lparr>r_queue := q\<rparr>) = router_port_ok r"
  by (simp add: router_port_ok_def fun_eq_iff)










end
