(* ===== verification/Json.thy ===== *)
theory Json
  imports Address
begin

text \<open>
  The JSON parser and writer of the topology files: \<^verbatim>\<open>utils/json.c\<close>. A \<^verbatim>\<open>double\<close> is a real
  number; the parser's state is what is left of its input with the depth counter; what the writer
  puts into a file is the text it returns. \<open>None\<close> is the null pointer. A tree is a value here, so
  \<^verbatim>\<open>json_free\<close> has no counterpart, and allocation does not fail.
\<close>

abbreviation JSON_MAX_STRING :: nat where "JSON_MAX_STRING \<equiv> 2048"
abbreviation JSON_MAX_ARRAY :: nat where "JSON_MAX_ARRAY \<equiv> 256"
abbreviation JSON_MAX_DEPTH :: int where "JSON_MAX_DEPTH \<equiv> 32"

datatype json_value =
  JSON_OBJECT "(string \<times> json_value) list"
| JSON_ARRAY "json_value list"
| JSON_STRING string
| JSON_NUMBER real
| JSON_BOOL bool
| JSON_NULL

section \<open>The parser\<close>

record json_parser =
  jp_rest :: string
  jp_depth :: int

definition json_parse_whitespace :: "json_parser \<Rightarrow> json_parser" where
  "json_parse_whitespace p = p\<lparr>jp_rest := dropWhile is_space (jp_rest p)\<rparr>"

definition json_parse_char :: "json_parser \<Rightarrow> char \<Rightarrow> bool \<times> json_parser" where
  "json_parse_char p c =
    (let p = json_parse_whitespace p
     in case jp_rest p of
          [] \<Rightarrow> (False, p)
        | x # xs \<Rightarrow> if x = c then (True, p\<lparr>jp_rest := xs\<rparr>) else (False, p))"

definition json_unescape :: "char \<Rightarrow> char" where
  "json_unescape c =
    (if c = CHR ''n'' then CHR 0x0A else if c = CHR ''t'' then CHR 0x09 else if c = CHR ''r'' then CHR 0x0D else c)"

text \<open>The loop of \<^verbatim>\<open>json_parse_string_raw\<close>: what it writes from position \<open>i\<close> on, and what is left.\<close>

fun json_string_loop :: "nat \<Rightarrow> nat \<Rightarrow> string \<Rightarrow> (string \<times> string) option" where
  "json_string_loop out_size i [] = Some ([], [])"
| "json_string_loop out_size i (c # s) =
    (if c = CHR 0x22 \<or> out_size \<le> i + 1 then Some ([], c # s)
     else if c = CHR 0x5C then
       (case s of
          [] \<Rightarrow> None
        | d # s \<Rightarrow> do { (out, rest) \<leftarrow> json_string_loop out_size (i + 1) s; Some (json_unescape d # out, rest) })
     else do { (out, rest) \<leftarrow> json_string_loop out_size (i + 1) s; Some (c # out, rest) })"

definition json_parse_string_raw :: "json_parser \<Rightarrow> nat \<Rightarrow> (string \<times> json_parser) option" where
  "json_parse_string_raw p out_size =
    (let (ok, p) = json_parse_char p (CHR 0x22)
     in if \<not> ok then None
        else do {
          (out, rest) \<leftarrow> json_string_loop out_size 0 (jp_rest p);
          let (ok, p) = json_parse_char (p\<lparr>jp_rest := rest\<rparr>) (CHR 0x22);
          if \<not> ok then None else Some (out, p)
        })"

definition json_parse_string :: "json_parser \<Rightarrow> (json_value \<times> json_parser) option" where
  "json_parse_string p = do {
    (s, p) \<leftarrow> json_parse_string_raw p JSON_MAX_STRING;
    Some (JSON_STRING s, p)
  }"

definition digit_of :: "char \<Rightarrow> real" where
  "digit_of c = real (of_char c) - 48"

fun json_digits :: "real \<Rightarrow> string \<Rightarrow> real \<times> string" where
  "json_digits num [] = (num, [])"
| "json_digits num (c # s) = (if is_digit c then json_digits (num * 10 + digit_of c) s else (num, c # s))"

fun json_fraction :: "real \<Rightarrow> real \<Rightarrow> string \<Rightarrow> real \<times> real \<times> string" where
  "json_fraction fr dv [] = (fr, dv, [])"
| "json_fraction fr dv (c # s) =
    (if is_digit c then json_fraction (fr * 10 + digit_of c) (dv * 10) s else (fr, dv, c # s))"

definition json_parse_number :: "json_parser \<Rightarrow> (json_value \<times> json_parser) option" where
  "json_parse_number p =
    (let (is_negative, s) = (case jp_rest p of c # s \<Rightarrow> if c = CHR ''-'' then (True, s) else (False, c # s) | [] \<Rightarrow> (False, []))
     in if s = [] \<or> \<not> is_digit (hd s) then None
        else
          let (num, s) = json_digits 0 s;
              (num, s) = (case s of
                  c # s' \<Rightarrow> if c = CHR ''.'' then (let (fr, dv, s) = json_fraction 0 1 s' in (num + fr / dv, s))
                            else (num, s)
                | [] \<Rightarrow> (num, s))
          in Some (JSON_NUMBER (if is_negative then - num else num), p\<lparr>jp_rest := s\<rparr>))"

definition json_parse_keyword :: "json_parser \<Rightarrow> string \<Rightarrow> json_value \<Rightarrow> (json_value \<times> json_parser) option" where
  "json_parse_keyword p kw val =
    (if length (jp_rest p) < length kw then None
     else if take (length kw) (jp_rest p) \<noteq> kw then None
     else Some (val, p\<lparr>jp_rest := drop (length kw) (jp_rest p)\<rparr>))"

text \<open>
  The recursion of the parser: values, and the loops over the members of an object and the items
  of an array, which get what they have read so far. Every loop consumes input, which is what
  makes them end.
\<close>

function json_parse_value :: "json_parser \<Rightarrow> (json_value \<times> json_parser) option"
  and json_parse_object :: "json_parser \<Rightarrow> (json_value \<times> json_parser) option"
  and json_parse_array :: "json_parser \<Rightarrow> (json_value \<times> json_parser) option"
  and json_members :: "(string \<times> json_value) list \<Rightarrow> json_parser \<Rightarrow> ((string \<times> json_value) list \<times> json_parser) option"
  and json_items :: "json_value list \<Rightarrow> json_parser \<Rightarrow> (json_value list \<times> json_parser) option" where
  "json_parse_value p =
    (let p = json_parse_whitespace p
     in case jp_rest p of
          [] \<Rightarrow> None
        | c # _ \<Rightarrow>
            if c = CHR 0x7B then json_parse_object p
            else if c = CHR 0x5B then json_parse_array p
            else if c = CHR 0x22 then json_parse_string p
            else if c = CHR ''-'' \<or> is_digit c then json_parse_number p
            else if c = CHR ''t'' then json_parse_keyword p ''true'' (JSON_BOOL True)
            else if c = CHR ''f'' then json_parse_keyword p ''false'' (JSON_BOOL False)
            else if c = CHR ''n'' then json_parse_keyword p ''null'' JSON_NULL
            else None)"
| "json_parse_object p =
    (case json_parse_char p (CHR 0x7B) of
       (False, p) \<Rightarrow> None
     | (True, p) \<Rightarrow>
         if JSON_MAX_DEPTH < jp_depth p + 1 then None
         else (case json_parse_char (p\<lparr>jp_depth := jp_depth p + 1\<rparr>) (CHR 0x7D) of
             (True, p) \<Rightarrow> Some (JSON_OBJECT [], p\<lparr>jp_depth := jp_depth p - 1\<rparr>)
           | (False, p) \<Rightarrow> (case json_members [] p of
               None \<Rightarrow> None
             | Some (ms, p) \<Rightarrow> Some (JSON_OBJECT ms, p\<lparr>jp_depth := jp_depth p - 1\<rparr>))))"
| "json_parse_array p =
    (case json_parse_char p (CHR 0x5B) of
       (False, p) \<Rightarrow> None
     | (True, p) \<Rightarrow>
         if JSON_MAX_DEPTH < jp_depth p + 1 then None
         else (case json_parse_char (p\<lparr>jp_depth := jp_depth p + 1\<rparr>) (CHR 0x5D) of
             (True, p) \<Rightarrow> Some (JSON_ARRAY [], p\<lparr>jp_depth := jp_depth p - 1\<rparr>)
           | (False, p) \<Rightarrow> (case json_items [] p of
               None \<Rightarrow> None
             | Some (vs, p) \<Rightarrow> Some (JSON_ARRAY vs, p\<lparr>jp_depth := jp_depth p - 1\<rparr>))))"
| "json_members ms p =
    (case json_parse_string_raw p JSON_MAX_STRING of
       None \<Rightarrow> None
     | Some (key, p) \<Rightarrow>
         (case json_parse_char p (CHR 0x3A) of
            (False, p) \<Rightarrow> None
          | (True, p) \<Rightarrow>
              (case json_parse_value p of
                 None \<Rightarrow> None
               | Some (val, p) \<Rightarrow>
                   (case json_parse_char p (CHR 0x7D) of
                      (True, p) \<Rightarrow> Some (ms @ [(key, val)], p)
                    | (False, p) \<Rightarrow>
                        (case json_parse_char p (CHR 0x2C) of
                           (False, p) \<Rightarrow> None
                         | (True, p) \<Rightarrow> json_members (ms @ [(key, val)]) p)))))"
| "json_items vs p =
    (case json_parse_value p of
       None \<Rightarrow> None
     | Some (val, p) \<Rightarrow>
         if JSON_MAX_ARRAY \<le> length vs then None
         else (case json_parse_char p (CHR 0x5D) of
             (True, p) \<Rightarrow> Some (vs @ [val], p)
           | (False, p) \<Rightarrow>
               (case json_parse_char p (CHR 0x2C) of
                  (False, p) \<Rightarrow> None
                | (True, p) \<Rightarrow> json_items (vs @ [val]) p)))"
  by pat_completeness auto

section \<open>Termination\<close>

abbreviation left :: "json_parser \<Rightarrow> nat" where
  "left p \<equiv> length (jp_rest p)"

lemma parse_char_left:
  assumes "json_parse_char p c = (b, p')"
  shows "left p' \<le> left p \<and> (b \<longrightarrow> left p' < left p) \<and> jp_depth p' = jp_depth p"
proof -
  have "length (dropWhile is_space (jp_rest p)) \<le> left p" by (rule length_dropWhile_le)
  then show ?thesis
    using assms by (cases "dropWhile is_space (jp_rest p)")
      (auto simp: json_parse_char_def json_parse_whitespace_def Let_def split: if_splits)
qed

lemma parse_char_True: "json_parse_char p c = (True, p') \<Longrightarrow> left p' < left p"
  using parse_char_left by blast

lemma parse_char_le: "json_parse_char p c = (b, p') \<Longrightarrow> left p' \<le> left p"
  using parse_char_left by blast

lemma string_loop_left_aux: "pred_option (\<lambda>(out, rest). length rest \<le> length s) (json_string_loop m i s)"
proof (induction m i s rule: json_string_loop.induct)
  case (2 m i c s)
  then show ?case
    by (cases s; cases "json_string_loop m (i + 1) (tl s)"; cases "json_string_loop m (i + 1) s") auto
qed simp

lemma string_loop_left: "json_string_loop m i s = Some (out, rest) \<Longrightarrow> length rest \<le> length s"
  using string_loop_left_aux [of s m i] by simp

lemma string_raw_left:
  assumes "json_parse_string_raw p m = Some (out, p')"
  shows "left p' < left p \<and> jp_depth p' = jp_depth p"
proof -
  obtain ok p1 where 1: "json_parse_char p (CHR 0x22) = (ok, p1)" by fastforce
  obtain out1 rest where 2: "json_string_loop m 0 (jp_rest p1) = Some (out1, rest)"
    using assms 1 by (cases "json_string_loop m 0 (jp_rest p1)") (auto simp: json_parse_string_raw_def split: if_splits)
  obtain ok' p2 where 3: "json_parse_char (p1\<lparr>jp_rest := rest\<rparr>) (CHR 0x22) = (ok', p2)" by fastforce
  have "ok \<and> p' = p2" using assms 1 2 3 by (auto simp: json_parse_string_raw_def split: if_splits)
  then show ?thesis using parse_char_left [OF 1] parse_char_left [OF 3] string_loop_left [OF 2] by simp
qed

lemma digits_left: "length (snd (json_digits num s)) \<le> length s"
  by (induction num s rule: json_digits.induct) auto

lemma digits_left_hd: "s \<noteq> [] \<Longrightarrow> is_digit (hd s) \<Longrightarrow> length (snd (json_digits num s)) < length s"
  using digits_left by (cases s) (auto simp: le_imp_less_Suc)

lemma fraction_left: "length (snd (snd (json_fraction fr dv s))) \<le> length s"
  by (induction fr dv s rule: json_fraction.induct) auto

lemma number_left:
  assumes "json_parse_number p = Some (v, p')"
  shows "left p' < left p \<and> jp_depth p' = jp_depth p"
proof -
  define s where "s = (case jp_rest p of c # s \<Rightarrow> if c = CHR ''-'' then s else c # s | [] \<Rightarrow> [])"
  have s: "length s \<le> left p" by (auto simp: s_def split: list.split)
  obtain num t where d: "json_digits 0 s = (num, t)" by fastforce
  have r: "jp_depth p' = jp_depth p" "s \<noteq> []" "is_digit (hd s)"
    and t: "jp_rest p' = t \<or> (\<exists>c t'. t = c # t' \<and> jp_rest p' = snd (snd (json_fraction 0 1 t')))"
    using assms d by (auto simp: json_parse_number_def s_def Let_def case_prod_unfold split: list.splits if_splits)
  have "length t < length s" using digits_left_hd [OF r(2,3), of 0] d by simp
  moreover have "left p' \<le> length t"
  proof (cases "jp_rest p' = t")
    case False
    then obtain c t' where "t = c # t'" "jp_rest p' = snd (snd (json_fraction 0 1 t'))" using t by blast
    then show ?thesis using fraction_left [of 0 1 t'] by simp
  qed simp
  ultimately show ?thesis using r(1) s by linarith
qed

lemma keyword_left: "json_parse_keyword p kw val = Some (v, p') \<Longrightarrow> kw \<noteq> [] \<Longrightarrow> left p' < left p \<and> jp_depth p' = jp_depth p"
  by (cases kw) (auto simp: json_parse_keyword_def split: if_splits)

lemma whitespace_left: "left (json_parse_whitespace p) \<le> left p" "jp_depth (json_parse_whitespace p) = jp_depth p"
  by (simp_all add: json_parse_whitespace_def length_dropWhile_le)

text \<open>What a successful call leaves: less input, at the same depth.\<close>

definition consumes :: "json_parser \<Rightarrow> ('a \<times> json_parser) option \<Rightarrow> bool" where
  "consumes p r \<longleftrightarrow> (\<forall>v p'. r = Some (v, p') \<longrightarrow> left p' < left p \<and> jp_depth p' = jp_depth p)"

lemma consumesI: "(\<And>v p'. r = Some (v, p') \<Longrightarrow> left p' < left p \<and> jp_depth p' = jp_depth p) \<Longrightarrow> consumes p r"
  by (simp add: consumes_def)

lemma consumesD: "consumes p r \<Longrightarrow> r = Some (v, p') \<Longrightarrow> left p' < left p \<and> jp_depth p' = jp_depth p"
  by (simp add: consumes_def)

lemma leaf_consumes:
  "consumes p (json_parse_string p)" "consumes p (json_parse_number p)"
  "kw \<noteq> [] \<Longrightarrow> consumes p (json_parse_keyword p kw v)"
  by (auto simp: json_parse_string_def bind_eq_Some_conv intro!: consumesI dest: string_raw_left number_left keyword_left)

lemma consumes_None [simp]: "consumes p None"
  by (simp add: consumes_def)

lemma consumes_mono: "consumes p r \<Longrightarrow> left p \<le> left q \<Longrightarrow> jp_depth p = jp_depth q \<Longrightarrow> consumes q r"
  by (fastforce simp: consumes_def)

lemma whitespace_consumes: "consumes (json_parse_whitespace p) r \<Longrightarrow> consumes p r"
  by (rule consumes_mono [OF _ whitespace_left])

lemma parser_consumes:
  "json_parse_value_json_parse_object_json_parse_array_json_members_json_items_dom (Inl (Inl p)) \<Longrightarrow>
    consumes p (json_parse_value p)"
  "json_parse_value_json_parse_object_json_parse_array_json_members_json_items_dom (Inl (Inr p)) \<Longrightarrow>
    consumes p (json_parse_object p)"
  "json_parse_value_json_parse_object_json_parse_array_json_members_json_items_dom (Inr (Inl p)) \<Longrightarrow>
    consumes p (json_parse_array p)"
  "json_parse_value_json_parse_object_json_parse_array_json_members_json_items_dom (Inr (Inr (Inl (ms, p)))) \<Longrightarrow>
    consumes p (json_members ms p)"
  "json_parse_value_json_parse_object_json_parse_array_json_members_json_items_dom (Inr (Inr (Inr (vs, p)))) \<Longrightarrow>
    consumes p (json_items vs p)"
proof (induction p and p and p and ms p and vs p
    rule: json_parse_value_json_parse_object_json_parse_array_json_members_json_items.pinduct)
  case (1 p)
  show ?case
  proof (cases "jp_rest (json_parse_whitespace p)")
    case (Cons c r)
    then show ?thesis
      using 1 leaf_consumes
      by (intro whitespace_consumes [of p]) (simp add: json_parse_value.psimps Let_def)
  qed (simp add: json_parse_value.psimps 1 Let_def)
next
  case (2 p)
  show ?case
  proof (rule consumesI)
    fix v p' assume some: "json_parse_object p = Some (v, p')"
    note eq = some [unfolded json_parse_object.psimps [OF 2(1)]]
    obtain ok p1 where o: "json_parse_char p (CHR 0x7B) = (ok, p1)" by fastforce
    then have ok: "ok = True" using eq by (cases ok) auto
    have deep: "\<not> JSON_MAX_DEPTH < jp_depth p1 + 1" using eq o ok by auto
    obtain close p2 where c: "json_parse_char (p1\<lparr>jp_depth := jp_depth p1 + 1\<rparr>) (CHR 0x7D) = (close, p2)" by fastforce
    note l = parse_char_left [OF o] parse_char_left [OF c]
    show "left p' < left p \<and> jp_depth p' = jp_depth p"
    proof (cases close)
      case False
      then obtain xs p3 where m: "json_members [] p2 = Some (xs, p3)"
        using eq o ok deep c by (cases "json_members [] p2") auto
      then have "p' = p3\<lparr>jp_depth := jp_depth p3 - 1\<rparr>" using eq o ok deep c False by auto
      then show ?thesis
        using consumesD [OF 2(2) [OF o [symmetric] ok deep c [symmetric]] m] False ok l by simp
    qed (use eq o ok deep c l in auto)
  qed
next
  case (3 p)
  show ?case
  proof (rule consumesI)
    fix v p' assume some: "json_parse_array p = Some (v, p')"
    note eq = some [unfolded json_parse_array.psimps [OF 3(1)]]
    obtain ok p1 where o: "json_parse_char p (CHR 0x5B) = (ok, p1)" by fastforce
    then have ok: "ok = True" using eq by (cases ok) auto
    have deep: "\<not> JSON_MAX_DEPTH < jp_depth p1 + 1" using eq o ok by auto
    obtain close p2 where c: "json_parse_char (p1\<lparr>jp_depth := jp_depth p1 + 1\<rparr>) (CHR 0x5D) = (close, p2)" by fastforce
    note l = parse_char_left [OF o] parse_char_left [OF c]
    show "left p' < left p \<and> jp_depth p' = jp_depth p"
    proof (cases close)
      case False
      then obtain xs p3 where m: "json_items [] p2 = Some (xs, p3)"
        using eq o ok deep c by (cases "json_items [] p2") auto
      then have "p' = p3\<lparr>jp_depth := jp_depth p3 - 1\<rparr>" using eq o ok deep c False by auto
      then show ?thesis
        using consumesD [OF 3(2) [OF o [symmetric] ok deep c [symmetric]] m] False ok l by simp
    qed (use eq o ok deep c l in auto)
  qed
next
  case (4 ms p)
  show ?case
  proof (rule consumesI)
    fix v p' assume some: "json_members ms p = Some (v, p')"
    note eq = some [unfolded json_members.psimps [OF 4(1)]]
    obtain key p1 where 1: "json_parse_string_raw p JSON_MAX_STRING = Some (key, p1)"
      using eq by (cases "json_parse_string_raw p JSON_MAX_STRING") auto
    obtain ok p2 where 2: "json_parse_char p1 (CHR 0x3A) = (ok, p2)" by fastforce
    then have ok: "ok = True" using eq 1 by (cases ok) auto
    obtain val p3 where 3: "json_parse_value p2 = Some (val, p3)"
      using eq 1 2 ok by (cases "json_parse_value p2") auto
    obtain close p4 where c: "json_parse_char p3 (CHR 0x7D) = (close, p4)" by fastforce
    obtain comma p5 where d: "json_parse_char p4 (CHR 0x2C) = (comma, p5)" by fastforce
    note l = string_raw_left [OF 1] parse_char_left [OF 2] parse_char_left [OF c] parse_char_left [OF d]
      consumesD [OF 4(2) [OF 1 refl 2 [symmetric] ok] 3]
    show "left p' < left p \<and> jp_depth p' = jp_depth p"
    proof (cases close)
      case False
      then have "comma = True" using eq 1 2 ok 3 c d by (cases comma) auto
      then have "json_members (ms @ [(key, val)]) p5 = Some (v, p')" using eq 1 2 ok 3 c d False by simp
      then show ?thesis
        using consumesD [OF 4(3) [OF 1 refl 2 [symmetric] ok 3 refl c [symmetric] _ d [symmetric]]] False \<open>comma = True\<close> l by simp
    qed (use eq 1 2 ok 3 c l in auto)
  qed
next
  case (5 vs p)
  show ?case
  proof (rule consumesI)
    fix v p' assume some: "json_items vs p = Some (v, p')"
    note eq = some [unfolded json_items.psimps [OF 5(1)]]
    obtain val p1 where 1: "json_parse_value p = Some (val, p1)" using eq by (cases "json_parse_value p") auto
    have room: "\<not> JSON_MAX_ARRAY \<le> length vs" using eq 1 by auto
    obtain close p2 where 2: "json_parse_char p1 (CHR 0x5D) = (close, p2)" by fastforce
    obtain comma p3 where 3: "json_parse_char p2 (CHR 0x2C) = (comma, p3)" by fastforce
    note l = consumesD [OF 5(2) 1] parse_char_left [OF 2] parse_char_left [OF 3]
    show "left p' < left p \<and> jp_depth p' = jp_depth p"
    proof (cases close)
      case False
      then have "comma = True" using eq 1 2 room 3 by (cases comma) auto
      then have "json_items (vs @ [val]) p3 = Some (v, p')" using eq 1 2 3 room False by simp
      then show ?thesis
        using consumesD [OF 5(3) [OF 1 refl room 2 [symmetric] _ 3 [symmetric]]] False \<open>comma = True\<close> l by simp
    qed (use eq 1 2 room l in auto)
  qed
qed

fun parser_measure :: "(json_parser + json_parser) + json_parser + ('a \<times> json_parser) + ('b \<times> json_parser) \<Rightarrow> nat" where
  "parser_measure (Inl (Inl p)) = 3 * left p + 1"
| "parser_measure (Inl (Inr p)) = 3 * left p"
| "parser_measure (Inr (Inl p)) = 3 * left p"
| "parser_measure (Inr (Inr (Inl (ms, p)))) = 3 * left p + 2"
| "parser_measure (Inr (Inr (Inr (vs, p)))) = 3 * left p + 2"

termination json_parse_value
proof (relation "measure parser_measure", goal_cases)
  case 1
  show ?case by simp
next
  case (2 p x c cs)
  then show ?case using whitespace_left [of p] by simp
next
  case (3 p x c cs)
  then show ?case using whitespace_left [of p] by simp
next
  case (4 p ok p1 close p2)
  then show ?case using parse_char_left [OF 4(1) [symmetric]] parse_char_left [OF 4(4) [symmetric]] by simp
next
  case (5 p ok p1 close p2)
  then show ?case using parse_char_left [OF 5(1) [symmetric]] parse_char_left [OF 5(4) [symmetric]] by simp
next
  case (6 ms p x2 key p1 ok p2)
  then show ?case using string_raw_left [of p JSON_MAX_STRING key p1] parse_char_left [OF 6(3) [symmetric]] by simp
next
  case (7 ms p x2 key p1 ok p2 y val p3 close p4 comma p5)
  then show ?case
    using string_raw_left [of p JSON_MAX_STRING key p1] parse_char_left [OF 7(3) [symmetric]]
      consumesD [OF parser_consumes(1) [OF 7(11)], of val p3]
      parse_char_left [OF 7(7) [symmetric]] parse_char_left [OF 7(9) [symmetric]] by simp
next
  case (8 vs p)
  then show ?case by simp
next
  case (9 vs p y val p1 close p2 comma p3)
  then show ?case
    using consumesD [OF parser_consumes(1) [OF 9(8)], of val p1]
      parse_char_left [OF 9(4) [symmetric]] parse_char_left [OF 9(6) [symmetric]] by simp
qed

declare json_parse_value.simps [simp del] json_parse_object.simps [simp del] json_parse_array.simps [simp del]
  json_members.simps [simp del] json_items.simps [simp del]

definition json_parse :: "string \<Rightarrow> json_value option" where
  "json_parse input =
    (case json_parse_value \<lparr>jp_rest = takeWhile (\<lambda>c. c \<noteq> CHR 0x00) input, jp_depth = 0\<rparr> of
       None \<Rightarrow> None
     | Some (val, p) \<Rightarrow> if jp_rest (json_parse_whitespace p) \<noteq> [] then None else Some val)"

section \<open>The writer\<close>

definition json_write_indent :: "nat \<Rightarrow> string" where
  "json_write_indent indent = replicate indent (CHR '' '')"

definition json_escape :: "char \<Rightarrow> string" where
  "json_escape c =
    (if c = CHR 0x22 then [CHR 0x5C, CHR 0x22] else if c = CHR 0x5C then [CHR 0x5C, CHR 0x5C]
     else if c = CHR 0x0A then [CHR 0x5C, CHR ''n''] else if c = CHR 0x09 then [CHR 0x5C, CHR ''t'']
     else if c = CHR 0x0D then [CHR 0x5C, CHR ''r''] else [c])"

definition json_write_string :: "string \<Rightarrow> string" where
  "json_write_string s = [CHR 0x22] @ concat (map json_escape s) @ [CHR 0x22]"

text \<open>
  \<^verbatim>\<open>fprintf\<close> with \<^verbatim>\<open>%g\<close>: six significant digits, rounded half to even and without trailing
  zeros, in scientific notation when the exponent is below -4 or above 5. A \<^verbatim>\<open>double\<close> that is not
  an integer has an exponent between -324 and 15.
\<close>

fun g_scale :: "nat \<Rightarrow> real \<Rightarrow> int \<Rightarrow> real \<times> int" where
  "g_scale 0 x e = (x, e)"
| "g_scale (Suc n) x e =
    (if 10 \<le> x then g_scale n (x / 10) (e + 1) else if x < 1 then g_scale n (x * 10) (e - 1) else (x, e))"

definition round_even :: "real \<Rightarrow> int" where
  "round_even x =
    (let f = \<lfloor>x\<rfloor>; d = x - of_int f in if d < 1 / 2 \<or> d = 1 / 2 \<and> even f then f else f + 1)"

definition strip_zeros :: "string \<Rightarrow> string" where
  "strip_zeros s = rev (let t = dropWhile (\<lambda>c. c = CHR ''0'') (rev s) in if t \<noteq> [] \<and> hd t = CHR ''.'' then tl t else t)"

definition printf_g :: "real \<Rightarrow> string" where
  "printf_g x =
    (let (y, e) = g_scale 400 \<bar>x\<bar> 0;
         m = round_even (y * 100000);
         (m, e) = (if m = 1000000 then (100000, e + 1) else (m, e));
         ds = decimal (nat m);
         text = (if - 4 \<le> e \<and> e < 6
           then strip_zeros (if 0 \<le> e then take (nat e + 1) ds @ ''.'' @ drop (nat e + 1) ds
                             else ''0.'' @ replicate (nat (- e - 1)) (CHR ''0'') @ ds)
           else strip_zeros (take 1 ds @ ''.'' @ drop 1 ds) @ ''e'' @ (if e < 0 then ''-'' else ''+'') @
             (if \<bar>e\<bar> < 10 then ''0'' else []) @ decimal (nat \<bar>e\<bar>))
     in (if x < 0 then ''-'' else []) @ text)"

definition printf_lld :: "int \<Rightarrow> string" where
  "printf_lld n = (if n < 0 then ''-'' @ decimal (nat (- n)) else decimal (nat n))"

text \<open>
  The cast to \<^verbatim>\<open>long long\<close>. Outside its range C leaves the result open; here it is the smallest
  value, as the x86-64 instruction has it.
\<close>

definition to_long_long :: "real \<Rightarrow> int" where
  "to_long_long x =
    (let t = (if 0 \<le> x then \<lfloor>x\<rfloor> else \<lceil>x\<rceil>) in if - (2 ^ 63) \<le> t \<and> t < 2 ^ 63 then t else - (2 ^ 63))"

fun json_write :: "json_value \<Rightarrow> nat \<Rightarrow> string"
  and json_write_members :: "(string \<times> json_value) list \<Rightarrow> nat \<Rightarrow> string"
  and json_write_items :: "json_value list \<Rightarrow> nat \<Rightarrow> string" where
  "json_write (JSON_STRING s) indent = json_write_string s"
| "json_write (JSON_NUMBER x) indent =
    (if x = of_int (to_long_long x) then printf_lld (to_long_long x) else printf_g x)"
| "json_write (JSON_BOOL b) indent = (if b then ''true'' else ''false'')"
| "json_write JSON_NULL indent = ''null''"
| "json_write (JSON_OBJECT ms) indent =
    [CHR 0x7B, CHR 0x0A] @ json_write_members ms indent @ json_write_indent indent @ [CHR 0x7D]"
| "json_write (JSON_ARRAY vs) indent =
    (if vs = [] then ''[]''
     else [CHR 0x5B, CHR 0x0A] @ json_write_items vs indent @ json_write_indent indent @ [CHR 0x5D])"
| "json_write_members [] indent = []"
| "json_write_members ((key, val) # ms) indent =
    json_write_indent (indent + 2) @ json_write_string key @ '': '' @ json_write val (indent + 2) @
      (if ms \<noteq> [] then '','' else []) @ [CHR 0x0A] @ json_write_members ms indent"
| "json_write_items [] indent = []"
| "json_write_items (val # vs) indent =
    json_write_indent (indent + 2) @ json_write val (indent + 2) @
      (if vs \<noteq> [] then '','' else []) @ [CHR 0x0A] @ json_write_items vs indent"

section \<open>Helpers\<close>

primrec json_object_get :: "json_value \<Rightarrow> string \<Rightarrow> json_value option" where
  "json_object_get (JSON_OBJECT ms) key = map_of ms key"
| "json_object_get (JSON_ARRAY vs) key = None"
| "json_object_get (JSON_STRING s) key = None"
| "json_object_get (JSON_NUMBER x) key = None"
| "json_object_get (JSON_BOOL b) key = None"
| "json_object_get JSON_NULL key = None"

definition json_array_get :: "json_value \<Rightarrow> nat \<Rightarrow> json_value option" where
  "json_array_get arr i = (case arr of JSON_ARRAY vs \<Rightarrow> if length vs \<le> i then None else Some (vs ! i) | _ \<Rightarrow> None)"

definition json_create_string :: "string \<Rightarrow> json_value" where
  "json_create_string s = JSON_STRING (take (JSON_MAX_STRING - 1) s)"

definition json_create_number :: "real \<Rightarrow> json_value" where
  "json_create_number n = JSON_NUMBER n"

definition json_create_bool :: "int \<Rightarrow> json_value" where
  "json_create_bool b = JSON_BOOL (b \<noteq> 0)"

definition json_create_object :: json_value where
  "json_create_object = JSON_OBJECT []"

definition json_create_array :: json_value where
  "json_create_array = JSON_ARRAY []"

definition json_object_add :: "json_value \<Rightarrow> string \<Rightarrow> json_value \<Rightarrow> json_value" where
  "json_object_add obj key val =
    (case obj of JSON_OBJECT ms \<Rightarrow> JSON_OBJECT (ms @ [(take (JSON_MAX_STRING - 1) key, val)]) | _ \<Rightarrow> obj)"

definition json_array_add :: "json_value \<Rightarrow> json_value \<Rightarrow> json_value" where
  "json_array_add arr val =
    (case arr of JSON_ARRAY vs \<Rightarrow> if JSON_MAX_ARRAY \<le> length vs then arr else JSON_ARRAY (vs @ [val]) | _ \<Rightarrow> arr)"

end
