(* ===== verification/Json_Roundtrip.thy ===== *)
theory Json_Roundtrip
  imports Json
begin

text \<open>
  What the parser accepts and what the writer produces: the limits of every tree the parser
  returns, and the round trip.
\<close>

section \<open>Trees within the limits\<close>

definition json_text_ok :: "string \<Rightarrow> bool" where
  "json_text_ok s \<longleftrightarrow> length s < JSON_MAX_STRING \<and> CHR 0x00 \<notin> set s"

text \<open>At most \<open>d\<close> levels of objects and arrays, arrays of at most 256 items, texts that fit into a buffer.\<close>

fun json_ok :: "nat \<Rightarrow> json_value \<Rightarrow> bool"
  and json_members_ok :: "nat \<Rightarrow> (string \<times> json_value) list \<Rightarrow> bool"
  and json_items_ok :: "nat \<Rightarrow> json_value list \<Rightarrow> bool" where
  "json_ok d (JSON_STRING s) = json_text_ok s"
| "json_ok d (JSON_NUMBER x) = True"
| "json_ok d (JSON_BOOL b) = True"
| "json_ok d JSON_NULL = True"
| "json_ok d (JSON_OBJECT ms) = (0 < d \<and> json_members_ok (d - 1) ms)"
| "json_ok d (JSON_ARRAY vs) = (0 < d \<and> length vs \<le> JSON_MAX_ARRAY \<and> json_items_ok (d - 1) vs)"
| "json_members_ok d [] = True"
| "json_members_ok d ((key, val) # ms) = (json_text_ok key \<and> json_ok d val \<and> json_members_ok d ms)"
| "json_items_ok d [] = True"
| "json_items_ok d (val # vs) = (json_ok d val \<and> json_items_ok d vs)"

lemma json_ok_append [simp]:
  "json_members_ok d (ms @ ms') \<longleftrightarrow> json_members_ok d ms \<and> json_members_ok d ms'"
  "json_items_ok d (vs @ vs') \<longleftrightarrow> json_items_ok d vs \<and> json_items_ok d vs'"
proof -
  show "json_members_ok d (ms @ ms') \<longleftrightarrow> json_members_ok d ms \<and> json_members_ok d ms'"
    by (induction ms) auto
  show "json_items_ok d (vs @ vs') \<longleftrightarrow> json_items_ok d vs \<and> json_items_ok d vs'"
    by (induction vs) auto
qed

text \<open>The numbers whose printed form is exact: integers that a \<^verbatim>\<open>double\<close> holds exactly, with all their prefixes.\<close>

definition exact_number :: "real \<Rightarrow> bool" where
  "exact_number x \<longleftrightarrow> x = of_int \<lfloor>x\<rfloor> \<and> \<bar>x\<bar> \<le> 2 ^ 53"

fun exact_numbers :: "json_value \<Rightarrow> bool"
  and exact_members :: "(string \<times> json_value) list \<Rightarrow> bool"
  and exact_items :: "json_value list \<Rightarrow> bool" where
  "exact_numbers (JSON_STRING s) = True"
| "exact_numbers (JSON_NUMBER x) = exact_number x"
| "exact_numbers (JSON_BOOL b) = True"
| "exact_numbers JSON_NULL = True"
| "exact_numbers (JSON_OBJECT ms) = exact_members ms"
| "exact_numbers (JSON_ARRAY vs) = exact_items vs"
| "exact_members [] = True"
| "exact_members ((key, val) # ms) = (exact_numbers val \<and> exact_members ms)"
| "exact_items [] = True"
| "exact_items (val # vs) = (exact_numbers val \<and> exact_items vs)"

section \<open>Leaves\<close>

lemma parse_char_at:
  assumes "jp_rest p = ws @ x # r" "list_all is_space ws" "\<not> is_space x"
  shows "json_parse_char p c = (x = c, p\<lparr>jp_rest := if x = c then r else x # r\<rparr>)"
proof -
  have "dropWhile is_space (ws @ x # r) = x # r"
    using assms(2,3) by (induction ws) simp_all
  then show ?thesis
    using assms(1) by (simp add: json_parse_char_def json_parse_whitespace_def Let_def)
qed

lemma string_loop_escape:
  "i + 1 < m \<Longrightarrow> json_string_loop m i (json_escape c @ s) =
    do { (out, rest) \<leftarrow> json_string_loop m (i + 1) s; Some (c # out, rest) }"
  by (simp add: json_escape_def json_unescape_def)

lemma string_loop_escaped:
  assumes "i + length s < m"
  shows "json_string_loop m i (concat (map json_escape s) @ CHR 0x22 # r) = Some (s, CHR 0x22 # r)"
  using assms
proof (induction s arbitrary: i)
  case (Cons c s)
  then show ?case by (simp add: string_loop_escape)
qed simp

lemma quote_not_space: "\<not> is_space (CHR 0x22)"
  by (simp add: is_space_def)

lemma string_raw_written:
  assumes "jp_rest p = ws @ json_write_string s @ r" "list_all is_space ws" "length s < JSON_MAX_STRING"
  shows "json_parse_string_raw p JSON_MAX_STRING = Some (s, p\<lparr>jp_rest := r\<rparr>)"
proof -
  let ?p = "p\<lparr>jp_rest := concat (map json_escape s) @ CHR 0x22 # r\<rparr>"
  have 1: "json_parse_char p (CHR 0x22) = (True, ?p)"
    using parse_char_at [of p ws "CHR 0x22" "concat (map json_escape s) @ CHR 0x22 # r" "CHR 0x22"] assms quote_not_space
    by (simp add: json_write_string_def)
  have 2: "json_string_loop JSON_MAX_STRING 0 (jp_rest ?p) = Some (s, CHR 0x22 # r)"
    using assms(3) by (simp add: string_loop_escaped)
  have 3: "json_parse_char (?p\<lparr>jp_rest := CHR 0x22 # r\<rparr>) (CHR 0x22) = (True, p\<lparr>jp_rest := r\<rparr>)"
    using parse_char_at [of "p\<lparr>jp_rest := CHR 0x22 # r\<rparr>" "[]" "CHR 0x22" r "CHR 0x22"] quote_not_space by simp
  show ?thesis unfolding json_parse_string_raw_def 1 Let_def prod.case 2 using 3 by simp
qed

lemma json_digits_scan: "json_digits (real acc) s = (let (n, r) = scan_digits acc s in (real n, r))"
proof (induction s arbitrary: acc)
  case (Cons c s)
  have "real acc * 10 + digit_of c = real (acc * 10 + (of_char c - 48))" if "is_digit c"
    using that by (simp add: digit_of_def is_digit_def of_nat_diff)
  then show ?case using Cons [of "acc * 10 + (of_char c - 48)"] by simp
qed simp

definition number_ends :: "string \<Rightarrow> bool" where
  "number_ends r \<longleftrightarrow> (case r of [] \<Rightarrow> True | c # _ \<Rightarrow> \<not> is_digit c \<and> c \<noteq> CHR ''.'')"

lemma scan_ends: "number_ends r \<Longrightarrow> scan_digits acc r = (acc, r)"
  by (cases r) (simp_all add: number_ends_def)

lemma digits_written: "number_ends r \<Longrightarrow> json_digits 0 (decimal n @ r) = (real n, r)"
  using json_digits_scan [of 0 "decimal n @ r"] by (simp add: scan_digits_decimal scan_ends)

lemma decimal_not_minus: "decimal n @ r = c # s \<Longrightarrow> c \<noteq> CHR ''-''"
  using decimal_hd [of n r] by (auto simp: is_digit_def)

lemma exact_to_long_long: "exact_number x \<Longrightarrow> of_int (to_long_long x) = x \<and> \<bar>to_long_long x\<bar> \<le> 2 ^ 53"
proof -
  assume x: "exact_number x"
  then obtain n :: int where n: "x = of_int n" by (auto simp: exact_number_def)
  then have "real_of_int \<bar>n\<bar> \<le> real_of_int (2 ^ 53)" using x by (simp add: exact_number_def)
  then have b: "\<bar>n\<bar> \<le> 2 ^ 53" by (simp only: of_int_le_iff)
  then have "- (2 ^ 63) \<le> n" "n < 2 ^ 63" by auto
  then have "to_long_long x = n" using n by (simp add: to_long_long_def)
  then show ?thesis using n b by simp
qed

lemma number_written:
  assumes "exact_number x" "number_ends r" "jp_rest p = json_write (JSON_NUMBER x) i @ r"
  shows "json_parse_number p = Some (JSON_NUMBER x, p\<lparr>jp_rest := r\<rparr>)"
proof -
  define n where "n = to_long_long x"
  have x: "x = of_int n" using exact_to_long_long [OF assms(1)] by (simp add: n_def)
  then have "json_write (JSON_NUMBER x) i = printf_lld n" by (simp add: n_def)
  then have w: "jp_rest p = printf_lld n @ r" using assms(3) by simp
  have nd: "(case r of c # s' \<Rightarrow> if c = CHR ''.'' then (let (fr, dv, s) = json_fraction 0 1 s' in (y + fr / dv, s)) else (y, r)
      | [] \<Rightarrow> (y, r)) = (y, r)" for y :: real
    using assms(2) by (cases r) (auto simp: number_ends_def)
  show ?thesis
  proof (cases "n < 0")
    case True
    then have r: "jp_rest p = CHR ''-'' # decimal (nat (- n)) @ r"
      using w by (simp add: printf_lld_def)
    have "is_digit (hd (decimal (nat (- n)) @ r))" by (rule decimal_hd)
    then show ?thesis
      using True by (simp add: json_parse_number_def r digits_written [OF assms(2)] x nd del: hd_append)
  next
    case False
    then have r: "jp_rest p = decimal (nat n) @ r" using w by (simp add: printf_lld_def)
    obtain c s where cs: "decimal (nat n) @ r = c # s" by (cases "decimal (nat n) @ r") simp_all
    have "is_digit c" using decimal_hd [of "nat n" r] cs by simp
    moreover have "json_digits 0 (c # s) = (of_int n, r)" using digits_written [OF assms(2), of "nat n"] cs False by simp
    ultimately show ?thesis
      using decimal_not_minus [OF cs] by (simp add: json_parse_number_def r cs x nd del: json_digits.simps)
  qed
qed

section \<open>The round trip\<close>

lemma value_at:
  assumes "jp_rest p = ws @ c # s" "list_all is_space ws" "\<not> is_space c"
  shows "json_parse_value p =
    (let p = p\<lparr>jp_rest := c # s\<rparr>
     in if c = CHR 0x7B then json_parse_object p
        else if c = CHR 0x5B then json_parse_array p
        else if c = CHR 0x22 then json_parse_string p
        else if c = CHR ''-'' \<or> is_digit c then json_parse_number p
        else if c = CHR ''t'' then json_parse_keyword p ''true'' (JSON_BOOL True)
        else if c = CHR ''f'' then json_parse_keyword p ''false'' (JSON_BOOL False)
        else if c = CHR ''n'' then json_parse_keyword p ''null'' JSON_NULL
        else None)"
proof -
  have "dropWhile is_space (ws @ c # s) = c # s"
    using assms(2,3) by (induction ws) simp_all
  then show ?thesis
    using assms(1) by (subst json_parse_value.simps) (simp add: json_parse_whitespace_def)
qed

lemma spaces [simp]: "list_all is_space (json_write_indent n)" "is_space (CHR 0x0A)" "is_space (CHR '' '')"
  by (simp_all add: json_write_indent_def is_space_def list_all_iff)

lemma not_spaces [simp]:
  "\<not> is_space (CHR 0x22)" "\<not> is_space (CHR 0x7B)" "\<not> is_space (CHR 0x7D)" "\<not> is_space (CHR 0x5B)"
  "\<not> is_space (CHR 0x5D)" "\<not> is_space (CHR 0x2C)" "\<not> is_space (CHR 0x3A)" "\<not> is_space (CHR ''-'')"
  "\<not> is_space (CHR ''t'')" "\<not> is_space (CHR ''f'')" "\<not> is_space (CHR ''n'')"
  by (simp_all add: is_space_def)

lemma value_string_written:
  assumes "json_text_ok s" "jp_rest p = ws @ json_write_string s @ r" "list_all is_space ws"
  shows "json_parse_value p = Some (JSON_STRING s, p\<lparr>jp_rest := r\<rparr>)"
proof -
  let ?s = "concat (map json_escape s) @ CHR 0x22 # r"
  have p: "jp_rest p = ws @ CHR 0x22 # ?s" using assms(2) by (simp add: json_write_string_def)
  have "json_parse_string_raw (p\<lparr>jp_rest := CHR 0x22 # ?s\<rparr>) JSON_MAX_STRING = Some (s, p\<lparr>jp_rest := r\<rparr>)"
    using string_raw_written [of "p\<lparr>jp_rest := CHR 0x22 # ?s\<rparr>" "[]" s r] assms(1)
    by (simp add: json_write_string_def json_text_ok_def)
  then show ?thesis by (simp add: value_at [OF p assms(3)] is_digit_def json_parse_string_def)
qed

lemma value_number_written:
  assumes "exact_number x" "number_ends r" "jp_rest p = ws @ json_write (JSON_NUMBER x) i @ r" "list_all is_space ws"
  shows "json_parse_value p = Some (JSON_NUMBER x, p\<lparr>jp_rest := r\<rparr>)"
proof -
  obtain c s where cs: "json_write (JSON_NUMBER x) i @ r = c # s" "c = CHR ''-'' \<or> is_digit c"
  proof -
    have "json_write (JSON_NUMBER x) i = printf_lld (to_long_long x)" using exact_to_long_long [OF assms(1)] by simp
    moreover have "\<exists>c s. printf_lld n @ r = c # s \<and> (c = CHR ''-'' \<or> is_digit c)" for n
    proof (cases "n < 0")
      case False
      obtain c s where "decimal (nat n) @ r = c # s" by (cases "decimal (nat n) @ r") simp_all
      then show ?thesis using False decimal_hd [of "nat n" r] by (auto simp: printf_lld_def)
    qed (simp add: printf_lld_def)
    ultimately show ?thesis using that by auto
  qed
  then have p: "jp_rest p = ws @ c # s" using assms(3) by simp
  have n: "\<not> is_space c" using cs(2) digit_not_space by auto
  have "json_parse_number (p\<lparr>jp_rest := c # s\<rparr>) = Some (JSON_NUMBER x, p\<lparr>jp_rest := r\<rparr>)"
    using number_written [OF assms(1,2), of "p\<lparr>jp_rest := c # s\<rparr>" i] cs(1) by simp
  moreover have "c \<noteq> CHR 0x7B" "c \<noteq> CHR 0x5B" "c \<noteq> CHR 0x22" using cs(2) by (auto simp: is_digit_def)
  ultimately show ?thesis using cs(2) by (simp add: value_at [OF p assms(4) n])
qed

lemma value_keyword_written:
  assumes "jp_rest p = ws @ json_write v i @ r" "list_all is_space ws" "v = JSON_BOOL b \<or> v = JSON_NULL"
  shows "json_parse_value p = Some (v, p\<lparr>jp_rest := r\<rparr>)"
proof -
  consider "v = JSON_BOOL True" | "v = JSON_BOOL False" | "v = JSON_NULL" using assms(3) by (cases b) auto
  then show ?thesis
  proof cases
    case 1
    then have "jp_rest p = ws @ CHR ''t'' # ''rue'' @ r" using assms(1) by simp
    from value_at [OF this assms(2)] show ?thesis by (simp add: is_digit_def json_parse_keyword_def 1)
  next
    case 2
    then have "jp_rest p = ws @ CHR ''f'' # ''alse'' @ r" using assms(1) by simp
    from value_at [OF this assms(2)] show ?thesis by (simp add: is_digit_def json_parse_keyword_def 2)
  next
    case 3
    then have "jp_rest p = ws @ CHR ''n'' # ''ull'' @ r" using assms(1) by simp
    from value_at [OF this assms(2)] show ?thesis by (simp add: is_digit_def json_parse_keyword_def 3)
  qed
qed

text \<open>One turn of the loops.\<close>

lemma members_turn:
  assumes "jp_rest p = ws @ json_write_string key @ '': '' @ t" "list_all is_space ws" "json_text_ok key"
    and "json_parse_value (p\<lparr>jp_rest := '' '' @ t\<rparr>) = Some (val, p\<lparr>jp_rest := u\<rparr>)"
  shows "u = ws' @ CHR 0x7D # r \<Longrightarrow> list_all is_space ws' \<Longrightarrow>
      json_members ms p = Some (ms @ [(key, val)], p\<lparr>jp_rest := r\<rparr>)"
    and "u = CHR 0x2C # r \<Longrightarrow> json_members ms p = json_members (ms @ [(key, val)]) (p\<lparr>jp_rest := r\<rparr>)"
proof -
  have key: "json_parse_string_raw p JSON_MAX_STRING = Some (key, p\<lparr>jp_rest := '': '' @ t\<rparr>)"
    using string_raw_written [of p ws key "'': '' @ t"] assms(1-3) by (simp add: json_text_ok_def)
  have colon: "json_parse_char (p\<lparr>jp_rest := '': '' @ t\<rparr>) (CHR 0x3A) = (True, p\<lparr>jp_rest := '' '' @ t\<rparr>)"
    using parse_char_at [of "p\<lparr>jp_rest := '': '' @ t\<rparr>" "[]" "CHR 0x3A" "'' '' @ t"] by simp
  show "json_members ms p = Some (ms @ [(key, val)], p\<lparr>jp_rest := r\<rparr>)"
    if "u = ws' @ CHR 0x7D # r" "list_all is_space ws'"
    using parse_char_at [of "p\<lparr>jp_rest := u\<rparr>" ws' "CHR 0x7D" r "CHR 0x7D"] that
    by (subst json_members.simps) (simp add: key colon assms(4) del: append_Cons append.simps)
  show "json_members ms p = json_members (ms @ [(key, val)]) (p\<lparr>jp_rest := r\<rparr>)" if "u = CHR 0x2C # r"
    using parse_char_at [of "p\<lparr>jp_rest := u\<rparr>" "[]" "CHR 0x2C" r] that
    by (subst json_members.simps) (simp add: key colon assms(4) del: append_Cons append.simps)
qed

lemma items_turn:
  assumes "json_parse_value p = Some (val, p\<lparr>jp_rest := u\<rparr>)" "length vs < JSON_MAX_ARRAY"
  shows "u = ws' @ CHR 0x5D # r \<Longrightarrow> list_all is_space ws' \<Longrightarrow>
      json_items vs p = Some (vs @ [val], p\<lparr>jp_rest := r\<rparr>)"
    and "u = CHR 0x2C # r \<Longrightarrow> json_items vs p = json_items (vs @ [val]) (p\<lparr>jp_rest := r\<rparr>)"
proof -
  show "json_items vs p = Some (vs @ [val], p\<lparr>jp_rest := r\<rparr>)"
    if "u = ws' @ CHR 0x5D # r" "list_all is_space ws'"
    using parse_char_at [of "p\<lparr>jp_rest := u\<rparr>" ws' "CHR 0x5D" r "CHR 0x5D"] that assms(2)
    by (subst json_items.simps) (simp add: assms(1))
  show "json_items vs p = json_items (vs @ [val]) (p\<lparr>jp_rest := r\<rparr>)" if "u = CHR 0x2C # r"
    using parse_char_at [of "p\<lparr>jp_rest := u\<rparr>" "[]" "CHR 0x2C" r] that assms(2)
    by (subst json_items.simps) (simp add: assms(1))
qed

text \<open>Objects and arrays around their loops.\<close>

lemma container_opens:
  assumes "jp_rest p = ws @ x # t" "list_all is_space ws" "\<not> is_space x"
    and "t = ws' @ y # u" "list_all is_space ws'" "\<not> is_space y"
  shows "json_parse_char p x = (True, p\<lparr>jp_rest := t\<rparr>)"
    and "json_parse_char (p\<lparr>jp_rest := t, jp_depth := k\<rparr>) c = (y = c, p\<lparr>jp_rest := if y = c then u else y # u, jp_depth := k\<rparr>)"
  using parse_char_at [of p ws x t x] parse_char_at [of "p\<lparr>jp_rest := t, jp_depth := k\<rparr>" ws' y u c] assms
  by simp_all

lemma members_start:
  assumes "ms \<noteq> []"
  shows "\<exists>ws u. json_write_members ms i @ r = ws @ CHR 0x22 # u \<and> list_all is_space ws"
proof -
  obtain k v ms' where ms: "ms = (k, v) # ms'" using assms by (cases ms) auto
  show ?thesis
    by (rule exI [of _ "json_write_indent (i + 2)"], rule exI) (simp add: ms json_write_string_def)
qed

lemma value_start:
  "exact_numbers v \<Longrightarrow> \<exists>c u. json_write v i = c # u \<and> \<not> is_space c \<and> c \<noteq> CHR 0x5D"
proof (cases v)
  case (JSON_NUMBER x)
  assume "exact_numbers v"
  then have "json_write v i = printf_lld (to_long_long x)" using JSON_NUMBER exact_to_long_long by simp
  moreover have "\<exists>c u. printf_lld n = c # u \<and> \<not> is_space c \<and> c \<noteq> CHR 0x5D" for n
  proof (cases "n < 0")
    case False
    obtain c u where "decimal (nat n) = c # u" by (cases "decimal (nat n)") simp_all
    then show ?thesis using False decimal_hd [of "nat n" "[]"] digit_not_space
      by (auto simp: printf_lld_def is_digit_def)
  qed (simp add: printf_lld_def)
  ultimately show ?thesis by simp
qed (auto simp: json_write_string_def)

lemma items_start:
  "exact_items vs \<Longrightarrow> vs \<noteq> [] \<Longrightarrow>
    \<exists>ws c u. json_write_items vs i @ r = ws @ c # u \<and> list_all is_space ws \<and> \<not> is_space c \<and> c \<noteq> CHR 0x5D"
proof (cases vs)
  case (Cons v vs')
  assume "exact_items vs"
  then obtain c u where "json_write v (i + 2) = c # u" "\<not> is_space c" "c \<noteq> CHR 0x5D"
    using Cons value_start [of v "i + 2"] by auto
  then show ?thesis using Cons by (intro exI [of _ "json_write_indent (i + 2)"]) simp
qed simp

lemma number_ends_simps [simp]: "number_ends []" "number_ends (CHR 0x2C # s)" "number_ends (CHR 0x0A # s)"
  by (simp_all add: number_ends_def is_digit_def)

text \<open>Leading white space does not matter.\<close>

definition reads :: "json_parser \<Rightarrow> string \<Rightarrow> bool" where
  "reads p t \<longleftrightarrow> dropWhile is_space (jp_rest p) = dropWhile is_space t"

lemma reads_spaces [simp]: "list_all is_space ws \<Longrightarrow> reads p (ws @ t) = reads p t"
proof -
  assume "list_all is_space ws"
  then have "dropWhile is_space (ws @ t) = dropWhile is_space t" by (induction ws) simp_all
  then show ?thesis by (simp add: reads_def)
qed

lemma reads_Cons_space [simp]: "is_space c \<Longrightarrow> reads p (c # t) = reads p t"
  by (simp add: reads_def)

lemma reads_own [simp]: "reads p (jp_rest p)"
  by (simp add: reads_def)

lemma readsE:
  assumes "reads p (c # s)" "\<not> is_space c"
  obtains ws where "jp_rest p = ws @ c # s" "list_all is_space ws"
proof -
  have "list_all is_space (takeWhile is_space (jp_rest p))" by (auto simp: list_all_iff dest: set_takeWhileD)
  moreover have "dropWhile is_space (jp_rest p) = c # s" using assms by (simp add: reads_def)
  ultimately show ?thesis using that takeWhile_dropWhile_id by metis
qed

lemma reads_value:
  assumes "exact_numbers v" "reads p (json_write v i @ r)"
  obtains ws where "jp_rest p = ws @ json_write v i @ r" "list_all is_space ws"
proof -
  obtain c u where c: "json_write v i = c # u" "\<not> is_space c" using value_start [OF assms(1)] by blast
  then have "reads p (c # u @ r)" using assms(2) by simp
  then show ?thesis using that c by (elim readsE) simp_all
qed

lemma written_parses:
  "json_ok d v \<Longrightarrow> exact_numbers v \<Longrightarrow> jp_depth p = JSON_MAX_DEPTH - int d \<Longrightarrow> number_ends r \<Longrightarrow>
    reads p (json_write v i @ r) \<Longrightarrow> json_parse_value p = Some (v, p\<lparr>jp_rest := r\<rparr>)"
  "json_members_ok d ms \<Longrightarrow> exact_members ms \<Longrightarrow> jp_depth p = JSON_MAX_DEPTH - int d \<Longrightarrow> ms \<noteq> [] \<Longrightarrow>
    reads p (json_write_members ms i @ ws' @ CHR 0x7D # r) \<Longrightarrow> list_all is_space ws' \<Longrightarrow>
    json_members ms0 p = Some (ms0 @ ms, p\<lparr>jp_rest := r\<rparr>)"
  "json_items_ok d vs \<Longrightarrow> exact_items vs \<Longrightarrow> jp_depth p = JSON_MAX_DEPTH - int d \<Longrightarrow> vs \<noteq> [] \<Longrightarrow>
    length vs0 + length vs \<le> JSON_MAX_ARRAY \<Longrightarrow>
    reads p (json_write_items vs i @ ws' @ CHR 0x5D # r) \<Longrightarrow> list_all is_space ws' \<Longrightarrow>
    json_items vs0 p = Some (vs0 @ vs, p\<lparr>jp_rest := r\<rparr>)"
proof (induction v i and ms i and vs i arbitrary: d p r and d p r ws' ms0 and d p r ws' vs0
    rule: json_write_json_write_members_json_write_items.induct)
  case (1 s i)
  obtain ws where "jp_rest p = ws @ json_write (JSON_STRING s) i @ r" "list_all is_space ws"
    by (rule reads_value [OF 1(2,5)])
  then show ?case using 1(1) value_string_written [of s p ws r] by simp
next
  case (2 x i)
  obtain ws where "jp_rest p = ws @ json_write (JSON_NUMBER x) i @ r" "list_all is_space ws"
    by (rule reads_value [OF 2(2,5)])
  then show ?case using 2(2,4) value_number_written [of x r p ws i] by simp
next
  case (3 b i)
  obtain ws where "jp_rest p = ws @ json_write (JSON_BOOL b) i @ r" "list_all is_space ws"
    by (rule reads_value [OF 3(2,5)])
  then show ?case by (rule value_keyword_written) simp
next
  case (4 i)
  obtain ws where "jp_rest p = ws @ json_write JSON_NULL i @ r" "list_all is_space ws"
    by (rule reads_value [OF 4(2,5)])
  then show ?case by (rule value_keyword_written) simp
next
  case (5 ms i)
  let ?t = "CHR 0x0A # json_write_members ms i @ json_write_indent i @ CHR 0x7D # r"
  let ?q = "p\<lparr>jp_rest := CHR 0x7B # ?t\<rparr>"
  have d: "jp_depth p + 1 \<le> JSON_MAX_DEPTH" "jp_depth p + 1 = JSON_MAX_DEPTH - int (d - 1)" using 5(2,4) by auto
  obtain ws where p: "jp_rest p = ws @ CHR 0x7B # ?t" "list_all is_space ws"
    by (rule reads_value [OF 5(3,6)]) simp
  have v: "json_parse_value p = json_parse_object ?q" using value_at [OF p] by simp
  have q: "jp_rest ?q = [] @ CHR 0x7B # ?t" by simp
  show ?case
  proof (cases "ms = []")
    case True
    have t: "?t = (CHR 0x0A # json_write_indent i) @ CHR 0x7D # r" by (simp add: True)
    note o = container_opens(1) [OF q _ _ t] container_opens(2) [OF q _ _ t, where k = "jp_depth p + 1"]
    show ?thesis
      unfolding v by (subst json_parse_object.simps) (use o d True in simp)
  next
    case False
    obtain us u where u: "?t = (CHR 0x0A # us) @ CHR 0x22 # u" "list_all is_space us"
      using members_start [OF False, of i "json_write_indent i @ CHR 0x7D # r"] by auto
    note o = container_opens(1) [OF q _ _ u(1)] container_opens(2) [OF q _ _ u(1), where k = "jp_depth p + 1"]
    let ?p = "p\<lparr>jp_rest := CHR 0x22 # u, jp_depth := jp_depth p + 1\<rparr>"
    have "reads ?p ?t" unfolding u(1) using u(2) by (subst reads_spaces) (simp_all add: reads_def)
    then have "reads ?p (json_write_members ms i @ json_write_indent i @ CHR 0x7D # r)" by simp
    then have "json_members [] ?p = Some ([] @ ms, ?p\<lparr>jp_rest := r\<rparr>)"
      using 5(2,3) d False by (intro 5(1) [where d = "d - 1" and ws' = "json_write_indent i"]) simp_all
    then show ?thesis
      unfolding v by (subst json_parse_object.simps) (use o u d in simp)
  qed
next
  case (6 vs i)
  have d: "jp_depth p + 1 \<le> JSON_MAX_DEPTH" "jp_depth p + 1 = JSON_MAX_DEPTH - int (d - 1)" using 6(2,4) by auto
  show ?case
  proof (cases "vs = []")
    case True
    obtain ws where p: "jp_rest p = ws @ CHR 0x5B # CHR 0x5D # r" "list_all is_space ws"
      by (rule reads_value [OF 6(3,6)]) (simp add: True)
    have v: "json_parse_value p = json_parse_array (p\<lparr>jp_rest := CHR 0x5B # CHR 0x5D # r\<rparr>)"
      using value_at [OF p] by simp
    note o = container_opens [of "p\<lparr>jp_rest := CHR 0x5B # CHR 0x5D # r\<rparr>" "[]" "CHR 0x5B" "CHR 0x5D # r" "[]" "CHR 0x5D" r]
    show ?thesis
      unfolding v by (subst json_parse_array.simps) (use o d True in simp)
  next
    case False
    let ?t = "CHR 0x0A # json_write_items vs i @ json_write_indent i @ CHR 0x5D # r"
    let ?q = "p\<lparr>jp_rest := CHR 0x5B # ?t\<rparr>"
    obtain ws where p: "jp_rest p = ws @ CHR 0x5B # ?t" "list_all is_space ws"
      by (rule reads_value [OF 6(3,6)]) (simp add: False)
    have v: "json_parse_value p = json_parse_array ?q" using value_at [OF p] by simp
    have q: "jp_rest ?q = [] @ CHR 0x5B # ?t" by simp
    obtain us c u where u: "?t = (CHR 0x0A # us) @ c # u" "list_all is_space us" "\<not> is_space c" "c \<noteq> CHR 0x5D"
      using items_start [OF _ False, of i "json_write_indent i @ CHR 0x5D # r"] 6(3) by auto
    note o = container_opens(1) [OF q _ _ u(1)] container_opens(2) [OF q _ _ u(1), where k = "jp_depth p + 1"]
    let ?p = "p\<lparr>jp_rest := c # u, jp_depth := jp_depth p + 1\<rparr>"
    have "reads ?p ?t" unfolding u(1) using u(2) by (subst reads_spaces) (simp_all add: reads_def)
    then have "reads ?p (json_write_items vs i @ json_write_indent i @ CHR 0x5D # r)" by simp
    then have "json_items [] ?p = Some ([] @ vs, ?p\<lparr>jp_rest := r\<rparr>)"
      using 6(2,3) d False by (intro 6(1) [where d = "d - 1" and ws' = "json_write_indent i"]) simp_all
    then show ?thesis
      unfolding v by (subst json_parse_array.simps) (use o u d in simp)
  qed
next
  case (7 i)
  then show ?case by simp
next
  case (8 key val ms i)
  let ?rest = "ws' @ CHR 0x7D # r"
  let ?u = "(if ms \<noteq> [] then '','' else []) @ CHR 0x0A # json_write_members ms i @ ?rest"
  let ?t = "json_write val (i + 2) @ ?u"
  have "reads p (CHR 0x22 # concat (map json_escape key) @ CHR 0x22 # '': '' @ ?t)"
    using 8(7) by (simp add: json_write_string_def)
  then obtain ws where ws: "jp_rest p = ws @ json_write_string key @ '': '' @ ?t" "list_all is_space ws"
    by (elim readsE) (simp_all add: json_write_string_def)
  have key: "json_text_ok key" using 8(3) by simp
  have "json_parse_value (p\<lparr>jp_rest := '' '' @ ?t\<rparr>) = Some (val, p\<lparr>jp_rest := '' '' @ ?t\<rparr>\<lparr>jp_rest := ?u\<rparr>)"
    using 8(3-5) by (intro 8(1) [where d = d]) (simp_all add: reads_def)
  then have v: "json_parse_value (p\<lparr>jp_rest := '' '' @ ?t\<rparr>) = Some (val, p\<lparr>jp_rest := ?u\<rparr>)" by simp
  note turn = members_turn [OF ws key v]
  show ?case
  proof (cases "ms = []")
    case True
    then show ?thesis using turn(1) [of "CHR 0x0A # ws'" r] 8(8) by simp
  next
    case False
    have "json_members (ms0 @ [(key, val)]) (p\<lparr>jp_rest := CHR 0x0A # json_write_members ms i @ ?rest\<rparr>) =
        Some ((ms0 @ [(key, val)]) @ ms, p\<lparr>jp_rest := CHR 0x0A # json_write_members ms i @ ?rest\<rparr>\<lparr>jp_rest := r\<rparr>)"
      using 8(3-5,8) False by (intro 8(2) [where d = d and ws' = ws']) (simp_all add: reads_def)
    then show ?thesis using turn(2) [of "CHR 0x0A # json_write_members ms i @ ?rest"] False by simp
  qed
next
  case (9 i)
  then show ?case by simp
next
  case (10 val vs i)
  let ?rest = "ws' @ CHR 0x5D # r"
  let ?u = "(if vs \<noteq> [] then '','' else []) @ CHR 0x0A # json_write_items vs i @ ?rest"
  have v: "json_parse_value p = Some (val, p\<lparr>jp_rest := ?u\<rparr>)"
    using 10(3-5,8) by (intro 10(1) [where d = d]) simp_all
  have room: "length vs0 < JSON_MAX_ARRAY" using 10(7) by simp
  note turn = items_turn [OF v room]
  show ?case
  proof (cases "vs = []")
    case True
    then show ?thesis using turn(1) [of "CHR 0x0A # ws'" r] 10(9) by simp
  next
    case False
    have "json_items (vs0 @ [val]) (p\<lparr>jp_rest := CHR 0x0A # json_write_items vs i @ ?rest\<rparr>) =
        Some ((vs0 @ [val]) @ vs, p\<lparr>jp_rest := CHR 0x0A # json_write_items vs i @ ?rest\<rparr>\<lparr>jp_rest := r\<rparr>)"
      using 10(3-5,7,9) False by (intro 10(2) [where d = d and ws' = ws']) (simp_all add: reads_def)
    then show ?thesis using turn(2) [of "CHR 0x0A # json_write_items vs i @ ?rest"] False by simp
  qed
qed

lemma decimal_no_zero: "CHR 0x00 \<notin> set (decimal n)"
proof (induction n rule: decimal.induct)
  case (1 n)
  have "CHR 0x00 \<noteq> digit_char d" if "d < 10" for d
  proof
    assume z: "CHR 0x00 = digit_char d"
    have "of_char (digit_char d) = (0 :: nat)" unfolding z [symmetric] by simp
    then show False using of_char_digit [OF that] by simp
  qed
  then show ?case using 1 by (subst decimal.simps) auto
qed

lemma string_no_zero: "CHR 0x00 \<notin> set s \<Longrightarrow> CHR 0x00 \<notin> set (json_write_string s)"
  by (auto simp: json_write_string_def json_escape_def split: if_split_asm)

lemma write_no_zero:
  "json_ok d v \<Longrightarrow> exact_numbers v \<Longrightarrow> CHR 0x00 \<notin> set (json_write v i)"
  "json_members_ok d ms \<Longrightarrow> exact_members ms \<Longrightarrow> CHR 0x00 \<notin> set (json_write_members ms i)"
  "json_items_ok d vs \<Longrightarrow> exact_items vs \<Longrightarrow> CHR 0x00 \<notin> set (json_write_items vs i)"
proof (induction v i and ms i and vs i arbitrary: d and d and d
    rule: json_write_json_write_members_json_write_items.induct)
  case (1 s i)
  then show ?case using string_no_zero by (simp add: json_text_ok_def)
next
  case (2 x i)
  then show ?case using exact_to_long_long decimal_no_zero by (simp add: printf_lld_def)
next
  case (8 key val ms i)
  then show ?case using string_no_zero by (auto simp: json_text_ok_def json_write_indent_def)
qed (auto simp: json_write_indent_def)

text \<open>C13. What the writer puts into a file the parser reads back unchanged, whatever white space follows, for
  every tree within the limits (32 levels, 256 items in an array, texts of 2047 characters) whose
  numbers are integers up to 2 to the 53.\<close>

theorem json_roundtrip:
  assumes "json_ok 32 v" "exact_numbers v" "list_all is_space ws"
  shows "json_parse (json_write v 0 @ ws) = Some v"
proof -
  have "CHR 0x00 \<notin> set (json_write v 0)" using write_no_zero(1) assms(1,2) .
  moreover have "CHR 0x00 \<notin> set ws" using assms(3) by (auto simp: list_all_iff is_space_def)
  ultimately have clean: "takeWhile (\<lambda>c. c \<noteq> CHR 0x00) (json_write v 0 @ ws) = json_write v 0 @ ws"
    by (auto simp: takeWhile_eq_all_conv)
  let ?p = "\<lparr>jp_rest = json_write v 0 @ ws, jp_depth = 0\<rparr>"
  have "number_ends ws"
    using assms(3) by (cases ws) (auto simp: number_ends_def is_space_def is_digit_def)
  then have "json_parse_value ?p = Some (v, ?p\<lparr>jp_rest := ws\<rparr>)"
    using assms by (intro written_parses(1) [where d = 32 and i = 0]) (simp_all add: reads_def)
  moreover have "dropWhile is_space ws = []" using assms(3) by (simp add: list_all_iff)
  ultimately show ?thesis by (simp add: json_parse_def clean json_parse_whitespace_def)
qed

theorem json_roundtrip_witness:
  "json_parse (json_write (JSON_OBJECT [(''links'', JSON_ARRAY [JSON_NUMBER (- 12), JSON_STRING [CHR 0x22], JSON_NULL, JSON_OBJECT []])]) 0 @ [CHR 0x0A]) =
    Some (JSON_OBJECT [(''links'', JSON_ARRAY [JSON_NUMBER (- 12), JSON_STRING [CHR 0x22], JSON_NULL, JSON_OBJECT []])])"
  by (rule json_roundtrip) (simp_all add: json_text_ok_def exact_number_def is_space_def)

end
