(* ===== verification/Json_Limits.thy ===== *)
theory Json_Limits
  imports Json_Roundtrip
begin

text \<open>
  Whatever the input, a tree that the parser returns is within its limits; and the numbers that
  the writer prints and the parser does not read.
\<close>

section \<open>The type of the parser's results\<close>

text \<open>What a successful call guarantees: the value is as stated, the depth is restored, and no new character appears.\<close>

definition yields :: "('a \<Rightarrow> bool) \<Rightarrow> json_parser \<Rightarrow> ('a \<times> json_parser) option \<Rightarrow> bool" where
  "yields ok p r \<longleftrightarrow> (\<forall>v p'. r = Some (v, p') \<longrightarrow> ok v \<and> jp_depth p' = jp_depth p \<and> set (jp_rest p') \<subseteq> set (jp_rest p))"

lemma yieldsI:
  "(\<And>v p'. r = Some (v, p') \<Longrightarrow> ok v \<and> jp_depth p' = jp_depth p \<and> set (jp_rest p') \<subseteq> set (jp_rest p)) \<Longrightarrow> yields ok p r"
  by (simp add: yields_def)

lemma yieldsD:
  "yields ok p r \<Longrightarrow> r = Some (v, p') \<Longrightarrow> ok v \<and> jp_depth p' = jp_depth p \<and> set (jp_rest p') \<subseteq> set (jp_rest p)"
  by (simp add: yields_def)

lemma yields_None [simp]: "yields ok p None"
  by (simp add: yields_def)

lemma parse_char_subset: "json_parse_char p c = (b, p') \<Longrightarrow> jp_depth p' = jp_depth p \<and> set (jp_rest p') \<subseteq> set (jp_rest p)"
proof -
  assume c: "json_parse_char p c = (b, p')"
  have "set (dropWhile is_space (jp_rest p)) \<subseteq> set (jp_rest p)" by (auto dest: set_dropWhileD)
  then show ?thesis
    using c by (cases "dropWhile is_space (jp_rest p)")
      (auto simp: json_parse_char_def json_parse_whitespace_def Let_def split: if_splits)
qed

lemma string_loop_ok_aux:
  "i < m \<Longrightarrow> pred_option (\<lambda>(out, rest). i + length out < m \<and> set rest \<subseteq> set s \<and>
    (CHR 0x00 \<notin> set s \<longrightarrow> CHR 0x00 \<notin> set out)) (json_string_loop m i s)"
proof (induction m i s rule: json_string_loop.induct)
  case (2 m i c s)
  show ?case
  proof (cases "c = CHR 0x22 \<or> m \<le> i + 1")
    case stay: False
    show ?thesis
    proof (cases "c = CHR 0x5C")
      case True
      show ?thesis
      proof (cases s)
        case (Cons d s')
        have "CHR 0x00 \<noteq> d \<Longrightarrow> CHR 0x00 \<noteq> json_unescape d" by (simp add: json_unescape_def)
        then show ?thesis
          using 2(1) [OF stay True Cons] stay True Cons by (cases "json_string_loop m (i + 1) s'") auto
      qed (use stay True in simp)
    next
      case False
      then show ?thesis
        using 2(2) [OF stay False] stay by (cases "json_string_loop m (i + 1) s") auto
    qed
  qed (use 2(3) in auto)
qed simp

lemma string_loop_ok:
  "json_string_loop m i s = Some (out, rest) \<Longrightarrow> i < m \<Longrightarrow>
    i + length out < m \<and> set rest \<subseteq> set s \<and> (CHR 0x00 \<notin> set s \<longrightarrow> CHR 0x00 \<notin> set out)"
  using string_loop_ok_aux [of i m s] by simp

lemma string_raw_ok:
  assumes "json_parse_string_raw p JSON_MAX_STRING = Some (out, p')" "CHR 0x00 \<notin> set (jp_rest p)"
  shows "json_text_ok out \<and> jp_depth p' = jp_depth p \<and> set (jp_rest p') \<subseteq> set (jp_rest p)"
proof -
  obtain ok p1 where 1: "json_parse_char p (CHR 0x22) = (ok, p1)" by fastforce
  obtain out1 rest where 2: "json_string_loop JSON_MAX_STRING 0 (jp_rest p1) = Some (out1, rest)"
    using assms 1 by (cases "json_string_loop JSON_MAX_STRING 0 (jp_rest p1)") (auto simp: json_parse_string_raw_def split: if_splits)
  obtain ok' p2 where 3: "json_parse_char (p1\<lparr>jp_rest := rest\<rparr>) (CHR 0x22) = (ok', p2)" by fastforce
  have "ok \<and> p' = p2 \<and> out = out1" using assms 1 2 3 by (auto simp: json_parse_string_raw_def split: if_splits)
  then show ?thesis
    using parse_char_subset [OF 1] parse_char_subset [OF 3] string_loop_ok [OF 2] assms(2) by (auto simp: json_text_ok_def)
qed

lemma digits_subset: "set (snd (json_digits num s)) \<subseteq> set s"
  by (induction num s rule: json_digits.induct) auto

lemma fraction_subset: "set (snd (snd (json_fraction fr dv s))) \<subseteq> set s"
  by (induction fr dv s rule: json_fraction.induct) auto

lemma number_yields: "yields (json_ok d) p (json_parse_number p)"
proof (rule yieldsI)
  fix v p' assume v: "json_parse_number p = Some (v, p')"
  define s where "s = (case jp_rest p of c # s \<Rightarrow> if c = CHR ''-'' then s else c # s | [] \<Rightarrow> [])"
  have s: "set s \<subseteq> set (jp_rest p)" by (cases "jp_rest p") (auto simp: s_def)
  obtain num t where d: "json_digits 0 s = (num, t)" by fastforce
  have r: "jp_depth p' = jp_depth p" "\<exists>x. v = JSON_NUMBER x"
    and t: "jp_rest p' = t \<or> (\<exists>c t'. t = c # t' \<and> jp_rest p' = snd (snd (json_fraction 0 1 t')))"
    using v d by (auto simp: json_parse_number_def s_def Let_def case_prod_unfold split: list.splits if_splits)
  have "set (jp_rest p') \<subseteq> set t"
    using t fraction_subset by fastforce
  moreover have "set t \<subseteq> set s" using digits_subset [of 0 s] d by simp
  ultimately show "json_ok d v \<and> jp_depth p' = jp_depth p \<and> set (jp_rest p') \<subseteq> set (jp_rest p)"
    using r s by auto
qed

lemma keyword_yields: "json_ok d v \<Longrightarrow> yields (json_ok d) p (json_parse_keyword p kw v)"
  by (auto simp: json_parse_keyword_def yields_def split: if_splits dest: in_set_dropD)

lemma string_yields: "CHR 0x00 \<notin> set (jp_rest p) \<Longrightarrow> yields (json_ok d) p (json_parse_string p)"
proof (rule yieldsI)
  fix v p' assume "CHR 0x00 \<notin> set (jp_rest p)" "json_parse_string p = Some (v, p')"
  moreover from this obtain s where "v = JSON_STRING s" "json_parse_string_raw p JSON_MAX_STRING = Some (s, p')"
    by (auto simp: json_parse_string_def bind_eq_Some_conv)
  ultimately show "json_ok d v \<and> jp_depth p' = jp_depth p \<and> set (jp_rest p') \<subseteq> set (jp_rest p)"
    using string_raw_ok by simp
qed

text \<open>How deep a value may be where the parser stands.\<close>

abbreviation room :: "json_parser \<Rightarrow> nat" where
  "room p \<equiv> nat (JSON_MAX_DEPTH - jp_depth p)"

lemma parser_yields:
  "CHR 0x00 \<notin> set (jp_rest p) \<Longrightarrow> yields (json_ok (room p)) p (json_parse_value p)"
  "CHR 0x00 \<notin> set (jp_rest p) \<Longrightarrow> yields (json_ok (room p)) p (json_parse_object p)"
  "CHR 0x00 \<notin> set (jp_rest p) \<Longrightarrow> yields (json_ok (room p)) p (json_parse_array p)"
  "CHR 0x00 \<notin> set (jp_rest p) \<Longrightarrow> json_members_ok (room p) ms \<Longrightarrow>
    yields (json_members_ok (room p)) p (json_members ms p)"
  "CHR 0x00 \<notin> set (jp_rest p) \<Longrightarrow> json_items_ok (room p) vs \<Longrightarrow>
    yields (\<lambda>vs. json_items_ok (room p) vs \<and> length vs \<le> JSON_MAX_ARRAY) p (json_items vs p)"
proof (induction p and p and p and ms p and vs p
    rule: json_parse_value_json_parse_object_json_parse_array_json_members_json_items.induct)
  case (1 p)
  show ?case
  proof (cases "jp_rest (json_parse_whitespace p)")
    case (Cons c r)
    let ?q = "json_parse_whitespace p"
    have q: "jp_depth ?q = jp_depth p" "set (jp_rest ?q) \<subseteq> set (jp_rest p)"
      by (auto simp: json_parse_whitespace_def dest: set_dropWhileD)
    then have z: "CHR 0x00 \<notin> set (jp_rest ?q)" using 1(3) by auto
    have "yields (json_ok (room p)) ?q (json_parse_value p)"
      using 1(1) [OF refl Cons] 1(2) [OF refl Cons] Cons z q(1)
      by (simp add: json_parse_value.simps [of p] Let_def string_yields number_yields keyword_yields)
    then show ?thesis using q by (fastforce simp: yields_def)
  qed (simp add: json_parse_value.simps [of p] Let_def)
next
  case (2 p)
  show ?case
  proof (rule yieldsI)
    fix v p' assume some: "json_parse_object p = Some (v, p')"
    note eq = some [unfolded json_parse_object.simps [of p]]
    obtain ok p1 where o: "json_parse_char p (CHR 0x7B) = (ok, p1)" by fastforce
    then have ok: "ok = True" using eq by (cases ok) auto
    have deep: "\<not> JSON_MAX_DEPTH < jp_depth p1 + 1" using eq o ok by auto
    obtain close p2 where c: "json_parse_char (p1\<lparr>jp_depth := jp_depth p1 + 1\<rparr>) (CHR 0x7D) = (close, p2)" by fastforce
    note l = parse_char_subset [OF o] parse_char_subset [OF c]
    have d: "0 < room p" "room p2 = room p - 1" "CHR 0x00 \<notin> set (jp_rest p2)" using l deep 2(2) by auto
    show "json_ok (room p) v \<and> jp_depth p' = jp_depth p \<and> set (jp_rest p') \<subseteq> set (jp_rest p)"
    proof (cases close)
      case False
      then obtain xs p3 where m: "json_members [] p2 = Some (xs, p3)"
        using eq o ok deep c by (cases "json_members [] p2") auto
      then have "p' = p3\<lparr>jp_depth := jp_depth p3 - 1\<rparr>" "v = JSON_OBJECT xs" using eq o ok deep c False by auto
      moreover have "close = False" using False by simp
      note yieldsD [OF 2(1) [OF o [symmetric] ok deep c [symmetric] this d(3)] m]
      ultimately show ?thesis using d l by auto
    qed (use eq o ok deep c l d in auto)
  qed
next
  case (3 p)
  show ?case
  proof (rule yieldsI)
    fix v p' assume some: "json_parse_array p = Some (v, p')"
    note eq = some [unfolded json_parse_array.simps [of p]]
    obtain ok p1 where o: "json_parse_char p (CHR 0x5B) = (ok, p1)" by fastforce
    then have ok: "ok = True" using eq by (cases ok) auto
    have deep: "\<not> JSON_MAX_DEPTH < jp_depth p1 + 1" using eq o ok by auto
    obtain close p2 where c: "json_parse_char (p1\<lparr>jp_depth := jp_depth p1 + 1\<rparr>) (CHR 0x5D) = (close, p2)" by fastforce
    note l = parse_char_subset [OF o] parse_char_subset [OF c]
    have d: "0 < room p" "room p2 = room p - 1" "CHR 0x00 \<notin> set (jp_rest p2)" using l deep 3(2) by auto
    show "json_ok (room p) v \<and> jp_depth p' = jp_depth p \<and> set (jp_rest p') \<subseteq> set (jp_rest p)"
    proof (cases close)
      case False
      then obtain xs p3 where m: "json_items [] p2 = Some (xs, p3)"
        using eq o ok deep c by (cases "json_items [] p2") auto
      then have "p' = p3\<lparr>jp_depth := jp_depth p3 - 1\<rparr>" "v = JSON_ARRAY xs" using eq o ok deep c False by auto
      moreover have "close = False" using False by simp
      note yieldsD [OF 3(1) [OF o [symmetric] ok deep c [symmetric] this d(3)] m]
      ultimately show ?thesis using d l by auto
    qed (use eq o ok deep c l d in auto)
  qed
next
  case (4 ms p)
  show ?case
  proof (rule yieldsI)
    fix v p' assume some: "json_members ms p = Some (v, p')"
    note eq = some [unfolded json_members.simps [of ms p]]
    obtain key p1 where 1: "json_parse_string_raw p JSON_MAX_STRING = Some (key, p1)"
      using eq by (cases "json_parse_string_raw p JSON_MAX_STRING") auto
    obtain ok p2 where 2: "json_parse_char p1 (CHR 0x3A) = (ok, p2)" by fastforce
    then have ok: "ok = True" using eq 1 by (cases ok) auto
    obtain val p3 where 3: "json_parse_value p2 = Some (val, p3)"
      using eq 1 2 ok by (cases "json_parse_value p2") auto
    obtain close p4 where c: "json_parse_char p3 (CHR 0x7D) = (close, p4)" by fastforce
    obtain comma p5 where d: "json_parse_char p4 (CHR 0x2C) = (comma, p5)" by fastforce
    note l = string_raw_ok [OF 1 4(3)] parse_char_subset [OF 2] parse_char_subset [OF c] parse_char_subset [OF d]
    have z2: "CHR 0x00 \<notin> set (jp_rest p2)" using l 4(3) by auto
    note v = yieldsD [OF 4(1) [OF 1 refl 2 [symmetric] ok z2] 3]
    have ms: "json_members_ok (room p) (ms @ [(key, val)])" using 4(4) l v by simp
    show "json_members_ok (room p) v \<and> jp_depth p' = jp_depth p \<and> set (jp_rest p') \<subseteq> set (jp_rest p)"
    proof (cases close)
      case False
      then have comma: "comma = True" using eq 1 2 ok 3 c d by (cases comma) auto
      then have m: "json_members (ms @ [(key, val)]) p5 = Some (v, p')" using eq 1 2 ok 3 c d False by simp
      have z5: "CHR 0x00 \<notin> set (jp_rest p5)" and r5: "room p5 = room p" using l v z2 by auto
      have "close = False" using False by simp
      note yieldsD [OF 4(2) [OF 1 refl 2 [symmetric] ok 3 refl c [symmetric] this d [symmetric] comma z5] m]
      then show ?thesis using l v ms r5 by (simp, blast)
    next
      case True
      then have "v = ms @ [(key, val)]" "p' = p4" using eq 1 2 ok 3 c by auto
      then show ?thesis using l v ms by (simp, blast)
    qed
  qed
next
  case (5 vs p)
  show ?case
  proof (rule yieldsI)
    fix v p' assume some: "json_items vs p = Some (v, p')"
    note eq = some [unfolded json_items.simps [of vs p]]
    obtain val p1 where 1: "json_parse_value p = Some (val, p1)" using eq by (cases "json_parse_value p") auto
    have len: "\<not> JSON_MAX_ARRAY \<le> length vs" using eq 1 by auto
    obtain close p2 where 2: "json_parse_char p1 (CHR 0x5D) = (close, p2)" by fastforce
    obtain comma p3 where 3: "json_parse_char p2 (CHR 0x2C) = (comma, p3)" by fastforce
    note l = yieldsD [OF 5(1) [OF 5(3)] 1] parse_char_subset [OF 2] parse_char_subset [OF 3]
    have vs: "json_items_ok (room p) (vs @ [val])" using 5(4) l by simp
    show "(json_items_ok (room p) v \<and> length v \<le> JSON_MAX_ARRAY) \<and> jp_depth p' = jp_depth p \<and>
        set (jp_rest p') \<subseteq> set (jp_rest p)"
    proof (cases close)
      case False
      then have comma: "comma = True" using eq 1 2 len 3 by (cases comma) auto
      then have m: "json_items (vs @ [val]) p3 = Some (v, p')" using eq 1 2 3 len False by simp
      have z3: "CHR 0x00 \<notin> set (jp_rest p3)" and r3: "room p3 = room p" using l 5(3) by auto
      have "close = False" using False by simp
      note yieldsD [OF 5(2) [OF 1 refl len 2 [symmetric] this 3 [symmetric] comma z3] m]
      then show ?thesis using l vs r3 by auto
    next
      case True
      then have "v = vs @ [val]" "p' = p2" using eq 1 2 len by auto
      then show ?thesis using l vs len by auto
    qed
  qed
qed

text \<open>C36. Whatever the input, a tree that the parser returns is within the limits of its data
  structure: no more than 32 levels, arrays of at most 256 items, and texts and keys that fit into
  their buffers with the terminating zero.\<close>

theorem json_within_limits:
  "pred_option (json_ok 32) (json_parse input)"
proof (cases "json_parse_value \<lparr>jp_rest = takeWhile (\<lambda>c. c \<noteq> CHR 0x00) input, jp_depth = 0\<rparr>")
  case (Some r)
  have z: "CHR 0x00 \<notin> set (takeWhile (\<lambda>c. c \<noteq> CHR 0x00) input)" by (auto dest: set_takeWhileD)
  obtain v p where r: "r = (v, p)" by (cases r)
  have "json_ok 32 v" using yieldsD [OF parser_yields(1) Some [unfolded r]] z by simp
  then show ?thesis by (simp add: json_parse_def Some r)
qed (simp add: json_parse_def)

section \<open>Numbers that cannot be read back\<close>

lemma g_scale_small:
  "0 < x \<Longrightarrow> x < 1 \<Longrightarrow> 1 \<le> x * 10 ^ n \<Longrightarrow>
    \<exists>y k. g_scale (Suc n) x e = (y, e - int k) \<and> 1 \<le> y \<and> y < 10 \<and> y = x * 10 ^ k"
proof (induction n arbitrary: x e)
  case (Suc n)
  show ?case
  proof (cases "x * 10 < 1")
    case True
    then obtain y k where y: "g_scale (Suc n) (x * 10) (e - 1) = (y, e - 1 - int k)" "1 \<le> y" "y < 10" "y = x * 10 * 10 ^ k"
      using Suc.IH [of "x * 10" "e - 1"] Suc.prems by (auto simp: mult.assoc)
    have "g_scale (Suc (Suc n)) x e = g_scale (Suc n) (x * 10) (e - 1)" using Suc.prems by simp
    then have "g_scale (Suc (Suc n)) x e = (y, e - int (Suc k))" using y(1) by (simp only:) simp
    moreover have "y = x * 10 ^ Suc k" using y(4) by simp
    ultimately show ?thesis using y(2,3) by blast
  next
    case False
    then have "g_scale (Suc (Suc n)) x e = (x * 10, e - int 1)" using Suc.prems by simp
    then show ?thesis using False Suc.prems by (intro exI [of _ "x * 10"] exI [of _ 1]) simp
  qed
qed simp

lemma decimal_digits: "list_all is_digit (decimal n)"
  by (induction n rule: decimal.induct) (subst decimal.simps, auto simp: list_all_iff)

lemma strip_zeros_snoc: "strip_zeros (s @ [d]) = (if d = CHR ''0'' then strip_zeros s else if d = CHR ''.'' then s else s @ [d])"
  by (simp add: strip_zeros_def)

lemma strip_zeros_fraction:
  assumes "is_digit c" "list_all is_digit ds"
  shows "\<exists>t. strip_zeros (c # CHR ''.'' # ds) = c # t \<and> (t = [] \<or> (\<exists>ds'. t = CHR ''.'' # ds' \<and> list_all is_digit ds'))"
  using assms(2)
proof (induction ds rule: rev_induct)
  case Nil
  show ?case using strip_zeros_snoc [of "[c]" "CHR ''.''"] by simp
next
  case (snoc d ds)
  have "d \<noteq> CHR ''.''" using snoc.prems by (auto simp: is_digit_def)
  then show ?case
    using snoc strip_zeros_snoc [of "c # CHR ''.'' # ds" d] by auto
qed

lemma printf_g_small:
  assumes "0 < x" "x < 1 / 20000" "1 \<le> x * 10 ^ 399"
  shows "\<exists>c t s. printf_g x = c # t @ CHR ''e'' # s \<and> is_digit c \<and>
    (t = [] \<or> (\<exists>ds. t = CHR ''.'' # ds \<and> list_all is_digit ds))"
proof -
  obtain y k where g: "g_scale (Suc 399) \<bar>x\<bar> 0 = (y, 0 - int k)" and y: "1 \<le> y" "y < 10" "y = x * 10 ^ k"
    using g_scale_small [of x 399 0] assms by auto
  define m where "m = round_even (y * 100000)"
  have k: "5 \<le> k"
  proof (rule ccontr)
    assume "\<not> 5 \<le> k"
    then have "(10 :: real) ^ k \<le> 10 ^ 4" by (intro power_increasing) simp_all
    then have "x * 10 ^ k \<le> x * 10 ^ 4" using assms(1) by (intro mult_left_mono) simp_all
    then show False using y assms(2) by simp
  qed
  have m5: "m \<noteq> 1000000" if "k = 5"
  proof -
    have "y < 5" using y(3) that assms(2) by simp
    then have "\<lfloor>y * 100000\<rfloor> < 500000" by (simp add: floor_less_iff)
    moreover have "m \<le> \<lfloor>y * 100000\<rfloor> + 1" by (simp add: m_def round_even_def Let_def)
    ultimately show ?thesis by linarith
  qed
  obtain m' e where me: "(if m = 1000000 then (100000, 0 - int k + 1) else (m, 0 - int k)) = (m', e)" by (metis surj_pair)
  then have e: "e < - 4" using k m5 by (cases "k = 5") (auto split: if_splits)
  have "g_scale 400 \<bar>x\<bar> 0 = (y, 0 - int k)" using g by simp
  then have "printf_g x = strip_zeros (take 1 (decimal (nat m')) @ ''.'' @ drop 1 (decimal (nat m'))) @ ''e'' @
      (if e < 0 then ''-'' else ''+'') @ (if \<bar>e\<bar> < 10 then ''0'' else []) @ decimal (nat \<bar>e\<bar>)"
    using assms(1) e me
    by (simp only: printf_g_def Let_def prod.case m_def [symmetric]) simp
  moreover obtain c ds where cd: "decimal (nat m') = c # ds" by (cases "decimal (nat m')") simp_all
  moreover have "is_digit c" "list_all is_digit ds" using decimal_digits [of "nat m'"] cd by simp_all
  moreover from strip_zeros_fraction [OF this] obtain t where
    "strip_zeros (c # CHR ''.'' # ds) = c # t" "t = [] \<or> (\<exists>ds'. t = CHR ''.'' # ds' \<and> list_all is_digit ds')" by blast
  ultimately show ?thesis by auto
qed

lemma digits_stop: "list_all is_digit ds \<Longrightarrow> \<exists>num. json_digits n (ds @ CHR ''e'' # r) = (num, CHR ''e'' # r)"
  by (induction ds arbitrary: n) (simp_all add: is_digit_def)

lemma fraction_stop:
  "list_all is_digit ds \<Longrightarrow> \<exists>fr' dv'. json_fraction fr dv (ds @ CHR ''e'' # r) = (fr', dv', CHR ''e'' # r)"
  by (induction ds arbitrary: fr dv) (simp_all add: is_digit_def)

lemma number_stops_at_exponent:
  assumes "jp_rest p = c # t @ CHR ''e'' # r" "is_digit c" "t = [] \<or> (\<exists>ds. t = CHR ''.'' # ds \<and> list_all is_digit ds)"
  shows "\<exists>v. json_parse_number p = Some (v, p\<lparr>jp_rest := CHR ''e'' # r\<rparr>)"
proof -
  have c: "c \<noteq> CHR ''-''" "\<not> is_digit (CHR ''e'')" "\<not> is_digit (CHR ''.'')" using assms(2) by (auto simp: is_digit_def)
  show ?thesis
  proof (cases "t = []")
    case True
    then show ?thesis using assms(1,2) c by (simp add: json_parse_number_def)
  next
    case False
    then obtain ds where t: "t = CHR ''.'' # ds" "list_all is_digit ds" using assms(3) by blast
    obtain fr dv where "json_fraction 0 1 (ds @ CHR ''e'' # r) = (fr, dv, CHR ''e'' # r)"
      using fraction_stop [OF t(2), of 0 1 r] by blast
    then show ?thesis using assms(1,2) c t(1) by (simp add: json_parse_number_def)
  qed
qed

section \<open>Numbers that the parser does not read to the end\<close>

definition tiny :: "real \<Rightarrow> bool" where
  "tiny x \<longleftrightarrow> 0 < x \<and> x < 1 / 20000 \<and> 1 \<le> x * 10 ^ 399"

text \<open>
  A tree with such a number somewhere inside: what is written before it is within the limits and its numbers are printed
  exactly; nothing is required of what comes after it. The first argument bounds the depth.
\<close>

inductive spoilt :: "nat \<Rightarrow> json_value \<Rightarrow> bool" where
  Tiny_Member: "tiny x \<Longrightarrow> json_members_ok d ms \<Longrightarrow> exact_members ms \<Longrightarrow> json_text_ok key \<Longrightarrow>
    spoilt (Suc d) (JSON_OBJECT (ms @ (key, JSON_NUMBER x) # ms'))"
| In_Member: "spoilt d v \<Longrightarrow> json_members_ok d ms \<Longrightarrow> exact_members ms \<Longrightarrow> json_text_ok key \<Longrightarrow>
    spoilt (Suc d) (JSON_OBJECT (ms @ (key, v) # ms'))"
| Tiny_Item: "tiny x \<Longrightarrow> json_items_ok d vs \<Longrightarrow> exact_items vs \<Longrightarrow> length vs < JSON_MAX_ARRAY \<Longrightarrow>
    spoilt (Suc d) (JSON_ARRAY (vs @ JSON_NUMBER x # vs'))"
| In_Item: "spoilt d v \<Longrightarrow> json_items_ok d vs \<Longrightarrow> exact_items vs \<Longrightarrow> length vs < JSON_MAX_ARRAY \<Longrightarrow>
    spoilt (Suc d) (JSON_ARRAY (vs @ v # vs'))"

text \<open>
  A text at whose end the parser of values has failed or stands before an \<open>e\<close>, whatever follows; and one at whose end it has
  failed.
\<close>

definition begins :: "string \<Rightarrow> bool" where
  "begins A \<longleftrightarrow> (\<exists>c u. A = c # u \<and> \<not> is_space c \<and> c \<noteq> CHR 0x5D) \<and> CHR 0x00 \<notin> set A"

definition stops :: "int \<Rightarrow> string \<Rightarrow> bool" where
  "stops k A \<longleftrightarrow> (\<forall>p r. jp_depth p = k \<longrightarrow> reads p (A @ r) \<longrightarrow>
     json_parse_value p = None \<or> (\<exists>v r'. json_parse_value p = Some (v, p\<lparr>jp_rest := CHR ''e'' # r'\<rparr>)))"

definition refuses :: "int \<Rightarrow> string \<Rightarrow> bool" where
  "refuses k A \<longleftrightarrow> (\<forall>p r. jp_depth p = k \<longrightarrow> reads p (A @ r) \<longrightarrow> json_parse_value p = None)"

lemma refuses_stops: "refuses k A \<Longrightarrow> stops k A"
  by (simp add: refuses_def stops_def)

lemma tiny_stops:
  assumes "tiny x"
  obtains A B where "json_write (JSON_NUMBER x) i = A @ B" "begins A" "stops k A"
proof -
  have x: "0 < x" "x < 1 / 20000" "1 \<le> x * 10 ^ 399" using assms by (simp_all add: tiny_def)
  have "to_long_long x = 0" using x(1,2) by (simp add: to_long_long_def floor_eq_iff)
  then have "json_write (JSON_NUMBER x) i = printf_g x" using x(1) by simp
  then obtain c t s where w: "json_write (JSON_NUMBER x) i = c # t @ CHR ''e'' # s" and c: "is_digit c"
    and t: "t = [] \<or> (\<exists>ds. t = CHR ''.'' # ds \<and> list_all is_digit ds)"
    using printf_g_small [OF x] by metis
  let ?A = "c # t @ ''e''"
  have d: "c \<noteq> CHR 0x7B" "c \<noteq> CHR 0x5B" "c \<noteq> CHR 0x22" "c \<noteq> CHR 0x5D" "\<not> is_space c" "\<not> is_digit (CHR 0x00)"
    using c digit_not_space by (auto simp: is_digit_def)
  have "stops k ?A"
    unfolding stops_def
  proof (intro allI impI disjI2)
    fix p r
    assume "jp_depth p = k" "reads p (?A @ r)"
    then have at: "reads p (c # t @ CHR ''e'' # r)" by simp
    obtain ws where ws: "jp_rest p = ws @ c # t @ CHR ''e'' # r" "list_all is_space ws" by (rule readsE [OF at d(5)])
    obtain v where "json_parse_number (p\<lparr>jp_rest := c # t @ CHR ''e'' # r\<rparr>) = Some (v, p\<lparr>jp_rest := CHR ''e'' # r\<rparr>)"
      using number_stops_at_exponent [of "p\<lparr>jp_rest := c # t @ CHR ''e'' # r\<rparr>", OF _ c t] by auto
    then show "\<exists>v r'. json_parse_value p = Some (v, p\<lparr>jp_rest := CHR ''e'' # r'\<rparr>)"
      using c d by (auto simp: value_at [OF ws d(5)])
  qed
  moreover have "begins ?A" using c t d by (auto simp: begins_def list_all_iff)
  ultimately show ?thesis using w by (intro that [of ?A s]) simp_all
qed

section \<open>What comes before\<close>

fun members_before :: "(string \<times> json_value) list \<Rightarrow> nat \<Rightarrow> string" where
  "members_before [] i = []"
| "members_before ((key, val) # ms) i = json_write_indent (i + 2) @ json_write_string key @ '': '' @ json_write val (i + 2) @
     CHR 0x2C # CHR 0x0A # members_before ms i"

fun items_before :: "json_value list \<Rightarrow> nat \<Rightarrow> string" where
  "items_before [] i = []"
| "items_before (val # vs) i = json_write_indent (i + 2) @ json_write val (i + 2) @ CHR 0x2C # CHR 0x0A # items_before vs i"

lemma write_before:
  "json_write_members (ms @ m # ms') i = members_before ms i @ json_write_members (m # ms') i"
  "json_write_items (vs @ v # vs') i = items_before vs i @ json_write_items (v # vs') i"
proof -
  show "json_write_members (ms @ m # ms') i = members_before ms i @ json_write_members (m # ms') i"
    by (induction ms) (auto simp del: json_write_members.simps(2) simp: json_write_members.simps(2) [of _ _ "_ @ _ # _"])
  show "json_write_items (vs @ v # vs') i = items_before vs i @ json_write_items (v # vs') i"
    by (induction vs) (auto simp del: json_write_items.simps(2) simp: json_write_items.simps(2) [of _ "_ @ _ # _"])
qed

lemma before_no_zero:
  "json_members_ok d ms \<Longrightarrow> exact_members ms \<Longrightarrow> CHR 0x00 \<notin> set (members_before ms i)"
  "json_items_ok d vs \<Longrightarrow> exact_items vs \<Longrightarrow> CHR 0x00 \<notin> set (items_before vs i)"
proof -
  show "json_members_ok d ms \<Longrightarrow> exact_members ms \<Longrightarrow> CHR 0x00 \<notin> set (members_before ms i)"
    by (induction ms i rule: members_before.induct)
      (use write_no_zero(1) string_no_zero in \<open>auto simp: json_text_ok_def json_write_indent_def\<close>)
  show "json_items_ok d vs \<Longrightarrow> exact_items vs \<Longrightarrow> CHR 0x00 \<notin> set (items_before vs i)"
    by (induction vs i rule: items_before.induct) (use write_no_zero(1) in \<open>auto simp: json_write_indent_def\<close>)
qed

lemma reads_string:
  assumes "reads p (json_write_indent i @ json_write_string key @ t)"
  obtains ws where "jp_rest p = ws @ json_write_string key @ t" "list_all is_space ws"
proof -
  have "reads p (CHR 0x22 # concat (map json_escape key) @ CHR 0x22 # t)"
    using assms by (simp add: json_write_string_def)
  then show ?thesis using that by (elim readsE) (simp_all add: json_write_string_def)
qed

lemma members_passed:
  assumes "json_members_ok d ms" "exact_members ms" "jp_depth p = JSON_MAX_DEPTH - int d" "reads p (members_before ms i @ t)"
  shows "\<exists>q. json_members ms0 p = json_members (ms0 @ ms) q \<and> reads q t \<and> jp_depth q = jp_depth p"
  using assms
proof (induction ms i arbitrary: ms0 p rule: members_before.induct)
  case (2 key val ms i)
  let ?u = "CHR 0x0A # members_before ms i @ t"
  let ?t = "json_write val (i + 2) @ CHR 0x2C # ?u"
  obtain ws where ws: "jp_rest p = ws @ json_write_string key @ '': '' @ ?t" "list_all is_space ws"
    by (rule reads_string [of p "i + 2" key "'': '' @ ?t"]) (use 2(5) in simp)
  have "json_parse_value (p\<lparr>jp_rest := '' '' @ ?t\<rparr>) = Some (val, p\<lparr>jp_rest := '' '' @ ?t\<rparr>\<lparr>jp_rest := CHR 0x2C # ?u\<rparr>)"
    using 2(2-4) by (intro written_parses(1) [where d = d]) (simp_all add: reads_def)
  then have v: "json_parse_value (p\<lparr>jp_rest := '' '' @ ?t\<rparr>) = Some (val, p\<lparr>jp_rest := CHR 0x2C # ?u\<rparr>)" by simp
  have key: "json_text_ok key" using 2(2) by simp
  have "json_members ms0 p = json_members (ms0 @ [(key, val)]) (p\<lparr>jp_rest := ?u\<rparr>)"
    by (rule members_turn(2) [OF ws key v]) simp
  moreover obtain q where "json_members (ms0 @ [(key, val)]) (p\<lparr>jp_rest := ?u\<rparr>) = json_members ((ms0 @ [(key, val)]) @ ms) q"
    "reads q t" "jp_depth q = jp_depth (p\<lparr>jp_rest := ?u\<rparr>)"
    using 2(1) [of "p\<lparr>jp_rest := ?u\<rparr>" "ms0 @ [(key, val)]"] 2(2-4) by (auto simp: reads_def)
  ultimately show ?case by (intro exI [of _ q]) simp
qed auto

lemma items_passed:
  assumes "json_items_ok d vs" "exact_items vs" "jp_depth p = JSON_MAX_DEPTH - int d" "reads p (items_before vs i @ t)"
    "length vs0 + length vs \<le> JSON_MAX_ARRAY"
  shows "\<exists>q. json_items vs0 p = json_items (vs0 @ vs) q \<and> reads q t \<and> jp_depth q = jp_depth p"
  using assms
proof (induction vs i arbitrary: vs0 p rule: items_before.induct)
  case (2 val vs i)
  let ?u = "CHR 0x0A # items_before vs i @ t"
  have v: "json_parse_value p = Some (val, p\<lparr>jp_rest := CHR 0x2C # ?u\<rparr>)"
    using 2(2-5) by (intro written_parses(1) [where d = d and i = "i + 2"]) simp_all
  have room: "length vs0 < JSON_MAX_ARRAY" using 2(6) by simp
  have "json_items vs0 p = json_items (vs0 @ [val]) (p\<lparr>jp_rest := ?u\<rparr>)"
    by (rule items_turn(2) [OF v room]) simp
  moreover obtain q where "json_items (vs0 @ [val]) (p\<lparr>jp_rest := ?u\<rparr>) = json_items ((vs0 @ [val]) @ vs) q"
    "reads q t" "jp_depth q = jp_depth (p\<lparr>jp_rest := ?u\<rparr>)"
    using 2(1) [of "p\<lparr>jp_rest := ?u\<rparr>" "vs0 @ [val]"] 2(2-4,6) by (auto simp: reads_def)
  ultimately show ?case by (intro exI [of _ q]) simp
qed auto

section \<open>The container fails\<close>

lemma stuck_at_exponent:
  assumes "x \<noteq> CHR ''e''"
  shows "json_parse_char (p\<lparr>jp_rest := CHR ''e'' # r\<rparr>) x = (False, p\<lparr>jp_rest := CHR ''e'' # r\<rparr>)"
proof -
  have "\<not> is_space (CHR ''e'')" by (simp add: is_space_def)
  then show ?thesis using parse_char_at [of "p\<lparr>jp_rest := CHR ''e'' # r\<rparr>" "[]" "CHR ''e''" r x] assms by simp
qed

lemma member_fails:
  assumes "stops (jp_depth p) A" "json_text_ok key" "reads p (json_write_indent i @ json_write_string key @ '': '' @ A @ r)"
  shows "json_members ms p = None"
proof -
  obtain ws where ws: "jp_rest p = ws @ json_write_string key @ '': '' @ A @ r" "list_all is_space ws"
    by (rule reads_string [OF assms(3)])
  have key: "json_parse_string_raw p JSON_MAX_STRING = Some (key, p\<lparr>jp_rest := '': '' @ A @ r\<rparr>)"
    using string_raw_written [of p ws key "'': '' @ A @ r"] assms(2) ws by (simp add: json_text_ok_def)
  have colon: "json_parse_char (p\<lparr>jp_rest := '': '' @ A @ r\<rparr>) (CHR 0x3A) = (True, p\<lparr>jp_rest := '' '' @ A @ r\<rparr>)"
    using parse_char_at [of "p\<lparr>jp_rest := '': '' @ A @ r\<rparr>" "[]" "CHR 0x3A" "'' '' @ A @ r"] by simp
  let ?p = "p\<lparr>jp_rest := '' '' @ A @ r\<rparr>"
  have "jp_depth ?p = jp_depth p" "reads ?p (A @ r)" by (simp_all add: reads_def)
  then consider "json_parse_value ?p = None" | v r' where "json_parse_value ?p = Some (v, p\<lparr>jp_rest := CHR ''e'' # r'\<rparr>)"
    using assms(1) [unfolded stops_def, rule_format, of ?p r] by auto
  then show ?thesis
    by cases (subst json_members.simps, simp add: key colon stuck_at_exponent del: append_Cons append.simps)+
qed

lemma item_fails:
  assumes "stops (jp_depth p) A" "reads p (json_write_indent i @ A @ r)"
  shows "json_items vs p = None"
proof -
  have "reads p (A @ r)" using assms(2) by simp
  then consider "json_parse_value p = None" | v r' where "json_parse_value p = Some (v, p\<lparr>jp_rest := CHR ''e'' # r'\<rparr>)"
    using assms(1) [unfolded stops_def, rule_format, of p r] by auto
  then show ?thesis by cases (subst json_items.simps, simp add: stuck_at_exponent)+
qed

lemma object_fails:
  assumes "json_write v (i + 2) = A @ B" "begins A" "stops (JSON_MAX_DEPTH - int d) A" "d < 32"
    "json_members_ok d ms" "exact_members ms" "json_text_ok key"
  obtains A' B' where "json_write (JSON_OBJECT (ms @ (key, v) # ms')) i = A' @ B'" "begins A'" "refuses (JSON_MAX_DEPTH - int (Suc d)) A'"
proof -
  let ?m = "members_before ms i @ json_write_indent (i + 2) @ json_write_string key @ '': '' @ A"
  let ?A = "[CHR 0x7B, CHR 0x0A] @ ?m"
  have "CHR 0x00 \<notin> set ?m"
    using before_no_zero(1) [OF assms(5,6)] string_no_zero [of key] assms(2,7)
    by (auto simp: begins_def json_text_ok_def json_write_indent_def)
  then have begins: "begins ?A" by (simp add: begins_def)
  obtain us u where u: "?m = us @ CHR 0x22 # u" "list_all is_space us"
  proof (cases "ms = []")
    case False
    then obtain k val ms1 where "ms = (k, val) # ms1" by (cases ms) auto
    then show ?thesis by (intro that [of "json_write_indent (i + 2)"]) (simp_all add: json_write_string_def)
  qed (rule that [of "json_write_indent (i + 2)"], simp_all add: json_write_string_def)
  have "refuses (JSON_MAX_DEPTH - int (Suc d)) ?A"
    unfolding refuses_def
  proof (intro allI impI)
    fix p r
    assume p: "jp_depth p = JSON_MAX_DEPTH - int (Suc d)" "reads p (?A @ r)"
    let ?t = "CHR 0x0A # ?m @ r"
    have at: "reads p (CHR 0x7B # ?t)" using p(2) by simp
    obtain ws where ws: "jp_rest p = ws @ CHR 0x7B # ?t" "list_all is_space ws" by (rule readsE [OF at]) simp
    let ?q = "p\<lparr>jp_rest := CHR 0x7B # ?t\<rparr>" and ?p = "p\<lparr>jp_rest := CHR 0x22 # u @ r, jp_depth := jp_depth p + 1\<rparr>"
    have q: "jp_rest ?q = [] @ CHR 0x7B # ?t" by simp
    have t: "?t = (CHR 0x0A # us) @ CHR 0x22 # u @ r" using u(1) by simp
    note o = container_opens(1) [OF q _ _ t] container_opens(2) [OF q _ _ t, where k = "jp_depth p + 1"]
    have d: "jp_depth ?p = JSON_MAX_DEPTH - int d" using p(1) by simp
    have "reads ?p (us @ CHR 0x22 # u @ r)" by (subst reads_spaces [OF u(2)]) (simp add: reads_def)
    then have r: "reads ?p (members_before ms i @ json_write_indent (i + 2) @ json_write_string key @ '': '' @ A @ r)"
      using u(1) by (metis append_Cons append_assoc)
    obtain q' where q': "json_members [] ?p = json_members ([] @ ms) q'"
      "reads q' (json_write_indent (i + 2) @ json_write_string key @ '': '' @ A @ r)" "jp_depth q' = jp_depth ?p"
      using members_passed [OF assms(5,6) d r, of "[]"] by blast
    have "json_members ([] @ ms) q' = None" by (rule member_fails [OF _ assms(7) q'(2)]) (use assms(3) q'(3) d in simp)
    then have "json_parse_object ?q = None"
      using q'(1) by (subst json_parse_object.simps) (use o u(2) p(1) assms(4) in simp)
    then show "json_parse_value p = None" using value_at [OF ws] by simp
  qed
  moreover have "json_write (JSON_OBJECT (ms @ (key, v) # ms')) i =
      ?A @ B @ (if ms' \<noteq> [] then '','' else []) @ [CHR 0x0A] @ json_write_members ms' i @ json_write_indent i @ [CHR 0x7D]"
    by (simp add: write_before assms(1) [simplified])
  ultimately show ?thesis using begins by (intro that)
qed

lemma array_fails:
  assumes "json_write v (i + 2) = A @ B" "begins A" "stops (JSON_MAX_DEPTH - int d) A" "d < 32"
    "json_items_ok d vs" "exact_items vs" "length vs < JSON_MAX_ARRAY"
  obtains A' B' where "json_write (JSON_ARRAY (vs @ v # vs')) i = A' @ B'" "begins A'" "refuses (JSON_MAX_DEPTH - int (Suc d)) A'"
proof -
  let ?m = "items_before vs i @ json_write_indent (i + 2) @ A"
  let ?A = "[CHR 0x5B, CHR 0x0A] @ ?m"
  have "CHR 0x00 \<notin> set ?m"
    using before_no_zero(2) [OF assms(5,6)] assms(2) by (auto simp: begins_def json_write_indent_def)
  then have begins: "begins ?A" by (simp add: begins_def)
  obtain us c u where u: "?m = us @ c # u" "list_all is_space us" "\<not> is_space c" "c \<noteq> CHR 0x5D"
  proof (cases vs)
    case (Cons val vs1)
    obtain c u where "json_write val (i + 2) = c # u" "\<not> is_space c" "c \<noteq> CHR 0x5D"
      using value_start [of val "i + 2"] assms(6) Cons by auto
    then show ?thesis using Cons by (intro that [of "json_write_indent (i + 2)" c]) simp_all
  next
    case Nil
    then show ?thesis using assms(2) that by (auto simp: begins_def)
  qed
  have "refuses (JSON_MAX_DEPTH - int (Suc d)) ?A"
    unfolding refuses_def
  proof (intro allI impI)
    fix p r
    assume p: "jp_depth p = JSON_MAX_DEPTH - int (Suc d)" "reads p (?A @ r)"
    let ?t = "CHR 0x0A # ?m @ r"
    have at: "reads p (CHR 0x5B # ?t)" using p(2) by simp
    obtain ws where ws: "jp_rest p = ws @ CHR 0x5B # ?t" "list_all is_space ws" by (rule readsE [OF at]) simp
    let ?q = "p\<lparr>jp_rest := CHR 0x5B # ?t\<rparr>" and ?p = "p\<lparr>jp_rest := c # u @ r, jp_depth := jp_depth p + 1\<rparr>"
    have q: "jp_rest ?q = [] @ CHR 0x5B # ?t" by simp
    have t: "?t = (CHR 0x0A # us) @ c # u @ r" using u(1) by simp
    note o = container_opens(1) [OF q _ _ t] container_opens(2) [OF q _ _ t, where k = "jp_depth p + 1"]
    have d: "jp_depth ?p = JSON_MAX_DEPTH - int d" using p(1) by simp
    have "reads ?p (us @ c # u @ r)" by (subst reads_spaces [OF u(2)]) (simp add: reads_def)
    then have r: "reads ?p (items_before vs i @ json_write_indent (i + 2) @ A @ r)"
      using u(1) by (metis append_Cons append_assoc)
    have room: "length ([] :: json_value list) + length vs \<le> JSON_MAX_ARRAY" using assms(7) by simp
    obtain q' where q': "json_items [] ?p = json_items ([] @ vs) q'"
      "reads q' (json_write_indent (i + 2) @ A @ r)" "jp_depth q' = jp_depth ?p"
      using items_passed [OF assms(5,6) d r room] by blast
    have "json_items ([] @ vs) q' = None" by (rule item_fails [OF _ q'(2)]) (use assms(3) q'(3) d in simp)
    then have "json_parse_array ?q = None"
      using q'(1) by (subst json_parse_array.simps) (use o u(2-4) p(1) assms(4) in simp)
    then show "json_parse_value p = None" using value_at [OF ws] by simp
  qed
  moreover have "json_write (JSON_ARRAY (vs @ v # vs')) i =
      ?A @ B @ (if vs' \<noteq> [] then '','' else []) @ [CHR 0x0A] @ json_write_items vs' i @ json_write_indent i @ [CHR 0x5D]"
    by (simp add: write_before assms(1) [simplified])
  ultimately show ?thesis using begins by (intro that)
qed

lemma spoilt_refused:
  assumes "spoilt d v" "d \<le> 32"
  shows "\<exists>A B. json_write v i = A @ B \<and> begins A \<and> refuses (JSON_MAX_DEPTH - int d) A"
  using assms
proof (induction arbitrary: i rule: spoilt.induct)
  case (Tiny_Member x d ms key ms')
  obtain A B where "json_write (JSON_NUMBER x) (i + 2) = A @ B" "begins A" "stops (JSON_MAX_DEPTH - int d) A"
    by (rule tiny_stops [OF Tiny_Member(1)])
  moreover have "d < 32" using Tiny_Member(5) by simp
  ultimately obtain A' B' where "json_write (JSON_OBJECT (ms @ (key, JSON_NUMBER x) # ms')) i = A' @ B'" "begins A'"
    "refuses (JSON_MAX_DEPTH - int (Suc d)) A'" by (rule object_fails [OF _ _ _ _ Tiny_Member(2-4)])
  then show ?case by blast
next
  case (In_Member d v ms key ms')
  obtain A B where "json_write v (i + 2) = A @ B" "begins A" "stops (JSON_MAX_DEPTH - int d) A"
    using In_Member.IH [of "i + 2"] In_Member.prems refuses_stops by (metis Suc_leD)
  moreover have "d < 32" using In_Member.prems by simp
  ultimately obtain A' B' where "json_write (JSON_OBJECT (ms @ (key, v) # ms')) i = A' @ B'" "begins A'"
    "refuses (JSON_MAX_DEPTH - int (Suc d)) A'" by (rule object_fails [OF _ _ _ _ In_Member.hyps(2-4)])
  then show ?case by blast
next
  case (Tiny_Item x d vs vs')
  obtain A B where "json_write (JSON_NUMBER x) (i + 2) = A @ B" "begins A" "stops (JSON_MAX_DEPTH - int d) A"
    by (rule tiny_stops [OF Tiny_Item(1)])
  moreover have "d < 32" using Tiny_Item(5) by simp
  ultimately obtain A' B' where "json_write (JSON_ARRAY (vs @ JSON_NUMBER x # vs')) i = A' @ B'" "begins A'"
    "refuses (JSON_MAX_DEPTH - int (Suc d)) A'" by (rule array_fails [OF _ _ _ _ Tiny_Item(2-4)])
  then show ?case by blast
next
  case (In_Item d v vs vs')
  obtain A B where "json_write v (i + 2) = A @ B" "begins A" "stops (JSON_MAX_DEPTH - int d) A"
    using In_Item.IH [of "i + 2"] In_Item.prems refuses_stops by (metis Suc_leD)
  moreover have "d < 32" using In_Item.prems by simp
  ultimately obtain A' B' where "json_write (JSON_ARRAY (vs @ v # vs')) i = A' @ B'" "begins A'"
    "refuses (JSON_MAX_DEPTH - int (Suc d)) A'" by (rule array_fails [OF _ _ _ _ In_Item.hyps(2-4)])
  then show ?case by blast
qed

text \<open>C38. A number between 0 and 0.00005 (the delay of a link, say), but not below 10 to the -399, makes a file unreadable: wherever in the tree of at most 32
  levels it stands, as a member of an object or an item of an array, when what is written before it is within
  the limits of the parser and has no other numbers than integers up to 2 to the 53, and whatever comes after it, the parser refuses the
  whole text that was written. The number is written in scientific notation, which the parser does not know.\<close>

theorem tiny_number_lost:
  assumes "spoilt 32 v"
  shows "json_parse (json_write v 0 @ rest) = None"
proof -
  obtain A B where A: "json_write v 0 = A @ B" "begins A" "refuses (JSON_MAX_DEPTH - int 32) A"
    using spoilt_refused [OF assms, of 0] by auto
  let ?r = "takeWhile (\<lambda>c. c \<noteq> CHR 0x00) (B @ rest)"
  have "takeWhile (\<lambda>c. c \<noteq> CHR 0x00) (A @ B @ rest) = A @ ?r"
    using A(2) by (intro takeWhile_append2) (auto simp: begins_def)
  moreover have "json_parse_value \<lparr>jp_rest = A @ ?r, jp_depth = 0\<rparr> = None"
    using A(3) [unfolded refuses_def, rule_format, of "\<lparr>jp_rest = A @ ?r, jp_depth = 0\<rparr>" ?r] by (simp add: reads_def)
  ultimately show ?thesis using A(1) by (simp add: json_parse_def)
qed

theorem tiny_number_lost_witness:
  "json_parse (json_write (JSON_OBJECT [(''nodes'', JSON_ARRAY []),
     (''links'', JSON_ARRAY [JSON_OBJECT [(''port1'', JSON_NUMBER 1), (''delay'', JSON_NUMBER (1 / 100000)), (''port2'', JSON_NUMBER 2)]])]) 0 @
     [CHR 0x0A]) = None"
proof -
  have tiny: "tiny (1 / 100000)" by (simp add: tiny_def)
  have 1: "spoilt (Suc 29) (JSON_OBJECT ([(''port1'', JSON_NUMBER 1)] @ (''delay'', JSON_NUMBER (1 / 100000)) # [(''port2'', JSON_NUMBER 2)]))"
    by (rule spoilt.Tiny_Member [OF tiny]) (simp_all add: json_text_ok_def exact_number_def)
  have 2: "spoilt (Suc 30) (JSON_ARRAY ([] @
      JSON_OBJECT ([(''port1'', JSON_NUMBER 1)] @ (''delay'', JSON_NUMBER (1 / 100000)) # [(''port2'', JSON_NUMBER 2)]) # []))"
    by (rule spoilt.In_Item) (use 1 in simp_all)
  have "spoilt (Suc 31) (JSON_OBJECT ([(''nodes'', JSON_ARRAY [])] @ (''links'', JSON_ARRAY ([] @
      JSON_OBJECT ([(''port1'', JSON_NUMBER 1)] @ (''delay'', JSON_NUMBER (1 / 100000)) # [(''port2'', JSON_NUMBER 2)]) # [])) # []))"
    by (rule spoilt.In_Member) (use 2 in \<open>simp_all add: json_text_ok_def\<close>)
  then have "spoilt 32 (JSON_OBJECT [(''nodes'', JSON_ARRAY []),
     (''links'', JSON_ARRAY [JSON_OBJECT [(''port1'', JSON_NUMBER 1), (''delay'', JSON_NUMBER (1 / 100000)), (''port2'', JSON_NUMBER 2)]])])"
    by simp
  then show ?thesis by (rule tiny_number_lost)
qed

end
