(* ===== verification/Loader.thy ===== *)
theory Loader
  imports Simulator Json
begin

text \<open>
  Topology files: \<^verbatim>\<open>utils/loader.c\<close>. Saving builds a JSON tree from the simulator and writes it,
  loading parses a file and builds the network again. The files themselves are texts here;
  opening and closing them is left out. A conversion of a number to \<^verbatim>\<open>int\<close> that an \<^verbatim>\<open>int\<close> cannot hold is
  undefined, and \<open>None\<close>, like the access to a node that is not there. The cast of a delay to \<^verbatim>\<open>float\<close>
  is the identity, as delays are exact reals.
\<close>

section \<open>Saving\<close>

definition parse_ip_address :: "string \<Rightarrow> ip_address \<Rightarrow> (bool \<times> ip_address) option" where
  "parse_ip_address str ip = ip_parse str ip"

definition ip_address_to_string :: "ip_address \<Rightarrow> nat \<Rightarrow> string" where
  "ip_address_to_string ip out_size = ip_to_string ip out_size (0 < prefix ip)"

abbreviation add :: "json_value \<Rightarrow> string \<Rightarrow> json_value \<Rightarrow> json_value" where
  "add obj key val \<equiv> json_object_add obj key val"

definition host_to_json :: "string \<Rightarrow> host \<Rightarrow> json_value" where
  "host_to_json name host =
    (let h = add json_create_object ''name'' (json_create_string name)
     in if h_has_ip host
        then add (add h ''ip_address'' (json_create_string (ip_address_to_string (h_ip host) 64)))
               ''default_gateway'' (json_create_string (ip_address_to_string (h_gateway host) 64))
        else h)"

text \<open>The configuration of port \<open>p + 1\<close>, unless it is the default.\<close>

definition port_to_json :: "nat \<Rightarrow> switch_port_config \<Rightarrow> json_value option" where
  "port_to_json p cfg =
    (if pc_mode cfg = SWITCH_PORT_ACCESS \<and> pc_vlan_id cfg = SWITCH_DEFAULT_VLAN_ID then None
     else
       let v = add json_create_object ''port'' (json_create_number (real (p + 1)))
       in Some (if pc_mode cfg = SWITCH_PORT_ACCESS
                then add (add v ''mode'' (json_create_string ''access''))
                       ''vlan_id'' (json_create_number (of_int (pc_vlan_id cfg)))
                else add v ''mode'' (json_create_string ''trunk'')))"

text \<open>Adding the values that are there to an array, in order.\<close>

definition add_all :: "json_value option list \<Rightarrow> json_value" where
  "add_all vs = fold (\<lambda>v arr. case v of None \<Rightarrow> arr | Some v \<Rightarrow> json_array_add arr v) vs json_create_array"

definition switch_to_json :: "string \<Rightarrow> switch \<Rightarrow> json_value" where
  "switch_to_json name sw =
    add (add (add json_create_object ''name'' (json_create_string name))
          ''num_ports'' (json_create_number (real (nb_num (sw_base sw)))))
        ''vlans'' (add_all (map (\<lambda>p. port_to_json p (sw_ports sw ! p)) [0..<nb_num (sw_base sw)]))"

definition router_interface_to_json :: "router \<Rightarrow> nat \<Rightarrow> json_value option" where
  "router_interface_to_json rtr p =
    (if \<not> ri_has_ip (r_ips rtr ! p) then None
     else
       let intf = add (add json_create_object ''port'' (json_create_number (real (p + 1))))
             ''ip_address'' (json_create_string (ip_address_to_string (ri_ip (r_ips rtr ! p)) 64))
       in Some (if 0 < r_vlans rtr ! p then add intf ''vlan_id'' (json_create_number (of_int (r_vlans rtr ! p))) else intf))"

definition route_to_json :: "route \<Rightarrow> json_value" where
  "route_to_json e =
    add (add (add json_create_object ''destination'' (json_create_string (ip_to_string (rt_destination e) 64 True)))
          ''next_hop'' (json_create_string (ip_to_string (rt_next_hop e) 64 False)))
        ''interface'' (json_create_number (of_int (rt_out_interface e)))"

definition router_to_json :: "string \<Rightarrow> router \<Rightarrow> json_value" where
  "router_to_json name rtr =
    add (add (add json_create_object ''name'' (json_create_string name))
          ''interfaces'' (add_all (map (router_interface_to_json rtr) [0..<nb_num (r_base rtr)])))
        ''routing_table'' (add_all (map (Some \<circ> route_to_json) (r_routes rtr)))"

text \<open>\<^verbatim>\<open>snprintf\<close> of an end point, and a link that is in use.\<close>

definition endpoint_string :: "world \<Rightarrow> iface_ref \<Rightarrow> string option" where
  "endpoint_string w r = do {
    f \<leftarrow> get_iface r w;
    n \<leftarrow> if_node f;
    nd \<leftarrow> w_nodes w n;
    Some (take 127 (nb_name (node_base_of nd) @ '':'' @ decimal (if_port f)))
  }"

definition link_to_json :: "world \<Rightarrow> link \<Rightarrow> json_value option option" where
  "link_to_json w lk =
    (case (ln_if1 lk, ln_if2 lk) of
       (Some a, Some b) \<Rightarrow> do {
         ep1 \<leftarrow> endpoint_string w a;
         ep2 \<leftarrow> endpoint_string w b;
         Some (Some (add (add json_create_object
             ''endpoints'' (json_array_add (json_array_add json_create_array (json_create_string ep1)) (json_create_string ep2)))
             ''delay'' (json_create_number (ln_delay lk))))
       }
     | _ \<Rightarrow> Some None)"

text \<open>One of the three loops over the nodes: the entries of a type, read as this type.\<close>

definition node_to_json :: "world \<Rightarrow> simulator_node_type \<Rightarrow> simulator_node_entry \<Rightarrow> json_value option option" where
  "node_to_json w ty e =
    (if en_type e \<noteq> ty then Some None
     else do {
       n \<leftarrow> en_node e;
       case ty of
         SIM_NODE_HOST \<Rightarrow> do { h \<leftarrow> get_host n w; Some (Some (host_to_json (en_name e) h)) }
       | SIM_NODE_SWITCH \<Rightarrow> do { sw \<leftarrow> get_switch n w; Some (Some (switch_to_json (en_name e) sw)) }
       | SIM_NODE_ROUTER \<Rightarrow> do { r \<leftarrow> get_router n w; Some (Some (router_to_json (en_name e) r)) }
     })"

primrec traverse :: "('a \<Rightarrow> 'b option) \<Rightarrow> 'a list \<Rightarrow> 'b list option" where
  "traverse f [] = Some []"
| "traverse f (x # xs) = do { y \<leftarrow> f x; ys \<leftarrow> traverse f xs; Some (y # ys) }"

definition simulator_to_json :: "simulator \<Rightarrow> json_value option" where
  "simulator_to_json s = do {
    hosts \<leftarrow> traverse (node_to_json (si_world s) SIM_NODE_HOST) (si_nodes s);
    switches \<leftarrow> traverse (node_to_json (si_world s) SIM_NODE_SWITCH) (si_nodes s);
    routers \<leftarrow> traverse (node_to_json (si_world s) SIM_NODE_ROUTER) (si_nodes s);
    links \<leftarrow> traverse (link_to_json (si_world s)) (take (si_link_count s) (w_links (si_world s)));
    Some (add (add (add (add json_create_object ''hosts'' (add_all hosts)) ''switches'' (add_all switches))
        ''routers'' (add_all routers)) ''links'' (add_all links))
  }"

definition simulator_save :: "simulator \<Rightarrow> string option" where
  "simulator_save s = do {
    doc \<leftarrow> simulator_to_json s;
    Some (json_write doc 0 @ [CHR 0x0A])
  }"

section \<open>Loading\<close>

definition to_int :: "real \<Rightarrow> int option" where
  "to_int x =
    (let t = (if 0 \<le> x then \<lfloor>x\<rfloor> else \<lceil>x\<rceil>) in if - (2 ^ 31) \<le> t \<and> t < 2 ^ 31 then Some t else None)"

text \<open>What the loops read of a member: a text, a number, the items of an array, if it is one.\<close>

definition text_of :: "json_value \<Rightarrow> string \<Rightarrow> string option" where
  "text_of obj key = (case json_object_get obj key of Some (JSON_STRING s) \<Rightarrow> Some s | _ \<Rightarrow> None)"

definition number_of :: "json_value \<Rightarrow> string \<Rightarrow> real option" where
  "number_of obj key = (case json_object_get obj key of Some (JSON_NUMBER x) \<Rightarrow> Some x | _ \<Rightarrow> None)"

definition items_of :: "json_value \<Rightarrow> string \<Rightarrow> json_value list" where
  "items_of obj key = (case json_object_get obj key of Some (JSON_ARRAY vs) \<Rightarrow> vs | _ \<Rightarrow> [])"

fun is_object :: "json_value \<Rightarrow> bool" where
  "is_object (JSON_OBJECT ms) = True"
| "is_object v = False"

text \<open>A loop that stops with \<open>False\<close> when a node cannot be created.\<close>

primrec load_each :: "(json_value \<Rightarrow> 's \<Rightarrow> (bool \<times> 's) option) \<Rightarrow> json_value list \<Rightarrow> 's \<Rightarrow> (bool \<times> 's) option" where
  "load_each f [] s = Some (True, s)"
| "load_each f (v # vs) s = do {
    (ok, s) \<leftarrow> (if is_object v then f v s else Some (True, s));
    if ok then load_each f vs s else Some (False, s)
  }"

text \<open>The node that was just created, found by its name.\<close>

definition created_node :: "simulator \<Rightarrow> string \<Rightarrow> node_id option option" where
  "created_node s name =
    (case simulator_find_node s name of None \<Rightarrow> Some None | Some idx \<Rightarrow> map_option Some (en_node (si_nodes s ! idx)))"

definition configure_host :: "json_value \<Rightarrow> host \<Rightarrow> host option" where
  "configure_host h host = do {
    host \<leftarrow> (case text_of h ''ip_address'' of
        None \<Rightarrow> Some host
      | Some str \<Rightarrow> do {
          (ok, ip) \<leftarrow> parse_ip_address str (h_ip host);
          Some (if ok then host\<lparr>h_ip := ip, h_has_ip := True\<rparr> else host\<lparr>h_ip := ip\<rparr>)
        });
    (case text_of h ''default_gateway'' of
        None \<Rightarrow> Some host
      | Some str \<Rightarrow>
          if h_has_ip host then do {
            (_, gw) \<leftarrow> parse_ip_address str (h_gateway host);
            Some (host\<lparr>h_gateway := gw\<rparr>)
          } else Some host)
  }"

definition load_host :: "(nat \<Rightarrow> u32) \<Rightarrow> json_value \<Rightarrow> simulator \<Rightarrow> (bool \<times> simulator) option" where
  "load_host rnd h s =
    (case text_of h ''name'' of
       None \<Rightarrow> Some (True, s)
     | Some host_name \<Rightarrow>
         let (ok, s) = simulator_create_node rnd ''host'' host_name 1 s
         in if \<not> ok then Some (False, s)
            else do {
              node \<leftarrow> created_node s host_name;
              case node of
                None \<Rightarrow> Some (True, s)
              | Some n \<Rightarrow> do {
                  host \<leftarrow> get_host n (si_world s);
                  host \<leftarrow> configure_host h host;
                  Some (True, s\<lparr>si_world := put_host n host (si_world s)\<rparr>)
                }
            })"

definition configure_port :: "json_value \<Rightarrow> switch \<Rightarrow> (bool \<times> switch) option" where
  "configure_port v sw =
    (case (number_of v ''port'', text_of v ''mode'') of
       (Some port, Some mode) \<Rightarrow> do {
         port \<leftarrow> to_int port;
         if mode = ''access'' then do {
           vlan_id \<leftarrow> (case number_of v ''vlan_id'' of None \<Rightarrow> Some SWITCH_DEFAULT_VLAN_ID | Some x \<Rightarrow> to_int x);
           Some (True, snd (switch_set_access_port sw port vlan_id))
         }
         else if mode = ''trunk'' then Some (True, snd (switch_set_trunk_port sw port))
         else Some (True, sw)
       }
     | _ \<Rightarrow> Some (True, sw))"

definition load_switch :: "(nat \<Rightarrow> u32) \<Rightarrow> json_value \<Rightarrow> simulator \<Rightarrow> (bool \<times> simulator) option" where
  "load_switch rnd j s =
    (case text_of j ''name'' of
       None \<Rightarrow> Some (True, s)
     | Some sw_name \<Rightarrow> do {
         num_ports \<leftarrow> (case number_of j ''num_ports'' of None \<Rightarrow> Some 24 | Some x \<Rightarrow> to_int x);
         let (ok, s) = simulator_create_node rnd ''switch'' sw_name num_ports s;
         if \<not> ok then Some (False, s)
         else do {
           node \<leftarrow> created_node s sw_name;
           case node of
             None \<Rightarrow> Some (True, s)
           | Some n \<Rightarrow> do {
               sw \<leftarrow> get_switch n (si_world s);
               (_, sw) \<leftarrow> load_each configure_port (items_of j ''vlans'') sw;
               Some (True, s\<lparr>si_world := put_switch n sw (si_world s)\<rparr>)
             }
         }
       })"

definition configure_interface :: "json_value \<Rightarrow> router \<Rightarrow> (bool \<times> router) option" where
  "configure_interface intf rtr =
    (case (number_of intf ''port'', text_of intf ''ip_address'') of
       (Some port, Some str) \<Rightarrow> do {
         port \<leftarrow> to_int port;
         if port < 1 \<or> int (nb_num (r_base rtr)) < port then Some (True, rtr)
         else do {
           let p = nat (port - 1);
           (ok, ip) \<leftarrow> parse_ip_address str (ri_ip (r_ips rtr ! p));
           let a = (if ok then \<lparr>ri_port = nat port, ri_ip = ip, ri_has_ip = True\<rparr> else (r_ips rtr ! p)\<lparr>ri_ip := ip\<rparr>);
           let rtr = rtr\<lparr>r_ips := (r_ips rtr)[p := a]\<rparr>;
           case number_of intf ''vlan_id'' of
             None \<Rightarrow> Some (True, rtr)
           | Some x \<Rightarrow> do {
               vlan_id \<leftarrow> to_int x;
               Some (True, rtr\<lparr>r_vlans := (r_vlans rtr)[p := vlan_id]\<rparr>)
             }
         }
       }
     | _ \<Rightarrow> Some (True, rtr))"

definition load_route :: "json_value \<Rightarrow> router \<Rightarrow> (bool \<times> router) option" where
  "load_route route rtr =
    (case (text_of route ''destination'', number_of route ''interface'') of
       (Some dst, Some iface) \<Rightarrow> do {
         (ok, destination) \<leftarrow> parse_ip_address dst zero_ip;
         if \<not> ok then Some (True, rtr)
         else do {
           next_hop \<leftarrow> (case text_of route ''next_hop'' of
               None \<Rightarrow> Some (ip_init (Octets 0 0 0 0) 0)
             | Some str \<Rightarrow> map_option snd (parse_ip_address str (ip_init (Octets 0 0 0 0) 0)));
           out_interface \<leftarrow> to_int iface;
           Some (True, snd (router_add_route rtr destination next_hop out_interface))
         }
       }
     | _ \<Rightarrow> Some (True, rtr))"

definition configure_router :: "json_value \<Rightarrow> router \<Rightarrow> router option" where
  "configure_router j rtr = do {
    (_, rtr) \<leftarrow> load_each configure_interface (items_of j ''interfaces'') rtr;
    let rtr = snd (router_add_direct_routes rtr);
    (_, rtr) \<leftarrow> load_each load_route (items_of j ''routing_table'') rtr;
    Some rtr
  }"

definition load_router :: "(nat \<Rightarrow> u32) \<Rightarrow> json_value \<Rightarrow> simulator \<Rightarrow> (bool \<times> simulator) option" where
  "load_router rnd j s =
    (case text_of j ''name'' of
       None \<Rightarrow> Some (True, s)
     | Some rtr_name \<Rightarrow> do {
         let (ok, s) = simulator_create_node rnd ''router'' rtr_name 8 s;
         if \<not> ok then Some (False, s)
         else do {
           node \<leftarrow> created_node s rtr_name;
           case node of
             None \<Rightarrow> Some (True, s)
           | Some n \<Rightarrow> do {
               rtr \<leftarrow> get_router n (si_world s);
               rtr \<leftarrow> configure_router j rtr;
               Some (True, s\<lparr>si_world := put_router n rtr (si_world s)\<rparr>)
             }
         }
       })"

definition load_link :: "json_value \<Rightarrow> simulator \<Rightarrow> (bool \<times> simulator) option" where
  "load_link l s =
    (case items_of l ''endpoints'' of
       JSON_STRING ep1 # JSON_STRING ep2 # _ \<Rightarrow> do {
         let delay = (case number_of l ''delay'' of None \<Rightarrow> 0 | Some x \<Rightarrow> x);
         (_, s) \<leftarrow> simulator_link ep1 ep2 delay s;
         Some (True, s)
       }
     | _ \<Rightarrow> Some (True, s))"

definition simulator_load_json :: "sender \<Rightarrow> (nat \<Rightarrow> u32) \<Rightarrow> json_value \<Rightarrow> simulator \<Rightarrow> (bool \<times> simulator) option" where
  "simulator_load_json send rnd doc s = do {
    (_, w) \<leftarrow> http_server_stop send (si_world s);
    let s = simulator_clear (s\<lparr>si_world := magi_socket_reset_all (dns_server_detach_host (dhcp_server_detach_host w))\<rparr>);
    (ok, s) \<leftarrow> load_each (load_host rnd) (items_of doc ''hosts'') s;
    if \<not> ok then Some (False, s)
    else do {
      (ok, s) \<leftarrow> load_each (load_switch rnd) (items_of doc ''switches'') s;
      if \<not> ok then Some (False, s)
      else do {
        (ok, s) \<leftarrow> load_each (load_router rnd) (items_of doc ''routers'') s;
        if \<not> ok then Some (False, s)
        else load_each load_link (items_of doc ''links'') s
      }
    }
  }"

definition simulator_load :: "sender \<Rightarrow> (nat \<Rightarrow> u32) \<Rightarrow> string \<Rightarrow> simulator \<Rightarrow> (bool \<times> simulator) option" where
  "simulator_load send rnd content s =
    (if content = [] then Some (False, s)
     else case json_parse content of
       None \<Rightarrow> Some (False, s)
     | Some doc \<Rightarrow> if \<not> is_object doc then Some (False, s) else simulator_load_json send rnd doc s)"

end
