(* ===== verification/Loader_Roundtrip.thy ===== *)
theory Loader_Roundtrip
  imports Loader Json_Roundtrip Switch_Vlan Routing
begin

text \<open>
  What is saved can be loaded: the tree that is built for a file is within the limits of the JSON
  parser, and the parts of a configuration are read back as they were.
\<close>

section \<open>Building trees\<close>

definition good :: "nat \<Rightarrow> json_value \<Rightarrow> bool" where
  "good d v \<longleftrightarrow> json_ok d v \<and> exact_numbers v"

definition good_object :: "nat \<Rightarrow> json_value \<Rightarrow> bool" where
  "good_object d v \<longleftrightarrow> is_object v \<and> good d v"

named_theorems building

lemma is_objectE: "is_object v \<Longrightarrow> (\<And>ms. v = JSON_OBJECT ms \<Longrightarrow> P) \<Longrightarrow> P"
  by (cases v) simp_all

lemma exact_members_append [simp]: "exact_members (ms @ ms') \<longleftrightarrow> exact_members ms \<and> exact_members ms'"
  by (induction ms) auto

lemma exact_items_append [simp]: "exact_items (vs @ vs') \<longleftrightarrow> exact_items vs \<and> exact_items vs'"
  by (induction vs) auto

lemma good_text [building]: "CHR 0x00 \<notin> set s \<Longrightarrow> good d (json_create_string s)"
  by (auto simp: good_def json_create_string_def json_text_ok_def dest: in_set_takeD)

lemma good_number [building]: "exact_number x \<Longrightarrow> good d (json_create_number x)"
  by (simp add: good_def json_create_number_def)

lemma good_object_empty [building]: "0 < d \<Longrightarrow> good_object d json_create_object"
  by (simp add: good_object_def good_def json_create_object_def)

lemma good_object_add [building]:
  "good_object d obj \<Longrightarrow> CHR 0x00 \<notin> set key \<Longrightarrow> good (d - 1) v \<Longrightarrow> good_object d (json_object_add obj key v)"
  by (auto simp: good_object_def good_def json_object_add_def json_text_ok_def dest: in_set_takeD elim!: is_objectE)

lemma good_objectD: "good_object d v \<Longrightarrow> good d v"
  by (simp add: good_object_def)

definition good_array :: "nat \<Rightarrow> json_value \<Rightarrow> bool" where
  "good_array d v \<longleftrightarrow> (\<exists>vs. v = JSON_ARRAY vs) \<and> good d v"

lemma good_arrayD: "good_array d v \<Longrightarrow> good d v"
  by (simp add: good_array_def)

lemma good_array_empty [building]: "0 < d \<Longrightarrow> good_array d json_create_array"
  by (simp add: good_array_def good_def json_create_array_def)

lemma good_array_add [building]: "good_array d arr \<Longrightarrow> good (d - 1) v \<Longrightarrow> good_array d (json_array_add arr v)"
  by (auto simp: good_array_def good_def json_array_add_def)

lemma good_add_all [building]: "0 < d \<Longrightarrow> (\<And>v. Some v \<in> set vs \<Longrightarrow> good (d - 1) v) \<Longrightarrow> good_array d (add_all vs)"
proof -
  have "good_array d arr \<Longrightarrow> (\<And>v. Some v \<in> set vs \<Longrightarrow> good (d - 1) v) \<Longrightarrow>
      good_array d (fold (\<lambda>v arr. case v of None \<Rightarrow> arr | Some v \<Rightarrow> json_array_add arr v) vs arr)" for arr
    by (induction vs arbitrary: arr) (auto simp: good_array_add split: option.split)
  then show "0 < d \<Longrightarrow> (\<And>v. Some v \<in> set vs \<Longrightarrow> good (d - 1) v) \<Longrightarrow> good_array d (add_all vs)"
    by (simp add: add_all_def good_array_empty)
qed

text \<open>Which of the shapes a tree has.\<close>

lemma good_shapes [building]:
  "good_object d (json_object_add obj key v) \<Longrightarrow> good d (json_object_add obj key v)"
  "good_array d (json_array_add arr v) \<Longrightarrow> good d (json_array_add arr v)"
  "good_array d (add_all vs) \<Longrightarrow> good d (add_all vs)"
  by (simp_all add: good_objectD good_arrayD)

section \<open>What is saved is readable\<close>

text \<open>A C \<^verbatim>\<open>int\<close>.\<close>

abbreviation c_int :: "int \<Rightarrow> bool" where
  "c_int v \<equiv> - (2 ^ 31) \<le> v \<and> v < 2 ^ 31"

lemma exact_c_int: "c_int v \<Longrightarrow> exact_number (of_int v)"
proof -
  assume v: "c_int v"
  then have "\<bar>v\<bar> \<le> 2 ^ 53" by auto
  then have "real_of_int \<bar>v\<bar> \<le> real_of_int (2 ^ 53)" by (simp only: of_int_le_iff)
  then show ?thesis by (simp add: exact_number_def)
qed

lemma exact_small: "n < 2 ^ 31 \<Longrightarrow> exact_number (real n)"
  using exact_c_int [of "int n"] by simp

lemma ip_text_clean: "CHR 0x00 \<notin> set (ip_to_string ip n b)"
  using decimal_no_zero by (auto simp: ip_to_string_def Let_def split: octets.split dest!: in_set_takeD)

definition saveable_node :: "node \<Rightarrow> bool" where
  "saveable_node nd \<longleftrightarrow> nb_num (node_base_of nd) < 2 ^ 31 \<and>
    (case nd of
       HostNode h \<Rightarrow> True
     | SwitchNode sw \<Rightarrow> (\<forall>p < nb_num (sw_base sw). c_int (pc_vlan_id (sw_ports sw ! p)))
     | RouterNode r \<Rightarrow> (\<forall>p < nb_num (r_base r). c_int (r_vlans r ! p)) \<and>
         (\<forall>e \<in> set (r_routes r). c_int (rt_out_interface e)))"

lemma good_host: "CHR 0x00 \<notin> set name \<Longrightarrow> 2 \<le> d \<Longrightarrow> good_object d (host_to_json name h)"
  by (auto simp: host_to_json_def Let_def ip_address_to_string_def ip_text_clean intro!: building)

lemma good_port: "c_int (pc_vlan_id cfg) \<Longrightarrow> p < 2 ^ 31 - 1 \<Longrightarrow> 2 \<le> d \<Longrightarrow> port_to_json p cfg = Some v \<Longrightarrow> good d v"
  using exact_small [of "p + 1"]
  by (auto simp: port_to_json_def Let_def intro!: building exact_c_int split: if_split_asm)

lemma good_switch:
  assumes "CHR 0x00 \<notin> set name" "4 \<le> d" "nb_num (sw_base sw) < 2 ^ 31" "\<And>p. p < nb_num (sw_base sw) \<Longrightarrow> c_int (pc_vlan_id (sw_ports sw ! p))"
  shows "good_object d (switch_to_json name sw)"
  unfolding switch_to_json_def
  using assms by (intro building exact_small) (auto intro!: good_port simp del: upt_Suc)

lemma good_router_interface:
  "c_int (r_vlans r ! p) \<Longrightarrow> p < 2 ^ 31 - 1 \<Longrightarrow> 2 \<le> d \<Longrightarrow> router_interface_to_json r p = Some v \<Longrightarrow> good d v"
  using exact_small [of "p + 1"]
  by (auto simp: router_interface_to_json_def Let_def ip_address_to_string_def ip_text_clean
      intro!: building exact_c_int split: if_split_asm)

lemma good_route: "c_int (rt_out_interface e) \<Longrightarrow> 2 \<le> d \<Longrightarrow> good d (route_to_json e)"
  by (auto simp: route_to_json_def ip_text_clean intro!: building exact_c_int)

lemma good_router:
  assumes "CHR 0x00 \<notin> set name" "4 \<le> d" "nb_num (r_base r) < 2 ^ 31" "\<And>p. p < nb_num (r_base r) \<Longrightarrow> c_int (r_vlans r ! p)"
    "\<And>e. e \<in> set (r_routes r) \<Longrightarrow> c_int (rt_out_interface e)"
  shows "good_object d (router_to_json name r)"
  unfolding router_to_json_def
  using assms by (intro building) (auto intro!: good_router_interface good_route simp del: upt_Suc)

definition saveable :: "simulator \<Rightarrow> bool" where
  "saveable s \<longleftrightarrow> (\<forall>e \<in> set (si_nodes s). CHR 0x00 \<notin> set (en_name e)) \<and>
     (\<forall>n nd. w_nodes (si_world s) n = Some nd \<longrightarrow> saveable_node nd \<and> CHR 0x00 \<notin> set (nb_name (node_base_of nd))) \<and>
     (\<forall>lk \<in> set (take (si_link_count s) (w_links (si_world s))). exact_number (ln_delay lk))"

lemma traverse_mem: "traverse f xs = Some ys \<Longrightarrow> y \<in> set ys \<Longrightarrow> \<exists>x \<in> set xs. f x = Some y"
  by (induction xs arbitrary: ys) (auto simp: bind_eq_Some_conv)

lemma good_node:
  assumes "saveable s" "e \<in> set (si_nodes s)" "node_to_json (si_world s) ty e = Some (Some v)" "4 \<le> d"
  shows "good d v"
proof -
  have name: "CHR 0x00 \<notin> set (en_name e)" using assms(1,2) by (simp add: saveable_def)
  obtain n where n: "en_node e = Some n" using assms(3) by (auto simp: node_to_json_def bind_eq_Some_conv split: if_split_asm)
  have ok: "saveable_node nd" if "w_nodes (si_world s) n = Some nd" for nd using assms(1) that by (auto simp: saveable_def)
  show ?thesis
  proof (cases ty)
    case SIM_NODE_HOST
    then show ?thesis
      using assms(3,4) n name by (auto simp: node_to_json_def bind_eq_Some_conv intro!: good_objectD good_host split: if_split_asm)
  next
    case SIM_NODE_SWITCH
    then obtain sw where "get_switch n (si_world s) = Some sw" "v = switch_to_json (en_name e) sw"
      using assms(3) n by (auto simp: node_to_json_def bind_eq_Some_conv split: if_split_asm)
    then show ?thesis
      using name assms(4) ok by (auto simp: get_switch_def saveable_node_def intro!: good_objectD good_switch split: option.splits node.splits)
  next
    case SIM_NODE_ROUTER
    then obtain r where "get_router n (si_world s) = Some r" "v = router_to_json (en_name e) r"
      using assms(3) n by (auto simp: node_to_json_def bind_eq_Some_conv split: if_split_asm)
    then show ?thesis
      using name assms(4) ok by (auto simp: get_router_def saveable_node_def intro!: good_objectD good_router split: option.splits node.splits)
  qed
qed

lemma endpoint_clean: "saveable s \<Longrightarrow> endpoint_string (si_world s) r = Some t \<Longrightarrow> CHR 0x00 \<notin> set t"
  using decimal_no_zero by (auto simp: endpoint_string_def saveable_def bind_eq_Some_conv dest!: in_set_takeD)

lemma good_link:
  assumes "saveable s" "lk \<in> set (take (si_link_count s) (w_links (si_world s)))" "link_to_json (si_world s) lk = Some (Some v)" "3 \<le> d"
  shows "good d v"
proof -
  have "exact_number (ln_delay lk)" using assms(1,2) by (simp add: saveable_def)
  then show ?thesis
    using assms(3,4) endpoint_clean [OF assms(1)]
    by (auto simp: link_to_json_def bind_eq_Some_conv intro!: building split: option.split_asm)
qed

lemma good_document:
  assumes "saveable s" "simulator_to_json s = Some doc"
  shows "good 32 doc"
proof -
  obtain hs sws rs ls where t: "traverse (node_to_json (si_world s) SIM_NODE_HOST) (si_nodes s) = Some hs"
      "traverse (node_to_json (si_world s) SIM_NODE_SWITCH) (si_nodes s) = Some sws"
      "traverse (node_to_json (si_world s) SIM_NODE_ROUTER) (si_nodes s) = Some rs"
      "traverse (link_to_json (si_world s)) (take (si_link_count s) (w_links (si_world s))) = Some ls"
    and doc: "doc = json_object_add (json_object_add (json_object_add (json_object_add json_create_object ''hosts'' (add_all hs))
        ''switches'' (add_all sws)) ''routers'' (add_all rs)) ''links'' (add_all ls)"
    using assms(2) by (auto simp: simulator_to_json_def bind_eq_Some_conv)
  have nodes: "good 30 v" if "traverse (node_to_json (si_world s) ty) (si_nodes s) = Some vs" "Some v \<in> set vs" for ty vs v
    using traverse_mem [OF that] good_node [OF assms(1)] by auto
  have links: "good 30 v" if "Some v \<in> set ls" for v
    using traverse_mem [OF t(4) that] good_link [OF assms(1)] by auto
  show ?thesis
    unfolding doc using nodes [OF t(1)] nodes [OF t(2)] nodes [OF t(3)] links
    by (intro building) simp_all
qed

text \<open>C27. A saved topology is always a file that the parser accepts, and what it reads is the tree that
  was built: for every simulator whose names and configuration are C strings and C integers and
  whose delays are whole numbers of milliseconds.\<close>

theorem saved_file_readable:
  assumes "saveable s" "simulator_save s = Some content"
  shows "json_parse content = simulator_to_json s \<and> json_parse content \<noteq> None"
proof -
  obtain doc where doc: "simulator_to_json s = Some doc" "content = json_write doc 0 @ [CHR 0x0A]"
    using assms(2) by (auto simp: simulator_save_def bind_eq_Some_conv)
  have "good 32 doc" by (rule good_document [OF assms(1) doc(1)])
  then have "json_parse content = Some doc"
    unfolding doc(2) by (intro json_roundtrip) (simp_all add: good_def)
  then show ?thesis using doc(1) by simp
qed

text \<open>The witness: a host with an address.\<close>

theorem saved_file_readable_witness:
  "\<exists>s content. si_nodes s \<noteq> [] \<and> simulator_save s = Some content \<and> json_parse content = simulator_to_json s"
proof -
  obtain h :: host where h: "h_has_ip h" "nb_num (h_base h) = 1" "nb_name (h_base h) = ''pc''"
    by (rule that [of "(undefined :: host)\<lparr>h_has_ip := True, h_base := (undefined :: node_base)\<lparr>nb_num := 1, nb_name := ''pc''\<rparr>\<rparr>"])
      simp_all
  obtain s :: simulator where s: "si_nodes s = [\<lparr>en_name = ''pc'', en_type = SIM_NODE_HOST, en_node = Some 0\<rparr>]"
      "w_nodes (si_world s) = [0 \<mapsto> HostNode h]" "si_link_count s = 0"
    by (rule that [of "(undefined :: simulator)\<lparr>si_nodes := [\<lparr>en_name = ''pc'', en_type = SIM_NODE_HOST, en_node = Some 0\<rparr>],
        si_world := (undefined :: world)\<lparr>w_nodes := [0 \<mapsto> HostNode h]\<rparr>, si_link_count := 0\<rparr>"]) simp_all
  have "saveable s" using s h by (auto simp: saveable_def saveable_node_def)
  moreover have "\<exists>content. simulator_save s = Some content"
    using s by (simp add: simulator_save_def simulator_to_json_def node_to_json_def get_host_def)
  moreover have "si_nodes s \<noteq> []" using s by simp
  ultimately show ?thesis using saved_file_readable by blast
qed

section \<open>What is loaded is what was saved\<close>

lemma object_add_simps [simp]:
  "length key < JSON_MAX_STRING \<Longrightarrow> json_object_add (JSON_OBJECT ms) key v = JSON_OBJECT (ms @ [(key, v)])"
  by (simp add: json_object_add_def)

lemma create_simps [simp]:
  "json_create_object = JSON_OBJECT []" "length s < JSON_MAX_STRING \<Longrightarrow> json_create_string s = JSON_STRING s"
  "json_create_number x = JSON_NUMBER x"
  by (simp_all add: json_create_object_def json_create_string_def json_create_number_def)

lemma ip_text_length: "length (ip_to_string ip n b) < n \<or> n = 0 \<and> ip_to_string ip n b = []"
  by (cases "octet ip") (auto simp: ip_to_string_def Let_def)

lemma ip_text_short [simp]: "length (ip_to_string ip 64 b) < JSON_MAX_STRING"
  using ip_text_length [of ip 64 b] by simp

lemma ip_text_parsed:
  assumes "prefix ip \<le> 32"
  shows "parse_ip_address (ip_address_to_string ip 64) out_ip = Some (True, ip)"
proof (cases "0 < prefix ip")
  case True
  have "unat (prefix ip) \<le> 32" using assms by (simp add: word_le_nat_alt)
  from ip_parse_dotted_prefix [OF this, of "octet ip" out_ip] show ?thesis
    using True by (simp add: ip_to_string_dotted parse_ip_address_def ip_address_to_string_def)
next
  case False
  then have "prefix ip = 0" by (simp add: word_gt_0)
  then show ?thesis
    using ip_parse_dotted [of "octet ip" out_ip]
    by (simp add: ip_to_string_dotted parse_ip_address_def ip_address_to_string_def)
qed

lemma ip_address_text_short [simp]: "length (ip_address_to_string ip 64) < JSON_MAX_STRING"
  by (simp add: ip_address_to_string_def)

lemma host_restored:
  assumes "h_has_ip h" "prefix (h_ip h) \<le> 32" "prefix (h_gateway h) \<le> 32"
  shows "configure_host (host_to_json name h) h0 = Some (h0\<lparr>h_ip := h_ip h, h_has_ip := True, h_gateway := h_gateway h\<rparr>)"
  using assms
  by (simp add: configure_host_def host_to_json_def Let_def text_of_def ip_text_parsed)

text \<open>The ports of a switch.\<close>

lemma load_each_append:
  "load_each f (xs @ ys) s = do { (ok, s) \<leftarrow> load_each f xs s; if ok then load_each f ys s else Some (False, s) }"
  by (induction xs arbitrary: s) (auto simp: bind_eq_Some_conv split: Option.bind_split)

lemma add_all_items:
  "length vs \<le> JSON_MAX_ARRAY \<Longrightarrow> add_all vs = JSON_ARRAY (List.map_filter (\<lambda>v. v) vs)"
proof -
  have "length us + length vs \<le> JSON_MAX_ARRAY \<Longrightarrow>
      fold (\<lambda>v arr. case v of None \<Rightarrow> arr | Some v \<Rightarrow> json_array_add arr v) vs (JSON_ARRAY us) =
      JSON_ARRAY (us @ List.map_filter (\<lambda>v. v) vs)" for us
  proof (induction vs arbitrary: us)
    case (Cons v vs)
    then show ?case by (cases v) (simp_all add: map_filter_simps json_array_add_def)
  qed (simp add: map_filter_simps)
  from this [of "[]"] show "length vs \<le> JSON_MAX_ARRAY \<Longrightarrow> add_all vs = JSON_ARRAY (List.map_filter (\<lambda>v. v) vs)"
    by (simp add: add_all_def json_create_array_def)
qed

abbreviation default_port :: switch_port_config where
  "default_port \<equiv> \<lparr>pc_mode = SWITCH_PORT_ACCESS, pc_vlan_id = SWITCH_DEFAULT_VLAN_ID\<rparr>"

definition wf_ports :: "switch \<Rightarrow> bool" where
  "wf_ports sw \<longleftrightarrow> nb_num (sw_base sw) \<le> MAX_PORT \<and> length (sw_ports sw) = MAX_PORT \<and>
     (\<forall>p < nb_num (sw_base sw). case pc_mode (sw_ports sw ! p) of
        SWITCH_PORT_ACCESS \<Rightarrow> 1 \<le> pc_vlan_id (sw_ports sw ! p) \<and> c_int (pc_vlan_id (sw_ports sw ! p))
      | SWITCH_PORT_TRUNK \<Rightarrow> pc_vlan_id (sw_ports sw ! p) = 0) \<and>
     (\<forall>p. nb_num (sw_base sw) \<le> p \<and> p < MAX_PORT \<longrightarrow> sw_ports sw ! p = default_port)"

lemma to_int_of_int: "c_int v \<Longrightarrow> to_int (of_int v) = Some v"
  by (simp add: to_int_def)

lemma port_restored:
  assumes "wf_ports sw" "p < nb_num (sw_base sw)" "nb_num (sw_base sw0) = nb_num (sw_base sw)"
    and "length (sw_ports sw0) = MAX_PORT" "sw_ports sw0 ! p = default_port"
  shows "load_each configure_port (List.map_filter (\<lambda>v. v) [port_to_json p (sw_ports sw ! p)]) sw0 =
    Some (True, sw0\<lparr>sw_ports := (sw_ports sw0)[p := sw_ports sw ! p]\<rparr>)"
proof -
  obtain m v where cfg: "sw_ports sw ! p = \<lparr>pc_mode = m, pc_vlan_id = v\<rparr>" by (cases "sw_ports sw ! p")
  have port: "to_int (1 + real p) = Some (int p + 1)" "valid_port sw0 (int p + 1)"
    using assms(1-3) to_int_of_int [of "int p + 1"] by (simp_all add: wf_ports_def valid_port_def add.commute)
  show ?thesis
  proof (cases m)
    case SWITCH_PORT_ACCESS
    then have v: "1 \<le> v" "c_int v" using assms(1,2) cfg by (auto simp: wf_ports_def split: switch_port_mode.splits)
    show ?thesis
    proof (cases "v = SWITCH_DEFAULT_VLAN_ID")
      case True
      have "(sw_ports sw0)[p := default_port] = sw_ports sw0" using assms(5) list_update_id [of "sw_ports sw0" p] by simp
      then show ?thesis using True SWITCH_PORT_ACCESS cfg by (simp add: port_to_json_def map_filter_simps)
    next
      case False
      then show ?thesis
        using v SWITCH_PORT_ACCESS cfg port to_int_of_int [OF v(2)]
        by (simp add: port_to_json_def map_filter_simps configure_port_def number_of_def text_of_def Let_def
            switch_set_access_port_def)
    qed
  next
    case SWITCH_PORT_TRUNK
    then have "v = 0" using assms(1,2) cfg by (auto simp: wf_ports_def split: switch_port_mode.splits)
    then show ?thesis
      using SWITCH_PORT_TRUNK cfg port
      by (simp add: port_to_json_def map_filter_simps configure_port_def number_of_def text_of_def Let_def
          switch_set_trunk_port_def)
  qed
qed

lemma take_drop_update:
  "n < length xs \<Longrightarrow> n < length ys \<Longrightarrow> (take n xs @ drop n ys)[n := xs ! n] = take (Suc n) xs @ drop (Suc n) ys"
  by (simp add: list_update_append take_Suc_conv_app_nth Cons_nth_drop_Suc [symmetric])

lemma ports_restored:
  assumes "wf_ports sw" "nb_num (sw_base sw0) = nb_num (sw_base sw)" "sw_ports sw0 = replicate MAX_PORT default_port"
  shows "n \<le> nb_num (sw_base sw) \<Longrightarrow>
    load_each configure_port (List.map_filter (\<lambda>v. v) (map (\<lambda>p. port_to_json p (sw_ports sw ! p)) [0..<n])) sw0 =
    Some (True, sw0\<lparr>sw_ports := take n (sw_ports sw) @ drop n (replicate MAX_PORT default_port)\<rparr>)"
proof (induction n)
  case 0
  have "sw0\<lparr>sw_ports := replicate MAX_PORT default_port\<rparr> = sw0" unfolding assms(3) [symmetric] by simp
  then show ?case by (simp add: map_filter_simps)
next
  case (Suc n)
  let ?def = "replicate MAX_PORT default_port"
  let ?sw = "sw0\<lparr>sw_ports := take n (sw_ports sw) @ drop n ?def\<rparr>"
  have n: "n < MAX_PORT" "length (sw_ports sw) = MAX_PORT" using Suc.prems assms(1) by (auto simp: wf_ports_def)
  have "load_each configure_port (List.map_filter (\<lambda>v. v) [port_to_json n (sw_ports sw ! n)]) ?sw =
      Some (True, ?sw\<lparr>sw_ports := (sw_ports ?sw)[n := sw_ports sw ! n]\<rparr>)"
    using Suc.prems n assms by (intro port_restored) (simp_all add: nth_append)
  moreover have "(take n (sw_ports sw) @ drop n ?def)[n := sw_ports sw ! n] = take (Suc n) (sw_ports sw) @ drop (Suc n) ?def"
    using n by (intro take_drop_update) simp_all
  ultimately show ?case
    using Suc by (simp add: load_each_append map_filter_def)
qed

lemma switch_restored:
  assumes "wf_ports sw" "nb_num (sw_base sw0) = nb_num (sw_base sw)" "sw_ports sw0 = replicate MAX_PORT default_port"
    and "length name < JSON_MAX_STRING"
  shows "load_each configure_port (items_of (switch_to_json name sw) ''vlans'') sw0 = Some (True, sw0\<lparr>sw_ports := sw_ports sw\<rparr>)"
proof -
  let ?n = "nb_num (sw_base sw)"
  have "?n \<le> MAX_PORT" "length (sw_ports sw) = MAX_PORT" using assms(1) by (simp_all add: wf_ports_def)
  moreover have "take ?n (sw_ports sw) @ drop ?n (replicate MAX_PORT default_port) = sw_ports sw"
    using assms(1) by (intro nth_equalityI) (auto simp: wf_ports_def nth_append)
  moreover have "items_of (switch_to_json name sw) ''vlans'' =
      List.map_filter (\<lambda>v. v) (map (\<lambda>p. port_to_json p (sw_ports sw ! p)) [0..<?n])"
    using calculation(1) assms(4) by (simp add: switch_to_json_def items_of_def add_all_items del: upt_Suc)
  ultimately show ?thesis using ports_restored [OF assms(1-3), of ?n] by simp
qed

text \<open>The routes of a router.\<close>

lemma next_hop_parsed:
  "parse_ip_address (ip_to_string ip 64 False) out_ip = Some (True, ip\<lparr>prefix := 0\<rparr>)"
  using ip_parse_dotted [of "octet ip" out_ip] by (simp add: ip_to_string_dotted parse_ip_address_def)

lemma destination_parsed:
  assumes "prefix ip \<le> 32"
  shows "parse_ip_address (ip_to_string ip 64 True) out_ip = Some (True, ip)"
proof -
  have "unat (prefix ip) \<le> 32" using assms by (simp add: word_le_nat_alt)
  from ip_parse_dotted_prefix [OF this, of "octet ip" out_ip] show ?thesis
    by (simp add: ip_to_string_dotted parse_ip_address_def)
qed

lemma route_restored:
  assumes "prefix (rt_destination e) \<le> 32" "c_int (rt_out_interface e)"
  shows "load_route (route_to_json e) r =
    Some (True, snd (router_add_route r (rt_destination e) ((rt_next_hop e)\<lparr>prefix := 0\<rparr>) (rt_out_interface e)))"
  using assms
  by (simp add: load_route_def route_to_json_def text_of_def number_of_def destination_parsed next_hop_parsed to_int_of_int)

text \<open>The addresses and VLANs of the ports of a router.\<close>

abbreviation unused_port :: "nat \<Rightarrow> router_interface_address" where
  "unused_port p \<equiv> \<lparr>ri_port = p + 1, ri_ip = zero_ip, ri_has_ip = False\<rparr>"

definition wf_router :: "router \<Rightarrow> bool" where
  "wf_router r \<longleftrightarrow> nb_num (r_base r) \<le> MAX_PORT \<and> length (r_ips r) = MAX_PORT \<and> length (r_vlans r) = MAX_PORT \<and>
     (\<forall>p < MAX_PORT.
        if p < nb_num (r_base r) \<and> ri_has_ip (r_ips r ! p)
        then ri_port (r_ips r ! p) = p + 1 \<and> prefix (ri_ip (r_ips r ! p)) \<le> 32 \<and> 0 \<le> r_vlans r ! p \<and> c_int (r_vlans r ! p)
        else r_ips r ! p = unused_port p \<and> r_vlans r ! p = 0) \<and>
     wf_routes r \<and> (\<forall>e \<in> set (r_routes r). prefix (rt_next_hop e) = 0)"

definition new_router :: "nat \<Rightarrow> router \<Rightarrow> bool" where
  "new_router n r \<longleftrightarrow> nb_num (r_base r) = n \<and> r_ips r = map unused_port [0..<MAX_PORT] \<and>
     r_vlans r = replicate MAX_PORT 0 \<and> r_routes r = []"

lemma wf_router_port:
  assumes "wf_router r" "p < nb_num (r_base r)" "ri_has_ip (r_ips r ! p)"
  shows "ri_port (r_ips r ! p) = p + 1 \<and> prefix (ri_ip (r_ips r ! p)) \<le> 32 \<and> 0 \<le> r_vlans r ! p \<and> c_int (r_vlans r ! p)"
proof -
  have "p < MAX_PORT" using assms(1,2) by (auto simp: wf_router_def)
  then have "if p < nb_num (r_base r) \<and> ri_has_ip (r_ips r ! p)
      then ri_port (r_ips r ! p) = p + 1 \<and> prefix (ri_ip (r_ips r ! p)) \<le> 32 \<and> 0 \<le> r_vlans r ! p \<and> c_int (r_vlans r ! p)
      else r_ips r ! p = unused_port p \<and> r_vlans r ! p = 0"
    using assms(1) unfolding wf_router_def by blast
  then show ?thesis unfolding if_P [OF conjI [OF assms(2,3)]] .
qed

lemma interface_restored:
  assumes "wf_router r" "p < nb_num (r_base r)" "nb_num (r_base r0) = nb_num (r_base r)"
    and "p < length (r_ips r0)" "p < length (r_vlans r0)" "r_ips r0 ! p = unused_port p" "r_vlans r0 ! p = 0"
  shows "load_each configure_interface (List.map_filter (\<lambda>v. v) [router_interface_to_json r p]) r0 =
    Some (True, r0\<lparr>r_ips := (r_ips r0)[p := r_ips r ! p], r_vlans := (r_vlans r0)[p := r_vlans r ! p]\<rparr>)"
proof (cases "ri_has_ip (r_ips r ! p)")
  case True
  have p: "p < MAX_PORT" using assms(1,2) by (auto simp: wf_router_def)
  have w: "ri_port (r_ips r ! p) = p + 1" "prefix (ri_ip (r_ips r ! p)) \<le> 32" "0 \<le> r_vlans r ! p" "c_int (r_vlans r ! p)"
    using wf_router_port [OF assms(1,2) True] by blast+
  have port: "to_int (1 + real p) = Some (int p + 1)"
    using p to_int_of_int [of "int p + 1"] by (simp add: add.commute)
  have a: "r_ips r ! p = \<lparr>ri_port = nat (int p + 1), ri_ip = ri_ip (r_ips r ! p), ri_has_ip = True\<rparr>"
    using w(1) True by (cases "r_ips r ! p") simp
  have none: "r_vlans r ! p = 0 \<Longrightarrow> (r_vlans r0)[p := r_vlans r ! p] = r_vlans r0"
    using assms(7) list_update_id [of "r_vlans r0" p] by simp
  show ?thesis
    using True w(2-4) port assms(2,3) none to_int_of_int [OF w(4)]
    by (subst a) (cases "r_vlans r ! p = 0"; simp add: router_interface_to_json_def map_filter_simps configure_interface_def
        number_of_def text_of_def ip_text_parsed Let_def)
next
  case False
  have "p < MAX_PORT" using assms(1,2) by (auto simp: wf_router_def)
  then have "r_ips r ! p = r_ips r0 ! p" "r_vlans r ! p = r_vlans r0 ! p" using assms(1,6,7) False by (auto simp: wf_router_def)
  then show ?thesis using False by (simp add: router_interface_to_json_def map_filter_simps)
qed

lemma interfaces_restored:
  assumes "wf_router r" "new_router (nb_num (r_base r)) r0"
  shows "n \<le> nb_num (r_base r) \<Longrightarrow>
    load_each configure_interface (List.map_filter (\<lambda>v. v) (map (router_interface_to_json r) [0..<n])) r0 =
    Some (True, r0\<lparr>r_ips := take n (r_ips r) @ drop n (r_ips r0), r_vlans := take n (r_vlans r) @ drop n (r_vlans r0)\<rparr>)"
proof (induction n)
  case (Suc n)
  let ?r = "r0\<lparr>r_ips := take n (r_ips r) @ drop n (r_ips r0), r_vlans := take n (r_vlans r) @ drop n (r_vlans r0)\<rparr>"
  have n: "n < MAX_PORT" "length (r_ips r) = MAX_PORT" "length (r_vlans r) = MAX_PORT" "length (r_ips r0) = MAX_PORT" "length (r_vlans r0) = MAX_PORT"
    using Suc.prems assms by (auto simp: wf_router_def new_router_def)
  have "load_each configure_interface (List.map_filter (\<lambda>v. v) [router_interface_to_json r n]) ?r =
      Some (True, ?r\<lparr>r_ips := (r_ips ?r)[n := r_ips r ! n], r_vlans := (r_vlans ?r)[n := r_vlans r ! n]\<rparr>)"
    using Suc.prems n assms by (intro interface_restored) (simp_all add: nth_append new_router_def)
  moreover have "(take n (r_ips r) @ drop n (r_ips r0))[n := r_ips r ! n] = take (Suc n) (r_ips r) @ drop (Suc n) (r_ips r0)"
    "(take n (r_vlans r) @ drop n (r_vlans r0))[n := r_vlans r ! n] = take (Suc n) (r_vlans r) @ drop (Suc n) (r_vlans r0)"
    using n by (simp_all only: take_drop_update)
  ultimately show ?case using Suc by (simp add: load_each_append map_filter_def)
qed (simp add: map_filter_simps)

lemma all_interfaces_restored:
  assumes "wf_router r" "new_router (nb_num (r_base r)) r0" "length name < JSON_MAX_STRING"
  shows "load_each configure_interface (items_of (router_to_json name r) ''interfaces'') r0 =
    Some (True, r0\<lparr>r_ips := r_ips r, r_vlans := r_vlans r\<rparr>)"
proof -
  let ?n = "nb_num (r_base r)"
  have n: "?n \<le> MAX_PORT" "length (r_ips r) = MAX_PORT" "length (r_vlans r) = MAX_PORT" using assms(1) by (simp_all add: wf_router_def)
  have rest: "\<forall>p. ?n \<le> p \<and> p < MAX_PORT \<longrightarrow> r_ips r ! p = unused_port p \<and> r_vlans r ! p = 0"
    using assms(1) by (auto simp: wf_router_def)
  have "take ?n (r_ips r) @ drop ?n (r_ips r0) = r_ips r" "take ?n (r_vlans r) @ drop ?n (r_vlans r0) = r_vlans r"
    using n rest assms(2) by (intro nth_equalityI; auto simp: nth_append new_router_def)+
  moreover have "items_of (router_to_json name r) ''interfaces'' =
      List.map_filter (\<lambda>v. v) (map (router_interface_to_json r) [0..<?n])"
    using n(1) assms(3) by (simp add: router_to_json_def items_of_def add_all_items del: upt_Suc)
  ultimately show ?thesis using interfaces_restored [OF assms(1,2), of ?n] by simp
qed

text \<open>Routes that are added one after the other.\<close>

definition add_entry :: "route \<Rightarrow> router \<Rightarrow> router" where
  "add_entry e r = snd (router_add_route r (rt_destination e) (rt_next_hop e) (rt_out_interface e))"

definition plain_route :: "nat \<Rightarrow> route \<Rightarrow> bool" where
  "plain_route n e \<longleftrightarrow> 1 \<le> rt_out_interface e \<and> rt_out_interface e \<le> int n \<and> prefix (rt_destination e) \<le> 32 \<and>
     ip_network_address (rt_destination e) = rt_destination e \<and> prefix (rt_next_hop e) = 0"

lemma entry_added:
  assumes "plain_route (nb_num (r_base r)) e" "\<forall>e' \<in> set (r_routes r). prefix (rt_next_hop e') = 0" "e \<notin> set (r_routes r) \<Longrightarrow> length (r_routes r) < ROUTER_MAX_ROUTES"
  shows "add_entry e r = r\<lparr>r_routes := r_routes r @ (if e \<in> set (r_routes r) then [] else [e])\<rparr>"
proof -
  have same: "rt_out_interface e' = rt_out_interface e \<and> prefix (rt_destination e') = prefix (rt_destination e) \<and>
      ip_octets_equal (rt_destination e') (rt_destination e) \<and> ip_octets_equal (rt_next_hop e') (rt_next_hop e) \<longleftrightarrow> e' = e"
    if "e' \<in> set (r_routes r)" for e'
  proof -
    have "prefix (rt_next_hop e') = prefix (rt_next_hop e)" using assms(1,2) that by (simp add: plain_route_def)
    then show ?thesis by (cases e'; cases e) (auto intro!: ip_address.equality simp: ip_octets_equal_def)
  qed
  have "list_ex (\<lambda>e'. rt_out_interface e' = rt_out_interface e \<and> prefix (rt_destination e') = prefix (rt_destination e) \<and>
      ip_octets_equal (rt_destination e') (rt_destination e) \<and> ip_octets_equal (rt_next_hop e') (rt_next_hop e)) (r_routes r) \<longleftrightarrow> e \<in> set (r_routes r)"
    unfolding list_ex_iff using same by blast
  then show ?thesis
    using assms(1,3) by (auto simp: add_entry_def router_add_route_def router_port_ok_def plain_route_def Let_def not_less)
qed

lemma entries_added:
  assumes "\<forall>e \<in> set es. plain_route (nb_num (r_base r)) e" "distinct es" "\<forall>e \<in> set (r_routes r). prefix (rt_next_hop e) = 0"
    and "length (r_routes r) + length (filter (\<lambda>e. e \<notin> set (r_routes r)) es) \<le> ROUTER_MAX_ROUTES"
  shows "fold add_entry es r = r\<lparr>r_routes := r_routes r @ filter (\<lambda>e. e \<notin> set (r_routes r)) es\<rparr>"
  using assms
proof (induction es arbitrary: r)
  case (Cons e es)
  have plain: "plain_route (nb_num (r_base r)) e" "prefix (rt_next_hop e) = 0" using Cons.prems(1) by (simp_all add: plain_route_def)
  have added: "add_entry e r = r\<lparr>r_routes := r_routes r @ (if e \<in> set (r_routes r) then [] else [e])\<rparr>"
    by (rule entry_added) (use Cons.prems(3,4) plain in auto)
  let ?r = "add_entry e r"
  have rest: "filter (\<lambda>e'. e' \<notin> set (r_routes ?r)) es = filter (\<lambda>e'. e' \<notin> set (r_routes r)) es"
    using Cons.prems(2) unfolding added by (intro filter_cong) auto
  have "fold add_entry es ?r = ?r\<lparr>r_routes := r_routes ?r @ filter (\<lambda>e. e \<notin> set (r_routes ?r)) es\<rparr>"
    by (rule Cons.IH) (use Cons.prems plain rest in \<open>auto simp: added\<close>)
  then show ?case unfolding rest by (simp add: added)
qed simp

text \<open>The route to the network of a port.\<close>

definition direct_route :: "router \<Rightarrow> nat \<Rightarrow> route" where
  "direct_route r p = \<lparr>rt_destination = ip_network_address (ri_ip (r_ips r ! p)), rt_next_hop = zero_ip, rt_out_interface = int p + 1\<rparr>"

definition direct_routes :: "router \<Rightarrow> route list" where
  "direct_routes r = map (direct_route r) (filter (\<lambda>p. ri_has_ip (r_ips r ! p)) [0..<nb_num (r_base r)])"

lemma network_prefix [simp]: "prefix (ip_network_address ip) = prefix ip"
  by (simp add: ip_network_address_def Let_def)

lemma direct_routes_added:
  "snd (add_direct_routes ps r k) = fold add_entry (map (direct_route r) (filter (\<lambda>p. ri_has_ip (r_ips r ! p)) ps)) r"
proof (induction ps arbitrary: r k)
  case (Cons p ps)
  let ?r = "add_entry (direct_route r p) r"
  have same: "r_ips (add_entry e r) = r_ips r" for e by (simp add: add_entry_def router_add_route_def Let_def)
  have zero: "ip_init (Octets 0 0 0 0) 0 = zero_ip" by (simp add: zero_ip_def)
  have "snd (router_add_route r (ri_ip (r_ips r ! p)) zero_ip (int p + 1)) = ?r"
    by (simp add: add_entry_def direct_route_def router_add_route_def)
  then show ?case using Cons.IH [of r] Cons.IH [of ?r] by (simp add: zero same direct_route_def case_prod_unfold Let_def)
qed simp

lemma direct_plain:
  assumes "wf_router r" "e \<in> set (direct_routes r)"
  shows "plain_route (nb_num (r_base r)) e"
proof -
  obtain p where p: "p < nb_num (r_base r)" "ri_has_ip (r_ips r ! p)" "e = direct_route r p" using assms(2) by (auto simp: direct_routes_def)
  moreover have "p < MAX_PORT" using p(1) assms(1) by (auto simp: wf_router_def)
  moreover have "prefix zero_ip = 0" by (simp add: zero_ip_def ip_init_def)
  ultimately show ?thesis using assms(1) by (auto simp: wf_router_def plain_route_def direct_route_def)
qed

lemma routes_restored:
  assumes "\<forall>e \<in> set es. plain_route n e" "n \<le> MAX_PORT"
  shows "load_each load_route (map route_to_json es) r = Some (True, fold add_entry es r)"
  using assms
proof (induction es arbitrary: r)
  case (Cons e es)
  have e: "prefix (rt_destination e) \<le> 32" "c_int (rt_out_interface e)" "(rt_next_hop e)\<lparr>prefix := 0\<rparr> = rt_next_hop e"
    using Cons.prems by (auto simp: plain_route_def)
  have "is_object (route_to_json e)" by (simp add: route_to_json_def)
  then show ?case using Cons route_restored [OF e(1,2), of r] by (simp add: e(3) add_entry_def)
qed simp

lemma router_restored:
  assumes "wf_router r" "new_router (nb_num (r_base r)) r0" "length name < JSON_MAX_STRING"
    and "length (direct_routes r) + length (filter (\<lambda>e. e \<notin> set (direct_routes r)) (r_routes r)) \<le> ROUTER_MAX_ROUTES"
  shows "configure_router (router_to_json name r) r0 = Some (r0\<lparr>r_ips := r_ips r, r_vlans := r_vlans r,
    r_routes := direct_routes r @ filter (\<lambda>e. e \<notin> set (direct_routes r)) (r_routes r)\<rparr>)"
proof -
  let ?n = "nb_num (r_base r)" and ?D = "direct_routes r" and ?E = "r_routes r"
  let ?r1 = "r0\<lparr>r_ips := r_ips r, r_vlans := r_vlans r\<rparr>"
  have base: "nb_num (r_base r0) = ?n" "r_routes r0 = []" using assms(2) by (simp_all add: new_router_def)
  have E: "\<forall>e \<in> set ?E. plain_route ?n e" "distinct ?E" "length ?E \<le> ROUTER_MAX_ROUTES"
    using assms(1) by (auto simp: wf_router_def wf_routes_def plain_route_def router_port_ok_def distinct_map)
  have D: "\<forall>e \<in> set ?D. plain_route ?n e" "distinct ?D"
    using direct_plain [OF assms(1)] by (auto simp: direct_routes_def distinct_map inj_on_def direct_route_def)
  have direct: "snd (router_add_direct_routes ?r1) = ?r1\<lparr>r_routes := ?D\<rparr>"
  proof -
    have same: "direct_route ?r1 = direct_route r" by (simp add: direct_route_def fun_eq_iff)
    then have "snd (router_add_direct_routes ?r1) = fold add_entry ?D ?r1"
      using base(1) by (simp add: router_add_direct_routes_def direct_routes_added direct_routes_def)
    also have "\<dots> = ?r1\<lparr>r_routes := r_routes ?r1 @ filter (\<lambda>e. e \<notin> set (r_routes ?r1)) ?D\<rparr>"
      by (rule entries_added) (use D assms(4) base in simp_all)
    finally show ?thesis using base(2) by simp
  qed
  have items: "items_of (router_to_json name r) ''routing_table'' = map route_to_json ?E"
  proof -
    have "List.map_filter (\<lambda>v. v) (map (Some \<circ> route_to_json) es) = map route_to_json es" for es
      by (induction es) (simp_all add: map_filter_simps)
    then show ?thesis using E(3) assms(3) by (simp add: router_to_json_def items_of_def add_all_items)
  qed
  have "fold add_entry ?E (?r1\<lparr>r_routes := ?D\<rparr>) = ?r1\<lparr>r_routes := ?D @ filter (\<lambda>e. e \<notin> set ?D) ?E\<rparr>"
    using entries_added [of ?E "?r1\<lparr>r_routes := ?D\<rparr>"] E D(1) assms(4) base(1) by (simp add: plain_route_def)
  moreover have "?n \<le> MAX_PORT" using assms(1) by (simp add: wf_router_def)
  ultimately show ?thesis
    using all_interfaces_restored [OF assms(1-3)] routes_restored [OF E(1)]
    by (simp add: configure_router_def direct items Let_def)
qed

text \<open>C26. What is loaded is what was saved, node by node, from the tree that is saved for it. A host that has an address, with prefix
  lengths up to 32, gets its address and its gateway back. A new switch with as many ports gets the access and trunk
  configuration of every port back (access ports with VLAN ids from 1 on, all ports beyond the last one as they are on a new switch). A new
  router with as many ports gets the address and the VLAN of every port back, when prefix lengths are up to 32, VLAN numbers are not negative and a port without an address has
  no VLAN (it is not saved), and its routing table
  holds the routes to the networks of its ports, which the loader adds first, and then the other saved routes in their
  order; so it has the same entries as before when the routes of its ports were among them, when its table was well formed, its next hops
  have no prefix length and all of this fits into 128 entries. Names are shorter than a JSON string may be.\<close>

theorem configuration_restored:
  "(h_has_ip h \<and> prefix (h_ip h) \<le> 32 \<and> prefix (h_gateway h) \<le> 32 \<longrightarrow>
      configure_host (host_to_json name h) h0 =
        Some (h0\<lparr>h_ip := h_ip h, h_has_ip := True, h_gateway := h_gateway h\<rparr>)) \<and>
    (wf_ports sw \<and> nb_num (sw_base sw0) = nb_num (sw_base sw) \<and> sw_ports sw0 = replicate MAX_PORT default_port \<and>
        length name < JSON_MAX_STRING \<longrightarrow>
      load_each configure_port (items_of (switch_to_json name sw) ''vlans'') sw0 =
        Some (True, sw0\<lparr>sw_ports := sw_ports sw\<rparr>)) \<and>
    (wf_router r \<and> new_router (nb_num (r_base r)) r0 \<and> length name < JSON_MAX_STRING \<and>
        length (direct_routes r) + length (filter (\<lambda>e. e \<notin> set (direct_routes r)) (r_routes r)) \<le> ROUTER_MAX_ROUTES \<longrightarrow>
      configure_router (router_to_json name r) r0 = Some (r0\<lparr>r_ips := r_ips r, r_vlans := r_vlans r,
        r_routes := direct_routes r @ filter (\<lambda>e. e \<notin> set (direct_routes r)) (r_routes r)\<rparr>))"
  by (simp add: host_restored switch_restored router_restored)

definition sample_trunk :: switch where
  "sample_trunk = \<lparr>sw_base = \<lparr>nb_type = NODE_SWITCH, nb_name = [], nb_num = 2, nb_ifs = []\<rparr>,
     sw_ports = [\<lparr>pc_mode = SWITCH_PORT_TRUNK, pc_vlan_id = 0\<rparr>, \<lparr>pc_mode = SWITCH_PORT_ACCESS, pc_vlan_id = 20\<rparr>] @
       replicate (MAX_PORT - 2) default_port, sw_macs = switch_mac_table_zero\<rparr>"

lemma sample_trunk_ports: "wf_ports sample_trunk"
proof -
  have "sw_ports sample_trunk ! p = default_port" if "2 \<le> p" "p < 32" for p
    using that by (simp add: sample_trunk_def nth_append)
  then show ?thesis by (auto simp: wf_ports_def sample_trunk_def less_Suc_eq numeral_2_eq_2)
qed

definition saved_router :: router where
  "saved_router = (fst (router_init_with_macs (\<lambda>_. 0) 0 0 2 None))\<lparr>
     r_ips := (map unused_port [0..<MAX_PORT])[0 := \<lparr>ri_port = 1, ri_ip = ip_init (Octets 10 0 0 1) 24, ri_has_ip = True\<rparr>],
     r_vlans := (replicate MAX_PORT 0)[0 := 7],
     r_routes := [\<lparr>rt_destination = ip_init (Octets 10 1 0 0) 16, rt_next_hop = ip_init (Octets 10 0 0 2) 0, rt_out_interface = 1\<rparr>]\<rparr>"

lemma saved_router_base: "nb_num (r_base saved_router) = 2"
  by (simp add: saved_router_def router_init_with_macs_def node_init_with_macs_def normalize_interface_count_def Let_def case_prod_unfold)

lemma saved_router_wf: "wf_router saved_router"
proof -
  have ports: "r_ips saved_router ! p = unused_port p" "r_vlans saved_router ! p = 0" if "0 < p" "p < 32" for p
    using that by (simp_all add: saved_router_def del: upt_Suc)
  have first: "r_ips saved_router ! 0 = \<lparr>ri_port = 1, ri_ip = ip_init (Octets 10 0 0 1) 24, ri_has_ip = True\<rparr>" "r_vlans saved_router ! 0 = 7"
    by (simp_all add: saved_router_def)
  have lengths: "length (r_ips saved_router) = 32" "length (r_vlans saved_router) = 32" by (simp_all add: saved_router_def)
  have network: "ip_network_address (ip_init (Octets 10 1 0 0) 16) = ip_init (Octets 10 1 0 0) 16" by code_simp
  have "if p < 2 \<and> ri_has_ip (r_ips saved_router ! p)
        then ri_port (r_ips saved_router ! p) = p + 1 \<and> prefix (ri_ip (r_ips saved_router ! p)) \<le> 32 \<and> 0 \<le> r_vlans saved_router ! p \<and> c_int (r_vlans saved_router ! p)
        else r_ips saved_router ! p = unused_port p \<and> r_vlans saved_router ! p = 0" if "p < 32" for p
    using that first ports [of p] by (cases "p = 0") (simp_all add: ip_init_def)
  moreover have "wf_routes saved_router" "\<forall>e \<in> set (r_routes saved_router). prefix (rt_next_hop e) = 0"
    using saved_router_base network by (simp_all add: wf_routes_def saved_router_def router_port_ok_def ip_init_def)
  moreover have "2 \<le> (32 :: nat)" by simp
  ultimately show ?thesis using lengths unfolding wf_router_def saved_router_base by blast
qed

theorem configuration_restored_witness:
  "\<exists>(sw0 :: switch) (r0 :: router). sw_ports sw0 \<noteq> sw_ports sample_trunk \<and>
    load_each configure_port (items_of (switch_to_json ''s1'' sample_trunk) ''vlans'') sw0 =
      Some (True, sw0\<lparr>sw_ports := sw_ports sample_trunk\<rparr>) \<and>
    configure_router (router_to_json ''s1'' saved_router) r0 = Some (r0\<lparr>r_ips := r_ips saved_router, r_vlans := r_vlans saved_router,
      r_routes := direct_routes saved_router @ r_routes saved_router\<rparr>) \<and> r_routes r0 = [] \<and>
    (\<exists>h :: host. h_has_ip h \<and> configure_host (host_to_json ''s1'' h) h \<noteq> None)"
proof -
  obtain sw0 :: switch where sw0: "sw_base sw0 = sw_base sample_trunk" "sw_ports sw0 = replicate MAX_PORT default_port"
    by (rule that [of "sample_trunk\<lparr>sw_ports := replicate MAX_PORT default_port\<rparr>"]) simp_all
  obtain h :: host where h: "h_has_ip h" "h_ip h = zero_ip" "h_gateway h = zero_ip"
    by (rule that [of "(undefined :: host)\<lparr>h_has_ip := True, h_ip := zero_ip, h_gateway := zero_ip\<rparr>"]) simp_all
  obtain r0 where r0: "new_router (nb_num (r_base saved_router)) r0"
    by (rule that [of "saved_router\<lparr>r_ips := map unused_port [0..<MAX_PORT], r_vlans := replicate MAX_PORT 0, r_routes := []\<rparr>"])
      (simp add: new_router_def)
  have "filter (\<lambda>e. e \<notin> set (direct_routes saved_router)) (r_routes saved_router) = r_routes saved_router"
    "length (direct_routes saved_router) + length (r_routes saved_router) \<le> ROUTER_MAX_ROUTES"
    unfolding direct_routes_def saved_router_base by (auto simp: saved_router_def direct_route_def numeral_2_eq_2 ip_init_def zero_ip_def)
  moreover have "sw_ports sample_trunk ! 0 \<noteq> sw_ports sw0 ! 0" by (simp add: sw0 sample_trunk_def)
  then have "sw_ports sw0 \<noteq> sw_ports sample_trunk" by metis
  moreover have "prefix zero_ip \<le> 32" by (simp add: zero_ip_def ip_init_def)
  moreover have "length ''s1'' < JSON_MAX_STRING" "r_routes r0 = []" using r0 by (simp_all add: new_router_def)
  ultimately have "sw_ports sw0 \<noteq> sw_ports sample_trunk \<and>
      load_each configure_port (items_of (switch_to_json ''s1'' sample_trunk) ''vlans'') sw0 =
        Some (True, sw0\<lparr>sw_ports := sw_ports sample_trunk\<rparr>) \<and>
      configure_router (router_to_json ''s1'' saved_router) r0 = Some (r0\<lparr>r_ips := r_ips saved_router, r_vlans := r_vlans saved_router,
        r_routes := direct_routes saved_router @ r_routes saved_router\<rparr>) \<and> r_routes r0 = [] \<and>
      h_has_ip h \<and> configure_host (host_to_json ''s1'' h) h \<noteq> None"
    using configuration_restored [of h "''s1''" h sample_trunk sw0 saved_router r0] sample_trunk_ports saved_router_wf sw0 h r0 by simp
  then show ?thesis by blast
qed

end
