(* ===== verification/Dhcp_Leases.thy ===== *)
theory Dhcp_Leases
  imports Dhcp
begin

text \<open>
  The leases of the DHCP server and its messages on the wire.
\<close>

section \<open>Leases\<close>

text \<open>No two clients hold the same address.\<close>

definition leases_distinct :: "dhcp_state \<Rightarrow> bool" where
  "leases_distinct d \<longleftrightarrow> length (dh_clients d) = DHCP_MAX_CLIENTS \<and>
     (\<forall>i < DHCP_MAX_CLIENTS. \<forall>j < DHCP_MAX_CLIENTS. i \<noteq> j \<and> dc_in_use (dh_clients d ! i) \<and> dc_in_use (dh_clients d ! j) \<longrightarrow>
       octet (dc_ip (dh_clients d ! i)) \<noteq> octet (dc_ip (dh_clients d ! j)))"

lemma dhcp_search_free:
  "fst (dhcp_search cs ip n) = out \<Longrightarrow> snd (dhcp_search cs ip n) < 255 \<Longrightarrow> \<not> dhcp_taken cs out"
proof (induction cs ip n rule: dhcp_search.induct)
  case (1 cs ip n)
  show ?case
  proof (cases "n < 255 \<and> dhcp_taken cs ip")
    case True
    then show ?thesis using 1 by (simp add: dhcp_search.simps [of cs ip n])
  next
    case False
    then show ?thesis using 1(2,3) by (auto simp: dhcp_search.simps [of cs ip n] split: if_splits)
  qed
qed

lemma not_taken: "\<not> dhcp_taken cs ip \<longleftrightarrow> (\<forall>i < DHCP_MAX_CLIENTS. dc_in_use (cs ! i) \<longrightarrow> octet (dc_ip (cs ! i)) \<noteq> octet ip)"
  by (auto simp: dhcp_taken_def)

lemma allocate_free:
  assumes "dhcp_allocate_ip d mac = (Some ip, d')"
  shows "\<not> dhcp_taken (dh_clients d) ip"
proof -
  let ?s = "dhcp_search (dh_clients d) (with_octet3 (dh_server_ip d) (dh_next_ip_octet d)) (dh_next_ip_octet d + 1)"
  have "fst ?s = ip" "snd ?s < 255"
    using assms by (auto simp: dhcp_allocate_ip_def Let_def case_prod_unfold split: if_splits option.splits)
  then show ?thesis by (rule dhcp_search_free)
qed

lemma allocate_stores:
  assumes "dhcp_allocate_ip d mac = (Some ip, d')" "length (dh_clients d) = DHCP_MAX_CLIENTS"
  shows "(\<exists>slot < DHCP_MAX_CLIENTS. \<not> dc_in_use (dh_clients d ! slot) \<and>
      (\<exists>c. dc_in_use c \<and> dc_ip c = ip \<and> dh_clients d' = (dh_clients d)[slot := c])) \<or>
    ((\<forall>i < DHCP_MAX_CLIENTS. dc_in_use (dh_clients d ! i)) \<and> dh_clients d' = dh_clients d)"
proof -
  let ?f = "first_index (\<lambda>i. \<not> dc_in_use (dh_clients d ! i)) DHCP_MAX_CLIENTS"
  show ?thesis
  proof (cases ?f)
    case None
    then have "dh_clients d' = dh_clients d"
      using assms by (simp add: dhcp_allocate_ip_def Let_def case_prod_unfold del: first_index_None split: if_splits)
        (auto split: option.splits)
    moreover have "\<forall>i < DHCP_MAX_CLIENTS. dc_in_use (dh_clients d ! i)" using None by simp
    ultimately show ?thesis by blast
  next
    case (Some slot)
    then have "slot < DHCP_MAX_CLIENTS" "\<not> dc_in_use (dh_clients d ! slot)" by (auto simp: first_index_Some)
    moreover have "\<exists>c. dc_in_use c \<and> dc_ip c = ip \<and> dh_clients d' = (dh_clients d)[slot := c]"
      using assms Some by (auto simp: dhcp_allocate_ip_def Let_def case_prod_unfold split: if_splits intro!: exI)
    ultimately show ?thesis by blast
  qed
qed

lemma options_keep [simp]: "dm_yiaddr (dhcp_with_options m opts) = dm_yiaddr m"
proof -
  have "dm_yiaddr (fold (\<lambda>(tag, data) m. snd (dhcp_add_option m tag data)) opts m) = dm_yiaddr m"
    by (induction opts arbitrary: m) (auto simp: dhcp_add_option_def Let_def)
  then show ?thesis by (simp add: dhcp_with_options_def dhcp_finish_options_def)
qed

text \<open>A lease for an address nobody has keeps the leases apart.\<close>

lemma lease_added:
  assumes "leases_distinct d" "slot < DHCP_MAX_CLIENTS" "dh_clients d' = (dh_clients d)[slot := c]"
    and free: "\<forall>i < DHCP_MAX_CLIENTS. dc_in_use (dh_clients d ! i) \<longrightarrow> octet (dc_ip (dh_clients d ! i)) \<noteq> octet (dc_ip c)"
  shows "leases_distinct d'" "dh_clients d' ! slot = c"
proof -
  have len: "length (dh_clients d) = DHCP_MAX_CLIENTS" using assms(1) by (simp add: leases_distinct_def)
  have nth: "dh_clients d' ! i = (if i = slot then c else dh_clients d ! i)" if "i < DHCP_MAX_CLIENTS" for i
    using that assms(2,3) len by (simp add: nth_list_update)
  then show "dh_clients d' ! slot = c" using assms(2) by simp
  show "leases_distinct d'"
    unfolding leases_distinct_def
  proof (intro conjI allI impI)
    show "length (dh_clients d') = DHCP_MAX_CLIENTS" using assms(3) len by simp
    fix i j assume ij: "i < DHCP_MAX_CLIENTS" "j < DHCP_MAX_CLIENTS"
      "i \<noteq> j \<and> dc_in_use (dh_clients d' ! i) \<and> dc_in_use (dh_clients d' ! j)"
    consider "i = slot" "j \<noteq> slot" | "i \<noteq> slot" "j = slot" | "i \<noteq> slot" "j \<noteq> slot" using ij(3) by blast
    then show "octet (dc_ip (dh_clients d' ! i)) \<noteq> octet (dc_ip (dh_clients d' ! j))"
    proof cases
      case 1
      then show ?thesis using free ij nth by auto
    next
      case 2
      then show ?thesis using free ij nth by auto
    next
      case 3
      then show ?thesis using assms(1) ij nth by (simp add: leases_distinct_def)
    qed
  qed
qed

text \<open>C29. The address of an offer is held by no client, and answering DISCOVER messages never gives two
  clients the same address; the lease is recorded whenever there is a free place in the table.\<close>

theorem offers_are_fresh:
  assumes "dhcp_server_handle_discover d m = (Some offer, d')" "leases_distinct d"
  shows "leases_distinct d' \<and>
    (\<forall>i < DHCP_MAX_CLIENTS. dc_in_use (dh_clients d ! i) \<longrightarrow> octet (dc_ip (dh_clients d ! i)) \<noteq> octet (dm_yiaddr offer)) \<and>
    ((\<exists>i < DHCP_MAX_CLIENTS. \<not> dc_in_use (dh_clients d ! i)) \<longrightarrow>
      (\<exists>i < DHCP_MAX_CLIENTS. dc_in_use (dh_clients d' ! i) \<and> dc_ip (dh_clients d' ! i) = dm_yiaddr offer))"
proof -
  obtain r d1 where alloc: "dhcp_allocate_ip d (dm_chaddr m) = (r, d1)" by (metis surj_pair)
  obtain ip where ip: "r = Some ip"
    using assms(1) alloc by (cases r) (simp_all add: dhcp_server_handle_discover_def split: if_split_asm)
  then have a: "dhcp_allocate_ip d (dm_chaddr m) = (Some ip, d')"
      and offer: "offer = dhcp_reply (dh_server_ip d') m DHCP_OFFER ip"
    using assms(1) alloc by (auto simp: dhcp_server_handle_discover_def split: if_split_asm)
  then have y: "dm_yiaddr offer = ip" by (simp add: dhcp_reply_def)
  have len: "length (dh_clients d) = DHCP_MAX_CLIENTS" using assms(2) by (simp add: leases_distinct_def)
  have free: "\<forall>i < DHCP_MAX_CLIENTS. dc_in_use (dh_clients d ! i) \<longrightarrow> octet (dc_ip (dh_clients d ! i)) \<noteq> octet ip"
    using allocate_free [OF a] by (simp add: not_taken)
  from allocate_stores [OF a len] show ?thesis
  proof
    assume "\<exists>slot < DHCP_MAX_CLIENTS. \<not> dc_in_use (dh_clients d ! slot) \<and>
      (\<exists>c. dc_in_use c \<and> dc_ip c = ip \<and> dh_clients d' = (dh_clients d)[slot := c])"
    then obtain slot c where s: "slot < DHCP_MAX_CLIENTS" "dc_in_use c" "dc_ip c = ip" "dh_clients d' = (dh_clients d)[slot := c]"
      by blast
    note added = lease_added [OF assms(2) s(1,4)]
    have "leases_distinct d'" using added(1) free s(3) by simp
    moreover have "dc_in_use (dh_clients d' ! slot) \<and> dc_ip (dh_clients d' ! slot) = ip" using added(2) free s(2,3) by simp
    ultimately show ?thesis unfolding y using free s(1) by blast
  next
    assume "(\<forall>i < DHCP_MAX_CLIENTS. dc_in_use (dh_clients d ! i)) \<and> dh_clients d' = dh_clients d"
    then show ?thesis using assms(2) free y by (simp add: leases_distinct_def, blast)
  qed
qed

lemma init_distinct: "leases_distinct (dhcp_server_init d)"
  by (simp add: leases_distinct_def dhcp_server_init_def zero_dhcp_client_def)

theorem offers_are_fresh_witness:
  "\<exists>d d' offer. dhcp_server_handle_discover d (dhcp_create_discover 7 [2, 0, 0, 0, 0, 1]) = (Some offer, d') \<and>
    leases_distinct d' \<and> octet (dm_yiaddr offer) = Octets 10 0 0 20 \<and>
    (\<exists>i < DHCP_MAX_CLIENTS. dc_in_use (dh_clients d' ! i) \<and> dc_ip (dh_clients d' ! i) = dm_yiaddr offer)"
proof -
  obtain d0 :: dhcp_state where True by blast
  let ?d = "dhcp_server_init (dhcp_server_set_ip (ip_init (Octets 10 0 0 5) 24) d0)"
  let ?m = "dhcp_create_discover 7 [2, 0, 0, 0, 0, 1]"
  have free: "\<not> dhcp_taken (dh_clients ?d) ip" for ip
    by (simp add: not_taken dhcp_server_init_def zero_dhcp_client_def)
  have slot: "first_index (\<lambda>i. \<not> dc_in_use (dh_clients ?d ! i)) DHCP_MAX_CLIENTS \<noteq> None"
    by (auto simp: dhcp_server_init_def zero_dhcp_client_def intro!: exI [of _ 0])
  then obtain i where i: "first_index (\<lambda>i. \<not> dc_in_use (dh_clients ?d ! i)) DHCP_MAX_CLIENTS = Some i" by blast
  have "dhcp_search (dh_clients ?d) ip n = (ip, n)" for ip n
    using free by (subst dhcp_search.simps) simp
  then have "\<exists>d'. dhcp_allocate_ip ?d (dm_chaddr ?m) = (Some (with_octet3 (ip_init (Octets 10 0 0 5) 24) 20), d')"
    using i by (simp add: dhcp_allocate_ip_def Let_def del: first_index_None)
      (simp add: dhcp_server_init_def dhcp_server_set_ip_def)
  then obtain d' where a: "dhcp_allocate_ip ?d (dm_chaddr ?m) = (Some (with_octet3 (ip_init (Octets 10 0 0 5) 24) 20), d')" by blast
  let ?offer = "dhcp_reply (dh_server_ip d') ?m DHCP_OFFER (with_octet3 (ip_init (Octets 10 0 0 5) 24) 20)"
  have h: "dhcp_server_handle_discover ?d ?m = (Some ?offer, d')"
    using a by (simp add: dhcp_server_handle_discover_def) (simp add: dhcp_server_init_def dhcp_server_set_ip_def)
  have "octet (dm_yiaddr ?offer) = Octets 10 0 0 20"
    by (simp add: dhcp_reply_def with_octet3_def ip_init_def set_octet3_def)
  moreover have "\<exists>i < DHCP_MAX_CLIENTS. \<not> dc_in_use (dh_clients ?d ! i)" using i by (auto simp: first_index_Some)
  ultimately show ?thesis using offers_are_fresh [OF h init_distinct] h by blast
qed

section \<open>Messages on the wire\<close>

text \<open>A message as the receiver sees it: addresses without prefix, and zeros after the options.\<close>

definition dhcp_received :: "dhcp_message \<Rightarrow> dhcp_message" where
  "dhcp_received m = m\<lparr>dm_ciaddr := zero_ip\<lparr>octet := octet (dm_ciaddr m)\<rparr>, dm_yiaddr := zero_ip\<lparr>octet := octet (dm_yiaddr m)\<rparr>,
     dm_siaddr := zero_ip\<lparr>octet := octet (dm_siaddr m)\<rparr>, dm_giaddr := zero_ip\<lparr>octet := octet (dm_giaddr m)\<rparr>,
     dm_magic_cookie := DHCP_MAGIC_COOKIE,
     dm_options := take (dm_options_len m) (dm_options m) @ replicate (DHCP_OPTIONS_SIZE - dm_options_len m) 0\<rparr>"

lemma octets_bytes [simp]: "octets_of_list (octet_bytes os) = os"
  by (cases os) (simp add: octets_of_list_def)

lemma take_octet_bytes [simp]: "take 4 (octet_bytes os @ r) = octet_bytes os"
  by (cases os) simp

lemma raw_ip_at: "length pre = i \<Longrightarrow> raw_ip (pre @ octet_bytes os @ r) i = zero_ip\<lparr>octet := os\<rparr>"
  by (simp add: raw_ip_def)

lemma read_u32_at: "length pre = i \<Longrightarrow> read_u32_be (pre @ write_u32_be v @ r) i = v"
  using read_write_u32 [of v r] by (auto simp: read_u32_be_def nth_append write_u32_be_def)

lemma read_u16_at: "length pre = i \<Longrightarrow> read_u16_be (pre @ write_u16_be v @ r) i = v"
  using read_write_u16 [of v r] by (auto simp: read_u16_be_def nth_append write_u16_be_def)

lemma dhcp_wire_read:
  assumes "wf_dhcp_message m" "dhcp_message_to_bytes m n = Some raw"
  shows "dhcp_message_from_bytes raw = Some (dhcp_received m)"
proof -
  let ?ops = "[dm_op m, dm_htype m, dm_hlen m, dm_hops m]"
  let ?ip = "\<lambda>f. octet_bytes (octet (f m))"
  let ?opts = "take (dm_options_len m) (dm_options m)"
  have wf: "length (dm_chaddr m) = 16" "length (dm_sname m) = 64" "length (dm_file m) = 128" "length ?opts = dm_options_len m"
      "dm_options_len m \<le> DHCP_OPTIONS_SIZE"
    using assms(1) by (simp_all add: wf_dhcp_message_def)
  have raw: "raw = ?ops @ write_u32_be (dm_xid m) @ write_u16_be (dm_secs m) @ write_u16_be (dm_flags m) @
      ?ip dm_ciaddr @ ?ip dm_yiaddr @ ?ip dm_siaddr @ ?ip dm_giaddr @ dm_chaddr m @ dm_sname m @ dm_file m @
      write_u32_be DHCP_MAGIC_COOKIE @ ?opts"
    using assms(2) by (simp add: dhcp_message_to_bytes_def split: if_split_asm)
  have len: "length raw = DHCP_HEADER_SIZE + dm_options_len m" unfolding raw using wf by simp
  have heads: "raw ! 0 = dm_op m" "raw ! 1 = dm_htype m" "raw ! 2 = dm_hlen m" "raw ! 3 = dm_hops m" by (simp_all add: raw)
  have numbers: "read_u32_be raw 4 = dm_xid m" "read_u16_be raw 8 = dm_secs m" "read_u16_be raw 10 = dm_flags m"
      "read_u32_be raw 236 = DHCP_MAGIC_COOKIE"
  proof -
    show "read_u32_be raw 4 = dm_xid m" unfolding raw by (rule read_u32_at) simp
    show "read_u16_be raw 8 = dm_secs m" unfolding raw
      using read_u16_at [of "?ops @ write_u32_be (dm_xid m)" 8] by simp
    show "read_u16_be raw 10 = dm_flags m" unfolding raw
      using read_u16_at [of "?ops @ write_u32_be (dm_xid m) @ write_u16_be (dm_secs m)" 10] by simp
    show "read_u32_be raw 236 = DHCP_MAGIC_COOKIE" unfolding raw
      using read_u32_at [of "?ops @ write_u32_be (dm_xid m) @ write_u16_be (dm_secs m) @ write_u16_be (dm_flags m) @
        ?ip dm_ciaddr @ ?ip dm_yiaddr @ ?ip dm_siaddr @ ?ip dm_giaddr @ dm_chaddr m @ dm_sname m @ dm_file m" 236 DHCP_MAGIC_COOKIE ?opts] wf
      by simp
  qed
  let ?pre = "?ops @ write_u32_be (dm_xid m) @ write_u16_be (dm_secs m) @ write_u16_be (dm_flags m)"
  have ips: "raw_ip raw 12 = zero_ip\<lparr>octet := octet (dm_ciaddr m)\<rparr>" "raw_ip raw 16 = zero_ip\<lparr>octet := octet (dm_yiaddr m)\<rparr>"
      "raw_ip raw 20 = zero_ip\<lparr>octet := octet (dm_siaddr m)\<rparr>" "raw_ip raw 24 = zero_ip\<lparr>octet := octet (dm_giaddr m)\<rparr>"
    unfolding raw
    using raw_ip_at [of ?pre 12] raw_ip_at [of "?pre @ ?ip dm_ciaddr" 16] raw_ip_at [of "?pre @ ?ip dm_ciaddr @ ?ip dm_yiaddr" 20]
      raw_ip_at [of "?pre @ ?ip dm_ciaddr @ ?ip dm_yiaddr @ ?ip dm_siaddr" 24] by simp_all
  have arrays: "take 16 (drop 28 raw) = dm_chaddr m" "take 64 (drop 44 raw) = dm_sname m" "take 128 (drop 108 raw) = dm_file m"
      "drop 240 raw = ?opts"
    unfolding raw using wf by simp_all
  show ?thesis
    using len wf heads(2) unfolding dhcp_message_from_bytes_def
    by (simp add: heads numbers ips arrays Let_def) (rule dhcp_message.equality; simp add: dhcp_received_def)
qed

text \<open>Adding an option keeps what was there.\<close>

definition extends :: "dhcp_message \<Rightarrow> dhcp_message \<Rightarrow> bool" where
  "extends m m' \<longleftrightarrow> wf_dhcp_message m' \<and> dm_options_len m \<le> dm_options_len m' \<and>
     take (dm_options_len m) (dm_options m') = take (dm_options_len m) (dm_options m)"

lemma extends_trans:
  assumes "extends m m'" "extends m' m''"
  shows "extends m m''"
proof -
  let ?k = "dm_options_len m"
  have "take ?k (dm_options m'') = take ?k (take (dm_options_len m') (dm_options m''))"
    using assms(1) by (simp add: extends_def min_def)
  also have "\<dots> = take ?k (dm_options m')" using assms by (simp add: extends_def min_def)
  finally show ?thesis using assms by (simp add: extends_def)
qed

lemma length_overwrite: "i + length xs \<le> length a \<Longrightarrow> length (overwrite i xs a) = length a"
  by (simp add: overwrite_def)

lemma add_option_extends: "wf_dhcp_message m \<Longrightarrow> extends m (snd (dhcp_add_option m tag data))"
  by (auto simp: extends_def dhcp_add_option_def Let_def wf_dhcp_message_def length_overwrite) (simp add: overwrite_def)

lemma finish_options_extends: "wf_dhcp_message m \<Longrightarrow> extends m (dhcp_finish_options m)"
  by (auto simp: extends_def dhcp_finish_options_def wf_dhcp_message_def)

lemma with_options_extends: "wf_dhcp_message m \<Longrightarrow> extends m (dhcp_with_options m opts)"
proof (induction opts arbitrary: m)
  case Nil
  then show ?case using finish_options_extends by (simp add: dhcp_with_options_def)
next
  case (Cons opt opts)
  obtain tag data where opt: "opt = (tag, data)" by (cases opt)
  let ?m = "snd (dhcp_add_option m tag data)"
  have 1: "extends m ?m" by (rule add_option_extends [OF Cons.prems])
  then have "extends ?m (dhcp_with_options ?m opts)" by (intro Cons.IH) (simp add: extends_def)
  from extends_trans [OF 1 this] show ?case by (simp add: dhcp_with_options_def opt)
qed

lemma type_received:
  assumes "wf_dhcp_message m" "dm_options_len m = 0"
  shows "wf_dhcp_message (dhcp_with_options m ((DHCP_OPTION_MSG_TYPE, [ty]) # opts)) \<and>
    dhcp_get_msg_type (dhcp_received (dhcp_with_options m ((DHCP_OPTION_MSG_TYPE, [ty]) # opts))) = Some (uint ty)"
proof -
  let ?m1 = "snd (dhcp_add_option m DHCP_OPTION_MSG_TYPE [ty])"
  let ?m = "dhcp_with_options ?m1 opts"
  have "wf_dhcp_message ?m1" using add_option_extends [OF assms(1)] by (simp add: extends_def)
  then have e: "extends ?m1 ?m" by (rule with_options_extends)
  have m1: "dm_options_len ?m1 = 3" "take 3 (dm_options ?m1) = [DHCP_OPTION_MSG_TYPE, 1, ty]"
    using assms by (simp_all add: dhcp_add_option_def overwrite_def wf_dhcp_message_def)
  then have t: "take 3 (dm_options ?m) = [DHCP_OPTION_MSG_TYPE, 1, ty]" "3 \<le> dm_options_len ?m" and wf: "wf_dhcp_message ?m"
    using e by (simp_all add: extends_def)
  have "take 3 (take (dm_options_len ?m) (dm_options ?m)) = [DHCP_OPTION_MSG_TYPE, 1, ty]"
    using t by (simp add: min_def)
  then obtain r where "take (dm_options_len ?m) (dm_options ?m) = DHCP_OPTION_MSG_TYPE # 1 # ty # r"
    by (metis append_Cons append_Nil append_take_drop_id)
  then have "dhcp_get_msg_type (dhcp_received ?m) = Some (uint ty)"
    using t(2) by (simp add: dhcp_get_msg_type_def dhcp_received_def msg_type_loop.simps)
  then show ?thesis using wf by (simp add: dhcp_with_options_def)
qed

lemma zero_dhcp_wf: "wf_dhcp_message zero_dhcp_message"
  by (simp add: wf_dhcp_message_def zero_dhcp_message_def)

lemma created_types:
  "wf_dhcp_message (dhcp_create_discover xid mac) \<and> dhcp_get_msg_type (dhcp_received (dhcp_create_discover xid mac)) = Some 1"
  "wf_dhcp_message (dhcp_create_request xid mac ip server) \<and> dhcp_get_msg_type (dhcp_received (dhcp_create_request xid mac ip server)) = Some 3"
  "length (dm_chaddr req) = 16 \<Longrightarrow> wf_dhcp_message (dhcp_reply server req ty ip) \<and>
    dhcp_get_msg_type (dhcp_received (dhcp_reply server req ty ip)) = Some (uint ty)"
proof -
  have chaddr: "length (overwrite 0 (take 6 mac) (replicate 16 0)) = 16" by (simp add: overwrite_def)
  show "wf_dhcp_message (dhcp_create_discover xid mac) \<and> dhcp_get_msg_type (dhcp_received (dhcp_create_discover xid mac)) = Some 1"
    unfolding dhcp_create_discover_def
    by (rule type_received [where ty = 1, simplified]) (use zero_dhcp_wf chaddr in \<open>simp_all add: wf_dhcp_message_def zero_dhcp_message_def\<close>)
  show "wf_dhcp_message (dhcp_create_request xid mac ip server) \<and> dhcp_get_msg_type (dhcp_received (dhcp_create_request xid mac ip server)) = Some 3"
    unfolding dhcp_create_request_def
    by (rule type_received [where ty = 3, simplified]) (use zero_dhcp_wf chaddr in \<open>simp_all add: wf_dhcp_message_def zero_dhcp_message_def\<close>)
  show "wf_dhcp_message (dhcp_reply server req ty ip) \<and> dhcp_get_msg_type (dhcp_received (dhcp_reply server req ty ip)) = Some (uint ty)"
    if "length (dm_chaddr req) = 16"
    unfolding dhcp_reply_def
    by (rule type_received) (use zero_dhcp_wf that in \<open>simp_all add: wf_dhcp_message_def zero_dhcp_message_def\<close>)
qed

text \<open>C39. Every message that a client or the server builds (DISCOVER, REQUEST, OFFER, ACK; the replies to a request with a hardware address field of 16 bytes) is read back
  from its bytes: the receiver finds the message type among the options without reading past
  their end, and the transaction, hardware address and addresses that were sent.\<close>

theorem dhcp_messages_survive:
  assumes "m = dhcp_create_discover xid mac \<and> ty = DHCP_DISCOVER \<or> m = dhcp_create_request xid mac ip server \<and> ty = DHCP_REQUEST \<or>
      m = dhcp_reply server request ty ip \<and> length (dm_chaddr request) = 16"
    and "dhcp_message_to_bytes m n = Some raw"
  shows "\<exists>m'. dhcp_message_from_bytes raw = Some m' \<and> dhcp_get_msg_type m' = Some (uint ty) \<and>
    dm_op m' = dm_op m \<and> dm_xid m' = dm_xid m \<and> dm_chaddr m' = dm_chaddr m \<and>
    octet (dm_ciaddr m') = octet (dm_ciaddr m) \<and> octet (dm_yiaddr m') = octet (dm_yiaddr m) \<and>
    octet (dm_siaddr m') = octet (dm_siaddr m)"
proof -
  have "wf_dhcp_message m \<and> dhcp_get_msg_type (dhcp_received m) = Some (uint ty)"
    using assms(1) created_types by auto
  then show ?thesis
    using dhcp_wire_read [OF _ assms(2)] by (intro exI [of _ "dhcp_received m"]) (simp add: dhcp_received_def)
qed

theorem dhcp_messages_survive_witness:
  "\<exists>raw m'. dhcp_message_to_bytes (dhcp_create_discover 7 [2, 0, 0, 0, 0, 1]) 300 = Some raw \<and>
    dhcp_message_from_bytes raw = Some m' \<and> dhcp_get_msg_type m' = Some 1 \<and> dm_xid m' = dm_xid (dhcp_create_discover 7 [2, 0, 0, 0, 0, 1])"
proof -
  let ?m = "dhcp_create_discover 7 [2, 0, 0, 0, 0, 1]"
  have "wf_dhcp_message ?m" using created_types(1) by simp
  then have "\<exists>raw. dhcp_message_to_bytes ?m 300 = Some raw" by (simp add: dhcp_message_to_bytes_def wf_dhcp_message_def)
  then obtain raw where raw: "dhcp_message_to_bytes ?m 300 = Some raw" by blast
  have "uint DHCP_DISCOVER = 1" by simp
  then show ?thesis
    using dhcp_messages_survive [OF disjI1 raw, of 7 "[2, 0, 0, 0, 0, 1]" DHCP_DISCOVER] raw by auto
qed

end
