(* ===== verification/Dns_Names.thy ===== *)
theory Dns_Names
  imports Dhcp_Leases Dns
begin

text \<open>
  Names on the wire and the dialogue of a DNS client with the server: what is encoded is decoded,
  a query for a known name is answered with its address, and the compression pointers that the
  decoder follows for ever.
\<close>

section \<open>Names\<close>

definition dns_label :: "string \<Rightarrow> bool" where
  "dns_label l \<longleftrightarrow> l \<noteq> [] \<and> length l \<le> 63 \<and> CHR ''.'' \<notin> set l \<and> CHR 0x00 \<notin> set l"

fun dotted_name :: "string list \<Rightarrow> string" where
  "dotted_name [] = []"
| "dotted_name [l] = l"
| "dotted_name (l # ls) = l @ ''.'' @ dotted_name ls"

definition wire_labels :: "string list \<Rightarrow> bytes" where
  "wire_labels ls = concat (map (\<lambda>l. of_nat (length l) # map byte_of_char l) ls)"

lemma wire_labels_simps [simp]:
  "wire_labels [] = []" "wire_labels (l # ls) = of_nat (length l) # map byte_of_char l @ wire_labels ls"
  by (simp_all add: wire_labels_def)

lemma dotted_name_Cons: "dotted_name (l # ls) = l @ (if ls = [] then [] else CHR ''.'' # dotted_name ls)"
  by (cases ls) simp_all

lemma dotted_name_Nil: "\<forall>l \<in> set ls. dns_label l \<Longrightarrow> dotted_name ls = [] \<longleftrightarrow> ls = []"
  by (cases ls) (simp_all add: dotted_name_Cons dns_label_def)

lemma dotted_name_clean: "\<forall>l \<in> set ls. dns_label l \<Longrightarrow> CHR 0x00 \<notin> set (dotted_name ls)"
  by (induction ls) (auto simp: dotted_name_Cons dns_label_def)

lemma length_dotted_name: "\<forall>l \<in> set ls. dns_label l \<Longrightarrow> length (dotted_name ls) \<le> length (wire_labels ls)"
  by (induction ls) (auto simp: dotted_name_Cons)

lemma encode_labels:
  "\<forall>l \<in> set ls. dns_label l \<Longrightarrow> length out + length (wire_labels ls) + 1 \<le> n \<Longrightarrow>
    dns_encode_loop out n (dotted_name ls) = Some (out @ wire_labels ls @ [0])"
proof (induction ls arbitrary: out)
  case Nil
  then show ?case by (subst dns_encode_loop.simps) simp
next
  case (Cons l ls)
  have l: "l \<noteq> []" "CHR ''.'' \<notin> set l" using Cons.prems(1) by (simp_all add: dns_label_def)
  let ?p = "dotted_name (l # ls)"
  have "takeWhile (\<lambda>c. c \<noteq> CHR ''.'') ?p = l \<and> tl (dropWhile (\<lambda>c. c \<noteq> CHR ''.'') ?p) = dotted_name ls"
  proof -
    have "\<forall>c \<in> set l. c \<noteq> CHR ''.''" using l(2) by auto
    then show ?thesis by (simp add: dotted_name_Cons takeWhile_append2 dropWhile_append2)
  qed
  moreover have "?p \<noteq> []" using l(1) by (simp add: dotted_name_Cons)
  moreover have "dns_encode_loop (out @ of_nat (length l) # map byte_of_char l) n (dotted_name ls) =
      Some ((out @ of_nat (length l) # map byte_of_char l) @ wire_labels ls @ [0])"
    by (rule Cons.IH) (use Cons.prems in simp_all)
  ultimately show ?case using Cons.prems(2) by (subst dns_encode_loop.simps) (simp add: Let_def)
qed

lemma label_len_plain: "n \<le> 63 \<Longrightarrow> (of_nat n :: u8) AND 0xC0 = 0"
proof -
  have "\<forall>n \<in> set [0..<64]. (of_nat n :: u8) AND 0xC0 = 0" by code_simp
  then show "n \<le> 63 \<Longrightarrow> (of_nat n :: u8) AND 0xC0 = 0" by simp
qed

lemma unat_label: "n \<le> 63 \<Longrightarrow> unat (of_nat n :: u8) = n"
  by (simp add: unat_of_nat)

lemma char_byte [simp]: "char_of_byte (byte_of_char c) = c"
  by (simp add: char_of_byte_def byte_of_char_def unat_of_nat of_char_mod_256)

definition joined :: "string \<Rightarrow> string list \<Rightarrow> string" where
  "joined out ls = (if out = [] then dotted_name ls else if ls = [] then out else out @ CHR ''.'' # dotted_name ls)"

lemma decode_labels:
  "\<forall>l \<in> set ls. dns_label l \<Longrightarrow> raw = pre @ wire_labels ls @ [0] @ rest \<Longrightarrow>
    length (joined out ls) < DNS_MAX_NAME \<Longrightarrow>
    dns_decode_loop raw (length raw) DNS_MAX_NAME (length pre) out False =
      Some (length pre + length (wire_labels ls) + 1, joined out ls)"
proof (induction ls arbitrary: pre out)
  case Nil
  then show ?case by (subst dns_decode_loop.simps) (simp add: joined_def nth_append)
next
  case (Cons l ls)
  have l: "length l \<le> 63" "l \<noteq> []" using Cons.prems(1) by (simp_all add: dns_label_def)
  let ?out = "if out \<noteq> [] \<and> length out < DNS_MAX_NAME - 1 then out @ ''.'' else out"
  let ?pre = "pre @ of_nat (length l) # map byte_of_char l"
  have raw: "raw = ?pre @ wire_labels ls @ [0] @ rest" using Cons.prems(2) by simp
  have short: "out = [] \<or> length out < DNS_MAX_NAME - 1" "length ?out + length l < DNS_MAX_NAME"
    using Cons.prems(3) by (auto simp: joined_def dotted_name_Cons split: if_split_asm)
  have j: "joined (?out @ l) ls = joined out (l # ls)"
    using short(1) l(2) by (auto simp: joined_def dotted_name_Cons)
  have IH: "dns_decode_loop raw (length raw) DNS_MAX_NAME (length ?pre) (?out @ l) False =
      Some (length ?pre + length (wire_labels ls) + 1, joined (?out @ l) ls)"
    by (rule Cons.IH) (use Cons.prems raw j in simp_all)
  have nth: "raw ! length pre = of_nat (length l)" using Cons.prems(2) by (simp add: nth_append)
  have len: "Suc (length pre) + length l < length raw" using raw by simp
  have tk: "map char_of_byte (take (length l) (drop (Suc (length pre)) raw)) = l"
    using Cons.prems(2) by (simp add: comp_def)
  have "of_nat (length l) \<noteq> (0 :: u8)" using l unat_label [OF l(1)] by auto
  then show ?case
    using nth len tk l short(2) IH label_len_plain [OF l(1)] unat_label [OF l(1)] j
    by (subst dns_decode_loop.simps) (simp add: Let_def)
qed

section \<open>The dialogue\<close>

lemma encode_name:
  assumes "\<forall>l \<in> set ls. dns_label l" "length (wire_labels ls) < 255"
  shows "dns_encode_name DNS_MAX_NAME (dotted_name ls) = Some (wire_labels ls @ [0])"
  using encode_labels [OF assms(1), of "[]" DNS_MAX_NAME] assms(2) by (simp add: dns_encode_name_def)

lemma decode_name:
  assumes "\<forall>l \<in> set ls. dns_label l" "length (wire_labels ls) < 255"
  shows "dns_decode_name (wire_labels ls @ [0] @ rest) (length (wire_labels ls @ [0] @ rest)) DNS_MAX_NAME =
    Some (length (wire_labels ls) + 1, dotted_name ls)"
  using decode_labels [OF assms(1) refl, of "[]" "[]" rest] length_dotted_name [OF assms(1)] assms(2)
  by (simp add: dns_decode_name_def joined_def)

abbreviation question :: "string list \<Rightarrow> bytes" where
  "question ls \<equiv> wire_labels ls @ [0] @ write_u16_be DNS_TYPE_A @ write_u16_be DNS_CLASS_IN"

lemma query_bytes:
  assumes "\<forall>l \<in> set ls. dns_label l" "length (wire_labels ls) < 255" "dns_create_query n ident (dotted_name ls) = Some query"
  shows "query = write_u16_be ident @ write_u16_be (DNS_QR_QUERY OR DNS_OPCODE_QUERY OR DNS_RD_FLAG) @
      write_u16_be 1 @ write_u16_be 0 @ write_u16_be 0 @ write_u16_be 0 @ question ls"
  using assms(3) by (simp add: dns_create_query_def encode_name [OF assms(1,2)] split: if_split_asm)

lemma clean_c_string: "CHR 0x00 \<notin> set s \<Longrightarrow> c_string s = s"
  by (auto simp: c_string_def takeWhile_eq_all_conv)

lemma server_answers:
  assumes "\<forall>l \<in> set ls. dns_label l" "length (wire_labels ls) < 255"
    and "query = write_u16_be ident @ hdr @ question ls" "length hdr = 10"
  shows "dns_server_handle_query d query 1024 =
    Some (dns_build_response 1024 ident (wire_labels ls @ [0]) (dns_server_resolve (dotted_name ls) d))"
proof -
  let ?q = "wire_labels ls @ [0] @ write_u16_be DNS_TYPE_A @ write_u16_be DNS_CLASS_IN"
  have q: "drop 12 query = ?q" "\<not> length query < 12" "length query - 12 = length ?q"
    using assms(3,4) by simp_all
  have "dns_decode_name (drop 12 query) (length query - 12) DNS_MAX_NAME = Some (length (wire_labels ls) + 1, dotted_name ls)"
    unfolding q by (rule decode_name [OF assms(1,2)])
  moreover have "read_u16_be query 0 = ident" using assms(3) by simp
  ultimately show ?thesis
    using q(2) encode_name [OF assms(1,2)] clean_c_string [OF dotted_name_clean [OF assms(1)]]
    unfolding dns_server_handle_query_def by simp
qed

lemma response_bytes:
  assumes "length (wire_labels ls) < 255"
  shows "dns_build_response 1024 ident (wire_labels ls @ [0]) resolved =
    Some (write_u16_be ident @ write_u16_be (dns_response_flags (resolved \<noteq> None)) @ write_u16_be 1 @
      write_u16_be (if resolved \<noteq> None then 1 else 0) @ write_u16_be 0 @ write_u16_be 0 @ question ls @
      (case resolved of None \<Rightarrow> []
       | Some ip \<Rightarrow> write_u16_be 0xC00C @ write_u16_be DNS_TYPE_A @ write_u16_be DNS_CLASS_IN @
           write_u32_be 300 @ write_u16_be 4 @ octet_bytes (octet ip)))"
  using assms by (cases resolved) (simp_all add: dns_build_response_def Let_def)

lemma response_flags_nibble: "dns_response_flags b AND 0x000F = (if b then 0 else 3)"
proof -
  have "dns_response_flags True AND 0x000F = 0" "dns_response_flags False AND 0x000F = 3" by code_simp+
  then show ?thesis by simp
qed

lemma response_read:
  assumes "\<forall>l \<in> set ls. dns_label l" "length (wire_labels ls) < 255"
    and "response = write_u16_be ident @ write_u16_be (dns_response_flags True) @ write_u16_be 1 @
      write_u16_be 1 @ write_u16_be 0 @ write_u16_be 0 @ question ls @ write_u16_be 0xC00C @ write_u16_be DNS_TYPE_A @
      write_u16_be DNS_CLASS_IN @ write_u32_be 300 @ write_u16_be 4 @ octet_bytes os"
  shows "dns_parse_response response = Some (Some (ip_init os 0))"
proof -
  let ?hdr = "write_u16_be ident @ write_u16_be (dns_response_flags True) @ write_u16_be 1 @
      write_u16_be 1 @ write_u16_be 0 @ write_u16_be 0"
  let ?ans = "write_u16_be 0xC00C @ write_u16_be DNS_TYPE_A @ write_u16_be DNS_CLASS_IN @
      write_u32_be 300 @ write_u16_be 4 @ octet_bytes os"
  let ?tail = "write_u16_be DNS_TYPE_A @ write_u16_be DNS_CLASS_IN @ ?ans"
  have resp: "response = ?hdr @ wire_labels ls @ [0] @ ?tail" using assms(3) by simp
  have len: "length response = 33 + length (wire_labels ls)" by (simp add: resp)
  have flags: "read_u16_be response 2 AND 0x000F = 0"
    using read_u16_at [of "write_u16_be ident" 2 "dns_response_flags True"] response_flags_nibble [of True] by (simp add: resp)
  have counts: "read_u16_be response 4 = 1" "read_u16_be response 6 = 1"
    using read_u16_at [of "write_u16_be ident @ write_u16_be (dns_response_flags True)" 4 1]
      read_u16_at [of "write_u16_be ident @ write_u16_be (dns_response_flags True) @ write_u16_be 1" 6 1]
    by (simp_all add: resp)
  have d12: "drop 12 response = wire_labels ls @ [0] @ ?tail" by (simp add: resp)
  have l12: "length response - 12 = length (wire_labels ls @ [0] @ ?tail)" by (simp add: resp)
  have "dns_decode_name (drop 12 response) (length response - 12) DNS_MAX_NAME = Some (length (wire_labels ls) + 1, dotted_name ls)"
    unfolding d12 l12 by (rule decode_name [OF assms(1,2)])
  then have skip: "dns_skip_questions (Suc 0) response 12 = Some (Some (12 + (length (wire_labels ls) + 1) + 4))"
    using len by simp
  let ?pos = "length (wire_labels ls) + 17"
  have pre: "length (?hdr @ question ls) = ?pos" by simp
  let ?P = "?hdr @ question ls"
  have at: "response = ?P @ ?ans" using assms(3) by simp
  have "write_u16_be 0xC00C = [0xC0, 0x0C]" by code_simp
  then have c0: "response ! ?pos = 0xC0" using at nth_append_length [of ?P "0xC0"] by (simp add: pre [symmetric] del: length_append)
  have ty: "read_u16_be response (?pos + 2) = DNS_TYPE_A"
    using read_u16_at [of "?P @ write_u16_be 0xC00C" "?pos + 2" DNS_TYPE_A] by (simp add: at)
  have rd: "read_u16_be response (?pos + 10) = 4"
    using read_u16_at [of "?P @ write_u16_be 0xC00C @ write_u16_be DNS_TYPE_A @ write_u16_be DNS_CLASS_IN @ write_u32_be 300" "?pos + 10" 4]
    by (simp add: at)
  have ip: "take 4 (drop (?pos + 12) response) = octet_bytes os" by (simp add: at)
  have "dns_scan_answers (Suc 0) response ?pos = Some (Some (ip_init os 0))"
    using c0 ty rd ip len by (simp add: Let_def add.commute)
  then show ?thesis
    using len flags counts skip unfolding dns_parse_response_def by (simp add: add.commute)
qed

lemma refusal_read:
  assumes "response = write_u16_be ident @ write_u16_be (dns_response_flags False) @ rest" "8 \<le> length rest"
  shows "dns_parse_response response = Some None"
proof -
  have "read_u16_be response 2 AND 0x000F = 3"
    using read_u16_at [of "write_u16_be ident" 2 "dns_response_flags False"] response_flags_nibble [of False]
    by (simp add: assms(1))
  then show ?thesis by (simp add: dns_parse_response_def)
qed

lemma lookup_answered:
  assumes "\<forall>l \<in> set ls. dns_label l" "length (wire_labels ls) < 255"
    and "dns_create_query n ident (dotted_name ls) = Some query"
  shows "\<exists>response. dns_server_handle_query d query 1024 = Some (Some response) \<and>
    read_u16_be response 0 = ident \<and>
    length response \<le> 512 \<and> response \<noteq> [] \<and>
    dns_parse_response response =
      Some (map_option (\<lambda>ip. ip_init (octet ip) 0) (dns_server_resolve (dotted_name ls) d))"
proof -
  let ?r = "dns_server_resolve (dotted_name ls) d"
  let ?hdr = "write_u16_be (DNS_QR_QUERY OR DNS_OPCODE_QUERY OR DNS_RD_FLAG) @
    write_u16_be 1 @ write_u16_be 0 @ write_u16_be 0 @ write_u16_be 0"
  have "query = write_u16_be ident @ ?hdr @ question ls" "length ?hdr = 10" using query_bytes [OF assms] by simp_all
  from server_answers [OF assms(1,2) this, of d] response_bytes [OF assms(2), of ident ?r]
  obtain response where response: "dns_server_handle_query d query 1024 = Some (Some response)"
    "response = write_u16_be ident @ write_u16_be (dns_response_flags (?r \<noteq> None)) @ write_u16_be 1 @
      write_u16_be (if ?r \<noteq> None then 1 else 0) @ write_u16_be 0 @ write_u16_be 0 @ question ls @
      (case ?r of None \<Rightarrow> []
       | Some ip \<Rightarrow> write_u16_be 0xC00C @ write_u16_be DNS_TYPE_A @ write_u16_be DNS_CLASS_IN @
           write_u32_be 300 @ write_u16_be 4 @ octet_bytes (octet ip))"
    by simp
  have "dns_parse_response response = Some (map_option (\<lambda>ip. ip_init (octet ip) 0) ?r)"
  proof (cases ?r)
    case None
    then show ?thesis using refusal_read [of response ident] response(2) by simp
  next
    case (Some ip)
    then show ?thesis
      using response_read [OF assms(1,2), of response ident "octet ip"] response(2) by simp
  qed
  moreover have "read_u16_be response 0 = ident" by (simp add: response(2))
  moreover have "response \<noteq> []" by (simp add: response(2) write_u16_be_def)
  moreover have "length response \<le> 512" using assms(2) by (simp add: response(2) split: option.split)
  ultimately show ?thesis using response(1) by blast
qed

text \<open>C18. A client of the DNS server gets the right answer. For a name of labels of 1 to 63
  characters that fits the name buffer, the server of \<^verbatim>\<open>dns_server.c\<close> answers the query that
  \<^verbatim>\<open>dns_create_query\<close> builds for it with a message carrying the query's identifier, and
  \<^verbatim>\<open>dns_parse_response\<close> reads from that message exactly what the server's table holds for the name:
  its address (with the prefix length zero, which is not sent) or, when the table has none, no address.
  In particular neither decoder hangs or reads outside the messages.\<close>

theorem dns_lookup_answers:
  assumes "\<forall>l \<in> set ls. dns_label l" "length (wire_labels ls) < 255"
    and "dns_create_query n ident (dotted_name ls) = Some query"
  shows "\<exists>response. dns_server_handle_query d query 1024 = Some (Some response) \<and>
    read_u16_be response 0 = ident \<and>
    dns_parse_response response =
      Some (map_option (\<lambda>ip. ip_init (octet ip) 0) (dns_server_resolve (dotted_name ls) d))"
  using lookup_answered [OF assms, of d] by blast

theorem dns_lookup_answers_witness:
  "\<exists>query response. dns_create_query 512 7 ''magi.com'' = Some query \<and>
    dns_server_handle_query \<lparr>dn_table = [(''magi.com'', ip_init (Octets 10 0 0 5) 24)], dn_bound_host = None\<rparr> query 1024 =
      Some (Some response) \<and>
    dns_parse_response response = Some (Some (ip_init (Octets 10 0 0 5) 0))"
proof -
  let ?ls = "[''magi'', ''com'']"
  let ?d = "\<lparr>dn_table = [(''magi.com'', ip_init (Octets 10 0 0 5) 24)], dn_bound_host = None\<rparr>"
  have 1: "\<forall>l \<in> set ?ls. dns_label l" "length (wire_labels ?ls) < 255" by (simp_all add: dns_label_def)
  have name: "dotted_name ?ls = ''magi.com''" by simp
  obtain query where 2: "dns_create_query 512 7 ''magi.com'' = Some query"
    using encode_name [OF 1] by (simp add: dns_create_query_def)
  have "dns_server_resolve ''magi.com'' ?d = Some (ip_init (Octets 10 0 0 5) 24)" by code_simp
  then show ?thesis using dns_lookup_answers [OF 1, of 512 7 query ?d] 2 by (auto simp: name ip_init_def)
qed

section \<open>A name that is never decoded\<close>

lemma pointer_loop:
  assumes "dns_decode_loop raw max_len n pos out jumped = Some r"
    and "raw ! 0 = 0xC0" "raw ! 1 = 0" "raw ! 3 = 0" "2 \<le> max_len" "4 \<le> length raw" "pos = 0"
  shows False
  using assms
proof (induction rule: dns_decode_loop.raw_induct [rotated, consumes 1, case_names step])
  case (step loop raw max_len n pos out jumped r)
  let ?k = "(if jumped then 0 else 2) + 1 :: nat"
  have "(0xC0 :: u8) AND 0xC0 = 0xC0" "(0xC0 :: u8) AND 0x3F = 0" by code_simp+
  moreover have "raw ! ?k = 0" "?k < length raw" using step.prems by (simp_all add: eval_nat_numeral)
  ultimately have "loop raw max_len n 0 out True = Some r"
    using step.hyps step.prems by (auto simp: Let_def eval_nat_numeral split: if_split_asm)
  then show ?case by (rule step.IH) (use step.prems in simp_all)
qed

text \<open>C33. A query whose name starts with a compression pointer to itself stops the server for
  ever: when the question begins with the bytes C0 00 and its fourth byte is zero as well, \<^verbatim>\<open>dns_decode_name\<close>
  follows the pointer without a limit on the number of jumps, all its reads lying inside the message, and
  \<^verbatim>\<open>dns_server_handle_query\<close> does not return whatever the table holds.\<close>

theorem pointer_loop_hangs:
  assumes "16 \<le> length query" "query ! 12 = 0xC0" "query ! 13 = 0" "query ! 15 = 0"
  shows "dns_server_handle_query d query max_resp_len = None"
proof -
  have "dns_decode_name (drop 12 query) (length query - 12) DNS_MAX_NAME = None"
    using pointer_loop [of "drop 12 query" "length query - 12" DNS_MAX_NAME 0 "[]" False] assms
      diff_le_mono [OF assms(1), of 12]
    by (cases "dns_decode_loop (drop 12 query) (length query - 12) DNS_MAX_NAME 0 [] False")
      (simp_all add: dns_decode_name_def)
  then show ?thesis using assms(1) by (simp add: dns_server_handle_query_def)
qed

theorem pointer_loop_hangs_witness:
  "dns_server_handle_query \<lparr>dn_table = [], dn_bound_host = None\<rparr>
    ([0, 7, 1, 0, 0, 1, 0, 0, 0, 0, 0, 0] @ [0xC0, 0, 0, 0, 0, 1, 0, 1]) 1024 = None"
  by (rule pointer_loop_hangs) simp_all

end
