(* ===== verification/Table_Refinement.thy ===== *)
theory Table_Refinement
  imports Arp String_Map Switch_Table
begin

text \<open>
  What the tables of the stack promise, as an abstract machine: a finite map with a limit on its
  keys. Every sequence of operations on the arrays of \<^verbatim>\<open>arp.c\<close>, \<^verbatim>\<open>map.c\<close> and of the MAC table of
  \<^verbatim>\<open>switch.c\<close> gives the answers that the abstract machine gives. The simulation is shown once,
  for every table with the contract \<open>keyed_table\<close>.
\<close>

section \<open>The abstract machine\<close>

datatype ('a, 'v) table_op = Op_get 'a | Op_set 'a 'v | Op_remove 'a

datatype 'v table_answer = Found "'v option" | Result bool

definition table_step ::
  "('t \<Rightarrow> 'a \<Rightarrow> 'v option) \<Rightarrow> ('t \<Rightarrow> 'a \<Rightarrow> 'v \<Rightarrow> bool \<times> 't) \<Rightarrow> ('t \<Rightarrow> 'a \<Rightarrow> bool \<times> 't) \<Rightarrow>
    ('a, 'v) table_op \<Rightarrow> 't \<Rightarrow> 'v table_answer \<times> 't" where
  "table_step get put remove c t =
    (case c of
       Op_get a \<Rightarrow> (Found (get t a), t)
     | Op_set a v \<Rightarrow> map_prod Result id (put t a v)
     | Op_remove a \<Rightarrow> map_prod Result id (remove t a))"

definition bounded_map_step ::
  "nat \<Rightarrow> ('a \<Rightarrow> 'k) \<Rightarrow> ('a, 'v) table_op \<Rightarrow> ('k \<Rightarrow> 'v option) \<Rightarrow> 'v table_answer \<times> ('k \<Rightarrow> 'v option)" where
  "bounded_map_step cap key c m =
    (case c of
       Op_get a \<Rightarrow> (Found (m (key a)), m)
     | Op_set a v \<Rightarrow>
         if m (key a) = None \<and> cap \<le> card (dom m) then (Result False, m)
         else (Result True, m(key a \<mapsto> v))
     | Op_remove a \<Rightarrow> (Result (m (key a) \<noteq> None), m(key a := None)))"

fun run_ops :: "('c \<Rightarrow> 't \<Rightarrow> 'r \<times> 't) \<Rightarrow> 'c list \<Rightarrow> 't \<Rightarrow> 'r list \<times> 't" where
  "run_ops step [] t = ([], t)"
| "run_ops step (c # cs) t =
    (let (r, t) = step c t; (rs, t) = run_ops step cs t in (r # rs, t))"

text \<open>A step-by-step simulation carries over to every sequence of operations.\<close>

lemma run_ops_simulation:
  assumes "\<And>c t. I t \<Longrightarrow> L c \<Longrightarrow> abs_step c (f t) = map_prod id f (step c t) \<and> I (snd (step c t))"
    and "I t" "\<forall>c \<in> set cs. L c"
  shows "run_ops abs_step cs (f t) = map_prod id f (run_ops step cs t)"
  using assms(2,3)
proof (induction cs arbitrary: t)
  case (Cons c cs)
  obtain r t' where s: "step c t = (r, t')" by fastforce
  have "abs_step c (f t) = (r, f t')" "I t'" using assms(1) [of t c] Cons.prems s by simp_all
  then show ?case
    using Cons.IH [of t'] Cons.prems(2) s by (simp add: case_prod_unfold Let_def)
qed simp

primrec op_legal :: "('a \<Rightarrow> 'v \<Rightarrow> bool) \<Rightarrow> ('a, 'v) table_op \<Rightarrow> bool" where
  "op_legal P (Op_get a) = True"
| "op_legal P (Op_set a v) = P a v"
| "op_legal P (Op_remove a) = True"

section \<open>The simulation\<close>

context keyed_table
begin

lemma step_refines:
  assumes i: "inv t" and l: "op_legal legal c"
  shows "bounded_map_step cap arg c (contents t) = map_prod id contents (table_step get put remove c t) \<and>
    inv (snd (table_step get put remove c t))"
proof (cases c)
  case (Op_get a)
  then show ?thesis using i by (simp add: bounded_map_step_def table_step_def get_contents)
next
  case (Op_set a v)
  have l: "legal a v" using l Op_set by simp
  show ?thesis
  proof (cases "contents t (arg a) \<noteq> None \<or> tab_size t < cap")
    case True
    obtain t' where "put t a v = (True, t')" using put_room(1) [OF i l True] by (metis prod.collapse)
    then show ?thesis
      using put_room(2,3) [OF i l True] True Op_set dom_size [OF i]
      by (auto simp: bounded_map_step_def table_step_def)
  next
    case False
    then show ?thesis
      using put_full [OF i l] i Op_set dom_size [OF i]
      by (simp add: bounded_map_step_def table_step_def)
  qed
next
  case (Op_remove a)
  obtain b t' where r: "remove t a = (b, t')" by fastforce
  show ?thesis
  proof (cases "contents t (arg a) = None")
    case True
    then have "(contents t)(arg a := None) = contents t" by (simp add: fun_upd_idem_iff)
    then show ?thesis
      using remove_absent [OF i True] True r Op_remove by (simp add: bounded_map_step_def table_step_def)
  next
    case False
    then show ?thesis
      using remove_present [OF i False] r Op_remove by (simp add: bounded_map_step_def table_step_def)
  qed
qed

lemma table_refines:
  assumes "\<forall>c \<in> set cs. op_legal legal c"
  shows "run_ops (bounded_map_step cap arg) cs Map.empty =
    map_prod id contents (run_ops (table_step get put remove) cs zero)"
proof -
  have "contents zero = Map.empty" by (simp add: tab_map_def live_def zero_size)
  then show ?thesis
    using run_ops_simulation [where I = inv and L = "op_legal legal" and f = contents
        and abs_step = "bounded_map_step cap arg" and step = "table_step get put remove",
        OF step_refines inv_empty assms]
    by simp
qed

end

section \<open>The tables of the stack\<close>

lemma op_legal_trivial: "op_legal (\<lambda>_ _. True) c"
  by (cases c) simp_all

text \<open>C24. The ARP table of \<^verbatim>\<open>arp.c\<close> is a map from addresses without their prefix length to hardware
  addresses that holds at most 100 of them. For every sequence of lookups, insertions and removals
  on a new table, the answers of the array with its linear searches and shifting removals are those of the abstract map,
  and the entries in use are the abstract map at the end.\<close>

theorem arp_table_refines:
  "run_ops (bounded_map_step ARP_TABLE_MAX_ENTRIES octet) cs Map.empty =
    map_prod id (\<lambda>t. map_of (map (\<lambda>e. (octet (ae_ip e), ae_mac e)) (take (tab_size t) (tab_entries t))))
      (run_ops (table_step arp_table_get arp_table_set arp_table_remove) cs (arp_table_init arp_table_zero))"
proof -
  have z: "arp_table_init arp_table_zero = arp_table_zero" by (simp add: arp_table_init_def arp_table_zero_def)
  show ?thesis
    unfolding z tab_map_def [symmetric] live_def [symmetric]
    by (rule arp.table_refines) (simp add: op_legal_trivial)
qed

lemma string_map_refines:
  assumes "\<forall>c \<in> set cs. op_legal fits c"
  shows "run_ops (bounded_map_step MAP_MAX_ENTRIES id) cs Map.empty =
    map_prod id (tab_map me_key me_value) (run_ops (table_step map_get map_insert map_remove) cs string_map_zero)"
  by (rule smap.table_refines [OF assms])

lemma mac_table_refines:
  assumes "\<forall>c \<in> set cs. op_legal (\<lambda>a p. 1 \<le> fst a \<and> 1 \<le> p) c"
  shows "run_ops (bounded_map_step SWITCH_MAC_TABLE_MAX_ENTRIES (\<lambda>a. a)) cs Map.empty =
    map_prod id (tab_map sm_key sm_port)
      (run_ops (table_step (\<lambda>t (v, m). switch_mac_table_get t v m) (\<lambda>t (v, m). switch_mac_table_set t v m)
        (\<lambda>t (v, m). switch_mac_table_remove t v m)) cs switch_mac_table_zero)"
  by (rule macs.table_refines [OF assms])

end
