(* ===== verification/Link_Slots.thy ===== *)
theory Link_Slots
  imports Simulator
begin

text \<open>
  Cables and the array of links: \<^verbatim>\<open>simulator_link\<close> connects two interfaces, and
  \<^verbatim>\<open>simulator_unlink\<close> moves links in the array while interfaces keep pointing at the old slots.
\<close>

section \<open>Interfaces and links\<close>

lemma get_iface_links [simp]: "get_iface r (w\<lparr>w_links := ls\<rparr>) = get_iface r w"
  by (simp add: get_iface_def)

lemma upd_iface_links [simp]: "w_links (upd_iface r f w) = w_links w" "w_clock (upd_iface r f w) = w_clock w"
  by (simp_all add: upd_iface_def split: option.split)

lemma node_base_map [simp]: "node_base_of (map_base f nd) = f (node_base_of nd)"
  by (cases nd) simp_all

lemma get_upd_iface: "get_iface r (upd_iface r' f w) =
    (if r = r' then map_option f (get_iface r w) else get_iface r w)"
  by (cases r; cases r') (auto simp: get_iface_def upd_iface_def Let_def split: option.split)

text \<open>What a successful \<^verbatim>\<open>simulator_link\<close> leaves: both ends free before, the next slot taken.\<close>

lemma link_links:
  assumes "map_option if_link (get_iface a w) = Some None" "map_option if_link (get_iface b w) = Some None"
    and "l < length (w_links w)"
  shows "w_links (link_init l a b d w) ! l = \<lparr>ln_if1 = Some a, ln_if2 = Some b, ln_delay = d\<rparr>"
    and "w_clock (link_init l a b d w) = w_clock w"
    and "get_iface r (link_init l a b d w) =
      (if r = a \<or> r = b then map_option (\<lambda>f. f\<lparr>if_link := Some l\<rparr>) (get_iface r w) else get_iface r w)"
  using assms by (auto simp: link_init_def link_link_def Let_def get_upd_iface option.map_comp comp_def)

lemma simulator_link_made:
  assumes "simulator_link ea eb d s = Some (True, s')"
  shows "\<exists>a b. endpoint_to_interface s ea = Some (Some a) \<and> endpoint_to_interface s eb = Some (Some b) \<and> a \<noteq> b \<and>
    map_option if_link (get_iface a (si_world s)) = Some None \<and> map_option if_link (get_iface b (si_world s)) = Some None \<and>
    si_world s' = link_init (si_link_count s) a b (max 0 d) (si_world s)"
proof -
  obtain a where a: "endpoint_to_interface s ea = Some (Some a)"
    using assms by (cases "endpoint_to_interface s ea") (auto simp: simulator_link_def Let_def split: if_split_asm option.split_asm)
  obtain b where b: "endpoint_to_interface s eb = Some (Some b)"
    using assms a by (cases "endpoint_to_interface s eb") (auto simp: simulator_link_def Let_def split: if_split_asm option.split_asm)
  have d: "(if d < 0 then 0 else d) = max 0 d" by simp
  obtain fa fb where f: "get_iface a (si_world s) = Some fa" "get_iface b (si_world s) = Some fb"
    using assms a b by (cases "get_iface a (si_world s)"; cases "get_iface b (si_world s)")
      (auto simp: simulator_link_def Let_def split: if_split_asm)
  show ?thesis
    using assms a b f unfolding simulator_link_def Let_def d by (auto split: if_split_asm)
qed

lemma link_connects:
  assumes "simulator_link ea eb d s = Some (True, s')" "si_link_count s < length (w_links (si_world s))"
    and "d \<le> 0 \<or> \<not> sim_clock_realtime_enabled (w_clock (si_world s))"
  shows "\<exists>a b. endpoint_to_interface s ea = Some (Some a) \<and> endpoint_to_interface s eb = Some (Some b) \<and>
    interface_send deliver a raw (si_world s') = deliver b raw (si_world s') \<and>
    interface_send deliver b raw (si_world s') = deliver a raw (si_world s')"
proof -
  from simulator_link_made [OF assms(1)] obtain a b where ends: "endpoint_to_interface s ea = Some (Some a)"
    "endpoint_to_interface s eb = Some (Some b)" "a \<noteq> b"
    "map_option if_link (get_iface a (si_world s)) = Some None" "map_option if_link (get_iface b (si_world s)) = Some None"
    "si_world s' = link_init (si_link_count s) a b (max 0 d) (si_world s)" by blast
  note made = link_links [OF ends(4,5) assms(2), where d = "max 0 d", folded ends(6)]
  obtain fa where "get_iface a (si_world s') = Some fa" "if_link fa = Some (si_link_count s)"
    using made(3) [where r = a] ends(4) by auto
  moreover obtain fb where "get_iface b (si_world s') = Some fb" "if_link fb = Some (si_link_count s)"
    using made(3) [where r = b] ends(5) by auto
  ultimately have "interface_send deliver a raw (si_world s') = deliver b raw (si_world s')"
    "interface_send deliver b raw (si_world s') = deliver a raw (si_world s')"
    using made(1,2) assms(3) ends(3) by (auto simp: interface_send_def transmit_def other_end_def Let_def max_def)
  then show ?thesis using ends(1,2) by blast
qed

section \<open>The moved links\<close>

lemma drop_link_count:
  "si_link_count (drop_link i s) = si_link_count s - 1"
  "length (w_links (si_world (drop_link i s))) = length (w_links (si_world s))"
  by (simp_all add: drop_link_def link_unlink_def Let_def split: option.split)

lemma simulator_unlink_drops:
  assumes "simulator_unlink ea eb s = Some (True, s')"
  shows "\<exists>i. s' = drop_link i s"
proof -
  obtain a where a: "endpoint_to_interface s ea = Some (Some a)"
    using assms by (cases "endpoint_to_interface s ea") (auto simp: simulator_unlink_def split: option.split_asm)
  obtain b where b: "endpoint_to_interface s eb = Some (Some b)"
    using assms a by (cases "endpoint_to_interface s eb") (auto simp: simulator_unlink_def split: option.split_asm)
  show ?thesis using assms a b by (auto simp: simulator_unlink_def split: option.split_asm)
qed

text \<open>C34. Unlinking two nodes can disconnect two others. \<^verbatim>\<open>simulator_unlink\<close> moves the later links
  down in the array, but their interfaces keep pointing at the old slots. An interface on the last link
  that is still connected after another link was unlinked points at the slot past the end, which the next
  \<^verbatim>\<open>simulator_link\<close> overwrites: from then on every frame the interface sends is dropped, although nobody
  unlinked it.\<close>

theorem unlink_breaks_link:
  assumes "simulator_unlink a b s = Some (True, s1)" "simulator_link x y d s1 = Some (True, s2)"
    and "0 < si_link_count s" "si_link_count s \<le> length (w_links (si_world s))"
    and "map_option if_link (get_iface r (si_world s1)) = Some (Some (si_link_count s - 1))"
  shows "interface_send deliver r raw (si_world s2) = Some (si_world s2)"
proof -
  let ?l = "si_link_count s - 1"
  obtain i where "s1 = drop_link i s" using simulator_unlink_drops [OF assms(1)] by blast
  note count = drop_link_count [of i s, folded this]
  from simulator_link_made [OF assms(2)] obtain p q where ends:
    "map_option if_link (get_iface p (si_world s1)) = Some None" "map_option if_link (get_iface q (si_world s1)) = Some None"
    "si_world s2 = link_init ?l p q (max 0 d) (si_world s1)" unfolding count(1) by blast
  have "?l < length (w_links (si_world s1))" using count(2) assms(3,4) by simp
  note made = link_links [OF ends(1,2) this, where d = "max 0 d", folded ends(3)]
  have other: "r \<noteq> p" "r \<noteq> q" using ends(1,2) assms(5) by auto
  obtain f where "get_iface r (si_world s2) = Some f" "if_link f = Some ?l"
    using made(3) [where r = r] other assms(5) by auto
  then show ?thesis using made(1) other by (simp add: interface_send_def transmit_def other_end_def Let_def)
qed

text \<open>The witness: four hosts A, B, C and D with two cables. A and B are unlinked and linked again, and C has lost D.\<close>

definition wired_host :: "string \<Rightarrow> link_ref \<Rightarrow> node" where
  "wired_host name l = HostNode ((undefined :: host)\<lparr>h_base := \<lparr>nb_type = NODE_HOST, nb_name = name, nb_num = 1,
     nb_ifs = [\<lparr>if_port = 1, if_mac = mac_zero, if_link = Some l, if_node = None\<rparr>]\<rparr>\<rparr>)"

definition wired_pairs :: simulator where
  "wired_pairs = \<lparr>si_world = (undefined :: world)\<lparr>
      w_nodes := [0 \<mapsto> wired_host ''A'' 0, 1 \<mapsto> wired_host ''B'' 0, 2 \<mapsto> wired_host ''C'' 1, 3 \<mapsto> wired_host ''D'' 1],
      w_links := [\<lparr>ln_if1 = Some (0, 0), ln_if2 = Some (1, 0), ln_delay = 0\<rparr>,
        \<lparr>ln_if1 = Some (2, 0), ln_if2 = Some (3, 0), ln_delay = 0\<rparr>]\<rparr>,
    si_nodes = map (\<lambda>(name, n). \<lparr>en_name = name, en_type = SIM_NODE_HOST, en_node = Some n\<rparr>)
      [(''A'', 0), (''B'', 1), (''C'', 2), (''D'', 3)],
    si_link_count = 2, si_interfaces = map (\<lambda>n. (n, 0)) [0..<4], si_next = 4, si_rand = 0\<rparr>"

lemma drop_link_nodes [simp]: "si_nodes (drop_link i s) = si_nodes s"
  by (simp add: drop_link_def Let_def)

lemma wired_found:
  "simulator_find_node wired_pairs ''A'' = Some 0" "simulator_find_node wired_pairs ''B'' = Some 1"
  by (simp_all add: simulator_find_node_def first_index_Some wired_pairs_def)

text \<open>The first cable gone: the ends of the second still point at slot 1.\<close>

lemma wired_dropped:
  "w_nodes (si_world (drop_link 0 wired_pairs)) = [0 \<mapsto> map_base (\<lambda>b. b\<lparr>nb_ifs := [(nb_ifs b ! 0)\<lparr>if_link := None\<rparr>]\<rparr>) (wired_host ''A'' 0),
    1 \<mapsto> map_base (\<lambda>b. b\<lparr>nb_ifs := [(nb_ifs b ! 0)\<lparr>if_link := None\<rparr>]\<rparr>) (wired_host ''B'' 0),
    2 \<mapsto> wired_host ''C'' 1, 3 \<mapsto> wired_host ''D'' 1]"
  "w_links (si_world (drop_link 0 wired_pairs)) = replicate 2 \<lparr>ln_if1 = Some (2, 0), ln_if2 = Some (3, 0), ln_delay = 0\<rparr>"
  by (simp_all add: drop_link_def link_unlink_def wired_pairs_def upd_iface_def Let_def shift_down.simps
      wired_host_def put_node_def fun_eq_iff eval_nat_numeral)

lemma wired_endpoints:
  "endpoint_to_interface wired_pairs ''A'' = Some (Some (0, 0))"
  "endpoint_to_interface wired_pairs ''B'' = Some (Some (1, 0))"
  "endpoint_to_interface (drop_link 0 wired_pairs) ''A'' = Some (Some (0, 0))"
  "endpoint_to_interface (drop_link 0 wired_pairs) ''B'' = Some (Some (1, 0))"
proof -
  have "simulator_find_node (drop_link 0 wired_pairs) = simulator_find_node wired_pairs"
    by (simp add: fun_eq_iff simulator_find_node_def)
  note * = wired_found wired_found [folded this]
  have n: "si_nodes wired_pairs ! 0 = \<lparr>en_name = ''A'', en_type = SIM_NODE_HOST, en_node = Some 0\<rparr>"
    "si_nodes wired_pairs ! Suc 0 = \<lparr>en_name = ''B'', en_type = SIM_NODE_HOST, en_node = Some 1\<rparr>"
    "w_nodes (si_world wired_pairs) 0 = Some (wired_host ''A'' 0)"
    "w_nodes (si_world wired_pairs) (Suc 0) = Some (wired_host ''B'' 0)"
    by (simp_all add: wired_pairs_def)
  show "endpoint_to_interface wired_pairs ''A'' = Some (Some (0, 0))"
    "endpoint_to_interface wired_pairs ''B'' = Some (Some (1, 0))"
    "endpoint_to_interface (drop_link 0 wired_pairs) ''A'' = Some (Some (0, 0))"
    "endpoint_to_interface (drop_link 0 wired_pairs) ''B'' = Some (Some (1, 0))"
    by (simp_all add: endpoint_to_interface_def parse_endpoint_def * n wired_dropped wired_host_def node_get_interface_def)
qed

lemma wired_unlink:
  "simulator_unlink ''A'' ''B'' wired_pairs = Some (True, drop_link 0 wired_pairs)"
proof -
  have "first_index (\<lambda>i. joins (0, 0) (1, 0) (w_links (si_world wired_pairs) ! i)) (si_link_count wired_pairs) = Some 0"
    by (simp add: first_index_Some joins_def wired_pairs_def)
  then show ?thesis by (simp add: simulator_unlink_def wired_endpoints)
qed

lemma wired_relink:
  "\<exists>s2. simulator_link ''A'' ''B'' 0 (drop_link 0 wired_pairs) = Some (True, s2)"
proof -
  have "si_link_count (drop_link 0 wired_pairs) = 1" by (simp add: drop_link_count wired_pairs_def)
  moreover have "map_option if_link (get_iface (0, 0) (si_world (drop_link 0 wired_pairs))) = Some None"
    "map_option if_link (get_iface (1, 0) (si_world (drop_link 0 wired_pairs))) = Some None"
    by (simp_all add: get_iface_def wired_dropped wired_host_def)
  ultimately show ?thesis
    by (auto simp: simulator_link_def wired_endpoints Let_def wired_dropped joins_def)
qed

theorem unlink_breaks_link_witness:
  "\<exists>s1 s2. simulator_unlink ''A'' ''B'' wired_pairs = Some (True, s1) \<and>
    simulator_link ''A'' ''B'' 0 s1 = Some (True, s2) \<and>
    interface_send (\<lambda>_ _ _. None) (2, 0) [] (si_world s2) = Some (si_world s2)"
proof -
  obtain s2 where s2: "simulator_link ''A'' ''B'' 0 (drop_link 0 wired_pairs) = Some (True, s2)"
    using wired_relink by blast
  have "map_option if_link (get_iface (2, 0) (si_world (drop_link 0 wired_pairs))) = Some (Some (si_link_count wired_pairs - 1))"
    by (simp add: get_iface_def wired_dropped wired_host_def) (simp add: wired_pairs_def)
  then have "interface_send (\<lambda>_ _ _. None) (2, 0) [] (si_world s2) = Some (si_world s2)"
    by (intro unlink_breaks_link [OF wired_unlink s2]) (simp_all add: wired_pairs_def)
  then show ?thesis using wired_unlink s2 by blast
qed

end
