(* ===== verification/Host_Dialogue.thy ===== *)
theory Host_Dialogue
  imports Forwarding Link_Slots
begin

text \<open>
  Two hosts on a cable: what a host answers to a frame, and how the answers fit together when one
  host pings another whose hardware address it does not know yet.
\<close>

section \<open>The cable\<close>

text \<open>Interface 0 of one host is linked with interface 0 of another, and frames are not delayed.\<close>

definition cable :: "node_id \<Rightarrow> node_id \<Rightarrow> world \<Rightarrow> bool" where
  "cable a b w \<longleftrightarrow> (\<exists>l f g. get_iface (a, 0) w = Some f \<and> get_iface (b, 0) w = Some g \<and>
     if_link f = Some l \<and> if_link g = Some l \<and> if_node f = Some a \<and> if_node g = Some b \<and>
     other_end (w_links w ! l) (a, 0) = Some (b, 0) \<and> other_end (w_links w ! l) (b, 0) = Some (a, 0) \<and>
     \<not> (ck_realtime (w_clock w) \<and> 0 < ln_delay (w_links w ! l)))"

lemma cable_sym: "cable a b w \<Longrightarrow> cable b a w"
  by (auto simp: cable_def)

lemma get_iface_put_host:
  "get_host n w = Some h \<Longrightarrow> h_base h' = h_base h \<Longrightarrow> get_iface r (put_host n h' w) = get_iface r w"
  by (auto simp: get_iface_def get_host_def put_node_def split: option.splits node.splits)

lemma cable_put_host:
  "cable a b w \<Longrightarrow> get_host n w = Some h \<Longrightarrow> h_base h' = h_base h \<Longrightarrow> cable a b (put_host n h' w)"
  by (simp add: cable_def get_iface_put_host)

lemma now_ms_clock: "\<exists>c. snd (now_ms w) = w\<lparr>w_clock := c\<rparr>"
  by (auto simp: now_ms_def case_prod_unfold Let_def)

lemma cable_now: "cable a b (snd (now_ms w)) = cable a b w"
proof -
  obtain c where c: "snd (now_ms w) = w\<lparr>w_clock := c\<rparr>" using now_ms_clock by blast
  have "ck_realtime (w_clock (snd (now_ms w))) = ck_realtime (w_clock w)" by simp
  then show ?thesis unfolding c by (simp add: cable_def)
qed

lemma cable_delivers:
  assumes "cable a b w" "get_host b w = Some h"
  shows "net_send (Suc depth) (a, 0) raw w = host_receive (net_send depth) b raw w"
proof -
  obtain l f g where l: "get_iface (a, 0) w = Some f" "get_iface (b, 0) w = Some g" "if_link f = Some l"
    "if_node g = Some b" "other_end (w_links w ! l) (a, 0) = Some (b, 0)"
    "\<not> (ck_realtime (w_clock w) \<and> 0 < ln_delay (w_links w ! l))"
    using assms(1) by (auto simp: cable_def)
  obtain nd where "w_nodes w b = Some nd" "nd = HostNode h"
    using assms(2) by (auto simp: get_host_def split: option.split_asm node.split_asm)
  then have "receive (net_send depth) (b, 0) raw w = host_receive (net_send depth) b raw w"
    using l(2,4) by (simp add: receive_def node_receive_def)
  then show ?thesis
    using l(1,3,5,6) by (auto simp: interface_send_def transmit_def Let_def sim_clock_realtime_enabled_def)
qed

section \<open>What a host sends\<close>

definition host_mac :: "host \<Rightarrow> mac_address" where
  "host_mac h = if_mac (nb_ifs (h_base h) ! 0)"

text \<open>A frame from one host to another, untagged.\<close>

definition framed :: "bytes \<Rightarrow> mac_address \<Rightarrow> mac_address \<Rightarrow> u16 \<Rightarrow> bytes \<Rightarrow> bool" where
  "framed raw dst src ty payload \<longleftrightarrow> (\<exists>f. ethernet_from_bytes raw = Some f \<and> eth_dst f = dst \<and> eth_src f = src \<and>
     \<not> eth_has_vlan f \<and> eth_type f = ty \<and> eth_payload f = payload)"

lemma host_frame:
  assumes "get_host n w = Some h" "ty \<noteq> ETHERNET_TYPE_VLAN" "length payload \<le> ETHERNET_MAX_PAYLOAD"
  obtains raw where
    "host_send_ethernet_frame send n dst ty payload w = map_option (Pair True) (send (n, 0) raw w)"
    "framed raw dst (host_mac h) ty payload"
proof -
  obtain f where f: "ethernet_create dst (host_mac h) ty payload = Some f"
    using assms(3) by (simp add: ethernet_create_def)
  have ff: "\<not> eth_has_vlan f" "eth_type f = ty" "eth_payload f = payload" "eth_dst f = dst" "eth_src f = host_mac h"
    using f by (auto simp: ethernet_create_def ethernet_init_def split: if_splits)
  obtain raw where raw: "ethernet_to_bytes f (ETHERNET_VLAN_HEADER_SIZE + ETHERNET_MAX_PAYLOAD) = Some raw"
    using ethernet_to_bytes_Some [OF wf_frame_create [OF f assms(2)], of "18 + ETHERNET_MAX_PAYLOAD"] ff(3) assms(3) by auto
  have e: "ethernet_from_bytes raw = Some f" using ethernet_survives [OF f assms(2) _ raw] by simp
  have "host_send_ethernet_frame send n dst ty payload w = map_option (Pair True) (send (n, 0) raw w)"
    using assms(1) f raw
    by (simp add: host_send_ethernet_frame_def host_mac_def map_conv_bind_option comp_def)
  moreover have "framed raw dst (host_mac h) ty payload"
    unfolding framed_def using e ff by (intro exI [of _ f]) simp
  ultimately show ?thesis by (rule that)
qed

lemma host_arp_request:
  assumes "get_host n w = Some h" "h_has_ip h"
  obtains raw where "host_send_arp_request send n ip w = map_option (Pair True) (send (n, 0) raw w)"
    "framed raw mac_broadcast (host_mac h) ETHERNET_TYPE_ARP (arp_wire (arp_message_init_request (host_mac h) (h_ip h) ip))"
proof -
  let ?m = "arp_message_init_request (host_mac h) (h_ip h) ip"
  obtain raw where "host_send_ethernet_frame send n mac_broadcast ETHERNET_TYPE_ARP (arp_wire ?m) w =
      map_option (Pair True) (send (n, 0) raw w)"
    "framed raw mac_broadcast (host_mac h) ETHERNET_TYPE_ARP (arp_wire ?m)"
    by (rule host_frame [OF assms(1), where ty = ETHERNET_TYPE_ARP and payload = "arp_wire ?m"]) simp_all
  then show ?thesis
    using assms by (intro that) (simp_all add: host_send_arp_request_def arp_message_to_bytes_def host_mac_def)
qed

lemma host_to_neighbour:
  assumes "get_host n w = Some h" "h_has_ip h" "\<not> ip_is_limited_broadcast ip" "host_is_same_subnet h ip"
    and "arp_table_get (h_arp h) ip = Some mac" "length payload \<le> ETHERNET_MAX_PAYLOAD" "ty \<noteq> ETHERNET_TYPE_VLAN"
  obtains raw where "host_send_l3_packet send n ip ty payload w = map_option (Pair True) (send (n, 0) raw w)"
    "framed raw mac (host_mac h) ty payload"
proof -
  obtain raw where "host_send_ethernet_frame send n mac ty payload w = map_option (Pair True) (send (n, 0) raw w)"
    "framed raw mac (host_mac h) ty payload"
    by (rule host_frame [OF assms(1,7,6)])
  then show ?thesis
    using assms by (intro that) (simp_all add: host_send_l3_packet_def)
qed

section \<open>What a host answers\<close>

lemma receive_framed:
  assumes "get_host n w = Some h" "framed raw dst src ty payload" "dst = mac_broadcast \<or> dst = host_mac h"
  shows "ty = ETHERNET_TYPE_ARP \<Longrightarrow> host_receive send n raw w = host_handle_arp send n payload w"
    and "ty = ETHERNET_TYPE_IPV4 \<Longrightarrow> ipv4_from_bytes payload = Some p \<Longrightarrow> ipv4_validate_checksum p \<Longrightarrow> h_has_ip h \<Longrightarrow>
      octet (ip4_dst p) = octet (h_ip h) \<Longrightarrow> ip4_protocol p = IPV4_PROTOCOL_ICMP \<Longrightarrow>
      host_receive send n raw w = host_handle_icmp send n p w"
  using assms
  by (auto simp: framed_def host_receive_def host_mac_def ethernet_is_broadcast_def mac_equal_def)

text \<open>An ICMP message in an IPv4 packet, as the other host reads it.\<close>

definition icmp_packet :: "ip_address \<Rightarrow> ip_address \<Rightarrow> u8 \<Rightarrow> u8 \<Rightarrow> u16 \<Rightarrow> u16 \<Rightarrow> bytes \<Rightarrow> bytes option" where
  "icmp_packet src dst ttl ty ident sequence data = do {
    icmp \<leftarrow> icmp_create ty 0 ident sequence data;
    icmp_raw \<leftarrow> icmp_to_bytes icmp (ICMP_HEADER_SIZE + ICMP_MAX_PAYLOAD);
    packet \<leftarrow> ipv4_create src dst ttl IPV4_PROTOCOL_ICMP icmp_raw;
    ipv4_to_bytes packet (IPV4_HEADER_SIZE + IPV4_MAX_PAYLOAD)
  }"

definition icmp_carried :: "bytes \<Rightarrow> ip_address \<Rightarrow> ip_address \<Rightarrow> u8 \<Rightarrow> u16 \<Rightarrow> u16 \<Rightarrow> bytes \<Rightarrow> ipv4_packet \<Rightarrow> icmp_message \<Rightarrow> bool" where
  "icmp_carried raw src dst ty ident sequence data p m \<longleftrightarrow>
     ipv4_from_bytes raw = Some p \<and> ipv4_validate_checksum p \<and> ip4_protocol p = IPV4_PROTOCOL_ICMP \<and>
     octet (ip4_src p) = octet src \<and> octet (ip4_dst p) = octet dst \<and>
     icmp_from_bytes (ip4_payload p) = Some m \<and> icmp_validate_checksum m \<and> icmp_type m = ty \<and> icmp_code m = 0 \<and>
     icmp_identifier m = ident \<and> icmp_sequence m = sequence \<and> icmp_payload m = data"

lemma icmp_packet_carried:
  assumes "length data \<le> ICMP_MAX_PAYLOAD"
  obtains raw p m where "icmp_packet src dst ttl ty ident sequence data = Some raw" "length raw \<le> ETHERNET_MAX_PAYLOAD"
    "icmp_carried raw src dst ty ident sequence data p m"
proof -
  obtain i where i: "icmp_create ty 0 ident sequence data = Some i"
    using assms by (simp add: icmp_create_def)
  have ii: "icmp_type i = ty" "icmp_code i = 0" "icmp_identifier i = ident" "icmp_sequence i = sequence" "icmp_payload i = data"
    using i by (auto simp: icmp_create_def split: if_splits)
  have im: "icmp_to_bytes i (ICMP_HEADER_SIZE + ICMP_MAX_PAYLOAD) = Some (icmp_wire i)"
    by (rule icmp_to_bytes_eq) (use ii assms in simp_all)
  have "length (icmp_wire i) \<le> IPV4_MAX_PAYLOAD" using ii(5) assms by simp
  then obtain q where q: "ipv4_create src dst ttl IPV4_PROTOCOL_ICMP (icmp_wire i) = Some q"
    by (simp add: ipv4_create_def)
  note qq = ipv4_create_payload [OF q]
  then obtain raw where raw: "ipv4_to_bytes q (IPV4_HEADER_SIZE + IPV4_MAX_PAYLOAD) = Some raw"
    using ipv4_to_bytes_eq [of q] by fastforce
  show ?thesis
  proof (rule that [of raw "ipv4_reparsed q" "i\<lparr>icmp_checksum := icmp_checksum_of i\<rparr>"])
    show "icmp_packet src dst ttl ty ident sequence data = Some raw"
      using i im q raw by (simp add: icmp_packet_def)
    show "length raw \<le> ETHERNET_MAX_PAYLOAD" using ipv4_to_bytes_SomeD [OF raw] by auto
    show "icmp_carried raw src dst ty ident sequence data (ipv4_reparsed q) (i\<lparr>icmp_checksum := icmp_checksum_of i\<rparr>)"
      using ipv4_from_to [OF raw] ipv4_reparsed_valid [of q] icmp_from_to [OF im] icmp_wire_valid [of i] qq ii assms
      by (simp add: icmp_carried_def ipv4_reparsed_def)
  qed
qed

lemma echo_reply_packet:
  "host_echo_reply src dst m = icmp_packet src dst IPV4_DEFAULT_TTL ICMP_ECHO_REPLY (icmp_identifier m) (icmp_sequence m) (icmp_payload m)"
  by (simp add: host_echo_reply_def icmp_packet_def)

text \<open>What a host remembers of an ICMP message.\<close>

definition icmp_noted :: "ipv4_packet \<Rightarrow> icmp_message \<Rightarrow> host \<Rightarrow> host" where
  "icmp_noted p m h = h\<lparr>h_icmp_type := icmp_type m, h_icmp_code := icmp_code m, h_icmp_source := ip4_src p,
     h_icmp_sequence := icmp_sequence m, h_has_icmp := True\<rparr>"

lemma icmp_noted_simps [simp]:
  "h_base (icmp_noted p m h) = h_base h" "h_arp (icmp_noted p m h) = h_arp h" "h_queue (icmp_noted p m h) = h_queue h"
  "h_ip (icmp_noted p m h) = h_ip h" "h_has_ip (icmp_noted p m h) = h_has_ip h" "host_mac (icmp_noted p m h) = host_mac h"
  "host_is_same_subnet (icmp_noted p m h) = host_is_same_subnet h" "h_icmp_in_flight (icmp_noted p m h) = h_icmp_in_flight h"
  by (simp_all add: icmp_noted_def host_mac_def host_is_same_subnet_def fun_eq_iff)

lemma echo_answered:
  assumes "get_host n w = Some h" "h_has_ip h" "framed raw (host_mac h) src ETHERNET_TYPE_IPV4 payload"
    and "icmp_carried payload ip (h_ip h) ICMP_ECHO_REQUEST ident sequence data p m"
    and "length data \<le> ICMP_MAX_PAYLOAD" "\<not> ip_is_limited_broadcast ip" "host_is_same_subnet h ip" "arp_table_get (h_arp h) ip = Some mac"
  obtains raw' payload' q m' where
    "host_receive send n raw w = send (n, 0) raw' (put_host n (icmp_noted p m h) w)"
    "framed raw' mac (host_mac h) ETHERNET_TYPE_IPV4 payload'"
    "icmp_carried payload' (h_ip h) ip ICMP_ECHO_REPLY ident sequence data q m'"
proof -
  let ?h = "icmp_noted p m h" and ?w = "put_host n (icmp_noted p m h) w"
  note c = assms(4) [unfolded icmp_carried_def]
  obtain raw2 q m' where reply: "host_echo_reply (h_ip h) (ip4_src p) m = Some raw2" "length raw2 \<le> ETHERNET_MAX_PAYLOAD"
      "icmp_carried raw2 (h_ip h) (ip4_src p) ICMP_ECHO_REPLY ident sequence data q m'"
    using icmp_packet_carried [OF assms(5)] c by (metis echo_reply_packet)
  have same: "ip_is_limited_broadcast (ip4_src p) = ip_is_limited_broadcast ip"
    "host_is_same_subnet ?h (ip4_src p) = host_is_same_subnet h ip"
    "arp_table_get (h_arp ?h) (ip4_src p) = arp_table_get (h_arp h) ip"
    using c arp.lookup_key [of "ip4_src p" ip]
    by (simp_all add: ip_is_limited_broadcast_def host_is_same_subnet_def ip_to_u32_def)
  obtain raw' where "host_send_l3_packet send n (ip4_src p) ETHERNET_TYPE_IPV4 raw2 ?w = map_option (Pair True) (send (n, 0) raw' ?w)"
    "framed raw' mac (host_mac ?h) ETHERNET_TYPE_IPV4 raw2"
    by (rule host_to_neighbour [where n = n and w = ?w and h = ?h and ip = "ip4_src p" and mac = mac
          and payload = raw2 and ty = ETHERNET_TYPE_IPV4])
      (use assms(1,2,6-8) same reply(2) in simp_all)
  moreover have "host_receive send n raw w = host_handle_icmp send n p w"
    by (rule receive_framed(2) [OF assms(1,3)]) (use c assms(2) in simp_all)
  moreover have "icmp_carried raw2 (h_ip h) ip ICMP_ECHO_REPLY ident sequence data q m'"
    using reply(3) c by (simp add: icmp_carried_def)
  moreover have "host_handle_icmp send n p w =
      Option.bind (host_send_l3_packet send n (ip4_src p) ETHERNET_TYPE_IPV4 raw2 ?w) (\<lambda>(_, w). Some w)"
    using assms(1) c reply(1) by (simp add: host_handle_icmp_def icmp_noted_def)
  moreover have "Option.bind (map_option (Pair True) x) (\<lambda>(_, w). Some w) = x" for x :: "world option"
    by (cases x) simp_all
  ultimately show ?thesis by (intro that) simp_all
qed

text \<open>The reply to an outstanding request is noted, and the request is no longer outstanding.\<close>

lemma echo_reply_noted:
  assumes "get_host n w = Some h" "h_has_ip h" "framed raw (host_mac h) src ETHERNET_TYPE_IPV4 payload"
    and "icmp_carried payload ip (h_ip h) ICMP_ECHO_REPLY ident sequence data p m" "h_icmp_in_flight h"
  obtains t where "host_receive send n raw w = Some (put_host n ((icmp_noted p m h)\<lparr>h_icmp_rtt := t, h_icmp_in_flight := False\<rparr>)
    (snd (now_ms (put_host n (icmp_noted p m h) w))))"
proof -
  let ?w = "put_host n (icmp_noted p m h) w"
  note c = assms(4) [unfolded icmp_carried_def]
  have "host_receive send n raw w = host_handle_icmp send n p w"
    by (rule receive_framed(2) [OF assms(1,3)]) (use c assms(2) in simp_all)
  moreover have "host_handle_icmp send n p w = host_record_icmp_rtt n ?w"
    using assms(1) c by (simp add: host_handle_icmp_def icmp_noted_def)
  moreover obtain t w' where "now_ms ?w = (t, w')" by fastforce
  ultimately show ?thesis
    using assms(5) by (intro that) (simp add: host_record_icmp_rtt_def)
qed

section \<open>Resolving an address\<close>

definition arp_learned :: "ip_address \<Rightarrow> mac_address \<Rightarrow> host \<Rightarrow> host" where
  "arp_learned ip mac h = h\<lparr>h_arp := snd (arp_table_set (h_arp h) ip mac)\<rparr>"

lemma arp_learned_simps [simp]:
  "h_base (arp_learned ip mac h) = h_base h" "h_queue (arp_learned ip mac h) = h_queue h" "h_ip (arp_learned ip mac h) = h_ip h"
  "h_has_ip (arp_learned ip mac h) = h_has_ip h" "host_mac (arp_learned ip mac h) = host_mac h"
  "host_is_same_subnet (arp_learned ip mac h) = host_is_same_subnet h"
  "h_icmp_in_flight (arp_learned ip mac h) = h_icmp_in_flight h"
  by (simp_all add: arp_learned_def host_mac_def host_is_same_subnet_def fun_eq_iff)

lemma arp_learned_known:
  assumes "arp_inv (h_arp h)" "arp_table_get (h_arp h) ip \<noteq> None \<or> tab_size (h_arp h) < ARP_TABLE_MAX_ENTRIES"
    and "octet ip' = octet ip"
  shows "arp_table_get (h_arp (arp_learned ip mac h)) ip' = Some mac"
  using arp.insert_lookup [OF assms(1) TrueI, of ip mac ip'] arp.insert_room [OF assms(1) TrueI, of ip mac] assms(2,3)
  by (simp add: arp_learned_def)

lemma arp_request_answered:
  assumes "get_host n w = Some h" "h_has_ip h"
    and "framed raw mac_broadcast mac ETHERNET_TYPE_ARP (arp_wire (arp_message_init_request mac ip (h_ip h)))"
  obtains raw' where
    "host_receive send n raw w = send (n, 0) raw' (put_host n (arp_learned (strip_prefix ip) mac h) w)"
    "framed raw' mac (host_mac h) ETHERNET_TYPE_ARP (arp_wire (arp_message_init_reply (host_mac h) (h_ip h) mac (strip_prefix ip)))"
proof -
  let ?m = "arp_received (arp_message_init_request mac ip (h_ip h))" and ?h = "arp_learned (strip_prefix ip) mac h"
  let ?reply = "arp_message_init_reply (host_mac h) (h_ip h) mac (strip_prefix ip)"
  have m: "arp_message_from_bytes (arp_wire (arp_message_init_request mac ip (h_ip h))) = Some ?m"
    using arp_from_wire [of _ "[]"] by simp
  have f: "arp_op ?m = ARP_OPCODE_REQUEST" "arp_sender_mac ?m = mac" "arp_sender_ip ?m = strip_prefix ip"
    "octet (arp_target_ip ?m) = octet (h_ip h)"
    by (simp_all add: arp_received_def arp_message_init_request_def)
  have learn: "snd (host_learn_arp h ?m) = ?h"
    by (simp add: host_learn_arp_def f arp_learned_def case_prod_unfold Let_def)
  have w: "get_host n (put_host n ?h w) = Some ?h" by simp
  obtain raw' where send: "host_send_ethernet_frame send n mac ETHERNET_TYPE_ARP (arp_wire ?reply) (put_host n ?h w) =
      map_option (Pair True) (send (n, 0) raw' (put_host n ?h w))"
    "framed raw' mac (host_mac ?h) ETHERNET_TYPE_ARP (arp_wire ?reply)"
    by (rule host_frame [OF w, where ty = ETHERNET_TYPE_ARP and payload = "arp_wire ?reply"]) simp_all
  have "host_send_arp_reply send n ?m (put_host n ?h w) = map_option (Pair True) (send (n, 0) raw' (put_host n ?h w))"
    using send(1) assms(2) by (simp add: host_send_arp_reply_def f arp_message_to_bytes_def flip: host_mac_def)
  moreover have "host_receive send n raw w = host_handle_arp send n (arp_wire (arp_message_init_request mac ip (h_ip h))) w"
    by (rule receive_framed(1) [OF assms(1,3)]) simp_all
  moreover have "Option.bind (map_option (Pair True) x) (\<lambda>(_, w). Some w) = x" for x :: "world option"
    by (cases x) simp_all
  ultimately show ?thesis
    using assms(1,2) m f learn send(2) by (intro that) (simp_all add: host_handle_arp_def)
qed

text \<open>The queue of a host after a packet for an address was taken out, if there was one.\<close>

definition taken_out :: "ip_address \<Rightarrow> host \<Rightarrow> host" where
  "taken_out ip h = h\<lparr>h_queue := snd (ring_dequeue HOST_PENDING_QUEUE_MAX_ENTRIES (waits_for ip) (h_queue h))\<rparr>"

lemma taken_out_simps [simp]:
  "h_base (taken_out ip h) = h_base h" "h_arp (taken_out ip h) = h_arp h" "h_ip (taken_out ip h) = h_ip h"
  "h_has_ip (taken_out ip h) = h_has_ip h" "host_mac (taken_out ip h) = host_mac h"
  "host_is_same_subnet (taken_out ip h) = host_is_same_subnet h" "h_icmp_in_flight (taken_out ip h) = h_icmp_in_flight h"
  "h_icmp_type (taken_out ip h) = h_icmp_type h" "h_icmp_source (taken_out ip h) = h_icmp_source h"
  "h_icmp_sequence (taken_out ip h) = h_icmp_sequence h" "h_has_icmp (taken_out ip h) = h_has_icmp h"
  by (simp_all add: taken_out_def host_mac_def host_is_same_subnet_def fun_eq_iff)

lemma taken_out_queue:
  assumes "wf_ring HOST_PENDING_QUEUE_MAX_ENTRIES (h_queue h)"
  shows "wf_ring HOST_PENDING_QUEUE_MAX_ENTRIES (h_queue (taken_out ip h))"
    "host_waiting (taken_out ip h) = remove_first (waits_for ip) (host_waiting h)"
    "host_dequeue_pending_packet_for_ip h ip = (find (waits_for ip) (host_waiting h), taken_out ip h)"
  using ring_dequeue_list [OF assms, of "waits_for ip"]
  by (simp_all add: taken_out_def host_dequeue_pending_packet_for_ip_def case_prod_unfold Let_def)

lemma remove_first_none: "find P xs = None \<Longrightarrow> remove_first P xs = xs"
  by (induction xs) (auto split: if_split_asm)

lemma flush_done:
  assumes "get_host n w = Some h" "wf_ring HOST_PENDING_QUEUE_MAX_ENTRIES (h_queue h)" "find (waits_for ip) (host_waiting h) = None"
  shows "host_flush_loop send n ip i k w = Some (k, put_host n (taken_out ip h) w)"
  using assms taken_out_queue(3) [OF assms(2), of ip] by (subst host_flush_loop.simps) (simp add: Let_def)

lemma flush_one:
  assumes "get_host n w = Some h" "wf_ring HOST_PENDING_QUEUE_MAX_ENTRIES (h_queue h)" "find (waits_for ip) (host_waiting h) = Some e"
    and "arp_table_get (h_arp h) ip = Some mac" "hp_ethertype e \<noteq> ETHERNET_TYPE_VLAN" "length (hp_payload e) \<le> ETHERNET_MAX_PAYLOAD"
  obtains raw i where "framed raw mac (host_mac h) (hp_ethertype e) (hp_payload e)"
    "host_flush_pending_packets send n ip w =
      Option.bind (send (n, 0) raw (put_host n (taken_out ip h) w)) (host_flush_loop send n ip i 1)"
proof -
  let ?w = "put_host n (taken_out ip h) w"
  obtain i where i: "arp_table_find_index (h_arp h) ip = Some i" "ae_mac (tab_entries (h_arp h) ! i) = mac"
    using assms(4) by (auto simp: arp_table_get_def tab_get_def arp_table_find_index_def split: option.split_asm)
  have w: "get_host n ?w = Some (taken_out ip h)" by simp
  obtain raw where raw: "host_send_ethernet_frame send n mac (hp_ethertype e) (hp_payload e) ?w =
      map_option (Pair True) (send (n, 0) raw ?w)"
    "framed raw mac (host_mac (taken_out ip h)) (hp_ethertype e) (hp_payload e)"
    by (rule host_frame [OF w assms(5,6)])
  have "host_flush_loop send n ip i 0 w = Option.bind (send (n, 0) raw ?w) (host_flush_loop send n ip i 1)"
    using assms(1) taken_out_queue(3) [OF assms(2), of ip] assms(3) i(2) raw(1)
    by (subst host_flush_loop.simps) (cases "send (n, 0) raw ?w"; simp add: Let_def)
  then show ?thesis
    using raw(2) assms(1) i(1) by (intro that) (simp_all add: host_flush_pending_packets_def)
qed

lemma arp_reply_flushes:
  assumes "get_host n w = Some h" "framed raw (host_mac h) mac ETHERNET_TYPE_ARP (arp_wire (arp_message_init_reply mac ip mac' ip'))"
  shows "host_receive send n raw w = map_option snd (host_flush_pending_packets send n (strip_prefix ip)
    (put_host n (arp_learned (strip_prefix ip) mac h) w))"
proof -
  let ?m = "arp_received (arp_message_init_reply mac ip mac' ip')"
  have m: "arp_message_from_bytes (arp_wire (arp_message_init_reply mac ip mac' ip')) = Some ?m"
    using arp_from_wire [of _ "[]"] by simp
  have f: "arp_op ?m = ARP_OPCODE_REPLY" "arp_sender_mac ?m = mac" "arp_sender_ip ?m = strip_prefix ip"
    by (simp_all add: arp_received_def arp_message_init_reply_def)
  have learn: "snd (host_learn_arp h ?m) = arp_learned (strip_prefix ip) mac h"
    by (simp add: host_learn_arp_def f arp_learned_def case_prod_unfold Let_def)
  have "host_receive send n raw w = host_handle_arp send n (arp_wire (arp_message_init_reply mac ip mac' ip')) w"
    by (rule receive_framed(1) [OF assms]) simp_all
  moreover have "Option.bind x (\<lambda>(_, w). Some w) = map_option snd x" for x :: "(nat \<times> world) option"
    by (cases x) auto
  ultimately show ?thesis
    using assms(1) m f learn by (simp add: host_handle_arp_def)
qed

section \<open>The dialogue\<close>

lemma echo_dialogue:
  assumes "cable a b w" "a \<noteq> b" "get_host a w = Some A" "get_host b w = Some B" "h_has_ip A" "h_has_ip B" "h_icmp_in_flight A"
    and "framed raw (host_mac B) (host_mac A) ETHERNET_TYPE_IPV4 payload"
    and "icmp_carried payload (h_ip A) (h_ip B) ICMP_ECHO_REQUEST ident sequence data p m" "length data \<le> ICMP_MAX_PAYLOAD"
    and "\<not> ip_is_limited_broadcast (h_ip A)" "host_is_same_subnet B (h_ip A)" "arp_table_get (h_arp B) (h_ip A) = Some (host_mac A)"
  obtains w' t q m' where "net_send (Suc (Suc depth)) (a, 0) raw w = Some w'" "cable a b w'"
    "get_host a w' = Some ((icmp_noted q m' A)\<lparr>h_icmp_rtt := t, h_icmp_in_flight := False\<rparr>)"
    "get_host b w' = Some (icmp_noted p m B)"
    "icmp_type m' = ICMP_ECHO_REPLY" "octet (ip4_src q) = octet (h_ip B)" "icmp_sequence m' = sequence"
proof -
  let ?B = "icmp_noted p m B"
  let ?w1 = "put_host b ?B w"
  obtain raw' payload' q m' where answer: "host_receive (net_send (Suc depth)) b raw w = net_send (Suc depth) (b, 0) raw' ?w1"
    "framed raw' (host_mac A) (host_mac B) ETHERNET_TYPE_IPV4 payload'"
    "icmp_carried payload' (h_ip B) (h_ip A) ICMP_ECHO_REPLY ident sequence data q m'"
    by (rule echo_answered [OF assms(4,6,8,9,10,11,12,13)])
  have cable1: "cable a b ?w1" by (rule cable_put_host [OF assms(1,4)]) simp
  have A: "get_host a ?w1 = Some A" using assms(2,3) by simp
  have send: "net_send (Suc depth) (b, 0) raw' ?w1 = host_receive (net_send depth) a raw' ?w1"
    by (rule cable_delivers [OF cable_sym [OF cable1] A])
  obtain t where noted: "host_receive (net_send depth) a raw' ?w1 =
      Some (put_host a ((icmp_noted q m' A)\<lparr>h_icmp_rtt := t, h_icmp_in_flight := False\<rparr>)
        (snd (now_ms (put_host a (icmp_noted q m' A) ?w1))))"
    by (rule echo_reply_noted [OF A assms(5) answer(2,3) assms(7)])
  let ?w2 = "put_host a ((icmp_noted q m' A)\<lparr>h_icmp_rtt := t, h_icmp_in_flight := False\<rparr>)
    (snd (now_ms (put_host a (icmp_noted q m' A) ?w1)))"
  have "cable a b (put_host a (icmp_noted q m' A) ?w1)" by (rule cable_put_host [OF cable1 A]) simp
  then have "cable a b (snd (now_ms (put_host a (icmp_noted q m' A) ?w1)))" by (simp only: cable_now)
  then have "cable a b ?w2" by (rule cable_put_host [where h = "icmp_noted q m' A"]) simp_all
  then show ?thesis
    using cable_delivers [OF assms(1,4), of "Suc depth" raw] answer(1,3) send noted assms(2)
    by (intro that [where w' = ?w2 and t = t and q = q and m' = m']) (simp_all add: icmp_carried_def)
qed

text \<open>The request for the address of the other host, with one packet waiting: it is answered, and the packet sent.\<close>

lemma waits_for_strip [simp]: "waits_for (strip_prefix ip) = waits_for ip"
  by (simp add: waits_for_key)

lemma remove_first_last: "find P xs = None \<Longrightarrow> P e \<Longrightarrow> remove_first P (xs @ [e]) = xs"
  by (induction xs) (auto split: if_split_asm)

lemma find_append_last: "find P xs = None \<Longrightarrow> P e \<Longrightarrow> find P (xs @ [e]) = Some e"
  by (induction xs) (auto split: if_split_asm)

lemma resolution_dialogue:
  assumes "cable a b w" "a \<noteq> b" "get_host a w = Some A" "get_host b w = Some B" "h_has_ip A" "h_has_ip B" "h_icmp_in_flight A"
    and "framed raw mac_broadcast (host_mac A) ETHERNET_TYPE_ARP (arp_wire (arp_message_init_request (host_mac A) (h_ip A) (h_ip B)))"
    and "wf_ring HOST_PENDING_QUEUE_MAX_ENTRIES (h_queue A)" "host_waiting A = others @ [e]"
    and "find (waits_for (h_ip B)) others = None" "waits_for (h_ip B) e"
    and "hp_ethertype e = ETHERNET_TYPE_IPV4" "length (hp_payload e) \<le> ETHERNET_MAX_PAYLOAD"
    and "icmp_carried (hp_payload e) (h_ip A) (h_ip B) ICMP_ECHO_REQUEST ident sequence data p m" "length data \<le> ICMP_MAX_PAYLOAD"
    and "\<not> ip_is_limited_broadcast (h_ip A)" "host_is_same_subnet B (h_ip A)"
    and "arp_inv (h_arp A)" "tab_size (h_arp A) < ARP_TABLE_MAX_ENTRIES" "arp_inv (h_arp B)"
    and "arp_table_get (h_arp B) (h_ip A) \<noteq> None \<or> tab_size (h_arp B) < ARP_TABLE_MAX_ENTRIES"
  obtains w' A' B' where "net_send (Suc (Suc (Suc (Suc depth)))) (a, 0) raw w = Some w'"
    "get_host a w' = Some A'" "get_host b w' = Some B'" "h_has_icmp A'" "h_icmp_type A' = ICMP_ECHO_REPLY"
    "octet (h_icmp_source A') = octet (h_ip B)" "h_icmp_sequence A' = sequence" "\<not> h_icmp_in_flight A'"
    "arp_table_get (h_arp A') (h_ip B) = Some (host_mac B)" "arp_table_get (h_arp B') (h_ip A) = Some (host_mac A)"
    "host_waiting A' = others"
proof -
  let ?ipa = "strip_prefix (h_ip A)" and ?ipb = "strip_prefix (h_ip B)"
  let ?B = "arp_learned ?ipa (host_mac A) B"
  let ?w1 = "put_host b ?B w"
  obtain raw1 where 1: "host_receive (net_send (Suc (Suc (Suc depth)))) b raw w = net_send (Suc (Suc (Suc depth))) (b, 0) raw1 ?w1"
    "framed raw1 (host_mac A) (host_mac B) ETHERNET_TYPE_ARP (arp_wire (arp_message_init_reply (host_mac B) (h_ip B) (host_mac A) ?ipa))"
    by (rule arp_request_answered [OF assms(4,6,8)])
  have c1: "cable a b ?w1" by (rule cable_put_host [OF assms(1,4)]) simp
  have A1: "get_host a ?w1 = Some A" using assms(2,3) by simp
  let ?A = "arp_learned ?ipb (host_mac B) A"
  let ?w2 = "put_host a ?A ?w1"
  have 2: "host_receive (net_send (Suc (Suc depth))) a raw1 ?w1 =
      map_option snd (host_flush_pending_packets (net_send (Suc (Suc depth))) a ?ipb ?w2)"
    by (rule arp_reply_flushes [OF A1 1(2)])
  have known: "arp_table_get (h_arp ?A) ?ipb = Some (host_mac B)" "arp_table_get (h_arp ?A) (h_ip B) = Some (host_mac B)"
    "arp_table_get (h_arp ?B) (h_ip A) = Some (host_mac A)"
    using arp_learned_known [of A ?ipb] arp_learned_known [of B ?ipa] assms(19-22) arp.lookup_key [of "h_ip A" ?ipa "h_arp B"]
    by simp_all
  have A2: "get_host a ?w2 = Some ?A" by simp
  have find: "find (waits_for ?ipb) (host_waiting ?A) = Some e"
    using assms(10-12) find_append_last by simp
  let ?A3 = "taken_out ?ipb ?A"
  let ?w3 = "put_host a ?A3 ?w2"
  obtain raw2 i where 3: "framed raw2 (host_mac B) (host_mac A) ETHERNET_TYPE_IPV4 (hp_payload e)"
    "host_flush_pending_packets (net_send (Suc (Suc depth))) a ?ipb ?w2 =
      Option.bind (net_send (Suc (Suc depth)) (a, 0) raw2 ?w3) (host_flush_loop (net_send (Suc (Suc depth))) a ?ipb i 1)"
    using flush_one [OF A2 _ find known(1), where send = "net_send (Suc (Suc depth))"] assms(9,13,14) by auto
  have c3: "cable a b ?w3" using cable_put_host [OF cable_put_host [OF c1 A1, of ?A] A2, of ?A3] by simp
  obtain w4 t q m' where 4: "net_send (Suc (Suc depth)) (a, 0) raw2 ?w3 = Some w4"
    "get_host a w4 = Some ((icmp_noted q m' ?A3)\<lparr>h_icmp_rtt := t, h_icmp_in_flight := False\<rparr>)"
    "get_host b w4 = Some (icmp_noted p m ?B)"
    "icmp_type m' = ICMP_ECHO_REPLY" "octet (ip4_src q) = octet (h_ip B)" "icmp_sequence m' = sequence"
    by (rule echo_dialogue [OF c3 assms(2), where A = ?A3 and B = ?B and raw = raw2 and payload = "hp_payload e"
          and data = data and sequence = sequence and p = p and m = m and depth = depth])
      (use assms(2,5-7,15-18) 3(1) known(3) in simp_all)
  let ?A4 = "(icmp_noted q m' ?A3)\<lparr>h_icmp_rtt := t, h_icmp_in_flight := False\<rparr>"
  have ring: "wf_ring HOST_PENDING_QUEUE_MAX_ENTRIES (h_queue ?A)" using assms(9) by simp
  have wf: "wf_ring HOST_PENDING_QUEUE_MAX_ENTRIES (h_queue ?A4)" "host_waiting ?A4 = others"
    using taken_out_queue(1,2) [OF ring, of ?ipb] assms(10-12) remove_first_last by simp_all
  have "host_flush_loop (net_send (Suc (Suc depth))) a ?ipb i 1 w4 = Some (1, put_host a (taken_out ?ipb ?A4) w4)"
    by (rule flush_done [OF 4(2) wf(1)]) (use wf(2) assms(11) in simp)
  moreover have "host_waiting (taken_out ?ipb ?A4) = others"
    using taken_out_queue(2) [OF wf(1), of ?ipb] wf(2) assms(11) remove_first_none by simp
  ultimately show ?thesis
    using cable_delivers [OF assms(1,4), of "Suc (Suc (Suc depth))" raw] 1(1)
      cable_delivers [OF cable_sym [OF c1] A1, of "Suc (Suc depth)" raw1] 2 3(2) 4 known assms(2)
    by (intro that [where w' = "put_host a (taken_out ?ipb ?A4) w4" and A' = "taken_out ?ipb ?A4" and B' = "icmp_noted p m ?B"])
      (simp_all add: icmp_noted_def)
qed

text \<open>The echo request to a neighbour whose address is unknown: the packet waits, and the address is asked for.\<close>

lemma echo_request_waits:
  assumes "cable a b w" "a \<noteq> b" "get_host a w = Some A" "get_host b w = Some B" "wf_host A" "h_has_ip A"
    and "host_is_same_subnet A ip" "\<not> ip_is_limited_broadcast ip" "arp_table_get (h_arp A) ip = None"
    and "host_find_pending_for_ip A ip = None" "ring_size (h_queue A) < HOST_PENDING_QUEUE_MAX_ENTRIES"
  obtains w' A' e p m raw where "cable a b w'" "get_host a w' = Some A'" "get_host b w' = Some B"
    "h_ip A' = h_ip A" "h_has_ip A'" "h_arp A' = h_arp A" "host_mac A' = host_mac A" "h_icmp_in_flight A'"
    "wf_ring HOST_PENDING_QUEUE_MAX_ENTRIES (h_queue A')" "host_waiting A' = host_waiting A @ [e]"
    "find (waits_for ip) (host_waiting A) = None" "waits_for ip e"
    "hp_ethertype e = ETHERNET_TYPE_IPV4" "length (hp_payload e) \<le> ETHERNET_MAX_PAYLOAD"
    "icmp_carried (hp_payload e) (h_ip A) ip ICMP_ECHO_REQUEST 0x1234 sequence (map of_nat [0..<32]) p m"
    "framed raw mac_broadcast (host_mac A) ETHERNET_TYPE_ARP (arp_wire (arp_message_init_request (host_mac A) (h_ip A) ip))"
    "\<forall>w'' A''. send (a, 0) raw w' = Some w'' \<longrightarrow> get_host a w'' = Some A'' \<longrightarrow> arp_table_get (h_arp A'') ip \<noteq> None \<longrightarrow>
      host_send_icmp_echo_request send a ip ttl sequence w = Some (True, w'')"
proof -
  let ?data = "map of_nat [0..<32] :: bytes"
  obtain ip_raw p m where packet: "icmp_packet (h_ip A) ip ttl ICMP_ECHO_REQUEST 0x1234 sequence ?data = Some ip_raw"
    "length ip_raw \<le> ETHERNET_MAX_PAYLOAD" "icmp_carried ip_raw (h_ip A) ip ICMP_ECHO_REQUEST 0x1234 sequence ?data p m"
    by (rule icmp_packet_carried [of ?data "h_ip A" ip ttl ICMP_ECHO_REQUEST "0x1234" sequence]) simp
  obtain now w1 where w1: "now_ms w = (now, w1)" by fastforce
  define A1 where "A1 = A\<lparr>h_has_icmp := False, h_icmp_in_flight := True, h_icmp_rtt := 0, h_icmp_sent_at := now\<rparr>"
  define w2 where "w2 = put_host a A1 w1"
  obtain now' w3 where w3: "now_ms w2 = (now', w3)" by fastforce
  have w1': "w1 = snd (now_ms w)" and w3': "w3 = snd (now_ms w2)" using w1 w3 by simp_all
  define e where "e = \<lparr>hp_target = ip, hp_ethertype = ETHERNET_TYPE_IPV4, hp_payload = ip_raw, hp_attempts = 1, hp_last = now'\<rparr>"
  define A2 where "A2 = A1\<lparr>h_queue := snd (ring_push HOST_PENDING_QUEUE_MAX_ENTRIES e (h_queue A1))\<rparr>"
  define w4 where "w4 = put_host a A2 w3"
  have same: "h_ip A2 = h_ip A" "h_has_ip A2" "h_arp A2 = h_arp A" "host_mac A2 = host_mac A" "h_icmp_in_flight A2" "h_queue A1 = h_queue A"
    using assms(6) by (simp_all add: A2_def A1_def host_mac_def)
  have wf: "wf_ring HOST_PENDING_QUEUE_MAX_ENTRIES (h_queue A)" using assms(5) by (simp add: wf_host_def)
  note push = ring_push_list [OF wf, of e]
  have hosts: "get_host a w2 = Some A1" "get_host a w3 = Some A1" "get_host a w4 = Some A2" "get_host b w4 = Some B" "get_host a w1 = Some A"
    using assms(2-4) by (simp_all add: w4_def w3' w2_def w1')
  have c: "cable a b w4"
    using cable_put_host [of a b w3 a A1 A2] cable_put_host [of a b w1 a A A1] cable_now [of a b w] cable_now [of a b w2]
      w1 w3 assms(1) hosts by (simp add: w2_def w4_def A1_def A2_def)
  obtain raw where request: "host_send_arp_request send a ip w4 = map_option (Pair True) (send (a, 0) raw w4)"
    "framed raw mac_broadcast (host_mac A2) ETHERNET_TYPE_ARP (arp_wire (arp_message_init_request (host_mac A2) (h_ip A2) ip))"
    by (rule host_arp_request [OF hosts(3) same(2)])
  have echo: "host_send_icmp_echo_request send a ip ttl sequence w = host_send_l3_packet send a ip ETHERNET_TYPE_IPV4 ip_raw w2"
    using packet(1) assms(3,6) w1
    by (auto simp: host_send_icmp_echo_request_def icmp_packet_def A1_def w2_def bind_eq_Some_conv)
  have "host_queue_pending_packet_with_arp_state A1 ip ETHERNET_TYPE_IPV4 ip_raw 1 now' = (True, A2)"
    using push(2) assms(11) packet(2)
    by (simp add: host_queue_pending_packet_with_arp_state_def A2_def same(6) e_def case_prod_unfold Let_def)
  moreover have "host_is_same_subnet A1 = host_is_same_subnet A" "h_has_ip A1" "h_arp A1 = h_arp A" "host_find_pending_for_ip A1 ip = None"
    using assms(6,10) by (simp_all add: fun_eq_iff host_is_same_subnet_def host_find_pending_for_ip_def A1_def)
  ultimately have "host_send_l3_packet send a ip ETHERNET_TYPE_IPV4 ip_raw w2 = Some (True, w'')"
    if "send (a, 0) raw w4 = Some w''" "get_host a w'' = Some A''" "arp_table_get (h_arp A'') ip \<noteq> None" for w'' A''
    using that hosts(1) packet(2) assms(7-9) w3 request(1) by (auto simp: host_send_l3_packet_def w4_def [symmetric])
  moreover have "host_waiting A2 = host_waiting A @ [e]" "wf_ring HOST_PENDING_QUEUE_MAX_ENTRIES (h_queue A2)"
    using push(1,3) assms(11) by (simp_all add: A2_def same(6))
  moreover have "find (waits_for ip) (host_waiting A) = None"
    using assms(10) ring_find_list [OF wf] by (simp add: host_find_pending_for_ip_def)
  ultimately show ?thesis
    using c hosts same packet request(2) echo by (intro that [of w4 A2 e p m raw]) (simp_all add: e_def waits_for_def)
qed

text \<open>C3. A ping of a neighbour whose hardware address is unknown comes back. On a cable without
  delay between two hosts of one subnet, \<^verbatim>\<open>host_send_icmp_echo_request\<close> queues the packet and broadcasts an
  ARP request; the other host learns the sender's address and replies; the first host learns from the reply and
  sends the waiting packet; the other host answers the echo request; and the first host notes the reply.
  When the call returns, the reply with the request's sequence number is recorded, no request is outstanding, each host knows
  the other's address, and the queue is what it was. Four nested sends are enough.\<close>

theorem ping_answered:
  assumes "cable a b w" "a \<noteq> b" "get_host a w = Some A" "get_host b w = Some B" "wf_host A" "wf_host B" "h_has_ip A" "h_has_ip B"
    and "host_is_same_subnet A (h_ip B)" "host_is_same_subnet B (h_ip A)"
    and "\<not> ip_is_limited_broadcast (h_ip A)" "\<not> ip_is_limited_broadcast (h_ip B)"
    and "arp_table_get (h_arp A) (h_ip B) = None" "tab_size (h_arp A) < ARP_TABLE_MAX_ENTRIES"
    and "arp_table_get (h_arp B) (h_ip A) \<noteq> None \<or> tab_size (h_arp B) < ARP_TABLE_MAX_ENTRIES"
    and "host_find_pending_for_ip A (h_ip B) = None" "ring_size (h_queue A) < HOST_PENDING_QUEUE_MAX_ENTRIES"
  shows "\<exists>w' A' B'. host_send_icmp_echo_request (net_send (depth + 4)) a (h_ip B) ttl sequence w = Some (True, w') \<and>
    get_host a w' = Some A' \<and> get_host b w' = Some B' \<and>
    h_has_icmp A' \<and> h_icmp_type A' = ICMP_ECHO_REPLY \<and> octet (h_icmp_source A') = octet (h_ip B) \<and>
    h_icmp_sequence A' = sequence \<and> \<not> h_icmp_in_flight A' \<and> host_waiting A' = host_waiting A \<and>
    arp_table_get (h_arp A') (h_ip B) = Some (host_mac B) \<and> arp_table_get (h_arp B') (h_ip A) = Some (host_mac A)"
proof -
  let ?send = "net_send (Suc (Suc (Suc (Suc depth))))"
  obtain w1 A1 e p m raw where sent: "cable a b w1" "get_host a w1 = Some A1" "get_host b w1 = Some B"
    "h_ip A1 = h_ip A" "h_has_ip A1" "h_arp A1 = h_arp A" "host_mac A1 = host_mac A" "h_icmp_in_flight A1"
    "wf_ring HOST_PENDING_QUEUE_MAX_ENTRIES (h_queue A1)" "host_waiting A1 = host_waiting A @ [e]"
    "find (waits_for (h_ip B)) (host_waiting A) = None" "waits_for (h_ip B) e"
    "hp_ethertype e = ETHERNET_TYPE_IPV4" "length (hp_payload e) \<le> ETHERNET_MAX_PAYLOAD"
    "icmp_carried (hp_payload e) (h_ip A) (h_ip B) ICMP_ECHO_REQUEST 0x1234 sequence (map of_nat [0..<32]) p m"
    "framed raw mac_broadcast (host_mac A) ETHERNET_TYPE_ARP (arp_wire (arp_message_init_request (host_mac A) (h_ip A) (h_ip B)))"
    "\<forall>w'' A''. ?send (a, 0) raw w1 = Some w'' \<longrightarrow> get_host a w'' = Some A'' \<longrightarrow> arp_table_get (h_arp A'') (h_ip B) \<noteq> None \<longrightarrow>
      host_send_icmp_echo_request ?send a (h_ip B) ttl sequence w = Some (True, w'')"
    by (rule echo_request_waits [OF assms(1-5,7,9,12,13,16,17), where send = ?send and ttl = ttl and sequence = sequence])
  obtain w' A' B' where answered: "?send (a, 0) raw w1 = Some w'"
    "get_host a w' = Some A'" "get_host b w' = Some B'" "h_has_icmp A'" "h_icmp_type A' = ICMP_ECHO_REPLY"
    "octet (h_icmp_source A') = octet (h_ip B)" "h_icmp_sequence A' = sequence" "\<not> h_icmp_in_flight A'"
    "arp_table_get (h_arp A') (h_ip B) = Some (host_mac B)" "arp_table_get (h_arp B') (h_ip A1) = Some (host_mac A1)"
    "host_waiting A' = host_waiting A"
    by (rule resolution_dialogue [OF sent(1) assms(2) sent(2,3,5) assms(8) sent(8) _ sent(9,10,11,12,13,14),
          where raw = raw and ident = "0x1234" and sequence = sequence and data = "map of_nat [0..<32]" and p = p and m = m and depth = depth])
      (use assms(5,6,10,11,14,15) sent(4,6,7,15,16) in \<open>simp_all add: wf_host_def\<close>)
  have "host_send_icmp_echo_request ?send a (h_ip B) ttl sequence w = Some (True, w')"
    using sent(17) answered(1,2,9) by simp
  then show ?thesis using answered sent(4,7) by (auto simp: eval_nat_numeral)
qed

text \<open>The witness: 10.0.0.1 pings 10.0.0.2.\<close>

definition cabled_host :: "node_id \<Rightarrow> u8 \<Rightarrow> host" where
  "cabled_host n k =
    (let h = fst (host_init_with_macs (\<lambda>_. ucast k) 0 n 1 None)
     in h\<lparr>h_base := (h_base h)\<lparr>nb_ifs := (nb_ifs (h_base h))[0 := (nb_ifs (h_base h) ! 0)\<lparr>if_link := Some 0, if_node := Some n\<rparr>]\<rparr>,
          h_ip := ip_init (Octets 10 0 0 k) 24, h_has_ip := True\<rparr>)"

lemma cabled_host_simps:
  "h_ip (cabled_host n k) = ip_init (Octets 10 0 0 k) 24" "h_has_ip (cabled_host n k)"
  "h_arp (cabled_host n k) = arp_table_zero" "h_queue (cabled_host n k) = zero_host_queue"
proof -
  have z: "arp_table_init arp_table_zero = arp_table_zero" "host_pending_queue_init zero_host_queue = zero_host_queue"
    by (simp_all add: arp_table_init_def arp_table_zero_def host_pending_queue_init_def ring_reset_def zero_host_queue_def)
  show "h_ip (cabled_host n k) = ip_init (Octets 10 0 0 k) 24" "h_has_ip (cabled_host n k)"
    "h_arp (cabled_host n k) = arp_table_zero" "h_queue (cabled_host n k) = zero_host_queue"
    by (simp_all add: cabled_host_def host_init_with_macs_def case_prod_unfold Let_def z)
qed

lemma cabled_host_wf: "wf_host (cabled_host n k)"
    "nb_ifs (h_base (cabled_host n k)) \<noteq> []"
    "if_link (nb_ifs (h_base (cabled_host n k)) ! 0) = Some 0" "if_node (nb_ifs (h_base (cabled_host n k)) ! 0) = Some n"
proof -
  let ?h = "fst (host_init_with_macs (\<lambda>_. ucast k) 0 n 1 None)"
  have "wf_host ?h" by (rule host_init_wf)
  then show "wf_host (cabled_host n k)" "nb_ifs (h_base (cabled_host n k)) \<noteq> []"
    "if_link (nb_ifs (h_base (cabled_host n k)) ! 0) = Some 0" "if_node (nb_ifs (h_base (cabled_host n k)) ! 0) = Some n"
    by (auto simp: cabled_host_def wf_host_def wf_node_def Let_def nth_list_update)
qed

theorem ping_answered_witness:
  "\<exists>w w' A'. get_host 0 w = Some (cabled_host 0 1) \<and>
    host_send_icmp_echo_request (net_send 4) 0 (ip_init (Octets 10 0 0 2) 24) 64 7 w = Some (True, w') \<and>
    get_host 0 w' = Some A' \<and> h_icmp_type A' = ICMP_ECHO_REPLY \<and> h_icmp_sequence A' = 7"
proof -
  let ?A = "cabled_host 0 1" and ?B = "cabled_host 1 2"
  let ?w = "(undefined :: world)\<lparr>w_nodes := [0 \<mapsto> HostNode ?A, 1 \<mapsto> HostNode ?B],
    w_links := [\<lparr>ln_if1 = Some (0, 0), ln_if2 = Some (1, 0), ln_delay = 0\<rparr>]\<rparr>"
  have hosts: "get_host 0 ?w = Some ?A" "get_host 1 ?w = Some ?B" by (simp_all add: get_host_def)
  have "cable 0 1 ?w"
    unfolding cable_def
    by (intro exI [of _ 0] exI [of _ "nb_ifs (h_base ?A) ! 0"] exI [of _ "nb_ifs (h_base ?B) ! 0"])
      (simp add: get_iface_def cabled_host_wf other_end_def)
  moreover have "host_is_same_subnet ?A (h_ip ?B)" "host_is_same_subnet ?B (h_ip ?A)"
  proof -
    have "ip_to_u32 (ip_init (Octets 10 0 0 1) 24) AND ip_prefix_to_mask 24 =
        ip_to_u32 (ip_init (Octets 10 0 0 2) 24) AND ip_prefix_to_mask 24" by code_simp
    then show "host_is_same_subnet ?A (h_ip ?B)" "host_is_same_subnet ?B (h_ip ?A)"
      by (simp_all add: host_is_same_subnet_def cabled_host_simps ip_init_def)
  qed
  moreover have "arp_table_get arp_table_zero (h_ip ?B) = None" by (rule arp.lookup_empty)
  moreover have "host_find_pending_for_ip ?A (h_ip ?B) = None"
    using ring_find_list [OF zero_host_queue_wf(1)] zero_host_queue_wf(2)
    by (simp add: host_find_pending_for_ip_def cabled_host_simps)
  moreover have "tab_size arp_table_zero < ARP_TABLE_MAX_ENTRIES" "ring_size zero_host_queue < HOST_PENDING_QUEUE_MAX_ENTRIES"
    by (simp add: arp.count_empty, simp add: zero_host_queue_def)
  moreover have "\<not> ip_is_limited_broadcast (h_ip ?A)" "\<not> ip_is_limited_broadcast (h_ip ?B)"
    by (simp_all add: cabled_host_simps ip_is_limited_broadcast_def ip_init_def)
  ultimately have "\<exists>w' A' B'. host_send_icmp_echo_request (net_send (0 + 4)) 0 (h_ip ?B) 64 7 ?w = Some (True, w') \<and>
      get_host 0 w' = Some A' \<and> get_host 1 w' = Some B' \<and>
      h_has_icmp A' \<and> h_icmp_type A' = ICMP_ECHO_REPLY \<and> octet (h_icmp_source A') = octet (h_ip ?B) \<and>
      h_icmp_sequence A' = 7 \<and> \<not> h_icmp_in_flight A' \<and> host_waiting A' = host_waiting ?A \<and>
      arp_table_get (h_arp A') (h_ip ?B) = Some (host_mac ?B) \<and> arp_table_get (h_arp B') (h_ip ?A) = Some (host_mac ?A)"
    using hosts cabled_host_wf(1)
    by (intro ping_answered) (simp_all only: cabled_host_simps zero_neq_one not_False_eq_True simp_thms)
  then show ?thesis using hosts(1) unfolding cabled_host_simps(1) add_0 by blast
qed

end
