(* ===== verification/Udp_Dialogue.thy ===== *)
theory Udp_Dialogue
  imports Host_Dialogue Wire
begin

text \<open>
  Datagrams between two hosts on a cable: a datagram through a socket of its own, as the servers and
  the commands send theirs, and what the receiving host does with it.
\<close>

declare net_send.simps(2) [simp del]

section \<open>Receiving\<close>

definition udp_noted :: "ipv4_packet \<Rightarrow> udp_datagram \<Rightarrow> host \<Rightarrow> host" where
  "udp_noted p u h = h\<lparr>h_last_udp := u, h_last_udp_src := ip4_src p, h_has_udp := True\<rparr>"

lemma udp_noted_simps [simp]:
  "h_base (udp_noted p u h) = h_base h" "h_arp (udp_noted p u h) = h_arp h" "h_queue (udp_noted p u h) = h_queue h"
  "h_ip (udp_noted p u h) = h_ip h" "h_has_ip (udp_noted p u h) = h_has_ip h" "host_mac (udp_noted p u h) = host_mac h"
  "host_is_same_subnet (udp_noted p u h) = host_is_same_subnet h" "h_last_udp (udp_noted p u h) = u"
  "h_has_udp (udp_noted p u h)" "h_last_udp_src (udp_noted p u h) = ip4_src p"
  by (simp_all add: udp_noted_def host_mac_def host_is_same_subnet_def fun_eq_iff)

lemma receive_udp:
  assumes "get_host n w = Some h" "framed raw dst src ETHERNET_TYPE_IPV4 payload" "dst = mac_broadcast \<or> dst = host_mac h"
    and "udp_carried payload sip dip sp dp data p u"
    and "octet dip = Octets 255 255 255 255 \<or> h_has_ip h \<and> octet dip = octet (h_ip h)"
  shows "dp = DHCP_SERVER_PORT \<Longrightarrow> dh_bound_host (w_dhcp w) = Some n \<Longrightarrow>
      host_receive send n raw w = map_option snd (dhcp_server_dispatch send n u (put_host n (udp_noted p u h) w))"
    and "dp = DNS_SERVER_PORT \<Longrightarrow> dn_bound_host (w_dns w) = Some n \<Longrightarrow>
      host_receive send n raw w = map_option snd (dns_server_dispatch send n u (ip4_src p) sp (put_host n (udp_noted p u h) w))"
    and "dp \<noteq> DHCP_SERVER_PORT \<Longrightarrow> dp \<noteq> DNS_SERVER_PORT \<Longrightarrow>
      host_receive send n raw w = Some (put_host n (udp_noted p u h) w)"
proof -
  note c = assms(4) [unfolded udp_carried_def]
  have "host_receive send n raw w = host_handle_udp send n p w"
    using assms c
    by (auto simp: framed_def host_receive_def host_mac_def ethernet_is_broadcast_def mac_equal_def ip_is_limited_broadcast_def)
  moreover have "Option.bind x (\<lambda>(_, w). Some w) = map_option snd x" for x :: "(bool \<times> world) option"
    by (cases x) auto
  ultimately show "dp = DHCP_SERVER_PORT \<Longrightarrow> dh_bound_host (w_dhcp w) = Some n \<Longrightarrow>
      host_receive send n raw w = map_option snd (dhcp_server_dispatch send n u (put_host n (udp_noted p u h) w))"
    and "dp = DNS_SERVER_PORT \<Longrightarrow> dn_bound_host (w_dns w) = Some n \<Longrightarrow>
      host_receive send n raw w = map_option snd (dns_server_dispatch send n u (ip4_src p) sp (put_host n (udp_noted p u h) w))"
    and "dp \<noteq> DHCP_SERVER_PORT \<Longrightarrow> dp \<noteq> DNS_SERVER_PORT \<Longrightarrow>
      host_receive send n raw w = Some (put_host n (udp_noted p u h) w)"
    using assms(1) c by (simp_all add: host_handle_udp_def udp_noted_def)
qed

section \<open>Sockets for one datagram\<close>

text \<open>The table of descriptors as \<^verbatim>\<open>magi_socket\<close> finds it, and the descriptors it can give.\<close>

definition sock_table :: "world \<Rightarrow> magi_socket list" where
  "sock_table w = (if w_socks_initialized w then w_socks w else replicate MAGI_SOCKET_MAX_SOCKETS zero_magi_socket)"

definition free_fds :: "world \<Rightarrow> nat set" where
  "free_fds w = {i. i < MAGI_SOCKET_MAX_SOCKETS \<and> \<not> ms_in_use (sock_table w ! i)}"

abbreviation with_socks :: "magi_socket list \<Rightarrow> world \<Rightarrow> world" where
  "with_socks ss w \<equiv> w\<lparr>w_socks := ss, w_socks_initialized := True\<rparr>"

definition udp_sock :: "node_id \<Rightarrow> ip_address \<Rightarrow> u16 \<Rightarrow> magi_socket" where
  "udp_sock n ip port = zero_magi_socket\<lparr>ms_in_use := True, ms_type := MAGI_SOCK_UDP, ms_host := Some n,
     ms_local_ip := ip, ms_local_port := port\<rparr>"

lemma udp_sock_simps [simp]:
  "ms_in_use (udp_sock n ip port)" "ms_type (udp_sock n ip port) = MAGI_SOCK_UDP" "ms_host (udp_sock n ip port) = Some n"
  "ms_local_port (udp_sock n ip port) = port" "\<not> ms_in_use zero_magi_socket"
  by (simp_all add: udp_sock_def zero_magi_socket_def)

lemma get_host_socks [simp]: "get_host n (w\<lparr>w_socks_initialized := i\<rparr>) = get_host n w" "get_host n (with_socks ss w) = get_host n w" "get_host n (w\<lparr>w_socks := ss\<rparr>) = get_host n w"
  by (simp_all add: get_host_def)

lemma put_host_socks [simp]: "put_host n h (with_socks ss w) = with_socks ss (put_host n h w)"
  by (simp add: put_node_def)

lemma cable_socks [simp]: "cable a b (w\<lparr>w_socks := ss\<rparr>) = cable a b w" "cable a b (with_socks ss w) = cable a b w"
  "cable a b (w\<lparr>w_socks_initialized := i\<rparr>) = cable a b w" "cable a b (w\<lparr>w_dhcp := d\<rparr>) = cable a b w"
  by (simp_all add: cable_def get_iface_def)

lemma get_host_dhcp [simp]: "get_host n (w\<lparr>w_dhcp := d\<rparr>) = get_host n w"
  by (simp add: get_host_def)

lemma open_udp:
  assumes "length (sock_table w) = MAGI_SOCKET_MAX_SOCKETS" "free_fds w \<noteq> {}"
  obtains i w1 w2 where "i \<in> free_fds w" "magi_socket AF_INET SOCK_DGRAM w = (int i, w1)"
    "magi_socket_attach_host (int i) n w1 = (1, w2)" "get_host m w1 = get_host m w" "get_host m w2 = get_host m w"
    "\<forall>ip port. magi_bind (int i) ip port w2 = (1, with_socks ((sock_table w)[i := udp_sock n ip port]) w)"
proof -
  obtain i where i: "first_index (\<lambda>i. \<not> ms_in_use (sock_table w ! i)) MAGI_SOCKET_MAX_SOCKETS = Some i"
    using assms(2) by (cases "first_index (\<lambda>i. \<not> ms_in_use (sock_table w ! i)) MAGI_SOCKET_MAX_SOCKETS") (auto simp: free_fds_def)
  let ?s = "zero_magi_socket\<lparr>ms_in_use := True, ms_type := MAGI_SOCK_UDP\<rparr>"
  let ?w1 = "with_socks ((sock_table w)[i := ?s]) w"
  let ?w2 = "with_socks ((sock_table w)[i := ?s\<lparr>ms_host := Some n\<rparr>]) w"
  have i16: "i < MAGI_SOCKET_MAX_SOCKETS" "\<not> ms_in_use (sock_table w ! i)" using i by (auto simp: first_index_Some)
  have init: "(if w_socks_initialized w then w else w\<lparr>w_socks := magi_socket_init_all MAGI_SOCKET_MAX_SOCKETS, w_socks_initialized := True\<rparr>)
      = with_socks (sock_table w) w"
    by (simp add: sock_table_def magi_socket_init_all_def)
  have "magi_socket AF_INET SOCK_DGRAM w = (int i, ?w1)"
    unfolding magi_socket_def init using i by (simp add: Let_def put_sock_def)
  moreover have "magi_socket_attach_host (int i) n ?w1 = (1, ?w2)"
    using i16 assms(1) by (simp add: magi_socket_attach_host_def valid_fd_def put_sock_def)
  moreover have "\<forall>ip port. magi_bind (int i) ip port ?w2 = (1, with_socks ((sock_table w)[i := udp_sock n ip port]) w)"
    using i16 assms(1) by (simp add: magi_bind_def valid_fd_def put_sock_def udp_sock_def)
  moreover have "i \<in> free_fds w" "get_host m ?w1 = get_host m w" "get_host m ?w2 = get_host m w"
    using i16 by (simp_all add: free_fds_def)
  ultimately show ?thesis by (intro that [of i ?w1 ?w2])
qed

lemma close_udp:
  assumes "i < MAGI_SOCKET_MAX_SOCKETS" "w_socks w ! i = udp_sock n ip port"
  shows "magi_close send (int i) w = Some (1, w\<lparr>w_socks := (w_socks w)[i := zero_magi_socket]\<rparr>)"
  using assms by (simp add: magi_close_def valid_fd_def put_sock_def)

lemma sendto_udp:
  assumes "i < MAGI_SOCKET_MAX_SOCKETS" "w_socks w ! i = udp_sock n ip port" "length data \<le> UDP_MAX_PAYLOAD"
  shows "magi_sendto send (int i) data dst dst_port w = send_datagram send n dst port dst_port data w"
  using assms by (simp add: magi_sendto_def valid_fd_def)

text \<open>Opening and closing again leaves as many descriptors free, and the others as they were.\<close>

lemma free_after_close:
  assumes "length (sock_table w) = MAGI_SOCKET_MAX_SOCKETS" "i \<in> free_fds w"
  shows "free_fds (with_socks ((sock_table w)[i := zero_magi_socket]) w') = free_fds w"
    "free_fds (with_socks ((sock_table w)[i := udp_sock n ip port]) w') = free_fds w - {i}"
proof -
  have "sock_table (with_socks ss w') = ss" for ss by (simp add: sock_table_def)
  then show "free_fds (with_socks ((sock_table w)[i := zero_magi_socket]) w') = free_fds w"
    "free_fds (with_socks ((sock_table w)[i := udp_sock n ip port]) w') = free_fds w - {i}"
    using assms by (auto simp: free_fds_def nth_list_update)
qed

text \<open>Two descriptors are free: one for the client, one for the server.\<close>

definition two_free :: "world \<Rightarrow> bool" where
  "two_free w \<longleftrightarrow> length (sock_table w) = MAGI_SOCKET_MAX_SOCKETS \<and> free_fds w \<noteq> {} \<and> (\<forall>i. free_fds w - {i} \<noteq> {})"

lemma sock_table_simps [simp]:
  "sock_table (with_socks ss w) = ss" "sock_table (put_node n nd w) = sock_table w"
  "sock_table (w\<lparr>w_dhcp := d\<rparr>) = sock_table w" "w_socks_initialized (put_node n nd w) = w_socks_initialized w"
  by (simp_all add: sock_table_def put_node_def)

lemma free_fds_simps [simp]:
  "free_fds (put_node n nd w) = free_fds w" "free_fds (w\<lparr>w_dhcp := d\<rparr>) = free_fds w"
  by (simp_all add: free_fds_def)

section \<open>Sending\<close>

lemma datagram_packet_fits:
  assumes "length data \<le> UDP_MAX_PAYLOAD"
  obtains raw p u where "datagram_packet src dst sp dp data = Some raw" "length raw \<le> ETHERNET_MAX_PAYLOAD"
    "udp_carried raw src dst sp dp data p u"
proof -
  obtain u where u: "udp_create sp dp data = Some u" using assms by (simp add: udp_create_def)
  have "length (udp_payload (udp_seal u src dst)) \<le> UDP_MAX_PAYLOAD"
    using u assms by (auto simp: udp_create_def udp_seal_def)
  then have w: "udp_to_bytes (udp_seal u src dst) (UDP_HEADER_SIZE + UDP_MAX_PAYLOAD) = Some (udp_wire (udp_seal u src dst))"
    "length (udp_wire (udp_seal u src dst)) \<le> IPV4_MAX_PAYLOAD"
    by (simp_all add: udp_to_bytes_def)
  then obtain q where q: "ipv4_create src dst IPV4_DEFAULT_TTL IPV4_PROTOCOL_UDP (udp_wire (udp_seal u src dst)) = Some q"
    by (simp add: ipv4_create_def)
  then obtain raw where raw: "ipv4_to_bytes q (IPV4_HEADER_SIZE + IPV4_MAX_PAYLOAD) = Some raw"
    using ipv4_create_payload [OF q] ipv4_to_bytes_eq [of q] by fastforce
  have packet: "datagram_packet src dst sp dp data = Some raw" using u w q raw by (simp add: datagram_packet_def)
  obtain p v where "udp_carried raw src dst sp dp data p v" using datagram_packet_carried [OF packet] by blast
  then show ?thesis using packet ipv4_to_bytes_SomeD [OF raw] by (intro that) auto
qed

lemma broadcast_datagram:
  assumes "get_host n w = Some h" "length data \<le> UDP_MAX_PAYLOAD" "octet dst = Octets 255 255 255 255"
  obtains raw payload p u where
    "send_datagram send n dst sp dp data w = map_option (Pair (int (length data))) (send (n, 0) raw w)"
    "framed raw mac_broadcast (host_mac h) ETHERNET_TYPE_IPV4 payload" "udp_carried payload (h_ip h) dst sp dp data p u"
proof -
  obtain payload p u where packet: "datagram_packet (h_ip h) dst sp dp data = Some payload" "length payload \<le> ETHERNET_MAX_PAYLOAD"
    "udp_carried payload (h_ip h) dst sp dp data p u"
    by (rule datagram_packet_fits [OF assms(2)])
  obtain raw where raw: "host_send_ethernet_frame send n mac_broadcast ETHERNET_TYPE_IPV4 payload w = map_option (Pair True) (send (n, 0) raw w)"
    "framed raw mac_broadcast (host_mac h) ETHERNET_TYPE_IPV4 payload"
    by (rule host_frame [OF assms(1), where ty = ETHERNET_TYPE_IPV4 and payload = payload]) (use packet(2) in simp_all)
  have "host_send_l3_packet send n dst ETHERNET_TYPE_IPV4 payload w = map_option (Pair True) (send (n, 0) raw w)"
    using assms(1,3) packet(2) raw(1) by (simp add: host_send_l3_packet_def ip_is_limited_broadcast_def)
  then have "send_datagram send n dst sp dp data w = map_option (Pair (int (length data))) (send (n, 0) raw w)"
    using assms(1) packet(1) by (cases "send (n, 0) raw w") (simp_all add: send_datagram_def)
  then show ?thesis using raw(2) packet(3) by (rule that)
qed

text \<open>One datagram to a neighbour whose hardware address is known.\<close>

lemma datagram_to_neighbour:
  assumes "get_host n w = Some h" "h_has_ip h" "length data \<le> UDP_MAX_PAYLOAD"
    and "\<not> ip_is_limited_broadcast dst" "host_is_same_subnet h dst" "arp_table_get (h_arp h) dst = Some mac"
  obtains raw payload p u where
    "send_datagram send n dst sp dp data w = map_option (Pair (int (length data))) (send (n, 0) raw w)"
    "framed raw mac (host_mac h) ETHERNET_TYPE_IPV4 payload" "udp_carried payload (h_ip h) dst sp dp data p u"
proof -
  obtain payload p u where packet: "datagram_packet (h_ip h) dst sp dp data = Some payload" "length payload \<le> ETHERNET_MAX_PAYLOAD"
    "udp_carried payload (h_ip h) dst sp dp data p u"
    by (rule datagram_packet_fits [OF assms(3)])
  obtain raw where raw: "host_send_l3_packet send n dst ETHERNET_TYPE_IPV4 payload w = map_option (Pair True) (send (n, 0) raw w)"
    "framed raw mac (host_mac h) ETHERNET_TYPE_IPV4 payload"
    by (rule host_to_neighbour [OF assms(1,2,4-6) packet(2), where ty = ETHERNET_TYPE_IPV4]) simp
  have "send_datagram send n dst sp dp data w = map_option (Pair (int (length data))) (send (n, 0) raw w)"
    using assms(1) packet(1) raw(1) by (cases "send (n, 0) raw w") (simp_all add: send_datagram_def)
  then show ?thesis using raw(2) packet(3) by (rule that)
qed

text \<open>A datagram through a socket of its own, when the sockets come back as they were.\<close>

lemma reply_by_socket_opens:
  assumes "get_host n w = Some h" "length (sock_table w) = MAGI_SOCKET_MAX_SOCKETS" "free_fds w \<noteq> {}"
    and "length data \<le> UDP_MAX_PAYLOAD" "data \<noteq> []"
  obtains i where "i \<in> free_fds w"
    "\<forall>w'. send_datagram send n dst port dp data (with_socks ((sock_table w)[i := udp_sock n (h_ip h) port]) w) =
         Some (int (length data), w') \<longrightarrow>
       w_socks w' = (sock_table w)[i := udp_sock n (h_ip h) port] \<longrightarrow>
       reply_by_socket send n port data dst dp w = Some (True, w'\<lparr>w_socks := (sock_table w)[i := zero_magi_socket]\<rparr>)"
proof -
  obtain i w1 w2 where o: "i \<in> free_fds w" "magi_socket AF_INET SOCK_DGRAM w = (int i, w1)"
    "magi_socket_attach_host (int i) n w1 = (1, w2)" "get_host n w1 = get_host n w" "get_host n w2 = get_host n w"
    "\<forall>ip port. magi_bind (int i) ip port w2 = (1, with_socks ((sock_table w)[i := udp_sock n ip port]) w)"
    by (rule open_udp [OF assms(2,3), where n = n and m = n])
  let ?w3 = "with_socks ((sock_table w)[i := udp_sock n (h_ip h) port]) w"
  have i: "i < MAGI_SOCKET_MAX_SOCKETS" using o(1) by (simp add: free_fds_def)
  have sock: "w_socks ?w3 ! i = udp_sock n (h_ip h) port" using i assms(2) by simp
  note sendto = sendto_udp [OF i sock assms(4), of send dst dp]
  have "reply_by_socket send n port data dst dp w = Some (True, w'\<lparr>w_socks := (sock_table w)[i := zero_magi_socket]\<rparr>)"
    if "send_datagram send n dst port dp data ?w3 = Some (int (length data), w')"
      "w_socks w' = (sock_table w)[i := udp_sock n (h_ip h) port]" for w'
  proof -
    have "w_socks w' ! i = udp_sock n (h_ip h) port" using that(2) i assms(2) by simp
    from close_udp [OF i this, of send]
    have "magi_close send (int i) w' = Some (1, w'\<lparr>w_socks := (sock_table w)[i := zero_magi_socket]\<rparr>)"
      using that(2) by simp
    then show ?thesis
      using o assms(1,5) sendto that(1) by (simp add: reply_by_socket_def Let_def)
  qed
  then show ?thesis using o(1) by (intro that) blast+
qed

end
