(* ===== verification/Send_Depth.thy ===== *)
theory Send_Depth
  imports Simulator
begin

text \<open>
  The bound on nested sends is only a bound: with more of it, every operation that returns gives the
  same result. \<open>below x y\<close> says that \<open>x\<close> is no result or the result \<open>y\<close>; every function that sends
  is monotone in its sending function with respect to it.
\<close>

named_theorems below_intros "monotonicity in the sending function"

definition below :: "'a option \<Rightarrow> 'a option \<Rightarrow> bool" where
  "below x y \<longleftrightarrow> (\<forall>v. x = Some v \<longrightarrow> y = Some v)"

lemma belowI: "(\<And>v. x = Some v \<Longrightarrow> y = Some v) \<Longrightarrow> below x y"
  by (simp add: below_def)

lemma belowD: "below x y \<Longrightarrow> x = Some v \<Longrightarrow> y = Some v"
  by (simp add: below_def)

definition weaker :: "sender \<Rightarrow> sender \<Rightarrow> bool" where
  "weaker send send' \<longleftrightarrow> (\<forall>r raw w. below (send r raw w) (send' r raw w))"

lemma weakerD: "weaker send send' \<Longrightarrow> below (send r raw w) (send' r raw w)"
  unfolding weaker_def by blast

definition weaker_poll :: "poller \<Rightarrow> poller \<Rightarrow> bool" where
  "weaker_poll poll poll' \<longleftrightarrow> (\<forall>t w. below (poll t w) (poll' t w))"

lemma weaker_pollD: "weaker_poll poll poll' \<Longrightarrow> below (poll t w) (poll' t w)"
  by (simp add: weaker_poll_def)

lemma weaker_pollI [below_intros]: "(\<And>t w. below (poll t w) (poll' t w)) \<Longrightarrow> weaker_poll poll poll'"
  by (simp add: weaker_poll_def)

lemma below_refl [below_intros]: "below x x"
  by (simp add: below_def)

lemma below_bind [below_intros]: "below x y \<Longrightarrow> (\<And>v. below (f v) (g v)) \<Longrightarrow> below (Option.bind x f) (Option.bind y g)"
  by (auto simp: below_def bind_eq_Some_conv)

lemma below_if [below_intros]: "below x x' \<Longrightarrow> below y y' \<Longrightarrow> below (if b then x else y) (if b then x' else y')"
  by simp

lemma below_let [below_intros]: "(\<And>v. below (f v) (g v)) \<Longrightarrow> below (let v = t in f v) (let v = t in g v)"
  by simp

lemma below_case_option [below_intros]:
  "below x x' \<Longrightarrow> (\<And>v. below (f v) (f' v)) \<Longrightarrow>
    below (case t of None \<Rightarrow> x | Some v \<Rightarrow> f v) (case t of None \<Rightarrow> x' | Some v \<Rightarrow> f' v)"
  by (cases t) simp_all

lemma below_case_prod [below_intros]:
  "(\<And>a b. below (f a b) (f' a b)) \<Longrightarrow> below (case t of (a, b) \<Rightarrow> f a b) (case t of (a, b) \<Rightarrow> f' a b)"
  by (cases t) simp

lemma below_case_sock [below_intros]:
  "below x x' \<Longrightarrow> below y y' \<Longrightarrow> below z z' \<Longrightarrow>
    below (case t of MAGI_SOCK_UNUSED \<Rightarrow> x | MAGI_SOCK_TCP \<Rightarrow> y | MAGI_SOCK_UDP \<Rightarrow> z)
      (case t of MAGI_SOCK_UNUSED \<Rightarrow> x' | MAGI_SOCK_TCP \<Rightarrow> y' | MAGI_SOCK_UDP \<Rightarrow> z')"
  by (cases t) simp_all

lemma below_case_node [below_intros]:
  "(\<And>h. below (f h) (f' h)) \<Longrightarrow> (\<And>s. below (g s) (g' s)) \<Longrightarrow> (\<And>r. below (k r) (k' r)) \<Longrightarrow>
    below (case t of HostNode h \<Rightarrow> f h | SwitchNode s \<Rightarrow> g s | RouterNode r \<Rightarrow> k r)
      (case t of HostNode h \<Rightarrow> f' h | SwitchNode s \<Rightarrow> g' s | RouterNode r \<Rightarrow> k' r)"
  by (cases t) simp_all

section \<open>Links and hosts\<close>

lemma below_transmit [below_intros]:
  assumes s: "weaker send send'"
  shows "below (transmit send x1 x2 x3 x4)
    (transmit send' x1 x2 x3 x4)"
  unfolding transmit_def by (intro below_intros s s [THEN weakerD])

lemma below_interface_send [below_intros]:
  assumes s: "weaker send send'"
  shows "below (interface_send send x1 x2 x3)
    (interface_send send' x1 x2 x3)"
  unfolding interface_send_def by (intro below_intros s s [THEN weakerD])

lemma below_host_send_ethernet_frame [below_intros]:
  assumes s: "weaker send send'"
  shows "below (host_send_ethernet_frame send x1 x2 x3 x4 x5)
    (host_send_ethernet_frame send' x1 x2 x3 x4 x5)"
  unfolding host_send_ethernet_frame_def by (intro below_intros s s [THEN weakerD])

lemma below_host_send_arp_request [below_intros]:
  assumes s: "weaker send send'"
  shows "below (host_send_arp_request send x1 x2 x3)
    (host_send_arp_request send' x1 x2 x3)"
  unfolding host_send_arp_request_def by (intro below_intros s s [THEN weakerD])

lemma below_host_send_arp_reply [below_intros]:
  assumes s: "weaker send send'"
  shows "below (host_send_arp_reply send x1 x2 x3)
    (host_send_arp_reply send' x1 x2 x3)"
  unfolding host_send_arp_reply_def by (intro below_intros s s [THEN weakerD])

lemma host_poll_arp_deeper:
  "host_poll_arp send x1 x2 x3 = Some y \<Longrightarrow> weaker send send' \<Longrightarrow> host_poll_arp send' x1 x2 x3 = Some y"
proof (induction rule: host_poll_arp.raw_induct [rotated, consumes 1, case_names step])
  case (step rec send x1 x2 x3 y)
  note s = step(3)
  have rec: "below (rec send v1 v2 v3) (host_poll_arp send' v1 v2 v3)" for v1 v2 v3
    using step(1) s by (intro belowI)
  show ?case
    by (rule belowD [OF _ step(2)], subst host_poll_arp.simps) (intro below_intros rec s s [THEN weakerD])
qed

lemma below_host_poll_arp [below_intros]:
  "weaker send send' \<Longrightarrow> below (host_poll_arp send x1 x2 x3) (host_poll_arp send' x1 x2 x3)"
  by (blast intro: belowI host_poll_arp_deeper)

lemma below_host_send_l3_packet [below_intros]:
  assumes s: "weaker send send'"
  shows "below (host_send_l3_packet send x1 x2 x3 x4 x5)
    (host_send_l3_packet send' x1 x2 x3 x4 x5)"
  unfolding host_send_l3_packet_def by (intro below_intros s s [THEN weakerD])

lemma host_flush_loop_deeper:
  "host_flush_loop send x1 x2 x3 x4 x5 = Some y \<Longrightarrow> weaker send send' \<Longrightarrow> host_flush_loop send' x1 x2 x3 x4 x5 = Some y"
proof (induction rule: host_flush_loop.raw_induct [rotated, consumes 1, case_names step])
  case (step rec send x1 x2 x3 x4 x5 y)
  note s = step(3)
  have rec: "below (rec send v1 v2 v3 v4 v5) (host_flush_loop send' v1 v2 v3 v4 v5)" for v1 v2 v3 v4 v5
    using step(1) s by (intro belowI)
  show ?case
    by (rule belowD [OF _ step(2)], subst host_flush_loop.simps) (intro below_intros rec s s [THEN weakerD])
qed

lemma below_host_flush_loop [below_intros]:
  "weaker send send' \<Longrightarrow> below (host_flush_loop send x1 x2 x3 x4 x5) (host_flush_loop send' x1 x2 x3 x4 x5)"
  by (blast intro: belowI host_flush_loop_deeper)

lemma below_host_flush_pending_packets [below_intros]:
  assumes s: "weaker send send'"
  shows "below (host_flush_pending_packets send x1 x2 x3)
    (host_flush_pending_packets send' x1 x2 x3)"
  unfolding host_flush_pending_packets_def by (intro below_intros s s [THEN weakerD])

lemma below_host_send_icmp_echo_request [below_intros]:
  assumes s: "weaker send send'"
  shows "below (host_send_icmp_echo_request send x1 x2 x3 x4 x5)
    (host_send_icmp_echo_request send' x1 x2 x3 x4 x5)"
  unfolding host_send_icmp_echo_request_def by (intro below_intros s s [THEN weakerD])

section \<open>Application sockets and services\<close>

lemma below_magi_connect [below_intros]:
  assumes s: "weaker send send'"
  shows "below (magi_connect send x1 x2 x3 x4)
    (magi_connect send' x1 x2 x3 x4)"
  unfolding magi_connect_def by (intro below_intros s s [THEN weakerD])

lemma below_send_datagram [below_intros]:
  assumes s: "weaker send send'"
  shows "below (send_datagram send x1 x2 x3 x4 x5 x6)
    (send_datagram send' x1 x2 x3 x4 x5 x6)"
  unfolding send_datagram_def by (intro below_intros s s [THEN weakerD])

lemma below_magi_send_tcp [below_intros]:
  assumes s: "weaker send send'"
  shows "below (magi_send_tcp send x1 x2 x3)
    (magi_send_tcp send' x1 x2 x3)"
  unfolding magi_send_tcp_def by (intro below_intros s s [THEN weakerD])

lemma below_magi_send [below_intros]:
  assumes s: "weaker send send'"
  shows "below (magi_send send x1 x2 x3)
    (magi_send send' x1 x2 x3)"
  unfolding magi_send_def by (intro below_intros s s [THEN weakerD])

lemma below_magi_sendto [below_intros]:
  assumes s: "weaker send send'"
  shows "below (magi_sendto send x1 x2 x3 x4 x5)
    (magi_sendto send' x1 x2 x3 x4 x5)"
  unfolding magi_sendto_def by (intro below_intros s s [THEN weakerD])

lemma below_magi_close_tcp [below_intros]:
  assumes s: "weaker send send'"
  shows "below (magi_close_tcp send x1 x2 x3 x4)
    (magi_close_tcp send' x1 x2 x3 x4)"
  unfolding magi_close_tcp_def by (intro below_intros s s [THEN weakerD])

lemma below_magi_close [below_intros]:
  assumes s: "weaker send send'"
  shows "below (magi_close send x1 x2)
    (magi_close send' x1 x2)"
  unfolding magi_close_def by (intro below_intros s s [THEN weakerD])

lemma below_reply_by_socket [below_intros]:
  assumes s: "weaker send send'"
  shows "below (reply_by_socket send x1 x2 x3 x4 x5 x6)
    (reply_by_socket send' x1 x2 x3 x4 x5 x6)"
  unfolding reply_by_socket_def by (intro below_intros s s [THEN weakerD])

lemma below_dhcp_send_response [below_intros]:
  assumes s: "weaker send send'"
  shows "below (dhcp_send_response send x1 x2 x3)
    (dhcp_send_response send' x1 x2 x3)"
  unfolding dhcp_send_response_def by (intro below_intros s s [THEN weakerD])

lemma below_dhcp_server_dispatch [below_intros]:
  assumes s: "weaker send send'"
  shows "below (dhcp_server_dispatch send x1 x2 x3)
    (dhcp_server_dispatch send' x1 x2 x3)"
  unfolding dhcp_server_dispatch_def by (intro below_intros s s [THEN weakerD])

lemma below_dns_server_dispatch [below_intros]:
  assumes s: "weaker send send'"
  shows "below (dns_server_dispatch send x1 x2 x3 x4 x5)
    (dns_server_dispatch send' x1 x2 x3 x4 x5)"
  unfolding dns_server_dispatch_def by (intro below_intros s s [THEN weakerD])

lemma below_http_server_stop [below_intros]:
  assumes s: "weaker send send'"
  shows "below (http_server_stop send x1)
    (http_server_stop send' x1)"
  unfolding http_server_stop_def by (intro below_intros s s [THEN weakerD])

lemma below_http_server_attach_host [below_intros]:
  assumes s: "weaker send send'"
  shows "below (http_server_attach_host send x1 x2)
    (http_server_attach_host send' x1 x2)"
  unfolding http_server_attach_host_def by (intro below_intros s s [THEN weakerD])

lemma http_send_loop_deeper:
  "http_send_loop send x1 x2 x3 = Some y \<Longrightarrow> weaker send send' \<Longrightarrow> http_send_loop send' x1 x2 x3 = Some y"
proof (induction rule: http_send_loop.raw_induct [rotated, consumes 1, case_names step])
  case (step rec send x1 x2 x3 y)
  note s = step(3)
  have rec: "below (rec send v1 v2 v3) (http_send_loop send' v1 v2 v3)" for v1 v2 v3
    using step(1) s by (intro belowI)
  show ?case
    by (rule belowD [OF _ step(2)], subst http_send_loop.simps) (intro below_intros rec s s [THEN weakerD])
qed

lemma below_http_send_loop [below_intros]:
  "weaker send send' \<Longrightarrow> below (http_send_loop send x1 x2 x3) (http_send_loop send' x1 x2 x3)"
  by (blast intro: belowI http_send_loop_deeper)

lemma below_http_server_dispatch [below_intros]:
  assumes s: "weaker send send'"
  shows "below (http_server_dispatch send x1 x2)
    (http_server_dispatch send' x1 x2)"
  unfolding http_server_dispatch_def by (intro below_intros s s [THEN weakerD])

lemma below_magi_http_get [below_intros]:
  assumes s: "weaker send send'"
  shows "below (magi_http_get send x1 x2 x3 x4 x5)
    (magi_http_get send' x1 x2 x3 x4 x5)"
  unfolding magi_http_get_def by (intro below_intros s s [THEN weakerD])

lemma below_host_handle_arp [below_intros]:
  assumes s: "weaker send send'"
  shows "below (host_handle_arp send x1 x2 x3)
    (host_handle_arp send' x1 x2 x3)"
  unfolding host_handle_arp_def by (intro below_intros s s [THEN weakerD])

lemma below_host_handle_udp [below_intros]:
  assumes s: "weaker send send'"
  shows "below (host_handle_udp send x1 x2 x3)
    (host_handle_udp send' x1 x2 x3)"
  unfolding host_handle_udp_def by (intro below_intros s s [THEN weakerD])

lemma below_host_send_tcp_response [below_intros]:
  assumes s: "weaker send send'"
  shows "below (host_send_tcp_response send x1 x2 x3 x4)
    (host_send_tcp_response send' x1 x2 x3 x4)"
  unfolding host_send_tcp_response_def by (intro below_intros s s [THEN weakerD])

lemma below_host_handle_tcp [below_intros]:
  assumes s: "weaker send send'"
  shows "below (host_handle_tcp send x1 x2 x3)
    (host_handle_tcp send' x1 x2 x3)"
  unfolding host_handle_tcp_def by (intro below_intros s s [THEN weakerD])

lemma below_host_handle_icmp [below_intros]:
  assumes s: "weaker send send'"
  shows "below (host_handle_icmp send x1 x2 x3)
    (host_handle_icmp send' x1 x2 x3)"
  unfolding host_handle_icmp_def by (intro below_intros s s [THEN weakerD])

lemma below_host_receive [below_intros]:
  assumes s: "weaker send send'"
  shows "below (host_receive send x1 x2 x3)
    (host_receive send' x1 x2 x3)"
  unfolding host_receive_def by (intro below_intros s s [THEN weakerD])

section \<open>Switches and routers\<close>

lemma below_switch_send_frame_on_port [below_intros]:
  assumes s: "weaker send send'"
  shows "below (switch_send_frame_on_port send x1 x2 x3 x4 x5)
    (switch_send_frame_on_port send' x1 x2 x3 x4 x5)"
  unfolding switch_send_frame_on_port_def by (intro below_intros s s [THEN weakerD])

lemma below_switch_flood_loop [below_intros]:
  assumes s: "weaker send send'"
  shows "below (switch_flood_loop send n in_port vlan_id frame ports sent w) (switch_flood_loop send' n in_port vlan_id frame ports sent w)"
proof (induction ports arbitrary: sent w)
  case (Cons port ports)
  show ?case unfolding switch_flood_loop.simps by (intro below_intros s Cons.IH)
qed (simp add: below_def)

lemma below_switch_flood_frame [below_intros]:
  assumes s: "weaker send send'"
  shows "below (switch_flood_frame send x1 x2 x3 x4 x5)
    (switch_flood_frame send' x1 x2 x3 x4 x5)"
  unfolding switch_flood_frame_def by (intro below_intros s s [THEN weakerD])

lemma below_switch_receive [below_intros]:
  assumes s: "weaker send send'"
  shows "below (switch_receive send x1 x2 x3 x4)
    (switch_receive send' x1 x2 x3 x4)"
  unfolding switch_receive_def by (intro below_intros s s [THEN weakerD])

lemma below_router_send_ethernet_frame [below_intros]:
  assumes s: "weaker send send'"
  shows "below (router_send_ethernet_frame send x1 x2 x3 x4 x5 x6 x7)
    (router_send_ethernet_frame send' x1 x2 x3 x4 x5 x6 x7)"
  unfolding router_send_ethernet_frame_def by (intro below_intros s s [THEN weakerD])

lemma below_router_send_arp_request [below_intros]:
  assumes s: "weaker send send'"
  shows "below (router_send_arp_request send x1 x2 x3 x4 x5)
    (router_send_arp_request send' x1 x2 x3 x4 x5)"
  unfolding router_send_arp_request_def by (intro below_intros s s [THEN weakerD])

lemma below_router_send_arp_reply [below_intros]:
  assumes s: "weaker send send'"
  shows "below (router_send_arp_reply send x1 x2 x3 x4 x5)
    (router_send_arp_reply send' x1 x2 x3 x4 x5)"
  unfolding router_send_arp_reply_def by (intro below_intros s s [THEN weakerD])

lemma below_router_send_packet_to_next_hop [below_intros]:
  assumes s: "weaker send send'" and p: "weaker_poll poll poll'"
  shows "below (router_send_packet_to_next_hop poll send x1 x2 x3 x4 x5)
    (router_send_packet_to_next_hop poll' send' x1 x2 x3 x4 x5)"
  unfolding router_send_packet_to_next_hop_def by (intro below_intros s s [THEN weakerD] p p [THEN weaker_pollD])

lemma below_router_send_ipv4_packet [below_intros]:
  assumes s: "weaker send send'" and p: "weaker_poll poll poll'"
  shows "below (router_send_ipv4_packet poll send x1 x2 x3)
    (router_send_ipv4_packet poll' send' x1 x2 x3)"
  unfolding router_send_ipv4_packet_def by (intro below_intros s s [THEN weakerD] p p [THEN weaker_pollD])

lemma below_router_send_icmp_error [below_intros]:
  assumes s: "weaker send send'" and p: "weaker_poll poll poll'"
  shows "below (router_send_icmp_error poll send x1 x2 x3 x4 x5)
    (router_send_icmp_error poll' send' x1 x2 x3 x4 x5)"
  unfolding router_send_icmp_error_def by (intro below_intros s s [THEN weakerD] p p [THEN weaker_pollD])

lemma router_poll_loop_deeper:
  "router_poll_loop send x1 x2 x3 x4 = Some y \<Longrightarrow> weaker send send' \<Longrightarrow> router_poll_loop send' x1 x2 x3 x4 = Some y"
proof (induction rule: router_poll_loop.raw_induct [rotated, consumes 1, case_names step])
  case (step rec send x1 x2 x3 x4 y)
  note s = step(3)
  have rec: "below (rec send v1 v2 v3 v4) (router_poll_loop send' v1 v2 v3 v4)" for v1 v2 v3 v4
    using step(1) s by (intro belowI)
  show ?case
    by (rule belowD [OF _ step(2)], subst router_poll_loop.simps) (intro below_intros rec s s [THEN weakerD])
qed

lemma below_router_poll_loop [below_intros]:
  "weaker send send' \<Longrightarrow> below (router_poll_loop send x1 x2 x3 x4) (router_poll_loop send' x1 x2 x3 x4)"
  by (blast intro: belowI router_poll_loop_deeper)

lemma below_router_poll_arp [below_intros]:
  assumes s: "weaker send send'"
  shows "below (router_poll_arp send x1 x2 x3)
    (router_poll_arp send' x1 x2 x3)"
  unfolding router_poll_arp_def by (intro below_intros s s [THEN weakerD])

lemma router_flush_loop_deeper:
  "router_flush_loop send x1 x2 x3 x4 = Some y \<Longrightarrow> weaker send send' \<Longrightarrow> router_flush_loop send' x1 x2 x3 x4 = Some y"
proof (induction rule: router_flush_loop.raw_induct [rotated, consumes 1, case_names step])
  case (step rec send x1 x2 x3 x4 y)
  note s = step(3)
  have rec: "below (rec send v1 v2 v3 v4) (router_flush_loop send' v1 v2 v3 v4)" for v1 v2 v3 v4
    using step(1) s by (intro belowI)
  show ?case
    by (rule belowD [OF _ step(2)], subst router_flush_loop.simps) (intro below_intros rec s s [THEN weakerD])
qed

lemma below_router_flush_loop [below_intros]:
  "weaker send send' \<Longrightarrow> below (router_flush_loop send x1 x2 x3 x4) (router_flush_loop send' x1 x2 x3 x4)"
  by (blast intro: belowI router_flush_loop_deeper)

lemma below_router_flush_pending_packets [below_intros]:
  assumes s: "weaker send send'"
  shows "below (router_flush_pending_packets send x1 x2 x3)
    (router_flush_pending_packets send' x1 x2 x3)"
  unfolding router_flush_pending_packets_def by (intro below_intros s s [THEN weakerD])

lemma below_router_forward_ipv4_packet [below_intros]:
  assumes s: "weaker send send'"
  shows "below (router_forward_ipv4_packet send x1 x2 x3)
    (router_forward_ipv4_packet send' x1 x2 x3)"
  unfolding router_forward_ipv4_packet_def by (intro below_intros s s [THEN weakerD])

lemma below_router_handle_local_ipv4 [below_intros]:
  assumes s: "weaker send send'"
  shows "below (router_handle_local_ipv4 send x1 x2 x3)
    (router_handle_local_ipv4 send' x1 x2 x3)"
  unfolding router_handle_local_ipv4_def by (intro below_intros s s [THEN weakerD])

lemma below_router_handle_arp [below_intros]:
  assumes s: "weaker send send'"
  shows "below (router_handle_arp send x1 x2 x3 x4 x5)
    (router_handle_arp send' x1 x2 x3 x4 x5)"
  unfolding router_handle_arp_def by (intro below_intros s s [THEN weakerD])

lemma below_router_receive [below_intros]:
  assumes s: "weaker send send'"
  shows "below (router_receive send x1 x2 x3 x4)
    (router_receive send' x1 x2 x3 x4)"
  unfolding router_receive_def by (intro below_intros s s [THEN weakerD])

section \<open>The knot\<close>

lemma below_node_receive [below_intros]:
  assumes s: "weaker send send'"
  shows "below (node_receive send x1 x2 x3 x4)
    (node_receive send' x1 x2 x3 x4)"
  unfolding node_receive_def by (intro below_intros s s [THEN weakerD])
lemma below_receive [below_intros]:
  assumes s: "weaker send send'"
  shows "below (receive send r raw w) (receive send' r raw w)"
  unfolding receive_def by (intro below_intros s)

lemma weakerI: "(\<And>r raw w. below (send r raw w) (send' r raw w)) \<Longrightarrow> weaker send send'"
  unfolding weaker_def by blast

lemma net_send_weaker: "weaker (net_send k) (net_send (k + m))"
proof (induction k)
  case 0
  show ?case by (rule weakerI) (simp add: below_def)
next
  case (Suc k)
  have "weaker (receive (net_send k)) (receive (net_send (k + m)))"
    by (rule weakerI) (intro below_intros Suc.IH)
  then show ?case by (intro weakerI) (simp add: below_interface_send)
qed

lemma deeper_weaker: "k \<le> k' \<Longrightarrow> weaker (net_send k) (net_send k')"
  using net_send_weaker [of k "k' - k"] by simp

lemma below_tick_slots [below_intros]:
  assumes s: "weaker deliver deliver'"
  shows "below (tick_slots deliver now slots w) (tick_slots deliver' now slots w)"
proof (induction slots arbitrary: w)
  case (Cons i slots)
  show ?case unfolding tick_slots.simps by (intro below_intros Cons.IH s [THEN weakerD])
qed (simp add: below_def)

lemma below_sim_clock_tick [below_intros]:
  assumes s: "weaker send send'"
  shows "below (sim_clock_tick send now w) (sim_clock_tick send' now w)"
proof -
  have "weaker (receive send) (receive send')" by (rule weakerI) (intro below_intros s)
  then show ?thesis unfolding sim_clock_tick_def by (intro below_intros)
qed

end
