(* ===== verification/Contact.thy ===== *)
theory Contact
  imports Udp_Dialogue Send_Depth
begin

text \<open>
  A packet from one host to another on the cable, whatever it carries: when the hardware addresses are
  known it goes out at once, and otherwise it waits, the address is asked for and answered, and the
  packet goes out when the answer arrives. Either way the call is reduced to the delivery of one frame.
\<close>

declare net_send.simps(2) [simp del]

section \<open>Neighbours\<close>

definition neighbours :: "node_id \<Rightarrow> node_id \<Rightarrow> host \<Rightarrow> host \<Rightarrow> world \<Rightarrow> bool" where
  "neighbours a b A B w \<longleftrightarrow> cable a b w \<and> a \<noteq> b \<and> get_host a w = Some A \<and> get_host b w = Some B \<and>
     wf_host A \<and> wf_host B \<and> h_has_ip A \<and> h_has_ip B \<and>
     host_is_same_subnet A (h_ip B) \<and> host_is_same_subnet B (h_ip A) \<and>
     \<not> ip_is_limited_broadcast (h_ip A) \<and> \<not> ip_is_limited_broadcast (h_ip B)"

definition acquainted :: "host \<Rightarrow> host \<Rightarrow> bool" where
  "acquainted A B \<longleftrightarrow> arp_table_get (h_arp A) (h_ip B) = Some (host_mac B) \<and> arp_table_get (h_arp B) (h_ip A) = Some (host_mac A)"

text \<open>\<open>A\<close> does not know \<open>B\<close> and nothing waits for \<open>B\<close> yet; there is room where something is to be stored.\<close>

definition strangers :: "host \<Rightarrow> host \<Rightarrow> bool" where
  "strangers A B \<longleftrightarrow> arp_table_get (h_arp A) (h_ip B) = None \<and> tab_size (h_arp A) < ARP_TABLE_MAX_ENTRIES \<and>
     (arp_table_get (h_arp B) (h_ip A) \<noteq> None \<or> tab_size (h_arp B) < ARP_TABLE_MAX_ENTRIES) \<and>
     host_find_pending_for_ip A (h_ip B) = None \<and> ring_size (h_queue A) < HOST_PENDING_QUEUE_MAX_ENTRIES"

lemma put_same: "get_host n w = Some h \<Longrightarrow> put_host n h w = w"
  by (cases w) (auto simp: get_host_def put_node_def fun_upd_idem split: option.split_asm node.split_asm)

lemma put_host_put [simp]: "put_host n h (put_host n h' w) = put_host n h w"
  by (simp add: put_node_def)

lemma put_clock [simp]: "put_host n h (w\<lparr>w_clock := c\<rparr>) = (put_host n h w)\<lparr>w_clock := c\<rparr>"
  by (simp add: put_node_def)

lemma put_swap: "n \<noteq> m \<Longrightarrow> put_host n h (put_host m k w) = put_host m k (put_host n h w)"
  by (simp add: put_node_def fun_upd_twist)

text \<open>An address counts by its octets.\<close>

lemma same_octets:
  assumes "octet ip = octet ip'"
  shows "ip_is_limited_broadcast ip = ip_is_limited_broadcast ip'" "host_is_same_subnet h ip = host_is_same_subnet h ip'"
    "arp_table_get t ip = arp_table_get t ip'" "waits_for ip = waits_for ip'" "host_find_pending_for_ip h ip = host_find_pending_for_ip h ip'"
    "arp_wire (arp_message_init_request mac me ip) = arp_wire (arp_message_init_request mac me ip')"
proof -
  have w: "waits_for ip = waits_for ip'" by (simp add: waits_for_def fun_eq_iff assms)
  show "ip_is_limited_broadcast ip = ip_is_limited_broadcast ip'" "host_is_same_subnet h ip = host_is_same_subnet h ip'"
    "arp_table_get t ip = arp_table_get t ip'" "waits_for ip = waits_for ip'" "host_find_pending_for_ip h ip = host_find_pending_for_ip h ip'"
    using assms arp.lookup_key [OF assms, of t] w
    by (simp_all add: ip_is_limited_broadcast_def host_is_same_subnet_def ip_to_u32_def host_find_pending_for_ip_def)
  show "arp_wire (arp_message_init_request mac me ip) = arp_wire (arp_message_init_request mac me ip')"
    by (simp add: arp_wire_def arp_message_init_request_def assms)
qed

section \<open>The packet waits\<close>

lemma packet_waits:
  assumes "neighbours a b A B w" "strangers A B" "length payload \<le> ETHERNET_MAX_PAYLOAD" "octet ip = octet (h_ip B)"
  obtains c A' e raw where
    "A' = A\<lparr>h_queue := h_queue A'\<rparr>" "wf_ring HOST_PENDING_QUEUE_MAX_ENTRIES (h_queue A')" "host_waiting A' = host_waiting A @ [e]"
    "find (waits_for (h_ip B)) (host_waiting A) = None" "waits_for (h_ip B) e" "hp_ethertype e = ETHERNET_TYPE_IPV4" "hp_payload e = payload"
    "cable a b (put_host a A' (w\<lparr>w_clock := c\<rparr>))"
    "framed raw mac_broadcast (host_mac A) ETHERNET_TYPE_ARP (arp_wire (arp_message_init_request (host_mac A) (h_ip A) (h_ip B)))"
    "\<forall>w'' A''. send (a, 0) raw (put_host a A' (w\<lparr>w_clock := c\<rparr>)) = Some w'' \<longrightarrow> get_host a w'' = Some A'' \<longrightarrow>
      arp_table_get (h_arp A'') (h_ip B) \<noteq> None \<longrightarrow>
      host_send_l3_packet send a ip ETHERNET_TYPE_IPV4 payload w = Some (True, w'')"
proof -
  note n = assms(1) [unfolded neighbours_def] and s = assms(2) [unfolded strangers_def] and ip = same_octets [OF assms(4)]
  obtain now w1 where w1: "now_ms w = (now, w1)" by fastforce
  obtain c where c: "w1 = w\<lparr>w_clock := c\<rparr>" using now_ms_clock [of w] w1 by auto
  define e where "e = \<lparr>hp_target = ip, hp_ethertype = ETHERNET_TYPE_IPV4, hp_payload = payload, hp_attempts = 1, hp_last = now\<rparr>"
  define A' where "A' = A\<lparr>h_queue := snd (ring_push HOST_PENDING_QUEUE_MAX_ENTRIES e (h_queue A))\<rparr>"
  let ?w = "put_host a A' w1"
  have wf: "wf_ring HOST_PENDING_QUEUE_MAX_ENTRIES (h_queue A)" using n by (simp add: wf_host_def)
  note push = ring_push_list [OF wf, of e]
  have "cable a b w1" using cable_now [of a b w] w1 n by simp
  then have cable: "cable a b ?w" by (rule cable_put_host [where h = A]) (use n c in \<open>simp_all add: A'_def\<close>)
  have A': "get_host a ?w = Some A'" "h_has_ip A'" "h_ip A' = h_ip A" "host_mac A' = host_mac A"
    using n by (simp_all add: A'_def host_mac_def)
  obtain raw where request: "host_send_arp_request send a ip ?w = map_option (Pair True) (send (a, 0) raw ?w)"
    "framed raw mac_broadcast (host_mac A') ETHERNET_TYPE_ARP (arp_wire (arp_message_init_request (host_mac A') (h_ip A') (h_ip B)))"
    using host_arp_request [OF A'(1,2), of send ip] unfolding ip(6) by blast
  have "host_queue_pending_packet_with_arp_state A ip ETHERNET_TYPE_IPV4 payload 1 now = (True, A')"
    using push(2) s assms(3) by (simp add: host_queue_pending_packet_with_arp_state_def A'_def e_def case_prod_unfold Let_def)
  then have "host_send_l3_packet send a ip ETHERNET_TYPE_IPV4 payload w = Some (True, w'')"
    if "send (a, 0) raw ?w = Some w''" "get_host a w'' = Some A''" "arp_table_get (h_arp A'') (h_ip B) \<noteq> None" for w'' A''
    using that n s w1 request(1) assms(3) by (auto simp: host_send_l3_packet_def ip(1,3,5) same_octets(2) [OF assms(4)])
  moreover have "find (waits_for (h_ip B)) (host_waiting A) = None"
    using s ring_find_list [OF wf] by (simp add: host_find_pending_for_ip_def)
  moreover have "wf_ring HOST_PENDING_QUEUE_MAX_ENTRIES (h_queue A')" "host_waiting A' = host_waiting A @ [e]"
    using push(1,3) s by (simp_all add: A'_def)
  ultimately show ?thesis
    using cable request(2) A' c by (intro that [of A' e c raw]) (simp_all add: e_def A'_def waits_for_def assms(4))
qed

section \<open>The address is asked for\<close>

text \<open>
  The state of the two hosts when the answer has arrived and the packet has been taken out of the
  queue; what is left is to deliver its frame, and to look once more into the queue.
\<close>

lemma resolution:
  assumes "cable a b w" "a \<noteq> b" "get_host a w = Some A" "get_host b w = Some B" "h_has_ip B"
    and "framed raw mac_broadcast (host_mac A) ETHERNET_TYPE_ARP (arp_wire (arp_message_init_request (host_mac A) (h_ip A) (h_ip B)))"
    and "wf_ring HOST_PENDING_QUEUE_MAX_ENTRIES (h_queue A)" "host_waiting A = others @ [e]"
    and "find (waits_for (h_ip B)) others = None" "waits_for (h_ip B) e"
    and "hp_ethertype e = ETHERNET_TYPE_IPV4" "length (hp_payload e) \<le> ETHERNET_MAX_PAYLOAD"
    and "arp_inv (h_arp A)" "tab_size (h_arp A) < ARP_TABLE_MAX_ENTRIES" "arp_inv (h_arp B)"
    and "arp_table_get (h_arp B) (h_ip A) \<noteq> None \<or> tab_size (h_arp B) < ARP_TABLE_MAX_ENTRIES"
  obtains A' B' raw' where
    "A' = taken_out (strip_prefix (h_ip B)) (arp_learned (strip_prefix (h_ip B)) (host_mac B) A)"
    "B' = arp_learned (strip_prefix (h_ip A)) (host_mac A) B" "acquainted A' B'" "host_waiting A' = others"
    "wf_ring HOST_PENDING_QUEUE_MAX_ENTRIES (h_queue A')"
    "framed raw' (host_mac B) (host_mac A) ETHERNET_TYPE_IPV4 (hp_payload e)"
    "\<forall>w4 A4. net_send (Suc (Suc depth)) (a, 0) raw' (put_host a A' (put_host b B' w)) = Some w4 \<longrightarrow> get_host a w4 = Some A4 \<longrightarrow>
       h_queue A4 = h_queue A' \<longrightarrow>
       net_send (Suc (Suc (Suc (Suc depth)))) (a, 0) raw w = Some (put_host a (taken_out (strip_prefix (h_ip B)) A4) w4)"
proof -
  let ?ipa = "strip_prefix (h_ip A)" and ?ipb = "strip_prefix (h_ip B)" and ?send = "net_send (Suc (Suc depth))"
  let ?B = "arp_learned ?ipa (host_mac A) B"
  let ?w1 = "put_host b ?B w"
  obtain raw1 where 1: "host_receive (net_send (Suc (Suc (Suc depth)))) b raw w = net_send (Suc (Suc (Suc depth))) (b, 0) raw1 ?w1"
    "framed raw1 (host_mac A) (host_mac B) ETHERNET_TYPE_ARP (arp_wire (arp_message_init_reply (host_mac B) (h_ip B) (host_mac A) ?ipa))"
    by (rule arp_request_answered [OF assms(4,5,6)])
  have c1: "cable a b ?w1" by (rule cable_put_host [OF assms(1,4)]) simp
  have A1: "get_host a ?w1 = Some A" using assms(2,3) by simp
  let ?A = "arp_learned ?ipb (host_mac B) A"
  let ?w2 = "put_host a ?A ?w1"
  have 2: "host_receive ?send a raw1 ?w1 = map_option snd (host_flush_pending_packets ?send a ?ipb ?w2)"
    by (rule arp_reply_flushes [OF A1 1(2)])
  have known: "arp_table_get (h_arp ?A) ?ipb = Some (host_mac B)" "arp_table_get (h_arp ?A) (h_ip B) = Some (host_mac B)"
    "arp_table_get (h_arp ?B) (h_ip A) = Some (host_mac A)"
    using arp_learned_known [of A ?ipb] arp_learned_known [of B ?ipa] assms(13-16) arp.lookup_key [of "h_ip A" ?ipa "h_arp B"]
    by simp_all
  have A2: "get_host a ?w2 = Some ?A" by simp
  have ring: "wf_ring HOST_PENDING_QUEUE_MAX_ENTRIES (h_queue ?A)" using assms(7) by simp
  have find: "find (waits_for ?ipb) (host_waiting ?A) = Some e"
    using assms(8-10) find_append_last by simp
  let ?A3 = "taken_out ?ipb ?A"
  let ?w3 = "put_host a ?A3 ?w2"
  obtain raw2 i where 3: "framed raw2 (host_mac B) (host_mac A) ETHERNET_TYPE_IPV4 (hp_payload e)"
    "host_flush_pending_packets ?send a ?ipb ?w2 = Option.bind (?send (a, 0) raw2 ?w3) (host_flush_loop ?send a ?ipb i 1)"
    using flush_one [OF A2 ring find known(1), where send = ?send] assms(11,12) by auto
  have wf: "wf_ring HOST_PENDING_QUEUE_MAX_ENTRIES (h_queue ?A3)" "host_waiting ?A3 = others"
    using taken_out_queue(1,2) [OF ring, of ?ipb] assms(8-10) remove_first_last by simp_all
  have w3: "?w3 = put_host a ?A3 (put_host b ?B w)" by simp
  have "net_send (Suc (Suc (Suc (Suc depth)))) (a, 0) raw w = Some (put_host a (taken_out ?ipb A4) w4)"
    if "?send (a, 0) raw2 (put_host a ?A3 (put_host b ?B w)) = Some w4" "get_host a w4 = Some A4" "h_queue A4 = h_queue ?A3" for w4 A4
  proof -
    have "host_flush_loop ?send a ?ipb i 1 w4 = Some (1, put_host a (taken_out ?ipb A4) w4)"
      by (rule flush_done [OF that(2)]) (use wf that(3) assms(9) in simp_all)
    then have "host_flush_pending_packets ?send a ?ipb ?w2 = Some (1, put_host a (taken_out ?ipb A4) w4)"
      using 3(2) that(1) by (simp only: w3 bind.bind_lunit)
    then show ?thesis
      using cable_delivers [OF assms(1,4), of "Suc (Suc (Suc depth))" raw] 1(1)
        cable_delivers [OF cable_sym [OF c1] A1, of "Suc (Suc depth)" raw1] 2 by simp
  qed
  then show ?thesis
    using known wf 3(1) by (intro that [of ?A3 ?B raw2]) (simp_all add: acquainted_def)
qed

section \<open>Contact\<close>

text \<open>What is left of a host, but for its table and its queue.\<close>

definition like :: "host \<Rightarrow> host \<Rightarrow> bool" where
  "like A A' \<longleftrightarrow> A' = A\<lparr>h_arp := h_arp A', h_queue := h_queue A'\<rparr>"

lemma like_simps:
  assumes "like A A'"
  shows "h_base A' = h_base A" "h_ip A' = h_ip A" "h_has_ip A' = h_has_ip A" "h_tcp A' = h_tcp A"
    "host_mac A' = host_mac A" "host_is_same_subnet A' = host_is_same_subnet A" "h_has_udp A' = h_has_udp A"
    "h_last_udp A' = h_last_udp A" "h_magi_fd A' = h_magi_fd A"
proof -
  obtain t q where A': "A' = A\<lparr>h_arp := t, h_queue := q\<rparr>" using assms unfolding like_def by blast
  show "h_base A' = h_base A" "h_ip A' = h_ip A" "h_has_ip A' = h_has_ip A" "h_tcp A' = h_tcp A"
    "host_mac A' = host_mac A" "host_is_same_subnet A' = host_is_same_subnet A" "h_has_udp A' = h_has_udp A"
    "h_last_udp A' = h_last_udp A" "h_magi_fd A' = h_magi_fd A"
    unfolding A' by (simp_all add: host_mac_def host_is_same_subnet_def fun_eq_iff)
qed

lemma likeI: "A' = A\<lparr>h_arp := t, h_queue := q\<rparr> \<Longrightarrow> like A A'"
  by (simp add: like_def)

lemma neighbours_like:
  assumes "neighbours a b A B w" "like A A'" "like B B'" "wf_host A'" "wf_host B'"
    and "cable a b w'" "get_host a w' = Some A'" "get_host b w' = Some B'"
  shows "neighbours a b A' B' w'"
  using assms like_simps [OF assms(2)] like_simps [OF assms(3)] by (simp add: neighbours_def)

lemma wf_like:
  assumes "wf_host A" "like A A'" "wf_ring HOST_PENDING_QUEUE_MAX_ENTRIES (h_queue A')" "arp_inv (h_arp A')"
  shows "wf_host A'"
  using assms like_simps [OF assms(2)] by (simp add: wf_host_def)

lemma first_contact:
  assumes "neighbours a b A B w" "strangers A B" "length payload \<le> ETHERNET_MAX_PAYLOAD" "octet ip = octet (h_ip B)"
  obtains w' A' B' raw c where "neighbours a b A' B' w'" "acquainted A' B'" "like A A'" "like B B'" "host_waiting A' = host_waiting A"
    "w' = put_host a A' (put_host b B' (w\<lparr>w_clock := c\<rparr>))"
    "framed raw (host_mac B) (host_mac A) ETHERNET_TYPE_IPV4 payload"
    "\<forall>w4 A4. net_send (Suc (Suc depth)) (a, 0) raw w' = Some w4 \<longrightarrow> get_host a w4 = Some A4 \<longrightarrow> h_queue A4 = h_queue A' \<longrightarrow>
       arp_table_get (h_arp A4) (h_ip B) \<noteq> None \<longrightarrow>
       host_send_l3_packet (net_send (Suc (Suc (Suc (Suc depth))))) a ip ETHERNET_TYPE_IPV4 payload w =
         Some (True, put_host a (taken_out (strip_prefix (h_ip B)) A4) w4)"
proof -
  note n = assms(1) [unfolded neighbours_def] and s = assms(2) [unfolded strangers_def]
  let ?send = "net_send (Suc (Suc (Suc (Suc depth))))"
  obtain c A1 e raw where wait:
    "A1 = A\<lparr>h_queue := h_queue A1\<rparr>" "wf_ring HOST_PENDING_QUEUE_MAX_ENTRIES (h_queue A1)" "host_waiting A1 = host_waiting A @ [e]"
    "find (waits_for (h_ip B)) (host_waiting A) = None" "waits_for (h_ip B) e" "hp_ethertype e = ETHERNET_TYPE_IPV4" "hp_payload e = payload"
    "cable a b (put_host a A1 (w\<lparr>w_clock := c\<rparr>))"
    "framed raw mac_broadcast (host_mac A) ETHERNET_TYPE_ARP (arp_wire (arp_message_init_request (host_mac A) (h_ip A) (h_ip B)))"
    "\<forall>w'' A''. ?send (a, 0) raw (put_host a A1 (w\<lparr>w_clock := c\<rparr>)) = Some w'' \<longrightarrow> get_host a w'' = Some A'' \<longrightarrow>
      arp_table_get (h_arp A'') (h_ip B) \<noteq> None \<longrightarrow>
      host_send_l3_packet ?send a ip ETHERNET_TYPE_IPV4 payload w = Some (True, w'')"
    by (rule packet_waits [OF assms, where send = ?send])
  let ?w1 = "put_host a A1 (w\<lparr>w_clock := c\<rparr>)"
  obtain q where A1: "A1 = A\<lparr>h_queue := q\<rparr>" using wait(1) by blast
  have same: "h_ip A1 = h_ip A" "h_arp A1 = h_arp A" "host_mac A1 = host_mac A" by (simp_all add: A1 host_mac_def)
  have hosts: "get_host a ?w1 = Some A1" "get_host b ?w1 = Some B" using n by simp_all
  have inv: "arp_inv (h_arp A)" "arp_inv (h_arp B)" using n by (simp_all add: wf_host_def)
  obtain A2 B2 raw2 where found:
    "A2 = taken_out (strip_prefix (h_ip B)) (arp_learned (strip_prefix (h_ip B)) (host_mac B) A1)"
    "B2 = arp_learned (strip_prefix (h_ip A1)) (host_mac A1) B" "acquainted A2 B2" "host_waiting A2 = host_waiting A"
    "wf_ring HOST_PENDING_QUEUE_MAX_ENTRIES (h_queue A2)"
    "framed raw2 (host_mac B) (host_mac A1) ETHERNET_TYPE_IPV4 (hp_payload e)"
    "\<forall>w4 A4. net_send (Suc (Suc depth)) (a, 0) raw2 (put_host a A2 (put_host b B2 ?w1)) = Some w4 \<longrightarrow> get_host a w4 = Some A4 \<longrightarrow>
       h_queue A4 = h_queue A2 \<longrightarrow>
       ?send (a, 0) raw ?w1 = Some (put_host a (taken_out (strip_prefix (h_ip B)) A4) w4)"
    by (rule resolution [OF wait(8) _ hosts, where raw = raw and others = "host_waiting A" and e = e and depth = depth])
      (use n s wait inv assms(3) same in simp_all)
  have likes: "like A A2" "like B B2"
    unfolding found(1,2) A1 by (auto simp: like_def taken_out_def arp_learned_def)
  have wf: "wf_host A2" "wf_host B2"
  proof -
    show "wf_host A2"
      by (rule wf_like [OF _ likes(1) found(5)]) (use n inv in \<open>simp_all add: found(1) arp_learned_def A1 arp.insert_inv\<close>)
    show "wf_host B2"
      by (rule wf_like [OF _ likes(2)]) (use n inv in \<open>simp_all add: found(2) arp_learned_def arp.insert_inv wf_host_def\<close>)
  qed
  have "cable a b (put_host a A2 (put_host b B2 ?w1))"
    by (rule cable_put_host [OF cable_put_host [OF wait(8) hosts(2)], of B2 a A1 A2])
      (use n hosts(1) like_simps(1) [OF likes(1)] like_simps(1) [OF likes(2)] in \<open>simp_all add: A1\<close>)
  then have "neighbours a b A2 B2 (put_host a A2 (put_host b B2 ?w1))"
    by (rule neighbours_like [OF assms(1) likes wf]) (use n in simp_all)
  moreover have "put_host a A2 (put_host b B2 ?w1) = put_host a A2 (put_host b B2 (w\<lparr>w_clock := c\<rparr>))"
    using n by (simp add: put_swap [of b a])
  ultimately show ?thesis
    using found likes wait(7,10) same(3)
    by (intro that [of A2 B2 "put_host a A2 (put_host b B2 ?w1)" c raw2]) auto
qed

text \<open>Both cases: the hosts know each other, or the first does not know the second.\<close>

lemma contact:
  assumes "neighbours a b A B w" "acquainted A B \<or> strangers A B" "length payload \<le> ETHERNET_MAX_PAYLOAD" "octet ip = octet (h_ip B)"
  obtains w' A' B' raw c where "neighbours a b A' B' w'" "acquainted A' B'" "like A A'" "like B B'" "host_waiting A' = host_waiting A"
    "w' = put_host a A' (put_host b B' (w\<lparr>w_clock := c\<rparr>))"
    "framed raw (host_mac B) (host_mac A) ETHERNET_TYPE_IPV4 payload"
    "\<forall>w4 A4. net_send (Suc (Suc depth)) (a, 0) raw w' = Some w4 \<longrightarrow> get_host a w4 = Some A4 \<longrightarrow> h_queue A4 = h_queue A' \<longrightarrow>
       arp_table_get (h_arp A4) (h_ip B) \<noteq> None \<longrightarrow>
       (\<exists>q. wf_ring HOST_PENDING_QUEUE_MAX_ENTRIES q \<and>
         host_send_l3_packet (net_send (Suc (Suc (Suc (Suc depth))))) a ip ETHERNET_TYPE_IPV4 payload w =
           Some (True, put_host a (A4\<lparr>h_queue := q\<rparr>) w4))"
  using assms(2)
proof
  assume "strangers A B"
  then obtain w' A' B' raw c where c: "neighbours a b A' B' w'" "acquainted A' B'" "like A A'" "like B B'" "host_waiting A' = host_waiting A"
    "w' = put_host a A' (put_host b B' (w\<lparr>w_clock := c\<rparr>))"
    "framed raw (host_mac B) (host_mac A) ETHERNET_TYPE_IPV4 payload"
    "\<forall>w4 A4. net_send (Suc (Suc depth)) (a, 0) raw w' = Some w4 \<longrightarrow> get_host a w4 = Some A4 \<longrightarrow> h_queue A4 = h_queue A' \<longrightarrow>
       arp_table_get (h_arp A4) (h_ip B) \<noteq> None \<longrightarrow>
       host_send_l3_packet (net_send (Suc (Suc (Suc (Suc depth))))) a ip ETHERNET_TYPE_IPV4 payload w =
         Some (True, put_host a (taken_out (strip_prefix (h_ip B)) A4) w4)"
    by (rule first_contact [OF assms(1) _ assms(3,4), where depth = depth])
  have "wf_ring HOST_PENDING_QUEUE_MAX_ENTRIES (h_queue A')" using c(1) by (simp add: neighbours_def wf_host_def)
  then have "wf_ring HOST_PENDING_QUEUE_MAX_ENTRIES (h_queue (taken_out v A4))" if "h_queue A4 = h_queue A'" for v A4
    using taken_out_queue(1) [of A4 v] that by simp
  moreover have "\<exists>q. taken_out v A4 = A4\<lparr>h_queue := q\<rparr> \<and> h_queue (taken_out v A4) = q" for v A4
    by (auto simp: taken_out_def)
  ultimately show ?thesis using c by (intro that [OF c(1-7)]) metis
next
  assume known: "acquainted A B"
  note n = assms(1) [unfolded neighbours_def]
  let ?send = "net_send (Suc (Suc (Suc (Suc depth))))"
  obtain raw where raw: "host_send_l3_packet ?send a ip ETHERNET_TYPE_IPV4 payload w = map_option (Pair True) (?send (a, 0) raw w)"
    "framed raw (host_mac B) (host_mac A) ETHERNET_TYPE_IPV4 payload"
    by (rule host_to_neighbour [of a w A ip "host_mac B" payload ETHERNET_TYPE_IPV4 ?send])
      (use n known assms(3) same_octets [OF assms(4)] in \<open>simp_all add: acquainted_def\<close>)
  have "\<exists>q. wf_ring HOST_PENDING_QUEUE_MAX_ENTRIES q \<and>
      host_send_l3_packet ?send a ip ETHERNET_TYPE_IPV4 payload w = Some (True, put_host a (A4\<lparr>h_queue := q\<rparr>) w4)"
    if "net_send (Suc (Suc depth)) (a, 0) raw w = Some w4" "get_host a w4 = Some A4" "h_queue A4 = h_queue A" for w4 A4
  proof -
    have "?send (a, 0) raw w = Some w4"
      by (rule belowD [OF weakerD [OF deeper_weaker] that(1)]) simp
    moreover have "wf_ring HOST_PENDING_QUEUE_MAX_ENTRIES (h_queue A4)" using n that(3) by (simp add: wf_host_def)
    ultimately show ?thesis using raw(1) put_same [OF that(2)] by (intro exI [of _ "h_queue A4"]) simp
  qed
  moreover have "w = put_host a A (put_host b B (w\<lparr>w_clock := w_clock w\<rparr>))" using n by (simp add: put_same)
  ultimately show ?thesis
    using known assms(1) raw(2) by (intro that [of A B w "w_clock w" raw]) (auto simp: like_def)
qed

text \<open>A datagram to the other host.\<close>

lemma datagram_contact:
  assumes "neighbours a b A B w" "acquainted A B \<or> strangers A B" "length data \<le> UDP_MAX_PAYLOAD" "octet ip = octet (h_ip B)"
  obtains w' A' B' raw payload p u c where
    "neighbours a b A' B' w'" "acquainted A' B'" "like A A'" "like B B'" "host_waiting A' = host_waiting A"
    "w' = put_host a A' (put_host b B' (w\<lparr>w_clock := c\<rparr>))"
    "framed raw (host_mac B) (host_mac A) ETHERNET_TYPE_IPV4 payload" "udp_carried payload (h_ip A) ip sp dp data p u"
    "\<forall>w4 A4. net_send (Suc (Suc depth)) (a, 0) raw w' = Some w4 \<longrightarrow> get_host a w4 = Some A4 \<longrightarrow> h_queue A4 = h_queue A' \<longrightarrow>
       arp_table_get (h_arp A4) (h_ip B) \<noteq> None \<longrightarrow>
       (\<exists>q. send_datagram (net_send (Suc (Suc (Suc (Suc depth))))) a ip sp dp data w =
         Some (int (length data), put_host a (A4\<lparr>h_queue := q\<rparr>) w4))"
proof -
  obtain payload p u where packet: "datagram_packet (h_ip A) ip sp dp data = Some payload" "length payload \<le> ETHERNET_MAX_PAYLOAD"
    "udp_carried payload (h_ip A) ip sp dp data p u"
    by (rule datagram_packet_fits [OF assms(3)])
  have a: "get_host a w = Some A" using assms(1) by (simp add: neighbours_def)
  obtain w' A' B' raw c where c: "neighbours a b A' B' w'" "acquainted A' B'" "like A A'" "like B B'" "host_waiting A' = host_waiting A"
    "w' = put_host a A' (put_host b B' (w\<lparr>w_clock := c\<rparr>))"
    "framed raw (host_mac B) (host_mac A) ETHERNET_TYPE_IPV4 payload"
    "\<forall>w4 A4. net_send (Suc (Suc depth)) (a, 0) raw w' = Some w4 \<longrightarrow> get_host a w4 = Some A4 \<longrightarrow> h_queue A4 = h_queue A' \<longrightarrow>
       arp_table_get (h_arp A4) (h_ip B) \<noteq> None \<longrightarrow>
       (\<exists>q. wf_ring HOST_PENDING_QUEUE_MAX_ENTRIES q \<and>
         host_send_l3_packet (net_send (Suc (Suc (Suc (Suc depth))))) a ip ETHERNET_TYPE_IPV4 payload w =
           Some (True, put_host a (A4\<lparr>h_queue := q\<rparr>) w4))"
    by (rule contact [OF assms(1,2) packet(2) assms(4), where depth = depth])
  have "\<exists>q. send_datagram (net_send (Suc (Suc (Suc (Suc depth))))) a ip sp dp data w =
      Some (int (length data), put_host a (A4\<lparr>h_queue := q\<rparr>) w4)"
    if "net_send (Suc (Suc depth)) (a, 0) raw w' = Some w4" "get_host a w4 = Some A4" "h_queue A4 = h_queue A'"
      "arp_table_get (h_arp A4) (h_ip B) \<noteq> None" for w4 A4
    using c(8) that a packet(1) by (fastforce simp: send_datagram_def)
  then show ?thesis using c packet(3) by (intro that [of A' B' w' c raw payload p u]) blast+
qed

end
