(* ===== verification/Console.thy ===== *)
theory Console
  imports Loader
begin

text \<open>
  What the program writes on the console, as text: the conversions of \<^verbatim>\<open>printf\<close> it uses, the
  topology map of \<^verbatim>\<open>utils/visualizer.c\<close>, and the tables the commands show. Only the text written by
  the functions mapped here is modelled; the lines a layer logs while it handles a packet are not.
\<close>

section \<open>Conversions\<close>

definition println :: "string \<Rightarrow> string" where
  "println s = s @ [CHR 0x0A]"

text \<open>\<^verbatim>\<open>%-ns\<close>, a minimal width, and \<^verbatim>\<open>%02x\<close> of a byte.\<close>

definition pad_right :: "nat \<Rightarrow> string \<Rightarrow> string" where
  "pad_right n s = s @ replicate (n - length s) CHR '' ''"

definition hex_digit :: "nat \<Rightarrow> nat \<Rightarrow> char" where
  "hex_digit ten d = char_of (if d < 10 then 48 + d else ten + (d - 10))"

definition hex_byte :: "nat \<Rightarrow> u8 \<Rightarrow> string" where
  "hex_byte ten b = [hex_digit ten (unat b div 16), hex_digit ten (unat b mod 16)]"

text \<open>\<^verbatim>\<open>%.nf\<close>: rounded to the nearest, and to the even one of two at the same distance.\<close>

definition printf_f :: "nat \<Rightarrow> real \<Rightarrow> string" where
  "printf_f n x =
    (let m = nat (round_even (\<bar>x\<bar> * 10 ^ n));
         digits = decimal (m mod 10 ^ n);
         whole = decimal (m div 10 ^ n)
     in (if x < 0 then ''-'' else []) @
        (if n = 0 then whole else whole @ ''.'' @ replicate (n - length digits) CHR ''0'' @ digits))"

text \<open>The octets between separators.\<close>

fun separated :: "string \<Rightarrow> string list \<Rightarrow> string" where
  "separated sep [] = []"
| "separated sep [x] = x"
| "separated sep (x # xs) = x @ sep @ separated sep xs"

definition mac_to_string :: "mac_address \<Rightarrow> nat \<Rightarrow> string" where
  "mac_to_string m out_size = take (out_size - 1) (separated '':'' (map (hex_byte 97) (mac_bytes m)))"

section \<open>The topology map\<close>

definition print_mac :: "mac_address \<Rightarrow> string" where
  "print_mac m = separated '':'' (map (hex_byte 65) (mac_bytes m))"

definition print_ip :: "ip_address \<Rightarrow> string" where
  "print_ip ip =
    separated ''.'' (map (\<lambda>b. decimal (unat b)) (octet_bytes (octet ip))) @
    (if 0 < prefix ip then ''/'' @ decimal (unat (prefix ip)) else [])"

definition print_host_info :: "host \<Rightarrow> string" where
  "print_host_info h =
    ''  IP Address: '' @
    (if h_has_ip h then print_ip (h_ip h) @ println [] @ ''  Gateway:     '' @ print_ip (h_gateway h) else ''(none)'') @
    println [] @ println (''  ARP Cache:   '' @ decimal (tab_size (h_arp h)) @ '' entries'') @
    println (''  Pending:     '' @ decimal (ring_size (h_queue h)) @ '' packets'')"

definition port_is_special :: "switch_port_config \<Rightarrow> bool" where
  "port_is_special cfg \<longleftrightarrow> pc_mode cfg = SWITCH_PORT_TRUNK \<or> pc_vlan_id cfg \<noteq> SWITCH_DEFAULT_VLAN_ID"

definition print_switch_info :: "switch \<Rightarrow> string" where
  "print_switch_info sw =
    (let special = filter (\<lambda>i. port_is_special (sw_ports sw ! i)) [0..<nb_num (sw_base sw)]
     in println (''  MAC Table:   '' @ decimal (tab_size (sw_macs sw)) @ '' entries'') @
        println (''  Ports:       '' @ decimal (nb_num (sw_base sw))) @
        (if special = [] then [] else println ''  VLAN Configs:'') @
        concat (map (\<lambda>i. println (''    Port '' @ decimal (i + 1) @ '': '' @
          (if pc_mode (sw_ports sw ! i) = SWITCH_PORT_ACCESS
           then ''access (VLAN '' @ printf_lld (pc_vlan_id (sw_ports sw ! i)) @ '')'' else ''trunk''))) special))"

definition print_router_info :: "router \<Rightarrow> string" where
  "print_router_info r =
    println ''  Interface IPs:'' @
    concat (map (\<lambda>i. println (''    Port '' @ decimal (ri_port (r_ips r ! i)) @ '': '' @
      (if ri_has_ip (r_ips r ! i) then print_ip (ri_ip (r_ips r ! i)) else ''(none)''))) [0..<nb_num (r_base r)])"

definition print_interface :: "nat \<Rightarrow> interface \<Rightarrow> string" where
  "print_interface p f = println (''  Port '' @ decimal (p + 1) @ '': MAC='' @ print_mac (if_mac f) @
     (if if_link f \<noteq> None then '' [LINKED]'' else '' [UNLINKED]''))"

primrec print_node_info :: "node \<Rightarrow> string" where
  "print_node_info (HostNode h) = print_host_info h"
| "print_node_info (SwitchNode s) = print_switch_info s"
| "print_node_info (RouterNode r) = print_router_info r"

text \<open>An entry without a node is skipped.\<close>

definition print_entry :: "world \<Rightarrow> simulator_node_entry \<Rightarrow> string option" where
  "print_entry w e =
    (case en_node e of
       None \<Rightarrow> Some []
     | Some n \<Rightarrow> do {
         nd \<leftarrow> w_nodes w n;
         let b = node_base_of nd;
         Some (println (''['' @ node_type_to_string (nb_type b) @ ''] '' @ en_name e) @
           concat (map (\<lambda>p. print_interface p (nb_ifs b ! p)) [0..<nb_num b]) @
           print_node_info nd @ println [])
       })"

definition end_name :: "world \<Rightarrow> interface \<Rightarrow> string option" where
  "end_name w f =
    (case if_node f of
       None \<Rightarrow> Some ''?''
     | Some n \<Rightarrow> map_option (\<lambda>nd. nb_name (node_base_of nd)) (w_nodes w n))"

text \<open>A link with a missing end is skipped.\<close>

definition print_link :: "world \<Rightarrow> link \<Rightarrow> string option" where
  "print_link w l =
    (case (ln_if1 l, ln_if2 l) of
       (Some r1, Some r2) \<Rightarrow> do {
         f1 \<leftarrow> get_iface r1 w;
         f2 \<leftarrow> get_iface r2 w;
         name1 \<leftarrow> end_name w f1;
         name2 \<leftarrow> end_name w f2;
         Some (println (''  '' @ name1 @ '':'' @ decimal (if_port f1) @ '' <-> '' @ name2 @ '':'' @
           decimal (if_port f2) @ ''  (delay='' @ printf_f 0 (ln_delay l) @ ''ms)''))
       }
     | _ \<Rightarrow> Some [])"

definition ruler :: string where
  "ruler = println (replicate 40 CHR ''='')"

definition simulator_print_topology :: "simulator \<Rightarrow> string option" where
  "simulator_print_topology s =
    (let head = ruler @ println ''      MAGI SYSTEM - TOPOLOGY MAP'' @ ruler @ println []
     in if si_nodes s = [] then Some (head @ println ''  (No nodes in topology)'' @ println [])
        else do {
          nodes \<leftarrow> traverse (print_entry (si_world s)) (si_nodes s);
          links \<leftarrow> traverse (print_link (si_world s)) (take (si_link_count s) (w_links (si_world s)));
          Some (head @ println (''--- Nodes ('' @ decimal (length (si_nodes s)) @ '' total) ---'') @ println [] @
            concat nodes @
            println (''--- Links ('' @ decimal (si_link_count s) @ '' total) ---'') @ println [] @
            (if si_link_count s = 0 then println ''  (No links configured)'' else concat links) @ println [] @ ruler)
        })"

section \<open>Tables\<close>

definition print_route :: "route \<Rightarrow> string" where
  "print_route e =
    (let next_hop = (if ip_is_zero (rt_next_hop e) then ''direct'' else ip_to_string (rt_next_hop e) 32 False)
     in println (''  '' @ pad_right 18 (ip_to_string (rt_destination e) 32 True) @ '' '' @ pad_right 15 next_hop @ '' '' @
          printf_lld (rt_out_interface e)))"

definition router_print_routes :: "router \<Rightarrow> string" where
  "router_print_routes r =
    println (''['' @ nb_name (r_base r) @ ''] Routing table:'') @
    println ''  Destination        Next hop        Interface'' @
    concat (map print_route (r_routes r))"

definition print_mac_table :: "switch \<Rightarrow> string" where
  "print_mac_table sw =
    println (''['' @ nb_name (sw_base sw) @ ''] MAC Address Table ('' @ decimal (tab_size (sw_macs sw)) @ '' entries):'') @
    println (''  '' @ pad_right 6 ''VLAN'' @ '' '' @ pad_right 6 ''Port'' @ '' '' @ pad_right 20 ''MAC Address'') @
    concat (map (\<lambda>e. println (''  '' @ pad_right 6 (printf_lld (sm_vlan_id e)) @ '' '' @
      pad_right 6 (printf_lld (sm_port e)) @ '' '' @ pad_right 20 (mac_to_string (sm_mac e) 20)))
      (take (tab_size (sw_macs sw)) (tab_entries (sw_macs sw))))"

definition print_arp_table :: "string \<Rightarrow> arp_table \<Rightarrow> string" where
  "print_arp_table node_name t =
    println (''['' @ node_name @ ''] ARP Cache ('' @ decimal (tab_size t) @ '' entries):'') @
    println (''  '' @ pad_right 18 ''IP Address'' @ '' '' @ pad_right 20 ''MAC Address'') @
    concat (map (\<lambda>e. println (''  '' @ pad_right 18 (ip_to_string (ae_ip e) 20 False) @ '' '' @
      pad_right 20 (mac_to_string (ae_mac e) 20))) (take (tab_size t) (tab_entries t)))"

definition print_tcp_socket :: "nat \<Rightarrow> tcp_socket \<Rightarrow> string" where
  "print_tcp_socket i s =
    (if \<not> sk_in_use s then []
     else println (''  #'' @ decimal i @ '': '' @ ip_to_string (sk_local_ip s) 20 False @ '':'' @
       decimal (unat (sk_local_port s)) @ '' <-> '' @ ip_to_string (sk_remote_ip s) 20 False @ '':'' @
       decimal (unat (sk_remote_port s)) @ '' ['' @ tcp_state_name (sk_state s) @ '']'' @
       (if sk_is_listening s then '' LISTENING'' else []) @ (if sk_has_data s then '' DATA'' else [])))"

definition print_tcp_sockets :: "host \<Rightarrow> string" where
  "print_tcp_sockets h =
    println (''['' @ nb_name (h_base h) @ ''] TCP sockets:'') @
    concat (map (\<lambda>i. print_tcp_socket i (h_tcp h ! i)) [0..<TCP_MAX_SOCKETS])"

end
