(* ===== verification/Cli_Network.thy ===== *)
theory Cli_Network
  imports Console
begin

text \<open>
  The commands of \<^verbatim>\<open>utils/cli.c\<close> that build and show the network, and what all commands share: the
  words of a line, finding a host, resolving a target. A command is a function of the words and of
  the simulator; its result is the text it writes and the new simulator, and no result when a call
  does not return normally (see \<open>World\<close>) or \<^verbatim>\<open>atoi\<close> is undefined.
\<close>

type_synonym outcome = "(string \<times> simulator) option"

definition say :: "string \<Rightarrow> simulator \<Rightarrow> outcome" where
  "say text s = Some (println text, s)"

section \<open>Words\<close>

abbreviation MAX_COMMAND_LENGTH :: nat where "MAX_COMMAND_LENGTH \<equiv> 100"

definition is_delimiter :: "char \<Rightarrow> bool" where
  "is_delimiter c \<longleftrightarrow> c = CHR '' '' \<or> c = CHR 0x09"

text \<open>\<^verbatim>\<open>strtok\<close> on spaces and tabs, at most \<open>n\<close> words.\<close>

fun strtok_words :: "nat \<Rightarrow> string \<Rightarrow> string list" where
  "strtok_words 0 text = []"
| "strtok_words (Suc n) text =
    (let text = dropWhile is_delimiter text
     in if text = [] then []
        else takeWhile (\<lambda>c. \<not> is_delimiter c) text # strtok_words n (dropWhile (\<lambda>c. \<not> is_delimiter c) text))"

definition tokens :: "string \<Rightarrow> string list" where
  "tokens command = strtok_words 8 (take (MAX_COMMAND_LENGTH - 1) (c_string command))"

section \<open>Nodes by name\<close>

text \<open>A pointer to the node, when there is one of this type.\<close>

definition find_typed :: "simulator_node_type \<Rightarrow> simulator \<Rightarrow> string \<Rightarrow> node_id option option" where
  "find_typed ty s name =
    (case simulator_find_node s name of
       None \<Rightarrow> None
     | Some idx \<Rightarrow> if en_type (si_nodes s ! idx) \<noteq> ty then None else Some (en_node (si_nodes s ! idx)))"

definition cli_find_host :: "simulator \<Rightarrow> string \<Rightarrow> node_id option option" where
  "cli_find_host = find_typed SIM_NODE_HOST"

definition cli_find_router :: "simulator \<Rightarrow> string \<Rightarrow> node_id option option" where
  "cli_find_router = find_typed SIM_NODE_ROUTER"

text \<open>The first lines of most commands: the host is found and read, or the command ends here.\<close>

definition with_host :: "string \<Rightarrow> simulator \<Rightarrow> (node_id \<Rightarrow> host \<Rightarrow> outcome) \<Rightarrow> outcome" where
  "with_host name s body =
    (case cli_find_host s name of
       None \<Rightarrow> say (''Unknown host: '' @ name) s
     | Some p \<Rightarrow> do {
         n \<leftarrow> p;
         h \<leftarrow> get_host n (si_world s);
         body n h
       })"

definition host_name :: "host \<Rightarrow> string" where
  "host_name h = ''['' @ nb_name (h_base h) @ '']''"

section \<open>Targets\<close>

datatype resolve_error = RIP_BAD_FORMAT | RIP_NOT_FOUND | RIP_NO_IP | RIP_SWITCH_NO_IP

definition router_first_ip :: "router \<Rightarrow> ip_address option" where
  "router_first_ip r = map_option (\<lambda>i. ri_ip (r_ips r ! i)) (first_index (\<lambda>i. ri_has_ip (r_ips r ! i)) (nb_num (r_base r)))"

text \<open>An address in dotted form, or the name of a node that has one.\<close>

definition resolve_ip_target_diag :: "simulator \<Rightarrow> string \<Rightarrow> (ip_address + resolve_error) option" where
  "resolve_ip_target_diag s token = do {
    (ok, ip) \<leftarrow> ip_parse token zero_ip;
    if ok then Some (Inl ip)
    else case simulator_find_node s token of
      None \<Rightarrow> Some (Inr RIP_NOT_FOUND)
    | Some idx \<Rightarrow>
        (case en_type (si_nodes s ! idx) of
           SIM_NODE_HOST \<Rightarrow> do {
             n \<leftarrow> en_node (si_nodes s ! idx);
             h \<leftarrow> get_host n (si_world s);
             Some (if h_has_ip h then Inl (h_ip h) else Inr RIP_NO_IP)
           }
         | SIM_NODE_ROUTER \<Rightarrow> do {
             n \<leftarrow> en_node (si_nodes s ! idx);
             r \<leftarrow> get_router n (si_world s);
             Some (case router_first_ip r of Some ip \<Rightarrow> Inl ip | None \<Rightarrow> Inr RIP_NO_IP)
           }
         | SIM_NODE_SWITCH \<Rightarrow> Some (Inr RIP_SWITCH_NO_IP))
  }"

definition quoted :: "string \<Rightarrow> string" where
  "quoted s = [CHR 0x27] @ s @ [CHR 0x27]"

primrec print_resolve_err :: "string \<Rightarrow> resolve_error \<Rightarrow> string" where
  "print_resolve_err token RIP_NOT_FOUND =
     ''[SIM] target '' @ quoted token @ '' not found - not an IP and not a node name (case-sensitive)''"
| "print_resolve_err token RIP_NO_IP =
     ''[SIM] node '' @ quoted token @ '' has no IP configured (configure via topology.json or dhcp_discover)''"
| "print_resolve_err token RIP_SWITCH_NO_IP =
     ''[SIM] '' @ quoted token @ '' is a switch and has no IP - use a host or router as target''"
| "print_resolve_err token RIP_BAD_FORMAT = ''[SIM] invalid target '' @ quoted token"

section \<open>Building the network\<close>

definition cmd_create :: "(nat \<Rightarrow> u32) \<Rightarrow> string list \<Rightarrow> simulator \<Rightarrow> outcome" where
  "cmd_create rnd toks s =
    (if length toks < 3 then say ''Usage: create <host|switch|router> <name> [ports]'' s
     else do {
       ports \<leftarrow> (if 4 \<le> length toks then atoi (toks ! 3) else Some 0);
       let (ok, s) = simulator_create_node rnd (toks ! 1) (toks ! 2) ports s;
       say ((if ok then ''[SIM] Created '' else ''[SIM] Failed to create '') @ toks ! 1 @ '' '' @ toks ! 2) s
     })"

text \<open>
  \<^verbatim>\<open>atof\<close> on decimal notation; text that begins like an infinity, like \<^verbatim>\<open>nan\<close> or like
  hexadecimal notation is outside the model.
\<close>

definition atof_outside :: "string \<Rightarrow> bool" where
  "atof_outside text \<longleftrightarrow> text \<noteq> [] \<and> (hd text \<in> set ''iInN'' \<or> take 2 text = ''0x'' \<or> take 2 text = ''0X'')"

definition exponent_of :: "string \<Rightarrow> int" where
  "exponent_of text =
    (if text = [] \<or> hd text \<notin> set ''eE'' \<or> (tl text \<noteq> [] \<and> is_space (hd (tl text))) then 0
     else case scan_signed (tl text) of None \<Rightarrow> 0 | Some (e, _) \<Rightarrow> e)"

definition atof :: "string \<Rightarrow> real option" where
  "atof str =
    (let s = dropWhile is_space str;
         neg = (s \<noteq> [] \<and> hd s = CHR ''-'');
         s = (if s \<noteq> [] \<and> (hd s = CHR ''-'' \<or> hd s = CHR ''+'') then tl s else s);
         (whole, rest) = scan_digits 0 s;
         frac_digits = (if rest \<noteq> [] \<and> hd rest = CHR ''.'' then takeWhile is_digit (tl rest) else []);
         after = (if rest \<noteq> [] \<and> hd rest = CHR ''.'' then drop (length frac_digits) (tl rest) else rest);
         seen = (s \<noteq> [] \<and> is_digit (hd s)) \<or> frac_digits \<noteq> [];
         m = real (fst (scan_digits whole frac_digits)) / 10 ^ length frac_digits;
         e = exponent_of after;
         m = (if 0 \<le> e then m * 10 ^ nat e else m / 10 ^ nat (- e))
     in if atof_outside s then None else Some (if \<not> seen then 0 else if neg then - m else m))"

text \<open>
  What \<^verbatim>\<open>link\<close> says about an endpoint before it tries: \<open>Some None\<close> is no objection, \<open>Some (Some text)\<close>
  the objection, in the order the code looks for them.
\<close>

definition endpoint_objection :: "simulator \<Rightarrow> string \<Rightarrow> string option option" where
  "endpoint_objection s ep =
    (let name = takeWhile (\<lambda>c. c \<noteq> CHR '':'') ep;
         rest = dropWhile (\<lambda>c. c \<noteq> CHR '':'') ep
     in if name = [] \<or> MAX_NAME \<le> length name then Some (Some (''[SIM] Invalid endpoint '' @ quoted ep))
        else do {
          port \<leftarrow> (if rest = [] then Some 1 else atoi (tl rest));
          if CHR ''['' \<in> set name \<or> CHR '']'' \<in> set name
          then Some (Some (''[SIM] '' @ quoted ep @ '' has illegal '' @ quoted ''['' @ '' or '' @ quoted '']'' @
            '' - syntax is name:port (no brackets)''))
          else case simulator_find_node s name of
            None \<Rightarrow> Some (Some (''[SIM] node '' @ quoted name @ '' not found (names are case-sensitive)''))
          | Some idx \<Rightarrow> do {
              n \<leftarrow> en_node (si_nodes s ! idx);
              nd \<leftarrow> w_nodes (si_world s) n;
              let b = node_base_of nd;
              if port < 1 \<or> int (nb_num b) < port
              then Some (Some (''[SIM] '' @ name @ '' has no port '' @ printf_lld port @ '' (valid: 1..'' @
                decimal (nb_num b) @ '')''))
              else if if_link (nb_ifs b ! nat (port - 1)) \<noteq> None
              then Some (Some (''[SIM] '' @ name @ '':'' @ printf_lld port @ '' is already linked''))
              else Some None
            }
        })"

definition cmd_link :: "string list \<Rightarrow> simulator \<Rightarrow> outcome" where
  "cmd_link toks s =
    (if length toks < 3
     then Some (println ''Usage: link <device[:port]> <device[:port]> [delay_ms]'' @
       println ''  e.g. link H1 SW1:24 10   (no brackets; use a colon for ports)'', s)
     else do {
       delay \<leftarrow> (if 4 \<le> length toks then atof (toks ! 3) else Some 0);
       objection1 \<leftarrow> endpoint_objection s (toks ! 1);
       case objection1 of
         Some text \<Rightarrow> say text s
       | None \<Rightarrow> do {
           objection2 \<leftarrow> endpoint_objection s (toks ! 2);
           case objection2 of
             Some text \<Rightarrow> say text s
           | None \<Rightarrow> do {
               (ok, s) \<leftarrow> simulator_link (toks ! 1) (toks ! 2) delay s;
               say (if ok then ''[SIM] Linked '' @ toks ! 1 @ '' <-> '' @ toks ! 2 @ '' delay='' @ printf_f 0 delay @ ''ms''
                    else ''[SIM] Failed to link '' @ toks ! 1 @ '' <-> '' @ toks ! 2) s
             }
         }
     })"

definition cmd_unlink :: "string list \<Rightarrow> simulator \<Rightarrow> outcome" where
  "cmd_unlink toks s =
    (if length toks < 3 then say ''Usage: unlink <device[:port]> <device[:port]>'' s
     else do {
       (ok, s) \<leftarrow> simulator_unlink (toks ! 1) (toks ! 2) s;
       say ((if ok then ''[SIM] Unlinked '' else ''[SIM] Failed to unlink '') @ toks ! 1 @ '' <-> '' @ toks ! 2) s
     })"

end
