(* ===== verification/Cli_Host.thy ===== *)
theory Cli_Host
  imports Cli_Network
begin

text \<open>
  The commands of a host: ICMP probes, TCP connections and application sockets. A TCP command works
  on the first socket of the host in the right state.
\<close>

definition keep :: "string \<Rightarrow> simulator \<Rightarrow> world \<Rightarrow> outcome" where
  "keep text s w = Some (text, s\<lparr>si_world := w\<rparr>)"

section \<open>Probes\<close>

text \<open>The guards \<^verbatim>\<open>ping\<close> and \<^verbatim>\<open>traceroute\<close> share.\<close>

definition with_probe ::
  "string \<Rightarrow> string list \<Rightarrow> simulator \<Rightarrow> (node_id \<Rightarrow> ip_address \<Rightarrow> outcome) \<Rightarrow> outcome" where
  "with_probe command toks s body =
    (if length toks < 3 then say (''Usage: <host> '' @ command @ '' <ip|host>'') s
     else with_host (toks ! 0) s (\<lambda>n h.
       if \<not> h_has_ip h
       then say (''[SIM] source host '' @ quoted (toks ! 0) @ '' has no IP (configure via topology.json or dhcp_discover)'') s
       else do {
         target \<leftarrow> resolve_ip_target_diag s (toks ! 2);
         case target of
           Inr err \<Rightarrow> say (print_resolve_err (toks ! 2) err) s
         | Inl ip \<Rightarrow> body n ip
       }))"

definition cmd_ping :: "sender \<Rightarrow> string list \<Rightarrow> simulator \<Rightarrow> outcome" where
  "cmd_ping send toks s = with_probe ''ping'' toks s (\<lambda>n ip. do {
     (_, w) \<leftarrow> host_send_icmp_echo_request send n ip IPV4_DEFAULT_TTL 1 (si_world s);
     keep [] s w
   })"

text \<open>The line about one probe, and whether it is the last.\<close>

definition hop_line :: "nat \<Rightarrow> host \<Rightarrow> string" where
  "hop_line ttl h =
    (if \<not> h_has_icmp h then println (decimal ttl @ ''  *'')
     else println (decimal ttl @ ''  '' @ ip_to_string (h_icmp_source h) 32 False @ ''  '' @ printf_f 1 (h_icmp_rtt h) @ ''ms''))"

definition hop_last :: "host \<Rightarrow> bool" where
  "hop_last h \<longleftrightarrow> h_has_icmp h \<and> (h_icmp_type h = ICMP_ECHO_REPLY \<or> h_icmp_type h = ICMP_DEST_UNREACHABLE)"

fun trace_hops :: "sender \<Rightarrow> node_id \<Rightarrow> ip_address \<Rightarrow> nat list \<Rightarrow> world \<Rightarrow> (string \<times> world) option" where
  "trace_hops send n ip [] w = Some ([], w)"
| "trace_hops send n ip (ttl # ttls) w = do {
    (_, w) \<leftarrow> host_send_icmp_echo_request send n ip (of_nat ttl) (of_nat ttl) w;
    h \<leftarrow> get_host n w;
    if hop_last h then Some (hop_line ttl h, w)
    else do {
      (text, w) \<leftarrow> trace_hops send n ip ttls w;
      Some (hop_line ttl h @ text, w)
    }
  }"

definition cmd_traceroute :: "sender \<Rightarrow> string list \<Rightarrow> simulator \<Rightarrow> outcome" where
  "cmd_traceroute send toks s = with_probe ''traceroute'' toks s (\<lambda>n ip. do {
     (text, w) \<leftarrow> trace_hops send n ip [1..<31] (si_world s);
     keep (println (''traceroute to '' @ ip_to_string ip 32 False) @ text) s w
   })"

section \<open>Tables\<close>

definition cmd_route :: "string list \<Rightarrow> simulator \<Rightarrow> outcome" where
  "cmd_route toks s =
    (case cli_find_router s (toks ! 0) of
       None \<Rightarrow> say (''Unknown router: '' @ toks ! 0) s
     | Some p \<Rightarrow> do {
         n \<leftarrow> p;
         r \<leftarrow> get_router n (si_world s);
         Some (router_print_routes r, s)
       })"

definition cmd_mac :: "string list \<Rightarrow> simulator \<Rightarrow> outcome" where
  "cmd_mac toks s =
    (case find_typed SIM_NODE_SWITCH s (toks ! 0) of
       None \<Rightarrow> say (''Unknown switch: '' @ toks ! 0) s
     | Some p \<Rightarrow> do {
         n \<leftarrow> p;
         sw \<leftarrow> get_switch n (si_world s);
         Some (print_mac_table sw, s)
       })"

definition cmd_arp :: "string list \<Rightarrow> simulator \<Rightarrow> outcome" where
  "cmd_arp toks s =
    (case simulator_find_node s (toks ! 0) of
       None \<Rightarrow> say (''Unknown node: '' @ toks ! 0) s
     | Some idx \<Rightarrow>
         (let e = si_nodes s ! idx in
          case en_type e of
            SIM_NODE_HOST \<Rightarrow> do { n \<leftarrow> en_node e; h \<leftarrow> get_host n (si_world s); Some (print_arp_table (en_name e) (h_arp h), s) }
          | SIM_NODE_ROUTER \<Rightarrow> do { n \<leftarrow> en_node e; r \<leftarrow> get_router n (si_world s); Some (print_arp_table (en_name e) (r_arp r), s) }
          | SIM_NODE_SWITCH \<Rightarrow> say (''ARP table only available on host or router: '' @ toks ! 0) s))"

section \<open>TCP\<close>

definition bad_port :: "int \<Rightarrow> bool" where
  "bad_port port \<longleftrightarrow> port \<le> 0 \<or> 65535 < port"

text \<open>An address and a port given on the line.\<close>

definition with_address_port ::
  "string \<Rightarrow> string \<Rightarrow> simulator \<Rightarrow> (ip_address \<Rightarrow> u16 \<Rightarrow> outcome) \<Rightarrow> outcome" where
  "with_address_port address port_text s body = do {
    (ok, ip) \<leftarrow> ip_parse address zero_ip;
    if \<not> ok then say (''Invalid IP: '' @ address) s
    else do {
      port \<leftarrow> atoi port_text;
      if bad_port port then say (''Invalid port: '' @ printf_lld port) s
      else body ip (of_int port)
    }
  }"

definition cmd_tcp_connect :: "sender \<Rightarrow> string list \<Rightarrow> simulator \<Rightarrow> outcome" where
  "cmd_tcp_connect send toks s =
    (if length toks < 4 then say ''Usage: <host> tcp_connect <ip> <port>'' s
     else with_host (toks ! 0) s (\<lambda>n h. with_address_port (toks ! 2) (toks ! 3) s (\<lambda>ip port.
       case tcp_socket_alloc (h_tcp h) of
         None \<Rightarrow> say (host_name h @ '' No free TCP socket slots'') s
       | Some (slot, socks) \<Rightarrow>
           let h = h\<lparr>h_tcp := socks\<rparr>;
               preferred = (if 65535 < unat port + 1000 then 49152 else of_nat (unat port + 1000));
               (src_port, h) = host_select_tcp_source_port h ip port preferred
           in if src_port = 0
              then keep (println (host_name h @ '' No available TCP source port'')) s
                (put_host n (h\<lparr>h_tcp := (h_tcp h)[slot := tcp_socket_free (h_tcp h ! slot)]\<rparr>) (si_world s))
              else
                let sock = tcp_socket_connect (h_tcp h ! slot) (h_ip h) src_port ip port;
                    w = put_host n (h\<lparr>h_tcp := (h_tcp h)[slot := sock]\<rparr>) (si_world s);
                    text = println (host_name h @ '' TCP connect initiated to '' @ ip_to_string ip 20 False @ '':'' @
                      decimal (unat port))
                in case segment_packet (sk_local_ip sock) (sk_remote_ip sock) (tcp_syn_segment sock) TCP_HEADER_SIZE of
                     None \<Rightarrow> keep text s w
                   | Some ip_raw \<Rightarrow> do {
                       (_, w) \<leftarrow> host_send_l3_packet send n (sk_remote_ip sock) ETHERNET_TYPE_IPV4 ip_raw w;
                       keep text s w
                     })))"

definition cmd_tcp_listen :: "string list \<Rightarrow> simulator \<Rightarrow> outcome" where
  "cmd_tcp_listen toks s =
    (if length toks < 3 then say ''Usage: <host> tcp_listen <port>'' s
     else with_host (toks ! 0) s (\<lambda>n h. do {
       port \<leftarrow> atoi (toks ! 2);
       if bad_port port then say (''Invalid port: '' @ printf_lld port) s
       else case tcp_socket_alloc (h_tcp h) of
         None \<Rightarrow> say (host_name h @ '' No free TCP socket slots'') s
       | Some (slot, socks) \<Rightarrow>
           keep [] s (put_host n (h\<lparr>h_tcp := socks[slot := tcp_socket_listen (socks ! slot) (h_ip h) (of_int port)]\<rparr>) (si_world s))
     }))"

text \<open>The search of the commands below.\<close>

definition find_socket :: "(tcp_socket \<Rightarrow> bool) \<Rightarrow> host \<Rightarrow> nat option" where
  "find_socket good h = first_index (\<lambda>i. sk_in_use (h_tcp h ! i) \<and> good (h_tcp h ! i)) TCP_MAX_SOCKETS"

definition cmd_tcp_send :: "sender \<Rightarrow> string list \<Rightarrow> simulator \<Rightarrow> outcome" where
  "cmd_tcp_send send toks s =
    (if length toks < 3 then say ''Usage: <host> tcp_send <data>'' s
     else with_host (toks ! 0) s (\<lambda>n h.
       case find_socket (\<lambda>k. sk_state k = TCP_ESTABLISHED) h of
         None \<Rightarrow> say (host_name h @ '' No established TCP connection'') s
       | Some i \<Rightarrow>
           let data = map byte_of_char (take TCP_MAX_PAYLOAD (toks ! 2));
               (ok, sock) = tcp_socket_send (h_tcp h ! i) data
           in if \<not> ok then Some ([], s)
              else do {
                w \<leftarrow> put_tcp (n, i) sock (si_world s);
                case segment_packet (sk_local_ip sock) (sk_remote_ip sock) (tcp_data_segment sock data)
                    (TCP_HEADER_SIZE + TCP_MAX_PAYLOAD) of
                  None \<Rightarrow> keep [] s w
                | Some ip_raw \<Rightarrow> do {
                    w \<leftarrow> put_tcp (n, i) (sock\<lparr>sk_send_seq := sk_send_seq sock + of_nat (length data)\<rparr>) w;
                    (_, w) \<leftarrow> host_send_l3_packet send n (sk_remote_ip sock) ETHERNET_TYPE_IPV4 ip_raw w;
                    keep (println (host_name h @ '' Sent '' @ decimal (length data) @ '' bytes via TCP'')) s w
                  }
              }))"

definition shown :: "bytes \<Rightarrow> string" where
  "shown data = c_string (map char_of_byte data)"

definition cmd_tcp_recv :: "string list \<Rightarrow> simulator \<Rightarrow> outcome" where
  "cmd_tcp_recv toks s = with_host (toks ! 0) s (\<lambda>n h.
     case find_socket (\<lambda>k. sk_state k = TCP_ESTABLISHED \<or> sk_has_data k) h of
       None \<Rightarrow> say (host_name h @ '' No TCP connection with data'') s
     | Some i \<Rightarrow>
         if \<not> sk_has_data (h_tcp h ! i) then say (host_name h @ '' No data available'') s
         else
           let (out, sock) = tcp_socket_recv (h_tcp h ! i) TCP_MAX_PAYLOAD
           in do {
             w \<leftarrow> put_tcp (n, i) sock (si_world s);
             keep (if out = [] then []
               else println (host_name h @ '' Received '' @ decimal (length out) @ '' bytes: '' @ shown out)) s w
           })"

definition cmd_tcp_close :: "sender \<Rightarrow> string list \<Rightarrow> simulator \<Rightarrow> outcome" where
  "cmd_tcp_close send toks s = with_host (toks ! 0) s (\<lambda>n h.
     case find_socket (\<lambda>k. sk_state k = TCP_ESTABLISHED \<or> sk_state k = TCP_CLOSE_WAIT) h of
       None \<Rightarrow> say (host_name h @ '' No TCP connection available to close'') s
     | Some i \<Rightarrow>
         let sock = h_tcp h ! i
         in case segment_packet (sk_local_ip sock) (sk_remote_ip sock) (tcp_fin_segment sock) TCP_HEADER_SIZE of
              None \<Rightarrow> Some ([], s)
            | Some ip_raw \<Rightarrow>
                let (closed, sock) = tcp_socket_close sock
                in if \<not> closed then Some ([], s)
                   else do {
                     w \<leftarrow> put_tcp (n, i) (sock\<lparr>sk_send_seq := sk_send_seq sock + 1\<rparr>) (si_world s);
                     (_, w) \<leftarrow> host_send_l3_packet send n (sk_remote_ip sock) ETHERNET_TYPE_IPV4 ip_raw w;
                     keep (println (host_name h @ '' TCP connection closing (FIN sent)'')) s w
                   })"

definition cmd_tcp_status :: "string list \<Rightarrow> simulator \<Rightarrow> outcome" where
  "cmd_tcp_status toks s = with_host (toks ! 0) s (\<lambda>n h. Some (print_tcp_sockets h, s))"

section \<open>Application sockets\<close>

abbreviation MAGI_SOCKET_BUFFER_SIZE :: nat where "MAGI_SOCKET_BUFFER_SIZE \<equiv> 4096"

definition cmd_magi_sock_connect :: "sender \<Rightarrow> string list \<Rightarrow> simulator \<Rightarrow> outcome" where
  "cmd_magi_sock_connect send toks s =
    (if length toks < 4 then say ''Usage: <host> magi_sock_connect <ip> <port>'' s
     else with_host (toks ! 0) s (\<lambda>n h. with_address_port (toks ! 2) (toks ! 3) s (\<lambda>ip port.
       let (fd, w) = magi_socket AF_INET SOCK_STREAM (si_world s)
       in if fd < 0 then keep (println (host_name h @ '' Failed to create MagiSocket'')) s w
          else
            let (_, w) = magi_socket_attach_host fd n w;
                where_to = ip_to_string ip 20 False @ '':'' @ decimal (unat port)
            in do {
              (r, w) \<leftarrow> magi_connect send fd ip port w;
              if r < 0 then do {
                (_, w) \<leftarrow> magi_close send fd w;
                keep (println (host_name h @ '' MagiSocket connect failed to '' @ where_to)) s w
              } else do {
                h' \<leftarrow> get_host n w;
                keep (println (host_name h @ '' MagiSocket connected to '' @ where_to @ '' (fd='' @ printf_lld fd @ '')'')) s
                  (put_host n (h'\<lparr>h_magi_fd := fd\<rparr>) w)
              }
            })))"

definition cmd_magi_sock_send :: "sender \<Rightarrow> string list \<Rightarrow> simulator \<Rightarrow> outcome" where
  "cmd_magi_sock_send send toks s = with_host (toks ! 0) s (\<lambda>n h.
     if length toks < 3 then say ''Usage: <host> magi_sock_send <data>'' s
     else do {
       (r, w) \<leftarrow> magi_send send (h_magi_fd h) (map byte_of_char (toks ! 2)) (si_world s);
       keep (println (if 0 < r then host_name h @ '' Sent '' @ printf_lld r @ '' bytes''
                      else host_name h @ '' Failed to send data'')) s w
     })"

definition cmd_magi_sock_recv :: "string list \<Rightarrow> simulator \<Rightarrow> outcome" where
  "cmd_magi_sock_recv toks s = with_host (toks ! 0) s (\<lambda>n h. do {
     (r, out, w) \<leftarrow> magi_recv (h_magi_fd h) (MAGI_SOCKET_BUFFER_SIZE - 1) (si_world s);
     keep (println (if 0 < r then host_name h @ '' Received '' @ printf_lld r @ '' bytes: '' @ shown out
                    else host_name h @ '' No data available'')) s w
   })"

definition cmd_magi_sock_close :: "sender \<Rightarrow> string list \<Rightarrow> simulator \<Rightarrow> outcome" where
  "cmd_magi_sock_close send toks s = with_host (toks ! 0) s (\<lambda>n h. do {
     (_, w) \<leftarrow> magi_close send (h_magi_fd h) (si_world s);
     h' \<leftarrow> get_host n w;
     keep (println (host_name h @ '' MagiSocket closed'')) s (put_host n (h'\<lparr>h_magi_fd := - 1\<rparr>) w)
   })"

end
