(* ===== verification/Cli_Services.thy ===== *)
theory Cli_Services
  imports Cli_Host
begin

text \<open>
  The commands of \<^verbatim>\<open>utils/cli.c\<close> around the services: the DHCP, DNS and HTTP servers, their clients,
  and \<^verbatim>\<open>udp_send\<close>. A value drawn with \<^verbatim>\<open>rand()\<close> is the next one of the sequence \<open>rnd\<close>.
\<close>

definition draw :: "(nat \<Rightarrow> u32) \<Rightarrow> simulator \<Rightarrow> nat \<times> simulator" where
  "draw rnd s = (unat (rnd (si_rand s)), s\<lparr>si_rand := si_rand s + 1\<rparr>)"

text \<open>Starting and stopping a server: the words after the command.\<close>

definition server_command ::
  "string \<Rightarrow> string list \<Rightarrow> simulator \<Rightarrow> outcome \<Rightarrow> outcome \<Rightarrow> outcome" where
  "server_command name toks s start stop =
    (if toks ! 2 = ''start'' then start
     else if toks ! 2 = ''stop'' then stop
     else say (''Unknown '' @ name @ '' subcommand: '' @ toks ! 2) s)"

section \<open>DHCP\<close>

definition cmd_dhcp_server :: "string list \<Rightarrow> simulator \<Rightarrow> outcome" where
  "cmd_dhcp_server toks s =
    (if length toks < 3 then say ''Usage: <host> dhcp_server start|stop'' s
     else server_command ''dhcp_server'' toks s
       (with_host (toks ! 0) s (\<lambda>n h.
         if \<not> h_has_ip h then say (''[DHCP] '' @ nb_name (h_base h) @ '' must have an IP before starting DHCP server'') s
         else do {
           w \<leftarrow> dhcp_server_attach_host n (si_world s);
           keep (println (''[DHCP] Server started on '' @ nb_name (h_base h) @ '' ('' @ ip_to_string (h_ip h) 20 False @
             '':'' @ decimal (unat DHCP_SERVER_PORT) @ '')'')) s w
         }))
       (keep (println ''[DHCP] Server stopped'') s (dhcp_server_detach_host (si_world s))))"

definition dhcp_client_send_broadcast :: "sender \<Rightarrow> node_id \<Rightarrow> bytes \<Rightarrow> world \<Rightarrow> (bool \<times> world) option" where
  "dhcp_client_send_broadcast send n dhcp_raw w = do {
    h \<leftarrow> get_host n w;
    let src_ip = (if h_has_ip h then h_ip h else ip_init (Octets 0 0 0 0) 0);
        (fd, w) = magi_socket AF_INET SOCK_DGRAM w
    in if fd < 0 then Some (False, w)
       else
         let (r, w) = magi_socket_attach_host fd n w
         in if r < 0 then do { (_, w) \<leftarrow> magi_close send fd w; Some (False, w) }
            else
              let (r, w) = magi_bind fd src_ip DHCP_CLIENT_PORT w
              in if r < 0 then do { (_, w) \<leftarrow> magi_close send fd w; Some (False, w) }
                 else do {
                   h \<leftarrow> get_host n w;
                   (r, w) \<leftarrow> magi_sendto send fd dhcp_raw (ip_init (Octets 255 255 255 255) 0) DHCP_SERVER_PORT
                     (put_host n (h\<lparr>h_has_udp := False\<rparr>) w);
                   (_, w) \<leftarrow> magi_close send fd w;
                   Some (0 < r, w)
                 }
  }"

text \<open>
  One round of the dialogue: the message is broadcast, and the answer of this type is read from the
  last datagram of the host. The other result is the line that says what went wrong.
\<close>

definition dhcp_round ::
  "sender \<Rightarrow> node_id \<Rightarrow> dhcp_message \<Rightarrow> u8 \<Rightarrow> string \<Rightarrow> string \<Rightarrow> string \<Rightarrow> string \<Rightarrow> world \<Rightarrow>
    ((dhcp_message + string) \<times> world) option" where
  "dhcp_round send n message expected serialised sent answer missing w =
    (case dhcp_message_to_bytes message (DHCP_HEADER_SIZE + DHCP_OPTIONS_SIZE) of
       None \<Rightarrow> Some (Inr (''[DHCP] Failed to serialize '' @ serialised), w)
     | Some raw \<Rightarrow> do {
         (ok, w) \<leftarrow> dhcp_client_send_broadcast send n raw w;
         if \<not> ok then Some (Inr (''[DHCP] Failed to send '' @ sent), w)
         else do {
           h \<leftarrow> get_host n w;
           if \<not> h_has_udp h \<or> udp_src_port (h_last_udp h) \<noteq> DHCP_SERVER_PORT
           then Some (Inr (host_name h @ '' No DHCP '' @ missing @ '' received''), w)
           else case dhcp_message_from_bytes (udp_payload (h_last_udp h)) of
             None \<Rightarrow> Some (Inr (''[DHCP] Failed to parse '' @ answer), w)
           | Some response \<Rightarrow> do {
               ty \<leftarrow> dhcp_get_msg_type response;
               Some (if ty \<noteq> uint expected
                 then Inr (''[DHCP] Expected '' @ answer @ '', got msg-type='' @ printf_lld ty)
                 else Inl response, w)
             }
         }
       })"

definition cmd_dhcp_discover :: "sender \<Rightarrow> (nat \<Rightarrow> u32) \<Rightarrow> string list \<Rightarrow> simulator \<Rightarrow> outcome" where
  "cmd_dhcp_discover send rnd toks s =
    (let (r, s) = draw rnd s; xid = r mod 100000
     in with_host (toks ! 0) s (\<lambda>n h.
       let mac = mac_bytes (if_mac (nb_ifs (h_base h) ! 0));
           text1 = println (host_name h @ '' DHCP Discover (xid='' @ decimal xid @ '')...'')
       in do {
         (offer, w) \<leftarrow> dhcp_round send n (dhcp_create_discover (of_nat xid) mac) DHCP_OFFER
           ''discover'' ''DISCOVER'' ''OFFER'' ''OFFER'' (si_world s);
         case offer of
           Inr problem \<Rightarrow> keep (text1 @ println problem) s w
         | Inl response \<Rightarrow>
             let ip_text = ip_to_string (dm_yiaddr response) 20 False;
                 text2 = text1 @ println (host_name h @ '' Received OFFER for '' @ ip_text) @
                   println (host_name h @ '' DHCP Request for '' @ ip_text @ ''...'')
             in do {
               (ack, w) \<leftarrow> dhcp_round send n
                 (dhcp_create_request (of_nat xid) mac (dm_yiaddr response) (dm_siaddr response)) DHCP_ACK
                 ''REQUEST'' ''REQUEST'' ''ACK'' ''ACK'' w;
               case ack of
                 Inr problem \<Rightarrow> keep (text2 @ println problem) s w
               | Inl response \<Rightarrow> do {
                   h' \<leftarrow> get_host n w;
                   keep (text2 @ println (host_name h @ '' DHCP lease acquired: '' @
                       ip_to_string (dm_yiaddr response) 20 False)) s
                     (put_host n (h'\<lparr>h_ip := dm_yiaddr response, h_has_ip := True\<rparr>) w)
                 }
             }
       }))"

section \<open>DNS\<close>

definition cmd_dns_server :: "string list \<Rightarrow> simulator \<Rightarrow> outcome" where
  "cmd_dns_server toks s =
    (if length toks < 3 then say ''Usage: <host> dns_server start|stop'' s
     else server_command ''dns_server'' toks s
       (with_host (toks ! 0) s (\<lambda>n h.
         if \<not> h_has_ip h then say (''[DNS] '' @ nb_name (h_base h) @ '' must have an IP before starting DNS server'') s
         else keep (println (''[DNS] Server started on '' @ nb_name (h_base h) @ '' ('' @ ip_to_string (h_ip h) 20 False @
             '':'' @ decimal (unat DNS_SERVER_PORT) @ '')'')) s (dns_server_attach_host n (si_world s))))
       (keep (println ''[DNS] Server stopped'') s (dns_server_detach_host (si_world s))))"

text \<open>The datagram of a query through a socket of its own, and the answer left with the host.\<close>

definition cli_dns_exchange ::
  "sender \<Rightarrow> node_id \<Rightarrow> bytes \<Rightarrow> ip_address \<Rightarrow> world \<Rightarrow> (ip_address option \<times> world) option" where
  "cli_dns_exchange send n query_raw server_ip w =
    (let (fd, w) = magi_socket AF_INET SOCK_DGRAM w
     in if fd < 0 then Some (None, w)
        else
          let (r, w) = magi_socket_attach_host fd n w
          in if r < 0 then do { (_, w) \<leftarrow> magi_close send fd w; Some (None, w) }
             else do {
               h \<leftarrow> get_host n w;
               let (r, w) = magi_bind fd (h_ip h) 5353 w;
               if r < 0 then do { (_, w) \<leftarrow> magi_close send fd w; Some (None, w) }
               else do {
                 (sent, w) \<leftarrow> magi_sendto send fd query_raw server_ip DNS_SERVER_PORT
                   (put_host n (h\<lparr>h_has_udp := False\<rparr>) w);
                 if sent \<le> 0 then do { (_, w) \<leftarrow> magi_close send fd w; Some (None, w) }
                 else do {
                   (r, answer, w) \<leftarrow> magi_recvfrom fd 512 w;
                   (_, w) \<leftarrow> magi_close send fd w;
                   case answer of
                     Some (response, _, _) \<Rightarrow>
                       if r \<le> 0 then Some (None, w) else map_option (\<lambda>ip. (ip, w)) (dns_parse_response response)
                   | None \<Rightarrow> Some (None, w)
                 }
               }
             })"

definition cli_dns_query ::
  "sender \<Rightarrow> (nat \<Rightarrow> u32) \<Rightarrow> node_id \<Rightarrow> string \<Rightarrow> ip_address \<Rightarrow> simulator \<Rightarrow> (ip_address option \<times> simulator) option" where
  "cli_dns_query send rnd n hostname server_ip s = do {
    h \<leftarrow> get_host n (si_world s);
    if \<not> h_has_ip h then Some (None, s)
    else
      let (r, s) = draw rnd s
      in case dns_create_query 512 (of_nat (r mod 0xFFFF + 1)) hostname of
           None \<Rightarrow> Some (None, s)
         | Some query_raw \<Rightarrow> do {
             (answer, w) \<leftarrow> cli_dns_exchange send n query_raw server_ip (si_world s);
             Some (answer, s\<lparr>si_world := w\<rparr>)
           }
  }"

text \<open>The address of the host the running DNS server is on, when there is one.\<close>

definition dns_bound_ip :: "world \<Rightarrow> ip_address option option" where
  "dns_bound_ip w =
    (case dn_bound_host (w_dns w) of
       None \<Rightarrow> Some None
     | Some n \<Rightarrow> map_option (\<lambda>h. Some (h_ip h)) (get_host n w))"

definition cmd_dns_resolve :: "sender \<Rightarrow> (nat \<Rightarrow> u32) \<Rightarrow> string list \<Rightarrow> simulator \<Rightarrow> outcome" where
  "cmd_dns_resolve send rnd toks s =
    (if length toks < 3 then say ''Usage: <host> dns_resolve <hostname> [server_ip]'' s
     else with_host (toks ! 0) s (\<lambda>n h. do {
       server \<leftarrow> (if 4 \<le> length toks
         then map_option (\<lambda>(ok, ip). if ok then Inl (Some ip) else Inr (''Invalid server IP: '' @ toks ! 3))
           (ip_parse (toks ! 3) zero_ip)
         else map_option Inl (dns_bound_ip (si_world s)));
       case server of
         Inr problem \<Rightarrow> say problem s
       | Inl (Some server_ip) \<Rightarrow> do {
           (answer, s) \<leftarrow> cli_dns_query send rnd n (toks ! 2) server_ip s;
           case answer of
             None \<Rightarrow> say (''[DNS] No response or NXDOMAIN for: '' @ toks ! 2) s
           | Some ip \<Rightarrow> say (''[DNS] '' @ toks ! 2 @ '' -> '' @ ip_to_string ip 20 False) s
         }
       | Inl None \<Rightarrow>
           (case dns_server_resolve (toks ! 2) (w_dns (si_world s)) of
              None \<Rightarrow> say (''[DNS] Could not resolve: '' @ toks ! 2) s
            | Some ip \<Rightarrow> say (''[DNS] '' @ toks ! 2 @ '' -> '' @ ip_to_string ip 20 False) s)
     }))"

section \<open>HTTP\<close>

text \<open>The host name and the path of a URL.\<close>

definition split_url :: "string \<Rightarrow> string \<times> string" where
  "split_url url =
    (let h = (if take 7 url = ''http://'' then drop 7 url else url);
         host = takeWhile (\<lambda>c. c \<noteq> CHR ''/'') h;
         slash = dropWhile (\<lambda>c. c \<noteq> CHR ''/'') h
     in (take 255 host, if slash = [] then ''/'' else take 511 slash))"

definition http_get_text :: "string \<Rightarrow> string \<Rightarrow> string" where
  "http_get_text path hostname =
     ''GET '' @ path @ '' HTTP/1.1'' @ crlf @
     ''Host: '' @ hostname @ crlf @
     ''User-Agent: MagiSystem/1.0'' @ crlf @
     ''Accept: */*'' @ crlf @
     ''Connection: close'' @ crlf @
     crlf"

definition http_resolve ::
  "sender \<Rightarrow> (nat \<Rightarrow> u32) \<Rightarrow> node_id \<Rightarrow> string \<Rightarrow> simulator \<Rightarrow> (ip_address option \<times> simulator) option" where
  "http_resolve send rnd n hostname s = do {
    (ok, ip) \<leftarrow> ip_parse hostname zero_ip;
    if ok then Some (Some ip, s)
    else do {
      server \<leftarrow> dns_bound_ip (si_world s);
      (answer, s) \<leftarrow> (case server of None \<Rightarrow> Some (None, s) | Some ip \<Rightarrow> cli_dns_query send rnd n hostname ip s);
      Some (case answer of Some ip \<Rightarrow> Some ip | None \<Rightarrow> dns_server_resolve hostname (w_dns (si_world s)), s)
    }
  }"

text \<open>The connection to the server, the request and what is shown of the answer.\<close>

definition http_fetch ::
  "sender \<Rightarrow> node_id \<Rightarrow> host \<Rightarrow> ip_address \<Rightarrow> string \<Rightarrow> string \<Rightarrow> world \<Rightarrow> (string \<times> world) option" where
  "http_fetch send n h ip path hostname w =
    (let (fd, w) = magi_socket AF_INET SOCK_STREAM w;
         where_to = ip_to_string ip 20 False @ '':'' @ decimal (unat HTTP_SERVER_PORT)
     in if fd < 0 then Some (println (host_name h @ '' Failed to create socket''), w)
        else do {
          let (_, w) = magi_socket_attach_host fd n w;
          (r, w) \<leftarrow> magi_connect send fd ip HTTP_SERVER_PORT w;
          if r < 0 then do {
            (_, w) \<leftarrow> magi_close send fd w;
            Some (println (''[HTTP] Connection to '' @ where_to @ '' failed''), w)
          } else do {
            (_, w) \<leftarrow> magi_send send fd (map byte_of_char (http_get_text path hostname)) w;
            (resp_n, response, w) \<leftarrow> magi_recv fd HTTP_BUFFER_SIZE w;
            (_, w) \<leftarrow> magi_close send fd w;
            Some (println (''[HTTP] GET '' @ path @ '' -> '' @ where_to) @
              (if 0 < resp_n
               then println [] @ println ''=== HTTP Response ==='' @ map char_of_byte (take 512 response) @
                 println ''...'' @ println ''=== End ==='' @ println []
               else println ''[HTTP] No response received''), w)
          }
        })"

definition cmd_http_get :: "sender \<Rightarrow> (nat \<Rightarrow> u32) \<Rightarrow> string list \<Rightarrow> simulator \<Rightarrow> outcome" where
  "cmd_http_get send rnd toks s =
    (if length toks < 3
     then Some (println ''Usage: <host> http_get <url>'' @ println ''Examples:'' @
       println ''  H1 http_get www.magi.com'' @ println ''  H1 http_get www.magi.com/index.html'', s)
     else with_host (toks ! 0) s (\<lambda>n h.
       let (hostname, path) = split_url (toks ! 2)
       in do {
         (resolved, s) \<leftarrow> http_resolve send rnd n hostname s;
         case resolved of
           None \<Rightarrow> say (''[HTTP] Could not resolve hostname: '' @ hostname) s
         | Some ip \<Rightarrow> do {
             (text, w) \<leftarrow> http_fetch send n h ip path hostname (si_world s);
             keep (println (''[HTTP] Resolved '' @ hostname @ '' -> '' @ ip_to_string ip 20 False) @ text) s w
           }
       }))"

definition cmd_http_server :: "sender \<Rightarrow> string list \<Rightarrow> simulator \<Rightarrow> outcome" where
  "cmd_http_server send toks s =
    (if length toks < 3
     then Some (println ''Usage: <host> http_server start [dir]'' @ println ''       <host> http_server stop'', s)
     else server_command ''http_server'' toks s
       (with_host (toks ! 0) s (\<lambda>n h.
         let root_dir = (if 4 \<le> length toks then Some (toks ! 3) else None);
             w = si_world s;
             w = w\<lparr>w_http := http_server_start root_dir (w_http w)\<rparr>
         in do {
           (ok, w) \<leftarrow> http_server_attach_host send n w;
           if \<not> ok then do {
             (_, w) \<leftarrow> http_server_stop send w;
             keep (println (''[HTTP] Failed to bind listening socket on '' @ toks ! 0 @ '':80'')) s w
           } else keep (println (''[HTTP] Server started on '' @ toks ! 0 @ '':80'')) s w
         }))
       (do {
         (stopped, w) \<leftarrow> http_server_stop send (si_world s);
         keep (println (if stopped then ''[HTTP] Server stopped'' else ''[HTTP] No server running'')) s w
       }))"

section \<open>UDP\<close>

definition cmd_udp_send :: "sender \<Rightarrow> string list \<Rightarrow> simulator \<Rightarrow> outcome" where
  "cmd_udp_send send toks s =
    (if length toks < 5 then say ''Usage: <host> udp_send <ip> <dstport> <data>'' s
     else with_host (toks ! 0) s (\<lambda>n h. with_address_port (toks ! 2) (toks ! 3) s (\<lambda>ip port.
       let data = map byte_of_char (take UDP_MAX_PAYLOAD (toks ! 4))
       in case datagram_packet (h_ip h) ip (port + 2000) port data of
            None \<Rightarrow> Some ([], s)
          | Some ip_raw \<Rightarrow> do {
              (_, w) \<leftarrow> host_send_l3_packet send n ip ETHERNET_TYPE_IPV4 ip_raw (si_world s);
              keep (println (host_name h @ '' Sent UDP datagram to '' @ ip_to_string ip 20 False @ '':'' @
                decimal (unat port) @ '' ('' @ decimal (length data) @ '' bytes)'')) s w
            })))"

end
