(* ===== verification/Cli.thy ===== *)
theory Cli
  imports Cli_Services
begin

text \<open>
  The command interpreter: \<^verbatim>\<open>process\<close> and \<^verbatim>\<open>cli\<close> of \<^verbatim>\<open>utils/cli.c\<close>, and \<^verbatim>\<open>main\<close>. The state is
  the simulator and the files. What lies outside is a parameter: the values of \<^verbatim>\<open>rand()\<close>, the bound on
  nested sends, the files that can be written, the self tests of \<^verbatim>\<open>utils/debugger.c\<close> (\<open>None\<close> runs all
  milestones) and the export of a picture, which is there when the program was built with SDL.
\<close>

record outside =
  ou_send :: sender
  ou_rnd :: "nat \<Rightarrow> u32"
  ou_writable :: "string \<Rightarrow> bool"
  ou_debug :: "nat option \<Rightarrow> simulator \<Rightarrow> outcome"
  ou_export :: "(simulator \<Rightarrow> string option) option"

record cli_state =
  cl_sim :: simulator
  cl_files :: "string \<Rightarrow> string option"

type_synonym response = "(bool \<times> string \<times> cli_state) option"

text \<open>A command that leaves the files alone and goes on.\<close>

definition run_on :: "cli_state \<Rightarrow> outcome \<Rightarrow> response" where
  "run_on c r = map_option (\<lambda>(text, s). (True, text, c\<lparr>cl_sim := s\<rparr>)) r"

section \<open>Files\<close>

definition topology_file :: string where
  "topology_file = ''magi_system/topology.json''"

definition file_name :: "string list \<Rightarrow> string" where
  "file_name toks = (if 2 \<le> length toks then toks ! 1 else topology_file)"

definition cmd_save :: "outside \<Rightarrow> string list \<Rightarrow> cli_state \<Rightarrow> response" where
  "cmd_save ou toks c =
    (let file = file_name toks
     in if \<not> ou_writable ou file then Some (True, println (''[SIM] Failed to save topology to '' @ file), c)
        else do {
          content \<leftarrow> simulator_save (cl_sim c);
          Some (True, println (''[SIM] Saved topology to '' @ file), c\<lparr>cl_files := (cl_files c)(file \<mapsto> content)\<rparr>)
        })"

definition load_file :: "outside \<Rightarrow> string \<Rightarrow> cli_state \<Rightarrow> (bool \<times> cli_state) option" where
  "load_file ou file c =
    (case cl_files c file of
       None \<Rightarrow> Some (False, c)
     | Some content \<Rightarrow> map_option (\<lambda>(ok, s). (ok, c\<lparr>cl_sim := s\<rparr>)) (simulator_load (ou_send ou) (ou_rnd ou) content (cl_sim c)))"

definition cmd_load :: "outside \<Rightarrow> string list \<Rightarrow> cli_state \<Rightarrow> response" where
  "cmd_load ou toks c =
    (let file = file_name toks
     in do {
       (ok, c) \<leftarrow> load_file ou file c;
       Some (True, println ((if ok then ''[SIM] Loaded topology from '' else ''[SIM] Failed to load topology from '') @ file), c)
     })"

section \<open>Self tests and pictures\<close>

definition debug_usage :: string where
  "debug_usage =
    println ''Debug targets:'' @
    println ''  debug m0   - Milestone 0: Fondasi Simulasi'' @
    println ''  debug m1   - Milestone 1: Data Link Layer'' @
    println ''  debug m2   - Milestone 2: Network Layer'' @
    println ''  debug m3   - Milestone 3: Transport Layer'' @
    println ''  debug m4   - Milestone 4: Application Layer'' @
    println ''  debug all  - Run all milestone tests''"

definition cmd_debug :: "(nat option \<Rightarrow> simulator \<Rightarrow> outcome) \<Rightarrow> string list \<Rightarrow> simulator \<Rightarrow> outcome" where
  "cmd_debug run toks s =
    (let target = (if 2 \<le> length toks then toks ! 1 else ''help'')
     in if target = ''m0'' \<or> target = ''0'' then run (Some 0) s
        else if target = ''m1'' \<or> target = ''1'' then run (Some 1) s
        else if target = ''m2'' \<or> target = ''2'' then run (Some 2) s
        else if target = ''m3'' \<or> target = ''3'' then run (Some 3) s
        else if target = ''m4'' \<or> target = ''4'' then run (Some 4) s
        else if target = ''all'' then run None s
        else Some (debug_usage, s))"

definition cmd_visualize :: "(simulator \<Rightarrow> string option) option \<Rightarrow> simulator \<Rightarrow> outcome" where
  "cmd_visualize export s =
    (case export of
       None \<Rightarrow> say ''[SIM] Visualize not available (SDL2 not found at build time)'' s
     | Some f \<Rightarrow>
         (case f s of
            Some file \<Rightarrow> say (''[SIM] Topology exported to '' @ file) s
          | None \<Rightarrow> say ''[SIM] Failed to export topology'' s))"

section \<open>The interpreter\<close>

definition print_help :: string where
  "print_help = concat (map println [
    ''Commands:'',
    ''  create <host|switch|router> <name> [ports]'',
    ''  link <device[:port]> <device[:port]> [delay_ms]'',
    ''  unlink <device[:port]> <device[:port]>'',
    ''  save [filename]'',
    ''  load [filename]'',
    ''  topology'',
    ''  <host> ping <ip|host>'',
    ''  <host> traceroute <ip|host>'',
    ''  <router> route'',
    ''  <switch> mac'',
    ''  <host|router> arp'',
    ''  <host> tcp_connect <ip> <port>'',
    ''  <host> tcp_listen <port>'',
    ''  <host> tcp_send <data>'',
    ''  <host> tcp_recv'',
    ''  <host> tcp_close'',
    ''  <host> udp_send <ip> <dstport> <data>'',
    ''  <host> tcp_status'',
    ''  <host> magi_sock_connect <ip> <port>'',
    ''  <host> magi_sock_send <data>'',
    ''  <host> magi_sock_recv'',
    ''  <host> magi_sock_close'',
    ''  <host> dhcp_discover'',
    ''  <host> dhcp_server start'',
    ''  <host> dhcp_server stop'',
    ''  <host> dns_resolve <hostname> [server_ip]'',
    ''  <host> dns_server start'',
    ''  <host> dns_server stop'',
    ''  <host> http_get <url>'',
    ''  <host> http_server start [dir]'',
    ''  <host> http_server stop'',
    ''  visualize'',
    ''  exit | quit''])"

text \<open>The commands that a host, a router or a switch is the first word of.\<close>

definition node_command :: "outside \<Rightarrow> string list \<Rightarrow> simulator \<Rightarrow> outcome option" where
  "node_command ou toks s =
    (if length toks < 2 then None
     else
       let send = ou_send ou; rnd = ou_rnd ou; cmd = toks ! 1
       in if cmd = ''ping'' then Some (cmd_ping send toks s)
          else if cmd = ''traceroute'' then Some (cmd_traceroute send toks s)
          else if cmd = ''route'' then Some (cmd_route toks s)
          else if cmd = ''mac'' then Some (cmd_mac toks s)
          else if cmd = ''arp'' then Some (cmd_arp toks s)
          else if cmd = ''tcp_connect'' then Some (cmd_tcp_connect send toks s)
          else if cmd = ''tcp_listen'' then Some (cmd_tcp_listen toks s)
          else if cmd = ''tcp_send'' then Some (cmd_tcp_send send toks s)
          else if cmd = ''tcp_recv'' then Some (cmd_tcp_recv toks s)
          else if cmd = ''tcp_close'' then Some (cmd_tcp_close send toks s)
          else if cmd = ''tcp_status'' then Some (cmd_tcp_status toks s)
          else if cmd = ''magi_sock_connect'' then Some (cmd_magi_sock_connect send toks s)
          else if cmd = ''magi_sock_send'' then Some (cmd_magi_sock_send send toks s)
          else if cmd = ''magi_sock_recv'' then Some (cmd_magi_sock_recv toks s)
          else if cmd = ''magi_sock_close'' then Some (cmd_magi_sock_close send toks s)
          else if cmd = ''dhcp_server'' then Some (cmd_dhcp_server toks s)
          else if cmd = ''dhcp_discover'' then Some (cmd_dhcp_discover send rnd toks s)
          else if cmd = ''dns_server'' then Some (cmd_dns_server toks s)
          else if cmd = ''dns_resolve'' then Some (cmd_dns_resolve send rnd toks s)
          else if cmd = ''http_get'' then Some (cmd_http_get send rnd toks s)
          else if cmd = ''http_server'' then Some (cmd_http_server send toks s)
          else if 3 \<le> length toks \<and> cmd = ''udp_send'' then Some (cmd_udp_send send toks s)
          else None)"

text \<open>The result is whether the session goes on, the text, and the state.\<close>

definition process :: "outside \<Rightarrow> string \<Rightarrow> cli_state \<Rightarrow> response" where
  "process ou command c =
    (let toks = tokens command; s = cl_sim c
     in if toks = [] then Some (True, [], c)
        else if toks ! 0 = ''create'' then run_on c (cmd_create (ou_rnd ou) toks s)
        else if toks ! 0 = ''link'' then run_on c (cmd_link toks s)
        else if toks ! 0 = ''unlink'' then run_on c (cmd_unlink toks s)
        else if toks ! 0 = ''save'' then cmd_save ou toks c
        else if toks ! 0 = ''load'' then cmd_load ou toks c
        else if toks ! 0 = ''debug'' then run_on c (cmd_debug (ou_debug ou) toks s)
        else if toks ! 0 = ''topology'' then run_on c (map_option (\<lambda>text. (text, s)) (simulator_print_topology s))
        else if toks ! 0 = ''visualize'' then run_on c (cmd_visualize (ou_export ou) s)
        else case node_command ou toks s of
          Some r \<Rightarrow> run_on c r
        | None \<Rightarrow>
            if toks ! 0 = ''help'' then Some (True, print_help, c)
            else if toks ! 0 = ''exit'' \<or> toks ! 0 = ''quit'' then Some (False, [], c)
            else Some (True, println (''Unknown command: '' @ c_string command) @ print_help, c))"

section \<open>The session\<close>

text \<open>
  \<^verbatim>\<open>fgets\<close>: at most \<open>n - 1\<close> characters, up to the end of the line; \<open>None\<close> at the end of the input.
\<close>

definition fgets :: "nat \<Rightarrow> string \<Rightarrow> (string \<times> string) option" where
  "fgets n input =
    (if input = [] then None
     else
       let line = takeWhile (\<lambda>c. c \<noteq> CHR 0x0A) input;
           k = min (n - 1) (if length line < length input then length line + 1 else length line)
       in Some (take k input, drop k input))"

lemma fgets_shorter: "fgets MAX_COMMAND_LENGTH input = Some (line, rest) \<Longrightarrow> length rest < length input"
proof -
  assume r: "fgets MAX_COMMAND_LENGTH input = Some (line, rest)"
  let ?l = "takeWhile (\<lambda>c. c \<noteq> CHR 0x0A) input"
  let ?k = "min (MAX_COMMAND_LENGTH - 1) (if length ?l < length input then length ?l + 1 else length ?l)"
  have ne: "input \<noteq> []" and rest: "rest = drop ?k input" using r by (simp_all add: fgets_def Let_def split: if_split_asm)
  have "length ?l = length input" if "\<not> length ?l < length input"
    using that length_takeWhile_le [of "\<lambda>c. c \<noteq> CHR 0x0A" input] by linarith
  then have "0 < ?k" using ne by (cases "length ?l < length input") simp_all
  then show ?thesis using ne unfolding rest length_drop by (metis diff_less length_greater_0_conv)
qed

function cli_loop :: "outside \<Rightarrow> string \<Rightarrow> cli_state \<Rightarrow> (string \<times> cli_state) option" where
  "cli_loop ou input c =
    (case fgets MAX_COMMAND_LENGTH input of
       None \<Rightarrow> Some (''magi> '', c)
     | Some (line, rest) \<Rightarrow> do {
         (goes_on, text, c) \<leftarrow> process ou (takeWhile (\<lambda>c. c \<noteq> CHR 0x0A) (c_string line)) c;
         if goes_on then do {
           (more, c) \<leftarrow> cli_loop ou rest c;
           Some (''magi> '' @ text @ more, c)
         } else Some (''magi> '' @ text, c)
       })"
  by pat_completeness auto
termination
  by (relation "measure (\<lambda>(_, input, _). length input)") (auto intro: fgets_shorter)

declare cli_loop.simps [simp del]

definition cli :: "outside \<Rightarrow> string \<Rightarrow> cli_state \<Rightarrow> (string \<times> cli_state) option" where
  "cli ou input c = do {
    (text, c) \<leftarrow> cli_loop ou input (c\<lparr>cl_sim := simulator_init (cl_sim c)\<rparr>);
    Some (println ''=== Magi System ==='' @ text @ println ''=== END ==='', c\<lparr>cl_sim := simulator_clear (cl_sim c)\<rparr>)
  }"

text \<open>
  \<^verbatim>\<open>main\<close>: with \<^verbatim>\<open>--gui\<close> the window, a parameter that gives the text it writes and the new state, when it was built in.
\<close>

definition main :: "outside \<Rightarrow> (cli_state \<Rightarrow> (string \<times> cli_state) option) option \<Rightarrow> string list \<Rightarrow> string \<Rightarrow> cli_state \<Rightarrow>
    (string \<times> cli_state) option" where
  "main ou gui args input c =
    (if 1 < length args \<and> args ! 1 = ''--gui'' then
       (case gui of
          None \<Rightarrow> Some (println ''GUI not available (SDL2 not found at build time).'' @
            println ''Install libsdl2-dev and rebuild.'', c)
        | Some run \<Rightarrow> do {
            (_, c) \<leftarrow> load_file ou topology_file (c\<lparr>cl_sim := simulator_init (cl_sim c)\<rparr>);
            (out, c) \<leftarrow> run c;
            Some (out, c\<lparr>cl_sim := simulator_clear (cl_sim c)\<rparr>)
          })
     else cli ou input c)"

end
