(* ===== verification/Two_Hosts.thy ===== *)
theory Two_Hosts
  imports Contact Cli
begin

text \<open>
  A network for examples: the hosts 10.0.0.1 and 10.0.0.2 on a cable, and a simulator that knows them as
  \<^verbatim>\<open>H1\<close> and \<^verbatim>\<open>H2\<close>.
\<close>

declare net_send.simps(2) [simp del]

text \<open>
  What a command gives back: the descriptors that were free are free again, no other one is, and the sockets in use are
  untouched.
\<close>

definition fds_restored :: "world \<Rightarrow> world \<Rightarrow> bool" where
  "fds_restored w w' \<longleftrightarrow> length (sock_table w') = length (sock_table w) \<and> free_fds w' = free_fds w \<and>
     (\<forall>i. i \<notin> free_fds w \<longrightarrow> sock_table w' ! i = sock_table w ! i)"

lemma fds_restored_trans: "fds_restored w w' \<Longrightarrow> fds_restored w' w'' \<Longrightarrow> fds_restored w w''"
  by (simp add: fds_restored_def)

lemma fds_restored_two: "fds_restored w w' \<Longrightarrow> two_free w' = two_free w"
  by (simp add: fds_restored_def two_free_def)

lemma fds_restored_put [simp]: "fds_restored w (put_node n nd w') = fds_restored w w'"
  by (simp add: fds_restored_def)

lemma fds_closed:
  assumes "sock_table w' = (sock_table w)[i := zero_magi_socket, j := zero_magi_socket]" "length (sock_table w) = MAGI_SOCKET_MAX_SOCKETS"
    "i \<in> free_fds w" "j \<in> free_fds w"
  shows "fds_restored w w'"
  using assms by (auto simp: fds_restored_def free_fds_def nth_list_update)

lemma two_free_initial: "two_free (w\<lparr>w_socks_initialized := False\<rparr>)"
proof -
  have "free_fds (w\<lparr>w_socks_initialized := False\<rparr>) = {i. i < MAGI_SOCKET_MAX_SOCKETS}"
    by (auto simp: free_fds_def sock_table_def)
  moreover have "\<exists>j < MAGI_SOCKET_MAX_SOCKETS. j \<noteq> i" for i :: nat
    by (cases i) (auto intro: exI [of _ 0] exI [of _ 1])
  ultimately show ?thesis by (auto simp: two_free_def sock_table_def)
qed

definition cabled_world :: "host \<Rightarrow> host \<Rightarrow> world \<Rightarrow> world" where
  "cabled_world A B w = w\<lparr>w_nodes := [0 \<mapsto> HostNode A, 1 \<mapsto> HostNode B],
     w_links := [\<lparr>ln_if1 = Some (0, 0), ln_if2 = Some (1, 0), ln_delay = 0\<rparr>], w_socks_initialized := False\<rparr>"

lemma cabled_world:
  assumes "h_base A = h_base (cabled_host 0 k)" "h_base B = h_base (cabled_host 1 l)"
  shows "cable 0 1 (cabled_world A B w)" "get_host 0 (cabled_world A B w) = Some A" "get_host 1 (cabled_world A B w) = Some B"
    "two_free (cabled_world A B w)"
proof -
  show "cable 0 1 (cabled_world A B w)"
    unfolding cable_def
    by (intro exI [of _ 0] exI [of _ "nb_ifs (h_base (cabled_host 0 k)) ! 0"] exI [of _ "nb_ifs (h_base (cabled_host 1 l)) ! 0"])
      (simp add: get_iface_def cabled_host_wf other_end_def cabled_world_def assms)
  show "get_host 0 (cabled_world A B w) = Some A" "get_host 1 (cabled_world A B w) = Some B"
    by (simp_all add: get_host_def cabled_world_def)
  show "two_free (cabled_world A B w)" unfolding cabled_world_def by (rule two_free_initial)
qed

lemma cabled_strangers:
  fixes w :: world
  defines "W \<equiv> cabled_world (cabled_host 0 1) (cabled_host 1 2) w"
  shows "neighbours 0 1 (cabled_host 0 1) (cabled_host 1 2) W" "strangers (cabled_host 0 1) (cabled_host 1 2)"
proof -
  let ?A = "cabled_host 0 1" and ?B = "cabled_host 1 2"
  have w: "cable 0 1 W" "get_host 0 W = Some ?A" "get_host 1 W = Some ?B"
    unfolding W_def by (rule cabled_world [of _ 1 _ 2]; simp)+
  have "ip_to_u32 (ip_init (Octets 10 0 0 1) 24) AND ip_prefix_to_mask 24 =
      ip_to_u32 (ip_init (Octets 10 0 0 2) 24) AND ip_prefix_to_mask 24" by code_simp
  then have "host_is_same_subnet ?A (h_ip ?B)" "host_is_same_subnet ?B (h_ip ?A)"
    by (simp_all add: host_is_same_subnet_def cabled_host_simps ip_init_def)
  moreover have "\<not> ip_is_limited_broadcast (h_ip ?A)" "\<not> ip_is_limited_broadcast (h_ip ?B)"
    by (simp_all add: cabled_host_simps ip_is_limited_broadcast_def ip_init_def)
  ultimately show "neighbours 0 1 ?A ?B W" using w cabled_host_wf(1) by (simp add: neighbours_def cabled_host_simps)
  have "arp_table_get arp_table_zero ip = None" for ip by (rule arp.lookup_empty)
  moreover have "host_find_pending_for_ip ?A (h_ip ?B) = None"
    using ring_find_list [OF zero_host_queue_wf(1)] zero_host_queue_wf(2)
    by (simp add: host_find_pending_for_ip_def cabled_host_simps)
  moreover have "tab_size arp_table_zero < ARP_TABLE_MAX_ENTRIES" "ring_size zero_host_queue < HOST_PENDING_QUEUE_MAX_ENTRIES"
    by (simp add: arp.count_empty, simp add: zero_host_queue_def)
  ultimately show "strangers ?A ?B" by (simp add: strangers_def cabled_host_simps)
qed

definition two_hosts :: "world \<Rightarrow> simulator" where
  "two_hosts w = (undefined :: simulator)\<lparr>si_world := w, si_nodes :=
     [\<lparr>en_name = ''H1'', en_type = SIM_NODE_HOST, en_node = Some 0\<rparr>, \<lparr>en_name = ''H2'', en_type = SIM_NODE_HOST, en_node = Some 1\<rparr>]\<rparr>"

lemma two_hosts [simp]: "si_world (two_hosts w) = w" "cli_find_host (two_hosts w) ''H1'' = Some (Some 0)"
  "cli_find_host (two_hosts w) ''H2'' = Some (Some 1)"
proof -
  let ?ns = "si_nodes (two_hosts w)"
  have ns: "length ?ns = 2" "?ns ! 0 = \<lparr>en_name = ''H1'', en_type = SIM_NODE_HOST, en_node = Some 0\<rparr>"
    "?ns ! 1 = \<lparr>en_name = ''H2'', en_type = SIM_NODE_HOST, en_node = Some 1\<rparr>"
    by (simp_all add: two_hosts_def)
  have "simulator_find_node (two_hosts w) ''H1'' = Some 0" "simulator_find_node (two_hosts w) ''H2'' = Some 1"
    using ns by (simp_all add: simulator_find_node_def first_index_Some)
  then show "cli_find_host (two_hosts w) ''H1'' = Some (Some 0)" "cli_find_host (two_hosts w) ''H2'' = Some (Some 1)"
    using ns by (simp_all add: cli_find_host_def find_typed_def)
qed (simp add: two_hosts_def)

end
