(* ===== verification/Dhcp_Dialogue.thy ===== *)
theory Dhcp_Dialogue
  imports Two_Hosts Dhcp_Leases
begin

text \<open>
  The DHCP dialogue between a host and the server on the other end of a cable, up to the command
  \<^verbatim>\<open>dhcp_discover\<close>: a message is broadcast, the server's host hands it to the server, and the answer
  is broadcast back before the call returns.
\<close>

declare net_send.simps(2) [simp del]

section \<open>The server's turn\<close>

definition dhcp_answers :: "dhcp_state \<Rightarrow> dhcp_message \<Rightarrow> dhcp_message \<Rightarrow> dhcp_state \<Rightarrow> bool" where
  "dhcp_answers d m answer d' \<longleftrightarrow>
     dhcp_get_msg_type m = Some 1 \<and> dhcp_server_handle_discover d m = (Some answer, d') \<or>
     dhcp_get_msg_type m = Some 3 \<and> dhcp_server_handle_request d m = (Some answer, d')"

lemma dhcp_dispatched:
  assumes "dh_bound_host (w_dhcp w) = Some n" "dhcp_message_from_bytes (udp_payload u) = Some m"
    and "dhcp_answers (w_dhcp w) m answer d'" "dhcp_message_to_bytes answer (DHCP_HEADER_SIZE + DHCP_OPTIONS_SIZE) = Some raw"
  shows "dhcp_server_dispatch send n u w =
    reply_by_socket send n DHCP_SERVER_PORT raw (ip_init (Octets 255 255 255 255) 0) DHCP_CLIENT_PORT (w\<lparr>w_dhcp := d'\<rparr>)"
proof -
  have "uint DHCP_DISCOVER = 1" "uint DHCP_REQUEST = 3" by simp_all
  then show ?thesis
    using assms by (auto simp: dhcp_server_dispatch_def dhcp_answers_def dhcp_send_response_def)
qed

lemma dhcp_size:
  assumes "wf_dhcp_message m"
  obtains raw where "dhcp_message_to_bytes m (DHCP_HEADER_SIZE + DHCP_OPTIONS_SIZE) = Some raw"
    "length raw \<le> UDP_MAX_PAYLOAD" "raw \<noteq> []"
  using assms by (auto simp: dhcp_message_to_bytes_def wf_dhcp_message_def)

lemma server_turn:
  assumes "cable a b w" "a \<noteq> b" "get_host a w = Some A" "get_host b w = Some B" "dh_bound_host (w_dhcp w) = Some b"
    and "length (sock_table w) = MAGI_SOCKET_MAX_SOCKETS" "free_fds w \<noteq> {}"
    and "framed raw1 mac_broadcast (host_mac A) ETHERNET_TYPE_IPV4 payload"
    and "udp_carried payload sip (ip_init (Octets 255 255 255 255) 0) DHCP_CLIENT_PORT DHCP_SERVER_PORT raw p u"
    and "dhcp_message_from_bytes raw = Some m" "dhcp_answers (w_dhcp w) m answer d'" "wf_dhcp_message answer"
  obtains i p' u' raw' where "i \<in> free_fds w" "udp_src_port u' = DHCP_SERVER_PORT" "udp_payload u' = raw'"
    "dhcp_message_to_bytes answer (DHCP_HEADER_SIZE + DHCP_OPTIONS_SIZE) = Some raw'"
    "net_send (Suc (Suc depth)) (a, 0) raw1 w =
      Some (with_socks ((sock_table w)[i := zero_magi_socket])
        (put_host a (udp_noted p' u' A) ((put_host b (udp_noted p u B) w)\<lparr>w_dhcp := d'\<rparr>)))"
proof -
  let ?B = "udp_noted p u B" and ?all = "ip_init (Octets 255 255 255 255) 0"
  let ?w2 = "(put_host b ?B w)\<lparr>w_dhcp := d'\<rparr>"
  obtain raw' where raw': "dhcp_message_to_bytes answer (DHCP_HEADER_SIZE + DHCP_OPTIONS_SIZE) = Some raw'"
    "length raw' \<le> UDP_MAX_PAYLOAD" "raw' \<noteq> []" by (rule dhcp_size [OF assms(12)])
  have all: "octet ?all = Octets 255 255 255 255" by (simp add: ip_init_def)
  have c2: "cable a b ?w2" using cable_put_host [OF assms(1,4), of ?B] by simp
  have hosts: "get_host b ?w2 = Some ?B" "get_host a ?w2 = Some A" using assms(2,3) by simp_all
  have "net_send (Suc (Suc depth)) (a, 0) raw1 w = host_receive (net_send (Suc depth)) b raw1 w"
    by (rule cable_delivers [OF assms(1,4)])
  also have "\<dots> = map_option snd (dhcp_server_dispatch (net_send (Suc depth)) b u (put_host b ?B w))"
    by (rule receive_udp(1) [OF assms(4,8) _ assms(9)]) (use assms(5) all in simp_all)
  also have "dhcp_server_dispatch (net_send (Suc depth)) b u (put_host b ?B w) =
      reply_by_socket (net_send (Suc depth)) b DHCP_SERVER_PORT raw' ?all DHCP_CLIENT_PORT ?w2"
    by (rule dhcp_dispatched [OF _ _ _ raw'(1)]) (use assms(5,9,10,11) in \<open>simp_all add: udp_carried_def\<close>)
  finally have turn: "net_send (Suc (Suc depth)) (a, 0) raw1 w =
      map_option snd (reply_by_socket (net_send (Suc depth)) b DHCP_SERVER_PORT raw' ?all DHCP_CLIENT_PORT ?w2)" .
  let ?send = "net_send (Suc depth)" and ?ports = "\<lambda>i. (sock_table ?w2)[i := udp_sock b (h_ip ?B) DHCP_SERVER_PORT]"
  obtain i where opened: "i \<in> free_fds ?w2"
    "\<forall>w'. send_datagram ?send b ?all DHCP_SERVER_PORT DHCP_CLIENT_PORT raw' (with_socks (?ports i) ?w2) =
         Some (int (length raw'), w') \<longrightarrow> w_socks w' = ?ports i \<longrightarrow>
       reply_by_socket ?send b DHCP_SERVER_PORT raw' ?all DHCP_CLIENT_PORT ?w2 =
         Some (True, w'\<lparr>w_socks := (sock_table ?w2)[i := zero_magi_socket]\<rparr>)"
    by (rule reply_by_socket_opens [OF hosts(1) _ _ raw'(2,3), where send = ?send and port = DHCP_SERVER_PORT
          and dst = ?all and dp = DHCP_CLIENT_PORT]) (use assms(6,7) in simp_all)
  let ?w3 = "with_socks (?ports i) ?w2"
  have hosts3: "get_host b ?w3 = Some ?B" "get_host a ?w3 = Some A" using hosts by simp_all
  obtain raw2 payload2 p' u' where reply:
    "send_datagram ?send b ?all DHCP_SERVER_PORT DHCP_CLIENT_PORT raw' ?w3 = map_option (Pair (int (length raw'))) (?send (b, 0) raw2 ?w3)"
    "framed raw2 mac_broadcast (host_mac ?B) ETHERNET_TYPE_IPV4 payload2"
    "udp_carried payload2 (h_ip ?B) ?all DHCP_SERVER_PORT DHCP_CLIENT_PORT raw' p' u'"
    by (rule broadcast_datagram [OF hosts3(1) raw'(2) all])
  have "?send (b, 0) raw2 ?w3 = host_receive (net_send depth) a raw2 ?w3"
    by (rule cable_delivers [OF cable_sym hosts3(2)]) (use c2 in simp)
  also have "\<dots> = Some (put_host a (udp_noted p' u' A) ?w3)"
    by (rule receive_udp(3) [OF hosts3(2) reply(2) _ reply(3)]) (use all in simp_all)
  finally have "reply_by_socket ?send b DHCP_SERVER_PORT raw' ?all DHCP_CLIENT_PORT ?w2 =
      Some (True, (put_host a (udp_noted p' u' A) ?w3)\<lparr>w_socks := (sock_table ?w2)[i := zero_magi_socket]\<rparr>)"
    using opened(2) reply(1) by simp
  then show ?thesis
    using opened(1) reply(3) raw'(1) turn by (intro that [of i u' raw' p']) (simp_all add: udp_carried_def)
qed

section \<open>The client's turn\<close>

lemma dhcp_exchange:
  assumes "cable a b w" "a \<noteq> b" "get_host a w = Some A" "get_host b w = Some B" "dh_bound_host (w_dhcp w) = Some b" "two_free w"
    and "length raw \<le> UDP_MAX_PAYLOAD" "raw \<noteq> []" "dhcp_message_from_bytes raw = Some m" "dhcp_answers (w_dhcp w) m answer d'"
    and "wf_dhcp_message answer"
  obtains w' p u p' u' raw' where
    "dhcp_client_send_broadcast (net_send (Suc (Suc depth))) a raw w = Some (True, w')"
    "cable a b w'" "get_host a w' = Some (udp_noted p' u' (A\<lparr>h_has_udp := False\<rparr>))" "get_host b w' = Some (udp_noted p u B)"
    "w_dhcp w' = d'" "fds_restored w w'" "udp_src_port u' = DHCP_SERVER_PORT" "udp_payload u' = raw'"
    "dhcp_message_to_bytes answer (DHCP_HEADER_SIZE + DHCP_OPTIONS_SIZE) = Some raw'"
proof -
  let ?all = "ip_init (Octets 255 255 255 255) 0" and ?send = "net_send (Suc (Suc depth))" and ?A = "A\<lparr>h_has_udp := False\<rparr>"
  obtain src where src: "(if h_has_ip A then h_ip A else ip_init (Octets 0 0 0 0) 0) = src" by blast
  have table: "length (sock_table w) = MAGI_SOCKET_MAX_SOCKETS" "free_fds w \<noteq> {}" "\<And>i. free_fds w - {i} \<noteq> {}"
    using assms(6) by (simp_all add: two_free_def)
  obtain i w1 w2 where o: "i \<in> free_fds w" "magi_socket AF_INET SOCK_DGRAM w = (int i, w1)"
    "magi_socket_attach_host (int i) a w1 = (1, w2)" "get_host a w1 = get_host a w" "get_host a w2 = get_host a w"
    "\<forall>ip port. magi_bind (int i) ip port w2 = (1, with_socks ((sock_table w)[i := udp_sock a ip port]) w)"
    by (rule open_udp [OF table(1,2), where n = a and m = a])
  let ?s = "udp_sock a src DHCP_CLIENT_PORT"
  let ?w3 = "put_host a ?A (with_socks ((sock_table w)[i := ?s]) w)"
  have i: "i < MAGI_SOCKET_MAX_SOCKETS" using o(1) by (simp add: free_fds_def)
  have hosts: "get_host a ?w3 = Some ?A" "get_host b ?w3 = Some B" using assms(2,4) by simp_all
  have c3: "cable a b ?w3" by (rule cable_put_host [where h = A]) (use assms(1,3) in simp_all)
  have all: "octet ?all = Octets 255 255 255 255" by (simp add: ip_init_def)
  obtain raw1 payload p u where sent: "send_datagram ?send a ?all DHCP_CLIENT_PORT DHCP_SERVER_PORT raw ?w3 =
      map_option (Pair (int (length raw))) (?send (a, 0) raw1 ?w3)"
    "framed raw1 mac_broadcast (host_mac ?A) ETHERNET_TYPE_IPV4 payload"
    "udp_carried payload (h_ip ?A) ?all DHCP_CLIENT_PORT DHCP_SERVER_PORT raw p u"
    by (rule broadcast_datagram [OF hosts(1) assms(7) all])
  have free3: "free_fds ?w3 = free_fds w - {i}" "sock_table ?w3 = (sock_table w)[i := ?s]"
    using free_after_close(2) [OF table(1) o(1), of a src DHCP_CLIENT_PORT "put_host a ?A w"] by simp_all
  obtain j p' u' raw' where turn: "j \<in> free_fds ?w3" "udp_src_port u' = DHCP_SERVER_PORT" "udp_payload u' = raw'"
    "dhcp_message_to_bytes answer (DHCP_HEADER_SIZE + DHCP_OPTIONS_SIZE) = Some raw'"
    "?send (a, 0) raw1 ?w3 = Some (with_socks ((sock_table ?w3)[j := zero_magi_socket])
        (put_host a (udp_noted p' u' ?A) ((put_host b (udp_noted p u B) ?w3)\<lparr>w_dhcp := d'\<rparr>)))"
    by (rule server_turn [OF c3 assms(2) hosts _ _ _ sent(2,3) assms(9) _ assms(11), where d' = d' and depth = depth])
      (use assms(5,10) table(1,3) free3 in simp_all)
  let ?w4 = "with_socks ((sock_table ?w3)[j := zero_magi_socket])
        (put_host a (udp_noted p' u' ?A) ((put_host b (udp_noted p u B) ?w3)\<lparr>w_dhcp := d'\<rparr>))"
  have ij: "i \<noteq> j" "j \<in> free_fds w" using turn(1) free3(1) by auto
  have s4: "w_socks ?w4 ! i = ?s" using ij i table(1) by simp
  let ?w5 = "?w4\<lparr>w_socks := (w_socks ?w4)[i := zero_magi_socket]\<rparr>"
  have run: "dhcp_client_send_broadcast ?send a raw w = Some (True, ?w5)"
  proof -
    have "magi_sendto ?send (int i) raw ?all DHCP_SERVER_PORT ?w3 = Some (int (length raw), ?w4)"
      using sendto_udp [OF i _ assms(7), of ?w3 a src DHCP_CLIENT_PORT ?send ?all DHCP_SERVER_PORT] i table(1) sent(1) turn(5) by simp
    moreover have "magi_close ?send (int i) ?w4 = Some (1, ?w5)" by (rule close_udp [OF i s4])
    ultimately show ?thesis
      using o assms(3,8) src by (simp add: dhcp_client_send_broadcast_def Let_def)
  qed
  have c5: "cable a b ?w5"
  proof -
    have "cable a b ((put_host b (udp_noted p u B) ?w3)\<lparr>w_dhcp := d'\<rparr>)"
      using cable_put_host [OF c3 hosts(2), of "udp_noted p u B"] by simp
    then have "cable a b (put_host a (udp_noted p' u' ?A) ((put_host b (udp_noted p u B) ?w3)\<lparr>w_dhcp := d'\<rparr>))"
      by (rule cable_put_host [where h = ?A]) (use assms(2) in simp_all)
    then show ?thesis by simp
  qed
  have t5: "sock_table ?w5 = (sock_table w)[i := zero_magi_socket, j := zero_magi_socket]"
    using ij(1) by (simp add: sock_table_def list_update_swap)
  have two: "fds_restored w ?w5" by (rule fds_closed [OF t5 table(1) o(1) ij(2)])
  show ?thesis
    by (rule that [OF run c5 _ _ _ two turn(2-4), where p' = p' and p = p and u = u]) (use assms(2) in simp_all)
qed

section \<open>The leases of the dialogue\<close>

lemma search_octet0: "octet0 (octet (fst (dhcp_search cs ip n))) = octet0 (octet ip)"
proof (induction cs ip n rule: dhcp_search.induct)
  case (1 cs ip n)
  have "octet0 (set_octet3 v q) = octet0 q" for v q by (cases q) simp
  then have "octet0 (octet (with_octet3 ip (n + 1))) = octet0 (octet ip)" by (simp add: with_octet3_def)
  then show ?case using 1 by (simp add: dhcp_search.simps [of cs ip n])
qed

lemma allocated:
  assumes "dhcp_allocate_ip d chaddr = (Some ip, d1)"
  shows "dh_bound_host d1 = dh_bound_host d" "dh_server_ip d1 = dh_server_ip d" "dh_server_ip_set d1 = dh_server_ip_set d"
    "octet0 (octet ip) = octet0 (octet (dh_server_ip d))"
proof -
  have "octet0 (set_octet3 v q) = octet0 q" for v q by (cases q) simp
  then have "octet0 (octet (fst (dhcp_search (dh_clients d) (with_octet3 (dh_server_ip d) (dh_next_ip_octet d)) n))) =
      octet0 (octet (dh_server_ip d))" for n
    by (simp add: search_octet0 with_octet3_def)
  then show "dh_bound_host d1 = dh_bound_host d" "dh_server_ip d1 = dh_server_ip d" "dh_server_ip_set d1 = dh_server_ip_set d"
    "octet0 (octet ip) = octet0 (octet (dh_server_ip d))"
    using assms by (auto simp: dhcp_allocate_ip_def Let_def case_prod_unfold split: if_split_asm option.split_asm)
qed

text \<open>A client without a lease gets one, and only this client has it.\<close>

lemma lease_recorded:
  assumes "dhcp_allocate_ip d chaddr = (Some ip, d1)" "leases_distinct d" "dhcp_client_index d chaddr = None"
    and "\<exists>i < DHCP_MAX_CLIENTS. \<not> dc_in_use (dh_clients d ! i)" "6 \<le> length chaddr"
  shows "leases_distinct d1" "dhcp_get_lease d1 chaddr = Some ip"
proof -
  have len: "length (dh_clients d) = DHCP_MAX_CLIENTS" using assms(2) by (simp add: leases_distinct_def)
  obtain slot where slot: "first_index (\<lambda>i. \<not> dc_in_use (dh_clients d ! i)) DHCP_MAX_CLIENTS = Some slot"
    using assms(4) by (cases "first_index (\<lambda>i. \<not> dc_in_use (dh_clients d ! i)) DHCP_MAX_CLIENTS") auto
  let ?c = "(dh_clients d ! slot)\<lparr>dc_in_use := True, dc_ip := ip, dc_lease_time := 86400,
    dc_chaddr := overwrite 0 (take 6 chaddr) (dc_chaddr (dh_clients d ! slot))\<rparr>"
  have d1: "dh_clients d1 = (dh_clients d)[slot := ?c]"
    using assms(1) slot by (auto simp: dhcp_allocate_ip_def Let_def case_prod_unfold split: if_split_asm)
  have s16: "slot < DHCP_MAX_CLIENTS" using slot by (auto simp: first_index_Some)
  have free: "\<forall>i < DHCP_MAX_CLIENTS. dc_in_use (dh_clients d ! i) \<longrightarrow> octet (dc_ip (dh_clients d ! i)) \<noteq> octet ip"
    using allocate_free [OF assms(1)] by (simp add: not_taken)
  show "leases_distinct d1" by (rule lease_added(1) [OF assms(2) s16 d1]) (use free in simp)
  have "take 6 (dc_chaddr ?c) = take 6 chaddr" using assms(5) by (simp add: overwrite_def)
  moreover have "\<not> (dc_in_use (dh_clients d ! i) \<and> take 6 (dc_chaddr (dh_clients d ! i)) = take 6 chaddr)"
    if "i < DHCP_MAX_CLIENTS" for i
    using assms(3) that by (simp add: dhcp_client_index_def)
  ultimately have "dhcp_client_index d1 chaddr = Some slot"
    unfolding dhcp_client_index_def first_index_Some using s16 len by (auto simp: d1 nth_list_update)
  then show "dhcp_get_lease d1 chaddr = Some ip" using s16 len by (simp add: dhcp_get_lease_def d1)
qed

lemma request_confirms:
  assumes "leases_distinct d" "dh_server_ip_set d" "dhcp_get_lease d (dm_chaddr r) = Some ip" "octet (dhcp_requested_ip r) = octet ip"
  obtains d' where "dhcp_server_handle_request d r = (Some (dhcp_reply (dh_server_ip d) r DHCP_ACK (dhcp_requested_ip r)), d')"
    "leases_distinct d'" "dhcp_get_lease d' (dm_chaddr r) = Some (dhcp_requested_ip r)" "dh_bound_host d' = dh_bound_host d"
proof -
  obtain i where i: "dhcp_client_index d (dm_chaddr r) = Some i" "dc_ip (dh_clients d ! i) = ip"
    using assms(3) by (auto simp: dhcp_get_lease_def)
  have len: "length (dh_clients d) = DHCP_MAX_CLIENTS" using assms(1) by (simp add: leases_distinct_def)
  have i16: "i < DHCP_MAX_CLIENTS" using i(1) by (auto simp: dhcp_client_index_def first_index_Some)
  let ?c = "(dh_clients d ! i)\<lparr>dc_xid := dm_xid r, dc_ip := dhcp_requested_ip r\<rparr>"
  let ?d = "d\<lparr>dh_clients := (dh_clients d)[i := ?c]\<rparr>"
  have nth: "dc_in_use (dh_clients ?d ! j) = dc_in_use (dh_clients d ! j)" "dc_chaddr (dh_clients ?d ! j) = dc_chaddr (dh_clients d ! j)"
    "octet (dc_ip (dh_clients ?d ! j)) = octet (dc_ip (dh_clients d ! j))" for j
    using i16 i(2) assms(4) len by (auto simp: nth_list_update)
  have "leases_distinct ?d" using assms(1) unfolding leases_distinct_def nth by simp
  moreover have "dhcp_client_index ?d (dm_chaddr r) = Some i" using i(1) unfolding dhcp_client_index_def nth .
  then have "dhcp_get_lease ?d (dm_chaddr r) = Some (dhcp_requested_ip r)" using i16 len by (simp add: dhcp_get_lease_def)
  moreover have "dhcp_server_handle_request d r = (Some (dhcp_reply (dh_server_ip d) r DHCP_ACK (dhcp_requested_ip r)), ?d)"
    using assms(2) i(1) by (simp add: dhcp_server_handle_request_def Let_def)
  ultimately show ?thesis by (intro that [of ?d]) simp_all
qed

section \<open>The command\<close>

lemma dhcp_round_answered:
  assumes "cable a b w" "a \<noteq> b" "get_host a w = Some A" "get_host b w = Some B" "dh_bound_host (w_dhcp w) = Some b" "two_free w"
    and "wf_dhcp_message message" "dhcp_answers (w_dhcp w) (dhcp_received message) answer d'"
    and "wf_dhcp_message answer" "dhcp_get_msg_type (dhcp_received answer) = Some (uint expected)"
  obtains w' A' B' where
    "dhcp_round (net_send (Suc (Suc depth))) a message expected t1 t2 t3 t4 w = Some (Inl (dhcp_received answer), w')"
    "cable a b w'" "get_host a w' = Some A'" "h_base A' = h_base A" "get_host b w' = Some B'" "w_dhcp w' = d'" "fds_restored w w'"
proof -
  obtain raw where raw: "dhcp_message_to_bytes message (DHCP_HEADER_SIZE + DHCP_OPTIONS_SIZE) = Some raw"
    "length raw \<le> UDP_MAX_PAYLOAD" "raw \<noteq> []" by (rule dhcp_size [OF assms(7)])
  obtain w' p u p' u' raw' where x: "dhcp_client_send_broadcast (net_send (Suc (Suc depth))) a raw w = Some (True, w')"
    "cable a b w'" "get_host a w' = Some (udp_noted p' u' (A\<lparr>h_has_udp := False\<rparr>))" "get_host b w' = Some (udp_noted p u B)"
    "w_dhcp w' = d'" "fds_restored w w'" "udp_src_port u' = DHCP_SERVER_PORT" "udp_payload u' = raw'"
    "dhcp_message_to_bytes answer (DHCP_HEADER_SIZE + DHCP_OPTIONS_SIZE) = Some raw'"
    by (rule dhcp_exchange [OF assms(1-6) raw(2,3) dhcp_wire_read [OF assms(7) raw(1)] assms(8,9)])
  have "dhcp_round (net_send (Suc (Suc depth))) a message expected t1 t2 t3 t4 w = Some (Inl (dhcp_received answer), w')"
    using raw(1) x(1,3,7,8) dhcp_wire_read [OF assms(9) x(9)] assms(10) by (simp add: dhcp_round_def)
  then show ?thesis by (rule that [OF _ x(2,3) _ x(4,5,6)]) simp
qed

lemma options_keep_all [simp]:
  "dm_chaddr (dhcp_with_options m opts) = dm_chaddr m" "dm_ciaddr (dhcp_with_options m opts) = dm_ciaddr m"
  "dm_siaddr (dhcp_with_options m opts) = dm_siaddr m"
proof -
  have "dm_chaddr (fold (\<lambda>(tag, data) m. snd (dhcp_add_option m tag data)) opts m) = dm_chaddr m \<and>
    dm_ciaddr (fold (\<lambda>(tag, data) m. snd (dhcp_add_option m tag data)) opts m) = dm_ciaddr m \<and>
    dm_siaddr (fold (\<lambda>(tag, data) m. snd (dhcp_add_option m tag data)) opts m) = dm_siaddr m"
    by (induction opts arbitrary: m) (auto simp: dhcp_add_option_def Let_def)
  then show "dm_chaddr (dhcp_with_options m opts) = dm_chaddr m" "dm_ciaddr (dhcp_with_options m opts) = dm_ciaddr m"
    "dm_siaddr (dhcp_with_options m opts) = dm_siaddr m"
    by (simp_all add: dhcp_with_options_def dhcp_finish_options_def)
qed

definition chaddr_of :: "mac_address \<Rightarrow> bytes" where
  "chaddr_of m = overwrite 0 (take 6 (mac_bytes m)) (replicate 16 0)"

lemma chaddr_of_simps [simp]: "length (chaddr_of m) = 16" "take 6 (chaddr_of m) = mac_bytes m"
  by (simp_all add: chaddr_of_def overwrite_def)

lemma client_messages:
  "dm_chaddr (dhcp_received (dhcp_create_discover xid (mac_bytes m))) = chaddr_of m"
  "dm_chaddr (dhcp_received (dhcp_create_request xid (mac_bytes m) ip server)) = chaddr_of m"
  "dm_ciaddr (dhcp_received (dhcp_create_request xid (mac_bytes m) ip server)) = zero_ip\<lparr>octet := octet ip\<rparr>"
  by (simp_all add: dhcp_received_def dhcp_create_discover_def dhcp_create_request_def chaddr_of_def)

lemma client_index_key: "take 6 mac = take 6 mac' \<Longrightarrow> dhcp_client_index d mac = dhcp_client_index d mac'"
  by (simp add: dhcp_client_index_def)

lemma find_typed_rand [simp]: "cli_find_host (s\<lparr>si_rand := k\<rparr>) name = cli_find_host s name"
  by (simp add: cli_find_host_def find_typed_def simulator_find_node_def cong: option.case_cong if_cong)

text \<open>The first round, from DISCOVER to OFFER, and the second, from REQUEST to ACK.\<close>

lemma offer_received:
  assumes "cable a b w" "a \<noteq> b" "get_host a w = Some A" "get_host b w = Some B" "two_free w"
    and "w_dhcp w = d" "dh_bound_host d = Some b" "dh_server_ip_set d" "dhcp_allocate_ip d (chaddr_of (host_mac A)) = (Some ip, d1)"
  obtains offer w1 A1 B1 where
    "dhcp_round (net_send (Suc (Suc depth))) a (dhcp_create_discover xid (mac_bytes (host_mac A))) DHCP_OFFER
       ''discover'' ''DISCOVER'' ''OFFER'' ''OFFER'' w = Some (Inl offer, w1)"
    "dm_yiaddr offer = ip_init (octet ip) 0" "cable a b w1" "get_host a w1 = Some A1" "h_base A1 = h_base A"
    "get_host b w1 = Some B1" "w_dhcp w1 = d1" "fds_restored w w1"
proof -
  let ?disc = "dhcp_create_discover xid (mac_bytes (host_mac A))"
  let ?offer = "dhcp_reply (dh_server_ip d1) (dhcp_received ?disc) DHCP_OFFER ip"
  have wf1: "wf_dhcp_message ?disc" "dhcp_get_msg_type (dhcp_received ?disc) = Some 1" using created_types(1) by simp_all
  have wf2: "wf_dhcp_message ?offer" "dhcp_get_msg_type (dhcp_received ?offer) = Some (uint DHCP_OFFER)"
    using created_types(3) [of "dhcp_received ?disc"] client_messages(1) by simp_all
  have ans1: "dhcp_answers d (dhcp_received ?disc) ?offer d1"
    using wf1(2) assms(8,9) by (simp add: dhcp_answers_def dhcp_server_handle_discover_def client_messages)
  obtain w1 A1 B1 where r1: "dhcp_round (net_send (Suc (Suc depth))) a ?disc DHCP_OFFER ''discover'' ''DISCOVER'' ''OFFER'' ''OFFER'' w =
      Some (Inl (dhcp_received ?offer), w1)"
    "cable a b w1" "get_host a w1 = Some A1" "h_base A1 = h_base A" "get_host b w1 = Some B1" "w_dhcp w1 = d1" "fds_restored w w1"
    by (rule dhcp_round_answered [OF assms(1-4) _ assms(5) wf1(1) _ wf2, where d' = d1 and depth = depth]) (use assms(6,7) ans1 in simp_all)
  have "dm_yiaddr (dhcp_received ?offer) = ip_init (octet ip) 0"
    by (simp add: dhcp_received_def dhcp_reply_def zero_ip_def ip_init_def)
  then show ?thesis by (rule that [OF r1(1) _ r1(2-)])
qed

lemma ack_received:
  assumes "cable a b w" "a \<noteq> b" "get_host a w = Some A" "get_host b w = Some B" "two_free w"
    and "w_dhcp w = d" "dh_bound_host d = Some b" "dh_server_ip_set d" "leases_distinct d"
    and "dhcp_get_lease d (chaddr_of (host_mac A)) = Some ip" "octet0 (octet ip) \<noteq> 0"
  obtains ack w2 A2 B2 where
    "dhcp_round (net_send (Suc (Suc depth))) a (dhcp_create_request xid (mac_bytes (host_mac A)) (ip_init (octet ip) 0) server) DHCP_ACK
       ''REQUEST'' ''REQUEST'' ''ACK'' ''ACK'' w = Some (Inl ack, w2)"
    "dm_yiaddr ack = ip_init (octet ip) 0" "get_host a w2 = Some A2" "fds_restored w w2"
    "leases_distinct (w_dhcp w2)" "dhcp_get_lease (w_dhcp w2) (chaddr_of (host_mac A)) = Some (ip_init (octet ip) 0)"
proof -
  let ?ip = "ip_init (octet ip) 0" let ?req = "dhcp_create_request xid (mac_bytes (host_mac A)) ?ip server"
  have wf3: "wf_dhcp_message ?req" "dhcp_get_msg_type (dhcp_received ?req) = Some 3" using created_types(2) by simp_all
  have wanted: "dhcp_requested_ip (dhcp_received ?req) = ?ip" "dm_chaddr (dhcp_received ?req) = chaddr_of (host_mac A)"
    using assms(11) by (simp_all add: dhcp_requested_ip_def client_messages zero_ip_def ip_init_def)
  let ?ack = "dhcp_reply (dh_server_ip d) (dhcp_received ?req) DHCP_ACK ?ip"
  obtain d2 where d2: "dhcp_server_handle_request d (dhcp_received ?req) = (Some ?ack, d2)"
    "leases_distinct d2" "dhcp_get_lease d2 (chaddr_of (host_mac A)) = Some ?ip" "dh_bound_host d2 = dh_bound_host d"
    by (rule request_confirms [OF assms(9), where r = "dhcp_received ?req" and ip = ip])
      (use assms(8,10) wanted in \<open>simp_all add: ip_init_def\<close>)
  have wf4: "wf_dhcp_message ?ack" "dhcp_get_msg_type (dhcp_received ?ack) = Some (uint DHCP_ACK)"
    using created_types(3) [of "dhcp_received ?req"] wanted(2) by simp_all
  obtain w2 A2 B2 where r2: "dhcp_round (net_send (Suc (Suc depth))) a ?req DHCP_ACK ''REQUEST'' ''REQUEST'' ''ACK'' ''ACK'' w =
      Some (Inl (dhcp_received ?ack), w2)"
    "cable a b w2" "get_host a w2 = Some A2" "h_base A2 = h_base A" "get_host b w2 = Some B2" "w_dhcp w2 = d2" "fds_restored w w2"
    by (rule dhcp_round_answered [OF assms(1-4) _ assms(5) wf3(1) _ wf4, where d' = d2 and depth = depth])
      (use assms(6,7) wf3(2) d2(1) in \<open>simp_all add: dhcp_answers_def\<close>)
  have "dm_yiaddr (dhcp_received ?ack) = ?ip" by (simp add: dhcp_received_def dhcp_reply_def zero_ip_def ip_init_def)
  then show ?thesis using r2 d2 by (intro that [of "dhcp_received ?ack" w2 A2]) simp_all
qed

text \<open>C5. \<^verbatim>\<open>dhcp_discover\<close> gets the host an address. The host is on a cable without delay with the host the DHCP
  server runs on, and at least two socket descriptors are free; the server's address is set and does not begin with 0, no two
  of its clients hold the same address, it has an address to offer and a free place in its table, and the host's hardware address has no
  lease yet. The command returns and prints that the offer of this address was received, that it was requested and that the lease was acquired; the host
  has the address offered, the server's table holds this address as the lease of the host's
  hardware address, no two clients hold the same address, exactly the descriptors that were free are
  free again, and the sockets that were in use are untouched. The prefix of the address is zero: the mask and the gateway that the server sends
  are not used. Two nested sends are enough.\<close>

theorem dhcp_lease_acquired:
  assumes "cli_find_host s name = Some (Some a)" "cable a b (si_world s)" "a \<noteq> b"
    and "get_host a (si_world s) = Some A" "get_host b (si_world s) = Some B" "two_free (si_world s)"
    and "w_dhcp (si_world s) = d" "dh_bound_host d = Some b" "dh_server_ip_set d" "octet0 (octet (dh_server_ip d)) \<noteq> 0"
    and "leases_distinct d" "dhcp_client_index d (mac_bytes (host_mac A)) = None" "\<exists>i < DHCP_MAX_CLIENTS. \<not> dc_in_use (dh_clients d ! i)"
    and "dhcp_allocate_ip d (chaddr_of (host_mac A)) = (Some ip, d1)"
  shows "\<exists>s' A'. cmd_dhcp_discover (net_send (depth + 2)) rnd [name, ''dhcp_discover''] s = Some (
      println (host_name A @ '' DHCP Discover (xid='' @ decimal (unat (rnd (si_rand s)) mod 100000) @ '')...'') @
      println (host_name A @ '' Received OFFER for '' @ ip_to_string ip 20 False) @
      println (host_name A @ '' DHCP Request for '' @ ip_to_string ip 20 False @ ''...'') @
      println (host_name A @ '' DHCP lease acquired: '' @ ip_to_string ip 20 False), s') \<and>
    get_host a (si_world s') = Some A' \<and> h_has_ip A' \<and> h_ip A' = ip_init (octet ip) 0 \<and>
    dhcp_get_lease (w_dhcp (si_world s')) (mac_bytes (host_mac A)) = Some (h_ip A') \<and>
    leases_distinct (w_dhcp (si_world s')) \<and> fds_restored (si_world s) (si_world s')"
proof -
  let ?mac = "mac_bytes (host_mac A)" and ?send = "net_send (Suc (Suc depth))" and ?ip = "ip_init (octet ip) 0"
  define xid :: u32 where "xid = of_nat (unat (rnd (si_rand s)) mod 100000)"
  define s0 where "s0 = s\<lparr>si_rand := si_rand s + 1\<rparr>"
  note a = allocated [OF assms(14)]
  have key: "dhcp_client_index d (chaddr_of (host_mac A)) = dhcp_client_index d ?mac" for d
    using client_index_key [of "chaddr_of (host_mac A)" ?mac] by simp
  have leases: "leases_distinct d1" "dhcp_get_lease d1 (chaddr_of (host_mac A)) = Some ip"
    using lease_recorded [OF assms(14,11) _ assms(13)] assms(12) key by simp_all
  obtain offer w1 A1 B1 where r1: "dhcp_round ?send a (dhcp_create_discover xid ?mac) DHCP_OFFER ''discover'' ''DISCOVER'' ''OFFER'' ''OFFER''
      (si_world s) = Some (Inl offer, w1)"
    "dm_yiaddr offer = ?ip" "cable a b w1" "get_host a w1 = Some A1" "h_base A1 = h_base A" "get_host b w1 = Some B1" "w_dhcp w1 = d1"
    "fds_restored (si_world s) w1"
    by (rule offer_received [OF assms(2-9,14), where depth = depth and xid = xid])
  have two: "two_free w1" using assms(6) fds_restored_two [OF r1(8)] by simp
  have mac: "host_mac A1 = host_mac A" using r1(5) by (simp add: host_mac_def)
  obtain ack w2 A2 where r2: "dhcp_round ?send a (dhcp_create_request xid ?mac ?ip (dm_siaddr offer)) DHCP_ACK ''REQUEST'' ''REQUEST'' ''ACK'' ''ACK''
      w1 = Some (Inl ack, w2)"
    "dm_yiaddr ack = ?ip" "get_host a w2 = Some A2" "fds_restored w1 w2" "leases_distinct (w_dhcp w2)"
    "dhcp_get_lease (w_dhcp w2) (chaddr_of (host_mac A)) = Some ?ip"
    by (rule ack_received [OF r1(3) assms(3) r1(4,6) two r1(7), where depth = depth and xid = xid and ip = ip and server = "dm_siaddr offer"])
      (use a assms(8-10) leases mac in simp_all)
  let ?w3 = "put_host a (A2\<lparr>h_ip := ?ip, h_has_ip := True\<rparr>) w2"
  have "cmd_dhcp_discover ?send rnd [name, ''dhcp_discover''] s = Some (
      println (host_name A @ '' DHCP Discover (xid='' @ decimal (unat (rnd (si_rand s)) mod 100000) @ '')...'') @
      println (host_name A @ '' Received OFFER for '' @ ip_to_string ?ip 20 False) @
      println (host_name A @ '' DHCP Request for '' @ ip_to_string ?ip 20 False @ ''...'') @
      println (host_name A @ '' DHCP lease acquired: '' @ ip_to_string ?ip 20 False), s0\<lparr>si_world := ?w3\<rparr>)"
    using assms(1,4) r1(1,2) r2(1-3)
    by (simp add: cmd_dhcp_discover_def draw_def with_host_def keep_def Let_def s0_def xid_def host_mac_def)
  moreover have "dhcp_get_lease (w_dhcp w2) ?mac = Some ?ip" using r2(6) key by (simp add: dhcp_get_lease_def)
  moreover have "fds_restored (si_world s) ?w3" using fds_restored_trans [OF r1(8) r2(4)] by simp
  moreover have "ip_to_string ?ip 20 False = ip_to_string ip 20 False"
    by (cases "octet ip") (simp add: ip_to_string_def ip_init_def Let_def)
  ultimately show ?thesis using r2(5) by (intro exI [of _ "s0\<lparr>si_world := ?w3\<rparr>"] exI [of _ "A2\<lparr>h_ip := ?ip, h_has_ip := True\<rparr>"]) (simp add: s0_def)
qed

text \<open>The witness: H1 has no address, and the DHCP server runs on 10.0.0.2.\<close>

lemma allocate_initial:
  "\<exists>d1. dhcp_allocate_ip (dhcp_server_init d) chaddr = (Some (with_octet3 (dh_server_ip d) 20), d1)"
proof -
  let ?d = "dhcp_server_init d"
  have free: "\<not> dhcp_taken (dh_clients ?d) ip" for ip
    by (simp add: not_taken dhcp_server_init_def zero_dhcp_client_def)
  have "first_index (\<lambda>i. \<not> dc_in_use (dh_clients ?d ! i)) DHCP_MAX_CLIENTS \<noteq> None"
    by (auto simp: dhcp_server_init_def zero_dhcp_client_def intro!: exI [of _ 0])
  then obtain i where i: "first_index (\<lambda>i. \<not> dc_in_use (dh_clients ?d ! i)) DHCP_MAX_CLIENTS = Some i" by blast
  have "dhcp_search (dh_clients ?d) ip n = (ip, n)" for ip n
    using free by (subst dhcp_search.simps) simp
  then show ?thesis
    using i by (simp add: dhcp_allocate_ip_def Let_def del: first_index_None) (simp add: dhcp_server_init_def)
qed

theorem dhcp_lease_acquired_witness:
  "\<exists>s text s' A'. cmd_dhcp_discover (net_send 2) (\<lambda>_. 7) [''H1'', ''dhcp_discover''] s = Some (text, s') \<and>
    get_host 0 (si_world s') = Some A' \<and> h_has_ip A' \<and> h_ip A' = ip_init (Octets 10 0 0 20) 0"
proof -
  let ?A = "(cabled_host 0 1)\<lparr>h_has_ip := False\<rparr>" and ?B = "cabled_host 1 2"
  let ?d = "dhcp_server_init ((undefined :: dhcp_state)\<lparr>dh_server_ip := h_ip ?B, dh_server_ip_set := True, dh_bound_host := Some 1\<rparr>)"
  let ?w = "cabled_world ?A ?B ((undefined :: world)\<lparr>w_dhcp := ?d\<rparr>)"
  have w: "cable 0 1 ?w" "get_host 0 ?w = Some ?A" "get_host 1 ?w = Some ?B" "two_free ?w"
    by (rule cabled_world [of _ 1 _ 2]; simp)+
  obtain d1 where d1: "dhcp_allocate_ip ?d (chaddr_of (host_mac ?A)) = (Some (with_octet3 (h_ip ?B) 20), d1)"
    using allocate_initial [of "(undefined :: dhcp_state)\<lparr>dh_server_ip := h_ip ?B, dh_server_ip_set := True, dh_bound_host := Some 1\<rparr>"
        "chaddr_of (host_mac ?A)"] by auto
  have d: "w_dhcp ?w = ?d" "dh_bound_host ?d = Some 1" "dh_server_ip_set ?d" "dh_server_ip ?d = h_ip ?B"
    by (simp_all add: cabled_world_def dhcp_server_init_def)
  have "octet0 (octet (dh_server_ip ?d)) \<noteq> 0" unfolding d(4) unfolding cabled_host_simps by (simp add: ip_init_def)
  moreover have "dhcp_client_index ?d mac = None" for mac
    by (simp add: dhcp_client_index_def dhcp_server_init_def zero_dhcp_client_def)
  moreover have "\<exists>i < DHCP_MAX_CLIENTS. \<not> dc_in_use (dh_clients ?d ! i)"
    by (auto simp: dhcp_server_init_def zero_dhcp_client_def intro!: exI [of _ 0])
  ultimately have "\<exists>s' A'. cmd_dhcp_discover (net_send (0 + 2)) (\<lambda>_. 7) [''H1'', ''dhcp_discover''] (two_hosts ?w) = Some (
      println (host_name ?A @ '' DHCP Discover (xid='' @ decimal (unat (7 :: u32) mod 100000) @ '')...'') @
      println (host_name ?A @ '' Received OFFER for '' @ ip_to_string (with_octet3 (h_ip ?B) 20) 20 False) @
      println (host_name ?A @ '' DHCP Request for '' @ ip_to_string (with_octet3 (h_ip ?B) 20) 20 False @ ''...'') @
      println (host_name ?A @ '' DHCP lease acquired: '' @ ip_to_string (with_octet3 (h_ip ?B) 20) 20 False), s') \<and>
      get_host 0 (si_world s') = Some A' \<and> h_has_ip A' \<and> h_ip A' = ip_init (octet (with_octet3 (h_ip ?B) 20)) 0 \<and>
      dhcp_get_lease (w_dhcp (si_world s')) (mac_bytes (host_mac ?A)) = Some (h_ip A') \<and>
      leases_distinct (w_dhcp (si_world s')) \<and> fds_restored (si_world (two_hosts ?w)) (si_world s')"
    by (intro dhcp_lease_acquired [where b = 1 and B = ?B and d = ?d and ?d1.0 = d1]) (use w d d1 init_distinct in simp_all)
  moreover have "octet (with_octet3 (h_ip ?B) 20) = Octets 10 0 0 20"
    by (simp add: with_octet3_def cabled_host_simps ip_init_def)
  ultimately show ?thesis by (metis add_0)
qed

end
