(* ===== verification/Dns_Dialogue.thy ===== *)
theory Dns_Dialogue
  imports Two_Hosts Dns_Names
begin

text \<open>
  A name is resolved over the cable: the command of the user, the query through a socket of the client, the
  answer through a socket of the server, and the address the client reads from it.
\<close>

declare net_send.simps(2) [simp del]

lemma sock_table_clock [simp]: "sock_table (w\<lparr>w_clock := c\<rparr>) = sock_table w" "free_fds (w\<lparr>w_clock := c\<rparr>) = free_fds w"
  by (simp_all add: sock_table_def free_fds_def)

lemma dns_simps [simp]:
  "w_dns (put_node n nd w) = w_dns w" "w_dns (with_socks ss w) = w_dns w" "w_dns (w\<lparr>w_clock := c\<rparr>) = w_dns w"
  by (simp_all add: put_node_def)

section \<open>The server's turn\<close>

lemma dns_server_turn:
  assumes "neighbours a b A B w" "acquainted A B" "dn_bound_host (w_dns w) = Some b"
    and "length (sock_table w) = MAGI_SOCKET_MAX_SOCKETS" "free_fds w \<noteq> {}"
    and "framed raw (host_mac B) (host_mac A) ETHERNET_TYPE_IPV4 payload"
    and "udp_carried payload (h_ip A) (h_ip B) port DNS_SERVER_PORT query p u" "port \<noteq> DHCP_SERVER_PORT" "port \<noteq> DNS_SERVER_PORT"
    and "dns_server_handle_query (w_dns w) query 1024 = Some (Some response)" "length response \<le> UDP_MAX_PAYLOAD" "response \<noteq> []"
  obtains i p' u' where "i \<in> free_fds w" "udp_dst_port u' = port" "udp_payload u' = response"
    "net_send (Suc (Suc depth)) (a, 0) raw w =
      Some (with_socks ((sock_table w)[i := zero_magi_socket]) (put_host a (udp_noted p' u' A) (put_host b (udp_noted p u B) w)))"
proof -
  note n = assms(1) [unfolded neighbours_def] and k = assms(2) [unfolded acquainted_def] and u = assms(7) [unfolded udp_carried_def]
  let ?B = "udp_noted p u B" and ?send = "net_send (Suc depth)" and ?dst = "ip4_src p"
  let ?w2 = "put_host b ?B w"
  have src: "octet ?dst = octet (h_ip A)" using u by simp
  have c2: "cable a b ?w2" by (rule cable_put_host [where h = B]) (use n in simp_all)
  have hosts: "get_host b ?w2 = Some ?B" "get_host a ?w2 = Some A" using n by simp_all
  have "net_send (Suc (Suc depth)) (a, 0) raw w = host_receive ?send b raw w"
    by (rule cable_delivers) (use n in simp_all)
  also have "\<dots> = map_option snd (dns_server_dispatch ?send b u ?dst port ?w2)"
    by (rule receive_udp(2) [OF _ assms(6) _ assms(7)]) (use n assms(3) in simp_all)
  also have "dns_server_dispatch ?send b u ?dst port ?w2 = reply_by_socket ?send b DNS_SERVER_PORT response ?dst port ?w2"
    using assms(3,10) u by (simp add: dns_server_dispatch_def)
  finally have turn: "net_send (Suc (Suc depth)) (a, 0) raw w =
      map_option snd (reply_by_socket ?send b DNS_SERVER_PORT response ?dst port ?w2)" .
  let ?ports = "\<lambda>i. (sock_table ?w2)[i := udp_sock b (h_ip ?B) DNS_SERVER_PORT]"
  obtain i where opened: "i \<in> free_fds ?w2"
    "\<forall>w'. send_datagram ?send b ?dst DNS_SERVER_PORT port response (with_socks (?ports i) ?w2) = Some (int (length response), w') \<longrightarrow>
       w_socks w' = ?ports i \<longrightarrow>
       reply_by_socket ?send b DNS_SERVER_PORT response ?dst port ?w2 =
         Some (True, w'\<lparr>w_socks := (sock_table ?w2)[i := zero_magi_socket]\<rparr>)"
    by (rule reply_by_socket_opens [OF hosts(1) _ _ assms(11,12), where send = ?send and port = DNS_SERVER_PORT
          and dst = ?dst and dp = port]) (use assms(4,5) in simp_all)
  let ?w3 = "with_socks (?ports i) ?w2"
  have hosts3: "get_host b ?w3 = Some ?B" "get_host a ?w3 = Some A" using hosts by simp_all
  obtain raw2 payload2 p' u' where reply:
    "send_datagram ?send b ?dst DNS_SERVER_PORT port response ?w3 = map_option (Pair (int (length response))) (?send (b, 0) raw2 ?w3)"
    "framed raw2 (host_mac A) (host_mac ?B) ETHERNET_TYPE_IPV4 payload2"
    "udp_carried payload2 (h_ip ?B) ?dst DNS_SERVER_PORT port response p' u'"
    by (rule datagram_to_neighbour [OF hosts3(1) _ assms(11), where dst = ?dst and mac = "host_mac A"])
      (use n k same_octets [OF src] in simp_all)
  have "?send (b, 0) raw2 ?w3 = host_receive (net_send depth) a raw2 ?w3"
    by (rule cable_delivers [OF cable_sym hosts3(2)]) (use c2 in simp)
  also have "\<dots> = Some (put_host a (udp_noted p' u' A) ?w3)"
    by (rule receive_udp(3) [OF hosts3(2) reply(2) _ reply(3)]) (use n src assms(8,9) in simp_all)
  finally have "reply_by_socket ?send b DNS_SERVER_PORT response ?dst port ?w2 =
      Some (True, (put_host a (udp_noted p' u' A) ?w3)\<lparr>w_socks := (sock_table ?w2)[i := zero_magi_socket]\<rparr>)"
    using opened(2) reply(1) by simp
  then show ?thesis
    using opened(1) reply(3) turn by (intro that [of i u' p']) (simp_all add: udp_carried_def)
qed

section \<open>The client's turn\<close>

lemma dns_exchange:
  assumes "neighbours a b A B w" "acquainted A B \<or> strangers A B" "two_free w" "dn_bound_host (w_dns w) = Some b"
    and "length query \<le> UDP_MAX_PAYLOAD" "query \<noteq> []"
    and "dns_server_handle_query (w_dns w) query 1024 = Some (Some response)" "length response \<le> 512" "response \<noteq> []"
    and "dns_parse_response response = Some answer"
  obtains w' A' B' where "cli_dns_exchange (net_send (Suc (Suc (Suc (Suc depth))))) a query (h_ip B) w = Some (answer, w')"
    "get_host a w' = Some A'" "get_host b w' = Some B'" "acquainted A' B'" "fds_restored w w'" "w_dns w' = w_dns w"
proof -
  let ?send = "net_send (Suc (Suc (Suc (Suc depth))))" and ?A = "A\<lparr>h_has_udp := False\<rparr>"
  note n = assms(1) [unfolded neighbours_def]
  have table: "length (sock_table w) = MAGI_SOCKET_MAX_SOCKETS" "free_fds w \<noteq> {}" "\<And>i. free_fds w - {i} \<noteq> {}"
    using assms(3) by (simp_all add: two_free_def)
  obtain i w1 w2 where o: "i \<in> free_fds w" "magi_socket AF_INET SOCK_DGRAM w = (int i, w1)"
    "magi_socket_attach_host (int i) a w1 = (1, w2)" "get_host a w1 = get_host a w" "get_host a w2 = get_host a w"
    "\<forall>ip port. magi_bind (int i) ip port w2 = (1, with_socks ((sock_table w)[i := udp_sock a ip port]) w)"
    by (rule open_udp [OF table(1,2), where n = a and m = a])
  let ?s = "udp_sock a (h_ip A) 5353"
  let ?w3 = "put_host a ?A (with_socks ((sock_table w)[i := ?s]) w)"
  have i: "i < MAGI_SOCKET_MAX_SOCKETS" using o(1) by (simp add: free_fds_def)
  have free3: "free_fds ?w3 = free_fds w - {i}" "sock_table ?w3 = (sock_table w)[i := ?s]"
    using free_after_close(2) [OF table(1) o(1), of a "h_ip A" 5353 "put_host a ?A w"] by simp_all
  have A: "h_base ?A = h_base A" "host_mac ?A = host_mac A" "host_is_same_subnet ?A = host_is_same_subnet A" "wf_host ?A = wf_host A"
    by (simp_all add: host_mac_def host_is_same_subnet_def fun_eq_iff wf_host_def)
  have "cable a b ?w3" by (rule cable_put_host [where h = A]) (use n in simp_all)
  then have n3: "neighbours a b ?A B ?w3" using n A by (simp add: neighbours_def)
  have k3: "acquainted ?A B \<or> strangers ?A B"
    using assms(2) by (simp add: acquainted_def strangers_def host_find_pending_for_ip_def host_mac_def)
  obtain w4 A4 B4 raw payload p u c where contact: "neighbours a b A4 B4 w4" "acquainted A4 B4" "like ?A A4" "like B B4"
    "w4 = put_host a A4 (put_host b B4 (?w3\<lparr>w_clock := c\<rparr>))"
    "framed raw (host_mac B) (host_mac ?A) ETHERNET_TYPE_IPV4 payload" "udp_carried payload (h_ip ?A) (h_ip B) 5353 DNS_SERVER_PORT query p u"
    "\<forall>w5 A5. net_send (Suc (Suc depth)) (a, 0) raw w4 = Some w5 \<longrightarrow> get_host a w5 = Some A5 \<longrightarrow> h_queue A5 = h_queue A4 \<longrightarrow>
       arp_table_get (h_arp A5) (h_ip B) \<noteq> None \<longrightarrow>
       (\<exists>q. send_datagram ?send a (h_ip B) 5353 DNS_SERVER_PORT query ?w3 =
         Some (int (length query), put_host a (A5\<lparr>h_queue := q\<rparr>) w5))"
    by (rule datagram_contact [OF n3 k3 assms(5) refl, where sp = 5353 and dp = DNS_SERVER_PORT and depth = depth])
  note likes = like_simps [OF contact(3)] like_simps [OF contact(4)]
  have t4: "sock_table w4 = (sock_table w)[i := ?s]" "w_dns w4 = w_dns w" unfolding contact(5) by simp_all
  have f4: "free_fds w4 = free_fds w - {i}" using free3 t4(1) unfolding free_fds_def by simp
  obtain j p' u' where turn: "j \<in> free_fds w4" "udp_dst_port u' = 5353" "udp_payload u' = response"
    "net_send (Suc (Suc depth)) (a, 0) raw w4 =
      Some (with_socks ((sock_table w4)[j := zero_magi_socket]) (put_host a (udp_noted p' u' A4) (put_host b (udp_noted p u B4) w4)))"
    by (rule dns_server_turn [OF contact(1,2), where raw = raw and payload = payload and port = 5353 and query = query
          and p = p and u = u and response = response and depth = depth])
      (use contact(6,7) assms(4,7-9) table(1,3) t4 f4 likes in simp_all)
  let ?w5 = "with_socks ((sock_table w4)[j := zero_magi_socket]) (put_host a (udp_noted p' u' A4) (put_host b (udp_noted p u B4) w4))"
  have ij: "i \<noteq> j" "j \<in> free_fds w" using turn(1) f4 by auto
  have arp: "arp_table_get (h_arp A4) (h_ip B) \<noteq> None" using contact(2) likes by (simp add: acquainted_def)
  obtain q where q: "send_datagram ?send a (h_ip B) 5353 DNS_SERVER_PORT query ?w3 =
      Some (int (length query), put_host a ((udp_noted p' u' A4)\<lparr>h_queue := q\<rparr>) ?w5)"
    using contact(8) turn(4) arp by fastforce
  let ?A5 = "(udp_noted p' u' A4)\<lparr>h_queue := q\<rparr>"
  let ?w6 = "put_host a (?A5\<lparr>h_has_udp := False\<rparr>) ?w5"
  let ?w7 = "?w6\<lparr>w_socks := (w_socks ?w6)[i := zero_magi_socket]\<rparr>"
  have s5: "w_socks ?w5 ! i = ?s" using ij i table(1) t4(1) by simp
  have sent: "magi_sendto ?send (int i) query (h_ip B) DNS_SERVER_PORT ?w3 = Some (int (length query), put_host a ?A5 ?w5)"
    using sendto_udp [OF i _ assms(5), of ?w3 a "h_ip A" 5353 ?send "h_ip B" DNS_SERVER_PORT] i table(1) q by simp
  have got: "magi_recvfrom (int i) 512 (put_host a ?A5 ?w5) =
      Some (int (length response), Some (response, ip4_src p', udp_src_port u'), ?w6)"
    using i s5 turn(2,3) assms(8) by (simp add: magi_recvfrom_def valid_fd_def)
  have closed: "magi_close ?send (int i) ?w6 = Some (1, ?w7)"
    by (rule close_udp [OF i]) (use s5 in simp)
  have run: "cli_dns_exchange ?send a query (h_ip B) w = Some (answer, ?w7)"
    using o n assms(6,9,10) sent got closed by (simp add: cli_dns_exchange_def Let_def)
  have t7: "sock_table ?w7 = (sock_table w)[i := zero_magi_socket, j := zero_magi_socket]"
    using ij(1) t4(1) by (simp add: sock_table_def list_update_swap)
  have two: "fds_restored w ?w7" by (rule fds_closed [OF t7 table(1) o(1) ij(2)])
  show ?thesis
    by (rule that [OF run, of "?A5\<lparr>h_has_udp := False\<rparr>" "udp_noted p u B4", OF _ _ _ two]) (use n contact(2) t4(2) in \<open>simp_all add: acquainted_def host_mac_def\<close>)
qed

section \<open>The command\<close>

lemma ip_text_octets: "ip_to_string (ip_init (octet ip) k) n False = ip_to_string ip n False"
  by (cases "octet ip") (simp add: ip_to_string_def ip_init_def Let_def)

text \<open>C6. \<^verbatim>\<open>dns_resolve\<close> answers what the server's table says. The host is on a cable without delay with
  the host the DNS server runs on; both have addresses of one subnet, none of them the broadcast address; they know each other's
  hardware addresses, or neither the address table and the queue of the client nor the table of the server are full, the client does
  not know the server and nothing waits for it; and at least two socket descriptors are free. For a
  name of labels of 1 to 63 characters that fits the name buffer, the command returns and prints the
  address that the table has for it, or that there is none. Afterwards both hosts know each
  other, the table of names is the same, exactly the descriptors that were free are free again, and the sockets that were in use are
  untouched. Four nested sends are enough.\<close>

theorem name_resolved:
  assumes "cli_find_host s name = Some (Some a)" "neighbours a b A B (si_world s)" "acquainted A B \<or> strangers A B"
    and "two_free (si_world s)" "dn_bound_host (w_dns (si_world s)) = Some b"
    and "\<forall>l \<in> set ls. dns_label l" "length (wire_labels ls) < 255"
  shows "\<exists>s' A' B'. cmd_dns_resolve (net_send (depth + 4)) rnd [name, ''dns_resolve'', dotted_name ls] s =
      Some (println (case dns_server_resolve (dotted_name ls) (w_dns (si_world s)) of
          None \<Rightarrow> ''[DNS] No response or NXDOMAIN for: '' @ dotted_name ls
        | Some ip \<Rightarrow> ''[DNS] '' @ dotted_name ls @ '' -> '' @ ip_to_string ip 20 False), s') \<and>
    get_host a (si_world s') = Some A' \<and> get_host b (si_world s') = Some B' \<and> acquainted A' B' \<and>
    w_dns (si_world s') = w_dns (si_world s) \<and> fds_restored (si_world s) (si_world s')"
proof -
  let ?send = "net_send (Suc (Suc (Suc (Suc depth))))" and ?w = "si_world s" and ?name = "dotted_name ls"
  let ?ident = "of_nat (unat (rnd (si_rand s)) mod 0xFFFF + 1) :: u16" and ?found = "dns_server_resolve ?name (w_dns ?w)"
  note n = assms(2) [unfolded neighbours_def]
  define s0 where "s0 = s\<lparr>si_rand := si_rand s + 1\<rparr>"
  obtain query where query: "dns_create_query 512 ?ident ?name = Some query" "length query \<le> UDP_MAX_PAYLOAD" "query \<noteq> []"
    using encode_name [OF assms(6,7)] assms(7) by (simp add: dns_create_query_def write_u16_be_def)
  obtain response where response: "dns_server_handle_query (w_dns ?w) query 1024 = Some (Some response)"
    "length response \<le> 512" "response \<noteq> []" "dns_parse_response response = Some (map_option (\<lambda>ip. ip_init (octet ip) 0) ?found)"
    using lookup_answered [OF assms(6,7) query(1)] by blast
  obtain w' A' B' where run: "cli_dns_exchange ?send a query (h_ip B) ?w = Some (map_option (\<lambda>ip. ip_init (octet ip) 0) ?found, w')"
    "get_host a w' = Some A'" "get_host b w' = Some B'" "acquainted A' B'" "fds_restored ?w w'" "w_dns w' = w_dns ?w"
    by (rule dns_exchange [OF assms(2-5) query(2,3) response, where depth = depth])
  have asked: "cli_dns_query ?send rnd a ?name (h_ip B) s = Some (map_option (\<lambda>ip. ip_init (octet ip) 0) ?found, s0\<lparr>si_world := w'\<rparr>)"
    using n query(1) run(1) by (simp add: cli_dns_query_def draw_def s0_def)
  have "dns_bound_ip ?w = Some (Some (h_ip B))" using assms(5) n by (simp add: dns_bound_ip_def)
  then have "cmd_dns_resolve ?send rnd [name, ''dns_resolve'', ?name] s =
      Some (println (case ?found of None \<Rightarrow> ''[DNS] No response or NXDOMAIN for: '' @ ?name
        | Some ip \<Rightarrow> ''[DNS] '' @ ?name @ '' -> '' @ ip_to_string ip 20 False), s0\<lparr>si_world := w'\<rparr>)"
    using assms(1) n asked by (cases ?found) (simp_all add: cmd_dns_resolve_def with_host_def say_def ip_text_octets)
  moreover have "net_send (depth + 4) = ?send" by (simp add: numeral_eq_Suc)
  ultimately show ?thesis
    using run(2-) by (intro exI [of _ "s0\<lparr>si_world := w'\<rparr>"] exI [of _ A'] exI [of _ B']) (simp add: s0_def)
qed

theorem name_resolved_witness:
  "\<exists>s s'. cmd_dns_resolve (net_send 4) (\<lambda>_. 7) [''H1'', ''dns_resolve'', ''magi.com''] s =
    Some (println ''[DNS] magi.com -> 10.0.0.5'', s')"
proof -
  let ?d = "\<lparr>dn_table = [(''magi.com'', ip_init (Octets 10 0 0 5) 24)], dn_bound_host = Some 1\<rparr>"
  let ?s = "two_hosts (cabled_world (cabled_host 0 1) (cabled_host 1 2) ((undefined :: world)\<lparr>w_dns := ?d\<rparr>))"
  let ?ls = "[''magi'', ''com'']"
  have 1: "\<forall>l \<in> set ?ls. dns_label l" "length (wire_labels ?ls) < 255" by (simp_all add: dns_label_def)
  have name: "dotted_name ?ls = ''magi.com''" by simp
  have d: "w_dns (si_world ?s) = ?d" by (simp add: cabled_world_def)
  have two: "two_free (si_world ?s)" unfolding two_hosts by (rule cabled_world(4) [of _ 1 _ 2]) simp_all
  have "neighbours 0 1 (cabled_host 0 1) (cabled_host 1 2) (si_world ?s)"
    unfolding two_hosts by (rule cabled_strangers)
  from name_resolved [OF two_hosts(2) this disjI2 [OF cabled_strangers(2)] two _ 1, of 0 "\<lambda>_. 7"]
  have "\<exists>s'. cmd_dns_resolve (net_send (0 + 4)) (\<lambda>_. 7) [''H1'', ''dns_resolve'', ''magi.com''] ?s =
      Some (println (case dns_server_resolve ''magi.com'' ?d of
          None \<Rightarrow> ''[DNS] No response or NXDOMAIN for: '' @ ''magi.com''
        | Some ip \<Rightarrow> ''[DNS] '' @ ''magi.com'' @ '' -> '' @ ip_to_string ip 20 False), s')"
    unfolding name d by simp blast
  moreover have "dns_server_resolve ''magi.com'' ?d = Some (ip_init (Octets 10 0 0 5) 24)" by code_simp
  moreover have "ip_to_string (ip_init (Octets 10 0 0 5) 24) 20 False = ''10.0.0.5''" by code_simp
  ultimately have "\<exists>s'. cmd_dns_resolve (net_send 4) (\<lambda>_. 7) [''H1'', ''dns_resolve'', ''magi.com''] ?s =
      Some (println ''[DNS] magi.com -> 10.0.0.5'', s')" by simp
  then show ?thesis by (rule exI [of _ ?s])
qed

end
