(* ===== verification/Tcp_Dialogue.thy ===== *)
theory Tcp_Dialogue
  imports Contact Tcp_Machine
begin

text \<open>
  TCP between two hosts on a cable: the connection from the SYN of the client to the two sockets in
  \<^verbatim>\<open>ESTABLISHED\<close>, and the transfer of data, each from the packet that the one host sends to the state
  both are in when the call returns.
\<close>

declare net_send.simps(2) [simp del]

section \<open>Segments\<close>

lemma seal_octets:
  assumes "octet src = octet src'" "octet dst = octet dst'"
  shows "tcp_seal n g src dst = tcp_seal n g src' dst'"
  by (simp add: tcp_seal_def tcp_compute_checksum_def assms split: option.split)

lemma segment_packet_fits:
  assumes "wf_segment g" "seg_checksum g = 0" "20 + length (seg_payload g) \<le> n"
    and "octet src = octet src'" "octet dst = octet dst'"
  obtains raw p where "segment_packet src dst (tcp_seal n g src' dst') n = Some raw" "length raw \<le> ETHERNET_MAX_PAYLOAD"
    "tcp_carried raw src dst (tcp_seal n g src' dst') p"
proof -
  let ?g = "tcp_seal n g src' dst'"
  have g: "?g = tcp_seal n g src dst" by (rule seal_octets) (simp_all add: assms)
  have w: "tcp_to_bytes ?g n = Some (tcp_wire ?g)" "length (tcp_wire ?g) \<le> IPV4_MAX_PAYLOAD"
    using assms(1,3) by (simp_all add: tcp_to_bytes_def wf_segment_def)
  then obtain q where q: "ipv4_create src dst IPV4_DEFAULT_TTL IPV4_PROTOCOL_TCP (tcp_wire ?g) = Some q"
    by (simp add: ipv4_create_def)
  then obtain raw where raw: "ipv4_to_bytes q (IPV4_HEADER_SIZE + IPV4_MAX_PAYLOAD) = Some raw"
    using ipv4_create_payload [OF q] ipv4_to_bytes_eq [of q] by fastforce
  have packet: "segment_packet src dst ?g n = Some raw" using w q raw by (simp add: segment_packet_def)
  obtain p where "tcp_carried raw src dst ?g p"
    using segment_packet_carried [OF assms(1-3)] packet unfolding g by blast
  then show ?thesis using packet ipv4_to_bytes_SomeD [OF raw] by (intro that) auto
qed

section \<open>Receiving\<close>

lemma receive_tcp:
  assumes "get_host n w = Some h" "framed raw (host_mac h) src ETHERNET_TYPE_IPV4 payload"
    and "tcp_carried payload sip dip g p" "octet dip = octet (h_ip h)" "h_has_ip h"
  shows "host_receive send n raw w = host_handle_tcp send n p w"
  using assms by (auto simp: tcp_carried_def framed_def host_receive_def host_mac_def ethernet_is_broadcast_def mac_equal_def)

definition tcp_noted :: "tcp_socket list \<Rightarrow> tcp_segment \<Rightarrow> host \<Rightarrow> host" where
  "tcp_noted socks g h = h\<lparr>h_tcp := socks, h_last_tcp := g, h_has_tcp := True\<rparr>"

lemma tcp_noted_simps [simp]:
  "h_base (tcp_noted ss g h) = h_base h" "h_arp (tcp_noted ss g h) = h_arp h" "h_queue (tcp_noted ss g h) = h_queue h"
  "h_ip (tcp_noted ss g h) = h_ip h" "h_has_ip (tcp_noted ss g h) = h_has_ip h" "host_mac (tcp_noted ss g h) = host_mac h"
  "host_is_same_subnet (tcp_noted ss g h) = host_is_same_subnet h" "h_tcp (tcp_noted ss g h) = ss"
  by (simp_all add: tcp_noted_def host_mac_def host_is_same_subnet_def fun_eq_iff)

text \<open>The HTTP server is not called for this socket.\<close>

definition no_http :: "node_id \<Rightarrow> world \<Rightarrow> tcp_socket \<Rightarrow> bool" where
  "no_http n w s \<longleftrightarrow> \<not> sk_has_data s \<or> sk_local_port s \<noteq> HTTP_SERVER_PORT \<or> hs_bound_host (w_http w) \<noteq> Some n"

lemma http_world [simp]: "w_http (put_node n nd w) = w_http w" "w_http (w\<lparr>w_clock := c\<rparr>) = w_http w"
  by (simp_all add: put_node_def)

text \<open>A segment that is taken and not answered.\<close>

lemma tcp_quiet:
  assumes "get_host n w = Some h" "framed raw (host_mac h) src ETHERNET_TYPE_IPV4 payload"
    and "tcp_carried payload sip dip g p" "octet dip = octet (h_ip h)" "h_has_ip h"
    and "host_tcp_target (h_tcp h) (h_ip h) g (ip4_src p) = Some (i, socks)" "i < length socks"
    and "tcp_socket_receive_segment (socks ! i) g (ip4_src p) (ip4_dst p) tcp_init = (True, s, r)" "seg_flags r = 0"
    and "no_http n w s"
  shows "host_receive send n raw w = Some (put_host n (tcp_noted (socks[i := s]) g h) w)"
proof -
  let ?w = "put_host n (tcp_noted (socks[i := s]) g h) w"
  have "host_send_tcp_response send n (ip4_src p) r ?w = Some ?w"
    using assms(9) by (simp add: host_send_tcp_response_def)
  moreover have "get_tcp (n, i) ?w = Some s" using assms(7) by (simp add: get_tcp_def)
  ultimately have "host_handle_tcp send n p w = Some ?w"
    using assms(1,3,6,8,10) by (auto simp: host_handle_tcp_def tcp_carried_def tcp_noted_def no_http_def)
  then show ?thesis using receive_tcp [OF assms(1-5)] by simp
qed

text \<open>A segment that is answered with one to a neighbour.\<close>

lemma tcp_answers:
  assumes "get_host n w = Some h" "framed raw (host_mac h) src ETHERNET_TYPE_IPV4 payload"
    and "tcp_carried payload sip dip g p" "octet dip = octet (h_ip h)" "h_has_ip h"
    and "host_tcp_target (h_tcp h) (h_ip h) g (ip4_src p) = Some (i, socks)"
    and "tcp_socket_receive_segment (socks ! i) g (ip4_src p) (ip4_dst p) tcp_init = (True, s, tcp_seal TCP_HEADER_SIZE r x y)"
    and "octet x = octet (h_ip h)" "octet y = octet sip"
    and "wf_segment r" "seg_checksum r = 0" "seg_payload r = []" "seg_flags r \<noteq> 0" "seg_src_port r \<noteq> 0"
    and "\<not> ip_is_limited_broadcast sip" "host_is_same_subnet h sip" "arp_table_get (h_arp h) sip = Some mac"
  obtains raw2 payload2 p2 where "framed raw2 mac (host_mac h) ETHERNET_TYPE_IPV4 payload2"
    "tcp_carried payload2 (h_ip h) sip (tcp_seal TCP_HEADER_SIZE r x y) p2"
    "\<forall>w' s'. send (n, 0) raw2 (put_host n (tcp_noted (socks[i := s]) g h) w) = Some w' \<longrightarrow> get_tcp (n, i) w' = Some s' \<longrightarrow>
       no_http n w' s' \<longrightarrow> host_receive send n raw w = Some w'"
proof -
  let ?h = "tcp_noted (socks[i := s]) g h" and ?r = "tcp_seal TCP_HEADER_SIZE r x y" and ?dst = "ip4_src p"
  let ?w = "put_host n ?h w"
  have src: "octet ?dst = octet sip" using assms(3) by (simp add: tcp_carried_def)
  obtain payload2 p2 where packet: "segment_packet (h_ip h) ?dst ?r TCP_HEADER_SIZE = Some payload2" "length payload2 \<le> ETHERNET_MAX_PAYLOAD"
    "tcp_carried payload2 (h_ip h) ?dst ?r p2"
    by (rule segment_packet_fits [of r TCP_HEADER_SIZE "h_ip h" x ?dst y]) (use assms(8-12) src in simp_all)
  have h: "get_host n ?w = Some ?h" "h_has_ip ?h" using assms(1,5) by simp_all
  obtain raw2 where raw2: "host_send_l3_packet send n ?dst ETHERNET_TYPE_IPV4 payload2 ?w = map_option (Pair True) (send (n, 0) raw2 ?w)"
    "framed raw2 mac (host_mac ?h) ETHERNET_TYPE_IPV4 payload2"
    by (rule host_to_neighbour [OF h, where ip = ?dst and mac = mac and payload = payload2 and ty = ETHERNET_TYPE_IPV4 and send = send])
      (use assms(15-17) same_octets [OF src] packet(2) in simp_all)
  have "host_send_tcp_response send n ?dst ?r ?w = send (n, 0) raw2 ?w"
    using packet(1) raw2(1) assms(13,14) h(1)
    by (cases "send (n, 0) raw2 ?w") (simp_all add: host_send_tcp_response_def word_neq_0_conv)
  then have "host_handle_tcp send n p w = Some w'"
    if "send (n, 0) raw2 ?w = Some w'" "get_tcp (n, i) w' = Some s'" "no_http n w' s'" for w' s'
    using that assms(1,3,6,7) by (auto simp: host_handle_tcp_def tcp_carried_def tcp_noted_def no_http_def)
  moreover have "tcp_carried payload2 (h_ip h) sip ?r p2" using packet(3) src by (simp add: tcp_carried_def)
  ultimately show ?thesis
    using raw2(2) receive_tcp [OF assms(1-5)] by (intro that [of raw2 payload2 p2]) auto
qed

section \<open>The segments of the handshake\<close>

abbreviation syn_ack_of :: "tcp_socket \<Rightarrow> tcp_segment" where
  "syn_ack_of c \<equiv> tcp_init\<lparr>seg_src_port := sk_remote_port c, seg_dst_port := sk_local_port c,
     seg_seq := 2000 + ucast (sk_local_port c), seg_ack := sk_send_seq c + 1, seg_flags := TCP_FLAG_SYN_ACK,
     seg_window := TCP_WINDOW_SIZE\<rparr>"

abbreviation syn_received :: "nat \<Rightarrow> tcp_socket \<Rightarrow> tcp_socket \<Rightarrow> ip_address \<Rightarrow> tcp_socket" where
  "syn_received l listener c src \<equiv> (tcp_child l listener (tcp_syn_segment c) src allocated_socket)\<lparr>
     sk_recv_seq := sk_send_seq c + 1, sk_send_seq := 2000 + ucast (sk_local_port c), sk_state := TCP_SYN_RECEIVED\<rparr>"

lemma rx_syn:
  assumes "tcp_validate_checksum (tcp_syn_segment c) src dst"
  shows "tcp_socket_receive_segment (tcp_child l listener (tcp_syn_segment c) src allocated_socket) (tcp_syn_segment c) src dst r0 =
    (True, syn_received l listener c src, tcp_seal TCP_HEADER_SIZE (syn_ack_of c) dst src)"
  using assms by (simp add: tcp_socket_receive_segment_def tcp_child_def rx_listen_def Let_def)

abbreviation client_done :: "tcp_socket \<Rightarrow> tcp_socket" where
  "client_done c \<equiv> c\<lparr>sk_recv_seq := 2001 + ucast (sk_local_port c), sk_send_ack := sk_send_seq c + 1, sk_send_seq := sk_send_seq c + 1,
     sk_state := TCP_ESTABLISHED\<rparr>"

lemma ack_any_state [simp]: "tcp_prepare_ack (s\<lparr>sk_state := st\<rparr>) = tcp_prepare_ack s"
  by (simp add: tcp_prepare_ack_def)

lemma rx_syn_ack:
  assumes "tcp_validate_checksum (tcp_seal TCP_HEADER_SIZE (syn_ack_of c) x y) src dst" "sk_state c = TCP_SYN_SENT"
  shows "tcp_socket_receive_segment c (tcp_seal TCP_HEADER_SIZE (syn_ack_of c) x y) src dst r0 =
    (True, client_done c, tcp_prepare_ack (client_done c))"
  using assms by (simp add: tcp_socket_receive_segment_def rx_syn_sent_def Let_def has_flag_def)

abbreviation server_done :: "nat \<Rightarrow> tcp_socket \<Rightarrow> tcp_socket \<Rightarrow> ip_address \<Rightarrow> tcp_socket" where
  "server_done l listener c src \<equiv> (syn_received l listener c src)\<lparr>sk_send_ack := 2001 + ucast (sk_local_port c),
     sk_send_seq := 2001 + ucast (sk_local_port c), sk_state := TCP_ESTABLISHED\<rparr>"

lemma rx_ack:
  assumes "tcp_validate_checksum (tcp_prepare_ack (client_done c)) src' dst'"
  shows "tcp_socket_receive_segment (syn_received l listener c src) (tcp_prepare_ack (client_done c)) src' dst' r0 =
    (True, server_done l listener c src, r0)"
  using assms by (simp add: tcp_socket_receive_segment_def rx_syn_received_def Let_def)

section \<open>Two ends of a connection\<close>

lemma find_octets:
  assumes "octet a = octet a'" "octet b = octet b'"
  shows "tcp_socket_find ss a p b q = tcp_socket_find ss a' p b' q"
  by (simp add: tcp_socket_find_def matches_connection_def matches_listener_def assms cong: option.case_cong)

lemma find_connection:
  "(tcp_socket_find ss a p b q = Some i \<and> \<not> sk_is_listening (ss ! i)) \<longleftrightarrow>
     first_index (\<lambda>i. matches_connection (ss ! i) a p b q) (length ss) = Some i"
proof (cases "first_index (\<lambda>i. matches_connection (ss ! i) a p b q) (length ss)")
  case None
  then show ?thesis by (auto simp: tcp_socket_find_def first_index_Some matches_listener_def simp del: first_index_None)
next
  case (Some k)
  then have "matches_connection (ss ! k) a p b q" by (simp add: first_index_Some)
  then show ?thesis using Some by (auto simp: tcp_socket_find_def matches_connection_def)
qed

lemma find_listener:
  assumes "tcp_socket_find ss a p b q = Some l" "sk_is_listening (ss ! l)"
  shows "l < length ss" "matches_listener (ss ! l) a p" "\<And>i. i < length ss \<Longrightarrow> \<not> matches_connection (ss ! i) a p b q"
  using assms by (auto simp: tcp_socket_find_def first_index_Some matches_connection_def split: option.splits)

text \<open>A socket that is ready to talk, and found for what the other end sends.\<close>

definition tcp_ready :: "host \<Rightarrow> nat \<Rightarrow> bool" where
  "tcp_ready h i \<longleftrightarrow> i < TCP_MAX_SOCKETS \<and>
     (let s = h_tcp h ! i in sk_in_use s \<and> \<not> sk_is_listening s \<and> sk_state s = TCP_ESTABLISHED \<and>
        octet (sk_local_ip s) = octet (h_ip h) \<and> sk_local_port s \<noteq> 0 \<and> window_clear (sk_recv_buffer s) \<and>
        sb_data (sk_send_buffer s) = [] \<and> sk_send_ack s = sk_send_seq s \<and>
        tcp_socket_find (h_tcp h) (h_ip h) (sk_local_port s) (sk_remote_ip s) (sk_remote_port s) = Some i)"

definition tcp_connected :: "host \<Rightarrow> nat \<Rightarrow> host \<Rightarrow> nat \<Rightarrow> bool" where
  "tcp_connected A i B j \<longleftrightarrow> tcp_ready A i \<and> tcp_ready B j \<and> tcp_synced (h_tcp A ! i) (h_tcp B ! j)"

lemma find_updated:
  assumes "tcp_socket_find ss a p b q = Some i" "\<not> sk_is_listening (ss ! i)" "matches_connection s a p b q"
  shows "tcp_socket_find (ss[i := s]) a p b q = Some i"
proof -
  have "first_index (\<lambda>i. matches_connection (ss ! i) a p b q) (length ss) = Some i" using assms(1,2) find_connection by blast
  then have "first_index (\<lambda>k. matches_connection (ss[i := s] ! k) a p b q) (length (ss[i := s])) = Some i"
    using assms(3) by (auto simp: first_index_Some)
  then show ?thesis by (simp add: tcp_socket_find_def)
qed

lemma find_new:
  assumes "\<And>k. k < length ss \<Longrightarrow> \<not> matches_connection (ss ! k) a p b q" "i < length ss" "matches_connection s a p b q"
  shows "tcp_socket_find (ss[i := s]) a p b q = Some i"
proof -
  have "first_index (\<lambda>k. matches_connection (ss[i := s] ! k) a p b q) (length (ss[i := s])) = Some i"
    using assms by (auto simp: first_index_Some nth_list_update)
  then show ?thesis by (simp add: tcp_socket_find_def)
qed

section \<open>The connection\<close>

lemma tcp_child_simps [simp]:
  "sk_in_use (tcp_child l listener g src allocated_socket)" "\<not> sk_is_listening (tcp_child l listener g src allocated_socket)"
  "\<not> sk_has_data (tcp_child l listener g src allocated_socket)" "sk_local_ip (tcp_child l listener g src s0) = sk_local_ip listener"
  "sk_local_port (tcp_child l listener g src s0) = seg_dst_port g" "sk_remote_ip (tcp_child l listener g src s0) = src"
  "sk_remote_port (tcp_child l listener g src s0) = seg_src_port g" "sk_parent (tcp_child l listener g src s0) = Some l"
  "sk_send_buffer (tcp_child l listener g src s0) = sk_send_buffer s0" "sk_recv_buffer (tcp_child l listener g src s0) = sk_recv_buffer s0"
  by (simp_all add: tcp_child_def allocated_socket_def zero_socket_def)

text \<open>The client gets the SYN-ACK, and the server the ACK.\<close>

lemma syn_ack_arrives:
  assumes n: "neighbours a b A B w" and k: "acquainted A B"
    and c: "i < TCP_MAX_SOCKETS" "h_tcp A ! i = c" "sk_state c = TCP_SYN_SENT" "\<not> sk_is_listening c" "\<not> sk_has_data c"
      "octet (sk_local_ip c) = octet (h_ip A)" "octet (sk_remote_ip c) = octet (h_ip B)" "sk_local_port c \<noteq> 0"
      "tcp_socket_find (h_tcp A) (h_ip A) (sk_local_port c) (h_ip B) (sk_remote_port c) = Some i"
    and s: "j < TCP_MAX_SOCKETS" "h_tcp B ! j = syn_received l listener c src"
      "tcp_socket_find (h_tcp B) (h_ip B) (sk_remote_port c) (h_ip A) (sk_local_port c) = Some j"
    and raw: "framed raw (host_mac A) (host_mac B) ETHERNET_TYPE_IPV4 payload"
      "tcp_carried payload (h_ip B) (h_ip A) (tcp_seal TCP_HEADER_SIZE (syn_ack_of c) x y) p"
  obtains g1 g2 where "host_receive (net_send (Suc depth)) a raw w =
    Some (put_host b (tcp_noted ((h_tcp B)[j := server_done l listener c src]) g2 B)
      (put_host a (tcp_noted ((h_tcp A)[i := client_done c]) g1 A) w))"
proof -
  note n' = n [unfolded neighbours_def] and k' = k [unfolded acquainted_def] and p = raw(2) [unfolded tcp_carried_def]
  let ?g = "tcp_seal TCP_HEADER_SIZE (syn_ack_of c) x y" and ?ack = "tcp_prepare_ack (client_done c)"
  let ?A = "tcp_noted ((h_tcp A)[i := client_done c]) ?g A" and ?send = "net_send (Suc depth)"
  let ?w1 = "put_host a ?A w"
  have len: "length (h_tcp A) = TCP_MAX_SOCKETS" "length (h_tcp B) = TCP_MAX_SOCKETS" using n' by (simp_all add: wf_host_def)
  have hostA: "get_host a w = Some A" using n' by simp
  have "tcp_socket_find (h_tcp A) (h_ip A) (sk_local_port c) (ip4_src p) (sk_remote_port c) = Some i"
    using c(9) p find_octets [of "h_ip A" "h_ip A" "ip4_src p" "h_ip B"] by simp
  then have target: "host_tcp_target (h_tcp A) (h_ip A) ?g (ip4_src p) = Some (i, h_tcp A)"
    using c(2,4) by (simp add: host_tcp_target_def)
  have rx: "tcp_socket_receive_segment (h_tcp A ! i) ?g (ip4_src p) (ip4_dst p) tcp_init = (True, client_done c, ?ack)"
    unfolding c(2) by (rule rx_syn_ack) (use p c(3) in simp_all)
  obtain raw2 payload2 p2 where answer: "framed raw2 (host_mac B) (host_mac A) ETHERNET_TYPE_IPV4 payload2"
    "tcp_carried payload2 (h_ip A) (h_ip B) ?ack p2"
    "\<forall>w' s'. ?send (a, 0) raw2 ?w1 = Some w' \<longrightarrow> get_tcp (a, i) w' = Some s' \<longrightarrow> no_http a w' s' \<longrightarrow>
       host_receive ?send a raw w = Some w'"
    unfolding tcp_prepare_ack_def
    by (rule tcp_answers [OF hostA raw refl _ target rx [unfolded tcp_prepare_ack_def], where mac = "host_mac B" and send = ?send])
      (use n' k' c(6-8) in \<open>simp_all add: wf_segment_def\<close>)
  have cable1: "cable a b ?w1" by (rule cable_put_host [where h = A]) (use n' in simp_all)
  have hosts: "get_host b ?w1 = Some B" using n' by simp
  have q: "octet (ip4_src p2) = octet (h_ip A)" "tcp_validate_checksum ?ack (ip4_src p2) (ip4_dst p2)"
    using answer(2) by (simp_all add: tcp_carried_def)
  have "tcp_socket_find (h_tcp B) (h_ip B) (sk_remote_port c) (ip4_src p2) (sk_local_port c) = Some j"
    using s(3) q(1) find_octets [of "h_ip B" "h_ip B" "ip4_src p2" "h_ip A"] by simp
  then have target2: "host_tcp_target (h_tcp B) (h_ip B) ?ack (ip4_src p2) = Some (j, h_tcp B)"
    using s(2) by (simp add: host_tcp_target_def)
  have rx2: "tcp_socket_receive_segment (h_tcp B ! j) ?ack (ip4_src p2) (ip4_dst p2) tcp_init = (True, server_done l listener c src, tcp_init)"
    unfolding s(2) by (rule rx_ack [OF q(2)])
  let ?B = "tcp_noted ((h_tcp B)[j := server_done l listener c src]) ?ack B"
  have "?send (a, 0) raw2 ?w1 = host_receive (net_send depth) b raw2 ?w1"
    by (rule cable_delivers [OF cable1 hosts])
  also have "\<dots> = Some (put_host b ?B ?w1)"
    by (rule tcp_quiet [OF hosts answer(1,2) _ _ target2 _ rx2]) (use n' len s(1) in \<open>simp_all add: no_http_def\<close>)
  finally have sent: "?send (a, 0) raw2 ?w1 = Some (put_host b ?B ?w1)" .
  have "get_tcp (a, i) (put_host b ?B ?w1) = Some (client_done c)"
    using n' len c(1) by (simp add: get_tcp_def)
  then have "host_receive ?send a raw w = Some (put_host b ?B ?w1)"
    using answer(3) sent c(5) by (simp add: no_http_def)
  then show ?thesis by (rule that)
qed

text \<open>The server gets the SYN: from here to the end of the handshake.\<close>

lemma syn_arrives:
  assumes n: "neighbours a b A B w" and k: "acquainted A B"
    and c: "i < TCP_MAX_SOCKETS" "h_tcp A ! i = c" "sk_state c = TCP_SYN_SENT" "\<not> sk_is_listening c" "\<not> sk_has_data c"
      "octet (sk_local_ip c) = octet (h_ip A)" "octet (sk_remote_ip c) = octet (h_ip B)" "sk_local_port c \<noteq> 0"
      "tcp_socket_find (h_tcp A) (h_ip A) (sk_local_port c) (h_ip B) (sk_remote_port c) = Some i" "sk_remote_port c \<noteq> 0"
    and l: "tcp_socket_find (h_tcp B) (h_ip B) (sk_remote_port c) (h_ip A) (sk_local_port c) = Some l" "sk_is_listening (h_tcp B ! l)"
    and j: "tcp_socket_alloc (h_tcp B) = Some (j, socks)"
    and raw: "framed raw (host_mac B) (host_mac A) ETHERNET_TYPE_IPV4 payload"
      "tcp_carried payload (h_ip A) ip (tcp_syn_segment c) p" "octet ip = octet (h_ip B)"
  obtains g1 g2 src where "octet src = octet (h_ip A)" "host_receive (net_send (Suc (Suc depth))) b raw w =
    Some (put_host b (tcp_noted ((h_tcp B)[j := server_done l (h_tcp B ! l) c src]) g2 B)
      (put_host a (tcp_noted ((h_tcp A)[i := client_done c]) g1 A) w))"
proof -
  note n' = n [unfolded neighbours_def] and k' = k [unfolded acquainted_def] and p = raw(2) [unfolded tcp_carried_def]
  let ?g = "tcp_syn_segment c" and ?src = "ip4_src p" and ?L = "h_tcp B ! l" and ?send = "net_send (Suc (Suc depth))"
  let ?child = "tcp_child l ?L ?g ?src allocated_socket" and ?r = "tcp_seal TCP_HEADER_SIZE (syn_ack_of c) (ip4_dst p) ?src"
  have len: "length (h_tcp A) = TCP_MAX_SOCKETS" "length (h_tcp B) = TCP_MAX_SOCKETS" using n' by (simp_all add: wf_host_def)
  have hostB: "get_host b w = Some B" and src: "octet ?src = octet (h_ip A)" using n' p by simp_all
  note L = find_listener [OF l] and al = alloc_cases [OF j]
  have jl: "j \<noteq> l" "j < TCP_MAX_SOCKETS" using L(2) l(2) al len by (auto simp: matches_listener_def)
  have "tcp_socket_find (h_tcp B) (h_ip B) (sk_remote_port c) ?src (sk_local_port c) = Some l"
    using l(1) src find_octets [of "h_ip B" "h_ip B" ?src "h_ip A"] by simp
  then have target: "host_tcp_target (h_tcp B) (h_ip B) ?g ?src = Some (j, socks[j := ?child])"
    using l(2) j jl al(1) unfolding al(2) by (simp add: host_tcp_target_def)
  let ?B = "tcp_noted ((h_tcp B)[j := syn_received l ?L c ?src]) ?g B"
  have rx: "tcp_socket_receive_segment (socks[j := ?child] ! j) ?g ?src (ip4_dst p) tcp_init =
      (True, syn_received l ?L c ?src, ?r)"
    using rx_syn [of c ?src "ip4_dst p" l ?L tcp_init] p jl(2) len unfolding al(2) by simp
  have socks: "socks[j := ?child, j := syn_received l ?L c ?src] = (h_tcp B)[j := syn_received l ?L c ?src]"
    by (simp add: al(2))
  obtain raw2 payload2 p2 where answer: "framed raw2 (host_mac A) (host_mac B) ETHERNET_TYPE_IPV4 payload2"
    "tcp_carried payload2 (h_ip B) (h_ip A) ?r p2"
    "\<forall>w' s'. ?send (b, 0) raw2 (put_host b ?B w) = Some w' \<longrightarrow> get_tcp (b, j) w' = Some s' \<longrightarrow> no_http b w' s' \<longrightarrow>
       host_receive ?send b raw w = Some w'"
    unfolding socks [symmetric]
    by (rule tcp_answers [OF hostB raw(1,2) _ _ target rx, where mac = "host_mac A" and send = ?send])
      (use n' k' c(10) raw(3) p in \<open>simp_all add: wf_segment_def\<close>)
  let ?w1 = "put_host b ?B w"
  have B: "h_base ?B = h_base B" "host_mac ?B = host_mac B" "wf_host ?B"
    using n' by (simp_all add: wf_host_def)
  have cable1: "cable a b ?w1" by (rule cable_put_host [where h = B]) (use n' in simp_all)
  have n1: "neighbours a b A ?B ?w1" using n' cable1 B(3) by (simp add: neighbours_def)
  have k1: "acquainted A ?B" using k' by (simp add: acquainted_def)
  have find: "tcp_socket_find (h_tcp ?B) (h_ip ?B) (sk_remote_port c) (h_ip A) (sk_local_port c) = Some j"
    unfolding tcp_noted_simps
    by (rule find_new) (use L jl(2) len src in \<open>simp_all add: matches_connection_def matches_listener_def ip_octets_equal_iff\<close>)
  obtain g1 g2 where rest: "host_receive (net_send (Suc depth)) a raw2 ?w1 =
    Some (put_host b (tcp_noted ((h_tcp ?B)[j := server_done l ?L c ?src]) g2 ?B)
      (put_host a (tcp_noted ((h_tcp A)[i := client_done c]) g1 A) ?w1))"
    by (rule syn_ack_arrives [OF n1 k1 c(1-6) _ c(8) _ jl(2), where listener = ?L and src = ?src and l = l and raw = raw2
          and payload = payload2 and x = "ip4_dst p" and y = ?src and p = p2 and depth = depth])
      (use c(7,9) find answer(1,2) jl(2) len in simp_all)
  have merge: "put_host b (tcp_noted ((h_tcp ?B)[j := server_done l ?L c ?src]) g2 ?B) (put_host a A' ?w1) =
      put_host b (tcp_noted ((h_tcp B)[j := server_done l ?L c ?src]) g2 B) (put_host a A' w)" for A'
    using n' by (simp add: put_swap [of a b] tcp_noted_def)
  have "?send (b, 0) raw2 ?w1 = host_receive (net_send (Suc depth)) a raw2 ?w1"
    by (rule cable_delivers [OF cable_sym [OF cable1]]) (use n' in simp)
  then have sent: "?send (b, 0) raw2 ?w1 = Some (put_host b (tcp_noted ((h_tcp B)[j := server_done l ?L c ?src]) g2 B)
      (put_host a (tcp_noted ((h_tcp A)[i := client_done c]) g1 A) w))"
    using rest unfolding merge by simp
  have "get_tcp (b, j) (put_host b (tcp_noted ((h_tcp B)[j := server_done l ?L c ?src]) g2 B) W) = Some (server_done l ?L c ?src)" for W
    using jl(2) len by (simp add: get_tcp_def)
  then have "host_receive ?send b raw w = Some (put_host b (tcp_noted ((h_tcp B)[j := server_done l ?L c ?src]) g2 B)
      (put_host a (tcp_noted ((h_tcp A)[i := client_done c]) g1 A) w))"
    using answer(3) sent by (simp add: no_http_def)
  then show ?thesis using src by (intro that)
qed

text \<open>The two ends after the handshake.\<close>

lemma fresh_socket [simp]:
  "window_clear zero_recv_buffer" "sb_data (sk_send_buffer zero_socket) = []" "rb_data zero_recv_buffer = []"
  "sk_recv_buffer allocated_socket = zero_recv_buffer" "sk_send_buffer allocated_socket = sk_send_buffer zero_socket"
  by (simp_all add: window_clear_def zero_recv_buffer_def zero_socket_def allocated_socket_def)

lemma client_socket:
  assumes "cl = tcp_socket_connect allocated_socket me sp ip dp"
  shows "sk_state cl = TCP_SYN_SENT" "\<not> sk_is_listening cl" "\<not> sk_has_data cl" "sk_local_ip cl = me" "sk_remote_ip cl = ip"
    "sk_local_port cl = sp" "sk_remote_port cl = dp" "sk_send_seq cl = 1000" "sk_in_use cl"
    "sk_send_buffer cl = sk_send_buffer zero_socket" "sk_recv_buffer cl = zero_recv_buffer"
  by (simp_all add: assms tcp_socket_connect_def) (simp_all add: allocated_socket_def zero_socket_def)

lemma handshake_connected:
  assumes cl: "cl = tcp_socket_connect allocated_socket (h_ip A) sp ip dp" "octet ip = octet (h_ip B)" "sp \<noteq> 0" "dp \<noteq> 0"
    and i: "length (h_tcp A) = TCP_MAX_SOCKETS" "i < TCP_MAX_SOCKETS" "h_tcp A ! i = cl"
      "tcp_socket_find (h_tcp A) (h_ip A) sp (h_ip B) dp = Some i"
    and j: "length (h_tcp B) = TCP_MAX_SOCKETS" "j < TCP_MAX_SOCKETS"
    and l: "tcp_socket_find (h_tcp B) (h_ip B) dp (h_ip A) sp = Some l" "sk_is_listening (h_tcp B ! l)" "octet src = octet (h_ip A)"
    and after: "h_tcp A' = (h_tcp A)[i := client_done cl]" "h_ip A' = h_ip A"
      "h_tcp B' = (h_tcp B)[j := server_done l (h_tcp B ! l) cl src]" "h_ip B' = h_ip B"
  shows "tcp_connected A' i B' j"
proof -
  note c = client_socket [OF cl(1)]
  have find: "tcp_socket_find (h_tcp A) (h_ip A) sp ip dp = Some i"
    using i(4) find_octets [of "h_ip A" "h_ip A" ip "h_ip B"] cl(2) by simp
  have "tcp_socket_find ((h_tcp A)[i := client_done cl]) (h_ip A) sp ip dp = Some i"
    by (rule find_updated [OF find]) (use i(3) c in \<open>simp_all add: matches_connection_def\<close>)
  then have readyA: "tcp_ready A' i" using i(1,2) cl(3) c after by (simp add: tcp_ready_def)
  have "matches_listener (h_tcp B ! l) (h_ip B) dp" by (rule find_listener(2) [OF l(1,2)])
  then have L: "octet (sk_local_ip (h_tcp B ! l)) = octet (h_ip B)" by (simp add: matches_listener_def)
  have "tcp_socket_find ((h_tcp B)[j := server_done l (h_tcp B ! l) cl src]) (h_ip B) dp src sp = Some j"
  proof (rule find_new)
    show "\<not> matches_connection (h_tcp B ! k) (h_ip B) dp src sp" if "k < length (h_tcp B)" for k
      using find_listener(3) [OF l(1,2) that] l(3) by (simp add: matches_connection_def)
  qed (use j L c in \<open>simp_all add: matches_connection_def\<close>)
  then have readyB: "tcp_ready B' j" using j cl(4) c after L by (simp add: tcp_ready_def)
  show ?thesis
    using readyA readyB after i(1,2) j cl(2) c l(3) L by (simp add: tcp_connected_def tcp_synced_def)
qed

section \<open>Around a call\<close>

text \<open>What stays of a host that only talked TCP.\<close>

definition kept :: "host \<Rightarrow> host \<Rightarrow> bool" where
  "kept h h' \<longleftrightarrow> h_base h' = h_base h \<and> h_ip h' = h_ip h \<and> h_has_ip h' = h_has_ip h \<and> h_magi_fd h' = h_magi_fd h \<and>
     length (h_tcp h') = length (h_tcp h)"

lemma kept_simps:
  assumes "kept h h'"
  shows "host_mac h' = host_mac h" "host_is_same_subnet h' = host_is_same_subnet h" "h_ip h' = h_ip h" "h_has_ip h' = h_has_ip h"
    "h_base h' = h_base h" "length (h_tcp h') = length (h_tcp h)"
  using assms by (auto simp: kept_def host_mac_def host_is_same_subnet_def fun_eq_iff)

lemma kept_noted: "length ss = length (h_tcp h) \<Longrightarrow> kept h (tcp_noted ss g h)"
  by (simp add: kept_def tcp_noted_def)

lemma kept_trans: "kept a b \<Longrightarrow> kept b c \<Longrightarrow> kept a c"
  by (simp add: kept_def)

lemma kept_like: "like h h' \<Longrightarrow> kept h h'"
  using like_simps [of h h'] by (simp add: kept_def)

text \<open>The worlds of a call that began in \<open>w1\<close>, wrote \<open>A2\<close> and \<open>B2\<close> and then the queue of \<open>A2\<close>.\<close>

lemma neighbours_after:
  assumes "neighbours a b A1 B1 w1" "acquainted A1 B1" "kept A1 A2" "kept B1 B2" "h_arp A2 = h_arp A1" "h_arp B2 = h_arp B1"
    and "h_queue B2 = h_queue B1" "wf_ring HOST_PENDING_QUEUE_MAX_ENTRIES q"
  defines "W \<equiv> put_host a (A2\<lparr>h_queue := q\<rparr>) (put_host b B2 (put_host a A2 w1))"
  shows "W = put_host a (A2\<lparr>h_queue := q\<rparr>) (put_host b B2 w1)" "neighbours a b (A2\<lparr>h_queue := q\<rparr>) B2 W"
    "acquainted (A2\<lparr>h_queue := q\<rparr>) B2" "kept A1 (A2\<lparr>h_queue := q\<rparr>)"
proof -
  note n = assms(1) [unfolded neighbours_def] and A = kept_simps [OF assms(3)] and B = kept_simps [OF assms(4)]
  have q: "host_mac (A2\<lparr>h_queue := q\<rparr>) = host_mac A2" "host_is_same_subnet (A2\<lparr>h_queue := q\<rparr>) = host_is_same_subnet A2"
    by (simp_all add: host_mac_def host_is_same_subnet_def fun_eq_iff)
  show W: "W = put_host a (A2\<lparr>h_queue := q\<rparr>) (put_host b B2 w1)" using n unfolding W_def by (simp add: put_swap [of b a])
  have "cable a b (put_host b B2 w1)" by (rule cable_put_host [where h = B1]) (use n B in simp_all)
  then have "cable a b W" unfolding W by (rule cable_put_host [where h = A1]) (use n A in simp_all)
  then show "neighbours a b (A2\<lparr>h_queue := q\<rparr>) B2 W"
    using n A B q assms(5-8) by (simp add: neighbours_def wf_host_def W)
  show "acquainted (A2\<lparr>h_queue := q\<rparr>) B2" using assms(2,5,6) A B q by (simp add: acquainted_def)
  show "kept A1 (A2\<lparr>h_queue := q\<rparr>)" using assms(3) by (simp add: kept_def)
qed

text \<open>The SYN packet of a client socket, sent to a neighbour with a listener for it: both hosts are connected when the call returns.\<close>

lemma syn_connects:
  assumes n: "neighbours a b A B w" and k: "acquainted A B \<or> strangers A B"
    and c: "i < TCP_MAX_SOCKETS" "h_tcp A ! i = tcp_socket_connect allocated_socket (h_ip A) sp ip dp" "octet ip = octet (h_ip B)"
      "tcp_socket_find (h_tcp A) (h_ip A) sp (h_ip B) dp = Some i" "sp \<noteq> 0" "dp \<noteq> 0"
    and l: "tcp_socket_find (h_tcp B) (h_ip B) dp (h_ip A) sp = Some l" "sk_is_listening (h_tcp B ! l)"
    and j: "tcp_socket_alloc (h_tcp B) = Some (j, socks)"
  obtains packet w' A' B' c where
    "segment_packet (h_ip A) ip (tcp_syn_segment (h_tcp A ! i)) TCP_HEADER_SIZE = Some packet"
    "host_send_l3_packet (net_send (Suc (Suc (Suc (Suc (Suc depth)))))) a ip ETHERNET_TYPE_IPV4 packet w = Some (True, w')"
    "neighbours a b A' B' w'" "acquainted A' B'" "tcp_connected A' i B' j" "kept A A'" "kept B B'"
    "w' = put_host a A' (put_host b B' (w\<lparr>w_clock := c\<rparr>))"
    "h_tcp A' = (h_tcp A)[i := client_done (h_tcp A ! i)]"
    "\<exists>src. h_tcp B' = (h_tcp B)[j := server_done l (h_tcp B ! l) (h_tcp A ! i) src]"
proof -
  note n' = n [unfolded neighbours_def]
  define cl where "cl = tcp_socket_connect allocated_socket (h_ip A) sp ip dp"
  note cl = client_socket [OF cl_def]
  obtain packet p where packet: "segment_packet (h_ip A) ip (tcp_syn_segment cl) TCP_HEADER_SIZE = Some packet"
    "length packet \<le> ETHERNET_MAX_PAYLOAD" "tcp_carried packet (h_ip A) ip (tcp_syn_segment cl) p"
  proof -
    let ?g = "tcp_init\<lparr>seg_src_port := sk_local_port cl, seg_dst_port := sk_remote_port cl, seg_seq := sk_send_seq cl,
       seg_flags := TCP_FLAG_SYN, seg_window := TCP_WINDOW_SIZE\<rparr>"
    have "tcp_syn_segment cl = tcp_seal TCP_HEADER_SIZE ?g (h_ip A) ip" by (simp add: tcp_syn_segment_def cl)
    moreover have "wf_segment ?g" "seg_checksum ?g = 0" "20 + length (seg_payload ?g) \<le> TCP_HEADER_SIZE"
      by (simp_all add: wf_segment_def)
    ultimately show thesis using that segment_packet_fits [of ?g TCP_HEADER_SIZE "h_ip A" "h_ip A" ip ip] by metis
  qed
  let ?send = "net_send (Suc (Suc (Suc (Suc (Suc depth)))))"
  obtain w1 A1 B1 raw c where contact: "neighbours a b A1 B1 w1" "acquainted A1 B1" "like A A1" "like B B1"
    "w1 = put_host a A1 (put_host b B1 (w\<lparr>w_clock := c\<rparr>))"
    "framed raw (host_mac B) (host_mac A) ETHERNET_TYPE_IPV4 packet"
    "\<forall>w4 A4. net_send (Suc (Suc (Suc depth))) (a, 0) raw w1 = Some w4 \<longrightarrow> get_host a w4 = Some A4 \<longrightarrow> h_queue A4 = h_queue A1 \<longrightarrow>
       arp_table_get (h_arp A4) (h_ip B) \<noteq> None \<longrightarrow>
       (\<exists>q. wf_ring HOST_PENDING_QUEUE_MAX_ENTRIES q \<and>
         host_send_l3_packet ?send a ip ETHERNET_TYPE_IPV4 packet w = Some (True, put_host a (A4\<lparr>h_queue := q\<rparr>) w4))"
    by (rule contact [OF n k packet(2) c(3), where depth = "Suc depth"])
  note likes = like_simps [OF contact(3)] like_simps [OF contact(4)] and n1 = contact(1) [unfolded neighbours_def]
  have len: "length (h_tcp A) = TCP_MAX_SOCKETS" "length (h_tcp B) = TCP_MAX_SOCKETS" using n' by (simp_all add: wf_host_def)
  have jj: "j < TCP_MAX_SOCKETS" using alloc_cases(1) [OF j] len by simp
  obtain g1 g2 src where src: "octet src = octet (h_ip A1)" and run: "host_receive (net_send (Suc (Suc depth))) b raw w1 =
    Some (put_host b (tcp_noted ((h_tcp B1)[j := server_done l (h_tcp B1 ! l) cl src]) g2 B1)
      (put_host a (tcp_noted ((h_tcp A1)[i := client_done cl]) g1 A1) w1))"
    by (rule syn_arrives [OF contact(1,2) c(1), where c = cl and l = l and j = j and socks = socks and raw = raw
          and payload = packet and ip = ip and p = p and depth = depth])
      (use c l j contact(6) packet(3) likes in \<open>simp_all add: cl cl_def [symmetric]\<close>)
  define A2 where "A2 = tcp_noted ((h_tcp A)[i := client_done cl]) g1 A1"
  define B2 where "B2 = tcp_noted ((h_tcp B)[j := server_done l (h_tcp B ! l) cl src]) g2 B1"
  have kept: "kept A1 A2" "kept B1 B2" unfolding A2_def B2_def by (simp_all add: kept_noted likes)
  let ?w2 = "put_host b B2 (put_host a A2 w1)"
  have "net_send (Suc (Suc (Suc depth))) (a, 0) raw w1 = Some ?w2"
    using cable_delivers [of a b w1 B1 "Suc (Suc depth)" raw] n1 run likes by (simp add: A2_def B2_def)
  moreover have "h_queue A2 = h_queue A1" "arp_table_get (h_arp A2) (h_ip B) \<noteq> None" "get_host a ?w2 = Some A2"
    using contact(2) likes n1 by (simp_all add: A2_def acquainted_def)
  ultimately obtain q where q: "wf_ring HOST_PENDING_QUEUE_MAX_ENTRIES q"
    "host_send_l3_packet ?send a ip ETHERNET_TYPE_IPV4 packet w = Some (True, put_host a (A2\<lparr>h_queue := q\<rparr>) ?w2)"
    using contact(7) by blast
  let ?A = "A2\<lparr>h_queue := q\<rparr>"
  note after = neighbours_after [OF contact(1,2) kept _ _ _ q(1)]
  have w3: "put_host a ?A ?w2 = put_host a ?A (put_host b B2 (w\<lparr>w_clock := c\<rparr>))"
    using n' unfolding contact(5) by (simp add: put_swap [of b a])
  have conn: "tcp_connected ?A i B2 j"
    by (rule handshake_connected [OF cl_def c(3,5,6) len(1) c(1) _ c(4) len(2) jj l])
      (use c(2) likes src in \<open>simp_all add: cl_def [symmetric] A2_def B2_def tcp_noted_def\<close>)
  show ?thesis
    by (rule that [OF _ q(2) after(2,3) conn _ _ w3])
      (use packet(1) c(2) kept_like [OF contact(3)] kept_like [OF contact(4)] kept kept_trans after(4) in
        \<open>auto simp: cl_def [symmetric] A2_def B2_def tcp_noted_def\<close>)
qed

section \<open>Data\<close>

abbreviation with_data :: "tcp_socket \<Rightarrow> bytes \<Rightarrow> tcp_socket" where
  "with_data s data \<equiv> s\<lparr>sk_send_buffer := \<lparr>sb_data = data, sb_start_seq = sk_send_seq s\<rparr>\<rparr>"

abbreviation sent_data :: "tcp_socket \<Rightarrow> bytes \<Rightarrow> tcp_socket" where
  "sent_data s data \<equiv> (with_data s data)\<lparr>sk_send_seq := sk_send_seq s + of_nat (length data)\<rparr>"

abbreviation got_data :: "tcp_socket \<Rightarrow> recv_buffer \<Rightarrow> bytes \<Rightarrow> tcp_socket" where
  "got_data s buf data \<equiv> s\<lparr>sk_recv_buffer := buf, sk_recv_seq := sk_recv_seq s + of_nat (length data), sk_has_data := True\<rparr>"

lemma rx_data:
  assumes "tcp_validate_checksum (tcp_data_segment a data) src dst" "sk_state b = TCP_ESTABLISHED" "window_clear (sk_recv_buffer b)"
    and "sk_send_seq a = sk_recv_seq b" "sk_recv_seq a = sk_send_ack b" "data \<noteq> []" "length data \<le> TCP_MAX_PAYLOAD"
    and "length (rb_data (sk_recv_buffer b)) + length data \<le> TCP_SOCKET_BUFFER_SIZE"
  obtains buf where "tcp_socket_receive_segment b (tcp_data_segment a data) src dst r0 =
      (True, got_data b buf data, tcp_prepare_ack (got_data b buf data))"
    "window_clear buf" "rb_data buf = rb_data (sk_recv_buffer b) @ data"
proof -
  obtain buf where buf: "tcp_buffer_payload b (sk_recv_seq b) data = (True, got_data b buf data)"
    "window_clear buf" "rb_data buf = rb_data (sk_recv_buffer b) @ data"
    using in_order_payload [of b data] assms by auto
  have "tcp_acknowledge_data b (sk_recv_seq a) = b" by (simp add: tcp_acknowledge_data_def assms(5))
  then have "tcp_socket_receive_segment b (tcp_data_segment a data) src dst r0 =
      (True, got_data b buf data, tcp_prepare_ack (got_data b buf data))"
    using assms buf(1) by (simp add: tcp_socket_receive_segment_def rx_established_def Let_def buffer_segment_def)
  then show ?thesis using buf(2,3) by (rule that)
qed

lemma rx_data_ack:
  assumes "tcp_validate_checksum (tcp_prepare_ack b) src dst" "sk_state a = TCP_ESTABLISHED"
    and "sk_recv_seq b = sk_send_seq a + of_nat (length data)" "sk_send_ack a = sk_send_seq a"
    and "unat (sk_send_seq a) + length data < 2 ^ 32" "data \<noteq> []"
  obtains a2 where "tcp_socket_receive_segment (sent_data a data) (tcp_prepare_ack b) src dst r0 = (True, a2, r0)"
    "\<exists>buf. a2 = (sent_data a data)\<lparr>sk_send_ack := sk_send_seq a + of_nat (length data), sk_send_buffer := buf\<rparr> \<and> sb_data buf = []"
proof -
  let ?a = "sent_data a data" and ?a2 = "tcp_acknowledge_data (sent_data a data) (sk_send_seq a + of_nat (length data))"
  have len: "unat (of_nat (length data) :: u32) = length data" using assms(5) by (simp add: unat_of_nat)
  have lt: "sk_send_ack ?a < sk_send_seq ?a" using assms(4-6) len by (simp add: word_less_nat_alt unat_word_ariths)
  have "tcp_socket_receive_segment ?a (tcp_prepare_ack b) src dst r0 = (True, ?a2, r0)"
    using assms(1-3) by (simp add: tcp_socket_receive_segment_def rx_established_def Let_def buffer_segment_def)
  moreover have "\<exists>buf. ?a2 = ?a\<lparr>sk_send_ack := sk_send_seq a + of_nat (length data), sk_send_buffer := buf\<rparr> \<and> sb_data buf = []"
    using lt assms(4,6) len
    by (intro exI [of _ "\<lparr>sb_data = [], sb_start_seq = sk_send_seq a + of_nat (length data)\<rparr>"])
      (auto simp: tcp_acknowledge_data_def Let_def)
  ultimately show ?thesis by (rule that)
qed

lemma transfer_connected:
  assumes conn: "tcp_connected A i B j" and len: "length (h_tcp A) = TCP_MAX_SOCKETS" "length (h_tcp B) = TCP_MAX_SOCKETS"
    and a2: "\<exists>sb. a2 = (sent_data (h_tcp A ! i) data)\<lparr>sk_send_ack := sk_send_seq (h_tcp A ! i) + of_nat (length data), sk_send_buffer := sb\<rparr> \<and> sb_data sb = []"
    and buf: "window_clear buf"
    and after: "h_tcp A' = (h_tcp A)[i := a2]" "h_ip A' = h_ip A" "h_tcp B' = (h_tcp B)[j := got_data (h_tcp B ! j) buf data]" "h_ip B' = h_ip B"
  shows "tcp_connected A' i B' j"
proof -
  let ?a = "h_tcp A ! i" and ?b = "h_tcp B ! j"
  have r: "tcp_ready A i" "tcp_ready B j" and sync: "tcp_synced ?a ?b" using conn by (simp_all add: tcp_connected_def)
  note r = r [unfolded tcp_ready_def Let_def]
  obtain sb where a2: "a2 = (sent_data ?a data)\<lparr>sk_send_ack := sk_send_seq ?a + of_nat (length data), sk_send_buffer := sb\<rparr>" "sb_data sb = []"
    using a2 by blast
  have find: "tcp_socket_find (h_tcp A) (h_ip A) (sk_local_port ?a) (sk_remote_ip ?a) (sk_remote_port ?a) = Some i"
    "tcp_socket_find (h_tcp B) (h_ip B) (sk_local_port ?b) (sk_remote_ip ?b) (sk_remote_port ?b) = Some j"
    using r by simp_all
  have "tcp_socket_find ((h_tcp A)[i := a2]) (h_ip A) (sk_local_port ?a) (sk_remote_ip ?a) (sk_remote_port ?a) = Some i"
    by (rule find_updated [OF find(1)]) (use r in \<open>simp_all add: matches_connection_def a2(1)\<close>)
  moreover have "tcp_socket_find ((h_tcp B)[j := got_data ?b buf data]) (h_ip B) (sk_local_port ?b) (sk_remote_ip ?b) (sk_remote_port ?b) = Some j"
    by (rule find_updated [OF find(2)]) (use r in \<open>simp_all add: matches_connection_def\<close>)
  ultimately have "tcp_ready A' i" "tcp_ready B' j" using r len a2 buf after by (simp_all add: tcp_ready_def Let_def)
  moreover have "tcp_synced (h_tcp A' ! i) (h_tcp B' ! j)" using r sync len a2 after by (simp add: tcp_synced_def)
  ultimately show ?thesis by (simp add: tcp_connected_def)
qed

text \<open>The segment arrives, and its acknowledgement.\<close>

lemma data_arrives:
  assumes n: "neighbours a b A B w" and k: "acquainted A B" and i: "i < TCP_MAX_SOCKETS" "j < TCP_MAX_SOCKETS"
    and sa: "h_tcp A ! i = sent_data s0 data" "sk_state s0 = TCP_ESTABLISHED" "\<not> sk_is_listening s0" "sk_send_ack s0 = sk_send_seq s0"
      "octet (sk_local_ip s0) = octet (h_ip A)" "octet (sk_remote_ip s0) = octet (h_ip B)"
      "tcp_socket_find (h_tcp A) (h_ip A) (sk_local_port s0) (sk_remote_ip s0) (sk_remote_port s0) = Some i"
    and b: "tcp_ready B j" "tcp_synced s0 (h_tcp B ! j)"
    and data: "data \<noteq> []" "length data \<le> TCP_MAX_PAYLOAD" "unat (sk_send_seq s0) + length data < 2 ^ 32"
      "length (rb_data (sk_recv_buffer (h_tcp B ! j))) + length data \<le> TCP_SOCKET_BUFFER_SIZE"
    and http: "no_http a w s0" "sk_local_port (h_tcp B ! j) \<noteq> HTTP_SERVER_PORT \<or> hs_bound_host (w_http w) \<noteq> Some b"
    and raw: "framed raw (host_mac B) (host_mac A) ETHERNET_TYPE_IPV4 payload"
      "tcp_carried payload (sk_local_ip s0) (sk_remote_ip s0) (tcp_data_segment (with_data s0 data) data) p"
  obtains g1 g2 a2 buf where "host_receive (net_send (Suc depth)) b raw w =
    Some (put_host a (tcp_noted ((h_tcp A)[i := a2]) g1 A) (put_host b (tcp_noted ((h_tcp B)[j := got_data (h_tcp B ! j) buf data]) g2 B) w))"
    "\<exists>sb. a2 = (sent_data s0 data)\<lparr>sk_send_ack := sk_send_seq s0 + of_nat (length data), sk_send_buffer := sb\<rparr> \<and> sb_data sb = []"
    "window_clear buf" "rb_data buf = rb_data (sk_recv_buffer (h_tcp B ! j)) @ data"
proof -
  note n' = n [unfolded neighbours_def] and k' = k [unfolded acquainted_def] and p = raw(2) [unfolded tcp_carried_def]
  let ?b = "h_tcp B ! j" and ?g = "tcp_data_segment (with_data s0 data) data" and ?send = "net_send (Suc depth)"
  note r = b(1) [unfolded tcp_ready_def Let_def] and sync = b(2) [unfolded tcp_synced_def]
  have len: "length (h_tcp A) = TCP_MAX_SOCKETS" "length (h_tcp B) = TCP_MAX_SOCKETS" using n' by (simp_all add: wf_host_def)
  have hosts: "get_host a w = Some A" "get_host b w = Some B" using n' by simp_all
  have ports: "seg_src_port ?g = sk_local_port s0" "seg_dst_port ?g = sk_remote_port s0" by (simp_all add: tcp_data_segment_def)
  have srcip: "octet (ip4_src p) = octet (sk_local_ip s0)" using p by simp
  have "tcp_socket_find (h_tcp B) (h_ip B) (sk_remote_port s0) (ip4_src p) (sk_local_port s0) = Some j"
    using r sync srcip find_octets [of "h_ip B" "h_ip B" "ip4_src p" "sk_remote_ip ?b"] by simp
  then have target: "host_tcp_target (h_tcp B) (h_ip B) ?g (ip4_src p) = Some (j, h_tcp B)"
    using r by (simp add: host_tcp_target_def ports)
  obtain buf where rx: "tcp_socket_receive_segment ?b ?g (ip4_src p) (ip4_dst p) tcp_init =
      (True, got_data ?b buf data, tcp_prepare_ack (got_data ?b buf data))"
    "window_clear buf" "rb_data buf = rb_data (sk_recv_buffer ?b) @ data"
    by (rule rx_data [of "with_data s0 data" data "ip4_src p" "ip4_dst p" ?b])
      (use p r sync data in simp_all)
  let ?b1 = "got_data ?b buf data"
  let ?ack = "tcp_prepare_ack ?b1" and ?B = "tcp_noted ((h_tcp B)[j := ?b1]) ?g B"
  let ?w1 = "put_host b ?B w"
  obtain raw2 payload2 p2 where answer: "framed raw2 (host_mac A) (host_mac B) ETHERNET_TYPE_IPV4 payload2"
    "tcp_carried payload2 (h_ip B) (sk_local_ip s0) ?ack p2"
    "\<forall>w' s'. ?send (b, 0) raw2 ?w1 = Some w' \<longrightarrow> get_tcp (b, j) w' = Some s' \<longrightarrow> no_http b w' s' \<longrightarrow>
       host_receive ?send b raw w = Some w'"
    unfolding tcp_prepare_ack_def
    by (rule tcp_answers [OF hosts(2) raw _ _ target rx(1) [unfolded tcp_prepare_ack_def], where mac = "host_mac A" and send = ?send])
      (use n' k' r sync sa(5,6) same_octets [OF sa(5)] in \<open>simp_all add: wf_segment_def\<close>)
  have c1: "cable a b ?w1" by (rule cable_put_host [where h = B]) (use n' in simp_all)
  have hostA: "get_host a ?w1 = Some A" using n' by simp
  have q: "octet (ip4_src p2) = octet (h_ip B)" "tcp_validate_checksum ?ack (ip4_src p2) (ip4_dst p2)"
    using answer(2) by (simp_all add: tcp_carried_def)
  have "tcp_socket_find (h_tcp A) (h_ip A) (sk_local_port s0) (ip4_src p2) (sk_remote_port s0) = Some i"
    using sa(6,7) q(1) find_octets [of "h_ip A" "h_ip A" "ip4_src p2" "sk_remote_ip s0"] by simp
  then have target2: "host_tcp_target (h_tcp A) (h_ip A) ?ack (ip4_src p2) = Some (i, h_tcp A)"
    using sa(1,3) sync by (simp add: host_tcp_target_def)
  obtain a2 where rx2: "tcp_socket_receive_segment (sent_data s0 data) ?ack (ip4_src p2) (ip4_dst p2) tcp_init = (True, a2, tcp_init)"
    "\<exists>sb. a2 = (sent_data s0 data)\<lparr>sk_send_ack := sk_send_seq s0 + of_nat (length data), sk_send_buffer := sb\<rparr> \<and> sb_data sb = []"
    by (rule rx_data_ack [OF q(2) sa(2), where data = data and ?r0.0 = tcp_init]) (use sync data sa(4) in simp_all)
  have quiet: "no_http a ?w1 a2" using http(1) rx2(2) by (auto simp: no_http_def)
  have "?send (b, 0) raw2 ?w1 = host_receive (net_send depth) a raw2 ?w1" by (rule cable_delivers [OF cable_sym [OF c1] hostA])
  also have "\<dots> = Some (put_host a (tcp_noted ((h_tcp A)[i := a2]) ?ack A) ?w1)"
    by (rule tcp_quiet [OF hostA answer(1,2) _ _ target2 _ rx2(1) [folded sa(1)] _ quiet]) (use n' len i(1) sa(5) in simp_all)
  finally have sent: "?send (b, 0) raw2 ?w1 = Some (put_host a (tcp_noted ((h_tcp A)[i := a2]) ?ack A) ?w1)" .
  have "get_tcp (b, j) (put_host a (tcp_noted ((h_tcp A)[i := a2]) ?ack A) ?w1) = Some ?b1"
    using n' len i(2) by (simp add: get_tcp_def)
  then have "host_receive ?send b raw w = Some (put_host a (tcp_noted ((h_tcp A)[i := a2]) ?ack A) ?w1)"
    using answer(3) sent http(2) by (simp add: no_http_def)
  then show ?thesis using rx2(2) rx(2,3) by (rule that)
qed

text \<open>The data segment of a connected socket, sent: the peer has the data when the call returns.\<close>

lemma segment_delivers:
  fixes data :: bytes
  assumes n: "neighbours a b A B w" and k: "acquainted A B" and conn: "tcp_connected A i B j"
    and data: "data \<noteq> []" "length data \<le> TCP_MAX_PAYLOAD" "unat (sk_send_seq (h_tcp A ! i)) + length data < 2 ^ 32"
      "length (rb_data (sk_recv_buffer (h_tcp B ! j))) + length data \<le> TCP_SOCKET_BUFFER_SIZE"
    and http: "no_http a w (h_tcp A ! i)" "sk_local_port (h_tcp B ! j) \<noteq> HTTP_SERVER_PORT \<or> hs_bound_host (w_http w) \<noteq> Some b"
  defines "s \<equiv> h_tcp A ! i"
  obtains packet w' A' B' a2 buf c where
    "segment_packet (sk_local_ip s) (sk_remote_ip s) (tcp_data_segment (with_data s data) data) (TCP_HEADER_SIZE + TCP_MAX_PAYLOAD) = Some packet"
    "host_send_l3_packet (net_send (Suc (Suc (Suc (Suc depth))))) a (sk_remote_ip s) ETHERNET_TYPE_IPV4 packet
       (put_host a (A\<lparr>h_tcp := (h_tcp A)[i := sent_data s data]\<rparr>) w) = Some (True, w')"
    "neighbours a b A' B' w'" "acquainted A' B'" "tcp_connected A' i B' j" "kept A A'" "kept B B'"
    "w' = put_host a A' (put_host b B' (w\<lparr>w_clock := c\<rparr>))" "h_tcp A' = (h_tcp A)[i := a2]"
    "h_tcp B' = (h_tcp B)[j := got_data (h_tcp B ! j) buf data]" "rb_data buf = rb_data (sk_recv_buffer (h_tcp B ! j)) @ data"
    "\<exists>sb. a2 = (sent_data s data)\<lparr>sk_send_ack := sk_send_seq s + of_nat (length data), sk_send_buffer := sb\<rparr> \<and> sb_data sb = []"
proof -
  note n' = n [unfolded neighbours_def]
  let ?A0 = "A\<lparr>h_tcp := (h_tcp A)[i := sent_data s data]\<rparr>" and ?send = "net_send (Suc (Suc (Suc (Suc depth))))" and ?ip = "sk_remote_ip s"
  let ?w0 = "put_host a ?A0 w" and ?g = "tcp_data_segment (with_data s data) data"
  have r: "tcp_ready A i" "tcp_ready B j" and sync: "tcp_synced s (h_tcp B ! j)" using conn by (simp_all add: tcp_connected_def s_def)
  note ra = r(1) [unfolded tcp_ready_def Let_def, folded s_def] and rb = r(2) [unfolded tcp_ready_def Let_def]
  have ip: "octet ?ip = octet (h_ip B)" using sync rb by (simp add: tcp_synced_def)
  have len: "length (h_tcp A) = TCP_MAX_SOCKETS" "length (h_tcp B) = TCP_MAX_SOCKETS" using n' by (simp_all add: wf_host_def)
  obtain packet p where packet: "segment_packet (sk_local_ip s) ?ip ?g (TCP_HEADER_SIZE + TCP_MAX_PAYLOAD) = Some packet"
    "length packet \<le> ETHERNET_MAX_PAYLOAD" "tcp_carried packet (sk_local_ip s) ?ip ?g p"
  proof -
    let ?h = "tcp_init\<lparr>seg_src_port := sk_local_port s, seg_dst_port := sk_remote_port s, seg_seq := sk_send_seq s,
       seg_ack := sk_recv_seq s, seg_flags := TCP_FLAG_ACK OR TCP_FLAG_PSH, seg_window := TCP_WINDOW_SIZE, seg_payload := data\<rparr>"
    have "?g = tcp_seal (TCP_HEADER_SIZE + TCP_MAX_PAYLOAD) ?h (sk_local_ip s) ?ip" by (simp add: tcp_data_segment_def)
    moreover have "wf_segment ?h" "seg_checksum ?h = 0" "20 + length (seg_payload ?h) \<le> TCP_HEADER_SIZE + TCP_MAX_PAYLOAD"
      using data(2) by (simp_all add: wf_segment_def)
    ultimately show thesis
      using that segment_packet_fits [of ?h "TCP_HEADER_SIZE + TCP_MAX_PAYLOAD" "sk_local_ip s" "sk_local_ip s" ?ip ?ip] by metis
  qed
  have same: "host_mac ?A0 = host_mac A" "host_is_same_subnet ?A0 = host_is_same_subnet A" "wf_host ?A0"
    using n' by (simp_all add: host_mac_def host_is_same_subnet_def fun_eq_iff wf_host_def)
  have "cable a b ?w0" by (rule cable_put_host [where h = A]) (use n' in simp_all)
  then have n0: "neighbours a b ?A0 B ?w0" using n' same by (simp add: neighbours_def)
  have k0: "acquainted ?A0 B \<or> strangers ?A0 B" using k same by (simp add: acquainted_def)
  obtain w1 A1 B1 raw c where contact: "neighbours a b A1 B1 w1" "acquainted A1 B1" "like ?A0 A1" "like B B1"
    "w1 = put_host a A1 (put_host b B1 (?w0\<lparr>w_clock := c\<rparr>))"
    "framed raw (host_mac B) (host_mac ?A0) ETHERNET_TYPE_IPV4 packet"
    "\<forall>w4 A4. net_send (Suc (Suc depth)) (a, 0) raw w1 = Some w4 \<longrightarrow> get_host a w4 = Some A4 \<longrightarrow> h_queue A4 = h_queue A1 \<longrightarrow>
       arp_table_get (h_arp A4) (h_ip B) \<noteq> None \<longrightarrow>
       (\<exists>q. wf_ring HOST_PENDING_QUEUE_MAX_ENTRIES q \<and>
         host_send_l3_packet ?send a ?ip ETHERNET_TYPE_IPV4 packet ?w0 = Some (True, put_host a (A4\<lparr>h_queue := q\<rparr>) w4))"
    by (rule contact [OF n0 k0 packet(2) ip, where depth = depth])
  note likes = like_simps [OF contact(3)] like_simps [OF contact(4)] and n1 = contact(1) [unfolded neighbours_def]
  have http1: "w_http w1 = w_http w" unfolding contact(5) by simp
  have find: "tcp_socket_find ((h_tcp A)[i := sent_data s data]) (h_ip A) (sk_local_port s) ?ip (sk_remote_port s) = Some i"
    by (rule find_updated) (use ra in \<open>simp_all add: s_def [symmetric] matches_connection_def\<close>)
  obtain g1 g2 a2 buf where run: "host_receive (net_send (Suc depth)) b raw w1 =
    Some (put_host a (tcp_noted ((h_tcp A1)[i := a2]) g1 A1) (put_host b (tcp_noted ((h_tcp B1)[j := got_data (h_tcp B1 ! j) buf data]) g2 B1) w1))"
    and a2: "\<exists>sb. a2 = (sent_data s data)\<lparr>sk_send_ack := sk_send_seq s + of_nat (length data), sk_send_buffer := sb\<rparr> \<and> sb_data sb = []"
    and buf: "window_clear buf" "rb_data buf = rb_data (sk_recv_buffer (h_tcp B1 ! j)) @ data"
    by (rule data_arrives [OF contact(1,2), where i = i and j = j and ?s0.0 = s and data = data and raw = raw and payload = packet and p = p and depth = depth])
      (use ra rb len likes ip find r(2) sync data http http1 contact(6) packet(3) same in
        \<open>simp_all add: s_def [symmetric] tcp_ready_def Let_def no_http_def\<close>)
  define A2 where "A2 = tcp_noted ((h_tcp A)[i := a2]) g1 A1"
  define B2 where "B2 = tcp_noted ((h_tcp B)[j := got_data (h_tcp B ! j) buf data]) g2 B1"
  have kept: "kept A1 A2" "kept B1 B2" unfolding A2_def B2_def by (simp_all add: kept_noted likes)
  let ?w2 = "put_host b B2 (put_host a A2 w1)"
  have "net_send (Suc (Suc depth)) (a, 0) raw w1 = Some ?w2"
    using cable_delivers [of a b w1 B1 "Suc depth" raw] n1 run likes by (simp add: A2_def B2_def put_swap [of b a])
  moreover have "h_queue A2 = h_queue A1" "arp_table_get (h_arp A2) (h_ip B) \<noteq> None" "get_host a ?w2 = Some A2"
    using contact(2) likes n1 by (simp_all add: A2_def acquainted_def)
  ultimately obtain q where q: "wf_ring HOST_PENDING_QUEUE_MAX_ENTRIES q"
    "host_send_l3_packet ?send a ?ip ETHERNET_TYPE_IPV4 packet ?w0 = Some (True, put_host a (A2\<lparr>h_queue := q\<rparr>) ?w2)"
    using contact(7) by blast
  let ?A = "A2\<lparr>h_queue := q\<rparr>"
  note after = neighbours_after [OF contact(1,2) kept _ _ _ q(1)]
  have w3: "put_host a ?A ?w2 = put_host a ?A (put_host b B2 (w\<lparr>w_clock := c\<rparr>))"
    using n' unfolding contact(5) by (simp add: put_swap [of b a])
  have tcp: "h_tcp ?A = (h_tcp A)[i := a2]" "h_tcp B2 = (h_tcp B)[j := got_data (h_tcp B ! j) buf data]"
    using likes by (simp_all add: A2_def B2_def)
  have conn': "tcp_connected ?A i B2 j"
    by (rule transfer_connected [OF conn len a2 [unfolded s_def] buf(1) tcp(1) _ tcp(2)]) (simp_all add: A2_def B2_def likes)
  have keep: "kept A ?A" "kept B B2"
    using after(4) kept(2) kept_trans kept_like [OF contact(4)] kept_like [OF contact(3)] by (auto simp: A2_def B2_def kept_def)
  show ?thesis
    by (rule that [OF packet(1) q(2) after(2,3) conn' keep w3 tcp _ a2]) (use buf(2) likes in \<open>simp_all add: A2_def B2_def\<close>)
qed

end
