(* ===== verification/Tcp_Commands.thy ===== *)
theory Tcp_Commands
  imports Two_Hosts Tcp_Dialogue Dns_Names
begin

text \<open>
  The TCP commands of the command line on two hosts with a cable between them: listen, connect, send and
  receive, each on its own, and the conversation they make.
\<close>

declare net_send.simps(2) [simp del]

section \<open>The network around a command\<close>

lemma find_host_world [simp]: "cli_find_host (s\<lparr>si_world := w\<rparr>) name = cli_find_host s name"
  by (simp add: cli_find_host_def find_typed_def simulator_find_node_def cong: option.case_cong if_cong)

text \<open>Writing the socket table of a host changes nothing for its neighbour.\<close>

lemma neighbours_sym: "neighbours a b A B w \<Longrightarrow> neighbours b a B A w"
  by (auto simp: neighbours_def intro: cable_sym)

lemma neighbours_kept:
  assumes "neighbours a b A B w" "kept A A'" "h_arp A' = h_arp A" "h_queue A' = h_queue A"
  shows "neighbours a b A' B (put_host a A' w)" "acquainted A B \<Longrightarrow> acquainted A' B" "acquainted B A \<Longrightarrow> acquainted B A'"
    "acquainted A B \<or> strangers A B \<Longrightarrow> acquainted A' B \<or> strangers A' B"
    "acquainted B A \<or> strangers B A \<Longrightarrow> acquainted B A' \<or> strangers B A'"
proof -
  note n = assms(1) [unfolded neighbours_def] and k = kept_simps [OF assms(2)]
  have "cable a b (put_host a A' w)" by (rule cable_put_host [where h = A]) (use n k in simp_all)
  then show "neighbours a b A' B (put_host a A' w)" using n k assms(3,4) by (simp add: neighbours_def wf_host_def)
  have same: "host_find_pending_for_ip A' = host_find_pending_for_ip A"
    using assms(4) by (simp add: host_find_pending_for_ip_def fun_eq_iff)
  show "acquainted A B \<Longrightarrow> acquainted A' B" "acquainted B A \<Longrightarrow> acquainted B A'"
    "acquainted A B \<or> strangers A B \<Longrightarrow> acquainted A' B \<or> strangers A' B"
    "acquainted B A \<or> strangers B A \<Longrightarrow> acquainted B A' \<or> strangers B A'"
    using k assms(3,4) same by (auto simp: acquainted_def strangers_def)
qed

lemma with_host_found:
  assumes "cli_find_host s name = Some (Some n)" "get_host n (si_world s) = Some h"
  shows "with_host name s body = body n h"
  using assms by (simp add: with_host_def)

section \<open>Connecting\<close>

lemma selected_port:
  assumes "length (h_tcp h) = TCP_MAX_SOCKETS"
  obtains sp np where "host_select_tcp_source_port h ip port preferred = (sp, h\<lparr>h_next_tcp_port := np\<rparr>)" "sp \<noteq> 0"
    "\<forall>s \<in> set (h_tcp h). \<not> matches_connection s me sp ip port"
proof -
  let ?p = "if h_next_tcp_port h \<noteq> 0 then h_next_tcp_port h else preferred"
  define sp where "sp = tcp_socket_select_source_port (h_tcp h) ip port ?p"
  have sp: "1024 \<le> unat sp" "\<forall>s\<in>set (h_tcp h). \<not> (sk_in_use s \<and> sk_state s \<noteq> TCP_CLOSED \<and> sk_local_port s = sp \<and>
      sk_remote_port s = port \<and> octet (sk_remote_ip s) = octet ip)"
    using source_port_unused [OF _ sp_def] assms by simp_all
  then have "sp \<noteq> 0" by auto
  then have "host_select_tcp_source_port h ip port preferred = (sp, h\<lparr>h_next_tcp_port := (if sp = 65535 then 1024 else sp + 1)\<rparr>)"
    by (simp add: host_select_tcp_source_port_def sp_def [symmetric] Let_def)
  then show ?thesis using \<open>sp \<noteq> 0\<close> sp(2) by (intro that) (auto simp: matches_connection_def)
qed

lemma connect_command:
  assumes "cli_find_host s name = Some (Some a)" and n: "neighbours a b A B (si_world s)" and k: "acquainted A B \<or> strangers A B"
    and words: "ip_parse address zero_ip = Some (True, ip)" "octet ip = octet (h_ip B)" "atoi port_text = Some port" "\<not> bad_port port"
    and slots: "tcp_socket_alloc (h_tcp A) = Some (i, socks)" "tcp_socket_alloc (h_tcp B) = Some (j, socks')"
    and l: "\<And>sp. tcp_socket_find (h_tcp B) (h_ip B) (of_int port) (h_ip A) sp = Some l" "sk_is_listening (h_tcp B ! l)"
  obtains w A' B' c sp src where
    "cmd_tcp_connect (net_send (Suc (Suc (Suc (Suc (Suc depth)))))) [name, ''tcp_connect'', address, port_text] s =
       Some (println (host_name A @ '' TCP connect initiated to '' @ ip_to_string ip 20 False @ '':'' @ decimal (nat port)),
         s\<lparr>si_world := w\<rparr>)"
    "neighbours a b A' B' w" "acquainted A' B'" "tcp_connected A' i B' j" "kept A A'" "kept B B'"
    "w_http w = w_http (si_world s)" "c = tcp_socket_connect allocated_socket (h_ip A) sp ip (of_int port)"
    "h_tcp A' = (h_tcp A)[i := client_done c]" "h_tcp B' = (h_tcp B)[j := server_done l (h_tcp B ! l) c src]"
proof -
  note n' = n [unfolded neighbours_def]
  let ?port = "of_int port :: u16" and ?w = "si_world s"
  have port: "?port \<noteq> 0" "unat ?port = nat port"
  proof -
    have "uint ?port = port" using words(4) by (simp add: bad_port_def uint_word_of_int_eq take_bit_int_eq_self)
    then show "unat ?port = nat port" "?port \<noteq> 0" using words(4) by (auto simp: bad_port_def unat_eq_nat_uint)
  qed
  have len: "length (h_tcp A) = TCP_MAX_SOCKETS" using n' by (simp add: wf_host_def)
  note slot = alloc_cases(1,2) [OF slots(1)]
  let ?h = "A\<lparr>h_tcp := socks\<rparr>" and ?pref = "if 65535 < unat ?port + 1000 then 49152 else of_nat (unat ?port + 1000) :: u16"
  obtain sp np where sp: "host_select_tcp_source_port ?h ip ?port ?pref = (sp, ?h\<lparr>h_next_tcp_port := np\<rparr>)" "sp \<noteq> 0"
    "\<forall>s \<in> set (h_tcp ?h). \<not> matches_connection s (h_ip A) sp ip ?port"
    using selected_port [of ?h ip ?port ?pref "h_ip A"] slot len by auto
  define c where "c = tcp_socket_connect allocated_socket (h_ip A) sp ip ?port"
  note c = client_socket [OF c_def]
  define A0 where "A0 = A\<lparr>h_next_tcp_port := np, h_tcp := (h_tcp A)[i := c]\<rparr>"
  have A0: "kept A A0" "h_arp A0 = h_arp A" "h_queue A0 = h_queue A" by (simp_all add: A0_def kept_def)
  have "tcp_socket_find (socks[i := c]) (h_ip A) sp ip ?port = Some i"
    by (rule find_new) (use sp(3) slot c in \<open>simp_all add: matches_connection_def\<close>)
  then have find: "tcp_socket_find (h_tcp A0) (h_ip A0) sp (h_ip B) ?port = Some i"
    using slot words(2) find_octets [of "h_ip A" "h_ip A" ip "h_ip B"] by (simp add: A0_def)
  obtain packet w' A' B' c' where sent:
    "segment_packet (h_ip A0) ip (tcp_syn_segment (h_tcp A0 ! i)) TCP_HEADER_SIZE = Some packet"
    "host_send_l3_packet (net_send (Suc (Suc (Suc (Suc (Suc depth)))))) a ip ETHERNET_TYPE_IPV4 packet (put_host a A0 ?w) = Some (True, w')"
    "neighbours a b A' B' w'" "acquainted A' B'" "tcp_connected A' i B' j" "kept A0 A'" "kept B B'"
    "w' = put_host a A' (put_host b B' ((put_host a A0 ?w)\<lparr>w_clock := c'\<rparr>))"
    "h_tcp A' = (h_tcp A0)[i := client_done (h_tcp A0 ! i)]"
    "\<exists>src. h_tcp B' = (h_tcp B)[j := server_done l (h_tcp B ! l) (h_tcp A0 ! i) src]"
    by (rule syn_connects [OF neighbours_kept(1,4) [OF n A0], where i = i and sp = sp and ip = ip and dp = ?port and l = l and j = j
          and depth = depth and socks = socks'])
      (use k words(2) find sp(2) port(1) l slots(2) slot len in \<open>simp_all add: A0_def c_def\<close>)
  have at: "h_tcp A0 ! i = c" "h_ip A0 = h_ip A" using slot(1) by (simp_all add: A0_def)
  obtain src where src: "h_tcp B' = (h_tcp B)[j := server_done l (h_tcp B ! l) c src]" using sent(10) at by auto
  have "cmd_tcp_connect (net_send (Suc (Suc (Suc (Suc (Suc depth)))))) [name, ''tcp_connect'', address, port_text] s =
       Some (println (host_name A @ '' TCP connect initiated to '' @ ip_to_string ip 20 False @ '':'' @ decimal (nat port)),
         s\<lparr>si_world := w'\<rparr>)"
    using assms(1) n' words sp(1,2) slots(1) slot sent(1,2) port at c
    by (simp add: cmd_tcp_connect_def with_host_found [of _ _ a A] with_address_port_def Let_def keep_def c_def [symmetric] A0_def [symmetric]
        host_name_def)
  then show ?thesis
    by (rule that [OF _ sent(3-5) _ sent(7) _ c_def _ src])
      (use sent(6,8,9) A0(1) at kept_trans in \<open>auto simp: A0_def\<close>)
qed

section \<open>Sending and receiving\<close>

lemma send_command:
  assumes "cli_find_host s name = Some (Some a)" and n: "neighbours a b A B (si_world s)" and k: "acquainted A B"
    and conn: "tcp_connected A i B j" and i: "find_socket (\<lambda>k. sk_state k = TCP_ESTABLISHED) A = Some i"
    and line: "line \<noteq> []" "length line \<le> TCP_MAX_PAYLOAD" "unat (sk_send_seq (h_tcp A ! i)) + length line < 2 ^ 32"
      "length (rb_data (sk_recv_buffer (h_tcp B ! j))) + length line \<le> TCP_SOCKET_BUFFER_SIZE"
    and http: "no_http a (si_world s) (h_tcp A ! i)"
      "sk_local_port (h_tcp B ! j) \<noteq> HTTP_SERVER_PORT \<or> hs_bound_host (w_http (si_world s)) \<noteq> Some b"
  obtains w A' B' buf where
    "cmd_tcp_send (net_send (Suc (Suc (Suc (Suc depth))))) [name, ''tcp_send'', line] s =
       Some (println (host_name A @ '' Sent '' @ decimal (length line) @ '' bytes via TCP''), s\<lparr>si_world := w\<rparr>)"
    "neighbours a b A' B' w" "acquainted A' B'" "tcp_connected A' i B' j" "kept A A'" "kept B B'"
    "h_tcp B' = (h_tcp B)[j := got_data (h_tcp B ! j) buf (map byte_of_char line)]"
    "rb_data buf = rb_data (sk_recv_buffer (h_tcp B ! j)) @ map byte_of_char line"
proof -
  note n' = n [unfolded neighbours_def]
  let ?data = "map byte_of_char line" and ?w = "si_world s" and ?s = "h_tcp A ! i"
  note r = conn [unfolded tcp_connected_def tcp_ready_def Let_def, THEN conjunct1]
  obtain packet w' A' B' a2 buf c where sent:
    "segment_packet (sk_local_ip ?s) (sk_remote_ip ?s) (tcp_data_segment (with_data ?s ?data) ?data) (TCP_HEADER_SIZE + TCP_MAX_PAYLOAD) = Some packet"
    "host_send_l3_packet (net_send (Suc (Suc (Suc (Suc depth))))) a (sk_remote_ip ?s) ETHERNET_TYPE_IPV4 packet
       (put_host a (A\<lparr>h_tcp := (h_tcp A)[i := sent_data ?s ?data]\<rparr>) ?w) = Some (True, w')"
    "neighbours a b A' B' w'" "acquainted A' B'" "tcp_connected A' i B' j" "kept A A'" "kept B B'"
    "w' = put_host a A' (put_host b B' (?w\<lparr>w_clock := c\<rparr>))" "h_tcp A' = (h_tcp A)[i := a2]"
    "h_tcp B' = (h_tcp B)[j := got_data (h_tcp B ! j) buf ?data]" "rb_data buf = rb_data (sk_recv_buffer (h_tcp B ! j)) @ ?data"
    "\<exists>sb. a2 = (sent_data ?s ?data)\<lparr>sk_send_ack := sk_send_seq ?s + of_nat (length ?data), sk_send_buffer := sb\<rparr> \<and> sb_data sb = []"
    by (rule segment_delivers [OF n k conn, where data = ?data and depth = depth]) (use line http in simp_all)
  have sock: "tcp_socket_send ?s ?data = (True, with_data ?s ?data)"
    using r line(1,2) by (simp add: tcp_socket_send_def)
  have "cmd_tcp_send (net_send (Suc (Suc (Suc (Suc depth))))) [name, ''tcp_send'', line] s =
       Some (println (host_name A @ '' Sent '' @ decimal (length line) @ '' bytes via TCP''), s\<lparr>si_world := w'\<rparr>)"
    using assms(1) n' i line(2) sock sent(1,2)
    by (simp add: cmd_tcp_send_def with_host_found [of _ _ a A] put_tcp_def keep_def host_name_def)
  then show ?thesis using sent(3-7,10,11) by (rule that)
qed

lemma recv_command:
  assumes "cli_find_host s name = Some (Some b)" and B: "get_host b (si_world s) = Some B"
    and j: "find_socket (\<lambda>k. sk_state k = TCP_ESTABLISHED \<or> sk_has_data k) B = Some j"
    and line: "sk_has_data (h_tcp B ! j)" "rb_data (sk_recv_buffer (h_tcp B ! j)) = map byte_of_char line"
      "line \<noteq> []" "length line \<le> TCP_MAX_PAYLOAD" "CHR 0x00 \<notin> set line"
  shows "\<exists>s'. cmd_tcp_recv [name, ''tcp_recv''] s =
    Some (println (host_name B @ '' Received '' @ decimal (length line) @ '' bytes: '' @ line), s')"
proof -
  have "map (char_of_byte \<circ> byte_of_char) line = line" by (rule map_idI) simp
  then have "shown (map byte_of_char line) = line" using line(5) by (simp add: shown_def clean_c_string)
  moreover obtain sock where "tcp_socket_recv (h_tcp B ! j) TCP_MAX_PAYLOAD = (map byte_of_char line, sock)"
    using line by (simp add: tcp_socket_recv_def)
  ultimately show ?thesis
    using assms(1) B j line(1,3)
    by (simp add: cmd_tcp_recv_def with_host_found [of _ _ b B] put_tcp_def keep_def host_name_def)
qed

section \<open>The conversation\<close>

text \<open>A host none of whose sockets is in use.\<close>

definition tcp_idle :: "host \<Rightarrow> bool" where
  "tcp_idle h \<longleftrightarrow> list_all (\<lambda>s. \<not> sk_in_use s) (h_tcp h)"

lemma fresh_idle: "tcp_idle (fst (host_init_with_macs rnd k n num macs))" "tcp_idle (cabled_host n l)"
  by (simp_all add: tcp_idle_def cabled_host_def host_init_with_macs_def case_prod_unfold Let_def tcp_socket_init_def zero_socket_def list_all_iff)

lemma idle_alloc:
  assumes "tcp_idle h" "length (h_tcp h) = TCP_MAX_SOCKETS"
  shows "tcp_socket_alloc (h_tcp h) = Some (0, (h_tcp h)[0 := allocated_socket])"
    "tcp_socket_alloc ((h_tcp h)[0 := tcp_socket_listen allocated_socket ip port]) =
       Some (1, (h_tcp h)[0 := tcp_socket_listen allocated_socket ip port, 1 := allocated_socket])"
proof -
  have idle: "\<not> sk_in_use (h_tcp h ! i)" if "i < TCP_MAX_SOCKETS" for i
    using assms that by (simp add: tcp_idle_def list_all_length)
  have "first_index (\<lambda>i. \<not> sk_in_use (h_tcp h ! i)) (length (h_tcp h)) = Some 0"
    using idle [of 0] assms(2) by (simp add: first_index_Some)
  then show "tcp_socket_alloc (h_tcp h) = Some (0, (h_tcp h)[0 := allocated_socket])" by (simp add: tcp_socket_alloc_def)
  let ?ss = "(h_tcp h)[0 := tcp_socket_listen allocated_socket ip port]"
  have "first_index (\<lambda>i. \<not> sk_in_use (?ss ! i)) (length ?ss) = Some 1"
    using idle [of 1] assms(2) by (simp add: first_index_Some tcp_socket_listen_def allocated_socket_def)
  then show "tcp_socket_alloc ?ss = Some (1, ?ss[1 := allocated_socket])" by (simp add: tcp_socket_alloc_def)
qed

lemma idle_listener:
  assumes "tcp_idle h" "length (h_tcp h) = TCP_MAX_SOCKETS"
  shows "tcp_socket_find ((h_tcp h)[0 := tcp_socket_listen allocated_socket (h_ip h) port]) (h_ip h) port ip sp = Some 0"
proof -
  let ?ss = "(h_tcp h)[0 := tcp_socket_listen allocated_socket (h_ip h) port]"
  have "\<not> matches_connection (?ss ! i) (h_ip h) port ip sp" if "i < length ?ss" for i
    using assms that by (cases i) (auto simp: tcp_idle_def list_all_length matches_connection_def tcp_socket_listen_def)
  then have "first_index (\<lambda>i. matches_connection (?ss ! i) (h_ip h) port ip sp) (length ?ss) = None" by simp
  moreover have "first_index (\<lambda>i. matches_listener (?ss ! i) (h_ip h) port) (length ?ss) = Some 0"
    using assms(2) by (simp add: first_index_Some matches_listener_def tcp_socket_listen_def allocated_socket_def)
  ultimately show ?thesis by (simp only: tcp_socket_find_def option.case)
qed

text \<open>Listening on one host and connecting from the other.\<close>

lemma opened:
  assumes "cli_find_host s nameA = Some (Some a)" "cli_find_host s nameB = Some (Some b)"
    and "neighbours a b A B (si_world s)" "acquainted A B \<or> strangers A B" "tcp_idle A" "tcp_idle B"
    and "ip_parse address zero_ip = Some (True, ip)" "octet ip = octet (h_ip B)"
    and "atoi port_text = Some port" "\<not> bad_port port"
  obtains s1 w A' B' c l src where
    "cmd_tcp_listen [nameB, ''tcp_listen'', port_text] s = Some ([], s1)"
    "cmd_tcp_connect (net_send (Suc (Suc (Suc (Suc (Suc depth)))))) [nameA, ''tcp_connect'', address, port_text] s1 =
       Some (println (host_name A @ '' TCP connect initiated to '' @ ip_to_string ip 20 False @ '':'' @ decimal (nat port)),
         s\<lparr>si_world := w\<rparr>)"
    "neighbours a b A' B' w" "acquainted A' B'" "tcp_connected A' 0 B' 1" "kept A A'" "kept B B'"
    "w_http w = w_http (si_world s)" "sk_state c = TCP_SYN_SENT" "\<not> sk_has_data c" "sk_send_seq c = 1000" "sk_in_use c"
    "sk_remote_port c = of_int port" "sk_state l = TCP_LISTEN" "\<not> sk_has_data l"
    "h_tcp A' = (h_tcp A)[0 := client_done c]" "h_tcp B' = (h_tcp B)[0 := l, 1 := server_done 0 l c src]"
proof -
  let ?w = "si_world s" and ?port = "of_int port :: u16"
  note n = assms(3) [unfolded neighbours_def]
  have len: "length (h_tcp A) = TCP_MAX_SOCKETS" "length (h_tcp B) = TCP_MAX_SOCKETS" using n by (simp_all add: wf_host_def)
  define L where "L = tcp_socket_listen allocated_socket (h_ip B) ?port"
  have L: "sk_is_listening L" "sk_state L = TCP_LISTEN" "\<not> sk_has_data L"
    by (simp_all add: L_def tcp_socket_listen_def allocated_socket_def zero_socket_def)
  define B0 where "B0 = B\<lparr>h_tcp := (h_tcp B)[0 := L]\<rparr>"
  have B0: "kept B B0" "h_arp B0 = h_arp B" "h_queue B0 = h_queue B" by (simp_all add: B0_def kept_def)
  define s1 where "s1 = s\<lparr>si_world := put_host b B0 ?w\<rparr>"
  have listen: "cmd_tcp_listen [nameB, ''tcp_listen'', port_text] s = Some ([], s1)"
    using assms(2,9,10) n len idle_alloc(1) [OF assms(6) len(2)]
    by (simp add: cmd_tcp_listen_def with_host_found [of _ _ b B] keep_def s1_def B0_def L_def)
  note k1 = neighbours_kept [OF neighbours_sym [OF assms(3)] B0]
  obtain w2 A2 B2 c sp src where connect:
    "cmd_tcp_connect (net_send (Suc (Suc (Suc (Suc (Suc depth)))))) [nameA, ''tcp_connect'', address, port_text] s1 =
       Some (println (host_name A @ '' TCP connect initiated to '' @ ip_to_string ip 20 False @ '':'' @ decimal (nat port)), s1\<lparr>si_world := w2\<rparr>)"
    "neighbours a b A2 B2 w2" "acquainted A2 B2" "tcp_connected A2 0 B2 1" "kept A A2" "kept B0 B2"
    "w_http w2 = w_http (si_world s1)" "c = tcp_socket_connect allocated_socket (h_ip A) sp ip ?port"
    "h_tcp A2 = (h_tcp A)[0 := client_done c]" "h_tcp B2 = (h_tcp B0)[1 := server_done 0 (h_tcp B0 ! 0) c src]"
    by (rule connect_command [where s = s1 and name = nameA and a = a and b = b and A = A and B = B0 and address = address and ip = ip
          and port_text = port_text and port = port and i = 0 and j = 1 and l = 0 and depth = depth])
      (use assms(1,4,7-10) neighbours_sym [OF k1(1)] k1(5) idle_alloc [OF assms(5) len(1)] idle_alloc [OF assms(6) len(2)]
        idle_listener [OF assms(6) len(2), of ?port] L len in \<open>simp_all add: s1_def B0_def L_def\<close>)
  note c = client_socket [OF connect(8)]
  have "kept B B2" by (rule kept_trans [OF B0(1) connect(6)])
  moreover have "s1\<lparr>si_world := w2\<rparr> = s\<lparr>si_world := w2\<rparr>" "w_http w2 = w_http ?w" using connect(7) by (simp_all add: s1_def)
  moreover have "h_tcp B2 = (h_tcp B)[0 := L, 1 := server_done 0 L c src]" using connect(10) len by (simp add: B0_def)
  ultimately show ?thesis using that [OF listen _ connect(2-5) _ _ c(1,3,8,9,7) L(2,3) connect(9)] connect(1) by metis
qed

text \<open>C2. A conversation on the command line: after \<^verbatim>\<open>tcp_listen\<close> on one host,
  \<^verbatim>\<open>tcp_connect\<close> to its address on the other leaves the two sockets connected (the three segments of the
  handshake are exchanged inside the call), and what \<^verbatim>\<open>tcp_send\<close> is given there is what
  \<^verbatim>\<open>tcp_recv\<close> prints here, to the byte. The hosts are on one cable, and no socket of theirs is in use; they need not know
  each other's hardware addresses.\<close>

theorem conversation:
  assumes "cli_find_host s nameA = Some (Some a)" "cli_find_host s nameB = Some (Some b)"
    and "neighbours a b A B (si_world s)" "acquainted A B \<or> strangers A B" "tcp_idle A" "tcp_idle B"
    and "ip_parse address zero_ip = Some (True, ip)" "octet ip = octet (h_ip B)"
    and "atoi port_text = Some port" "0 < port" "port \<le> 65535" "port \<noteq> 80 \<or> hs_bound_host (w_http (si_world s)) \<noteq> Some b"
    and "line \<noteq> []" "length line \<le> TCP_MAX_PAYLOAD" "CHR 0x00 \<notin> set line"
  shows "\<exists>s1 s2 s3 s4 A2 B2. cmd_tcp_listen [nameB, ''tcp_listen'', port_text] s = Some ([], s1) \<and>
    cmd_tcp_connect (net_send (depth + 5)) [nameA, ''tcp_connect'', address, port_text] s1 =
      Some (println (host_name A @ '' TCP connect initiated to '' @ ip_to_string ip 20 False @ '':'' @ decimal (nat port)), s2) \<and>
    get_host a (si_world s2) = Some A2 \<and> get_host b (si_world s2) = Some B2 \<and> tcp_connected A2 0 B2 1 \<and>
    cmd_tcp_send (net_send (depth + 5)) [nameA, ''tcp_send'', line] s2 =
      Some (println (host_name A @ '' Sent '' @ decimal (length line) @ '' bytes via TCP''), s3) \<and>
    cmd_tcp_recv [nameB, ''tcp_recv''] s3 =
      Some (println (host_name B @ '' Received '' @ decimal (length line) @ '' bytes: '' @ line), s4)"
proof -
  let ?send = "net_send (Suc (Suc (Suc (Suc (Suc depth)))))" and ?w = "si_world s" and ?port = "of_int port :: u16"
  have len: "length (h_tcp A) = TCP_MAX_SOCKETS" "length (h_tcp B) = TCP_MAX_SOCKETS"
    using assms(3) by (simp_all add: neighbours_def wf_host_def)
  have "uint ?port = port" using assms(10,11) by (simp add: uint_word_of_int_eq take_bit_int_eq_self)
  then have web: "?port = HTTP_SERVER_PORT \<longrightarrow> hs_bound_host (w_http ?w) \<noteq> Some b" using assms(12) by auto
  have port: "\<not> bad_port port" using assms(10,11) by (simp add: bad_port_def)
  obtain s1 w2 A2 B2 c l src where open2:
    "cmd_tcp_listen [nameB, ''tcp_listen'', port_text] s = Some ([], s1)"
    "cmd_tcp_connect ?send [nameA, ''tcp_connect'', address, port_text] s1 =
       Some (println (host_name A @ '' TCP connect initiated to '' @ ip_to_string ip 20 False @ '':'' @ decimal (nat port)), s\<lparr>si_world := w2\<rparr>)"
    "neighbours a b A2 B2 w2" "acquainted A2 B2" "tcp_connected A2 0 B2 1" "kept A A2" "kept B B2" "w_http w2 = w_http ?w"
    and ends: "sk_state c = TCP_SYN_SENT" "\<not> sk_has_data c" "sk_send_seq c = 1000" "sk_in_use c"
    "sk_remote_port c = ?port" "sk_state l = TCP_LISTEN" "\<not> sk_has_data l"
    "h_tcp A2 = (h_tcp A)[0 := client_done c]" "h_tcp B2 = (h_tcp B)[0 := l, 1 := server_done 0 l c src]"
    by (rule opened [OF assms(1-9) port])
  obtain w3 A3 B3 buf where sent:
    "cmd_tcp_send ?send [nameA, ''tcp_send'', line] (s\<lparr>si_world := w2\<rparr>) =
       Some (println (host_name A2 @ '' Sent '' @ decimal (length line) @ '' bytes via TCP''), s\<lparr>si_world := w2\<rparr>\<lparr>si_world := w3\<rparr>)"
    "neighbours a b A3 B3 w3" "acquainted A3 B3" "tcp_connected A3 0 B3 1" "kept A2 A3" "kept B2 B3"
    "h_tcp B3 = (h_tcp B2)[1 := got_data (h_tcp B2 ! 1) buf (map byte_of_char line)]"
    "rb_data buf = rb_data (sk_recv_buffer (h_tcp B2 ! 1)) @ map byte_of_char line"
    by (rule send_command [where s = "s\<lparr>si_world := w2\<rparr>" and name = nameA and a = a and b = b and A = A2 and B = B2 and i = 0 and j = 1
          and line = line and depth = "Suc depth"])
      (use assms(1,13,14) open2(3-5,8) ends len web in \<open>simp_all add: find_socket_def first_index_Some no_http_def\<close>)
  have names: "host_name A2 = host_name A" "host_name B3 = host_name B"
    using open2(6,7) sent(6) by (simp_all add: kept_def host_name_def)
  have "\<exists>s4. cmd_tcp_recv [nameB, ''tcp_recv''] (s\<lparr>si_world := w3\<rparr>) =
      Some (println (host_name B3 @ '' Received '' @ decimal (length line) @ '' bytes: '' @ line), s4)"
    by (rule recv_command [of _ _ b _ 1])
      (use assms(2,13-15) sent(2,7,8) ends len in \<open>simp_all add: find_socket_def first_index_Some neighbours_def\<close>)
  moreover have "get_host a w2 = Some A2" "get_host b w2 = Some B2" using open2(3) by (simp_all add: neighbours_def)
  moreover have "net_send (depth + 5) = ?send" by (simp add: numeral_eq_Suc)
  ultimately show ?thesis using open2(1,2,5) sent(1) unfolding names by auto
qed

theorem conversation_witness:
  "\<exists>s s1 s2 s3 s4. cmd_tcp_listen [''H2'', ''tcp_listen'', ''7''] s = Some ([], s1) \<and>
    cmd_tcp_connect (net_send 5) [''H1'', ''tcp_connect'', ''10.0.0.2'', ''7''] s1 =
      Some (println (host_name (cabled_host 0 1) @ '' TCP connect initiated to 10.0.0.2:7''), s2) \<and>
    cmd_tcp_send (net_send 5) [''H1'', ''tcp_send'', ''hello''] s2 = Some (println (host_name (cabled_host 0 1) @ '' Sent 5 bytes via TCP''), s3) \<and>
    cmd_tcp_recv [''H2'', ''tcp_recv''] s3 = Some (println (host_name (cabled_host 1 2) @ '' Received 5 bytes: hello''), s4)"
proof -
  let ?A = "cabled_host 0 1" and ?B = "cabled_host 1 2" and ?ip = "zero_ip\<lparr>octet := Octets 10 0 0 2\<rparr>"
  let ?s = "two_hosts (cabled_world ?A ?B undefined)"
  have net: "neighbours 0 1 ?A ?B (si_world ?s)" unfolding two_hosts by (rule cabled_strangers)
  have words: "ip_parse ''10.0.0.2'' zero_ip = Some (True, ?ip)" "atoi ''7'' = Some 7" by code_simp+
  have ip: "octet ?ip = octet (h_ip ?B)" by (simp add: cabled_host_simps ip_init_def)
  have rest: "(0 :: int) < 7" "(7 :: int) \<le> 65535" "''hello'' \<noteq> []" "length ''hello'' \<le> TCP_MAX_PAYLOAD" "CHR 0x00 \<notin> set ''hello''"
    "(7 :: int) \<noteq> 80 \<or> hs_bound_host (w_http (si_world ?s)) \<noteq> Some 1" by simp_all
  have talk: "\<exists>s1 s2 s3 s4 A2 B2. cmd_tcp_listen [''H2'', ''tcp_listen'', ''7''] ?s = Some ([], s1) \<and>
    cmd_tcp_connect (net_send (0 + 5)) [''H1'', ''tcp_connect'', ''10.0.0.2'', ''7''] s1 =
      Some (println (host_name ?A @ '' TCP connect initiated to '' @ ip_to_string ?ip 20 False @ '':'' @ decimal (nat 7)), s2) \<and>
    get_host 0 (si_world s2) = Some A2 \<and> get_host 1 (si_world s2) = Some B2 \<and> tcp_connected A2 0 B2 1 \<and>
    cmd_tcp_send (net_send (0 + 5)) [''H1'', ''tcp_send'', ''hello''] s2 =
      Some (println (host_name ?A @ '' Sent '' @ decimal (length ''hello'') @ '' bytes via TCP''), s3) \<and>
    cmd_tcp_recv [''H2'', ''tcp_recv''] s3 =
      Some (println (host_name ?B @ '' Received '' @ decimal (length ''hello'') @ '' bytes: '' @ ''hello''), s4)"
    by (rule conversation [OF two_hosts(2,3) net disjI2 [OF cabled_strangers(2)] fresh_idle(2) fresh_idle(2) words(1) ip words(2)
          rest(1,2,6) rest(3-5)])
  have "ip_to_string ?ip 20 False = ''10.0.0.2''" "decimal (nat 7) = ''7''" "decimal (length ''hello'') = ''5''" by code_simp+
  note texts = this
  have lines: "'' TCP connect initiated to '' @ ip_to_string ?ip 20 False @ '':'' @ decimal (nat 7) = '' TCP connect initiated to 10.0.0.2:7''"
    "'' Sent '' @ decimal (length ''hello'') @ '' bytes via TCP'' = '' Sent 5 bytes via TCP''"
    "'' Received '' @ decimal (length ''hello'') @ '' bytes: '' @ ''hello'' = '' Received 5 bytes: hello''"
    unfolding texts by simp_all
  obtain s1 s2 s3 s4 where talk: "cmd_tcp_listen [''H2'', ''tcp_listen'', ''7''] ?s = Some ([], s1)"
    "cmd_tcp_connect (net_send 5) [''H1'', ''tcp_connect'', ''10.0.0.2'', ''7''] s1 =
      Some (println (host_name ?A @ '' TCP connect initiated to 10.0.0.2:7''), s2)"
    "cmd_tcp_send (net_send 5) [''H1'', ''tcp_send'', ''hello''] s2 = Some (println (host_name ?A @ '' Sent 5 bytes via TCP''), s3)"
    "cmd_tcp_recv [''H2'', ''tcp_recv''] s3 = Some (println (host_name ?B @ '' Received 5 bytes: hello''), s4)"
    using talk unfolding lines add_0 by (elim exE conjE)
  show ?thesis
    by (rule exI [of _ ?s], rule exI [of _ s1], rule exI [of _ s2], rule exI [of _ s3], rule exI [of _ s4]) (intro conjI talk)
qed

end
