(* ===== verification/Session_Depth.thy ===== *)
theory Session_Depth
  imports Send_Depth Cli
begin

text \<open>
  What a session shows does not depend on the bound on nested sends: monotonicity of the commands in
  the sending function, and of the whole session.
\<close>

lemma below_case_sum [below_intros]:
  "(\<And>v. below (f v) (f' v)) \<Longrightarrow> (\<And>v. below (g v) (g' v)) \<Longrightarrow>
    below (case t of Inl v \<Rightarrow> f v | Inr v \<Rightarrow> g v) (case t of Inl v \<Rightarrow> f' v | Inr v \<Rightarrow> g' v)"
  by (cases t) simp_all

lemma below_map_option [below_intros]: "below x y \<Longrightarrow> below (map_option f x) (map_option f y)"
  by (auto simp: below_def)

lemma below_with_host [below_intros]:
  "(\<And>n h. below (f n h) (g n h)) \<Longrightarrow> below (with_host name s f) (with_host name s g)"
  unfolding with_host_def by (intro below_intros)

lemma below_with_probe [below_intros]:
  "(\<And>n ip. below (f n ip) (g n ip)) \<Longrightarrow> below (with_probe c toks s f) (with_probe c toks s g)"
  unfolding with_probe_def by (intro below_intros)

lemma below_with_address_port [below_intros]:
  "(\<And>ip port. below (f ip port) (g ip port)) \<Longrightarrow> below (with_address_port a p s f) (with_address_port a p s g)"
  unfolding with_address_port_def by (intro below_intros)

lemma below_server_command [below_intros]:
  "below x x' \<Longrightarrow> below y y' \<Longrightarrow> below (server_command c toks s x y) (server_command c toks s x' y')"
  unfolding server_command_def by (intro below_intros)

section \<open>Commands\<close>

lemma below_simulator_load_json [below_intros]:
  assumes s: "weaker send send'"
  shows "below (simulator_load_json send x1 x2 x3)
    (simulator_load_json send' x1 x2 x3)"
  unfolding simulator_load_json_def by (intro below_intros s s [THEN weakerD])

lemma below_simulator_load [below_intros]:
  assumes s: "weaker send send'"
  shows "below (simulator_load send x1 x2 x3)
    (simulator_load send' x1 x2 x3)"
  unfolding simulator_load_def by (intro below_intros s s [THEN weakerD])

lemma below_cmd_ping [below_intros]:
  assumes s: "weaker send send'"
  shows "below (cmd_ping send x1 x2)
    (cmd_ping send' x1 x2)"
  unfolding cmd_ping_def by (intro below_intros s s [THEN weakerD])

lemma below_trace_hops [below_intros]:
  assumes s: "weaker send send'"
  shows "below (trace_hops send n ip ttls w) (trace_hops send' n ip ttls w)"
proof (induction ttls arbitrary: w)
  case (Cons ttl ttls)
  show ?case unfolding trace_hops.simps by (intro below_intros Cons.IH s)
qed (simp add: below_def)

lemma below_cmd_traceroute [below_intros]:
  assumes s: "weaker send send'"
  shows "below (cmd_traceroute send x1 x2)
    (cmd_traceroute send' x1 x2)"
  unfolding cmd_traceroute_def by (intro below_intros s s [THEN weakerD])

lemma below_cmd_tcp_connect [below_intros]:
  assumes s: "weaker send send'"
  shows "below (cmd_tcp_connect send x1 x2)
    (cmd_tcp_connect send' x1 x2)"
  unfolding cmd_tcp_connect_def by (intro below_intros s s [THEN weakerD])

lemma below_cmd_tcp_send [below_intros]:
  assumes s: "weaker send send'"
  shows "below (cmd_tcp_send send x1 x2)
    (cmd_tcp_send send' x1 x2)"
  unfolding cmd_tcp_send_def by (intro below_intros s s [THEN weakerD])

lemma below_cmd_tcp_close [below_intros]:
  assumes s: "weaker send send'"
  shows "below (cmd_tcp_close send x1 x2)
    (cmd_tcp_close send' x1 x2)"
  unfolding cmd_tcp_close_def by (intro below_intros s s [THEN weakerD])

lemma below_cmd_magi_sock_connect [below_intros]:
  assumes s: "weaker send send'"
  shows "below (cmd_magi_sock_connect send x1 x2)
    (cmd_magi_sock_connect send' x1 x2)"
  unfolding cmd_magi_sock_connect_def by (intro below_intros s s [THEN weakerD])

lemma below_cmd_magi_sock_send [below_intros]:
  assumes s: "weaker send send'"
  shows "below (cmd_magi_sock_send send x1 x2)
    (cmd_magi_sock_send send' x1 x2)"
  unfolding cmd_magi_sock_send_def by (intro below_intros s s [THEN weakerD])

lemma below_cmd_magi_sock_close [below_intros]:
  assumes s: "weaker send send'"
  shows "below (cmd_magi_sock_close send x1 x2)
    (cmd_magi_sock_close send' x1 x2)"
  unfolding cmd_magi_sock_close_def by (intro below_intros s s [THEN weakerD])

lemma below_dhcp_client_send_broadcast [below_intros]:
  assumes s: "weaker send send'"
  shows "below (dhcp_client_send_broadcast send x1 x2 x3)
    (dhcp_client_send_broadcast send' x1 x2 x3)"
  unfolding dhcp_client_send_broadcast_def by (intro below_intros s s [THEN weakerD])

lemma below_dhcp_round [below_intros]:
  assumes s: "weaker send send'"
  shows "below (dhcp_round send x1 x2 x3 x4 x5 x6 x7 x8)
    (dhcp_round send' x1 x2 x3 x4 x5 x6 x7 x8)"
  unfolding dhcp_round_def by (intro below_intros s s [THEN weakerD])

lemma below_cmd_dhcp_discover [below_intros]:
  assumes s: "weaker send send'"
  shows "below (cmd_dhcp_discover send x1 x2 x3)
    (cmd_dhcp_discover send' x1 x2 x3)"
  unfolding cmd_dhcp_discover_def by (intro below_intros s s [THEN weakerD])

lemma below_cli_dns_exchange [below_intros]:
  assumes s: "weaker send send'"
  shows "below (cli_dns_exchange send x1 x2 x3 x4)
    (cli_dns_exchange send' x1 x2 x3 x4)"
  unfolding cli_dns_exchange_def by (intro below_intros s s [THEN weakerD])

lemma below_cli_dns_query [below_intros]:
  assumes s: "weaker send send'"
  shows "below (cli_dns_query send x1 x2 x3 x4 x5)
    (cli_dns_query send' x1 x2 x3 x4 x5)"
  unfolding cli_dns_query_def by (intro below_intros s s [THEN weakerD])

lemma below_cmd_dns_resolve [below_intros]:
  assumes s: "weaker send send'"
  shows "below (cmd_dns_resolve send x1 x2 x3)
    (cmd_dns_resolve send' x1 x2 x3)"
  unfolding cmd_dns_resolve_def by (intro below_intros s s [THEN weakerD])

lemma below_http_resolve [below_intros]:
  assumes s: "weaker send send'"
  shows "below (http_resolve send x1 x2 x3 x4)
    (http_resolve send' x1 x2 x3 x4)"
  unfolding http_resolve_def by (intro below_intros s s [THEN weakerD])

lemma below_http_fetch [below_intros]:
  assumes s: "weaker send send'"
  shows "below (http_fetch send x1 x2 x3 x4 x5 x6)
    (http_fetch send' x1 x2 x3 x4 x5 x6)"
  unfolding http_fetch_def by (intro below_intros s s [THEN weakerD])

lemma below_cmd_http_get [below_intros]:
  assumes s: "weaker send send'"
  shows "below (cmd_http_get send x1 x2 x3)
    (cmd_http_get send' x1 x2 x3)"
  unfolding cmd_http_get_def by (intro below_intros s s [THEN weakerD])

lemma below_cmd_http_server [below_intros]:
  assumes s: "weaker send send'"
  shows "below (cmd_http_server send x1 x2)
    (cmd_http_server send' x1 x2)"
  unfolding cmd_http_server_def by (intro below_intros s s [THEN weakerD])

lemma below_cmd_udp_send [below_intros]:
  assumes s: "weaker send send'"
  shows "below (cmd_udp_send send x1 x2)
    (cmd_udp_send send' x1 x2)"
  unfolding cmd_udp_send_def by (intro below_intros s s [THEN weakerD])

section \<open>The session\<close>

abbreviation with_send :: "sender \<Rightarrow> outside \<Rightarrow> outside" where
  "with_send send ou \<equiv> ou\<lparr>ou_send := send\<rparr>"

lemma rel_if: "rel_option R x x' \<Longrightarrow> rel_option R y y' \<Longrightarrow> rel_option R (if b then x else y) (if b then x' else y')"
  by simp

lemma rel_let: "(\<And>v. rel_option R (f v) (g v)) \<Longrightarrow> rel_option R (let v = t in f v) (let v = t in g v)"
  by simp

lemma rel_Some: "R x y \<Longrightarrow> rel_option R (Some x) (Some y)"
  by simp

lemma rel_None: "rel_option R None None"
  by simp

lemma node_command_deeper:
  assumes s: "weaker send send'"
  shows "rel_option below (node_command (with_send send ou) toks t) (node_command (with_send send' ou) toks t)"
proof -
  have f: "ou_send (with_send x ou) = x" "ou_rnd (with_send x ou) = ou_rnd ou" for x by simp_all
  show ?thesis
    unfolding node_command_def f Let_def by (intro rel_if rel_None rel_Some below_intros s)
qed

lemma below_run_on [below_intros]: "below r r' \<Longrightarrow> below (run_on c r) (run_on c r')"
  unfolding run_on_def by (intro below_intros)

lemma below_load_file:
  assumes s: "weaker send send'"
  shows "below (load_file (with_send send ou) file c) (load_file (with_send send' ou) file c)"
proof -
  have f: "ou_send (with_send x ou) = x" "ou_rnd (with_send x ou) = ou_rnd ou" for x by simp_all
  show ?thesis unfolding load_file_def f by (intro below_intros s)
qed

lemma below_process:
  assumes s: "weaker send send'"
  shows "below (process (with_send send ou) line c) (process (with_send send' ou) line c)"
proof -
  have f: "ou_rnd (with_send x ou) = ou_rnd ou" "ou_debug (with_send x ou) = ou_debug ou" "ou_export (with_send x ou) = ou_export ou"
    "cmd_save (with_send x ou) = cmd_save ou" for x by (simp_all add: cmd_save_def fun_eq_iff)
  have nodes: "below (case node_command (with_send send ou) toks t of Some r \<Rightarrow> run_on c r | None \<Rightarrow> z)
      (case node_command (with_send send' ou) toks t of Some r \<Rightarrow> run_on c r | None \<Rightarrow> z)" for toks t z
    using node_command_deeper [OF s, of ou toks t]
    by (cases "node_command (with_send send ou) toks t"; cases "node_command (with_send send' ou) toks t")
      (auto intro: below_refl below_run_on)
  have load: "below (cmd_load (with_send send ou) toks c) (cmd_load (with_send send' ou) toks c)" for toks
    unfolding cmd_load_def by (intro below_intros below_load_file s)
  show ?thesis unfolding process_def f by (intro below_let below_if below_refl nodes load)
qed

lemma below_cli_loop:
  assumes s: "weaker send send'"
  shows "below (cli_loop (with_send send ou) input c) (cli_loop (with_send send' ou) input c)"
proof (induction "length input" arbitrary: input c rule: less_induct)
  case less
  show ?case
  proof (cases "fgets MAX_COMMAND_LENGTH input")
    case None
    then show ?thesis by (simp add: cli_loop.simps [of _ input] below_refl)
  next
    case (Some p)
    obtain line rest where p: "p = (line, rest)" by (cases p)
    have "length rest < length input" using Some p by (simp add: fgets_shorter)
    note IH = less [OF this]
    show ?thesis
      unfolding cli_loop.simps [of _ input] Some p by simp (intro below_intros IH below_process s)
  qed
qed

text \<open>The bound on nested sends decides nothing but whether there is a result. A session that
  ends within the bound \<open>k\<close>, with everything that the commands send and all that is sent in answer,
  shows the same text and leaves the same network and files under every larger bound, and so does a
  delivery of the packets in flight.\<close>

theorem deeper_session_agrees:
  assumes "k \<le> k'"
  shows "(cli (with_send (net_send k) ou) input c = Some r \<longrightarrow> cli (with_send (net_send k') ou) input c = Some r) \<and>
    (sim_clock_tick (net_send k) now w = Some w' \<longrightarrow> sim_clock_tick (net_send k') now w = Some w')"
proof -
  note weak = deeper_weaker [OF assms]
  have "below (cli (with_send (net_send k) ou) input c) (cli (with_send (net_send k') ou) input c)"
    unfolding cli_def by (intro below_intros below_cli_loop weak)
  then show ?thesis
    using below_sim_clock_tick [OF weak, of now w] by (blast dest: belowD)
qed

theorem deeper_session_agrees_witness:
  "\<forall>ou c. \<exists>r. cli (with_send (net_send 0) ou) ''quit'' c = Some r \<and> cli (with_send (net_send 9) ou) ''quit'' c = Some r"
proof (intro allI)
  fix ou c
  have "fgets MAX_COMMAND_LENGTH ''quit'' = Some (''quit'', [])" "tokens ''quit'' = [''quit'']" by code_simp+
  moreover have "takeWhile (\<lambda>c. c \<noteq> CHR 0x0A) (c_string ''quit'') = ''quit''" by code_simp
  ultimately have "\<exists>r. cli (with_send (net_send 0) ou) ''quit'' c = Some r"
    by (simp add: cli_def cli_loop.simps [of _ "''quit''"] process_def node_command_def)
  then obtain r where r: "cli (with_send (net_send 0) ou) ''quit'' c = Some r" by blast
  have "cli (with_send (net_send 9) ou) ''quit'' c = Some r"
    using deeper_session_agrees [of 0 9 ou "''quit''" c r undefined undefined undefined] r by simp
  then show "\<exists>r. cli (with_send (net_send 0) ou) ''quit'' c = Some r \<and> cli (with_send (net_send 9) ou) ''quit'' c = Some r"
    using r by blast
qed

end
