(* ===== verification/Unanswered.thy ===== *)
theory Unanswered
  imports Contact "HOL-Library.Sublist"
begin

text \<open>
  Resolutions that get no answer: the loop of the retries ends, what it drops, and what a ping of an address
  that nobody has comes to.
\<close>

section \<open>Nobody answers\<close>

text \<open>Whatever the host sends, it is itself as before when the sending call returns.\<close>

definition silent :: "sender \<Rightarrow> node_id \<Rightarrow> node_base \<Rightarrow> bool" where
  "silent send n b \<longleftrightarrow> (\<forall>raw w h. get_host n w = Some h \<longrightarrow> h_base h = b \<longrightarrow>
     (\<exists>w'. send (n, 0) raw w = Some w' \<and> get_host n w' = Some h \<and> ck_realtime (w_clock w') = ck_realtime (w_clock w)))"

text \<open>What a failed resolution leaves alone.\<close>

definition settled :: "host \<Rightarrow> host \<Rightarrow> bool" where
  "settled h h' \<longleftrightarrow> h_base h' = h_base h \<and> h_ip h' = h_ip h \<and> h_gateway h' = h_gateway h \<and> h_has_ip h' = h_has_ip h \<and>
     h_arp h' = h_arp h \<and> h_tcp h' = h_tcp h"

lemma settled_refl [simp]: "settled h h" and settled_trans: "settled h h' \<Longrightarrow> settled h' h'' \<Longrightarrow> settled h h''"
  by (simp_all add: settled_def)

lemma realtime_now [simp]: "ck_realtime (w_clock (snd (now_ms w))) = ck_realtime (w_clock w)"
  by (simp add: now_ms_def case_prod_unfold Let_def)

lemma clock_put [simp]: "w_clock (put_host n h w) = w_clock w"
  by (simp add: put_node_def)

lemma get_now [simp]: "get_host n (snd (now_ms w)) = get_host n w"
  using now_ms_clock [of w] by auto

text \<open>
  The same for the requests for one address: wherever \<open>I\<close> holds, asking for the address leaves the host as it is and
  \<open>I\<close> true, and neither the clock nor what the host does to its own fields matters to \<open>I\<close>.
\<close>

definition asked_in_vain :: "(world \<Rightarrow> bool) \<Rightarrow> sender \<Rightarrow> node_id \<Rightarrow> ip_address \<Rightarrow> bool" where
  "asked_in_vain I send n hop \<longleftrightarrow>
     (\<forall>w h. I w \<longrightarrow> get_host n w = Some h \<longrightarrow> (\<exists>w'. host_send_arp_request send n hop w = Some (h_has_ip h, w') \<and>
        get_host n w' = Some h \<and> I w' \<and> ck_realtime (w_clock w') = ck_realtime (w_clock w))) \<and>
     (\<forall>w h h'. I w \<longrightarrow> get_host n w = Some h \<longrightarrow> h_base h' = h_base h \<longrightarrow> I (put_host n h' w)) \<and>
     (\<forall>w. I w \<longrightarrow> I (snd (now_ms w)))"

lemma request_unanswered:
  assumes "get_host n w = Some h" "asked_in_vain I send n ip" "I w"
  obtains sent w' where "host_send_arp_request send n ip w = Some (sent, w')" "get_host n w' = Some h" "sent = h_has_ip h"
    "I w'" "ck_realtime (w_clock w') = ck_realtime (w_clock w)"
  using assms unfolding asked_in_vain_def by blast

lemma asked_in_vain_put: "asked_in_vain I send n hop \<Longrightarrow> I w \<Longrightarrow> get_host n w = Some h \<Longrightarrow> h_base h' = h_base h \<Longrightarrow> I (put_host n h' w)"
  and asked_in_vain_now: "asked_in_vain I send n hop \<Longrightarrow> I w \<Longrightarrow> I (snd (now_ms w))"
  unfolding asked_in_vain_def by blast+

definition based :: "node_id \<Rightarrow> node_base \<Rightarrow> world \<Rightarrow> bool" where
  "based n b w \<longleftrightarrow> map_option h_base (get_host n w) = Some b"

lemma silent_asked_in_vain:
  assumes "silent send n b"
  shows "asked_in_vain (based n b) send n hop"
proof -
  have ask: "\<exists>w'. host_send_arp_request send n hop w = Some (h_has_ip h, w') \<and> get_host n w' = Some h \<and> based n b w' \<and>
      ck_realtime (w_clock w') = ck_realtime (w_clock w)" if "based n b w" and h: "get_host n w = Some h" for w h
  proof (cases "h_has_ip h")
    case True
    have base: "h_base h = b" using that by (simp add: based_def)
    obtain raw where raw: "host_send_arp_request send n hop w = map_option (Pair True) (send (n, 0) raw w)"
      by (rule host_arp_request [OF h True])
    obtain w' where "send (n, 0) raw w = Some w'" "get_host n w' = Some h" "ck_realtime (w_clock w') = ck_realtime (w_clock w)"
      using assms [unfolded silent_def, rule_format, OF h base, of raw] by blast
    then show ?thesis using raw True base by (simp add: based_def)
  next
    case False
    then show ?thesis using that by (simp add: host_send_arp_request_def)
  qed
  have put: "based n b (put_host n h' w)" if "based n b w" "get_host n w = Some h" "h_base h' = h_base h" for w h h'
    using that by (simp add: based_def)
  have "based n b (snd (now_ms w))" if "based n b w" for w using that by (simp add: based_def)
  with ask put show ?thesis unfolding asked_in_vain_def by blast
qed

section \<open>Giving up\<close>

definition unreachable :: "u16 \<Rightarrow> host \<Rightarrow> host" where
  "unreachable q h = h\<lparr>h_icmp_type := ICMP_DEST_UNREACHABLE, h_icmp_code := 1, h_icmp_source := h_ip h, h_icmp_sequence := q, h_has_icmp := True\<rparr>"

lemma unreachable_reported:
  assumes "get_host n w = Some h"
  obtains w' h' where "host_report_arp_failure n p w = Some w'" "get_host n w' = Some h'" "settled h h'" "h_queue h' = h_queue h"
    "ck_realtime (w_clock w') = ck_realtime (w_clock w)"
proof -
  have rtt: "\<exists>w' h'. host_record_icmp_rtt n v = Some w' \<and> get_host n w' = Some h' \<and> settled k h' \<and> h_queue h' = h_queue k \<and>
      ck_realtime (w_clock w') = ck_realtime (w_clock v)" if "get_host n v = Some k" for v k
    using that by (cases "h_icmp_in_flight k") (auto simp: host_record_icmp_rtt_def case_prod_unfold Let_def settled_def)
  have put: "\<exists>w' h'. host_record_icmp_rtt n (put_host n k w) = Some w' \<and> get_host n w' = Some h' \<and> settled k h' \<and> h_queue h' = h_queue k \<and>
      ck_realtime (w_clock w') = ck_realtime (w_clock w)" for k
    using rtt [of "put_host n k w" k] by simp
  have noted: "\<exists>w' h'. host_record_icmp_rtt n (put_host n (unreachable q h) w) = Some w' \<and> get_host n w' = Some h' \<and> settled h h' \<and>
      h_queue h' = h_queue h \<and> ck_realtime (w_clock w') = ck_realtime (w_clock w)" for q
    using put [of "unreachable q h"] by (simp add: settled_def unreachable_def)
  have "\<exists>w' h'. host_report_arp_failure n p w = Some w' \<and> get_host n w' = Some h' \<and> settled h h' \<and> h_queue h' = h_queue h \<and>
      ck_realtime (w_clock w') = ck_realtime (w_clock w)"
    using assms noted by (auto simp: host_report_arp_failure_def unreachable_def [symmetric] split: option.split)
  then show ?thesis using that by blast
qed

lemma all_failed:
  assumes "get_host n w = Some h" "wf_ring HOST_PENDING_QUEUE_MAX_ENTRIES (h_queue h)"
  obtains w' h' where "host_fail_pending n ip w = Some w'" "get_host n w' = Some h'" "settled h h'"
    "wf_ring HOST_PENDING_QUEUE_MAX_ENTRIES (h_queue h')" "host_waiting h' = filter (\<lambda>p. \<not> waits_for ip p) (host_waiting h)"
    "ck_realtime (w_clock w') = ck_realtime (w_clock w)"
proof -
  have "\<exists>w' h'. host_fail_pending n ip w = Some w' \<and> get_host n w' = Some h' \<and> settled h h' \<and>
    wf_ring HOST_PENDING_QUEUE_MAX_ENTRIES (h_queue h') \<and> host_waiting h' = filter (\<lambda>p. \<not> waits_for ip p) (host_waiting h) \<and>
    ck_realtime (w_clock w') = ck_realtime (w_clock w)"
    using assms
  proof (induction "length (host_waiting h)" arbitrary: w h rule: less_induct)
    case less
    let ?d = "ring_dequeue HOST_PENDING_QUEUE_MAX_ENTRIES (waits_for ip) (h_queue h)"
    note d = ring_dequeue_list [OF less.prems(2), of "waits_for ip"]
    let ?h = "h\<lparr>h_queue := snd ?d\<rparr>"
    have step: "host_fail_pending n ip w = (case fst ?d of None \<Rightarrow> Some (put_host n ?h w)
       | Some p \<Rightarrow> Option.bind (host_report_arp_failure n p (put_host n ?h w)) (host_fail_pending n ip))"
      by (subst host_fail_pending.simps) (simp add: less.prems(1) host_dequeue_pending_packet_for_ip_def case_prod_unfold Let_def split: option.split)
    show ?case
    proof (cases "fst ?d")
      case None
      then have "find (waits_for ip) (host_waiting h) = None" using d(2) by simp
      then have "filter (\<lambda>p. \<not> waits_for ip p) (host_waiting h) = host_waiting h" "remove_first (waits_for ip) (host_waiting h) = host_waiting h"
        using remove_first_none by (auto simp: find_None_iff filter_id_conv)
      then show ?thesis using step None d by (simp add: settled_def)
    next
      case (Some p)
      have f: "find (waits_for ip) (host_waiting h) \<noteq> None" using Some d(2) by simp
      have h1: "get_host n (put_host n ?h w) = Some ?h" by simp
      obtain w1 k where k: "host_report_arp_failure n p (put_host n ?h w) = Some w1" "get_host n w1 = Some k" "settled ?h k" "h_queue k = h_queue ?h"
        "ck_realtime (w_clock w1) = ck_realtime (w_clock (put_host n ?h w))" by (rule unreachable_reported [OF h1])
      have list: "host_waiting k = remove_first (waits_for ip) (host_waiting h)" "wf_ring HOST_PENDING_QUEUE_MAX_ENTRIES (h_queue k)"
        using d k(4) by simp_all
      have "length (host_waiting k) < length (host_waiting h)" using length_remove_first [OF f] list(1) by simp
      from less.hyps [OF this k(2) list(2)] step Some k(1) list(1) k(3) k(5)
      show ?thesis by (auto simp: filter_not_remove_first settled_def)
    qed
  qed
  then show ?thesis using that by blast
qed

section \<open>The retries end\<close>

text \<open>The least number of requests among the packets for an address, and how much the loop has left to do.\<close>

definition least :: "host_pending list \<Rightarrow> octets \<Rightarrow> nat" where
  "least ps k = Min (hp_attempts ` {p \<in> set ps. octet (hp_target p) = k})"

definition weight :: "host_pending list \<Rightarrow> nat" where
  "weight ps = sum_list (map (\<lambda>p. 5 - least ps (octet (hp_target p))) ps) + length ps"

definition attempted :: "ip_address \<Rightarrow> nat \<Rightarrow> real \<Rightarrow> host_pending \<Rightarrow> host_pending" where
  "attempted ip a t p = (if waits_for ip p then p\<lparr>hp_attempts := a, hp_last := t\<rparr> else p)"

lemma attempted_target [simp]: "hp_target (attempted ip a t p) = hp_target p" "hp_payload (attempted ip a t p) = hp_payload p"
  by (simp_all add: attempted_def)

lemma sum_list_less:
  fixes f g :: "'a \<Rightarrow> nat"
  assumes "\<And>x. x \<in> set xs \<Longrightarrow> f x \<le> g x" "x \<in> set xs" "f x < g x"
  shows "sum_list (map f xs) < sum_list (map g xs)"
  using assms
proof (induction xs)
  case (Cons y ys)
  have le: "sum_list (map f ys) \<le> sum_list (map g ys)" by (rule sum_list_mono) (use Cons.prems(1) in simp)
  show ?case
  proof (cases "x = y")
    case True
    then show ?thesis using le Cons.prems(3) by simp
  next
    case False
    then have "sum_list (map f ys) < sum_list (map g ys)" using Cons by simp
    moreover have "f y \<le> g y" using Cons.prems(1) by simp
    ultimately show ?thesis by simp
  qed
qed simp

lemma weight_retry:
  assumes "p \<in> set ps" "hp_attempts p < 3"
  shows "weight (map (attempted (hp_target p) (hp_attempts p + 1) t) ps) < weight ps"
proof -
  let ?f = "attempted (hp_target p) (hp_attempts p + 1) t" and ?k = "octet (hp_target p)"
  have same: "{q \<in> set (map ?f ps). octet (hp_target q) = k} = ?f ` {q \<in> set ps. octet (hp_target q) = k}" for k by auto
  have "hp_attempts ` ?f ` {q \<in> set ps. octet (hp_target q) = ?k} = {hp_attempts p + 1}"
    using assms(1) by (auto simp: attempted_def waits_for_key image_iff)
  then have new: "least (map ?f ps) ?k = hp_attempts p + 1" unfolding least_def same by simp
  have "least ps ?k \<le> hp_attempts p" unfolding least_def by (rule Min_le) (use assms(1) in auto)
  then have less: "least ps ?k < least (map ?f ps) ?k" using new by simp
  have other: "least (map ?f ps) k = least ps k" if "k \<noteq> ?k" for k
  proof -
    have "hp_attempts ` ?f ` {q \<in> set ps. octet (hp_target q) = k} = hp_attempts ` {q \<in> set ps. octet (hp_target q) = k}"
      using that by (auto simp: attempted_def waits_for_key image_iff)
    then show ?thesis unfolding least_def same by simp
  qed
  let ?g = "\<lambda>q. 5 - least (map ?f ps) (octet (hp_target q))" and ?h = "\<lambda>q. 5 - least ps (octet (hp_target q))"
  have "sum_list (map ?g ps) < sum_list (map ?h ps)"
  proof (rule sum_list_less [OF _ assms(1)])
    show "?g q \<le> ?h q" for q using other less by (cases "octet (hp_target q) = ?k") auto
    show "?g p < ?h p" using less new assms(2) by simp
  qed
  then show ?thesis by (simp add: weight_def comp_def)
qed

lemma weight_fail:
  assumes "p \<in> set ps" "waits_for ip p"
  shows "weight (filter (\<lambda>q. \<not> waits_for ip q) ps) < weight ps"
proof -
  let ?qs = "filter (\<lambda>q. \<not> waits_for ip q) ps"
  have "least ?qs (octet (hp_target q)) = least ps (octet (hp_target q))" if "q \<in> set ?qs" for q
  proof -
    have "{r \<in> set ?qs. octet (hp_target r) = octet (hp_target q)} = {r \<in> set ps. octet (hp_target r) = octet (hp_target q)}"
      using that by (auto simp: waits_for_key)
    then show ?thesis by (simp add: least_def)
  qed
  then have eq: "map (\<lambda>q. 5 - least ?qs (octet (hp_target q))) ?qs = map (\<lambda>q. 5 - least ps (octet (hp_target q))) ?qs" by simp
  have "sum_list (map (\<lambda>q. 5 - least ?qs (octet (hp_target q))) ?qs) \<le> sum_list (map (\<lambda>q. 5 - least ps (octet (hp_target q))) ps)"
    unfolding eq by (rule sum_list_filter_le_nat)
  moreover have "length ?qs < length ps" by (rule length_filter_less [OF assms(1)]) (use assms(2) in simp)
  ultimately show ?thesis by (simp add: weight_def)
qed

text \<open>One round of the loop.\<close>

abbreviation overdue :: "real \<Rightarrow> host_pending \<Rightarrow> bool" where
  "overdue now p \<equiv> 0 < hp_attempts p \<and> hp_last p + HOST_ARP_RETRY_INTERVAL_MS \<le> now"

lemma poll_retry:
  assumes "get_host n w = Some h" "wf_ring HOST_PENDING_QUEUE_MAX_ENTRIES (h_queue h)" "asked_in_vain I send n (hp_target p)" "I w"
    "find (overdue now) (host_waiting h) = Some p" "hp_attempts p < HOST_ARP_MAX_ATTEMPTS"
  obtains w' h' where "host_poll_arp send n now w = host_poll_arp send n now w'" "get_host n w' = Some h'" "I w'"
    "h' = h\<lparr>h_queue := h_queue h'\<rparr>" "wf_ring HOST_PENDING_QUEUE_MAX_ENTRIES (h_queue h')"
    "host_waiting h' = map (attempted (hp_target p) (hp_attempts p + 1) (hp_last p + HOST_ARP_RETRY_INTERVAL_MS)) (host_waiting h)"
    "ck_realtime (w_clock w') = ck_realtime (w_clock w)"
proof -
  let ?h = "host_set_arp_attempt_for_ip h (hp_target p) (hp_attempts p + 1) (hp_last p + HOST_ARP_RETRY_INTERVAL_MS)"
  have due: "host_find_due h now = Some p" using assms(2,5) by (simp add: host_find_due_def ring_find_list)
  have h: "get_host n (put_host n ?h w) = Some ?h" "I (put_host n ?h w)"
    by (simp, rule asked_in_vain_put [OF assms(3,4,1)], simp add: host_set_arp_attempt_for_ip_def)
  obtain sent w' where r: "host_send_arp_request send n (hp_target p) (put_host n ?h w) = Some (sent, w')" "get_host n w' = Some ?h" "I w'"
    "ck_realtime (w_clock w') = ck_realtime (w_clock (put_host n ?h w))" by (rule request_unanswered [OF h(1) assms(3) h(2)])
  have "host_poll_arp send n now w = host_poll_arp send n now w'"
    by (subst host_poll_arp.simps) (use assms(1,6) due r(1) in simp)
  then show ?thesis using r(2-4) ring_update_list [OF assms(2)]
    by (intro that [of w' ?h]) (simp_all add: host_set_arp_attempt_for_ip_def attempted_def)
qed

lemma poll_fail:
  assumes "get_host n w = Some h" "wf_ring HOST_PENDING_QUEUE_MAX_ENTRIES (h_queue h)"
    "find (overdue now) (host_waiting h) = Some p" "HOST_ARP_MAX_ATTEMPTS \<le> hp_attempts p"
  shows "host_poll_arp send n now w = Option.bind (host_fail_pending n (hp_target p) w) (host_poll_arp send n now)"
proof -
  have "host_find_due h now = Some p" using assms(2,3) by (simp add: host_find_due_def ring_find_list)
  then show ?thesis by (subst host_poll_arp.simps) (use assms(1,4) in simp)
qed

lemma poll_done:
  assumes "get_host n w = Some h" "wf_ring HOST_PENDING_QUEUE_MAX_ENTRIES (h_queue h)" "find (overdue now) (host_waiting h) = None"
  shows "host_poll_arp send n now w = Some w"
  by (subst host_poll_arp.simps) (use assms in \<open>simp add: host_find_due_def ring_find_list\<close>)

lemma poll_ends:
  assumes "get_host n w = Some h" "wf_ring HOST_PENDING_QUEUE_MAX_ENTRIES (h_queue h)" "silent send n (h_base h)"
  shows "\<exists>w' h'. host_poll_arp send n now w = Some w' \<and> get_host n w' = Some h' \<and> settled h h' \<and>
    wf_ring HOST_PENDING_QUEUE_MAX_ENTRIES (h_queue h') \<and> find (overdue now) (host_waiting h') = None \<and>
    subseq (map (\<lambda>p. (hp_target p, hp_payload p)) (host_waiting h')) (map (\<lambda>p. (hp_target p, hp_payload p)) (host_waiting h)) \<and>
    ck_realtime (w_clock w') = ck_realtime (w_clock w)"
  using assms
proof (induction "weight (host_waiting h)" arbitrary: w h rule: less_induct)
  case less
  show ?case
  proof (cases "find (overdue now) (host_waiting h)")
    case None
    then show ?thesis using poll_done [OF less.prems(1,2)] less.prems by auto
  next
    case (Some p)
    then have p: "p \<in> set (host_waiting h)" by (auto simp: find_Some_iff)
    show ?thesis
    proof (cases "hp_attempts p < HOST_ARP_MAX_ATTEMPTS")
      case True
      have base: "based n (h_base h) w" using less.prems(1) by (simp add: based_def)
      obtain w1 h1 where s: "host_poll_arp send n now w = host_poll_arp send n now w1" "get_host n w1 = Some h1" "based n (h_base h) w1"
        "h1 = h\<lparr>h_queue := h_queue h1\<rparr>" "wf_ring HOST_PENDING_QUEUE_MAX_ENTRIES (h_queue h1)"
        "host_waiting h1 = map (attempted (hp_target p) (hp_attempts p + 1) (hp_last p + HOST_ARP_RETRY_INTERVAL_MS)) (host_waiting h)"
        "ck_realtime (w_clock w1) = ck_realtime (w_clock w)" 
        by (rule poll_retry [OF less.prems(1,2) silent_asked_in_vain [OF less.prems(3)] base Some True])
      have same: "settled h h1" "h_base h1 = h_base h" by (subst s(4), simp add: settled_def, subst s(4), simp)
      have w: "weight (host_waiting h1) < weight (host_waiting h)" unfolding s(6) by (rule weight_retry [OF p]) (use True in simp)
      have list: "map (\<lambda>p. (hp_target p, hp_payload p)) (host_waiting h1) = map (\<lambda>p. (hp_target p, hp_payload p)) (host_waiting h)"
        unfolding s(6) by simp
      have "silent send n (h_base h1)" using less.prems(3) same(2) by simp
      from less.hyps [OF w s(2,5) this] show ?thesis using s(1,7) settled_trans [OF same(1)] unfolding list by auto
    next
      case False
      obtain w1 h1 where f: "host_fail_pending n (hp_target p) w = Some w1" "get_host n w1 = Some h1" "settled h h1"
        "wf_ring HOST_PENDING_QUEUE_MAX_ENTRIES (h_queue h1)" "host_waiting h1 = filter (\<lambda>q. \<not> waits_for (hp_target p) q) (host_waiting h)"
        "ck_realtime (w_clock w1) = ck_realtime (w_clock w)" by (rule all_failed [OF less.prems(1,2)])
      have poll: "host_poll_arp send n now w = host_poll_arp send n now w1"
        using poll_fail [OF less.prems(1,2) Some] False f(1) by simp
      have w: "weight (host_waiting h1) < weight (host_waiting h)" unfolding f(5) by (rule weight_fail [OF p]) (simp add: waits_for_def)
      have "silent send n (h_base h1)" using less.prems(3) f(3) by (simp add: settled_def)
      note rest = less.hyps [OF w f(2,4) this]
      have sub: "subseq (map (\<lambda>p. (hp_target p, hp_payload p)) (host_waiting h1)) (map (\<lambda>p. (hp_target p, hp_payload p)) (host_waiting h))"
        unfolding f(5) by (rule subseq_map) simp
      show ?thesis using rest poll f(6) settled_trans [OF f(3)] subseq_order.order_trans [OF _ sub] by auto
    qed
  qed
qed

text \<open>C17. The retries of address resolution always come to an end: when nobody answers, whatever waits in the
  queue of a host and however its entries are numbered, polling returns, leaves no packet whose last request is a second old, and
  only takes packets out: those that stay are in their order and unchanged, and so is the rest of the host's configuration.\<close>

theorem arp_polling_ends:
  assumes "get_host n w = Some h" "wf_host h" "silent send n (h_base h)"
  shows "\<exists>w' h'. host_poll_arp send n now w = Some w' \<and> get_host n w' = Some h' \<and> host_find_due h' now = None \<and> settled h h' \<and>
    (\<forall>p \<in> set (host_waiting h'). hp_attempts p = 0 \<or> now < hp_last p + HOST_ARP_RETRY_INTERVAL_MS) \<and>
    subseq (map (\<lambda>p. (hp_target p, hp_payload p)) (host_waiting h')) (map (\<lambda>p. (hp_target p, hp_payload p)) (host_waiting h))"
proof -
  have wf: "wf_ring HOST_PENDING_QUEUE_MAX_ENTRIES (h_queue h)" using assms(2) by (simp add: wf_host_def)
  obtain w' h' where p: "host_poll_arp send n now w = Some w'" "get_host n w' = Some h'" "settled h h'"
    "wf_ring HOST_PENDING_QUEUE_MAX_ENTRIES (h_queue h')" "find (overdue now) (host_waiting h') = None"
    "subseq (map (\<lambda>p. (hp_target p, hp_payload p)) (host_waiting h')) (map (\<lambda>p. (hp_target p, hp_payload p)) (host_waiting h))"
    using poll_ends [OF assms(1) wf assms(3)] by blast
  have "host_find_due h' now = None" using p(4,5) by (simp add: host_find_due_def ring_find_list)
  moreover have "\<forall>p \<in> set (host_waiting h'). hp_attempts p = 0 \<or> now < hp_last p + HOST_ARP_RETRY_INTERVAL_MS"
    using p(5) by (auto simp: find_None_iff not_le)
  ultimately show ?thesis using p by blast
qed

section \<open>A ping that nobody answers\<close>

definition ping_failed :: "u16 \<Rightarrow> host \<Rightarrow> bool" where
  "ping_failed q h \<longleftrightarrow> h_has_icmp h \<and> h_icmp_type h = ICMP_DEST_UNREACHABLE \<and> h_icmp_code h = 1 \<and> h_icmp_source h = h_ip h \<and>
     h_icmp_sequence h = q \<and> \<not> h_icmp_in_flight h"

lemma rtt_recorded:
  assumes "get_host n w = Some u"
  obtains w' t where "host_record_icmp_rtt n w = Some w'" "get_host n w' = Some (u\<lparr>h_icmp_rtt := t, h_icmp_in_flight := False\<rparr>)"
proof (cases "h_icmp_in_flight u")
  case True
  let ?w = "put_host n (u\<lparr>h_icmp_rtt := fst (now_ms w) - h_icmp_sent_at u, h_icmp_in_flight := False\<rparr>) (snd (now_ms w))"
  have "host_record_icmp_rtt n w = Some ?w" using True assms by (simp add: host_record_icmp_rtt_def case_prod_unfold Let_def)
  moreover have "get_host n ?w = Some (u\<lparr>h_icmp_rtt := fst (now_ms w) - h_icmp_sent_at u, h_icmp_in_flight := False\<rparr>)"
    by (simp only: get_put if_True refl)
  ultimately show ?thesis by (rule that)
next
  case False
  then have "u = u\<lparr>h_icmp_rtt := h_icmp_rtt u, h_icmp_in_flight := False\<rparr>" by (cases u) simp
  then show ?thesis using False assms by (intro that [of w "h_icmp_rtt u"]) (simp_all add: host_record_icmp_rtt_def)
qed

lemma probe_fails:
  assumes "get_host n w = Some h" "wf_ring HOST_PENDING_QUEUE_MAX_ENTRIES (h_queue h)" "host_waiting h = [e]" "waits_for ip e"
    "hp_ethertype e = ETHERNET_TYPE_IPV4" "icmp_carried (hp_payload e) (h_ip h) dst ICMP_ECHO_REQUEST ident q data p m"
  obtains w' h' where "host_fail_pending n ip w = Some w'" "get_host n w' = Some h'" "wf_ring HOST_PENDING_QUEUE_MAX_ENTRIES (h_queue h')"
    "host_waiting h' = []" "ping_failed q h'" "h_ip h' = h_ip h" "h_arp h' = h_arp h"
proof -
  obtain q1 where d: "ring_dequeue HOST_PENDING_QUEUE_MAX_ENTRIES (waits_for ip) (h_queue h) = (Some e, q1)" "wf_ring HOST_PENDING_QUEUE_MAX_ENTRIES q1"
    "ring_list HOST_PENDING_QUEUE_MAX_ENTRIES q1 = []"
    using ring_dequeue_list [OF assms(2), of "waits_for ip"] assms(3,4)
    by (cases "ring_dequeue HOST_PENDING_QUEUE_MAX_ENTRIES (waits_for ip) (h_queue h)") simp
  let ?h = "h\<lparr>h_queue := q1\<rparr>"
  let ?u = "unreachable q ?h"
  have report: "host_report_arp_failure n e (put_host n ?h w) = host_record_icmp_rtt n (put_host n ?u w)"
    using assms(5,6) by (auto simp: host_report_arp_failure_def icmp_carried_def unreachable_def)
  have "get_host n (put_host n ?u w) = Some ?u" by simp
  then obtain w1 t where r: "host_record_icmp_rtt n (put_host n ?u w) = Some w1" "get_host n w1 = Some (?u\<lparr>h_icmp_rtt := t, h_icmp_in_flight := False\<rparr>)"
    by (rule rtt_recorded)
  define k where "k = ?u\<lparr>h_icmp_rtt := t, h_icmp_in_flight := False\<rparr>"
  have k: "host_record_icmp_rtt n (put_host n ?u w) = Some w1" "get_host n w1 = Some k" "ping_failed q k" "h_queue k = q1" "h_ip k = h_ip h" "h_arp k = h_arp h"
    using r by (simp_all add: k_def ping_failed_def unreachable_def)
  obtain q2 where d2: "ring_dequeue HOST_PENDING_QUEUE_MAX_ENTRIES (waits_for ip) q1 = (None, q2)" "wf_ring HOST_PENDING_QUEUE_MAX_ENTRIES q2"
    "ring_list HOST_PENDING_QUEUE_MAX_ENTRIES q2 = []"
    using ring_dequeue_list [OF d(2), of "waits_for ip"] d(3)
    by (cases "ring_dequeue HOST_PENDING_QUEUE_MAX_ENTRIES (waits_for ip) q1") simp
  have last: "host_fail_pending n ip w1 = Some (put_host n (k\<lparr>h_queue := q2\<rparr>) w1)"
    by (subst host_fail_pending.simps) (simp add: k(2,4) host_dequeue_pending_packet_for_ip_def d2(1))
  have "host_fail_pending n ip w = Some (put_host n (k\<lparr>h_queue := q2\<rparr>) w1)"
    by (subst host_fail_pending.simps) (simp add: assms(1) host_dequeue_pending_packet_for_ip_def d(1) report k(1) last)
  moreover have "get_host n (put_host n (k\<lparr>h_queue := q2\<rparr>) w1) = Some (k\<lparr>h_queue := q2\<rparr>)" by (simp only: get_put if_True refl)
  ultimately show ?thesis by (rule that) (use k(3,5,6) d2(2,3) in \<open>simp_all add: ping_failed_def\<close>)
qed

text \<open>Three requests, a second apart, and the failure.\<close>

lemma probe_polled:
  assumes "get_host n w = Some h" "wf_ring HOST_PENDING_QUEUE_MAX_ENTRIES (h_queue h)" "asked_in_vain I send n (hp_target e)" "I w"
    "host_waiting h = [e]" "hp_attempts e = 1" "hp_ethertype e = ETHERNET_TYPE_IPV4"
    "icmp_carried (hp_payload e) (h_ip h) dst ICMP_ECHO_REQUEST ident q data p m"
  obtains w' h' where "host_poll_arp send n (hp_last e + HOST_ARP_RETRY_INTERVAL_MS * real (HOST_ARP_MAX_ATTEMPTS + 1)) w = Some w'"
    "get_host n w' = Some h'" "host_waiting h' = []" "ping_failed q h'" "h_ip h' = h_ip h" "h_arp h' = h_arp h"
proof -
  let ?now = "hp_last e + HOST_ARP_RETRY_INTERVAL_MS * real (HOST_ARP_MAX_ATTEMPTS + 1)"
  have due1: "find (overdue ?now) (host_waiting h) = Some e" "hp_attempts e < HOST_ARP_MAX_ATTEMPTS" using assms(5,6) by simp_all
  obtain w1 h1 where s1: "host_poll_arp send n ?now w = host_poll_arp send n ?now w1" "get_host n w1 = Some h1" "I w1"
    "h1 = h\<lparr>h_queue := h_queue h1\<rparr>" "wf_ring HOST_PENDING_QUEUE_MAX_ENTRIES (h_queue h1)"
    "host_waiting h1 = map (attempted (hp_target e) (hp_attempts e + 1) (hp_last e + HOST_ARP_RETRY_INTERVAL_MS)) (host_waiting h)"
    by (rule poll_retry [OF assms(1-4) due1])
  define e1 where "e1 = e\<lparr>hp_attempts := 2, hp_last := hp_last e + 1000\<rparr>"
  have l1: "host_waiting h1 = [e1]" unfolding s1(6) assms(5) by (simp add: attempted_def waits_for_def e1_def assms(6))
  have b1: "h_ip h1 = h_ip h" "h_arp h1 = h_arp h" by (subst s1(4), simp)+
  have vain1: "asked_in_vain I send n (hp_target e1)" using assms(3) by (simp add: e1_def)
  have due2: "find (overdue ?now) (host_waiting h1) = Some e1" "hp_attempts e1 < HOST_ARP_MAX_ATTEMPTS" by (simp_all add: l1 e1_def)
  obtain w2 h2 where s2: "host_poll_arp send n ?now w1 = host_poll_arp send n ?now w2" "get_host n w2 = Some h2" "I w2"
    "h2 = h1\<lparr>h_queue := h_queue h2\<rparr>" "wf_ring HOST_PENDING_QUEUE_MAX_ENTRIES (h_queue h2)"
    "host_waiting h2 = map (attempted (hp_target e1) (hp_attempts e1 + 1) (hp_last e1 + HOST_ARP_RETRY_INTERVAL_MS)) (host_waiting h1)"
    by (rule poll_retry [OF s1(2,5) vain1 s1(3) due2])
  define e2 where "e2 = e\<lparr>hp_attempts := 3, hp_last := hp_last e + 2000\<rparr>"
  have l2: "host_waiting h2 = [e2]" unfolding s2(6) l1 by (simp add: attempted_def waits_for_def e1_def e2_def)
  have b2: "h_ip h2 = h_ip h" "h_arp h2 = h_arp h" using b1 by (subst s2(4), simp)+
  have due3: "find (overdue ?now) (host_waiting h2) = Some e2" "HOST_ARP_MAX_ATTEMPTS \<le> hp_attempts e2" by (simp_all add: l2 e2_def)
  have waits: "waits_for (hp_target e2) e2" by (simp add: waits_for_def)
  have e2: "hp_ethertype e2 = ETHERNET_TYPE_IPV4" "icmp_carried (hp_payload e2) (h_ip h2) dst ICMP_ECHO_REQUEST ident q data p m"
    using assms(7,8) b2 by (simp_all add: e2_def)
  obtain w3 h3 where s3: "host_fail_pending n (hp_target e2) w2 = Some w3" "get_host n w3 = Some h3" "wf_ring HOST_PENDING_QUEUE_MAX_ENTRIES (h_queue h3)"
    "host_waiting h3 = []" "ping_failed q h3" "h_ip h3 = h_ip h2" "h_arp h3 = h_arp h2"
    by (rule probe_fails [OF s2(2,5) l2 waits e2(1,2)])
  have "host_poll_arp send n ?now w2 = host_poll_arp send n ?now w3" using poll_fail [OF s2(2,5) due3] s3(1) by simp
  moreover have "host_poll_arp send n ?now w3 = Some w3" by (rule poll_done [OF s3(2,3)]) (simp add: s3(4))
  ultimately show ?thesis using s1(1) s2(1) s3 b2 by (intro that [of w3 h3]) simp_all
qed

text \<open>The packet of a ping is put into the empty queue, and asked for.\<close>

lemma lone_packet:
  assumes "get_host n w = Some h" "wf_host h" "asked_in_vain I send n (if host_is_same_subnet h ip then ip else h_gateway h)" "h_has_ip h"
    "host_waiting h = []" "\<not> ip_is_limited_broadcast ip" "arp_table_get (h_arp h) (if host_is_same_subnet h ip then ip else h_gateway h) = None"
    "\<not> ck_realtime (w_clock w)" "length payload \<le> ETHERNET_MAX_PAYLOAD" "I w"
    "icmp_carried payload (h_ip h) dst ICMP_ECHO_REQUEST ident q data p m"
  obtains w' h' where "host_send_l3_packet send n ip ETHERNET_TYPE_IPV4 payload w = Some (True, w')" "get_host n w' = Some h'"
    "host_waiting h' = []" "ping_failed q h'" "h_ip h' = h_ip h" "h_arp h' = h_arp h"
proof -
  let ?hop = "if host_is_same_subnet h ip then ip else h_gateway h"
  have wf: "wf_ring HOST_PENDING_QUEUE_MAX_ENTRIES (h_queue h)" using assms(2) by (simp add: wf_host_def)
  have room: "ring_size (h_queue h) < HOST_PENDING_QUEUE_MAX_ENTRIES" using length_ring_list [of HOST_PENDING_QUEUE_MAX_ENTRIES "h_queue h"] assms(5) by simp
  obtain now w1 where w1: "now_ms w = (now, w1)" by fastforce
  have w1': "w1 = snd (now_ms w)" using w1 by simp
  define e where "e = \<lparr>hp_target = ?hop, hp_ethertype = ETHERNET_TYPE_IPV4, hp_payload = payload, hp_attempts = 1, hp_last = now\<rparr>"
  note push = ring_push_list [OF wf, of e]
  define k where "k = h\<lparr>h_queue := snd (ring_push HOST_PENDING_QUEUE_MAX_ENTRIES e (h_queue h))\<rparr>"
  have k: "h_base k = h_base h" "h_ip k = h_ip h" "h_arp k = h_arp h" "h_has_ip k" "host_waiting k = [e]"
    "wf_ring HOST_PENDING_QUEUE_MAX_ENTRIES (h_queue k)" using push room assms(4,5) by (simp_all add: k_def)
  have w2: "get_host n (put_host n k w1) = Some k" by (simp only: get_put if_True refl)
  have w1h: "get_host n w1 = Some h" using assms(1) by (simp add: w1')
  have w1i: "I w1" unfolding w1' by (rule asked_in_vain_now [OF assms(3,10)])
  have w2i: "I (put_host n k w1)" by (rule asked_in_vain_put [OF assms(3) w1i w1h k(1)])
  obtain sent w3 where r: "host_send_arp_request send n ?hop (put_host n k w1) = Some (sent, w3)" "get_host n w3 = Some k" "sent = h_has_ip k" "I w3"
    "ck_realtime (w_clock w3) = ck_realtime (w_clock (put_host n k w1))" by (rule request_unanswered [OF w2 assms(3) w2i])
  have rt: "\<not> sim_clock_realtime_enabled (w_clock w3)" using r(5) assms(8) by (simp add: w1' sim_clock_realtime_enabled_def)
  have e: "hp_attempts e = 1" "hp_ethertype e = ETHERNET_TYPE_IPV4" "hp_last e = now"
    "icmp_carried (hp_payload e) (h_ip k) dst ICMP_ECHO_REQUEST ident q data p m" using assms(11) k(2) by (simp_all add: e_def)
  obtain w' h' where poll: "host_poll_arp send n (hp_last e + HOST_ARP_RETRY_INTERVAL_MS * real (HOST_ARP_MAX_ATTEMPTS + 1)) w3 = Some w'"
    "get_host n w' = Some h'" "host_waiting h' = []" "ping_failed q h'" "h_ip h' = h_ip k" "h_arp h' = h_arp k"
    by (rule probe_polled [where I = I and w = w3, OF r(2) k(6) _ r(4) k(5) e(1,2,4)]) (use assms(3) in \<open>simp add: e_def\<close>)
  have queued: "host_queue_pending_packet_with_arp_state h ?hop ETHERNET_TYPE_IPV4 payload 1 now = (True, k)"
    using push(2) room assms(9) by (simp add: host_queue_pending_packet_with_arp_state_def k_def e_def case_prod_unfold Let_def)
  have none: "host_find_pending_for_ip h ?hop = None" using ring_find_list [OF wf] assms(5) by (simp add: host_find_pending_for_ip_def)
  have arp: "arp_table_get (h_arp k) ?hop = None" using assms(7) k(3) by simp
  have "host_send_l3_packet send n ip ETHERNET_TYPE_IPV4 payload w = Some (True, w')"
    using assms(1,4,6,7,9) w1 none queued r k(4) rt arp poll(1) unfolding e(3)
    by (simp add: host_send_l3_packet_def Let_def del: get_put)
  then show ?thesis by (rule that [OF _ poll(2-4)]) (use poll(5,6) k(2,3) in simp_all)
qed

text \<open>Whatever the network, if asking for the next hop comes to nothing.\<close>

lemma ping_gives_up:
  assumes "get_host n w = Some h" "wf_host h" "h_has_ip h" "host_waiting h = []" "\<not> ip_is_limited_broadcast ip"
    "arp_table_get (h_arp h) (if host_is_same_subnet h ip then ip else h_gateway h) = None"
    "asked_in_vain I send n (if host_is_same_subnet h ip then ip else h_gateway h)" "I w" "\<not> ck_realtime (w_clock w)"
  obtains w' h' where "host_send_icmp_echo_request send n ip ttl sequence w = Some (True, w')" "get_host n w' = Some h'"
    "ping_failed sequence h'" "host_waiting h' = []" "h_ip h' = h_ip h" "h_arp h' = h_arp h"
proof -
  let ?data = "map of_nat [0..<32] :: bytes"
  obtain ip_raw p m where packet: "icmp_packet (h_ip h) ip ttl ICMP_ECHO_REQUEST 0x1234 sequence ?data = Some ip_raw"
    "length ip_raw \<le> ETHERNET_MAX_PAYLOAD" "icmp_carried ip_raw (h_ip h) ip ICMP_ECHO_REQUEST 0x1234 sequence ?data p m"
    by (rule icmp_packet_carried [of ?data "h_ip h" ip ttl ICMP_ECHO_REQUEST "0x1234" sequence]) simp
  obtain now w1 where w1: "now_ms w = (now, w1)" by fastforce
  define k where "k = h\<lparr>h_has_icmp := False, h_icmp_in_flight := True, h_icmp_rtt := 0, h_icmp_sent_at := now\<rparr>"
  have hop: "(if host_is_same_subnet k ip then ip else h_gateway k) = (if host_is_same_subnet h ip then ip else h_gateway h)"
    by (simp add: k_def host_is_same_subnet_def)
  have k: "get_host n (put_host n k w1) = Some k" "wf_host k" "h_has_ip k" "host_waiting k = []"
    "h_ip k = h_ip h" "h_arp k = h_arp h" "h_base k = h_base h"
    by (simp only: get_put if_True refl, use assms in \<open>simp_all add: k_def wf_host_def\<close>)
  have none: "arp_table_get (h_arp k) (if host_is_same_subnet k ip then ip else h_gateway k) = None" unfolding hop k(6) by (rule assms(6))
  have vain: "asked_in_vain I send n (if host_is_same_subnet k ip then ip else h_gateway k)" unfolding hop by (rule assms(7))
  have w1': "w1 = snd (now_ms w)" using w1 by simp
  have w1h: "get_host n w1 = Some h" using assms(1) by (simp add: w1')
  have w1i: "I w1" unfolding w1' by (rule asked_in_vain_now [OF assms(7,8)])
  have i: "I (put_host n k w1)" by (rule asked_in_vain_put [OF assms(7) w1i w1h k(7)])
  have rt: "\<not> ck_realtime (w_clock (put_host n k w1))" using assms(9) realtime_now [of w] by (simp add: w1)
  have echo: "host_send_icmp_echo_request send n ip ttl sequence w = host_send_l3_packet send n ip ETHERNET_TYPE_IPV4 ip_raw (put_host n k w1)"
    using packet(1) assms(1,3) w1 by (auto simp: host_send_icmp_echo_request_def icmp_packet_def k_def bind_eq_Some_conv)
  have carried: "icmp_carried ip_raw (h_ip k) ip ICMP_ECHO_REQUEST 0x1234 sequence ?data p m" using packet(3) k(5) by simp
  obtain w' h' where "host_send_l3_packet send n ip ETHERNET_TYPE_IPV4 ip_raw (put_host n k w1) = Some (True, w')" "get_host n w' = Some h'"
    "host_waiting h' = []" "ping_failed sequence h'" "h_ip h' = h_ip k" "h_arp h' = h_arp k"
    by (rule lone_packet [OF k(1,2) vain k(3,4) assms(5) none rt packet(2) i carried])
  then show ?thesis using k(5,6) by (intro that [of w' h']) (simp_all add: echo)
qed

section \<open>Nobody at the other end\<close>

text \<open>
  The interface has no link, or at the other end of its cable is a host that does not have the address.
\<close>

definition nobody_at :: "node_id \<Rightarrow> ip_address \<Rightarrow> world \<Rightarrow> bool" where
  "nobody_at n hop w \<longleftrightarrow> (\<exists>f. get_iface (n, 0) w = Some f \<and> if_link f = None) \<or>
     (\<exists>m B. cable n m w \<and> n \<noteq> m \<and> get_host m w = Some B \<and> (h_has_ip B \<longrightarrow> octet (h_ip B) \<noteq> octet hop))"

text \<open>The neighbour learns who asks, and is silent.\<close>

lemma request_ignored:
  assumes "get_host n w = Some h" "h_has_ip h \<longrightarrow> octet (h_ip h) \<noteq> octet hop"
    "framed raw mac_broadcast mac ETHERNET_TYPE_ARP (arp_wire (arp_message_init_request mac ip hop))"
  shows "host_receive send n raw w = Some (put_host n (arp_learned (strip_prefix ip) mac h) w)"
proof -
  let ?m = "arp_received (arp_message_init_request mac ip hop)"
  have m: "arp_message_from_bytes (arp_wire (arp_message_init_request mac ip hop)) = Some ?m"
    using arp_from_wire [of _ "[]"] by simp
  have f: "arp_op ?m = ARP_OPCODE_REQUEST" "arp_sender_mac ?m = mac" "arp_sender_ip ?m = strip_prefix ip" "octet (arp_target_ip ?m) = octet hop"
    by (simp_all add: arp_received_def arp_message_init_request_def)
  have learn: "snd (host_learn_arp h ?m) = arp_learned (strip_prefix ip) mac h"
    by (simp add: host_learn_arp_def f arp_learned_def case_prod_unfold Let_def)
  have "\<not> (h_has_ip h \<and> ip_octets_equal (arp_target_ip ?m) (h_ip h))" using assms(2) f(4) by auto
  then have "host_handle_arp send n (arp_wire (arp_message_init_request mac ip hop)) w = Some (put_host n (arp_learned (strip_prefix ip) mac h) w)"
    using assms(1) m f(1) learn by (auto simp: host_handle_arp_def)
  then show ?thesis using receive_framed(1) [OF assms(1,3)] by simp
qed

lemma nobody_put:
  assumes "nobody_at n hop w" "get_host k w = Some h" "h_base h' = h_base h" "k \<noteq> n \<longrightarrow> h_ip h' = h_ip h \<and> h_has_ip h' = h_has_ip h"
  shows "nobody_at n hop (put_host k h' w)"
proof -
  have "nobody_at n hop (put_host k h' w)" if c: "cable n m w" "n \<noteq> m" "get_host m w = Some B" "h_has_ip B \<longrightarrow> octet (h_ip B) \<noteq> octet hop" for m B
  proof -
    have "cable n m (put_host k h' w)" by (rule cable_put_host [OF c(1) assms(2,3)])
    moreover have "\<exists>B'. get_host m (put_host k h' w) = Some B' \<and> (h_has_ip B' \<longrightarrow> octet (h_ip B') \<noteq> octet hop)"
      using assms(2,4) c(2-4) by (cases "k = m") auto
    ultimately show ?thesis using c(2) unfolding nobody_at_def by blast
  qed
  moreover have "nobody_at n hop (put_host k h' w)" if "get_iface (n, 0) w = Some f" "if_link f = None" for f
    using that get_iface_put_host [OF assms(2,3)] by (simp add: nobody_at_def)
  ultimately show ?thesis using assms(1) unfolding nobody_at_def by blast
qed

lemma nobody_now: "nobody_at n hop w \<Longrightarrow> nobody_at n hop (snd (now_ms w))"
proof -
  assume a: "nobody_at n hop w"
  obtain c where c: "snd (now_ms w) = w\<lparr>w_clock := c\<rparr>" using now_ms_clock by blast
  have "get_iface (n, 0) (snd (now_ms w)) = get_iface (n, 0) w" unfolding c by (simp add: get_iface_def)
  with a show ?thesis unfolding nobody_at_def cable_now get_now by simp
qed

lemma nobody_asked_in_vain: "asked_in_vain (nobody_at n hop) (net_send (Suc depth)) n hop"
proof -
  have ask: "\<exists>w'. host_send_arp_request (net_send (Suc depth)) n hop w = Some (h_has_ip h, w') \<and> get_host n w' = Some h \<and> nobody_at n hop w' \<and>
      ck_realtime (w_clock w') = ck_realtime (w_clock w)" if w: "nobody_at n hop w" and h: "get_host n w = Some h" for w h
  proof (cases "h_has_ip h")
    case True
    obtain raw where raw: "host_send_arp_request (net_send (Suc depth)) n hop w = map_option (Pair True) (net_send (Suc depth) (n, 0) raw w)"
      "framed raw mac_broadcast (host_mac h) ETHERNET_TYPE_ARP (arp_wire (arp_message_init_request (host_mac h) (h_ip h) hop))"
      by (rule host_arp_request [OF h True])
    from w consider f where "get_iface (n, 0) w = Some f" "if_link f = None"
      | m B where "cable n m w" "n \<noteq> m" "get_host m w = Some B" "h_has_ip B \<longrightarrow> octet (h_ip B) \<noteq> octet hop" unfolding nobody_at_def by blast
    then show ?thesis
    proof cases
      case 1
      then have "net_send (Suc depth) (n, 0) raw w = Some w" by (simp add: net_send.simps(2) interface_send_def)
      then show ?thesis using raw(1) True h w by simp
    next
      case 2
      let ?w = "put_host m (arp_learned (strip_prefix (h_ip h)) (host_mac h) B) w"
      have "net_send (Suc depth) (n, 0) raw w = Some ?w"
        unfolding cable_delivers [OF 2(1,3)] by (rule request_ignored [OF 2(3,4) raw(2)])
      moreover have "get_host n ?w = Some h" using h 2(2) by simp
      moreover have "nobody_at n hop ?w" by (rule nobody_put [OF w 2(3)]) simp_all
      ultimately show ?thesis using raw(1) True by simp
    qed
  next
    case False
    then show ?thesis using that by (simp add: host_send_arp_request_def)
  qed
  show ?thesis unfolding asked_in_vain_def using ask nobody_now by (blast intro: nobody_put)
qed

text \<open>C4. A ping that nobody answers is reported as such. The host has an address, nothing waits in its queue,
  the pinged address is not the broadcast address 255.255.255.255, the hardware address of the next hop (the pinged address in the
  subnet, the gateway otherwise) is not in its ARP table, and time is simulated. Its interface has no link, or at the other end of the cable is a
  host without the next hop's address, which learns who asks and does not answer. Then the call returns when it has retried
  often enough, and has left the note that the destination is unreachable (type 3, code 1) under the sequence number of the ping,
  with no request outstanding, no packet waiting and nothing learned.\<close>

theorem ping_unanswered:
  assumes "get_host n w = Some h" "wf_host h" "h_has_ip h" "host_waiting h = []" "\<not> ip_is_limited_broadcast ip"
    "arp_table_get (h_arp h) (if host_is_same_subnet h ip then ip else h_gateway h) = None"
    "nobody_at n (if host_is_same_subnet h ip then ip else h_gateway h) w" "\<not> ck_realtime (w_clock w)"
  shows "\<exists>w' h'. host_send_icmp_echo_request (net_send (Suc depth)) n ip ttl sequence w = Some (True, w') \<and> get_host n w' = Some h' \<and>
    h_has_icmp h' \<and> h_icmp_type h' = ICMP_DEST_UNREACHABLE \<and> h_icmp_code h' = 1 \<and> h_icmp_source h' = h_ip h \<and>
    h_icmp_sequence h' = sequence \<and> \<not> h_icmp_in_flight h' \<and> host_waiting h' = [] \<and> h_arp h' = h_arp h"
proof -
  obtain w' h' where "host_send_icmp_echo_request (net_send (Suc depth)) n ip ttl sequence w = Some (True, w')" "get_host n w' = Some h'"
    "ping_failed sequence h'" "host_waiting h' = []" "h_ip h' = h_ip h" "h_arp h' = h_arp h"
    by (rule ping_gives_up [OF assms(1-6) nobody_asked_in_vain assms(7,8)])
  then show ?thesis by (simp add: ping_failed_def)
qed

text \<open>An interface without a link.\<close>

definition unplugged_host :: host where
  "unplugged_host = (let h = cabled_host 0 1
     in h\<lparr>h_base := (h_base h)\<lparr>nb_ifs := (nb_ifs (h_base h))[0 := (nb_ifs (h_base h) ! 0)\<lparr>if_link := None\<rparr>]\<rparr>\<rparr>)"

lemma unplugged_host:
  "wf_host unplugged_host" "nb_ifs (h_base unplugged_host) \<noteq> []" "if_link (nb_ifs (h_base unplugged_host) ! 0) = None"
  "h_arp unplugged_host = arp_table_zero" "host_waiting unplugged_host = []" "h_has_ip unplugged_host"
  "h_ip unplugged_host = ip_init (Octets 10 0 0 1) 24"
  using cabled_host_wf [of 0 1] cabled_host_simps [of 0 1] zero_host_queue_wf
  by (simp_all add: unplugged_host_def Let_def wf_host_def wf_node_def nth_list_update)

lemma unplugged_silent: "silent (net_send (Suc depth)) 0 (h_base unplugged_host)"
proof -
  have "net_send (Suc depth) (0, 0) raw w = Some w" if "get_host 0 w = Some h" "h_base h = h_base unplugged_host" for raw w h
  proof -
    have "get_iface (0, 0) w = Some (nb_ifs (h_base h) ! 0)"
      using that unplugged_host(2) by (auto simp: get_iface_def get_host_def split: option.splits node.splits)
    then show ?thesis using that(2) unplugged_host(3) by (simp add: net_send.simps(2) interface_send_def)
  qed
  then show ?thesis by (auto simp: silent_def)
qed

theorem ping_unanswered_witness:
  "\<exists>w w' h'. get_host 0 w = Some (cabled_host 0 1) \<and> get_host 1 w = Some (cabled_host 1 2) \<and> cable 0 1 w \<and>
    host_send_icmp_echo_request (net_send 1) 0 (ip_init (Octets 10 0 0 3) 24) 64 7 w = Some (True, w') \<and> get_host 0 w' = Some h' \<and>
    h_icmp_type h' = ICMP_DEST_UNREACHABLE \<and> h_icmp_sequence h' = 7"
proof -
  let ?A = "cabled_host 0 1" and ?B = "cabled_host 1 2"
  let ?w = "(undefined :: world)\<lparr>w_nodes := [0 \<mapsto> HostNode ?A, 1 \<mapsto> HostNode ?B],
    w_links := [\<lparr>ln_if1 = Some (0, 0), ln_if2 = Some (1, 0), ln_delay = 0\<rparr>], w_clock := sim_clock_initial (\<lambda>k. (int k, 0))\<rparr>"
  let ?ip = "ip_init (Octets 10 0 0 3) 24"
  have hosts: "get_host 0 ?w = Some ?A" "get_host 1 ?w = Some ?B" by (simp_all add: get_host_def)
  have cable: "cable 0 1 ?w"
    unfolding cable_def
    by (intro exI [of _ 0] exI [of _ "nb_ifs (h_base ?A) ! 0"] exI [of _ "nb_ifs (h_base ?B) ! 0"])
      (simp add: get_iface_def cabled_host_wf other_end_def sim_clock_initial_def)
  have ip: "\<not> ip_is_limited_broadcast ?ip" by (simp add: ip_is_limited_broadcast_def ip_init_def)
  have "ip_to_u32 (ip_init (Octets 10 0 0 1) 24) AND ip_prefix_to_mask 24 = ip_to_u32 ?ip AND ip_prefix_to_mask 24" by code_simp
  then have same: "host_is_same_subnet ?A ?ip" by (simp add: host_is_same_subnet_def cabled_host_simps ip_init_def)
  have none: "arp_table_get (h_arp ?A) (if host_is_same_subnet ?A ?ip then ?ip else h_gateway ?A) = None"
    unfolding cabled_host_simps(3) by (rule arp.lookup_empty)
  have waiting: "host_waiting ?A = []" using zero_host_queue_wf(2) by (simp add: cabled_host_simps)
  have "octet (h_ip ?B) \<noteq> octet ?ip" by (simp add: cabled_host_simps ip_init_def)
  then have nobody: "nobody_at 0 (if host_is_same_subnet ?A ?ip then ?ip else h_gateway ?A) ?w"
    unfolding nobody_at_def if_P [OF same] by (intro disjI2 exI [of _ 1] exI [of _ ?B] conjI impI cable hosts) simp_all
  have rt: "\<not> ck_realtime (w_clock ?w)" by (simp add: sim_clock_initial_def)
  from ping_unanswered [OF hosts(1) cabled_host_wf(1) cabled_host_simps(2) waiting ip none nobody rt, of 0 64 7]
  obtain w' h' where r: "host_send_icmp_echo_request (net_send (Suc 0)) 0 ?ip 64 7 ?w = Some (True, w')" "get_host 0 w' = Some h'"
    "h_icmp_type h' = ICMP_DEST_UNREACHABLE" "h_icmp_sequence h' = 7" by (elim exE conjE)
  show ?thesis
    by (rule exI [of _ ?w], rule exI [of _ w'], rule exI [of _ h']) (intro conjI hosts cable r(2-4) r(1) [folded One_nat_def])
qed

theorem arp_polling_ends_witness:
  "\<exists>w h w' h'. get_host 0 w = Some h \<and> map hp_attempts (host_waiting h) = [1, 3] \<and> host_poll_arp (net_send 1) 0 9000 w = Some w' \<and>
    get_host 0 w' = Some h' \<and> host_find_due h' 9000 = None"
proof -
  let ?e = "zero_pending\<lparr>hp_attempts := 1\<rparr>" and ?f = "zero_pending\<lparr>hp_attempts := 3, hp_last := 500\<rparr>"
  let ?q1 = "snd (ring_push HOST_PENDING_QUEUE_MAX_ENTRIES ?e (h_queue unplugged_host))"
  let ?q2 = "snd (ring_push HOST_PENDING_QUEUE_MAX_ENTRIES ?f ?q1)"
  let ?h = "unplugged_host\<lparr>h_queue := ?q2\<rparr>"
  let ?w = "(undefined :: world)\<lparr>w_nodes := [0 \<mapsto> HostNode ?h]\<rparr>"
  have wf: "wf_ring HOST_PENDING_QUEUE_MAX_ENTRIES (h_queue unplugged_host)" using unplugged_host(1) by (simp add: wf_host_def)
  have size: "ring_size (h_queue unplugged_host) = 0"
    using length_ring_list [of HOST_PENDING_QUEUE_MAX_ENTRIES "h_queue unplugged_host"] unplugged_host(5) by simp
  note p1 = ring_push_list [OF wf, of ?e]
  have q1: "host_waiting (unplugged_host\<lparr>h_queue := ?q1\<rparr>) = [?e]" using p1(3) unplugged_host(5) size by simp
  then have size1: "ring_size ?q1 = 1" using length_ring_list [of HOST_PENDING_QUEUE_MAX_ENTRIES ?q1] by simp
  note p2 = ring_push_list [OF p1(1), of ?f]
  have wait: "map hp_attempts (host_waiting ?h) = [1, 3]" using p2(3) q1 size1 by simp
  have h: "get_host 0 ?w = Some ?h" by (simp add: get_host_def)
  have wfh: "wf_host ?h" using unplugged_host(1) p2(1) by (simp add: wf_host_def)
  have sil: "silent (net_send 1) 0 (h_base ?h)" using unplugged_silent [of 0] by simp
  from arp_polling_ends [OF h wfh sil, of 9000] obtain w' h' where r: "host_poll_arp (net_send 1) 0 9000 ?w = Some w'"
    "get_host 0 w' = Some h'" "host_find_due h' 9000 = None" by (elim exE conjE)
  show ?thesis by (rule exI [of _ ?w], rule exI [of _ ?h], rule exI [of _ w'], rule exI [of _ h']) (intro conjI h wait r)
qed

end
