(* ===== verification/Gui_Font.thy ===== *)
theory Gui_Font
  imports Prelude
begin

text \<open>
  The bitmaps of \<^verbatim>\<open>gui/font.h\<close>: twelve rows of eight pixels for each character from 32 to 126, the
  leftmost pixel in the highest bit.
\<close>

definition font8x12_basic :: "u8 list list" where
  "font8x12_basic = [
    [0, 0, 0, 0, 0, 0, 0, 0, 0, 0, 0, 0],
    [0, 0, 0x18, 0x18, 0x18, 0x18, 0x18, 0x18, 0, 0x18, 0x18, 0],
    [0, 0x66, 0x66, 0x66, 0, 0, 0, 0, 0, 0, 0, 0],
    [0, 0, 0x24, 0x24, 0x7E, 0x24, 0x24, 0x7E, 0x24, 0x24, 0, 0],
    [0, 0x08, 0x3E, 0x49, 0x48, 0x3E, 0x09, 0x49, 0x3E, 0x08, 0, 0],
    [0, 0, 0x62, 0x64, 0x08, 0x10, 0x20, 0x4C, 0x86, 0, 0, 0],
    [0, 0, 0x18, 0x24, 0x24, 0x18, 0x28, 0x44, 0x44, 0x3A, 0, 0],
    [0, 0x18, 0x18, 0x18, 0, 0, 0, 0, 0, 0, 0, 0],
    [0, 0x04, 0x08, 0x10, 0x10, 0x10, 0x10, 0x10, 0x08, 0x04, 0, 0],
    [0, 0x20, 0x10, 0x08, 0x08, 0x08, 0x08, 0x08, 0x10, 0x20, 0, 0],
    [0, 0, 0, 0x08, 0x49, 0x2A, 0x1C, 0x2A, 0x49, 0x08, 0, 0],
    [0, 0, 0, 0x08, 0x08, 0x08, 0x7F, 0x08, 0x08, 0x08, 0, 0],
    [0, 0, 0, 0, 0, 0, 0, 0, 0x18, 0x18, 0x08, 0x10],
    [0, 0, 0, 0, 0, 0, 0x7E, 0, 0, 0, 0, 0],
    [0, 0, 0, 0, 0, 0, 0, 0, 0x18, 0x18, 0, 0],
    [0, 0, 0x02, 0x04, 0x08, 0x10, 0x20, 0x40, 0x80, 0, 0, 0],
    [0, 0, 0x3C, 0x42, 0x46, 0x4A, 0x52, 0x62, 0x42, 0x3C, 0, 0],
    [0, 0, 0x08, 0x18, 0x28, 0x08, 0x08, 0x08, 0x08, 0x3E, 0, 0],
    [0, 0, 0x3C, 0x42, 0x02, 0x04, 0x08, 0x10, 0x20, 0x7E, 0, 0],
    [0, 0, 0x3C, 0x42, 0x02, 0x1C, 0x02, 0x02, 0x42, 0x3C, 0, 0],
    [0, 0, 0x04, 0x0C, 0x14, 0x24, 0x44, 0x7E, 0x04, 0x04, 0, 0],
    [0, 0, 0x7E, 0x40, 0x40, 0x7C, 0x02, 0x02, 0x42, 0x3C, 0, 0],
    [0, 0, 0x1C, 0x20, 0x40, 0x7C, 0x42, 0x42, 0x42, 0x3C, 0, 0],
    [0, 0, 0x7E, 0x02, 0x04, 0x08, 0x10, 0x10, 0x10, 0x10, 0, 0],
    [0, 0, 0x3C, 0x42, 0x42, 0x3C, 0x42, 0x42, 0x42, 0x3C, 0, 0],
    [0, 0, 0x3C, 0x42, 0x42, 0x42, 0x3E, 0x02, 0x04, 0x38, 0, 0],
    [0, 0, 0, 0x18, 0x18, 0, 0, 0, 0x18, 0x18, 0, 0],
    [0, 0, 0, 0x18, 0x18, 0, 0, 0, 0x18, 0x18, 0x08, 0x10],
    [0, 0, 0x04, 0x08, 0x10, 0x20, 0x10, 0x08, 0x04, 0, 0, 0],
    [0, 0, 0, 0, 0x7E, 0, 0, 0x7E, 0, 0, 0, 0],
    [0, 0, 0x20, 0x10, 0x08, 0x04, 0x08, 0x10, 0x20, 0, 0, 0],
    [0, 0x3C, 0x42, 0x02, 0x04, 0x08, 0x08, 0x08, 0, 0x08, 0x08, 0],
    [0, 0, 0x3C, 0x42, 0x42, 0x4E, 0x52, 0x4E, 0x40, 0x3C, 0, 0],
    [0, 0, 0x18, 0x24, 0x42, 0x42, 0x7E, 0x42, 0x42, 0x42, 0, 0],
    [0, 0, 0x7C, 0x42, 0x42, 0x7C, 0x42, 0x42, 0x42, 0x7C, 0, 0],
    [0, 0, 0x3C, 0x42, 0x40, 0x40, 0x40, 0x40, 0x42, 0x3C, 0, 0],
    [0, 0, 0x78, 0x44, 0x42, 0x42, 0x42, 0x42, 0x44, 0x78, 0, 0],
    [0, 0, 0x7E, 0x40, 0x40, 0x7C, 0x40, 0x40, 0x40, 0x7E, 0, 0],
    [0, 0, 0x7E, 0x40, 0x40, 0x7C, 0x40, 0x40, 0x40, 0x40, 0, 0],
    [0, 0, 0x3C, 0x42, 0x40, 0x40, 0x4E, 0x42, 0x42, 0x3C, 0, 0],
    [0, 0, 0x42, 0x42, 0x42, 0x7E, 0x42, 0x42, 0x42, 0x42, 0, 0],
    [0, 0, 0x3E, 0x08, 0x08, 0x08, 0x08, 0x08, 0x08, 0x3E, 0, 0],
    [0, 0, 0x1F, 0x04, 0x04, 0x04, 0x04, 0x04, 0x44, 0x38, 0, 0],
    [0, 0, 0x42, 0x44, 0x48, 0x50, 0x60, 0x50, 0x48, 0x44, 0, 0],
    [0, 0, 0x40, 0x40, 0x40, 0x40, 0x40, 0x40, 0x40, 0x7E, 0, 0],
    [0, 0, 0x42, 0x66, 0x5A, 0x5A, 0x42, 0x42, 0x42, 0x42, 0, 0],
    [0, 0, 0x42, 0x62, 0x52, 0x4A, 0x46, 0x42, 0x42, 0x42, 0, 0],
    [0, 0, 0x3C, 0x42, 0x42, 0x42, 0x42, 0x42, 0x42, 0x3C, 0, 0],
    [0, 0, 0x7C, 0x42, 0x42, 0x42, 0x7C, 0x40, 0x40, 0x40, 0, 0],
    [0, 0, 0x3C, 0x42, 0x42, 0x42, 0x42, 0x42, 0x4A, 0x3C, 0x02, 0],
    [0, 0, 0x7C, 0x42, 0x42, 0x42, 0x7C, 0x48, 0x44, 0x42, 0, 0],
    [0, 0, 0x3C, 0x42, 0x40, 0x3C, 0x02, 0x02, 0x42, 0x3C, 0, 0],
    [0, 0, 0x7F, 0x08, 0x08, 0x08, 0x08, 0x08, 0x08, 0x08, 0, 0],
    [0, 0, 0x42, 0x42, 0x42, 0x42, 0x42, 0x42, 0x42, 0x3C, 0, 0],
    [0, 0, 0x42, 0x42, 0x42, 0x42, 0x42, 0x24, 0x18, 0x18, 0, 0],
    [0, 0, 0x42, 0x42, 0x42, 0x42, 0x5A, 0x5A, 0x66, 0x42, 0, 0],
    [0, 0, 0x42, 0x42, 0x24, 0x18, 0x18, 0x24, 0x42, 0x42, 0, 0],
    [0, 0, 0x41, 0x22, 0x14, 0x08, 0x08, 0x08, 0x08, 0x08, 0, 0],
    [0, 0, 0x7E, 0x02, 0x04, 0x08, 0x10, 0x20, 0x40, 0x7E, 0, 0],
    [0, 0x1E, 0x10, 0x10, 0x10, 0x10, 0x10, 0x10, 0x10, 0x1E, 0, 0],
    [0, 0, 0x80, 0x40, 0x20, 0x10, 0x08, 0x04, 0x02, 0, 0, 0],
    [0, 0x78, 0x08, 0x08, 0x08, 0x08, 0x08, 0x08, 0x08, 0x78, 0, 0],
    [0, 0x18, 0x24, 0x42, 0, 0, 0, 0, 0, 0, 0, 0],
    [0, 0, 0, 0, 0, 0, 0, 0, 0, 0, 0x7F, 0],
    [0, 0x10, 0x08, 0x04, 0, 0, 0, 0, 0, 0, 0, 0],
    [0, 0, 0, 0, 0x3C, 0x02, 0x3E, 0x42, 0x46, 0x3A, 0, 0],
    [0, 0, 0x40, 0x40, 0x5C, 0x62, 0x42, 0x42, 0x62, 0x5C, 0, 0],
    [0, 0, 0, 0, 0x3C, 0x42, 0x40, 0x40, 0x42, 0x3C, 0, 0],
    [0, 0, 0x02, 0x02, 0x3A, 0x46, 0x42, 0x42, 0x46, 0x3A, 0, 0],
    [0, 0, 0, 0, 0x3C, 0x42, 0x7E, 0x40, 0x42, 0x3C, 0, 0],
    [0, 0, 0x0C, 0x12, 0x10, 0x7C, 0x10, 0x10, 0x10, 0x10, 0, 0],
    [0, 0, 0, 0, 0x3A, 0x46, 0x42, 0x42, 0x46, 0x3A, 0x02, 0x3C],
    [0, 0, 0x40, 0x40, 0x5C, 0x62, 0x42, 0x42, 0x42, 0x42, 0, 0],
    [0, 0, 0x08, 0, 0x18, 0x08, 0x08, 0x08, 0x08, 0x3E, 0, 0],
    [0, 0, 0x04, 0, 0x0C, 0x04, 0x04, 0x04, 0x04, 0x44, 0x44, 0x38],
    [0, 0, 0x40, 0x40, 0x44, 0x48, 0x50, 0x68, 0x44, 0x42, 0, 0],
    [0, 0, 0x18, 0x08, 0x08, 0x08, 0x08, 0x08, 0x08, 0x3E, 0, 0],
    [0, 0, 0, 0, 0x76, 0x49, 0x49, 0x49, 0x49, 0x49, 0, 0],
    [0, 0, 0, 0, 0x5C, 0x62, 0x42, 0x42, 0x42, 0x42, 0, 0],
    [0, 0, 0, 0, 0x3C, 0x42, 0x42, 0x42, 0x42, 0x3C, 0, 0],
    [0, 0, 0, 0, 0x5C, 0x62, 0x42, 0x42, 0x62, 0x5C, 0x40, 0x40],
    [0, 0, 0, 0, 0x3A, 0x46, 0x42, 0x42, 0x46, 0x3A, 0x02, 0x02],
    [0, 0, 0, 0, 0x5C, 0x62, 0x40, 0x40, 0x40, 0x40, 0, 0],
    [0, 0, 0, 0, 0x3E, 0x40, 0x3C, 0x02, 0x02, 0x7C, 0, 0],
    [0, 0, 0x10, 0x10, 0x7C, 0x10, 0x10, 0x10, 0x12, 0x0C, 0, 0],
    [0, 0, 0, 0, 0x42, 0x42, 0x42, 0x42, 0x46, 0x3A, 0, 0],
    [0, 0, 0, 0, 0x42, 0x42, 0x42, 0x42, 0x24, 0x18, 0, 0],
    [0, 0, 0, 0, 0x42, 0x42, 0x42, 0x49, 0x49, 0x36, 0, 0],
    [0, 0, 0, 0, 0x42, 0x24, 0x18, 0x18, 0x24, 0x42, 0, 0],
    [0, 0, 0, 0, 0x42, 0x42, 0x42, 0x42, 0x46, 0x3A, 0x02, 0x3C],
    [0, 0, 0, 0, 0x7E, 0x04, 0x08, 0x10, 0x20, 0x7E, 0, 0],
    [0, 0x06, 0x08, 0x08, 0x08, 0x30, 0x08, 0x08, 0x08, 0x06, 0, 0],
    [0, 0x08, 0x08, 0x08, 0x08, 0x08, 0x08, 0x08, 0x08, 0x08, 0, 0],
    [0, 0x60, 0x10, 0x10, 0x10, 0x0C, 0x10, 0x10, 0x10, 0x60, 0, 0],
    [0, 0, 0, 0, 0, 0x72, 0x4C, 0, 0, 0, 0, 0]]"

lemma font_size [simp]: "length font8x12_basic = 95"
  by (simp add: font8x12_basic_def)

lemma glyph_size: "i < 95 \<Longrightarrow> length (font8x12_basic ! i) = 12"
proof -
  have "\<forall>g \<in> set font8x12_basic. length g = 12" by (simp add: font8x12_basic_def)
  then show "i < 95 \<Longrightarrow> length (font8x12_basic ! i) = 12" by simp
qed

end
