(* ===== verification/Gui_Draw.thy ===== *)
theory Gui_Draw
  imports Gui_Font
begin

text \<open>
  The drawing helpers of \<^verbatim>\<open>gui/app.c\<close>. The renderer of SDL is a list of the calls made on it, in their
  order; a helper returns the calls it makes. Coordinates are \<^verbatim>\<open>int\<close>s far from overflow.
\<close>

unbundle bit_operations_syntax

section \<open>The calls\<close>

record rect =
  rc_x :: int
  rc_y :: int
  rc_w :: int
  rc_h :: int

definition sdl_rect :: "int \<Rightarrow> int \<Rightarrow> int \<Rightarrow> int \<Rightarrow> rect" where
  "sdl_rect x y w h = \<lparr>rc_x = x, rc_y = y, rc_w = w, rc_h = h\<rparr>"

lemma sdl_rect_simps [simp]: "rc_x (sdl_rect x y w h) = x" "rc_y (sdl_rect x y w h) = y" "rc_w (sdl_rect x y w h) = w" "rc_h (sdl_rect x y w h) = h"
  by (simp_all add: sdl_rect_def)

datatype draw_call =
    SetDrawColor u8 u8 u8 u8
  | RenderClear
  | DrawPoint int int
  | DrawLine int int int int
  | FillRect rect
  | DrawRect rect
  | SetClipRect "rect option"
  | RenderPresent

section \<open>Text\<close>

abbreviation FONT_W :: nat where "FONT_W \<equiv> 8"
abbreviation FONT_H_PX :: nat where "FONT_H_PX \<equiv> 12"
abbreviation CHAR_W :: int where "CHAR_W \<equiv> 9"
abbreviation LINE_H :: int where "LINE_H \<equiv> 14"

text \<open>A colour is its four components.\<close>

type_synonym rgba = "u8 \<times> u8 \<times> u8 \<times> u8"

definition draw_char :: "int \<Rightarrow> int \<Rightarrow> char \<Rightarrow> rgba \<Rightarrow> draw_call list" where
  "draw_char x y ch = (\<lambda>(cr, cg, cb, ca).
    let code = (of_char ch :: nat);
        code = (if code < 32 \<or> 126 < code then 63 else code);
        glyph = font8x12_basic ! (code - 32)
    in SetDrawColor cr cg cb ca #
       concat (map (\<lambda>row. map (\<lambda>col. DrawPoint (x + int col) (y + int row))
         (filter (\<lambda>col. glyph ! row AND drop_bit col 0x80 \<noteq> 0) [0..<FONT_W])) [0..<FONT_H_PX]))"

text \<open>With the calls comes the width.\<close>

fun draw_string :: "int \<Rightarrow> int \<Rightarrow> string \<Rightarrow> rgba \<Rightarrow> draw_call list" where
  "draw_string x y [] c = []"
| "draw_string x y (ch # str) c = draw_char x y ch c @ draw_string (x + CHAR_W) y str c"

definition string_width :: "string \<Rightarrow> int" where
  "string_width str = int (length str) * CHAR_W"

text \<open>The loop of \<^verbatim>\<open>count_wrapped_lines\<close>, and the one that draws.\<close>

fun count_loop :: "int \<Rightarrow> int \<Rightarrow> int \<Rightarrow> string \<Rightarrow> int" where
  "count_loop max_width n cx [] = n"
| "count_loop max_width n cx (ch # str) =
    (if ch = CHR 0x0A then count_loop max_width (n + 1) 0 str
     else if max_width < cx + CHAR_W \<and> 0 < cx then count_loop max_width (n + 1) CHAR_W str
     else count_loop max_width n (cx + CHAR_W) str)"

definition count_wrapped_lines :: "string \<Rightarrow> int \<Rightarrow> int" where
  "count_wrapped_lines str max_width = count_loop max_width 1 0 str"

fun wrapped_loop :: "int \<Rightarrow> int \<Rightarrow> rgba \<Rightarrow> int \<Rightarrow> int \<Rightarrow> int \<Rightarrow> string \<Rightarrow> int \<times> draw_call list" where
  "wrapped_loop x max_width c cx cy n [] = (n, [])"
| "wrapped_loop x max_width c cx cy n (ch # str) =
    (if ch = CHR 0x0A then wrapped_loop x max_width c x (cy + LINE_H) (n + 1) str
     else
       let (cx, cy, n) = (if x + max_width < cx + CHAR_W \<and> x < cx then (x, cy + LINE_H, n + 1) else (cx, cy, n));
           (n, calls) = wrapped_loop x max_width c (cx + CHAR_W) cy n str
       in (n, draw_char cx cy ch c @ calls))"

definition draw_string_wrapped :: "int \<Rightarrow> int \<Rightarrow> string \<Rightarrow> int \<Rightarrow> rgba \<Rightarrow> int \<times> draw_call list" where
  "draw_string_wrapped x y str max_width c = (let (n, calls) = wrapped_loop x max_width c x y 0 str in (n + 1, calls))"

section \<open>Shapes\<close>

definition rgba_of :: "u32 \<Rightarrow> rgba" where
  "rgba_of c = (ucast (drop_bit 24 c AND 0xFF), ucast (drop_bit 16 c AND 0xFF), ucast (drop_bit 8 c AND 0xFF), ucast (c AND 0xFF))"

definition set_col :: "u32 \<Rightarrow> draw_call list" where
  "set_col c = (case rgba_of c of (cr, cg, cb, ca) \<Rightarrow> [SetDrawColor cr cg cb ca])"

text \<open>The offsets of a disc, row by row.\<close>

definition disc :: "int \<Rightarrow> (int \<times> int) list" where
  "disc rad = concat (map (\<lambda>dy. map (\<lambda>dx. (dx, dy)) (filter (\<lambda>dx. dx * dx + dy * dy \<le> rad * rad) [- rad..rad])) [- rad..rad])"

definition fill_rounded_rect :: "int \<Rightarrow> int \<Rightarrow> int \<Rightarrow> int \<Rightarrow> int \<Rightarrow> u32 \<Rightarrow> draw_call list" where
  "fill_rounded_rect x y w h rad color = set_col color @
    (if rad \<le> 0 then [FillRect (sdl_rect x y w h)]
     else
       [FillRect (sdl_rect (x + rad) y (w - 2 * rad) h),
        FillRect (sdl_rect x (y + rad) rad (h - 2 * rad)),
        FillRect (sdl_rect (x + w - rad) (y + rad) rad (h - 2 * rad))] @
       concat (map (\<lambda>(dx, dy).
         [DrawPoint (x + rad + dx) (y + rad + dy), DrawPoint (x + w - rad - 1 + dx) (y + rad + dy),
          DrawPoint (x + rad + dx) (y + h - rad - 1 + dy), DrawPoint (x + w - rad - 1 + dx) (y + h - rad - 1 + dy)]) (disc rad)))"

definition draw_thick_line :: "int \<Rightarrow> int \<Rightarrow> int \<Rightarrow> int \<Rightarrow> u32 \<Rightarrow> draw_call list" where
  "draw_thick_line x1 y1 x2 y2 color = set_col color @
    [DrawLine x1 y1 x2 y2, DrawLine (x1 + 1) y1 (x2 + 1) y2, DrawLine (x1 - 1) y1 (x2 - 1) y2]"

definition fill_circle :: "int \<Rightarrow> int \<Rightarrow> int \<Rightarrow> u32 \<Rightarrow> draw_call list" where
  "fill_circle cx cy rad color = set_col color @ map (\<lambda>(dx, dy). DrawPoint (cx + dx) (cy + dy)) (disc rad)"

definition point_in_rect :: "int \<Rightarrow> int \<Rightarrow> rect \<Rightarrow> bool" where
  "point_in_rect x y r \<longleftrightarrow> rc_x r \<le> x \<and> x < rc_x r + rc_w r \<and> rc_y r \<le> y \<and> y < rc_y r + rc_h r"

section \<open>Where the pixels are\<close>

text \<open>The points a call sets one by one; the rectangle a call fills.\<close>

definition inside :: "rect \<Rightarrow> draw_call \<Rightarrow> bool" where
  "inside r d \<longleftrightarrow>
    (case d of DrawPoint x y \<Rightarrow> point_in_rect x y r
     | FillRect f \<Rightarrow> rc_x r \<le> rc_x f \<and> rc_x f + rc_w f \<le> rc_x r + rc_w r \<and> rc_y r \<le> rc_y f \<and> rc_y f + rc_h f \<le> rc_y r + rc_h r
     | SetDrawColor _ _ _ _ \<Rightarrow> True | _ \<Rightarrow> False)"

lemma inside_simps [simp]:
  "inside r (DrawPoint x y) = point_in_rect x y r" "inside r (SetDrawColor a b c d)"
  "inside r (FillRect f) = (rc_x r \<le> rc_x f \<and> rc_x f + rc_w f \<le> rc_x r + rc_w r \<and> rc_y r \<le> rc_y f \<and> rc_y f + rc_h f \<le> rc_y r + rc_h r)"
  by (simp_all add: inside_def)

lemma set_col_inside [simp]: "d \<in> set (set_col c) \<Longrightarrow> inside r d"
  by (auto simp: set_col_def split: prod.splits)

lemma char_inside:
  assumes "d \<in> set (draw_char x y ch c)" "rc_x r \<le> x" "x + 8 \<le> rc_x r + rc_w r" "rc_y r \<le> y" "y + 12 \<le> rc_y r + rc_h r"
  shows "inside r d"
  using assms by (auto simp: draw_char_def Let_def point_in_rect_def split: prod.splits)

lemma string_inside: "d \<in> set (draw_string x y str c) \<Longrightarrow> inside (sdl_rect x y (string_width str) 12) d"
proof -
  have "rc_x r \<le> x \<Longrightarrow> x + string_width str \<le> rc_x r + rc_w r \<Longrightarrow> rc_y r \<le> y \<Longrightarrow> y + 12 \<le> rc_y r + rc_h r \<Longrightarrow>
      d \<in> set (draw_string x y str c) \<Longrightarrow> inside r d" for r
  proof (induction str arbitrary: x)
    case (Cons ch str)
    then show ?case using Cons.IH [of "x + CHAR_W"] char_inside [of d x y ch c r] by (auto simp: string_width_def)
  qed simp
  then show "d \<in> set (draw_string x y str c) \<Longrightarrow> inside (sdl_rect x y (string_width str) 12) d" by simp
qed

lemma wrapped_cases:
  obtains "ch = CHR 0x0A" "wrapped_loop x m c cx cy n (ch # str) = wrapped_loop x m c x (cy + LINE_H) (n + 1) str"
  | "ch \<noteq> CHR 0x0A" "x + m < cx + CHAR_W" "x < cx" "wrapped_loop x m c cx cy n (ch # str) =
      (fst (wrapped_loop x m c (x + CHAR_W) (cy + LINE_H) (n + 1) str),
       draw_char x (cy + LINE_H) ch c @ snd (wrapped_loop x m c (x + CHAR_W) (cy + LINE_H) (n + 1) str))"
  | "ch \<noteq> CHR 0x0A" "\<not> (x + m < cx + CHAR_W \<and> x < cx)" "wrapped_loop x m c cx cy n (ch # str) =
      (fst (wrapped_loop x m c (cx + CHAR_W) cy n str), draw_char cx cy ch c @ snd (wrapped_loop x m c (cx + CHAR_W) cy n str))"
proof -
  consider "ch = CHR 0x0A" | "ch \<noteq> CHR 0x0A" "x + m < cx + CHAR_W \<and> x < cx" | "ch \<noteq> CHR 0x0A" "\<not> (x + m < cx + CHAR_W \<and> x < cx)" by blast
  then show thesis
  proof cases
    case 3
    have "(if x + m < cx + CHAR_W \<and> x < cx then (x, cy + LINE_H, n + 1) else (cx, cy, n)) = (cx, cy, n)" using 3(2) by (rule if_not_P)
    then show ?thesis by (intro that(3) [OF 3]) (simp only: wrapped_loop.simps if_not_P [OF 3(1)] Let_def case_prod_unfold fst_conv snd_conv)
  qed (use that in \<open>simp_all add: case_prod_unfold Let_def\<close>)
qed

lemma wrapped_counts: "fst (wrapped_loop x m c cx cy n str) + 1 = count_loop m (n + 1) (cx - x) str"
proof (induction str arbitrary: cx cy n)
  case (Cons ch str)
  have e: "cx + CHAR_W - x = cx - x + CHAR_W" by simp
  show ?case
    using Cons [of "x" "cy + LINE_H" "n + 1"] Cons [of "x + CHAR_W" "cy + LINE_H" "n + 1"] Cons [of "cx + CHAR_W" cy n, unfolded e]
    by (cases rule: wrapped_cases [of ch x m c cx cy n str]) auto
qed simp

lemma wrapped_lines_grow: "n \<le> fst (wrapped_loop x m c cx cy n str)"
proof (induction str arbitrary: cx cy n)
  case (Cons ch str)
  show ?case
    using Cons [of "n + 1" "x" "cy + LINE_H"] Cons [of "n + 1" "x + CHAR_W" "cy + LINE_H"] Cons [of n "cx + CHAR_W" cy]
    by (cases rule: wrapped_cases [of ch x m c cx cy n str]) auto
qed simp

lemma wrapped_inside:
  assumes "d \<in> set (snd (wrapped_loop x m c cx cy n str))" "x \<le> cx" "cy = y + n * LINE_H" "0 \<le> n" "CHAR_W \<le> m"
    and "fst (wrapped_loop x m c cx cy n str) < k"
  shows "inside (sdl_rect x y m (k * LINE_H)) d"
  using assms
proof (induction str arbitrary: cx cy n)
  case (Cons ch str)
  let ?r = "sdl_rect x y m (k * LINE_H)"
  have here: "inside ?r d" if "d \<in> set (draw_char cx' cy' ch c)" "x \<le> cx'" "cx' + CHAR_W \<le> x + m" "cy' = y + n' * LINE_H" "0 \<le> n'"
    "n' \<le> fst (wrapped_loop x m c cx cy n (ch # str))" for cx' cy' n'
  proof -
    have "cy' + LINE_H \<le> y + k * LINE_H" using that(4,6) Cons.prems(6) by simp
    then show ?thesis by (intro char_inside [OF that(1)]) (use that(2-5) in auto)
  qed
  show ?case
  proof (cases rule: wrapped_cases [of ch x m c cx cy n str])
    case 1
    show ?thesis by (rule Cons.IH [of x "cy + LINE_H" "n + 1"]) (use 1 Cons.prems in \<open>simp_all add: algebra_simps\<close>)
  next
    case 2
    note g = wrapped_lines_grow [of "n + 1" x m c "x + CHAR_W" "cy + LINE_H" str]
    have "inside ?r d" if "d \<in> set (snd (wrapped_loop x m c (x + CHAR_W) (cy + LINE_H) (n + 1) str))"
      by (rule Cons.IH [OF that]) (use 2 Cons.prems in \<open>simp_all add: algebra_simps\<close>)
    moreover have "inside ?r d" if "d \<in> set (draw_char x (cy + LINE_H) ch c)"
      by (rule here [OF that, of "n + 1"]) (use 2 g Cons.prems in \<open>simp_all add: algebra_simps\<close>)
    ultimately show ?thesis using Cons.prems(1) unfolding 2(4) by auto
  next
    case 3
    note g = wrapped_lines_grow [of n x m c "cx + CHAR_W" cy str]
    have "inside ?r d" if "d \<in> set (snd (wrapped_loop x m c (cx + CHAR_W) cy n str))"
      by (rule Cons.IH [OF that]) (use 3 Cons.prems in simp_all)
    moreover have "inside ?r d" if "d \<in> set (draw_char cx cy ch c)"
      by (rule here [OF that, of n]) (use 3 g Cons.prems in auto)
    ultimately show ?thesis using Cons.prems(1) unfolding 3(3) by auto
  qed
qed simp

text \<open>C25. The text of the detail panel: the routine that draws wrapped text uses exactly the number of lines
  the other routine counts, on which the scroll bar rests, and no pixel lies outside of these lines and of the width.\<close>

theorem wrapped_text_fits:
  assumes "CHAR_W \<le> max_width"
  shows "fst (draw_string_wrapped x y str max_width c) = count_wrapped_lines str max_width \<and>
    list_all (inside (sdl_rect x y max_width (count_wrapped_lines str max_width * LINE_H))) (snd (draw_string_wrapped x y str max_width c))"
proof -
  let ?r = "wrapped_loop x max_width c x y 0 str"
  have count: "fst ?r + 1 = count_wrapped_lines str max_width"
    using wrapped_counts [of x max_width c x y 0 str] by (simp add: count_wrapped_lines_def)
  have "inside (sdl_rect x y max_width (count_wrapped_lines str max_width * LINE_H)) d" if "d \<in> set (snd ?r)" for d
    by (rule wrapped_inside [OF that]) (use assms count in auto)
  then show ?thesis using count by (simp add: draw_string_wrapped_def case_prod_unfold list_all_iff)
qed

theorem wrapped_text_fits_witness: "fst (draw_string_wrapped 968 28 ''Name: H1'' 27 (255, 255, 255, 255)) = 3"
  using wrapped_text_fits [of 27 968 28 "''Name: H1''" "(255, 255, 255, 255)"] by (simp add: count_wrapped_lines_def)

end
