(* ===== verification/Recent.thy ===== *)
theory Recent
  imports Prelude
begin

text \<open>
  An array of fixed size that keeps the last entries of a growing list: entry \<open>k\<close> lives in slot
  \<open>k mod n\<close>. The window keeps its log, its events and the history of the command line this way.
\<close>

definition recent :: "nat \<Rightarrow> 'a list \<Rightarrow> 'a list \<Rightarrow> bool" where
  "recent n all slots \<longleftrightarrow> length slots = n \<and> (\<forall>k < length all. length all \<le> k + n \<longrightarrow> slots ! (k mod n) = all ! k)"

lemma recent_size: "recent n all slots \<Longrightarrow> length slots = n"
  by (simp add: recent_def)

lemma recent_empty [simp]: "recent n [] slots \<longleftrightarrow> length slots = n"
  by (simp add: recent_def)

lemma recent_at: "recent n all slots \<Longrightarrow> k < length all \<Longrightarrow> length all \<le> k + n \<Longrightarrow> slots ! (k mod n) = all ! k"
  by (simp add: recent_def)

lemma near_mod:
  fixes a b n :: nat
  assumes "a < b" "b < a + n"
  shows "a mod n \<noteq> b mod n"
proof
  assume "a mod n = b mod n"
  then have "n dvd b - a" using assms(1) by (metis less_imp_le mod_eq_dvd_iff_nat)
  then have "n \<le> b - a" using assms(1) by (intro dvd_imp_le) auto
  then show False using assms by linarith
qed

lemma recent_push:
  assumes "recent n all slots" "0 < n"
  shows "recent n (all @ [x]) (slots[length all mod n := x])"
proof -
  have "slots[length all mod n := x] ! (k mod n) = (all @ [x]) ! k" if k: "k < length (all @ [x])" "length (all @ [x]) \<le> k + n" for k
  proof (cases "k = length all")
    case True
    then show ?thesis using assms by (simp add: recent_def)
  next
    case False
    then have "k < length all" using k by simp
    moreover from this have "length all mod n \<noteq> k mod n" using near_mod [of k "length all" n] k(2) by simp
    ultimately show ?thesis using assms k(2) by (simp add: recent_def nth_append)
  qed
  then show ?thesis using assms by (simp add: recent_def)
qed

end
