(* ===== verification/Gui_State.thy ===== *)
theory Gui_State
  imports Gui_Draw Recent Cli
begin

text \<open>
  The state of the window (\<^verbatim>\<open>gui/app.c\<close>) and the parts of it that have nothing to do with the picture: the
  log, the events found in it, the history of the input line, and the dispatch of a command.

  The arrays keep their size, a counted part of a static array is a list. The text that the program writes
  while the window is open goes into a pipe that the window reads; \<open>ap_pipe\<close> is what the pipe holds, and
  \<open>ap_terminal\<close> what has reached the terminal. A write that the pipe cannot hold blocks for ever, since
  only the writer itself reads; this is \<open>None\<close>.
\<close>

section \<open>State\<close>

abbreviation EVENT_RING_CAP :: nat where "EVENT_RING_CAP \<equiv> 512"
abbreviation EVENT_SUMMARY_LEN :: nat where "EVENT_SUMMARY_LEN \<equiv> 80"
abbreviation LOG_LINES :: nat where "LOG_LINES \<equiv> 400"
abbreviation LOG_LINE_LEN :: nat where "LOG_LINE_LEN \<equiv> 256"
abbreviation INPUT_BUF_LEN :: nat where "INPUT_BUF_LEN \<equiv> 240"
abbreviation HISTORY_LEN :: nat where "HISTORY_LEN \<equiv> 32"

record gnode =
  gn_x :: int
  gn_y :: int
  gn_w :: int
  gn_h :: int
  gn_index :: nat
  gn_hovered :: bool

record glink =
  gl_n1 :: nat
  gl_n2 :: nat
  gl_delay :: real
  gl_port1 :: nat
  gl_port2 :: nat

datatype widget_id = WIDGET_NONE | WIDGET_BTN_PLAYPAUSE | WIDGET_BTN_STEP | WIDGET_BTN_RESET | WIDGET_SLIDER_SPEED

record widget =
  wg_bounds :: rect
  wg_hovered :: bool
  wg_pressed :: bool

datatype event_kind = EV_NONE | EV_ARP_TX | EV_ARP_RX | EV_ICMP_REQ | EV_ICMP_REPLY | EV_FORWARD_L2 | EV_FLOOD | EV_DROP
  | EV_ROUTE | EV_TCP | EV_DHCP | EV_DNS | EV_HTTP | EV_GENERIC

record event_entry =
  ev_kind :: event_kind
  ev_time :: real
  ev_log_idx :: nat
  ev_node_idx :: int
  ev_summary :: string

record app_state =
  ap_cli :: cli_state
  ap_gnodes :: "gnode list"
  ap_glinks :: "glink list"
  ap_selected_idx :: int
  ap_hover_idx :: int
  ap_running :: bool
  ap_needs_layout :: bool
  ap_flash_at :: "real list"
  ap_log_lines :: "string list"
  ap_log_head :: nat
  ap_log_count :: nat
  ap_log_scroll :: int
  ap_log_partial :: string
  ap_input :: string
  ap_history :: "string list"
  ap_history_count :: nat
  ap_history_idx :: int
  ap_pipe :: "string option"
  ap_terminal :: string
  ap_play :: widget
  ap_step :: widget
  ap_reset :: widget
  ap_slider :: widget
  ap_dragging :: bool
  ap_hover_widget :: widget_id
  ap_events :: "event_entry list"
  ap_events_head :: nat
  ap_events_count :: nat
  ap_selected_event :: int
  ap_first_event_id :: nat
  ap_events_scroll :: int
  ap_events_hover_row :: int
  ap_events_rect :: rect
  ap_detail_scroll :: int
  ap_detail_rect :: rect

text \<open>What is outside of the window: the parameters of the commands, and how much a pipe holds.\<close>

record window =
  wd_outside :: outside
  wd_capacity :: nat

abbreviation ap_sim :: "app_state \<Rightarrow> simulator" where "ap_sim s \<equiv> cl_sim (ap_cli s)"
abbreviation ap_world :: "app_state \<Rightarrow> world" where "ap_world s \<equiv> si_world (ap_sim s)"

definition set_world :: "world \<Rightarrow> app_state \<Rightarrow> app_state" where
  "set_world w s = s\<lparr>ap_cli := (ap_cli s)\<lparr>cl_sim := (ap_sim s)\<lparr>si_world := w\<rparr>\<rparr>\<rparr>"

definition on_clock :: "(sim_clock \<Rightarrow> sim_clock) \<Rightarrow> app_state \<Rightarrow> app_state" where
  "on_clock f s = set_world ((ap_world s)\<lparr>w_clock := f (w_clock (ap_world s))\<rparr>) s"

definition gui_now :: "app_state \<Rightarrow> real \<times> app_state" where
  "gui_now s = (let (t, w) = now_ms (ap_world s) in (t, set_world w s))"

section \<open>Events\<close>

definition find_node_by_name :: "simulator \<Rightarrow> string \<Rightarrow> int" where
  "find_node_by_name sim name =
    (case first_index (\<lambda>i. en_name (si_nodes sim ! i) = name) (length (si_nodes sim)) of Some i \<Rightarrow> int i | None \<Rightarrow> - 1)"

text \<open>\<^verbatim>\<open>strstr\<close> as a test, and \<^verbatim>\<open>snprintf\<close> of a string.\<close>

fun strstr :: "string \<Rightarrow> string \<Rightarrow> bool" where
  "strstr [] pat = (pat = [])"
| "strstr (c # hay) pat = (take (length pat) (c # hay) = pat \<or> strstr hay pat)"

definition snprintf_s :: "nat \<Rightarrow> string \<Rightarrow> string" where
  "snprintf_s cap s = take (cap - 1) s"

text \<open>The name in brackets at the head of a line, when the bracket closes within 32 characters, and the rest of the line.\<close>

definition bracketed :: "string \<Rightarrow> string option" where
  "bracketed line =
    (let close = length (takeWhile (\<lambda>c. c \<noteq> CHR '']'') line)
     in if line = [] \<or> hd line \<noteq> CHR ''['' \<or> close = length line \<or> 32 \<le> close then None else Some (take (close - 1) (tl line)))"

definition event_rest :: "string \<Rightarrow> string" where
  "event_rest line =
    (case bracketed line of None \<Rightarrow> line
     | Some name \<Rightarrow> dropWhile (\<lambda>c. c = CHR '' '') (drop (length name + 2) line))"

definition event_kind_of :: "string \<Rightarrow> string \<Rightarrow> event_kind" where
  "event_kind_of line rest =
    (if strstr rest ''Sending ARP Request'' then EV_ARP_TX
     else if strstr rest ''ARP Request received'' then EV_ARP_RX
     else if strstr rest ''ARP Reply received'' then EV_ARP_RX
     else if strstr rest ''ICMP Echo Request'' then EV_ICMP_REQ
     else if strstr rest ''ICMP Echo Reply'' then EV_ICMP_REPLY
     else if strstr line ''Reply from'' then EV_ICMP_REPLY
     else if strstr rest ''Flooding'' then EV_FLOOD
     else if strstr rest ''Dropped'' \<or> strstr rest ''drop'' then EV_DROP
     else if strstr rest ''Forwarding frame'' then EV_FORWARD_L2
     else if strstr rest ''Forwarding IPv4'' \<or> strstr rest ''Routing'' then EV_ROUTE
     else if take 5 rest = ''[TCP]'' \<or> strstr rest ''TCP]'' \<or> strstr rest ''Socket'' then EV_TCP
     else if strstr rest ''DHCP'' then EV_DHCP
     else if strstr rest ''DNS'' then EV_DNS
     else if strstr rest ''HTTP'' then EV_HTTP
     else EV_GENERIC)"

definition classify_event :: "simulator \<Rightarrow> string \<Rightarrow> nat \<Rightarrow> event_kind \<times> int \<times> string" where
  "classify_event sim line cap =
    (if line = [] then (EV_NONE, - 1, [])
     else
       let node = (case bracketed line of None \<Rightarrow> - 1 | Some name \<Rightarrow> find_node_by_name sim name);
           rest = event_rest line;
           summary = rev (dropWhile (\<lambda>c. c = CHR 0x0A \<or> c = CHR 0x0D) (rev (snprintf_s cap rest)))
       in (event_kind_of line rest, node, summary))"

definition event_push :: "string \<Rightarrow> nat \<Rightarrow> app_state \<Rightarrow> app_state" where
  "event_push line log_slot s =
    (let (kind, node, summary) = classify_event (ap_sim s) line EVENT_SUMMARY_LEN
     in if kind = EV_NONE then s
        else if kind = EV_GENERIC \<and> (hd line = CHR ''='' \<or> take 5 line = ''magi>'' \<or> strstr line ''MAGI SYSTEM'' \<or> strstr line ''Commands:'')
        then s
        else
          let idx = ap_events_head s;
              (t, s) = gui_now s;
              e = \<lparr>ev_kind = kind, ev_time = t, ev_log_idx = log_slot, ev_node_idx = node, ev_summary = snprintf_s EVENT_SUMMARY_LEN summary\<rparr>;
              s = s\<lparr>ap_events := (ap_events s)[idx := e], ap_events_head := (idx + 1) mod EVENT_RING_CAP\<rparr>
          in if ap_events_count s < EVENT_RING_CAP then s\<lparr>ap_events_count := ap_events_count s + 1\<rparr>
             else s\<lparr>ap_first_event_id := ap_first_event_id s + 1\<rparr>)"

section \<open>The log\<close>

definition log_append_line :: "string \<Rightarrow> app_state \<Rightarrow> app_state" where
  "log_append_line line s =
    (let idx = ap_log_head s;
         s = s\<lparr>ap_log_lines := (ap_log_lines s)[idx := snprintf_s LOG_LINE_LEN line], ap_log_head := (idx + 1) mod LOG_LINES\<rparr>;
         s = (if ap_log_count s < LOG_LINES then s\<lparr>ap_log_count := ap_log_count s + 1\<rparr> else s)
     in event_push line idx s)"

text \<open>One character of the captured text.\<close>

definition log_append_char :: "char \<Rightarrow> app_state \<Rightarrow> app_state" where
  "log_append_char c s =
    (if c = CHR 0x0A then (log_append_line (c_string (ap_log_partial s)) s)\<lparr>ap_log_partial := []\<rparr>
     else if c = CHR 0x0D then s
     else if c = CHR 0x09 then s\<lparr>ap_log_partial := ap_log_partial s @ replicate (min 4 (LOG_LINE_LEN - 1 - length (ap_log_partial s))) CHR '' ''\<rparr>
     else if length (ap_log_partial s) < LOG_LINE_LEN - 1 then s\<lparr>ap_log_partial := ap_log_partial s @ [c]\<rparr>
     else (log_append_line (c_string (ap_log_partial s)) s)\<lparr>ap_log_partial := [c]\<rparr>)"

definition log_append_chars :: "string \<Rightarrow> app_state \<Rightarrow> app_state" where
  "log_append_chars buf s = fold log_append_char buf s"

section \<open>The captured output\<close>

definition capture_stdout_init :: "bool \<Rightarrow> app_state \<Rightarrow> app_state" where
  "capture_stdout_init pipe_works s = (if pipe_works then s\<lparr>ap_pipe := Some []\<rparr> else s\<lparr>ap_pipe := None\<rparr>)"

definition write_stdout :: "window \<Rightarrow> string \<Rightarrow> app_state \<Rightarrow> app_state option" where
  "write_stdout wd out s =
    (case ap_pipe s of
       None \<Rightarrow> Some (s\<lparr>ap_terminal := ap_terminal s @ out\<rparr>)
     | Some held \<Rightarrow> if wd_capacity wd < length (held @ out) then None else Some (s\<lparr>ap_pipe := Some (held @ out)\<rparr>))"

definition capture_stdout_drain :: "app_state \<Rightarrow> app_state" where
  "capture_stdout_drain s =
    (case ap_pipe s of
       None \<Rightarrow> s
     | Some held \<Rightarrow> (log_append_chars held s)\<lparr>ap_pipe := Some [], ap_terminal := ap_terminal s @ held\<rparr>)"

definition capture_stdout_restore :: "app_state \<Rightarrow> app_state" where
  "capture_stdout_restore s = s\<lparr>ap_pipe := None\<rparr>"

section \<open>The input line\<close>

definition history_push :: "string \<Rightarrow> app_state \<Rightarrow> app_state" where
  "history_push line s =
    (if line = [] then s
     else
       let slot = ap_history_count s mod HISTORY_LEN
       in s\<lparr>ap_history := (ap_history s)[slot := snprintf_s INPUT_BUF_LEN line], ap_history_count := ap_history_count s + 1,
            ap_history_idx := int (ap_history_count s + 1)\<rparr>)"

text \<open>The entry to recall: one further, but none that is overwritten, and at most the empty line behind the last.\<close>

definition recall_index :: "app_state \<Rightarrow> int \<Rightarrow> int" where
  "recall_index s delta =
    (let count = int (ap_history_count s);
         new_idx = ap_history_idx s + delta;
         oldest = (if int HISTORY_LEN < count then count - int HISTORY_LEN else 0);
         new_idx = (if new_idx < oldest then oldest else new_idx)
     in if count < new_idx then count else new_idx)"

definition history_recall :: "int \<Rightarrow> app_state \<Rightarrow> app_state" where
  "history_recall delta s =
    (if ap_history_count s = 0 then s
     else
       let new_idx = recall_index s delta;
           s = s\<lparr>ap_history_idx := new_idx\<rparr>
       in if new_idx = int (ap_history_count s) then s\<lparr>ap_input := []\<rparr>
          else s\<lparr>ap_input := snprintf_s INPUT_BUF_LEN (ap_history s ! (nat new_idx mod HISTORY_LEN))\<rparr>)"

definition cli_dispatch :: "window \<Rightarrow> app_state \<Rightarrow> app_state option" where
  "cli_dispatch wd s =
    (if ap_input s = [] then Some s
     else
       let s = history_push (ap_input s) s;
           s = log_append_line (snprintf_s (INPUT_BUF_LEN + 8) (''magi> '' @ ap_input s)) s
       in do {
         (keep_running, out, c) \<leftarrow> process (wd_outside wd) (snprintf_s INPUT_BUF_LEN (ap_input s)) (ap_cli s);
         s \<leftarrow> write_stdout wd out (s\<lparr>ap_cli := c\<rparr>);
         let s = (if keep_running then s else s\<lparr>ap_running := False\<rparr>);
             s = capture_stdout_drain s
         in Some (s\<lparr>ap_needs_layout := True, ap_input := [], ap_log_scroll := 0\<rparr>)
       })"

end
