(* ===== verification/Gui_Layout.thy ===== *)
theory Gui_Layout
  imports Gui_State
begin

text \<open>
  Where the nodes are (\<^verbatim>\<open>layout_nodes\<close>), which of them is under the pointer, and what the detail panel says
  about a node. The angles are real numbers.
\<close>

section \<open>Layout\<close>

abbreviation WINDOW_W :: int where "WINDOW_W \<equiv> 1280"
abbreviation WINDOW_H :: int where "WINDOW_H \<equiv> 720"
abbreviation PANEL_W :: int where "PANEL_W \<equiv> 320"
abbreviation NODE_W :: int where "NODE_W \<equiv> 120"
abbreviation NODE_H :: int where "NODE_H \<equiv> 48"
abbreviation NODE_RADIUS :: int where "NODE_RADIUS \<equiv> 8"
abbreviation LOG_H :: int where "LOG_H \<equiv> 200"
abbreviation INPUT_H :: int where "INPUT_H \<equiv> 30"
abbreviation TOPO_H :: int where "TOPO_H \<equiv> 490"
abbreviation TOPO_TOP_Y :: int where "TOPO_TOP_Y \<equiv> 84"

text \<open>The conversion of a \<^verbatim>\<open>double\<close> to \<^verbatim>\<open>int\<close>.\<close>

definition trunc_int :: "real \<Rightarrow> int" where
  "trunc_int x = (if 0 \<le> x then \<lfloor>x\<rfloor> else - \<lfloor>- x\<rfloor>)"

definition last_index :: "(nat \<Rightarrow> bool) \<Rightarrow> nat \<Rightarrow> nat option" where
  "last_index P n = List.find P (rev [0..<n])"

text \<open>The last entry with this node, whether there is a node or not.\<close>

definition node_entry_of :: "simulator \<Rightarrow> node_id option \<Rightarrow> nat option" where
  "node_entry_of sim node = last_index (\<lambda>j. en_node (si_nodes sim ! j) = node) (length (si_nodes sim))"

definition link_glink :: "simulator \<Rightarrow> link \<Rightarrow> glink list option" where
  "link_glink sim link =
    (case (ln_if1 link, ln_if2 link) of
       (Some r1, Some r2) \<Rightarrow> do {
         f1 \<leftarrow> get_iface r1 (si_world sim);
         f2 \<leftarrow> get_iface r2 (si_world sim);
         Some (case (node_entry_of sim (if_node f1), node_entry_of sim (if_node f2)) of
             (Some n1, Some n2) \<Rightarrow> [\<lparr>gl_n1 = n1, gl_n2 = n2, gl_delay = ln_delay link, gl_port1 = if_port f1, gl_port2 = if_port f2\<rparr>]
           | _ \<Rightarrow> [])
       }
     | _ \<Rightarrow> Some [])"

definition build_glinks :: "simulator \<Rightarrow> glink list option" where
  "build_glinks sim =
    map_option (\<lambda>gs. take SIMULATOR_MAX_LINKS (concat gs)) (traverse (link_glink sim) (take (si_link_count sim) (w_links (si_world sim))))"

definition degree :: "glink list \<Rightarrow> nat \<Rightarrow> nat" where
  "degree gs i = length (filter (\<lambda>g. gl_n1 g = i) gs) + length (filter (\<lambda>g. gl_n2 g = i) gs)"

definition center_node :: "glink list \<Rightarrow> nat \<Rightarrow> nat" where
  "center_node gs n = fst (foldl (\<lambda>(c, m) i. if m < degree gs i then (i, degree gs i) else (c, m)) (0, 0) [0..<n])"

definition layout_radius :: "nat \<Rightarrow> int" where
  "layout_radius n =
    (let radius = (if n \<le> 1 then 0 else trunc_int (min (of_int (WINDOW_W - PANEL_W)) (of_int TOPO_H) * (32 / 100)));
         radius = (if radius < 80 then 80 else radius)
     in if 280 < radius then 280 else radius)"

text \<open>The place of one node on the circle, moved into the area of the network.\<close>

definition circle_place :: "int \<Rightarrow> real \<Rightarrow> int \<times> int" where
  "circle_place radius a =
    (let nx = (WINDOW_W - PANEL_W) div 2 + trunc_int (of_int radius * cos a);
         ny = TOPO_H div 2 + 40 + trunc_int (of_int radius * sin a);
         nx = (if WINDOW_W - PANEL_W - 20 < nx + NODE_W div 2 then WINDOW_W - PANEL_W - 20 - NODE_W div 2 else nx);
         nx = (if nx - NODE_W div 2 < 10 then 10 + NODE_W div 2 else nx);
         ny = (if TOPO_H - 10 < ny + NODE_H div 2 then TOPO_H - 10 - NODE_H div 2 else ny);
         ny = (if ny - NODE_H div 2 < 50 then 50 + NODE_H div 2 else ny)
     in (nx, ny))"

fun place_nodes :: "nat \<Rightarrow> int \<Rightarrow> real \<Rightarrow> nat \<Rightarrow> nat \<Rightarrow> gnode list \<Rightarrow> gnode list" where
  "place_nodes center radius angle_step i placed [] = []"
| "place_nodes center radius angle_step i placed (g # gs) =
    (if i = center
     then g\<lparr>gn_x := (WINDOW_W - PANEL_W) div 2, gn_y := TOPO_H div 2 + 40\<rparr> # place_nodes center radius angle_step (i + 1) placed gs
     else
       let (nx, ny) = circle_place radius (- pi / 2 + angle_step * real placed)
       in g\<lparr>gn_x := nx, gn_y := ny\<rparr> # place_nodes center radius angle_step (i + 1) (placed + 1) gs)"

text \<open>A slot of the array that was not used before holds zeros.\<close>

definition zero_gnode :: gnode where
  "zero_gnode = \<lparr>gn_x = 0, gn_y = 0, gn_w = 0, gn_h = 0, gn_index = 0, gn_hovered = False\<rparr>"

definition layout_nodes :: "app_state \<Rightarrow> app_state option" where
  "layout_nodes s =
    (let sim = ap_sim s; n = length (si_nodes sim)
     in if n = 0 then Some s
        else do {
          glinks \<leftarrow> build_glinks sim;
          let old = (\<lambda>i. if i < length (ap_gnodes s) then ap_gnodes s ! i else zero_gnode);
              gnodes = map (\<lambda>i. (old i)\<lparr>gn_index := i, gn_w := NODE_W, gn_h := NODE_H\<rparr>) [0..<n];
              angle_step = (if 1 < n then 2 * pi / real (n - 1) else 0)
          in Some (s\<lparr>ap_gnodes := place_nodes (center_node glinks n) (layout_radius n) angle_step 0 1 gnodes,
                ap_glinks := glinks, ap_needs_layout := False\<rparr>)
        })"

section \<open>Hit tests\<close>

definition node_covers :: "int \<Rightarrow> int \<Rightarrow> gnode \<Rightarrow> bool" where
  "node_covers mx my n \<longleftrightarrow> gn_x n - gn_w n div 2 \<le> mx \<and> mx \<le> gn_x n + gn_w n div 2 \<and> gn_y n - gn_h n div 2 \<le> my \<and> my \<le> gn_y n + gn_h n div 2"

definition hit_test_node :: "app_state \<Rightarrow> int \<Rightarrow> int \<Rightarrow> int" where
  "hit_test_node s mx my =
    (case first_index (\<lambda>i. node_covers mx my (ap_gnodes s ! i)) (length (ap_gnodes s)) of Some i \<Rightarrow> int i | None \<Rightarrow> - 1)"

text \<open>The entry of the node an interface belongs to.\<close>

definition node_idx_for_interface :: "simulator \<Rightarrow> iface_ref \<Rightarrow> int option" where
  "node_idx_for_interface sim r = do {
    f \<leftarrow> get_iface r (si_world sim);
    Some (if if_node f = None then - 1
          else case first_index (\<lambda>i. en_node (si_nodes sim ! i) = if_node f) (length (si_nodes sim)) of Some i \<Rightarrow> int i | None \<Rightarrow> - 1)
  }"

section \<open>Details of a node\<close>

primrec node_color :: "simulator_node_type \<Rightarrow> u32" where
  "node_color SIM_NODE_HOST = 0x4CAF50FF"
| "node_color SIM_NODE_SWITCH = 0x2196F3FF"
| "node_color SIM_NODE_ROUTER = 0xFF9800FF"

primrec node_type_label :: "simulator_node_type \<Rightarrow> string" where
  "node_type_label SIM_NODE_HOST = ''Host''"
| "node_type_label SIM_NODE_SWITCH = ''Switch''"
| "node_type_label SIM_NODE_ROUTER = ''Router''"

definition dotted_quad :: "ip_address \<Rightarrow> string" where
  "dotted_quad ip = separated ''.'' (map (\<lambda>b. decimal (unat b)) (octet_bytes (octet ip)))"

definition port_line :: "nat \<Rightarrow> interface \<Rightarrow> string" where
  "port_line i f = println (''  Port '' @ decimal (i + 1) @ '': '' @ separated '':'' (map (hex_byte 65) (mac_bytes (if_mac f))) @
     (if if_link f \<noteq> None then '' [UP]'' else '' [DOWN]''))"

definition host_lines :: "host \<Rightarrow> string" where
  "host_lines h =
    (if h_has_ip h
     then println (''IP: '' @ dotted_quad (h_ip h) @ ''/'' @ decimal (unat (prefix (h_ip h)))) @ println (''GW: '' @ dotted_quad (h_gateway h))
     else []) @ println (''ARP cache: '' @ decimal (tab_size (h_arp h)) @ '' entries'')"

definition switch_lines :: "switch \<Rightarrow> string" where
  "switch_lines sw = println (''MAC table: '' @ decimal (tab_size (sw_macs sw)) @ '' entries'') @
    concat (map (\<lambda>i. println (''  Port '' @ decimal (i + 1) @ '': '' @
        (if pc_mode (sw_ports sw ! i) = SWITCH_PORT_TRUNK then ''trunk'' else ''access'') @
        '' (VLAN '' @ printf_lld (pc_vlan_id (sw_ports sw ! i)) @ '')''))
      (filter (\<lambda>i. port_is_special (sw_ports sw ! i)) [0..<nb_num (sw_base sw)]))"

definition router_lines :: "router \<Rightarrow> string" where
  "router_lines r = println (''Routes: '' @ decimal (length (r_routes r))) @
    println (''ARP table: '' @ decimal (tab_size (r_arp r)) @ '' entries'') @
    concat (map (\<lambda>rte. println (''  '' @ dotted_quad (rt_destination rte) @ ''/'' @ decimal (unat (prefix (rt_destination rte))) @ '' -> '' @
      dotted_quad (rt_next_hop rte) @ '' (if'' @ printf_lld (rt_out_interface rte) @ '')'')) (r_routes r))"

text \<open>The text is cut to the buffer; an entry whose node is gone or of another type is not covered.\<close>

definition get_node_detail :: "simulator \<Rightarrow> int \<Rightarrow> string option" where
  "get_node_detail sim node_idx =
    (if node_idx < 0 \<or> int (length (si_nodes sim)) \<le> node_idx then Some []
     else
       let entry = si_nodes sim ! nat node_idx; w = si_world sim
       in do {
         n \<leftarrow> en_node entry;
         nd \<leftarrow> w_nodes w n;
         lines \<leftarrow> (case en_type entry of
             SIM_NODE_HOST \<Rightarrow> map_option host_lines (get_host n w)
           | SIM_NODE_SWITCH \<Rightarrow> map_option switch_lines (get_switch n w)
           | SIM_NODE_ROUTER \<Rightarrow> map_option router_lines (get_router n w));
         let b = node_base_of nd in
         Some (take 8191 (println (''Name: '' @ en_name entry) @ println (''Type: '' @ node_type_label (en_type entry)) @
           println (''Interfaces: '' @ decimal (nb_num b)) @
           concat (map (\<lambda>i. port_line i (nb_ifs b ! i)) [0..<nb_num b]) @ lines))
       })"

section \<open>Every node is in the picture\<close>

definition in_topology :: "gnode \<Rightarrow> bool" where
  "in_topology g \<longleftrightarrow> gn_w g = NODE_W \<and> gn_h g = NODE_H \<and> 10 \<le> gn_x g - NODE_W div 2 \<and> gn_x g + NODE_W div 2 \<le> WINDOW_W - PANEL_W - 20 \<and>
     TOPO_TOP_Y + 21 \<le> gn_y g - NODE_H div 2 \<and> gn_y g + NODE_H div 2 \<le> TOPO_H - 10"

text \<open>The circle is at most 156 pixels wide around a middle that is 285 pixels from the top.\<close>

lemma layout_radius_bounds: "0 \<le> layout_radius n" "layout_radius n \<le> 156"
proof -
  have "\<lfloor>real_of_int TOPO_H * (32 / 100)\<rfloor> = 156" by (rule floor_unique) simp_all
  then have "trunc_int (min (of_int (WINDOW_W - PANEL_W)) (of_int TOPO_H) * (32 / 100)) = 156"
    by (simp add: trunc_int_def)
  then show "0 \<le> layout_radius n" "layout_radius n \<le> 156" by (simp_all add: layout_radius_def Let_def)
qed

lemma trunc_bounds:
  fixes x :: real
  assumes "- of_int r \<le> x" "0 \<le> r"
  shows "- r \<le> trunc_int x"
proof (cases "0 \<le> x")
  case True
  have "- r \<le> 0" using assms(2) by simp
  also have "0 \<le> \<lfloor>x\<rfloor>" using True by simp
  finally show ?thesis using True by (simp add: trunc_int_def)
next
  case False
  have "\<lfloor>- x\<rfloor> \<le> r" using assms(1) by (simp add: floor_le_iff)
  then show ?thesis using False by (simp add: trunc_int_def)
qed

lemma circle_place_inside:
  assumes "circle_place radius a = (nx, ny)" "0 \<le> radius" "radius \<le> 156"
  shows "10 \<le> nx - NODE_W div 2 \<and> nx + NODE_W div 2 \<le> WINDOW_W - PANEL_W - 20 \<and>
    TOPO_TOP_Y + 21 \<le> ny - NODE_H div 2 \<and> ny + NODE_H div 2 \<le> TOPO_H - 10"
proof -
  have "real_of_int radius * (- 1) \<le> real_of_int radius * sin a" by (rule mult_left_mono) (use assms(2) in simp_all)
  then have "- radius \<le> trunc_int (of_int radius * sin a)" by (intro trunc_bounds) (use assms(2) in simp_all)
  then have "- 156 \<le> trunc_int (of_int radius * sin a)" using assms(3) by simp
  then show ?thesis using assms(1) by (auto simp: circle_place_def Let_def)
qed

lemma place_nodes_inside:
  assumes "\<forall>g \<in> set gs. gn_w g = NODE_W \<and> gn_h g = NODE_H" "0 \<le> radius" "radius \<le> 156"
  shows "\<forall>g \<in> set (place_nodes center radius st i placed gs). in_topology g"
  using assms
proof (induction center radius st i placed gs rule: place_nodes.induct)
  case (2 center radius st i placed g gs)
  obtain nx ny where p: "circle_place radius (- pi / 2 + st * real placed) = (nx, ny)" by fastforce
  show ?case
  proof (cases "i = center")
    case True
    then show ?thesis using 2 by (simp add: in_topology_def)
  next
    case False
    then show ?thesis using 2(2) [OF False p [symmetric] refl] 2(3-5) circle_place_inside [OF p 2(4,5)] p by (simp add: in_topology_def)
  qed
qed simp

lemma length_place [simp]: "length (place_nodes center radius st i placed gs) = length gs"
  by (induction center radius st i placed gs rule: place_nodes.induct) (auto split: prod.splits)

lemma place_index: "map gn_index (place_nodes center radius st i placed gs) = map gn_index gs"
  by (induction center radius st i placed gs rule: place_nodes.induct) (auto split: prod.splits)

text \<open>C31. The layout puts every node of the simulator into the picture, whatever their number and their
  links: the boxes stay in the area of the network, at least 21 pixels below its top \<^verbatim>\<open>TOPO_TOP_Y\<close> (at 105 or lower, while the bar of the
  toolbar ends at 60 and the legend at 87), 10 above the log, 10 from the left edge and 20 from the panel on the right;
  the boxes are numbered as the simulator's nodes, and the middle of a box is hit by the
  pointer, at this node or at one before it that covers the same pixel.\<close>

theorem layout_in_window:
  assumes "layout_nodes s = Some s'" "si_nodes (ap_sim s) \<noteq> []"
  shows "length (ap_gnodes s') = length (si_nodes (ap_sim s)) \<and> list_all in_topology (ap_gnodes s') \<and>
    (\<forall>i < length (ap_gnodes s'). gn_index (ap_gnodes s' ! i) = i \<and>
      (\<exists>k \<le> i. hit_test_node s' (gn_x (ap_gnodes s' ! i)) (gn_y (ap_gnodes s' ! i)) = int k))"
proof -
  let ?n = "length (si_nodes (ap_sim s))"
  obtain center st gs where gs: "ap_gnodes s' = place_nodes center (layout_radius ?n) st 0 1 gs" "length gs = ?n" "map gn_index gs = [0..<?n]"
    "\<forall>g \<in> set gs. gn_w g = NODE_W \<and> gn_h g = NODE_H"
  proof -
    obtain glinks where "build_glinks (ap_sim s) = Some glinks" using assms by (auto simp: layout_nodes_def Let_def bind_eq_Some_conv)
    then show thesis using assms by (intro that [where gs = "map (\<lambda>i. (if i < length (ap_gnodes s) then ap_gnodes s ! i else zero_gnode)\<lparr>gn_index := i, gn_w := NODE_W, gn_h := NODE_H\<rparr>) [0..<?n]"])
        (auto simp: layout_nodes_def Let_def intro!: nth_equalityI)
  qed
  have inside: "\<forall>g \<in> set (ap_gnodes s'). in_topology g" using place_nodes_inside [OF gs(4) layout_radius_bounds] by (simp add: gs(1))
  have len: "length (ap_gnodes s') = ?n" by (simp add: gs(1,2))
  have index: "map gn_index (ap_gnodes s') = [0..<?n]" by (simp add: gs(1) place_index gs(3))
  have "\<exists>k \<le> i. hit_test_node s' (gn_x (ap_gnodes s' ! i)) (gn_y (ap_gnodes s' ! i)) = int k" if i: "i < ?n" for i
  proof -
    let ?g = "ap_gnodes s' ! i"
    let ?P = "\<lambda>k. node_covers (gn_x ?g) (gn_y ?g) (ap_gnodes s' ! k)"
    have "?P i" using inside i len by (auto simp: node_covers_def in_topology_def dest!: nth_mem)
    then obtain k where "first_index ?P (length (ap_gnodes s')) = Some k"
      using \<open>?P i\<close> i len by (cases "first_index ?P (length (ap_gnodes s'))") auto
    moreover from this have "k \<le> i" using \<open>?P i\<close> by (auto simp: first_index_Some not_less [symmetric])
    ultimately show ?thesis by (auto simp: hit_test_node_def)
  qed
  moreover have "gn_index (ap_gnodes s' ! i) = i" if "i < ?n" for i
    using index that len by (metis add_0 length_map nth_map nth_upt)
  ultimately show ?thesis using inside len by (simp add: list_all_iff)
qed

theorem layout_in_window_witness:
  "\<exists>s s'. layout_nodes s = Some s' \<and> map en_name (si_nodes (ap_sim s)) = [''H1'', ''H2''] \<and> list_all in_topology (ap_gnodes s') \<and>
    length (ap_gnodes s') = 2"
proof -
  let ?entry = "\<lambda>n i. \<lparr>en_name = n, en_type = SIM_NODE_HOST, en_node = Some i\<rparr>"
  let ?sim = "undefined\<lparr>si_nodes := [?entry ''H1'' 0, ?entry ''H2'' 1], si_link_count := 0\<rparr>"
  let ?s = "undefined\<lparr>ap_cli := undefined\<lparr>cl_sim := ?sim\<rparr>, ap_gnodes := []\<rparr>"
  obtain s' where s': "layout_nodes ?s = Some s'" by (simp add: layout_nodes_def build_glinks_def Let_def)
  have ne: "si_nodes (ap_sim ?s) \<noteq> []" by simp
  from layout_in_window [OF s' ne] s' show ?thesis by (intro exI [of _ ?s] exI [of _ s']) simp
qed

end
