(* ===== verification/Gui_Render.thy ===== *)
theory Gui_Render
  imports Gui_Layout
begin

text \<open>
  The picture of the window: \<^verbatim>\<open>render\<close> of \<^verbatim>\<open>gui/app.c\<close>, one definition for each part of it in the order of
  the code, and \<^verbatim>\<open>render_export\<close>. Drawing also writes the state: it places the buttons and the panels that the
  pointer is tested against, and keeps the scroll positions in range. An entry that the picture refers to and
  that is no longer there is \<open>None\<close>.
\<close>

section \<open>Colours and numbers\<close>

abbreviation COL_BG :: u32 where "COL_BG \<equiv> 0x1A1A2EFF"
abbreviation COL_PANEL :: u32 where "COL_PANEL \<equiv> 0x16213EF0"
abbreviation COL_HOST :: u32 where "COL_HOST \<equiv> 0x4CAF50FF"
abbreviation COL_SWITCH :: u32 where "COL_SWITCH \<equiv> 0x2196F3FF"
abbreviation COL_ROUTER :: u32 where "COL_ROUTER \<equiv> 0xFF9800FF"
abbreviation COL_LINK :: u32 where "COL_LINK \<equiv> 0xAAAAAA80"
abbreviation COL_LINK_HI :: u32 where "COL_LINK_HI \<equiv> 0x00FF88CC"
abbreviation COL_TEXT :: u32 where "COL_TEXT \<equiv> 0xFFFFFFFF"
abbreviation COL_TEXT_DIM :: u32 where "COL_TEXT_DIM \<equiv> 0x88AACCFF"
abbreviation COL_SEL :: u32 where "COL_SEL \<equiv> 0xFFD700FF"
abbreviation COL_HOVER :: u32 where "COL_HOVER \<equiv> 0xFFFF0080"
abbreviation COL_TITLE :: u32 where "COL_TITLE \<equiv> 0x00DDFFFFFF"
abbreviation COL_LEGEND :: u32 where "COL_LEGEND \<equiv> 0x334455CC"
abbreviation COL_PKT_ARP :: u32 where "COL_PKT_ARP \<equiv> 0x55AAFFFF"
abbreviation COL_PKT_ICMP :: u32 where "COL_PKT_ICMP \<equiv> 0xFF5555FF"
abbreviation COL_PKT_TCP :: u32 where "COL_PKT_TCP \<equiv> 0x66FF66FF"
abbreviation COL_PKT_UDP :: u32 where "COL_PKT_UDP \<equiv> 0xFFEE55FF"
abbreviation COL_PKT_OTHER :: u32 where "COL_PKT_OTHER \<equiv> 0xCCCCCCFF"
abbreviation COL_FLASH :: u32 where "COL_FLASH \<equiv> 0xFFFF66FF"
abbreviation COL_LOG_BG :: u32 where "COL_LOG_BG \<equiv> 0x0A0F1FF0"
abbreviation COL_LOG_TEXT :: u32 where "COL_LOG_TEXT \<equiv> 0xCCDDEEFF"
abbreviation COL_LOG_BORDER :: u32 where "COL_LOG_BORDER \<equiv> 0x335577FF"
abbreviation COL_INPUT_BG :: u32 where "COL_INPUT_BG \<equiv> 0x101830FF"
abbreviation COL_PROMPT :: u32 where "COL_PROMPT \<equiv> 0x66FFAAFF"
abbreviation COL_CARET :: u32 where "COL_CARET \<equiv> 0xFFFFFFFF"

text \<open>A colour with another opacity.\<close>

definition with_alpha :: "u32 \<Rightarrow> u8 \<Rightarrow> rgba" where
  "with_alpha c a = (case rgba_of c of (cr, cg, cb, _) \<Rightarrow> (cr, cg, cb, a))"

abbreviation FLASH_MS :: real where "FLASH_MS \<equiv> 350"
abbreviation PKT_RADIUS :: int where "PKT_RADIUS \<equiv> 6"
abbreviation LEGEND_X :: int where "LEGEND_X \<equiv> 10"
abbreviation TOOLBAR_Y :: int where "TOOLBAR_Y \<equiv> 24"
abbreviation TOOLBAR_H :: int where "TOOLBAR_H \<equiv> 32"
abbreviation EVENT_ROW_H :: int where "EVENT_ROW_H \<equiv> 28"

definition speed_to_ratio :: "real \<Rightarrow> real" where
  "speed_to_ratio sp =
    (if sp \<le> 0 then 0
     else
       let t = ln sp / ln 2;
           t = (if t < - 4 then - 4 else t);
           t = (if 4 < t then 4 else t)
       in (t - (- 4)) / (4 - (- 4)))"

definition ratio_to_speed :: "real \<Rightarrow> real" where
  "ratio_to_speed r =
    (let r = (if r < 0 then 0 else r);
         r = (if 1 < r then 1 else r);
         t = - 4 + r * (4 - (- 4))
     in 2 powr t)"

definition speed_presets :: "real list" where
  "speed_presets = [625 / 10000, 125 / 1000, 25 / 100, 5 / 10, 1, 2, 4, 8, 16]"

definition snap_speed :: "real \<Rightarrow> real" where
  "snap_speed sp = (case List.find (\<lambda>p. \<bar>p - sp\<bar> / p < 8 / 100) speed_presets of Some p \<Rightarrow> p | None \<Rightarrow> sp)"

primrec event_color :: "event_kind \<Rightarrow> u32" where
  "event_color EV_NONE = COL_TEXT_DIM"
| "event_color EV_ARP_TX = COL_PKT_ARP"
| "event_color EV_ARP_RX = COL_PKT_ARP"
| "event_color EV_ICMP_REQ = COL_PKT_ICMP"
| "event_color EV_ICMP_REPLY = COL_PKT_ICMP"
| "event_color EV_FORWARD_L2 = 0x88CCFFFF"
| "event_color EV_FLOOD = 0xFFCC66FF"
| "event_color EV_DROP = 0xFF6644FF"
| "event_color EV_ROUTE = COL_ROUTER"
| "event_color EV_TCP = COL_PKT_TCP"
| "event_color EV_DHCP = 0xCC99FFFF"
| "event_color EV_DNS = 0xFF99CCFF"
| "event_color EV_HTTP = 0x99FFCCFF"
| "event_color EV_GENERIC = COL_TEXT_DIM"

primrec event_short_label :: "event_kind \<Rightarrow> string" where
  "event_short_label EV_NONE = ''INFO''"
| "event_short_label EV_ARP_TX = ''ARP TX''"
| "event_short_label EV_ARP_RX = ''ARP RX''"
| "event_short_label EV_ICMP_REQ = ''ICMP>''"
| "event_short_label EV_ICMP_REPLY = ''ICMP<''"
| "event_short_label EV_FORWARD_L2 = ''L2 FWD''"
| "event_short_label EV_FLOOD = ''FLOOD''"
| "event_short_label EV_DROP = ''DROP''"
| "event_short_label EV_ROUTE = ''ROUTE''"
| "event_short_label EV_TCP = ''TCP''"
| "event_short_label EV_DHCP = ''DHCP''"
| "event_short_label EV_DNS = ''DNS''"
| "event_short_label EV_HTTP = ''HTTP''"
| "event_short_label EV_GENERIC = ''INFO''"

definition pkt_color_for :: "u16 \<Rightarrow> u8 \<Rightarrow> u32" where
  "pkt_color_for ethertype l4_protocol =
    (if ethertype = 0x0806 then COL_PKT_ARP
     else if ethertype = 0x0800 \<and> l4_protocol = 1 then COL_PKT_ICMP
     else if ethertype = 0x0800 \<and> l4_protocol = 6 then COL_PKT_TCP
     else if ethertype = 0x0800 \<and> l4_protocol = 17 then COL_PKT_UDP
     else COL_PKT_OTHER)"

definition pkt_label_for :: "u16 \<Rightarrow> u8 \<Rightarrow> string" where
  "pkt_label_for ethertype l4_protocol =
    (if ethertype = 0x0806 then ''ARP''
     else if ethertype = 0x0800 then
       (if l4_protocol = 1 then ''ICMP'' else if l4_protocol = 6 then ''TCP'' else if l4_protocol = 17 then ''UDP'' else ''IP'')
     else ''?'')"

definition render_button :: "widget \<Rightarrow> string \<Rightarrow> u32 \<Rightarrow> u32 \<Rightarrow> u32 \<Rightarrow> draw_call list" where
  "render_button w label base hover active =
    (let fill = (if wg_pressed w then active else if wg_hovered w then hover else base); b = wg_bounds w
     in fill_rounded_rect (rc_x b) (rc_y b) (rc_w b) (rc_h b) 4 fill @
        [SetDrawColor 0xFF 0xFF 0xFF 0x66, DrawRect b] @
        draw_string (rc_x b + trunc_int (of_int (rc_w b - string_width label) / 2)) (rc_y b + trunc_int (of_int (rc_h b - int FONT_H_PX) / 2))
          label (0xFF, 0xFF, 0xFF, 0xFF))"

text \<open>Text in the middle of a point.\<close>

definition centred :: "int \<Rightarrow> int \<Rightarrow> string \<Rightarrow> rgba \<Rightarrow> draw_call list" where
  "centred x y str c = draw_string (x - string_width str div 2) y str c"

section \<open>The network\<close>

text \<open>An entry of the simulator, when it is one.\<close>

definition entry_at :: "simulator \<Rightarrow> nat \<Rightarrow> simulator_node_entry option" where
  "entry_at sim i = (if i < length (si_nodes sim) then Some (si_nodes sim ! i) else None)"

definition gnode_at :: "app_state \<Rightarrow> nat \<Rightarrow> gnode option" where
  "gnode_at s i = (if i < length (ap_gnodes s) then Some (ap_gnodes s ! i) else None)"

definition render_link :: "app_state \<Rightarrow> (glink \<Rightarrow> bool) \<Rightarrow> glink \<Rightarrow> draw_call list option" where
  "render_link s hl gl = do {
    g1 \<leftarrow> gnode_at s (gl_n1 gl);
    g2 \<leftarrow> gnode_at s (gl_n2 gl);
    Some (draw_thick_line (gn_x g1) (gn_y g1) (gn_x g2) (gn_y g2) (if hl gl then COL_LINK_HI else COL_LINK) @
      draw_string ((gn_x g1 + gn_x g2) div 2 + 6) ((gn_y g1 + gn_y g2) div 2 - 6) (snprintf_s 16 (printf_f 0 (gl_delay gl) @ ''ms''))
        (0x44, 0xCC, 0x88, 0xCC))
  }"

definition is_flash :: "real \<Rightarrow> real \<Rightarrow> bool" where
  "is_flash now flash_at = (let age = now - flash_at in 0 < flash_at \<and> 0 \<le> age \<and> age \<le> FLASH_MS)"

definition render_node :: "app_state \<Rightarrow> draw_call list \<Rightarrow> gnode \<Rightarrow> draw_call list option" where
  "render_node s border gn = do {
    entry \<leftarrow> entry_at (ap_sim s) (gn_index gn);
    Some (border @
      fill_rounded_rect (gn_x gn - gn_w gn div 2) (gn_y gn - gn_h gn div 2) (gn_w gn) (gn_h gn) NODE_RADIUS (node_color (en_type entry)) @
      centred (gn_x gn) (gn_y gn - int FONT_H_PX div 2) (en_name entry) (0xFF, 0xFF, 0xFF, 0xFF) @
      centred (gn_x gn) (gn_y gn + int FONT_H_PX div 2 + 2) (node_type_label (en_type entry)) (0x00, 0x00, 0x00, 0xAA))
  }"

definition node_border :: "app_state \<Rightarrow> real \<Rightarrow> nat \<Rightarrow> gnode \<Rightarrow> draw_call list" where
  "node_border s now i gn =
    (let x = gn_x gn - gn_w gn div 2; y = gn_y gn - gn_h gn div 2
     in if ap_selected_idx s = int i then fill_rounded_rect (x - 3) (y - 3) (gn_w gn + 6) (gn_h gn + 6) (NODE_RADIUS + 2) COL_SEL
        else if is_flash now (ap_flash_at s ! i) then fill_rounded_rect (x - 4) (y - 4) (gn_w gn + 8) (gn_h gn + 8) (NODE_RADIUS + 3) COL_FLASH
        else if ap_hover_idx s = int i then fill_rounded_rect (x - 2) (y - 2) (gn_w gn + 4) (gn_h gn + 4) (NODE_RADIUS + 1) COL_HOVER
        else [])"

definition packet_place :: "real \<Rightarrow> in_flight \<Rightarrow> gnode \<Rightarrow> gnode \<Rightarrow> int \<times> int" where
  "packet_place now p g1 g2 =
    (let span = fl_deliver p - fl_launch p;
         t = (if 0 < span then (now - fl_launch p) / span else 1);
         t = (if t < 0 then 0 else t);
         t = (if 1 < t then 1 else t)
     in (gn_x g1 + trunc_int (of_int (gn_x g2 - gn_x g1) * t), gn_y g1 + trunc_int (of_int (gn_y g2 - gn_y g1) * t)))"

definition render_packet :: "app_state \<Rightarrow> real \<Rightarrow> in_flight \<Rightarrow> draw_call list option" where
  "render_packet s now p = do {
    sn \<leftarrow> node_idx_for_interface (ap_sim s) (fl_sender p);
    rn \<leftarrow> node_idx_for_interface (ap_sim s) (fl_receiver p);
    if sn < 0 \<or> rn < 0 then Some []
    else do {
      g1 \<leftarrow> gnode_at s (nat sn);
      g2 \<leftarrow> gnode_at s (nat rn);
      let (px, py) = packet_place now p g1 g2;
          pc = pkt_color_for (fl_ethertype p) (fl_l4_protocol p)
      in Some (fill_circle px py (PKT_RADIUS + 2) 0x000000AA @ fill_circle px py PKT_RADIUS pc @
        centred px (py - PKT_RADIUS - int FONT_H_PX - 2) (pkt_label_for (fl_ethertype p) (fl_l4_protocol p)) (with_alpha pc 0xFF))
    }
  }"

text \<open>The links, the nodes and the packets on their way.\<close>

definition render_network :: "app_state \<Rightarrow> (draw_call list \<times> app_state) option" where
  "render_network s = do {
    links \<leftarrow> traverse (render_link s (\<lambda>gl. 0 \<le> ap_selected_idx s \<and> (int (gl_n1 gl) = ap_selected_idx s \<or> int (gl_n2 gl) = ap_selected_idx s)))
      (ap_glinks s);
    let (now, s) = gui_now s;
        clock = w_clock (ap_world s)
    in do {
      nodes \<leftarrow> traverse (\<lambda>i. render_node s (node_border s now i (ap_gnodes s ! i)) (ap_gnodes s ! i)) [0..<length (ap_gnodes s)];
      packets \<leftarrow> traverse (render_packet s now) (filter fl_active (ck_in_flight clock));
      Some (concat links @ concat nodes @ concat packets, s)
    }
  }"

section \<open>Toolbar and legend\<close>

text \<open>\<^verbatim>\<open>%.3g\<close> of a number between a hundredth and one.\<close>

definition printf_3g :: "real \<Rightarrow> string" where
  "printf_3g x =
    (let digits = printf_f (if 1 / 10 \<le> x then 3 else 4) x;
         digits = rev (dropWhile (\<lambda>c. c = CHR ''0'') (rev digits))
     in if last digits = CHR ''.'' then butlast digits else digits)"

abbreviation SLIDER_X :: int where "SLIDER_X \<equiv> 338"
abbreviation SLIDER_W :: int where "SLIDER_W \<equiv> 200"
abbreviation SLIDER_Y :: int where "SLIDER_Y \<equiv> 38"

definition place_widgets :: "app_state \<Rightarrow> app_state" where
  "place_widgets s =
    (let tx = LEGEND_X; ty = TOOLBAR_Y; th = TOOLBAR_H;
         s = s\<lparr>ap_play := (ap_play s)\<lparr>wg_bounds := sdl_rect tx ty 96 th\<rparr>\<rparr>;
         tx = tx + 104;
         s = s\<lparr>ap_step := (ap_step s)\<lparr>wg_bounds := sdl_rect tx ty 76 th\<rparr>\<rparr>;
         tx = tx + 84;
         s = s\<lparr>ap_reset := (ap_reset s)\<lparr>wg_bounds := sdl_rect tx ty 72 th\<rparr>\<rparr>;
         tx = tx + 80
     in s\<lparr>ap_slider := (ap_slider s)\<lparr>wg_bounds := sdl_rect (tx + 60 - 8) (ty + 6) (SLIDER_W + 16) (th - 12)\<rparr>\<rparr>)"

definition render_slider :: "app_state \<Rightarrow> real \<Rightarrow> draw_call list" where
  "render_slider s sp =
    (let ty = TOOLBAR_Y; th = TOOLBAR_H;
         track = sdl_rect SLIDER_X SLIDER_Y SLIDER_W 4;
         hx = SLIDER_X + trunc_int (speed_to_ratio sp * of_int SLIDER_W);
         handle = sdl_rect (hx - 5) (ty + 4) 10 (th - 8);
         hcol = (if ap_dragging s then 0xFFDD66FF else if ap_hover_widget s = WIDGET_SLIDER_SPEED then 0xCCAA44FF else 0x99AA55FF)
     in draw_string 278 (ty + (th - int FONT_H_PX) div 2) ''Speed:'' (0xCC, 0xDD, 0xEE, 0xFF) @
        set_col 0x223355FF @ [FillRect track] @ set_col 0x556699FF @ [DrawRect track] @
        concat (map (\<lambda>mark. let mx = SLIDER_X + trunc_int ((mark - (- 4)) / (4 - (- 4)) * of_int SLIDER_W)
          in set_col 0x6688AAFF @ [DrawLine mx (SLIDER_Y - 4) mx (SLIDER_Y + 4 + 4)]) [- 2, 0, 2 :: real]) @
        fill_rounded_rect (rc_x handle) (rc_y handle) (rc_w handle) (rc_h handle) 2 hcol @
        set_col 0xFFFFFFAA @ [DrawRect handle] @
        draw_string (SLIDER_X + SLIDER_W + 12) (ty + (th - int FONT_H_PX) div 2)
          (snprintf_s 24 ((if 1 \<le> sp then printf_f 0 sp else printf_3g sp) @ ''x'')) (0xFF, 0xEE, 0x99, 0xFF))"

definition render_badge :: "bool \<Rightarrow> draw_call list" where
  "render_badge ps =
    (let badge = (if ps then ''[ PAUSED ]'' else ''[ LIVE ]'');
         bw = string_width badge;
         bx = WINDOW_W - PANEL_W - bw - 12;
         yy = TOOLBAR_Y + (TOOLBAR_H - int FONT_H_PX) div 2;
         bbg = sdl_rect (bx - 6) (yy - 3) (bw + 12) (int FONT_H_PX + 6)
     in set_col (if ps then 0x553322F0 else 0x114433E0) @ [FillRect bbg] @
        set_col (if ps then 0xFFAA66FF else 0x66FFAAFF) @ [DrawRect bbg] @
        draw_string bx yy badge (if ps then 0xFF else 0x66, if ps then 0xAA else 0xFF, if ps then 0x66 else 0xAA, 0xFF))"

definition render_toolbar :: "app_state \<Rightarrow> draw_call list \<times> app_state" where
  "render_toolbar s =
    (let clock = w_clock (ap_world s);
         ps = sim_clock_is_paused clock;
         sp = sim_clock_get_speed clock;
         s = place_widgets s
     in (set_col 0x101A2EFF @ [FillRect (sdl_rect 0 (TOOLBAR_Y - 4) (WINDOW_W - PANEL_W) (TOOLBAR_H + 8))] @
         set_col 0x223355FF @ [DrawLine 0 (TOOLBAR_Y + TOOLBAR_H + 4) (WINDOW_W - PANEL_W) (TOOLBAR_Y + TOOLBAR_H + 4)] @
         render_button (ap_play s) (if ps then ''PLAY >'' else ''PAUSE ||'') (if ps then 0x115533FF else 0x553311FF)
           (if ps then 0x227755FF else 0x885533FF) (if ps then 0x33AA77FF else 0xAA6644FF) @
         render_button (ap_step s) ''STEP >|'' 0x223355FF 0x335577FF 0x4477AAFF @
         render_button (ap_reset s) ''RESET'' 0x332244FF 0x553366FF 0x774488FF @
         render_slider s sp @ render_badge ps, s))"

definition legend_box :: "int \<Rightarrow> int \<Rightarrow> u32 \<Rightarrow> string \<Rightarrow> rgba \<Rightarrow> draw_call list" where
  "legend_box x ly col label c = fill_rounded_rect x (ly + 3) 10 10 2 col @ draw_string (x + 14) (ly + 3) label c"

definition legend_dot :: "int \<Rightarrow> int \<Rightarrow> u32 \<Rightarrow> string \<Rightarrow> rgba \<Rightarrow> draw_call list" where
  "legend_dot x ly col label c = fill_circle (x + 5) (ly + 8) 5 col @ draw_string (x + 14) (ly + 3) label c"

definition node_legend :: "int \<Rightarrow> int \<Rightarrow> draw_call list" where
  "node_legend x ly =
    legend_box x ly COL_HOST ''Host'' (0xCC, 0xFF, 0xCC, 0xFF) @
    legend_box (x + 60) ly COL_SWITCH ''Switch'' (0xCC, 0xDD, 0xFF, 0xFF) @
    legend_box (x + 130) ly COL_ROUTER ''Router'' (0xFF, 0xDD, 0xAA, 0xFF)"

definition render_legend :: "draw_call list" where
  "render_legend =
    (let lx = LEGEND_X; ly = TOOLBAR_Y + TOOLBAR_H + 10
     in set_col COL_LEGEND @ [FillRect (sdl_rect (lx - 4) (ly - 3) 540 (18 + 6))] @
        node_legend lx ly @
        draw_string (lx + 210) (ly + 3) ''|'' (0x66, 0x88, 0xAA, 0xFF) @
        legend_dot (lx + 226) ly COL_PKT_ARP ''ARP'' (0xCC, 0xDD, 0xFF, 0xFF) @
        legend_dot (lx + 282) ly COL_PKT_ICMP ''ICMP'' (0xFF, 0xCC, 0xCC, 0xFF) @
        legend_dot (lx + 346) ly COL_PKT_TCP ''TCP'' (0xCC, 0xFF, 0xCC, 0xFF) @
        legend_dot (lx + 402) ly COL_PKT_UDP ''UDP'' (0xFF, 0xFF, 0xCC, 0xFF))"

section \<open>The panel on the right\<close>

abbreviation PANEL_X :: int where "PANEL_X \<equiv> 960"
abbreviation DETAIL_Y :: int where "DETAIL_Y \<equiv> 8"
abbreviation DETAIL_H :: int where "DETAIL_H \<equiv> 264"

text \<open>A scroll position between nothing and the lines that do not fit.\<close>

definition clamp_scroll :: "int \<Rightarrow> int \<Rightarrow> int \<Rightarrow> int" where
  "clamp_scroll all_rows rows_visible pos =
    (let max_scroll = all_rows - rows_visible;
         max_scroll = (if max_scroll < 0 then 0 else max_scroll);
         pos = (if max_scroll < pos then max_scroll else pos)
     in if pos < 0 then 0 else pos)"

definition scroll_bar :: "rect \<Rightarrow> int \<Rightarrow> int \<Rightarrow> int \<Rightarrow> int \<Rightarrow> u32 \<Rightarrow> draw_call list" where
  "scroll_bar bar rows_visible pos all_rows min_h col =
    (let frac_vis = of_int rows_visible / of_int all_rows :: real;
         frac_off = of_int pos / of_int all_rows :: real;
         handle_y = rc_y bar + trunc_int (frac_off * of_int (rc_h bar));
         handle_h = trunc_int (frac_vis * of_int (rc_h bar));
         handle_h = (if handle_h < min_h then min_h else handle_h)
     in set_col 0x223344FF @ [FillRect bar] @ set_col col @ [FillRect (sdl_rect (rc_x bar) handle_y (rc_w bar) handle_h)])"

definition title_rule :: "draw_call list" where
  "title_rule = set_col 0x446688FF @ [DrawLine (PANEL_X + 8) (DETAIL_Y + int FONT_H_PX + 4) (PANEL_X + PANEL_W - 8) (DETAIL_Y + int FONT_H_PX + 4)]"

definition render_detail :: "app_state \<Rightarrow> (draw_call list \<times> app_state) option" where
  "render_detail s =
    (if 0 \<le> ap_selected_idx s then do {
       entry \<leftarrow> entry_at (ap_sim s) (nat (ap_selected_idx s));
       detail \<leftarrow> get_node_detail (ap_sim s) (ap_selected_idx s);
       let content_y0 = DETAIL_Y + int FONT_H_PX + 12;
           content_h = DETAIL_H - (int FONT_H_PX + 12);
           total_lines = count_wrapped_lines detail (PANEL_W - 20);
           rows_visible = content_h div LINE_H;
           s = s\<lparr>ap_detail_scroll := clamp_scroll total_lines rows_visible (ap_detail_scroll s)\<rparr>;
           content_rect = sdl_rect (PANEL_X + 6) content_y0 (PANEL_W - 12) content_h;
           s = s\<lparr>ap_detail_rect := content_rect\<rparr>
       in Some (draw_string (PANEL_X + 8) DETAIL_Y (snprintf_s 64 ('' '' @ en_name entry @ '' ['' @ node_type_label (en_type entry) @ '']''))
           (rgba_of COL_TITLE) @ title_rule @
         [SetClipRect (Some content_rect)] @
         snd (draw_string_wrapped (PANEL_X + 8) (content_y0 - ap_detail_scroll s * LINE_H) detail (PANEL_W - 20) (0xCC, 0xDD, 0xEE, 0xFF)) @
         [SetClipRect None] @
         (if rows_visible < total_lines
          then scroll_bar (sdl_rect (PANEL_X + PANEL_W - 6) content_y0 3 (rows_visible * LINE_H)) rows_visible (ap_detail_scroll s) total_lines 12 0x778899FF
          else []), s)
     }
     else Some (draw_string (PANEL_X + 8) DETAIL_Y '' NODE DETAIL'' (rgba_of COL_TITLE) @ title_rule @
       draw_string (PANEL_X + 12) (DETAIL_Y + int FONT_H_PX + 14) ''Click a node to inspect.'' (with_alpha COL_TEXT_DIM 0xFF) @
       draw_string (PANEL_X + 12) (DETAIL_Y + int FONT_H_PX + 36)
         (snprintf_s 64 (''Nodes: '' @ decimal (length (si_nodes (ap_sim s))) @ ''   Links: '' @ decimal (si_link_count (ap_sim s))))
         (0xBB, 0xDD, 0xEE, 0xFF), s\<lparr>ap_detail_rect := sdl_rect 0 0 0 0\<rparr>))"

abbreviation EVENT_LIST_X :: int where "EVENT_LIST_X \<equiv> 968"
abbreviation EVENT_LIST_Y :: int where "EVENT_LIST_Y \<equiv> 298"
abbreviation EVENT_LIST_W :: int where "EVENT_LIST_W \<equiv> 298"
abbreviation EVENT_ROWS :: int where "EVENT_ROWS \<equiv> 14"

text \<open>The slot of the event that is \<open>back\<close> events behind the last.\<close>

definition event_slot :: "app_state \<Rightarrow> int \<Rightarrow> nat" where
  "event_slot s back = nat ((int (ap_events_head s) - 1 - back + int EVENT_RING_CAP * 2) mod int EVENT_RING_CAP)"

definition event_time_text :: "real \<Rightarrow> string" where
  "event_time_text t = snprintf_s 16 (if 1000 \<le> t then printf_f 2 (t / 1000) @ ''s'' else printf_f 0 t @ ''ms'')"

definition render_event :: "app_state \<Rightarrow> int \<Rightarrow> draw_call list" where
  "render_event s row =
    (let back = ap_events_scroll s + row;
         e = ap_events s ! event_slot s back;
         abs_id = int (ap_first_event_id s) + int (ap_events_count s) - 1 - back;
         rx = EVENT_LIST_X; ry = EVENT_LIST_Y + row * EVENT_ROW_H;
         rc = (if abs_id = ap_selected_event s then 0x336699FF else if row = ap_events_hover_row s then 0x223355FF else 0x14182CFF);
         ecol = event_color (ev_kind e);
         max_chars = (EVENT_LIST_W - 16) div CHAR_W;
         trim = snprintf_s EVENT_SUMMARY_LEN (ev_summary e);
         trim = (if max_chars - 1 < int (length trim) \<and> 4 \<le> max_chars then take (nat (max_chars - 1)) trim else trim)
     in fill_rounded_rect rx ry EVENT_LIST_W (EVENT_ROW_H - 2) 3 rc @
        fill_circle (rx + 8) (ry + 7) 3 ecol @
        draw_string (rx + 16) (ry + 2) (event_time_text (ev_time e)) (0xCC, 0xDD, 0xEE, 0xFF) @
        draw_string (rx + 70) (ry + 2) (event_short_label (ev_kind e)) (with_alpha ecol 0xFF) @
        (if 0 \<le> ev_node_idx e \<and> nat (ev_node_idx e) < length (si_nodes (ap_sim s))
         then draw_string (rx + 130) (ry + 2) (en_name (si_nodes (ap_sim s) ! nat (ev_node_idx e))) (0xFF, 0xEE, 0x99, 0xFF)
         else []) @
        draw_string (rx + 8) (ry + 14) trim (0xAA, 0xBB, 0xCC, 0xFF))"

definition render_events :: "app_state \<Rightarrow> draw_call list \<times> app_state" where
  "render_events s =
    (let bg = sdl_rect (PANEL_X + 4) (DETAIL_Y + DETAIL_H + 4) (PANEL_W - 8) (WINDOW_H - (DETAIL_Y + DETAIL_H + 4) - 4);
         count = int (ap_events_count s);
         header = snprintf_s 80 ('' EVENTS  ('' @ decimal (ap_events_count s) @ '' shown / '' @
           decimal (ap_events_count s + ap_first_event_id s) @ '' total)'');
         s = s\<lparr>ap_events_scroll := clamp_scroll count EVENT_ROWS (ap_events_scroll s),
               ap_events_rect := sdl_rect EVENT_LIST_X EVENT_LIST_Y EVENT_LIST_W (EVENT_ROWS * EVENT_ROW_H)\<rparr>;
         n = min EVENT_ROWS (count - ap_events_scroll s)
     in (set_col 0x0A1024FF @ [FillRect bg] @ set_col 0x446688FF @ [DrawRect bg] @
         draw_string (rc_x bg + 6) (rc_y bg + 4) header (with_alpha COL_TITLE 0xFF) @
         set_col 0x446688FF @ [DrawLine (rc_x bg + 4) (rc_y bg + 18) (rc_x bg + rc_w bg - 4) (rc_y bg + 18)] @
         concat (map (render_event s) [0..n - 1]) @
         (if EVENT_ROWS < count
          then scroll_bar (sdl_rect (rc_x bg + rc_w bg - 8) EVENT_LIST_Y 4 (EVENT_ROWS * EVENT_ROW_H)) EVENT_ROWS (ap_events_scroll s) count 16 0x667788FF
          else []), s))"

section \<open>Log and input line\<close>

abbreviation LOG_VISIBLE :: int where "LOG_VISIBLE \<equiv> 12"
abbreviation LOG_CHARS :: nat where "LOG_CHARS \<equiv> 104"

definition log_slot :: "app_state \<Rightarrow> nat \<Rightarrow> nat" where
  "log_slot s k = (if ap_log_count s < LOG_LINES then k else (ap_log_head s + k) mod LOG_LINES)"

definition log_first :: "app_state \<Rightarrow> int" where
  "log_first s =
    (let all_rows = int (ap_log_count s);
         start = ap_log_scroll s;
         max_scroll = (if LOG_VISIBLE < all_rows then all_rows - LOG_VISIBLE else 0);
         start = (if max_scroll < start then max_scroll else start);
         start = (if start < 0 then 0 else start);
         first = all_rows - LOG_VISIBLE - start
     in if first < 0 then 0 else first)"

text \<open>The lines the log panel shows, from the top.\<close>

definition log_shown :: "app_state \<Rightarrow> string list" where
  "log_shown s = map (\<lambda>i. ap_log_lines s ! log_slot s (nat (log_first s + i)))
    [0..min LOG_VISIBLE (int (ap_log_count s) - log_first s) - 1]"

definition render_log :: "app_state \<Rightarrow> draw_call list" where
  "render_log s =
    (let y = TOPO_H; w = WINDOW_W - PANEL_W;
         header = snprintf_s 96 ('' Console ('' @ decimal (ap_log_count s) @ '' lines, scroll='' @ printf_lld (ap_log_scroll s) @
           '') [PgUp/PgDn] [Up/Down history]'');
         lines = log_shown s;
         end_y = y + 22 + int (length lines) * LINE_H
     in set_col COL_LOG_BG @ [FillRect (sdl_rect 0 y w LOG_H)] @
        set_col COL_LOG_BORDER @ [DrawLine 0 y w y, DrawLine (w - 1) y (w - 1) (y + LOG_H)] @
        draw_string 6 (y + 4) header (with_alpha COL_TEXT_DIM 0xFF) @
        concat (map (\<lambda>i. draw_string 8 (y + 22 + int i * LINE_H) (take LOG_CHARS (lines ! i)) (with_alpha COL_LOG_TEXT 0xFF)) [0..<length lines]) @
        (if ap_log_partial s \<noteq> [] \<and> ap_log_scroll s = 0 \<and> end_y + LINE_H \<le> y + LOG_H
         then draw_string 8 end_y (take LOG_CHARS (c_string (ap_log_partial s))) (0xAA, 0xCC, 0xAA, 0xFF)
         else []))"

abbreviation INPUT_CHARS :: nat where "INPUT_CHARS \<equiv> 98"

definition render_input :: "nat \<Rightarrow> app_state \<Rightarrow> draw_call list" where
  "render_input ticks s =
    (let iy = TOPO_H + LOG_H; w = WINDOW_W - PANEL_W;
         text_y = iy + (INPUT_H - int FONT_H_PX) div 2;
         after_prompt = 8 + 6 * CHAR_W;
         shown_text = ap_input s;
         shown_text = drop (length shown_text - INPUT_CHARS) shown_text;
         caret_x = after_prompt + string_width shown_text
     in set_col COL_INPUT_BG @ [FillRect (sdl_rect 0 iy w INPUT_H)] @
        set_col COL_LOG_BORDER @ [DrawLine 0 iy w iy] @
        draw_string 8 text_y ''magi>'' (with_alpha COL_PROMPT 0xFF) @
        draw_string after_prompt text_y shown_text (with_alpha COL_TEXT 0xFF) @
        (if even (ticks div 500)
         then set_col COL_CARET @ concat (map (\<lambda>yy. [DrawPoint caret_x (text_y + yy), DrawPoint (caret_x + 1) (text_y + yy)]) [0..int FONT_H_PX - 1])
         else []))"

section \<open>The picture\<close>

definition render_title :: "draw_call list" where
  "render_title = set_col COL_BG @ [RenderClear] @ draw_string 12 6 ''MAGI SYSTEM - GUI'' (rgba_of COL_TITLE)"

definition render :: "nat \<Rightarrow> app_state \<Rightarrow> (draw_call list \<times> app_state) option" where
  "render ticks s =
    (if si_nodes (ap_sim s) = []
     then Some (render_title @
       draw_string ((WINDOW_W - PANEL_W) div 2 - 140) (WINDOW_H div 2) ''No topology loaded. Use 'load <file>' in CLI first.'' (0xFF, 0x66, 0x66, 0xFF) @
       [RenderPresent], s)
     else do {
       s \<leftarrow> (if ap_needs_layout s then layout_nodes s else Some s);
       (network, s) \<leftarrow> render_network s;
       let (toolbar, s) = render_toolbar s in do {
         (detail, s) \<leftarrow> render_detail s;
         let (events, s) = render_events s in
         Some (render_title @ network @ toolbar @ render_legend @
           set_col COL_PANEL @ [FillRect (sdl_rect PANEL_X 0 PANEL_W WINDOW_H)] @
           set_col 0x335577FF @ [DrawLine PANEL_X 0 PANEL_X WINDOW_H] @
           detail @ events @ render_log s @ render_input ticks s @ [RenderPresent], s)
       }
     })"

text \<open>The picture that is exported: no selection, no packets, no panels.\<close>

definition render_export :: "app_state \<Rightarrow> (draw_call list \<times> app_state) option" where
  "render_export s =
    (if si_nodes (ap_sim s) = []
     then Some (render_title @ draw_string (WINDOW_W div 2 - 140) (WINDOW_H div 2) ''No topology loaded.'' (0xFF, 0x66, 0x66, 0xFF), s)
     else do {
       s \<leftarrow> (if ap_needs_layout s then layout_nodes s else Some s);
       links \<leftarrow> traverse (render_link s (\<lambda>_. False)) (ap_glinks s);
       nodes \<leftarrow> traverse (render_node s []) (ap_gnodes s);
       let info = snprintf_s 64 (''Nodes: '' @ decimal (length (si_nodes (ap_sim s))) @ ''  Links: '' @ decimal (si_link_count (ap_sim s)))
       in Some (render_title @ concat links @ concat nodes @ node_legend LEGEND_X (WINDOW_H - 30) @
         draw_string (WINDOW_W - string_width info - 12) 6 info (0xCC, 0xDD, 0xEE, 0xFF), s)
     })"

end
