(* ===== verification/Gui_Events.thy ===== *)
theory Gui_Events
  imports Gui_Render
begin

text \<open>
  What the window does with an event of SDL (\<^verbatim>\<open>handle_events\<close>). The position of the pointer that the wheel
  asks SDL for is part of the event.
\<close>

section \<open>Under the pointer\<close>

definition widget_at :: "app_state \<Rightarrow> int \<Rightarrow> int \<Rightarrow> widget_id" where
  "widget_at s mx my =
    (if point_in_rect mx my (wg_bounds (ap_play s)) then WIDGET_BTN_PLAYPAUSE
     else if point_in_rect mx my (wg_bounds (ap_step s)) then WIDGET_BTN_STEP
     else if point_in_rect mx my (wg_bounds (ap_reset s)) then WIDGET_BTN_RESET
     else if point_in_rect mx my (wg_bounds (ap_slider s)) then WIDGET_SLIDER_SPEED
     else WIDGET_NONE)"

definition apply_slider_at_x :: "int \<Rightarrow> app_state \<Rightarrow> app_state" where
  "apply_slider_at_x mx s =
    (let x0 = rc_x (wg_bounds (ap_slider s)) + 8;
         w = rc_w (wg_bounds (ap_slider s)) - 16
     in if w \<le> 0 then s
        else
          let r = of_int (mx - x0) / of_int w :: real;
              r = (if r < 0 then 0 else r);
              r = (if 1 < r then 1 else r)
          in on_clock (sim_clock_set_speed (snap_speed (ratio_to_speed r))) s)"

definition events_row_at :: "app_state \<Rightarrow> int \<Rightarrow> int \<Rightarrow> int" where
  "events_row_at s mx my =
    (if \<not> point_in_rect mx my (ap_events_rect s) then - 1
     else
       let row = (my - rc_y (ap_events_rect s)) div EVENT_ROW_H
       in if row < 0 then - 1 else if int (ap_events_count s) \<le> ap_events_scroll s + row then - 1 else row)"

definition pause :: "app_state \<Rightarrow> app_state" where
  "pause s = (if \<not> sim_clock_is_paused (w_clock (ap_world s)) then on_clock (sim_clock_set_paused True) s else s)"

definition toggle_paused :: "app_state \<Rightarrow> app_state" where
  "toggle_paused s = on_clock (sim_clock_set_paused (\<not> sim_clock_is_paused (w_clock (ap_world s)))) s"

definition single_step :: "app_state \<Rightarrow> app_state" where
  "single_step s = on_clock (sim_clock_step 50) (pause s)"

definition events_activate_row :: "int \<Rightarrow> app_state \<Rightarrow> app_state" where
  "events_activate_row row s =
    (let back = ap_events_scroll s + row
     in if back < 0 \<or> int (ap_events_count s) \<le> back then s
        else
          let ev = ap_events s ! event_slot s back;
              s = s\<lparr>ap_selected_event := int (ap_first_event_id s) + int (ap_events_count s) - 1 - back\<rparr>;
              s = (if 0 \<le> ev_node_idx ev \<and> nat (ev_node_idx ev) < length (si_nodes (ap_sim s))
                   then let (now, s) = gui_now s
                     in s\<lparr>ap_flash_at := (ap_flash_at s)[nat (ev_node_idx ev) := now + FLASH_MS], ap_selected_idx := ev_node_idx ev\<rparr>
                   else s)
          in pause s)"

section \<open>Events\<close>

datatype key = SDLK_ESCAPE | SDLK_RETURN | SDLK_KP_ENTER | SDLK_BACKSPACE | SDLK_u | SDLK_l | SDLK_UP | SDLK_DOWN
  | SDLK_PAGEUP | SDLK_PAGEDOWN | SDLK_F5 | SDLK_SPACE | SDLK_s | SDLK_LEFTBRACKET | SDLK_RIGHTBRACKET | SDLK_0 | SDLK_other

text \<open>A key comes with whether \<^verbatim>\<open>Ctrl\<close> is held, a button with whether it is the left one.\<close>

datatype sdl_event =
    SDL_QUIT
  | SDL_TEXTINPUT string
  | SDL_KEYDOWN key bool
  | SDL_MOUSEMOTION int int
  | SDL_MOUSEBUTTONDOWN bool int int
  | SDL_MOUSEBUTTONUP
  | SDL_MOUSEWHEEL int int int
  | SDL_OTHER

definition text_input :: "string \<Rightarrow> app_state \<Rightarrow> app_state" where
  "text_input txt s =
    (if length (ap_input s) + length txt < INPUT_BUF_LEN - 1 then s\<lparr>ap_input := ap_input s @ txt\<rparr> else s)"

definition key_down :: "window \<Rightarrow> key \<Rightarrow> bool \<Rightarrow> app_state \<Rightarrow> app_state option" where
  "key_down wd k ctrl s =
    (if k = SDLK_ESCAPE then Some (s\<lparr>ap_running := False\<rparr>)
     else if k = SDLK_RETURN \<or> k = SDLK_KP_ENTER then cli_dispatch wd s
     else Some (
       if k = SDLK_BACKSPACE then s\<lparr>ap_input := butlast (ap_input s)\<rparr>
       else if ctrl \<and> k = SDLK_u then s\<lparr>ap_input := []\<rparr>
       else if ctrl \<and> k = SDLK_l then s\<lparr>ap_log_count := 0, ap_log_head := 0, ap_log_partial := [], ap_log_scroll := 0\<rparr>
       else if k = SDLK_UP then history_recall (- 1) s
       else if k = SDLK_DOWN then history_recall 1 s
       else if k = SDLK_PAGEUP then s\<lparr>ap_log_scroll := ap_log_scroll s + 10\<rparr>
       else if k = SDLK_PAGEDOWN then s\<lparr>ap_log_scroll := max 0 (ap_log_scroll s - 10)\<rparr>
       else if k = SDLK_F5 then s\<lparr>ap_needs_layout := True\<rparr>
       else if ap_input s = [] \<and> k = SDLK_SPACE then toggle_paused s
       else if ap_input s = [] \<and> k = SDLK_s then single_step s
       else if k = SDLK_LEFTBRACKET then on_clock (\<lambda>c. sim_clock_set_speed (sim_clock_get_speed c * (5 / 10)) c) s
       else if k = SDLK_RIGHTBRACKET then on_clock (\<lambda>c. sim_clock_set_speed (sim_clock_get_speed c * 2) c) s
       else if ap_input s = [] \<and> k = SDLK_0 then on_clock (sim_clock_set_speed 1) s
       else s))"

text \<open>The area of the network, where nodes can be pointed at.\<close>

definition in_network :: "int \<Rightarrow> int \<Rightarrow> bool" where
  "in_network mx my \<longleftrightarrow> TOOLBAR_Y + TOOLBAR_H + 28 \<le> my \<and> my < TOPO_H \<and> mx < WINDOW_W - PANEL_W"

definition mouse_motion :: "int \<Rightarrow> int \<Rightarrow> app_state \<Rightarrow> app_state" where
  "mouse_motion mx my s =
    (if ap_dragging s then (apply_slider_at_x mx s)\<lparr>ap_hover_widget := WIDGET_SLIDER_SPEED\<rparr>
     else
       let hw = widget_at s mx my;
           s = s\<lparr>ap_hover_widget := hw,
                 ap_play := (ap_play s)\<lparr>wg_hovered := (hw = WIDGET_BTN_PLAYPAUSE)\<rparr>,
                 ap_step := (ap_step s)\<lparr>wg_hovered := (hw = WIDGET_BTN_STEP)\<rparr>,
                 ap_reset := (ap_reset s)\<lparr>wg_hovered := (hw = WIDGET_BTN_RESET)\<rparr>,
                 ap_slider := (ap_slider s)\<lparr>wg_hovered := (hw = WIDGET_SLIDER_SPEED)\<rparr>,
                 ap_events_hover_row := events_row_at s mx my\<rparr>;
           idx = (if in_network mx my \<and> hw = WIDGET_NONE then hit_test_node s mx my else - 1)
       in s\<lparr>ap_hover_idx := idx,
            ap_gnodes := map (\<lambda>i. (ap_gnodes s ! i)\<lparr>gn_hovered := (int i = idx)\<rparr>) [0..<length (ap_gnodes s)]\<rparr>)"

definition press_widget :: "widget_id \<Rightarrow> int \<Rightarrow> app_state \<Rightarrow> app_state" where
  "press_widget wid mx s =
    (case wid of
       WIDGET_BTN_PLAYPAUSE \<Rightarrow> (let s = toggle_paused s in s\<lparr>ap_play := (ap_play s)\<lparr>wg_pressed := True\<rparr>\<rparr>)
     | WIDGET_BTN_STEP \<Rightarrow> (let s = single_step s in s\<lparr>ap_step := (ap_step s)\<lparr>wg_pressed := True\<rparr>\<rparr>)
     | WIDGET_BTN_RESET \<Rightarrow> s\<lparr>ap_needs_layout := True, ap_reset := (ap_reset s)\<lparr>wg_pressed := True\<rparr>\<rparr>
     | WIDGET_SLIDER_SPEED \<Rightarrow> apply_slider_at_x mx (s\<lparr>ap_dragging := True\<rparr>)
     | WIDGET_NONE \<Rightarrow> s)"

definition mouse_button_down :: "bool \<Rightarrow> int \<Rightarrow> int \<Rightarrow> app_state \<Rightarrow> app_state" where
  "mouse_button_down lmb mx my s =
    (let erow = events_row_at s mx my; wid = widget_at s mx my
     in if 0 \<le> erow \<and> lmb then events_activate_row erow s
        else if wid \<noteq> WIDGET_NONE \<and> lmb then press_widget wid mx s
        else if lmb \<and> in_network mx my then s\<lparr>ap_selected_idx := hit_test_node s mx my\<rparr>
        else s)"

definition mouse_button_up :: "app_state \<Rightarrow> app_state" where
  "mouse_button_up s = s\<lparr>ap_dragging := False, ap_play := (ap_play s)\<lparr>wg_pressed := False\<rparr>,
     ap_step := (ap_step s)\<lparr>wg_pressed := False\<rparr>, ap_reset := (ap_reset s)\<lparr>wg_pressed := False\<rparr>\<rparr>"

definition mouse_wheel :: "int \<Rightarrow> int \<Rightarrow> int \<Rightarrow> app_state \<Rightarrow> app_state" where
  "mouse_wheel dy mx my s =
    (if point_in_rect mx my (ap_detail_rect s) then s\<lparr>ap_detail_scroll := max 0 (ap_detail_scroll s - dy * 2)\<rparr>
     else if point_in_rect mx my (ap_events_rect s) then s\<lparr>ap_events_scroll := max 0 (ap_events_scroll s - dy * 3)\<rparr>
     else if TOPO_H \<le> my then
       (if 0 < dy then s\<lparr>ap_log_scroll := ap_log_scroll s + 3\<rparr>
        else if dy < 0 then s\<lparr>ap_log_scroll := max 0 (ap_log_scroll s - 3)\<rparr>
        else s)
     else s)"

primrec handle_event :: "window \<Rightarrow> sdl_event \<Rightarrow> app_state \<Rightarrow> app_state option" where
  "handle_event wd SDL_QUIT s = Some (s\<lparr>ap_running := False\<rparr>)"
| "handle_event wd (SDL_TEXTINPUT txt) s = Some (text_input txt s)"
| "handle_event wd (SDL_KEYDOWN k ctrl) s = key_down wd k ctrl s"
| "handle_event wd (SDL_MOUSEMOTION mx my) s = Some (mouse_motion mx my s)"
| "handle_event wd (SDL_MOUSEBUTTONDOWN lmb mx my) s = Some (mouse_button_down lmb mx my s)"
| "handle_event wd SDL_MOUSEBUTTONUP s = Some (mouse_button_up s)"
| "handle_event wd (SDL_MOUSEWHEEL dy mx my) s = Some (mouse_wheel dy mx my s)"
| "handle_event wd SDL_OTHER s = Some s"

fun handle_events :: "window \<Rightarrow> sdl_event list \<Rightarrow> app_state \<Rightarrow> app_state option" where
  "handle_events wd [] s = Some s"
| "handle_events wd (e # es) s = do { s \<leftarrow> handle_event wd e s; handle_events wd es s }"

end
