(* ===== verification/Png.thy ===== *)
theory Png
  imports Prelude
begin

text \<open>
  The picture file that the export of the network view writes (\<^verbatim>\<open>gui/app.c\<close>): the CRC of the
  chunks, the Adler checksum, and a PNG with its pixels in stored blocks, written with \<^verbatim>\<open>fwrite\<close> calls that may
  be cut short. A reader of such files says what the bytes mean; it shares no definition with the writer: its
  checksums are those of the standards, the CRC a remainder of polynomials over the field of two elements and the Adler checksum a pair of sums.
\<close>

unbundle bit_operations_syntax

section \<open>The code\<close>

text \<open>One step of the loop that fills the table, and the table.\<close>

definition crc32_shift :: "u32 \<Rightarrow> u32" where
  "crc32_shift c = (if c AND 1 \<noteq> 0 then 0xEDB88320 XOR drop_bit 1 c else drop_bit 1 c)"

definition crc32_init_table :: "u32 list" where
  "crc32_init_table = map (\<lambda>n. (crc32_shift ^^ 8) (of_nat n)) [0..<256]"

definition crc32_update :: "u32 \<Rightarrow> bytes \<Rightarrow> u32" where
  "crc32_update crc data =
    foldl (\<lambda>crc d. crc32_init_table ! unat ((crc XOR ucast d) AND 0xFF) XOR drop_bit 8 crc) (crc XOR 0xFFFFFFFF) data
      XOR 0xFFFFFFFF"

definition png_write_u32be :: "u32 \<Rightarrow> bytes" where
  "png_write_u32be v = [ucast (drop_bit 24 v), ucast (drop_bit 16 v), ucast (drop_bit 8 v), ucast v]"

text \<open>
  What is outside: whether the file opens, how many bytes the \<open>k\<close>-th \<^verbatim>\<open>fwrite\<close> takes at most (\<open>None\<close>: all of them), whether the two
  buffers can be allocated, and how much of what was written is in the file when it has been closed (\<open>None\<close>: all of it).
\<close>

record png_outside =
  po_opens :: bool
  po_takes :: "nat \<Rightarrow> nat option"
  po_raw :: bool
  po_zdata :: bool
  po_flushed :: "nat option"

text \<open>A stream: the number of calls so far, and the bytes that were taken.\<close>

type_synonym stream = "nat \<times> bytes"

definition fwrite :: "(nat \<Rightarrow> nat option) \<Rightarrow> bytes \<Rightarrow> stream \<Rightarrow> nat \<times> stream" where
  "fwrite takes data f =
    (let out = (case takes (fst f) of None \<Rightarrow> data | Some n \<Rightarrow> take n data) in (length out, (fst f + 1, snd f @ out)))"

definition fclose :: "png_outside \<Rightarrow> stream \<Rightarrow> bytes" where
  "fclose po f = (case po_flushed po of None \<Rightarrow> snd f | Some n \<Rightarrow> take n (snd f))"

text \<open>A chunk, and whether all of it was taken.\<close>

definition png_write_chunk :: "(nat \<Rightarrow> nat option) \<Rightarrow> bytes \<Rightarrow> bytes \<Rightarrow> stream \<Rightarrow> bool \<times> stream" where
  "png_write_chunk takes ty data f =
    (let (n, f) = fwrite takes (png_write_u32be (of_nat (length data)) @ ty) f
     in if n \<noteq> 8 then (False, f)
        else
          let crc = crc32_update 0 ty;
              (taken, crc, f) = (if data = [] then (True, crc, f)
                else let (n, f) = fwrite takes data f in (n = length data, crc32_update crc data, f))
          in if \<not> taken then (False, f)
             else let (n, f) = fwrite takes (png_write_u32be crc) f in (n = 4, f))"

definition adler32_calc :: "bytes \<Rightarrow> u32" where
  "adler32_calc data =
    (let (a, b) = foldl (\<lambda>(a, b) d. let a = (a + ucast d) mod 65521 in (a, (b + a) mod 65521)) (1, 0) data
     in push_bit 16 b OR a)"

text \<open>The rows, each behind the byte of its filter, and the loop that cuts them into blocks.\<close>

definition png_rows :: "bytes \<Rightarrow> nat \<Rightarrow> nat \<Rightarrow> bytes" where
  "png_rows pixels w h = concat (map (\<lambda>y. 0 # take (w * 3) (drop (y * w * 3) pixels)) [0..<h])"

abbreviation MAX_BLOCK :: nat where "MAX_BLOCK \<equiv> 65535"

function deflate_stored :: "bytes \<Rightarrow> bytes" where
  "deflate_stored rest =
    (if rest = [] then []
     else
       let block = (if MAX_BLOCK < length rest then MAX_BLOCK else length rest)
       in (if length rest \<le> MAX_BLOCK then 1 else 0) # of_nat block # of_nat (block div 256) #
          NOT (of_nat block) # NOT (of_nat (block div 256)) # take block rest @ deflate_stored (drop block rest))"
  by auto
termination by (relation "measure length") (auto simp: Let_def)

declare deflate_stored.simps [simp del]

definition PNG_SIGNATURE :: bytes where
  "PNG_SIGNATURE = [137, 80, 78, 71, 13, 10, 26, 10]"

definition png_ihdr :: "nat \<Rightarrow> nat \<Rightarrow> bytes" where
  "png_ihdr w h = png_write_u32be (of_nat w) @ png_write_u32be (of_nat h) @ [8, 2, 0, 0, 0]"

definition png_zlib :: "bytes \<Rightarrow> bytes" where
  "png_zlib raw = [0x78, 0x01] @ deflate_stored raw @ png_write_u32be (adler32_calc raw)"

text \<open>The result, and the content of the file when one was opened. What the writes return is not looked at.\<close>

definition png_save_rgb :: "png_outside \<Rightarrow> bytes \<Rightarrow> nat \<Rightarrow> nat \<Rightarrow> bool \<times> bytes option" where
  "png_save_rgb po pixels w h =
    (if \<not> po_opens po then (False, None)
     else
       let (_, f) = fwrite (po_takes po) PNG_SIGNATURE (0, []);
           (_, f) = png_write_chunk (po_takes po) [73, 72, 68, 82] (png_ihdr w h) f
       in if \<not> po_raw po then (False, Some (fclose po f))
          else
            let raw = png_rows pixels w h
            in if \<not> po_zdata po then (False, Some (fclose po f))
               else
                 let (_, f) = png_write_chunk (po_takes po) [73, 68, 65, 84] (png_zlib raw) f;
                     (_, f) = png_write_chunk (po_takes po) [73, 69, 78, 68] [] f
                 in (True, Some (fclose po f)))"

section \<open>The CRC\<close>

text \<open>Bit by bit, without a table.\<close>

definition crc32_reference :: "u32 \<Rightarrow> bytes \<Rightarrow> u32" where
  "crc32_reference crc data = foldl (\<lambda>crc d. (crc32_shift ^^ 8) (crc XOR ucast d)) (crc XOR 0xFFFFFFFF) data XOR 0xFFFFFFFF"

lemma crc32_shift_xor: "crc32_shift (x XOR y) = crc32_shift x XOR crc32_shift y"
proof -
  have "(x AND 1 \<noteq> 0) = bit x 0" for x :: u32 by (simp add: and_one_eq bit_0 odd_iff_mod_2_eq_one)
  then have shift: "crc32_shift x = (if bit x 0 then 0xEDB88320 XOR drop_bit 1 x else drop_bit 1 x)" for x
    unfolding crc32_shift_def by presburger
  have "drop_bit 1 (x XOR y) = drop_bit 1 x XOR drop_bit 1 y" by simp
  then show ?thesis unfolding shift by (auto simp: bit_xor_iff xor.assoc xor.left_commute)
qed

lemma crc32_shifts_xor: "(crc32_shift ^^ n) (x XOR y) = (crc32_shift ^^ n) x XOR (crc32_shift ^^ n) y"
  by (induction n) (simp_all add: crc32_shift_xor)

lemma crc32_shifts_drop: "take_bit n x = 0 \<Longrightarrow> (crc32_shift ^^ n) x = drop_bit n x"
proof (induction n arbitrary: x)
  case (Suc n)
  have "\<not> bit x 0" using bit_take_bit_iff [of "Suc n" x 0] unfolding Suc.prems by simp
  then have "crc32_shift x = drop_bit 1 x" by (simp add: crc32_shift_def and_one_eq bit_0 odd_iff_mod_2_eq_one)
  moreover have "take_bit n (drop_bit 1 x) = 0" using Suc.prems by (simp add: take_bit_drop_bit)
  ultimately show ?case using Suc.IH [of "drop_bit 1 x"] by (simp add: funpow_Suc_right del: funpow.simps)
qed simp

text \<open>One byte of the table-driven loop.\<close>

lemma crc32_byte: "crc32_init_table ! unat ((crc XOR ucast (d :: u8)) AND 0xFF) XOR drop_bit 8 crc = (crc32_shift ^^ 8) (crc XOR ucast d)"
proof -
  let ?y = "crc XOR ucast d :: u32"
  have ff: "(0xFF :: u32) = mask 8" by (simp add: mask_eq_exp_minus_1)
  have lt: "unat (?y AND 0xFF) < 256" using word_and_le1 [of ?y "0xFF"] by (simp add: word_le_nat_alt)
  then have "crc32_init_table ! unat (?y AND 0xFF) = (crc32_shift ^^ 8) (?y AND 0xFF)" by (simp add: crc32_init_table_def)
  moreover have "drop_bit 8 crc = (crc32_shift ^^ 8) (?y AND NOT 0xFF)"
  proof -
    have "take_bit 8 (?y AND NOT 0xFF) = 0" unfolding ff by (rule bit_word_eqI) (simp add: bit_simps)
    moreover have "drop_bit 8 (?y AND NOT 0xFF) = drop_bit 8 crc"
      unfolding ff by (rule bit_word_eqI) (auto simp: bit_simps dest: bit_imp_le_length)
    ultimately show ?thesis by (simp only: crc32_shifts_drop)
  qed
  moreover have "(?y AND 0xFF) XOR (?y AND NOT 0xFF) = ?y" by (rule bit_word_eqI) (auto simp: bit_simps)
  ultimately show ?thesis by (simp only: flip: crc32_shifts_xor)
qed

lemma crc32_bitwise: "crc32_update crc data = crc32_reference crc data"
  by (simp only: crc32_update_def crc32_reference_def crc32_byte)

lemma xor_cancel: "a XOR c = b XOR c \<longleftrightarrow> a = b" for a b c :: u32
proof
  assume "a XOR c = b XOR c"
  then have "(a XOR c) XOR c = (b XOR c) XOR c" by simp
  then show "a = b" by (simp add: xor.assoc)
qed simp

lemma crc32_append: "crc32_update (crc32_update crc xs) ys = crc32_update crc (xs @ ys)"
  by (simp add: crc32_update_def xor.assoc)

text \<open>The step has an inverse, and up to four bytes enter the register like one word.\<close>

lemma crc32_shift_inj: "inj crc32_shift"
proof (rule injI)
  fix x y :: u32 assume "crc32_shift x = crc32_shift y"
  then have z: "crc32_shift (x XOR y) = 0" by (simp add: crc32_shift_xor)
  let ?z = "x XOR y"
  have "bit (0xEDB88320 XOR drop_bit 1 ?z :: u32) 31" by (auto simp: bit_simps dest: bit_imp_le_length)
  then have "0xEDB88320 XOR drop_bit 1 ?z \<noteq> 0" by (metis bit_0_eq bot_apply bot_bool_def)
  then have "?z AND 1 = 0" "drop_bit 1 ?z = 0" using z by (auto simp: crc32_shift_def split: if_splits)
  then have "take_bit 1 ?z = 0" "push_bit 1 (drop_bit 1 ?z) = 0" by (simp_all only: take_bit_eq_mask mask_1 push_bit_of_0)
  then have "?z = 0" using bits_ident [of 1 ?z] by simp
  then have "(x XOR y) XOR y = y" by simp
  then show "x = y" by (simp add: xor.assoc)
qed

fun little_endian :: "bytes \<Rightarrow> u32" where
  "little_endian [] = 0"
| "little_endian (d # ds) = ucast d XOR push_bit 8 (little_endian ds)"

lemma little_endian_bits: "bit (little_endian ds) n \<Longrightarrow> n < 8 * length ds"
proof (induction ds arbitrary: n)
  case (Cons d ds)
  then show ?case by (cases "n < 8") (auto simp: bit_simps dest: bit_imp_le_length dest!: Cons.IH)
qed simp

lemma little_endian_inj:
  assumes "length xs = length ys" "length xs \<le> 4" "little_endian xs = little_endian ys"
  shows "xs = ys"
  using assms
proof (induction xs ys rule: list_induct2)
  case (Cons x xs y ys)
  have bits: "bit (little_endian (x # xs)) n = bit (little_endian (y # ys)) n" for n using Cons.prems(2) by simp
  have "bit x n = bit y n" if "n < 8" for n using bits [of n] that by (simp add: bit_simps)
  then have "x = y" by (intro bit_word_eqI) simp
  moreover have "bit (little_endian xs) n = bit (little_endian ys) n" for n
  proof (cases "n + 8 < 32")
    case True
    then show ?thesis using bits [of "n + 8"] bit_imp_le_length [of x "n + 8"] bit_imp_le_length [of y "n + 8"] by (auto simp: bit_simps)
  next
    case False
    then show ?thesis using little_endian_bits [of xs n] little_endian_bits [of ys n] Cons.hyps Cons.prems(1) by auto
  qed
  ultimately show ?case using Cons.IH Cons.prems(1) by (simp add: bit_word_eqI)
qed simp

lemma crc32_word:
  "length ds \<le> 4 \<Longrightarrow> foldl (\<lambda>crc d. (crc32_shift ^^ 8) (crc XOR ucast d)) crc ds = (crc32_shift ^^ (8 * length ds)) (crc XOR little_endian ds)"
proof (induction ds arbitrary: crc)
  case (Cons d ds)
  let ?l = "little_endian ds"
  have "take_bit 8 (push_bit 8 ?l) = 0" "drop_bit 8 (push_bit 8 ?l) = ?l"
    using little_endian_bits [of ds] Cons.prems by (intro bit_word_eqI; auto simp: bit_simps dest: bit_imp_le_length; fastforce)+
  then have "(crc32_shift ^^ 8) (crc XOR ucast d XOR push_bit 8 ?l) = (crc32_shift ^^ 8) (crc XOR ucast d) XOR ?l"
    by (simp only: crc32_shifts_xor crc32_shifts_drop xor.assoc)
  then have "(crc32_shift ^^ (8 * length ds)) ((crc32_shift ^^ 8) (crc XOR ucast d) XOR ?l) =
      (crc32_shift ^^ (8 * length ds + 8)) (crc XOR little_endian (d # ds))"
    by (simp only: funpow_add o_apply little_endian.simps xor.assoc)
  then show ?case using Cons by (simp add: add.commute)
qed simp

text \<open>The table-driven loop computes the bitwise CRC, and the CRC notices every change that stays
  within four bytes in a row, wherever in the data.\<close>

theorem crc_detects_burst:
  assumes "xs \<noteq> ys" "length xs = length ys" "length xs \<le> 4"
  shows "crc32_update crc data = crc32_reference crc data \<and>
    crc32_update crc (before @ xs @ after) \<noteq> crc32_update crc (before @ ys @ after)"
proof -
  let ?run = "foldl (\<lambda>crc d. (crc32_shift ^^ 8) (crc XOR ucast (d :: u8)))"
  have inj: "inj (crc32_shift ^^ n)" for n by (rule inj_fn [OF crc32_shift_inj])
  have byte: "a = b" if "(crc32_shift ^^ 8) (a XOR ucast d) = (crc32_shift ^^ 8) (b XOR ucast d)" for a b and d :: u8
    using injD [OF inj that] by (simp only: xor_cancel)
  have run: "?run a ds = ?run b ds \<Longrightarrow> a = b" for a b and ds :: bytes
    by (induction ds arbitrary: a b) (auto dest: byte)
  have "?run a xs \<noteq> ?run a ys" for a
  proof
    assume "?run a xs = ?run a ys"
    then have "(crc32_shift ^^ (8 * length ys)) (a XOR little_endian xs) = (crc32_shift ^^ (8 * length ys)) (a XOR little_endian ys)"
      using assms(2,3) by (simp add: crc32_word del: funpow.simps)
    then have "a XOR little_endian xs = a XOR little_endian ys" using injD [OF inj] by blast
    then have "little_endian xs = little_endian ys" by (metis xor.commute xor_cancel)
    then show False using little_endian_inj [OF assms(2,3)] assms(1) by blast
  qed
  then have "?run (?run (crc XOR 0xFFFFFFFF) before) xs \<noteq> ?run (?run (crc XOR 0xFFFFFFFF) before) ys" by blast
  then have "crc32_reference crc (before @ xs @ after) \<noteq> crc32_reference crc (before @ ys @ after)"
    unfolding crc32_reference_def foldl_append xor_cancel using run by blast
  then show ?thesis by (simp add: crc32_bitwise)
qed

theorem crc_detects_burst_witness: "crc32_update 0 [73, 68, 65, 84] \<noteq> crc32_update 0 [73, 69, 65, 84]"
  using conjunct2 [OF crc_detects_burst [of "[68]" "[69]" 0 "[]" "[73]" "[65, 84]"]] by simp

section \<open>The checksums of the standards\<close>

text \<open>
  The CRC of the PNG standard (ITU-T V.42). The bits of the message, those of a byte from the lowest on, are the coefficients of
  a polynomial over the field of two elements, the first that of the highest power. It is multiplied by the 32nd power,
  the complement of its first 32 coefficients is taken, and it is divided by the generator
  (the 32nd power plus the powers listed here); the coefficients of the remainder are complemented.
\<close>

fun xor_prefix :: "bool list \<Rightarrow> bool list \<Rightarrow> bool list" where
  "xor_prefix (a # as) (b # bs) = (a \<noteq> b) # xor_prefix as bs"
| "xor_prefix _ bs = bs"

lemma length_xor_prefix [simp]: "length (xor_prefix as bs) = length bs"
  by (induction as bs rule: xor_prefix.induct) simp_all

lemma nth_xor_prefix: "i < length bs \<Longrightarrow> xor_prefix as bs ! i = (if i < length as then as ! i \<noteq> bs ! i else bs ! i)"
proof (induction as bs arbitrary: i rule: xor_prefix.induct)
  case (1 a as b bs)
  then show ?case by (cases i) simp_all
qed simp_all

definition crc_generator :: "bool list" where
  "crc_generator = map (\<lambda>k. k \<in> {26, 23, 22, 16, 12, 11, 10, 8, 7, 5, 4, 2, 1, 0}) (rev [0..<32 :: nat])"

function poly_rem :: "bool list \<Rightarrow> bool list" where
  "poly_rem (b # bs) = (if length bs < 32 then b # bs else poly_rem (if b then xor_prefix crc_generator bs else bs))"
| "poly_rem [] = []"
  by pat_completeness auto
termination by (relation "measure length") auto

declare poly_rem.simps [simp del]

definition message_bits :: "bytes \<Rightarrow> bool list" where
  "message_bits data = concat (map (\<lambda>d. map (bit d) [0..<8]) data)"

definition png_crc :: "bytes \<Rightarrow> bool list" where
  "png_crc data = map Not (poly_rem (xor_prefix (replicate 32 True) (message_bits data @ replicate 32 False)))"

text \<open>The register of the code, its lowest bit first, is the remainder of what was divided so far.\<close>

definition register :: "u32 \<Rightarrow> bool list" where
  "register r = map (bit r) [0..<32]"

definition crc32_bit :: "u32 \<Rightarrow> bool \<Rightarrow> u32" where
  "crc32_bit r b = crc32_shift (if b then r XOR 1 else r)"

lemma crc_generator_bits: "crc_generator = register 0xEDB88320"
  by code_simp

lemma register_bit: "register (crc32_bit r b) =
    (if bit r 0 \<noteq> b then xor_prefix crc_generator (tl (register r) @ [False]) else tl (register r) @ [False])"
proof -
  have low: "((if b then r XOR 1 else r) AND 1 \<noteq> 0) = (bit r 0 \<noteq> b)"
    by (simp add: and_one_eq odd_iff_mod_2_eq_one bit_0 flip: odd_iff_mod_2_eq_one) (auto simp: bit_0 even_xor_iff)
  have drop: "drop_bit 1 (if b then r XOR 1 else r) = drop_bit 1 r"
    by (rule bit_word_eqI) (auto simp: bit_simps)
  have nth: "(tl (register r) @ [False]) ! i = bit (drop_bit 1 r) i" if "i < 32" for i
    using that by (auto simp: register_def nth_tl nth_append bit_simps dest: bit_imp_le_length)
  show ?thesis
    unfolding crc32_bit_def crc32_shift_def low drop crc_generator_bits
    by (rule nth_equalityI) (auto simp: register_def nth_xor_prefix nth bit_xor_iff nth [unfolded register_def])
qed

lemma poly_rem_register: "poly_rem (xor_prefix (register r) (ms @ replicate 32 False)) = register (foldl crc32_bit r ms)"
proof (induction ms arbitrary: r)
  case Nil
  have "xor_prefix (register r) (replicate 32 False) = register r"
    by (rule nth_equalityI) (simp_all add: register_def nth_xor_prefix)
  moreover have "poly_rem (register r) = register r"
  proof (cases "register r")
    case (Cons b bs)
    then have "length (b # bs) = 32" by (simp add: register_def flip: Cons)
    then show ?thesis unfolding Cons by (simp add: poly_rem.simps)
  qed (simp add: poly_rem.simps)
  ultimately show ?case by simp
next
  case (Cons m ms)
  let ?z = "ms @ replicate 32 False"
  have reg: "register r = bit r 0 # tl (register r)" by (simp add: register_def upt_conv_Cons)
  have len: "length (register r) = 32" for r by (simp add: register_def)
  have short: "xor_prefix (tl (register r)) ?z = xor_prefix (tl (register r) @ [False]) ?z"
    by (rule nth_equalityI) (auto simp: nth_xor_prefix nth_append len)
  have step: "(if bit r 0 \<noteq> m then xor_prefix crc_generator (xor_prefix (tl (register r)) ?z) else xor_prefix (tl (register r)) ?z) =
      xor_prefix (register (crc32_bit r m)) ?z"
    unfolding register_bit short
    by (rule nth_equalityI) (auto simp: nth_xor_prefix len crc_generator_bits)
  have "xor_prefix (register r) ((m # ms) @ replicate 32 False) = (bit r 0 \<noteq> m) # xor_prefix (tl (register r)) ?z"
    by (subst reg) simp
  then have "poly_rem (xor_prefix (register r) ((m # ms) @ replicate 32 False)) = poly_rem (xor_prefix (register (crc32_bit r m)) ?z)"
    unfolding step [symmetric] by (simp add: poly_rem.simps)
  then show ?case using Cons.IH by simp
qed

lemma crc32_bits: "n \<le> 8 \<Longrightarrow> foldl crc32_bit r (map (bit d) [0..<n]) = (crc32_shift ^^ n) (r XOR take_bit n (ucast (d :: u8)))"
proof (induction n)
  case (Suc n)
  let ?b = "if bit d n then 1 else 0 :: u32"
  have "take_bit n (push_bit n ?b) = 0" "drop_bit n (push_bit n ?b) = ?b"
    using Suc.prems by (intro bit_word_eqI; auto simp: bit_simps)+
  then have in_place: "(crc32_shift ^^ n) (push_bit n ?b) = ?b" by (simp only: crc32_shifts_drop)
  have split: "take_bit (Suc n) (ucast d) = take_bit n (ucast d) XOR push_bit n ?b"
    using Suc.prems by (intro bit_word_eqI) (auto simp: bit_simps less_Suc_eq dest: bit_imp_le_length)
  have "crc32_bit ((crc32_shift ^^ n) (r XOR take_bit n (ucast d))) (bit d n) =
      crc32_shift ((crc32_shift ^^ n) (r XOR take_bit n (ucast d)) XOR ?b)"
    by (simp add: crc32_bit_def)
  also have "\<dots> = (crc32_shift ^^ Suc n) (r XOR take_bit (Suc n) (ucast d))"
    unfolding split xor.assoc [symmetric] funpow.simps o_apply crc32_shifts_xor in_place ..
  finally show ?case using Suc by simp
qed simp

lemma crc32_is_png_crc: "register (crc32_update 0 data) = png_crc data"
proof -
  have "take_bit 8 (ucast d :: u32) = ucast d" for d :: u8 by (rule bit_word_eqI) (auto simp: bit_simps dest: bit_imp_le_length)
  then have byte: "foldl crc32_bit r (map (bit d) [0..<8]) = (crc32_shift ^^ 8) (r XOR ucast d)" for r and d :: u8
    using crc32_bits [of 8 r d] by simp
  have run: "foldl crc32_bit r (message_bits data) = foldl (\<lambda>crc d. (crc32_shift ^^ 8) (crc XOR ucast d)) r data" for r
    by (induction data arbitrary: r) (simp_all add: message_bits_def byte del: upt_Suc funpow.simps)
  have ones: "replicate 32 True = register 0xFFFFFFFF" by code_simp
  have "png_crc data = map Not (register (foldl crc32_bit 0xFFFFFFFF (message_bits data)))"
    unfolding png_crc_def ones poly_rem_register ..
  moreover have "map Not (register r) = register (r XOR 0xFFFFFFFF)" for r
  proof -
    have ones: "(0xFFFFFFFF :: u32) = mask 32" by (simp add: mask_eq_exp_minus_1)
    show ?thesis unfolding ones by (auto simp: register_def bit_simps)
  qed
  ultimately show ?thesis unfolding run by (simp add: crc32_bitwise crc32_reference_def)
qed

text \<open>The Adler checksum of RFC 1950: one plus the sum of the bytes, and the sum of these sums over all prefixes, both modulo the largest prime below 65536.\<close>

definition adler_s1 :: "bytes \<Rightarrow> nat" where
  "adler_s1 data = (1 + (\<Sum>d\<leftarrow>data. unat d)) mod 65521"

definition adler_s2 :: "bytes \<Rightarrow> nat" where
  "adler_s2 data = (\<Sum>n = 1..length data. 1 + (\<Sum>d\<leftarrow>take n data. unat d)) mod 65521"

lemma adler_s2_snoc: "adler_s2 (data @ [d]) = (adler_s2 data + adler_s1 (data @ [d])) mod 65521"
proof -
  have "(\<Sum>n = 1..length data. 1 + (\<Sum>d\<leftarrow>take n (data @ [d]). unat d)) = (\<Sum>n = 1..length data. 1 + (\<Sum>d\<leftarrow>take n data. unat d))"
    by (rule sum.cong) auto
  moreover have "(\<Sum>n = 1..length (data @ [d]). 1 + (\<Sum>d\<leftarrow>take n (data @ [d]). unat d)) =
      (\<Sum>n = 1..length data. 1 + (\<Sum>d\<leftarrow>take n (data @ [d]). unat d)) + (1 + (\<Sum>d\<leftarrow>data @ [d]. unat d))" by simp
  ultimately show ?thesis unfolding adler_s2_def adler_s1_def mod_add_eq by (simp only:)
qed

lemma adler_loop:
  "\<exists>a b. foldl (\<lambda>(a, b) d. let a = (a + ucast d) mod 65521 in (a, (b + a) mod 65521)) (1, 0) data = (a, b :: u32) \<and>
    unat (a :: u32) = adler_s1 data \<and> unat b = adler_s2 data"
proof (induction data rule: rev_induct)
  case Nil
  show ?case by (simp add: adler_s1_def adler_s2_def)
next
  case (snoc d data)
  then obtain a b where ab: "foldl (\<lambda>(a, b) d. let a = (a + ucast d) mod 65521 in (a, (b + a) mod 65521)) (1, 0) data = (a, b :: u32)"
    "unat (a :: u32) = adler_s1 data" "unat b = adler_s2 data" by blast
  have lt: "adler_s1 xs < 65521" "adler_s2 xs < 65521" for xs by (simp_all add: adler_s1_def adler_s2_def)
  have small: "unat (x + y) = unat x + unat y" if "unat x + unat y < 131072" for x y :: u32
    using that by (intro unat_add_lem [THEN iffD1]) simp
  have "unat a + unat (ucast d :: u32) < 131072" using lt(1) [of data] u8_bound [of d] unfolding ab(2) u32_of_u8 by simp
  then have a: "unat ((a + ucast d) mod 65521) = adler_s1 (data @ [d])"
    by (simp add: unat_mod small u32_of_u8 ab(2)) (simp add: adler_s1_def mod_simps)
  have sum: "unat b + unat ((a + ucast d) mod 65521) < 131072" using lt(2) [of data] lt(1) [of "data @ [d]"] unfolding ab(3) a by simp
  then have "unat ((b + (a + ucast d) mod 65521) mod 65521) = adler_s2 (data @ [d])"
    unfolding unat_mod small [OF sum] ab(3) a [unfolded unat_mod] by (simp add: adler_s2_snoc)
  then show ?case using a unfolding foldl_append ab(1) by (simp add: Let_def del: unat_mod)
qed

lemma adler32_value: "unat (adler32_calc data) = adler_s2 data * 65536 + adler_s1 data"
proof -
  obtain a b where ab: "foldl (\<lambda>(a, b) d. let a = (a + ucast d) mod 65521 in (a, (b + a) mod 65521)) (1, 0) data = (a, b :: u32)"
    "unat (a :: u32) = adler_s1 data" "unat b = adler_s2 data" using adler_loop by blast
  have lt: "unat a < 65536" "unat b < 65536" unfolding ab(2,3) by (simp_all add: adler_s1_def adler_s2_def less_trans [OF mod_less_divisor])
  have "push_bit 16 b OR a = push_bit 16 b + a"
  proof (rule disjunctive_add [symmetric])
    fix n
    have "take_bit 16 a = a" using lt(1) by (simp add: word_unat_eq_iff unsigned_take_bit_eq take_bit_eq_mod unat_mod)
    then have "n < 16" if "bit a n" using that by (metis bit_take_bit_iff)
    then show "\<not> bit (push_bit 16 b) n \<or> \<not> bit a n" by (auto simp: bit_simps)
  qed
  moreover have "unat (push_bit 16 b) = unat b * 65536" using lt(2) by (simp add: push_bit_eq_mult unat_mult_lem [THEN iffD1])
  moreover have "unat (push_bit 16 b + a) = unat (push_bit 16 b) + unat a"
    using lt calculation(2) by (intro unat_add_lem [THEN iffD1]) simp
  ultimately show ?thesis by (simp add: adler32_calc_def ab)
qed

section \<open>Reading\<close>

text \<open>A chunk with this type and a right CRC, and what follows it.\<close>

definition png_chunk :: "bytes \<Rightarrow> bytes \<Rightarrow> (bytes \<times> bytes) option" where
  "png_chunk ty raw =
    (let len = unat (read_u32_be raw 0); body = drop 8 raw
     in if length raw < 12 \<or> length raw < 12 + len then None
        else if take 4 (drop 4 raw) \<noteq> ty then None
        else if map (bit (read_u32_be (drop len body) 0)) [0..<32] \<noteq> png_crc (ty @ take len body) then None
        else Some (take len body, drop (len + 4) body))"

text \<open>Stored blocks: the last is marked, and each repeats its length inverted.\<close>

fun inflate_stored :: "bytes \<Rightarrow> (bytes \<times> bytes) option" where
  "inflate_stored (f # l # l' # n # n' # rest) =
    (let len = unat l + 256 * unat l'
     in if n \<noteq> NOT l \<or> n' \<noteq> NOT l' \<or> length rest < len then None
        else if f = 1 then Some (take len rest, drop len rest)
        else if f \<noteq> 0 then None
        else map_option (\<lambda>(out, rest'). (take len rest @ out, rest')) (inflate_stored (drop len rest)))"
| "inflate_stored _ = None"

text \<open>Rows without a filter.\<close>

fun unfilter :: "nat \<Rightarrow> nat \<Rightarrow> bytes \<Rightarrow> bytes option" where
  "unfilter 0 row raw = (if raw = [] then Some [] else None)"
| "unfilter (Suc h) row [] = None"
| "unfilter (Suc h) row (f # raw) =
    (if f \<noteq> 0 \<or> length raw < row then None else map_option ((@) (take row raw)) (unfilter h row (drop row raw)))"

text \<open>
  An eight-bit RGB picture that is not interlaced: its width, its height, and the bytes of its pixels. The zlib stream has method 8,
  a window of at most 32K, no dictionary, a header that is a multiple of 31, and the Adler checksum of its data.
\<close>

definition png_read :: "bytes \<Rightarrow> (nat \<times> nat \<times> bytes) option" where
  "png_read file =
    (if take 8 file \<noteq> [0x89, 0x50, 0x4E, 0x47, 0x0D, 0x0A, 0x1A, 0x0A] then None
     else case png_chunk [0x49, 0x48, 0x44, 0x52] (drop 8 file) of
       None \<Rightarrow> None
     | Some (head, file) \<Rightarrow>
         if length head \<noteq> 13 \<or> drop 8 head \<noteq> [8, 2, 0, 0, 0] then None
         else let w = unat (read_u32_be head 0); h = unat (read_u32_be head 4)
           in case png_chunk [0x49, 0x44, 0x41, 0x54] file of
                None \<Rightarrow> None
              | Some (z, file) \<Rightarrow>
                  if png_chunk [0x49, 0x45, 0x4E, 0x44] file \<noteq> Some ([], []) then None
                  else let cmf = unat (z ! 0); flg = unat (z ! 1)
                    in if length z < 2 \<or> cmf mod 16 \<noteq> 8 \<or> 7 < cmf div 16 \<or> flg div 32 mod 2 = 1 \<or> (cmf * 256 + flg) mod 31 \<noteq> 0 then None
                       else case inflate_stored (drop 2 z) of
                         None \<Rightarrow> None
                       | Some (raw, trailer) \<Rightarrow>
                           if length trailer \<noteq> 4 \<or> unat (read_u32_be trailer 0) \<noteq> adler_s2 raw * 65536 + adler_s1 raw then None
                           else map_option (\<lambda>pixels. (w, h, pixels)) (unfilter h (w * 3) raw))"

text \<open>The red, green and blue of the pixel in column \<open>x\<close> of row \<open>y\<close>.\<close>

definition png_pixel :: "nat \<times> nat \<times> bytes \<Rightarrow> nat \<Rightarrow> nat \<Rightarrow> nat \<times> nat \<times> nat" where
  "png_pixel picture x y =
    (let (w, h, pixels) = picture; i = (y * w + x) * 3 in (unat (pixels ! i), unat (pixels ! (i + 1)), unat (pixels ! (i + 2))))"

lemma u32be [simp]: "png_write_u32be v = write_u32_be v"
proof -
  have m: "(0xFF :: u32) = mask 8" by (simp add: mask_eq_exp_minus_1)
  have "ucast v = (ucast (v AND 0xFF) :: u8)" unfolding m by (rule bit_word_eqI) (simp add: bit_simps)
  then show ?thesis by (simp add: png_write_u32be_def write_u32_be_def)
qed

text \<open>The bytes of a chunk that is written without being cut short.\<close>

definition chunk_bytes :: "bytes \<Rightarrow> bytes \<Rightarrow> bytes" where
  "chunk_bytes ty data = write_u32_be (of_nat (length data)) @ ty @ data @ write_u32_be (crc32_update 0 (ty @ data))"

lemma fwrite_whole: "takes (fst f) = None \<Longrightarrow> fwrite takes data f = (length data, fst f + 1, snd f @ data)"
  by (simp add: fwrite_def)

lemma chunk_written:
  assumes "\<forall>k. takes k = None" "length ty = 4"
  shows "\<exists>k. png_write_chunk takes ty data f = (True, k, snd f @ chunk_bytes ty data)"
  using assms by (simp add: png_write_chunk_def fwrite_whole chunk_bytes_def crc32_append Let_def)

lemma chunk_read:
  assumes "length ty = 4" "length data < 2 ^ 32"
  shows "png_chunk ty (chunk_bytes ty data @ rest) = Some (data, rest)"
proof -
  have "unat (of_nat (length data) :: u32) = length data" using assms(2) by (simp add: unat_of_nat)
  then show ?thesis
    using assms(1) crc32_is_png_crc [of "ty @ data", unfolded register_def] by (simp add: png_chunk_def chunk_bytes_def Let_def)
qed

lemma block_length:
  assumes "n \<le> MAX_BLOCK"
  shows "unat (of_nat n :: u8) + 256 * unat (of_nat (n div 256) :: u8) = n"
proof -
  have "n div 256 < 256" using assms by (simp add: less_mult_imp_div_less)
  then show ?thesis by (simp add: unat_of_nat)
qed

lemma stored_read: "raw \<noteq> [] \<Longrightarrow> inflate_stored (deflate_stored raw @ rest) = Some (raw, rest)"
proof (induction raw rule: deflate_stored.induct)
  case (1 raw)
  show ?case
  proof (cases "length raw \<le> MAX_BLOCK")
    case True
    then show ?thesis
      using 1(2) block_length [OF True] deflate_stored.simps [of "[]"] by (simp add: deflate_stored.simps [of raw] Let_def)
  next
    case False
    then have "inflate_stored (deflate_stored (drop MAX_BLOCK raw) @ rest) = Some (drop MAX_BLOCK raw, rest)"
      using 1 by (simp add: Let_def)
    then show ?thesis using 1(2) False block_length [of MAX_BLOCK] by (simp add: deflate_stored.simps [of raw] Let_def)
  qed
qed

lemma rows_read:
  assumes "length pixels = h * (w * 3)"
  shows "unfilter h (w * 3) (png_rows pixels w h) = Some pixels"
proof -
  have "unfilter n (w * 3) (concat (map (\<lambda>y. 0 # take (w * 3) (drop (y * w * 3) pixels)) [h - n..<h])) = Some (drop ((h - n) * (w * 3)) pixels)"
    if "n \<le> h" for n
    using that
  proof (induction n)
    case (Suc n)
    define k where "k = h - Suc n"
    have k: "h - n = Suc k" "[k..<h] = k # [Suc k..<h]" "k < h" using Suc.prems by (auto simp: k_def upt_conv_Cons)
    have "Suc k * (w * 3) \<le> length pixels" using k(3) unfolding assms by (intro mult_le_mono1) simp
    then have len: "w * 3 + k * (w * 3) \<le> length pixels" by simp
    have "take (w * 3) (drop (k * (w * 3)) pixels) @ drop (Suc k * (w * 3)) pixels = drop (k * (w * 3)) pixels"
      by (metis add.commute append_take_drop_id drop_drop mult_Suc)
    then show ?case using Suc.IH Suc.prems len k(1) unfolding k_def [symmetric] k(2) by (simp add: mult.assoc)
  qed (simp add: assms)
  from this [of h] show ?thesis by (simp add: png_rows_def)
qed

lemma length_deflate: "length (deflate_stored raw) = length raw + 5 * ((length raw + 65534) div MAX_BLOCK)"
proof (induction raw rule: deflate_stored.induct)
  case (1 raw)
  show ?case
  proof (cases "length raw \<le> MAX_BLOCK")
    case True
    then have "(length raw + 65534) div MAX_BLOCK = 1" if "raw \<noteq> []"
      using that by (intro div_nat_eqI) (auto simp: Suc_le_eq)
    then show ?thesis using True deflate_stored.simps [of "[]"] by (cases "raw = []") (auto simp: deflate_stored.simps [of raw] Let_def)
  next
    case False
    then have "length raw + 65534 = (length raw - 1) + MAX_BLOCK" by simp
    then have "(length raw + 65534) div MAX_BLOCK = Suc ((length raw - 1) div MAX_BLOCK)" by (simp only: div_add_self2)
    then show ?thesis using False 1 by (cases "raw = []") (auto simp: deflate_stored.simps [of raw] Let_def)
  qed
qed

lemma length_rows: "length pixels = h * (w * 3) \<Longrightarrow> length (png_rows pixels w h) = h * (w * 3 + 1)"
proof -
  assume l: "length pixels = h * (w * 3)"
  have "length (0 # take (w * 3) (drop (y * w * 3) pixels) :: bytes) = w * 3 + 1" if "y < h" for y
  proof -
    have "Suc y * (w * 3) \<le> length pixels" using that unfolding l by (intro mult_le_mono1) simp
    then show ?thesis by (simp add: mult.assoc)
  qed
  then have "map length (map (\<lambda>y. 0 # take (w * 3) (drop (y * w * 3) pixels)) [0..<h]) = replicate h (w * 3 + 1)"
    by (auto intro!: nth_equalityI simp: simp del: length_Cons length_take)
  then show ?thesis unfolding png_rows_def length_concat by (simp only: sum_list_replicate of_nat_id)
qed

text \<open>The file is read back: the signature, the three chunks with their lengths and checksums, the stored blocks, and the rows.\<close>

definition undisturbed :: "png_outside \<Rightarrow> bool" where
  "undisturbed po \<longleftrightarrow> po_opens po \<and> (\<forall>k. po_takes po k = None) \<and> po_raw po \<and> po_zdata po \<and> po_flushed po = None"

lemma file_written:
  assumes "undisturbed po"
  shows "png_save_rgb po pixels w h = (True, Some (PNG_SIGNATURE @ chunk_bytes [73, 72, 68, 82] (png_ihdr w h) @
    chunk_bytes [73, 68, 65, 84] (png_zlib (png_rows pixels w h)) @ chunk_bytes [73, 69, 78, 68] []))"
proof -
  have t: "\<forall>k. po_takes po k = None" using assms by (simp add: undisturbed_def)
  let ?f = "(1, PNG_SIGNATURE)"
  obtain k where k: "png_write_chunk (po_takes po) [73, 72, 68, 82] (png_ihdr w h) ?f = (True, k, PNG_SIGNATURE @ chunk_bytes [73, 72, 68, 82] (png_ihdr w h))"
    using chunk_written [OF t, of "[73, 72, 68, 82]" "png_ihdr w h" ?f] by auto
  let ?g = "(k, PNG_SIGNATURE @ chunk_bytes [73, 72, 68, 82] (png_ihdr w h))"
  obtain l where l: "png_write_chunk (po_takes po) [73, 68, 65, 84] (png_zlib (png_rows pixels w h)) ?g =
      (True, l, snd ?g @ chunk_bytes [73, 68, 65, 84] (png_zlib (png_rows pixels w h)))"
    using chunk_written [OF t, of "[73, 68, 65, 84]" "png_zlib (png_rows pixels w h)" ?g] by auto
  obtain m where m: "png_write_chunk (po_takes po) [73, 69, 78, 68] [] (l, snd ?g @ chunk_bytes [73, 68, 65, 84] (png_zlib (png_rows pixels w h))) =
      (True, m, (snd ?g @ chunk_bytes [73, 68, 65, 84] (png_zlib (png_rows pixels w h))) @ chunk_bytes [73, 69, 78, 68] [])"
    using chunk_written [OF t, of "[73, 69, 78, 68]" "[]" "(l, snd ?g @ chunk_bytes [73, 68, 65, 84] (png_zlib (png_rows pixels w h)))"] by auto
  show ?thesis
    using assms k l m t by (simp add: png_save_rgb_def undisturbed_def fwrite_def fclose_def Let_def)
qed

lemma png_file:
  assumes "undisturbed po" "0 < w" "0 < h" "length pixels = h * (w * 3)"
    and "h * (w * 3 + 1) + 5 * ((h * (w * 3 + 1) + 65534) div MAX_BLOCK) + 6 < 2 ^ 32"
  shows "\<exists>file. png_save_rgb po pixels w h = (True, Some file) \<and> png_read file = Some (w, h, pixels)"
proof -
  let ?raw = "png_rows pixels w h" and ?head = "png_ihdr w h"
  have raw: "length ?raw = h * (w * 3 + 1)" by (rule length_rows [OF assms(4)])
  have ne: "?raw \<noteq> []" using raw assms(2,3) by (cases ?raw) auto
  have "w \<le> h * (w * 3 + 1)" "h \<le> h * (w * 3 + 1)" using assms(3) by (cases h; simp)+
  then have small: "unat (of_nat w :: u32) = w" "unat (of_nat h :: u32) = h"
    using assms(5) by (simp_all add: unat_of_nat mult.commute)
  have z: "length (png_zlib ?raw) < 2 ^ 32" using assms(5) by (simp add: png_zlib_def length_deflate raw)
  have head: "length ?head = 13" "drop 8 ?head = [8, 2, 0, 0, 0]" "read_u32_be ?head 0 = of_nat w" "read_u32_be ?head 4 = of_nat h"
    by (simp_all add: png_ihdr_def write_u32_be_def) (simp_all add: read_u32_be_def flip: write_u32_be_def)
  have inflate: "inflate_stored (drop 2 (png_zlib ?raw)) = Some (?raw, write_u32_be (adler32_calc ?raw))"
      "png_zlib ?raw ! 0 = 0x78" "png_zlib ?raw ! 1 = 0x01" "2 \<le> length (png_zlib ?raw)"
    using stored_read [OF ne] by (simp_all add: png_zlib_def)
  have sum: "unat (read_u32_be (write_u32_be (adler32_calc ?raw)) 0) = adler_s2 ?raw * 65536 + adler_s1 ?raw"
    using read_write_u32 [of "adler32_calc ?raw" "[]"] by (simp add: adler32_value)
  let ?file = "PNG_SIGNATURE @ chunk_bytes [73, 72, 68, 82] ?head @ chunk_bytes [73, 68, 65, 84] (png_zlib ?raw) @ chunk_bytes [73, 69, 78, 68] []"
  have "png_read ?file = Some (w, h, pixels)"
    using inflate sum head small rows_read [OF assms(4)] chunk_read [OF _ z] chunk_read [of _ ?head] chunk_read [of _ "[]" "[]"]
    by (simp add: png_read_def PNG_SIGNATURE_def Let_def)
  then show ?thesis using file_written [OF assms(1)] by blast
qed

end
