(* ===== verification/Gui.thy ===== *)
theory Gui
  imports Gui_Events Png
begin

text \<open>
  The main loop of the window and the export of a picture: \<^verbatim>\<open>gui_run\<close> and \<^verbatim>\<open>gui_export_topology\<close>. SDL is
  outside: whether it starts, the events and the ticks of each frame, and the pixels that its renderer makes of
  the calls are parameters.
\<close>

section \<open>One frame\<close>

text \<open>The nodes that a packet of this frame reaches.\<close>

definition due_nodes :: "simulator \<Rightarrow> real \<Rightarrow> nat list option" where
  "due_nodes sim now = do {
    idxs \<leftarrow> traverse (\<lambda>p. node_idx_for_interface sim (fl_receiver p))
      (filter (\<lambda>p. fl_deliver p \<le> now) (filter fl_active (ck_in_flight (w_clock (si_world sim)))));
    Some (take SIMULATOR_MAX_NODES (map nat (filter (\<lambda>i. 0 \<le> i) idxs)))
  }"

fun poll_nodes :: "sender \<Rightarrow> real \<Rightarrow> simulator_node_entry list \<Rightarrow> world \<Rightarrow> world option" where
  "poll_nodes send now [] w = Some w"
| "poll_nodes send now (e # es) w =
    (case en_type e of
       SIM_NODE_ROUTER \<Rightarrow> do { n \<leftarrow> en_node e; w \<leftarrow> router_poll_arp send n now w; poll_nodes send now es w }
     | SIM_NODE_HOST \<Rightarrow> do { n \<leftarrow> en_node e; w \<leftarrow> host_poll_arp send n now w; poll_nodes send now es w }
     | SIM_NODE_SWITCH \<Rightarrow> poll_nodes send now es w)"

definition flash_nodes :: "real \<Rightarrow> nat list \<Rightarrow> app_state \<Rightarrow> app_state" where
  "flash_nodes now idxs s =
    s\<lparr>ap_flash_at := fold (\<lambda>i fl. if i < length (ap_gnodes s) then fl[i := now] else fl) idxs (ap_flash_at s)\<rparr>"

type_synonym frame = "sdl_event list \<times> nat"

definition gui_frame :: "window \<Rightarrow> frame \<Rightarrow> app_state \<Rightarrow> (draw_call list \<times> app_state) option" where
  "gui_frame wd f s = do {
    s \<leftarrow> handle_events wd (fst f) s;
    let (now, s) = gui_now s; send = ou_send (wd_outside wd) in do {
      due \<leftarrow> due_nodes (ap_sim s) now;
      w \<leftarrow> sim_clock_tick send now (ap_world s);
      w \<leftarrow> poll_nodes send now (si_nodes (ap_sim s)) w;
      render (snd f) (capture_stdout_drain (flash_nodes now due (set_world w s)))
    }
  }"

text \<open>The loop, until the window is closed or no more frames are given.\<close>

fun gui_loop :: "window \<Rightarrow> frame list \<Rightarrow> app_state \<Rightarrow> app_state option" where
  "gui_loop wd [] s = Some s"
| "gui_loop wd (f # fs) s = (if \<not> ap_running s then Some s else do { (calls, s) \<leftarrow> gui_frame wd f s; gui_loop wd fs s })"

section \<open>The window\<close>

definition zero_widget :: widget where
  "zero_widget = \<lparr>wg_bounds = sdl_rect 0 0 0 0, wg_hovered = False, wg_pressed = False\<rparr>"

definition zero_event :: event_entry where
  "zero_event = \<lparr>ev_kind = EV_NONE, ev_time = 0, ev_log_idx = 0, ev_node_idx = 0, ev_summary = []\<rparr>"

definition initial_state :: "cli_state \<Rightarrow> app_state" where
  "initial_state c = \<lparr>ap_cli = c, ap_gnodes = [], ap_glinks = [], ap_selected_idx = - 1, ap_hover_idx = - 1, ap_running = True,
     ap_needs_layout = True, ap_flash_at = replicate SIMULATOR_MAX_NODES 0, ap_log_lines = replicate LOG_LINES [], ap_log_head = 0,
     ap_log_count = 0, ap_log_scroll = 0, ap_log_partial = [], ap_input = [], ap_history = replicate HISTORY_LEN [],
     ap_history_count = 0, ap_history_idx = 0, ap_pipe = None, ap_terminal = [], ap_play = zero_widget, ap_step = zero_widget,
     ap_reset = zero_widget, ap_slider = zero_widget, ap_dragging = False, ap_hover_widget = WIDGET_NONE,
     ap_events = replicate EVENT_RING_CAP zero_event, ap_events_head = 0, ap_events_count = 0, ap_selected_event = - 1,
     ap_first_event_id = 0, ap_events_scroll = 0, ap_events_hover_row = - 1, ap_events_rect = sdl_rect 0 0 0 0,
     ap_detail_scroll = 0, ap_detail_rect = sdl_rect 0 0 0 0\<rparr>"

definition greeting :: "string list" where
  "greeting = [
    ''=== Magi System (GUI) ==='',
    ''Started PAUSED. PLAY runs sim, STEP >| advances 50ms.'',
    ''Toolbar: PAUSE/PLAY | STEP | RESET | speed slider (0.0625x..16x)'',
    ''Click an event row on the right to replay (jumps to + flashes the involved node).'',
    ''Keys: SPACE=pause/play, S=step, [/]=halve/double speed, 0=1x, F5=relayout.'',
    ''Try: H1 ping 10.0.0.5  |  topology  |  help'']"

text \<open>How far SDL comes, with its message when it fails, and whether a pipe can be made.\<close>

datatype sdl_start = Init_Failed string | Window_Failed string | Renderer_Failed string | Started bool

definition gui_open :: "bool \<Rightarrow> cli_state \<Rightarrow> app_state option" where
  "gui_open pipe_works c = do {
    s \<leftarrow> layout_nodes (initial_state c);
    let s = on_clock (\<lambda>c. sim_clock_set_paused True (sim_clock_set_realtime True c)) s;
        s = fold log_append_line greeting (capture_stdout_init pipe_works s)
    in Some (capture_stdout_drain s)
  }"

definition gui_close :: "app_state \<Rightarrow> app_state" where
  "gui_close s = on_clock (\<lambda>c. sim_clock_clear (sim_clock_set_realtime False (sim_clock_set_speed 1 (sim_clock_set_paused False c))))
     (capture_stdout_restore s)"

text \<open>The result of the call, what reached the terminal, and the state. \<open>None\<close> also when the window is still open after the frames.\<close>

definition gui_run :: "window \<Rightarrow> sdl_start \<Rightarrow> frame list \<Rightarrow> cli_state \<Rightarrow> (int \<times> string \<times> cli_state) option" where
  "gui_run wd start frames c =
    (case start of
       Init_Failed msg \<Rightarrow> Some (- 1, println (''SDL init failed: '' @ msg), c)
     | Window_Failed msg \<Rightarrow> Some (- 1, println (''SDL window failed: '' @ msg), c)
     | Renderer_Failed msg \<Rightarrow> Some (- 1, println (''SDL renderer failed: '' @ msg), c)
     | Started pipe_works \<Rightarrow> do {
         s \<leftarrow> gui_open pipe_works c;
         s \<leftarrow> gui_loop wd frames s;
         if ap_running s then None else let s = gui_close s in Some (0, ap_terminal s, ap_cli s)
       })"

text \<open>The program with its window.\<close>

definition main_window :: "window \<Rightarrow> sdl_start \<Rightarrow> frame list \<Rightarrow> string list \<Rightarrow> string \<Rightarrow> cli_state \<Rightarrow> (string \<times> cli_state) option" where
  "main_window wd start frames = main (wd_outside wd) (Some (\<lambda>c. map_option snd (gui_run wd start frames c)))"

section \<open>The exported picture\<close>

abbreviation EXPORT_W :: nat where "EXPORT_W \<equiv> 1280"
abbreviation EXPORT_H :: nat where "EXPORT_H \<equiv> 720"

text \<open>The three bytes of a pixel.\<close>

definition pixel_rgb :: "u32 \<Rightarrow> bytes" where
  "pixel_rgb pixel = [ucast (drop_bit 16 pixel AND 0xFF), ucast (drop_bit 8 pixel AND 0xFF), ucast (pixel AND 0xFF)]"

definition rgb_of_surface :: "nat \<Rightarrow> nat \<Rightarrow> (nat \<Rightarrow> nat \<Rightarrow> u32) \<Rightarrow> bytes" where
  "rgb_of_surface w h surface = concat (map (\<lambda>y. concat (map (\<lambda>x. pixel_rgb (surface y x)) [0..<w])) [0..<h])"

text \<open>
  SDL fails to make a picture, or gives the pixels for the calls; \<open>allocated\<close> is whether there is memory for the bytes of the picture. The
  result is whether the call succeeds, and the content of the file when one was opened.
\<close>

definition gui_export_topology ::
  "(draw_call list \<Rightarrow> (nat \<Rightarrow> nat \<Rightarrow> u32) option) \<Rightarrow> bool \<Rightarrow> png_outside \<Rightarrow> cli_state \<Rightarrow> (int \<times> bytes option) option" where
  "gui_export_topology renderer allocated po c = do {
    s \<leftarrow> layout_nodes ((initial_state c)\<lparr>ap_running := False, ap_selected_event := 0, ap_events_hover_row := 0\<rparr>);
    (calls, s) \<leftarrow> render_export s;
    Some (case renderer (calls @ [RenderPresent]) of
        None \<Rightarrow> (- 1, None)
      | Some surface \<Rightarrow>
          if \<not> allocated then (- 1, None)
          else let (saved, file) = png_save_rgb po (rgb_of_surface EXPORT_W EXPORT_H surface) EXPORT_W EXPORT_H
            in (if saved then 0 else - 1, file))
  }"

lemma length_surface: "length (rgb_of_surface w h surface) = h * (w * 3)"
proof -
  have row: "map length (map (\<lambda>x. pixel_rgb (f x)) [0..<w]) = replicate w 3" for f :: "nat \<Rightarrow> u32"
    by (rule nth_equalityI) (simp_all add: pixel_rgb_def)
  have "length (concat (map (\<lambda>x. pixel_rgb (f x)) [0..<w])) = w * 3" for f
    unfolding length_concat row by (simp only: sum_list_replicate of_nat_id)
  then have "map length (map (\<lambda>y. concat (map (\<lambda>x. pixel_rgb (surface y x)) [0..<w])) [0..<h]) = replicate h (w * 3)"
    by (intro nth_equalityI) simp_all
  then show ?thesis unfolding rgb_of_surface_def length_concat by (simp only: sum_list_replicate of_nat_id)
qed

lemma nth_blocks:
  assumes "\<And>x. x \<in> set xs \<Longrightarrow> length (f x) = n" "i < length xs" "k < n"
  shows "concat (map f xs) ! (i * n + k) = f (xs ! i) ! k"
  using assms
proof (induction xs arbitrary: i)
  case (Cons x xs)
  show ?case
  proof (cases i)
    case (Suc j)
    have "concat (map f xs) ! (j * n + k) = f (xs ! j) ! k"
      by (rule Cons.IH) (use Cons.prems Suc in auto)
    then show ?thesis using Cons.prems(1) [of x] Suc by (simp add: nth_append)
  qed (use Cons.prems in \<open>simp add: nth_append\<close>)
qed simp

lemma byte_of_pixel: "unat (ucast (v AND 0xFF) :: u8) = unat v mod 256" for v :: u32
proof -
  have ff: "(0xFF :: u32) = mask 8" by (simp add: mask_eq_exp_minus_1)
  have "(ucast (v AND 0xFF) :: u8) = ucast v" unfolding ff by (rule bit_word_eqI) (simp add: bit_simps)
  then show ?thesis by (simp add: unsigned_ucast_eq take_bit_eq_mod)
qed

lemma pixel_at:
  assumes "x < w" "y < h"
  shows "png_pixel (w, h, rgb_of_surface w h surface) x y =
    (unat (surface y x) div 65536 mod 256, unat (surface y x) div 256 mod 256, unat (surface y x) mod 256)"
proof -
  let ?row = "\<lambda>y. concat (map (\<lambda>x. pixel_rgb (surface y x)) [0..<w])"
  have three: "length (pixel_rgb v) = 3" for v by (simp add: pixel_rgb_def)
  have row: "length (?row y) = w * 3" for y
    unfolding length_concat by (simp add: comp_def three sum_list_triv)
  have at: "rgb_of_surface w h surface ! ((y * w + x) * 3 + k) = pixel_rgb (surface y x) ! k" if "k < 3" for k
  proof -
    have "x * 3 + k < w * 3" using assms(1) that by simp
    then have "concat (map ?row [0..<h]) ! (y * (w * 3) + (x * 3 + k)) = ?row ([0..<h] ! y) ! (x * 3 + k)"
      by (intro nth_blocks) (use row assms(2) in simp_all)
    also have "?row ([0..<h] ! y) ! (x * 3 + k) = pixel_rgb (surface ([0..<h] ! y) ([0..<w] ! x)) ! k"
      by (intro nth_blocks) (use three assms(1) that in simp_all)
    finally show ?thesis using assms by (simp add: rgb_of_surface_def algebra_simps)
  qed
  show ?thesis
    unfolding png_pixel_def using at [of 0] at [of 1] at [of 2]
    by (simp add: Let_def pixel_rgb_def byte_of_pixel drop_bit_eq_div unat_div)
qed

text \<open>A command line without a network.\<close>

definition blank_cli :: cli_state where
  "blank_cli = \<lparr>cl_sim = \<lparr>si_world = undefined\<lparr>w_clock := sim_clock_initial (\<lambda>k. (int k, 0))\<rparr>, si_nodes = [], si_link_count = 0,
     si_interfaces = [], si_next = 0, si_rand = 0\<rparr>, cl_files = (\<lambda>_. None)\<rparr>"

text \<open>C14. The exported picture. The export succeeds exactly when SDL makes a picture of the drawing calls, the file can be opened and the
  three buffers can be allocated; what the writes and the closing of the file return plays no part. When moreover every \<^verbatim>\<open>fwrite\<close> takes what it is
  given and closing the file loses nothing, then the file that is written is a PNG of 1280 by 720 pixels, with
  right chunk lengths and checksums by the definitions of the standards, and the red, green and blue that a reader finds for each column and row
  are the bits 16 to 23, 8 to 15 and 0 to 7 of the pixel that SDL made there.\<close>

theorem export_readable:
  assumes "layout_nodes ((initial_state c)\<lparr>ap_running := False, ap_selected_event := 0, ap_events_hover_row := 0\<rparr>) = Some s"
    and "render_export s = Some (calls, s')"
    and "gui_export_topology renderer allocated po c = Some (result, file)"
  shows "(result = 0 \<longleftrightarrow> renderer (calls @ [RenderPresent]) \<noteq> None \<and> allocated \<and> po_opens po \<and> po_raw po \<and> po_zdata po) \<and>
    (\<forall>surface. renderer (calls @ [RenderPresent]) = Some surface \<and> allocated \<and> undisturbed po \<longrightarrow>
      (\<exists>content picture. file = Some content \<and> png_read content = Some picture \<and> fst picture = 1280 \<and> fst (snd picture) = 720 \<and>
        (\<forall>x < 1280. \<forall>y < 720. png_pixel picture x y =
          (unat (surface y x) div 65536 mod 256, unat (surface y x) div 256 mod 256, unat (surface y x) mod 256))))"
proof
  have run: "(case renderer (calls @ [RenderPresent]) of None \<Rightarrow> (- 1, None)
      | Some surface \<Rightarrow> if \<not> allocated then (- 1, None)
          else let (saved, file) = png_save_rgb po (rgb_of_surface EXPORT_W EXPORT_H surface) EXPORT_W EXPORT_H
            in (if saved then 0 else - 1, file)) = (result, file)"
    using assms by (simp add: gui_export_topology_def)
  have "fst (png_save_rgb po pixels w h) \<longleftrightarrow> po_opens po \<and> po_raw po \<and> po_zdata po" for pixels w h
    by (simp add: png_save_rgb_def Let_def split: prod.split)
  then show "result = 0 \<longleftrightarrow> renderer (calls @ [RenderPresent]) \<noteq> None \<and> allocated \<and> po_opens po \<and> po_raw po \<and> po_zdata po"
    using run by (auto simp: case_prod_unfold Let_def split: option.splits if_splits)
  show "\<forall>surface. renderer (calls @ [RenderPresent]) = Some surface \<and> allocated \<and> undisturbed po \<longrightarrow>
      (\<exists>content picture. file = Some content \<and> png_read content = Some picture \<and> fst picture = 1280 \<and> fst (snd picture) = 720 \<and>
        (\<forall>x < 1280. \<forall>y < 720. png_pixel picture x y =
          (unat (surface y x) div 65536 mod 256, unat (surface y x) div 256 mod 256, unat (surface y x) mod 256)))"
  proof (intro allI impI, elim conjE)
    fix surface assume s: "renderer (calls @ [RenderPresent]) = Some surface" "allocated" "undisturbed po"
    let ?picture = "(EXPORT_W, EXPORT_H, rgb_of_surface EXPORT_W EXPORT_H surface)"
    obtain content where "png_save_rgb po (rgb_of_surface EXPORT_W EXPORT_H surface) EXPORT_W EXPORT_H = (True, Some content)"
        "png_read content = Some ?picture"
      using png_file [OF s(3) _ _ length_surface [of EXPORT_W EXPORT_H surface]] by auto
    moreover from this have "file = Some content" using run s(1,2) by simp
    ultimately show "\<exists>content picture. file = Some content \<and> png_read content = Some picture \<and> fst picture = 1280 \<and> fst (snd picture) = 720 \<and>
        (\<forall>x < 1280. \<forall>y < 720. png_pixel picture x y =
          (unat (surface y x) div 65536 mod 256, unat (surface y x) div 256 mod 256, unat (surface y x) mod 256))"
      by (intro exI [of _ content] exI [of _ ?picture]) (simp add: pixel_at)
  qed
qed

theorem export_readable_witness:
  "\<exists>content picture. gui_export_topology (\<lambda>_. Some (\<lambda>_ _. 0x00223344)) True
        \<lparr>po_opens = True, po_takes = \<lambda>_. None, po_raw = True, po_zdata = True, po_flushed = None\<rparr> blank_cli = Some (0, Some content) \<and>
      png_read content = Some picture \<and> png_pixel picture 7 700 = (0x22, 0x33, 0x44)"
proof -
  let ?renderer = "\<lambda>_ :: draw_call list. Some (\<lambda>_ _. 0x00223344 :: u32)"
  let ?po = "\<lparr>po_opens = True, po_takes = \<lambda>_. None, po_raw = True, po_zdata = True, po_flushed = None\<rparr>"
  obtain s where s: "layout_nodes ((initial_state blank_cli)\<lparr>ap_running := False, ap_selected_event := 0, ap_events_hover_row := 0\<rparr>) = Some s"
    by (simp add: layout_nodes_def initial_state_def blank_cli_def)
  obtain calls s' where r: "render_export s = Some (calls, s')"
    using s by (auto simp: layout_nodes_def render_export_def initial_state_def blank_cli_def)
  obtain result out where run: "gui_export_topology ?renderer True ?po blank_cli = Some (result, out)"
    using s r by (cases "png_save_rgb ?po (rgb_of_surface EXPORT_W EXPORT_H (\<lambda>_ _. 0x00223344)) EXPORT_W EXPORT_H")
      (simp add: gui_export_topology_def)
  have po: "undisturbed ?po" by (simp add: undisturbed_def)
  note e = export_readable [OF s r run]
  have "result = 0" using e by simp
  moreover obtain content picture where "out = Some content" "png_read content = Some picture"
      "\<forall>x < 1280. \<forall>y < 720. png_pixel picture x y = (0x22, 0x33, 0x44)"
    using conjunct2 [OF e, rule_format, OF conjI [OF refl conjI [OF TrueI po]]] by auto
  ultimately show ?thesis using run by (intro exI [of _ content] exI [of _ picture]) simp
qed

end
