(* ===== verification/Gui_Rings.thy ===== *)
theory Gui_Rings
  imports Gui
begin

text \<open>
  The arrays of the window and what they stand for: the events and the log lines that were ever recorded and
  the commands that were ever entered. Every step of the window keeps the correspondence.
\<close>

section \<open>The correspondence\<close>

definition ring_state :: "nat \<Rightarrow> 'a list \<Rightarrow> 'a list \<Rightarrow> nat \<Rightarrow> nat \<Rightarrow> bool" where
  "ring_state n all slots head count \<longleftrightarrow> recent n all slots \<and> head = length all mod n \<and> count = min n (length all)"

lemma ring_state_push:
  assumes "ring_state n all slots head count" "0 < n"
  shows "ring_state n (all @ [x]) (slots[head := x]) ((head + 1) mod n) (if count < n then count + 1 else count)"
  using assms recent_push [of n all slots x] by (auto simp: ring_state_def mod_Suc_eq)

lemma ring_bounds: "ring_state n all slots head count \<Longrightarrow> 0 < n \<Longrightarrow> length slots = n \<and> head < n \<and> count \<le> n"
  by (auto simp: ring_state_def recent_def)

text \<open>The events with their ring, and the numbering that goes on when old ones are dropped.\<close>

definition events_are :: "event_entry list \<Rightarrow> app_state \<Rightarrow> bool" where
  "events_are evs s \<longleftrightarrow> ring_state EVENT_RING_CAP evs (ap_events s) (ap_events_head s) (ap_events_count s) \<and>
     ap_first_event_id s = length evs - EVENT_RING_CAP \<and> (\<forall>e \<in> set evs. ev_kind e \<noteq> EV_NONE \<and> length (ev_summary e) < EVENT_SUMMARY_LEN)"

definition log_is :: "string list \<Rightarrow> app_state \<Rightarrow> bool" where
  "log_is ls s \<longleftrightarrow> ring_state LOG_LINES ls (ap_log_lines s) (ap_log_head s) (ap_log_count s) \<and>
     length (ap_log_partial s) < LOG_LINE_LEN \<and> (\<forall>l \<in> set ls. length l < LOG_LINE_LEN)"

definition commands_are :: "string list \<Rightarrow> app_state \<Rightarrow> bool" where
  "commands_are cmds s \<longleftrightarrow> recent HISTORY_LEN cmds (ap_history s) \<and> ap_history_count s = length cmds \<and>
     int (length cmds) - int HISTORY_LEN \<le> ap_history_idx s \<and> 0 \<le> ap_history_idx s \<and> ap_history_idx s \<le> int (length cmds) \<and>
     (\<forall>c \<in> set cmds. c \<noteq> [] \<and> length c < INPUT_BUF_LEN) \<and> length (ap_input s) < INPUT_BUF_LEN"

definition gui_holds :: "event_entry list \<Rightarrow> string list \<Rightarrow> app_state \<Rightarrow> bool" where
  "gui_holds evs cmds s \<longleftrightarrow> events_are evs s \<and> (\<exists>ls. log_is ls s) \<and> commands_are cmds s"

text \<open>Everything the correspondence reads.\<close>

definition rings :: "app_state \<Rightarrow> _" where
  "rings s = ((ap_events s, ap_events_head s, ap_events_count s, ap_first_event_id s),
     (ap_log_lines s, ap_log_head s, ap_log_count s, ap_log_partial s),
     (ap_history s, ap_history_count s, ap_history_idx s, ap_input s))"

lemma rings_eq:
  assumes "rings s' = rings s"
  shows "events_are evs s' = events_are evs s" "log_is ls s' = log_is ls s" "commands_are cmds s' = commands_are cmds s"
    "gui_holds evs cmds s' = gui_holds evs cmds s"
  using assms by (simp_all add: rings_def events_are_def log_is_def commands_are_def gui_holds_def)

lemma rings_world [simp]: "rings (set_world w s) = rings s" "rings (on_clock f s) = rings s" "rings (snd (gui_now s)) = rings s"
  by (simp_all add: rings_def set_world_def on_clock_def gui_now_def case_prod_unfold Let_def)

section \<open>One line\<close>

lemma set_world_simps [simp]:
  "ap_events (set_world w s) = ap_events s" "ap_events_head (set_world w s) = ap_events_head s"
  "ap_events_count (set_world w s) = ap_events_count s" "ap_first_event_id (set_world w s) = ap_first_event_id s"
  "ap_log_lines (set_world w s) = ap_log_lines s" "ap_log_head (set_world w s) = ap_log_head s"
  "ap_log_count (set_world w s) = ap_log_count s" "ap_log_partial (set_world w s) = ap_log_partial s"
  "ap_history (set_world w s) = ap_history s" "ap_history_count (set_world w s) = ap_history_count s"
  "ap_history_idx (set_world w s) = ap_history_idx s" "ap_input (set_world w s) = ap_input s" "ap_pipe (set_world w s) = ap_pipe s"
  "ap_gnodes (set_world w s) = ap_gnodes s" "ap_selected_event (set_world w s) = ap_selected_event s"
  by (simp_all add: set_world_def)

lemma event_push_cases:
  obtains "event_push line slot s = s"
  | e w where "ev_kind e \<noteq> EV_NONE" "length (ev_summary e) < EVENT_SUMMARY_LEN"
    "event_push line slot s = (set_world w s)\<lparr>ap_events := (ap_events s)[ap_events_head s := e],
      ap_events_head := (ap_events_head s + 1) mod EVENT_RING_CAP,
      ap_events_count := (if ap_events_count s < EVENT_RING_CAP then ap_events_count s + 1 else ap_events_count s),
      ap_first_event_id := (if ap_events_count s < EVENT_RING_CAP then ap_first_event_id s else ap_first_event_id s + 1)\<rparr>"
proof -
  obtain kind node summary where c: "classify_event (ap_sim s) line EVENT_SUMMARY_LEN = (kind, node, summary)" by (cases "classify_event (ap_sim s) line EVENT_SUMMARY_LEN")
  obtain t w where now: "now_ms (ap_world s) = (t, w)" by fastforce
  show thesis
  proof (cases "event_push line slot s = s")
    case False
    let ?e = "\<lparr>ev_kind = kind, ev_time = t, ev_log_idx = slot, ev_node_idx = node, ev_summary = snprintf_s EVENT_SUMMARY_LEN summary\<rparr>"
    have "kind \<noteq> EV_NONE" using False c by (auto simp: event_push_def)
    moreover have "event_push line slot s = (set_world w s)\<lparr>ap_events := (ap_events s)[ap_events_head s := ?e],
      ap_events_head := (ap_events_head s + 1) mod EVENT_RING_CAP,
      ap_events_count := (if ap_events_count s < EVENT_RING_CAP then ap_events_count s + 1 else ap_events_count s),
      ap_first_event_id := (if ap_events_count s < EVENT_RING_CAP then ap_first_event_id s else ap_first_event_id s + 1)\<rparr>"
      using False c now by (auto simp: event_push_def gui_now_def Let_def)
    ultimately show thesis by (intro that(2) [of ?e w]) (simp_all add: snprintf_s_def)
  qed (rule that(1))
qed

lemma event_push_holds:
  assumes "events_are evs s"
  obtains more where "events_are (evs @ more) (event_push line slot s)"
proof (cases rule: event_push_cases [of line slot s])
  case 1
  then show ?thesis using that [of "[]"] assms by simp
next
  case (2 e w)
  have "ring_state EVENT_RING_CAP (evs @ [e]) ((ap_events s)[ap_events_head s := e]) ((ap_events_head s + 1) mod EVENT_RING_CAP)
      (if ap_events_count s < EVENT_RING_CAP then ap_events_count s + 1 else ap_events_count s)"
    using assms by (intro ring_state_push) (simp_all add: events_are_def)
  moreover have "(if ap_events_count s < EVENT_RING_CAP then ap_first_event_id s else ap_first_event_id s + 1) = length (evs @ [e]) - EVENT_RING_CAP"
    using assms by (auto simp: events_are_def ring_state_def)
  ultimately have "events_are (evs @ [e]) (event_push line slot s)" using assms 2(1,2) unfolding 2(3) by (simp add: events_are_def)
  then show ?thesis by (rule that)
qed

lemma event_push_rest [simp]:
  "ap_log_lines (event_push line slot s) = ap_log_lines s" "ap_log_head (event_push line slot s) = ap_log_head s"
  "ap_log_count (event_push line slot s) = ap_log_count s" "ap_log_partial (event_push line slot s) = ap_log_partial s"
  "ap_history (event_push line slot s) = ap_history s" "ap_history_count (event_push line slot s) = ap_history_count s"
  "ap_history_idx (event_push line slot s) = ap_history_idx s" "ap_input (event_push line slot s) = ap_input s"
  "ap_pipe (event_push line slot s) = ap_pipe s" "ap_selected_event (event_push line slot s) = ap_selected_event s"
  by (cases rule: event_push_cases [of line slot s]; simp)+

lemma log_line_holds:
  assumes "gui_holds evs cmds s"
  obtains more where "gui_holds (evs @ more) cmds (log_append_line line s)"
    "ap_pipe (log_append_line line s) = ap_pipe s" "ap_selected_event (log_append_line line s) = ap_selected_event s"
proof -
  obtain ls where ls: "log_is ls s" using assms by (auto simp: gui_holds_def)
  define s1 where "s1 = s\<lparr>ap_log_lines := (ap_log_lines s)[ap_log_head s := snprintf_s LOG_LINE_LEN line], ap_log_head := (ap_log_head s + 1) mod LOG_LINES,
     ap_log_count := (if ap_log_count s < LOG_LINES then ap_log_count s + 1 else ap_log_count s)\<rparr>"
  have eq: "log_append_line line s = event_push line (ap_log_head s) s1" by (simp add: log_append_line_def s1_def Let_def)
  have e: "events_are evs s1" "commands_are cmds s1" using assms by (simp_all add: gui_holds_def s1_def events_are_def commands_are_def)
  have "ring_state LOG_LINES (ls @ [snprintf_s LOG_LINE_LEN line]) (ap_log_lines s1) (ap_log_head s1) (ap_log_count s1)"
    using ls ring_state_push [of LOG_LINES ls "ap_log_lines s" "ap_log_head s" "ap_log_count s" "snprintf_s LOG_LINE_LEN line"]
    by (simp add: log_is_def s1_def)
  then have l: "log_is (ls @ [snprintf_s LOG_LINE_LEN line]) s1" using ls by (auto simp: log_is_def s1_def snprintf_s_def)
  obtain more where m: "events_are (evs @ more) (log_append_line line s)" using event_push_holds [OF e(1)] unfolding eq by blast
  have "log_is (ls @ [snprintf_s LOG_LINE_LEN line]) (log_append_line line s)" "commands_are cmds (log_append_line line s)"
    using l e(2) unfolding eq by (simp_all add: log_is_def commands_are_def)
  then show ?thesis using m by (intro that [of more]) (auto simp: gui_holds_def eq s1_def)
qed

lemma partial_holds:
  assumes "gui_holds evs cmds s" "length p < LOG_LINE_LEN"
  shows "gui_holds evs cmds (s\<lparr>ap_log_partial := p\<rparr>)"
  using assms by (auto simp: gui_holds_def events_are_def log_is_def commands_are_def)

lemma log_char_holds:
  assumes "gui_holds evs cmds s"
  obtains more where "gui_holds (evs @ more) cmds (log_append_char c s)"
    "ap_pipe (log_append_char c s) = ap_pipe s" "ap_selected_event (log_append_char c s) = ap_selected_event s"
proof -
  obtain more where m: "gui_holds (evs @ more) cmds (log_append_line (c_string (ap_log_partial s)) s)"
    "ap_pipe (log_append_line (c_string (ap_log_partial s)) s) = ap_pipe s"
    "ap_selected_event (log_append_line (c_string (ap_log_partial s)) s) = ap_selected_event s"
    using log_line_holds [OF assms] by metis
  have len: "length (ap_log_partial s) < LOG_LINE_LEN" using assms by (auto simp: gui_holds_def log_is_def)
  define line p where "line = c_string (ap_log_partial s)" and "p = ap_log_partial s"
  note m = m [folded line_def]
  have eq: "log_append_char c s =
    (if c = CHR 0x0A then (log_append_line line s)\<lparr>ap_log_partial := []\<rparr>
     else if c = CHR 0x0D then s\<lparr>ap_log_partial := p\<rparr>
     else if c = CHR 0x09 then s\<lparr>ap_log_partial := p @ replicate (min 4 (LOG_LINE_LEN - 1 - length p)) CHR '' ''\<rparr>
     else if length p < LOG_LINE_LEN - 1 then s\<lparr>ap_log_partial := p @ [c]\<rparr>
     else (log_append_line line s)\<lparr>ap_log_partial := [c]\<rparr>)"
    unfolding log_append_char_def line_def p_def by simp
  consider p where "log_append_char c s = (log_append_line line s)\<lparr>ap_log_partial := p\<rparr>" "length p < LOG_LINE_LEN"
    | p where "log_append_char c s = s\<lparr>ap_log_partial := p\<rparr>" "length p < LOG_LINE_LEN"
  proof -
    define tab where "tab = p @ replicate (min 4 (LOG_LINE_LEN - 1 - length p)) CHR '' ''"
    have lens: "length p < LOG_LINE_LEN" "length tab < LOG_LINE_LEN" using len by (simp_all add: p_def tab_def)
    note eq = eq [folded tab_def]
    consider "c = CHR 0x0A" | "c \<noteq> CHR 0x0A" "c = CHR 0x0D" | "c \<noteq> CHR 0x0A" "c \<noteq> CHR 0x0D" "c = CHR 0x09"
      | "c \<noteq> CHR 0x0A" "c \<noteq> CHR 0x0D" "c \<noteq> CHR 0x09" by blast
    then show thesis
    proof cases
      case 1
      show ?thesis by (rule that(1) [of "[]"]) (simp_all only: eq if_P [OF 1], simp)
    next
      case 2
      show ?thesis by (rule that(2) [OF _ lens(1)]) (simp only: eq if_not_P [OF 2(1)] if_P [OF 2(2)])
    next
      case 3
      show ?thesis by (rule that(2) [OF _ lens(2)]) (simp only: eq if_not_P [OF 3(1)] if_not_P [OF 3(2)] if_P [OF 3(3)])
    next
      case 4
      note e = eq [unfolded if_not_P [OF 4(1)] if_not_P [OF 4(2)] if_not_P [OF 4(3)]]
      show ?thesis
      proof (cases "length p < LOG_LINE_LEN - 1")
        case True
        then have "length (p @ [c]) < LOG_LINE_LEN" by simp
        then show ?thesis by (intro that(2) [of "p @ [c]"]) (simp_all only: e if_P [OF True])
      next
        case False
        show ?thesis by (rule that(1) [of "[c]"]) (simp_all only: e if_not_P [OF False], simp)
      qed
    qed
  qed
  then show ?thesis
  proof cases
    case 1
    then show ?thesis using partial_holds [OF m(1)] m(2,3) by (intro that [of more]) simp_all
  next
    case 2
    then show ?thesis using partial_holds [OF assms] by (intro that [of "[]"]) simp_all
  qed
qed

lemma log_chars_holds:
  assumes "gui_holds evs cmds s"
  obtains more where "gui_holds (evs @ more) cmds (log_append_chars cs s)"
    "ap_pipe (log_append_chars cs s) = ap_pipe s" "ap_selected_event (log_append_chars cs s) = ap_selected_event s"
proof -
  have "\<exists>more. gui_holds (evs @ more) cmds (fold log_append_char cs s) \<and> ap_pipe (fold log_append_char cs s) = ap_pipe s \<and>
      ap_selected_event (fold log_append_char cs s) = ap_selected_event s"
    using assms
  proof (induction cs arbitrary: s evs)
    case Nil
    then show ?case by (intro exI [of _ "[]"]) simp
  next
    case (Cons c cs)
    obtain more where m: "gui_holds (evs @ more) cmds (log_append_char c s)" "ap_pipe (log_append_char c s) = ap_pipe s"
      "ap_selected_event (log_append_char c s) = ap_selected_event s" by (rule log_char_holds [OF Cons.prems])
    from Cons.IH [OF m(1)] m(2,3) show ?case by (metis append_assoc fold_simps(2))
  qed
  then show ?thesis using that unfolding log_append_chars_def by blast
qed

lemma drain_holds:
  assumes "gui_holds evs cmds s"
  obtains more where "gui_holds (evs @ more) cmds (capture_stdout_drain s)" "ap_selected_event (capture_stdout_drain s) = ap_selected_event s"
proof (cases "ap_pipe s")
  case None
  then show ?thesis using that [of "[]"] assms by (simp add: capture_stdout_drain_def)
next
  case (Some held)
  obtain more where m: "gui_holds (evs @ more) cmds (log_append_chars held s)" "ap_selected_event (log_append_chars held s) = ap_selected_event s"
    using log_chars_holds [OF assms] by metis
  have eq: "capture_stdout_drain s = (log_append_chars held s)\<lparr>ap_pipe := Some [], ap_terminal := ap_terminal s @ held\<rparr>"
    using Some by (simp add: capture_stdout_drain_def)
  have r: "rings (capture_stdout_drain s) = rings (log_append_chars held s)" unfolding eq by (simp add: rings_def)
  show ?thesis by (rule that [of more]) (use m rings_eq(4) [OF r] in \<open>simp_all add: eq\<close>)
qed

section \<open>The input line\<close>

lemma history_push_holds:
  assumes "gui_holds evs cmds s" "line \<noteq> []" "length line < INPUT_BUF_LEN"
  shows "gui_holds evs (cmds @ [line]) (history_push line s)" "ap_history_idx (history_push line s) = int (length cmds) + 1"
proof -
  have l: "snprintf_s INPUT_BUF_LEN line = line" using assms(3) by (simp add: snprintf_s_def)
  have "recent HISTORY_LEN (cmds @ [line]) ((ap_history s)[length cmds mod HISTORY_LEN := line])"
    using assms(1) by (intro recent_push) (simp_all add: gui_holds_def commands_are_def)
  then show "gui_holds evs (cmds @ [line]) (history_push line s)" "ap_history_idx (history_push line s) = int (length cmds) + 1"
    using assms l by (auto simp: history_push_def gui_holds_def commands_are_def events_are_def log_is_def Let_def)
qed

text \<open>Recalling puts the entry at the new position into the input line.\<close>

lemma history_recall_holds:
  fixes delta :: int
  assumes "gui_holds evs cmds s" "cmds \<noteq> []"
  defines "oldest \<equiv> max 0 (int (length cmds) - int HISTORY_LEN)"
  defines "i \<equiv> min (int (length cmds)) (max oldest (ap_history_idx s + delta))"
  shows "history_recall delta s = s\<lparr>ap_history_idx := i, ap_input := (if i = int (length cmds) then [] else cmds ! nat i)\<rparr>"
    "gui_holds evs cmds (history_recall delta s)"
proof -
  note h = assms(1) [unfolded gui_holds_def commands_are_def]
  have i: "oldest \<le> i" "i \<le> int (length cmds)" by (simp_all add: i_def oldest_def)
  have at: "snprintf_s INPUT_BUF_LEN (ap_history s ! (nat i mod HISTORY_LEN)) = cmds ! nat i" if "i \<noteq> int (length cmds)"
  proof -
    have "nat i < length cmds" "length cmds \<le> nat i + HISTORY_LEN" using that i by (auto simp: oldest_def)
    then have "ap_history s ! (nat i mod HISTORY_LEN) = cmds ! nat i" "length (cmds ! nat i) < INPUT_BUF_LEN" using h recent_at by auto
    then show ?thesis by (simp add: snprintf_s_def)
  qed
  have idx: "recall_index s delta = i" using h by (simp add: recall_index_def i_def oldest_def Let_def max_def min_def)
  show e: "history_recall delta s = s\<lparr>ap_history_idx := i, ap_input := (if i = int (length cmds) then [] else cmds ! nat i)\<rparr>"
  proof (cases "i = int (length cmds)")
    case True
    then show ?thesis using h assms(2) unfolding history_recall_def idx Let_def by simp
  next
    case False
    have "history_recall delta s = s\<lparr>ap_history_idx := i, ap_input := snprintf_s INPUT_BUF_LEN (ap_history s ! (nat i mod HISTORY_LEN))\<rparr>"
      using h assms(2) False unfolding history_recall_def idx Let_def by simp
    then show ?thesis unfolding at [OF False] using False by simp
  qed
  have "length (cmds ! nat i) < INPUT_BUF_LEN" if "i \<noteq> int (length cmds)" using that i h by (auto simp: oldest_def)
  then show "gui_holds evs cmds (history_recall delta s)"
    using assms(1) i unfolding e by (auto simp: gui_holds_def commands_are_def events_are_def log_is_def oldest_def)
qed

lemma history_empty: "gui_holds evs [] s \<Longrightarrow> history_recall delta s = s"
  by (simp add: gui_holds_def commands_are_def history_recall_def)

lemma input_holds: "gui_holds evs cmds s \<Longrightarrow> length line < INPUT_BUF_LEN \<Longrightarrow> gui_holds evs cmds (s\<lparr>ap_input := line\<rparr>)"
  by (auto simp: gui_holds_def commands_are_def events_are_def log_is_def)

lemma dispatch_holds:
  assumes "gui_holds evs cmds s" "cli_dispatch wd s = Some s'"
  obtains more where "gui_holds (evs @ more) (cmds @ (if ap_input s = [] then [] else [ap_input s])) s'"
proof (cases "ap_input s = []")
  case True
  then show ?thesis using that [of "[]"] assms by (simp add: cli_dispatch_def)
next
  case False
  define s1 where "s1 = history_push (ap_input s) s"
  have in_len: "length (ap_input s) < INPUT_BUF_LEN" using assms(1) by (simp add: gui_holds_def commands_are_def)
  have h1: "gui_holds evs (cmds @ [ap_input s]) s1" unfolding s1_def by (rule history_push_holds [OF assms(1) False in_len])
  have input: "ap_input s1 = ap_input s" by (simp add: s1_def history_push_def Let_def)
  define s2 where "s2 = log_append_line (snprintf_s (INPUT_BUF_LEN + 8) (''magi> '' @ ap_input s1)) s1"
  obtain more where h2: "gui_holds (evs @ more) (cmds @ [ap_input s]) s2" using log_line_holds [OF h1] unfolding s2_def by metis
  obtain keep out c s3 where run: "process (wd_outside wd) (snprintf_s INPUT_BUF_LEN (ap_input s2)) (ap_cli s2) = Some (keep, out, c)"
    "write_stdout wd out (s2\<lparr>ap_cli := c\<rparr>) = Some s3"
    "s' = (capture_stdout_drain (if keep then s3 else s3\<lparr>ap_running := False\<rparr>))\<lparr>ap_needs_layout := True, ap_input := [], ap_log_scroll := 0\<rparr>"
    using assms(2) False unfolding cli_dispatch_def s2_def s1_def by (auto simp: bind_eq_Some_conv Let_def)
  let ?s4 = "if keep then s3 else s3\<lparr>ap_running := False\<rparr>"
  have "rings ?s4 = rings s2" using run(2) by (auto simp: write_stdout_def rings_def split: option.splits if_splits)
  then have h4: "gui_holds (evs @ more) (cmds @ [ap_input s]) ?s4" using rings_eq(4) h2 by blast
  obtain more2 where h5: "gui_holds ((evs @ more) @ more2) (cmds @ [ap_input s]) (capture_stdout_drain ?s4)" using drain_holds [OF h4] by metis
  have r: "rings s' = rings ((capture_stdout_drain ?s4)\<lparr>ap_input := []\<rparr>)" unfolding run(3) by (simp add: rings_def)
  have "gui_holds ((evs @ more) @ more2) (cmds @ [ap_input s]) s'" unfolding rings_eq(4) [OF r] by (rule input_holds [OF h5]) simp
  then show ?thesis using False by (intro that [of "more @ more2"]) simp
qed

end
