(* ===== verification/Gui_Session.thy ===== *)
theory Gui_Session
  imports Gui_Rings
begin

text \<open>
  Whole sessions of the window: what every event and every frame keeps, and what the user finds: the lines that
  were entered, the events that were recorded, the buttons where they are drawn.
\<close>

section \<open>Events and frames\<close>

lemma rings_pause [simp]: "rings (pause s) = rings s" "rings (toggle_paused s) = rings s" "rings (single_step s) = rings s"
  "rings (apply_slider_at_x mx s) = rings s"
  by (simp_all add: pause_def toggle_paused_def single_step_def apply_slider_at_x_def Let_def)

lemma rings_activate [simp]: "rings (events_activate_row row s) = rings s"
proof -
  have "rings (s\<lparr>ap_selected_event := x\<rparr>) = rings s" "rings (s\<lparr>ap_flash_at := f, ap_selected_idx := x\<rparr>) = rings s" for s x f by (simp_all add: rings_def)
  then show ?thesis by (simp add: events_activate_row_def Let_def case_prod_unfold)
qed

lemma rings_press [simp]: "rings (press_widget wid mx s) = rings s"
proof -
  have w: "rings (s\<lparr>ap_play := p\<rparr>) = rings s" "rings (s\<lparr>ap_step := p\<rparr>) = rings s" "rings (s\<lparr>ap_needs_layout := b, ap_reset := p\<rparr>) = rings s"
    "rings (s\<lparr>ap_dragging := b\<rparr>) = rings s" for s p b by (simp_all add: rings_def)
  show ?thesis by (cases wid) (simp_all add: press_widget_def Let_def w)
qed

lemma rings_mouse [simp]: "rings (mouse_motion mx my s) = rings s" "rings (mouse_button_down lmb mx my s) = rings s"
  "rings (mouse_button_up s) = rings s" "rings (mouse_wheel dy mx my s) = rings s"
proof -
  have w: "rings (s\<lparr>ap_hover_widget := x\<rparr>) = rings s" for s x by (simp add: rings_def)
  have "rings (apply_slider_at_x mx s) = rings s" by simp
  then show "rings (mouse_motion mx my s) = rings s" by (simp add: mouse_motion_def Let_def w) (simp add: rings_def)
  have "rings (s\<lparr>ap_selected_idx := x\<rparr>) = rings s" for x by (simp add: rings_def)
  then show "rings (mouse_button_down lmb mx my s) = rings s" by (simp add: mouse_button_down_def Let_def)
  show "rings (mouse_button_up s) = rings s" "rings (mouse_wheel dy mx my s) = rings s" by (simp_all add: mouse_button_up_def mouse_wheel_def rings_def)
qed

text \<open>The lines that the user enters: what stands in the input line whenever a return key is pressed and it is not empty.\<close>

definition entered_by :: "sdl_event \<Rightarrow> app_state \<Rightarrow> string list" where
  "entered_by e s =
    (case e of
       SDL_KEYDOWN k ctrl \<Rightarrow> if (k = SDLK_RETURN \<or> k = SDLK_KP_ENTER) \<and> ap_input s \<noteq> [] then [ap_input s] else []
     | _ \<Rightarrow> [])"

fun lines_of_events :: "window \<Rightarrow> sdl_event list \<Rightarrow> app_state \<Rightarrow> string list" where
  "lines_of_events wd [] s = []"
| "lines_of_events wd (e # es) s =
    entered_by e s @ (case handle_event wd e s of None \<Rightarrow> [] | Some s \<Rightarrow> lines_of_events wd es s)"

fun lines_of_frames :: "window \<Rightarrow> frame list \<Rightarrow> app_state \<Rightarrow> string list" where
  "lines_of_frames wd [] s = []"
| "lines_of_frames wd (f # fs) s =
    (if \<not> ap_running s then []
     else lines_of_events wd (fst f) s @ (case gui_frame wd f s of None \<Rightarrow> [] | Some (_, s) \<Rightarrow> lines_of_frames wd fs s))"

lemma key_holds:
  assumes "gui_holds evs cmds s" "key_down wd k ctrl s = Some s'"
  obtains more where "gui_holds (evs @ more) (cmds @ entered_by (SDL_KEYDOWN k ctrl) s) s'"
proof (cases "k = SDLK_RETURN \<or> k = SDLK_KP_ENTER")
  case True
  then have "cli_dispatch wd s = Some s'" using assms(2) by (auto simp: key_down_def)
  then obtain more where "gui_holds (evs @ more) (cmds @ (if ap_input s = [] then [] else [ap_input s])) s'"
    using dispatch_holds [OF assms(1)] by blast
  moreover have "(if ap_input s = [] then [] else [ap_input s]) = entered_by (SDL_KEYDOWN k ctrl) s" using True by (simp add: entered_by_def)
  ultimately show ?thesis using that by simp
next
  case False
  have in_len: "length (ap_input s) < INPUT_BUF_LEN" using assms(1) by (simp add: gui_holds_def commands_are_def)
  have clear: "gui_holds evs cmds (s\<lparr>ap_log_count := 0, ap_log_head := 0, ap_log_partial := [], ap_log_scroll := 0\<rparr>)"
  proof -
    have "log_is [] (s\<lparr>ap_log_count := 0, ap_log_head := 0, ap_log_partial := [], ap_log_scroll := 0\<rparr>)"
      using assms(1) by (auto simp: gui_holds_def log_is_def ring_state_def recent_def)
    then show ?thesis using assms(1) by (auto simp: gui_holds_def events_are_def commands_are_def)
  qed
  have recall: "gui_holds evs cmds (history_recall d s)" for d
    using history_recall_holds(2) [OF assms(1)] history_empty [of evs s d] assms(1) by (cases "cmds = []") auto
  have same: "gui_holds evs cmds s''" if "rings s'' = rings s" for s'' using assms(1) rings_eq(4) [OF that] by simp
  note def = assms(2) [unfolded key_down_def if_not_P [OF False]]
  consider "k = SDLK_ESCAPE" | "k = SDLK_BACKSPACE" | "ctrl" "k = SDLK_u" | "ctrl" "k = SDLK_l" | "k = SDLK_UP" | "k = SDLK_DOWN"
    | "k = SDLK_PAGEUP \<or> k = SDLK_PAGEDOWN \<or> k = SDLK_F5" | "rings s' = rings s"
  proof (cases k)
    case SDLK_u
    then show thesis using that(3,8) def by (cases ctrl) simp_all
  next
    case SDLK_l
    then show thesis using that(4,8) def by (cases ctrl) simp_all
  next
    case SDLK_SPACE
    then show thesis using that(8) def by (cases "ap_input s = []") auto
  next
    case SDLK_s
    then show thesis using that(8) def by (cases "ap_input s = []") auto
  next
    case SDLK_0
    then show thesis using that(8) def by (cases "ap_input s = []") auto
  qed (use False def that in auto)
  then have "gui_holds evs cmds s'"
  proof cases
    case 1
    then have "rings s' = rings s" using def by (simp add: rings_def) force
    then show ?thesis by (rule same)
  next
    case 2
    then show ?thesis using def in_len input_holds [OF assms(1), of "butlast (ap_input s)"] by simp
  next
    case 3
    then show ?thesis using def input_holds [OF assms(1), of "[]"] by simp
  next
    case 4
    then show ?thesis using def clear by simp
  next
    case 5
    then show ?thesis using def recall [of "- 1"] by simp
  next
    case 6
    then show ?thesis using def recall [of 1] by simp
  next
    case 7
    have "rings (s\<lparr>ap_log_scroll := x\<rparr>) = rings s" "rings (s\<lparr>ap_needs_layout := True\<rparr>) = rings s" for x by (simp_all add: rings_def)
    then have "rings s' = rings s" using 7 def by auto
    then show ?thesis by (rule same)
  qed (rule same)
  moreover have "entered_by (SDL_KEYDOWN k ctrl) s = []" using False by (auto simp: entered_by_def)
  ultimately show ?thesis using that [of "[]"] by simp
qed

lemma event_holds:
  assumes "gui_holds evs cmds s" "handle_event wd e s = Some s'"
  obtains more where "gui_holds (evs @ more) (cmds @ entered_by e s) s'"
proof (cases "\<exists>k ctrl. e = SDL_KEYDOWN k ctrl")
  case True
  then obtain k ctrl where k: "e = SDL_KEYDOWN k ctrl" "key_down wd k ctrl s = Some s'" using assms(2) by auto
  show ?thesis by (rule key_holds [OF assms(1) k(2)]) (rule that [unfolded k(1)])
next
  case False
  have "gui_holds evs cmds s'"
  proof (cases "\<exists>t. e = SDL_TEXTINPUT t")
    case True
    then obtain t where s': "s' = text_input t s" using assms(2) by auto
    show ?thesis using input_holds [OF assms(1), of "ap_input s @ t"] assms(1)
      by (cases "length (ap_input s) + length t < INPUT_BUF_LEN - 1") (simp_all add: s' text_input_def)
  next
    case 2: False
    have "rings s' = rings s"
    proof (cases e)
      case SDL_QUIT
      then have "s' = s\<lparr>ap_running := False\<rparr>" using assms(2) by simp
      then show ?thesis by (simp add: rings_def)
    next
      case (SDL_TEXTINPUT t)
      then show ?thesis using 2 by simp
    next
      case (SDL_KEYDOWN k ctrl)
      then show ?thesis using False by simp
    qed (use assms(2) in auto)
    then show ?thesis using assms(1) rings_eq(4) by blast
  qed
  moreover have "entered_by e s = []" using False by (cases e) (auto simp: entered_by_def)
  ultimately show ?thesis using that [of "[]"] by simp
qed

lemma events_hold:
  assumes "gui_holds evs cmds s" "handle_events wd es s = Some s'"
  obtains more where "gui_holds (evs @ more) (cmds @ lines_of_events wd es s) s'"
proof -
  have "\<exists>more. gui_holds (evs @ more) (cmds @ lines_of_events wd es s) s'"
    using assms
  proof (induction es arbitrary: s evs cmds)
    case Nil
    then show ?case by (intro exI [of _ "[]"]) simp
  next
    case (Cons e es)
    obtain s1 where s1: "handle_event wd e s = Some s1" "handle_events wd es s1 = Some s'" using Cons.prems(2) by (auto simp: bind_eq_Some_conv)
    obtain more where h: "gui_holds (evs @ more) (cmds @ entered_by e s) s1" by (rule event_holds [OF Cons.prems(1) s1(1)])
    obtain more2 where "gui_holds ((evs @ more) @ more2) ((cmds @ entered_by e s) @ lines_of_events wd es s1) s'"
      using Cons.IH [OF h s1(2)] by blast
    then show ?case using s1(1) by (intro exI [of _ "more @ more2"]) simp
  qed
  then show ?thesis using that by blast
qed

lemma rings_layout: "layout_nodes s = Some s' \<Longrightarrow> rings s' = rings s"
  by (auto simp: layout_nodes_def rings_def bind_eq_Some_conv Let_def split: if_splits)

lemma rings_render:
  assumes "render ticks s = Some (calls, s')"
  shows "rings s' = rings s"
proof (cases "si_nodes (ap_sim s) = []")
  case True
  then show ?thesis using assms by (simp add: render_def)
next
  case False
  obtain s1 net s2 det s3 where r: "(if ap_needs_layout s then layout_nodes s else Some s) = Some s1" "render_network s1 = Some (net, s2)"
    "render_detail (snd (render_toolbar s2)) = Some (det, s3)" "s' = snd (render_events s3)"
    using assms False by (auto simp: render_def bind_eq_Some_conv case_prod_unfold Let_def)
  have "rings s1 = rings s" using r(1) rings_layout by (auto split: if_splits)
  moreover have "rings s2 = rings s1" using r(2) rings_world(3) [of s1] by (auto simp: render_network_def bind_eq_Some_conv case_prod_unfold Let_def)
  moreover have "rings (snd (render_toolbar s2)) = rings s2" by (simp add: render_toolbar_def place_widgets_def rings_def Let_def)
  moreover have "rings s3 = rings (snd (render_toolbar s2))"
    using r(3) by (auto simp: render_detail_def rings_def bind_eq_Some_conv Let_def split: if_splits)
  moreover have "rings s' = rings s3" unfolding r(4) by (simp add: render_events_def rings_def Let_def)
  ultimately show ?thesis by simp
qed

lemma frame_holds:
  assumes "gui_holds evs cmds s" "gui_frame wd f s = Some (calls, s')"
  obtains more where "gui_holds (evs @ more) (cmds @ lines_of_events wd (fst f) s) s'"
proof -
  obtain s1 due w where r: "handle_events wd (fst f) s = Some s1"
    "render (snd f) (capture_stdout_drain (flash_nodes (fst (gui_now s1)) due (set_world w (snd (gui_now s1))))) = Some (calls, s')"
    using assms(2) by (auto simp: gui_frame_def bind_eq_Some_conv case_prod_unfold Let_def)
  obtain more where h1: "gui_holds (evs @ more) (cmds @ lines_of_events wd (fst f) s) s1" by (rule events_hold [OF assms(1) r(1)])
  let ?s2 = "flash_nodes (fst (gui_now s1)) due (set_world w (snd (gui_now s1)))"
  have "rings ?s2 = rings (set_world w (snd (gui_now s1)))" by (simp add: flash_nodes_def rings_def)
  then have h2: "gui_holds (evs @ more) (cmds @ lines_of_events wd (fst f) s) ?s2" using h1 rings_eq(4) by (metis rings_world(1,3))
  obtain more2 where h3: "gui_holds ((evs @ more) @ more2) (cmds @ lines_of_events wd (fst f) s) (capture_stdout_drain ?s2)" using drain_holds [OF h2] by metis
  have "gui_holds ((evs @ more) @ more2) (cmds @ lines_of_events wd (fst f) s) s'" using h3 rings_eq(4) [OF rings_render [OF r(2)]] by simp
  then show ?thesis using that [of "more @ more2"] by simp
qed

lemma loop_holds:
  assumes "gui_holds evs cmds s" "gui_loop wd fs s = Some s'"
  obtains more where "gui_holds (evs @ more) (cmds @ lines_of_frames wd fs s) s'"
proof -
  have "\<exists>more. gui_holds (evs @ more) (cmds @ lines_of_frames wd fs s) s'"
    using assms
  proof (induction fs arbitrary: s evs cmds)
    case Nil
    then show ?case by (intro exI [of _ "[]"]) simp
  next
    case (Cons f fs)
    show ?case
    proof (cases "ap_running s")
      case True
      then obtain calls s1 where s1: "gui_frame wd f s = Some (calls, s1)" "gui_loop wd fs s1 = Some s'"
        using Cons.prems(2) by (auto simp: bind_eq_Some_conv)
      obtain more where h: "gui_holds (evs @ more) (cmds @ lines_of_events wd (fst f) s) s1" by (rule frame_holds [OF Cons.prems(1) s1(1)])
      obtain more2 where "gui_holds ((evs @ more) @ more2) ((cmds @ lines_of_events wd (fst f) s) @ lines_of_frames wd fs s1) s'"
        using Cons.IH [OF h s1(2)] by blast
      then show ?thesis using s1(1) True by (intro exI [of _ "more @ more2"]) simp
    next
      case False
      then have "s' = s" using Cons.prems(2) by simp
      then have "gui_holds (evs @ []) (cmds @ lines_of_frames wd (f # fs) s) s'" using Cons.prems(1) False by simp
      then show ?thesis by blast
    qed
  qed
  then show ?thesis using that by blast
qed

lemma open_holds:
  assumes "gui_open pipe_works c = Some s"
  obtains evs where "gui_holds evs [] s"
proof -
  obtain s0 where s0: "layout_nodes (initial_state c) = Some s0" using assms by (auto simp: gui_open_def bind_eq_Some_conv Let_def)
  have "ring_state n [] (replicate n x) 0 0" for n and x :: 'a by (simp add: ring_state_def)
  then have "gui_holds [] [] (initial_state c)"
    by (auto simp: gui_holds_def events_are_def log_is_def commands_are_def initial_state_def ring_state_def intro!: exI [of _ "[]"])
  then have h0: "gui_holds [] [] s0" using rings_eq(4) [OF rings_layout [OF s0]] by simp
  let ?s1 = "capture_stdout_init pipe_works (on_clock (\<lambda>c. sim_clock_set_paused True (sim_clock_set_realtime True c)) s0)"
  have "rings ?s1 = rings s0" 
  proof -
    have "rings (capture_stdout_init pipe_works t) = rings t" for t by (simp add: capture_stdout_init_def rings_def)
    then show ?thesis using rings_world(2) by simp
  qed
  then have "gui_holds [] [] ?s1" using h0 rings_eq(4) by blast
  then have "\<exists>evs. gui_holds evs [] (fold log_append_line ls ?s1)" for ls
  proof (induction ls rule: rev_induct)
    case (snoc l ls)
    then show ?case using log_line_holds by (metis fold_append fold_simps comp_apply)
  next
    case Nil
    have "gui_holds [] [] (fold log_append_line [] ?s1)" using \<open>gui_holds [] [] ?s1\<close> by simp
    then show ?case by (rule exI)
  qed
  then obtain evs where h2: "gui_holds evs [] (fold log_append_line greeting ?s1)" by blast
  have "s = capture_stdout_drain (fold log_append_line greeting ?s1)" using assms s0 by (simp add: gui_open_def Let_def)
  then show ?thesis using drain_holds [OF h2] that by metis
qed

end
