(* ===== verification/Gui_Usage.thy ===== *)
theory Gui_Usage
  imports Gui_Session
begin

text \<open>
  What the user of the window finds: the lines that were entered when they are recalled, the events that were
  recorded where they were clicked, and the lists of the window as the last entries of all that was ever recorded.
\<close>

section \<open>A reachable window\<close>

lemma reached:
  assumes "gui_open pipe_works c = Some s0" "gui_loop wd frames s0 = Some s"
  obtains evs cmds where "gui_holds evs cmds s"
proof -
  obtain evs where h: "gui_holds evs [] s0" by (rule open_holds [OF assms(1)])
  show ?thesis by (rule loop_holds [OF h assms(2)]) (rule that)
qed

lemma event_at:
  assumes "gui_holds evs cmds s" "0 \<le> back" "back < int (ap_events_count s)"
  shows "ap_events s ! event_slot s back = evs ! (length evs - 1 - nat back)" "nat back < length evs"
    "int (ap_first_event_id s) + int (ap_events_count s) - 1 - back = int (length evs - 1 - nat back)"
proof -
  note h = assms(1) [unfolded gui_holds_def events_are_def ring_state_def]
  have n: "nat back < length evs" "nat back < EVENT_RING_CAP" using assms(2,3) h by auto
  then show "nat back < length evs" "int (ap_first_event_id s) + int (ap_events_count s) - 1 - back = int (length evs - 1 - nat back)"
    using h assms(2) by auto
  let ?k = "length evs - 1 - nat back"
  have "(int (length evs mod EVENT_RING_CAP) - 1 - back + int EVENT_RING_CAP * 2) mod int EVENT_RING_CAP = int ?k mod int EVENT_RING_CAP"
  proof -
    have k: "int ?k = int (length evs) - 1 - back" using n assms(2) by simp
    have "(int (length evs) mod m - 1 - back + m * 2) mod m = (int (length evs) - 1 - back) mod m" for m :: int
    proof -
      have "(int (length evs) mod m - 1 - back + m * 2) mod m = (int (length evs) mod m - (1 + back)) mod m" unfolding diff_diff_eq by simp
      also have "\<dots> = (int (length evs) - (1 + back)) mod m" by (rule mod_diff_left_eq)
      finally show ?thesis unfolding diff_diff_eq .
    qed
    then show ?thesis unfolding k by (simp only: zmod_int)
  qed
  then have "event_slot s back = nat (int ?k mod int EVENT_RING_CAP)" using h by (simp only: event_slot_def)
  then have "event_slot s back = ?k mod EVENT_RING_CAP" by (simp only: zmod_int [symmetric] nat_int)
  moreover have "ap_events s ! (?k mod EVENT_RING_CAP) = evs ! ?k" by (rule recent_at) (use h n in auto)
  ultimately show "ap_events s ! event_slot s back = evs ! ?k" by simp
qed

section \<open>A window without a network\<close>

text \<open>Where the frames can be followed by hand: no nodes, and no packet under way.\<close>

definition blank_window :: window where
  "blank_window = \<lparr>wd_outside = \<lparr>ou_send = net_send 8, ou_rnd = (\<lambda>_. 0), ou_writable = (\<lambda>_. True), ou_debug = (\<lambda>_ s. Some ([], s)),
     ou_export = None\<rparr>, wd_capacity = 65536\<rparr>"

definition quiet :: "app_state \<Rightarrow> bool" where
  "quiet s \<longleftrightarrow> si_nodes (ap_sim s) = [] \<and> ck_in_flight (w_clock (ap_world s)) = replicate SIM_INFLIGHT_MAX empty_slot"

lemma quiet_steps [simp]:
  "quiet (snd (gui_now s)) = quiet s" "quiet (log_append_line line s) = quiet s"
  "quiet (on_clock (\<lambda>c. sim_clock_set_paused True (sim_clock_set_realtime True c)) s) = quiet s"
proof -
  show now: "quiet (snd (gui_now s)) = quiet s" for s by (simp add: quiet_def gui_now_def set_world_def now_ms_def case_prod_unfold Let_def)
  have "quiet (s\<lparr>ap_events := es, ap_events_head := h\<rparr>) = quiet s" "quiet (s\<lparr>ap_events_count := n\<rparr>) = quiet s"
    "quiet (s\<lparr>ap_first_event_id := n\<rparr>) = quiet s" for s es h n by (simp_all add: quiet_def)
  then have push: "quiet (event_push line slot s) = quiet s" for line slot s
    using now by (simp add: event_push_def case_prod_unfold Let_def)
  have "quiet (s\<lparr>ap_log_lines := ls, ap_log_head := h\<rparr>) = quiet s" "quiet (s\<lparr>ap_log_count := n\<rparr>) = quiet s" for s ls h n
    by (simp_all add: quiet_def)
  then show "quiet (log_append_line line s) = quiet s" by (simp add: log_append_line_def Let_def push)
  show "quiet (on_clock (\<lambda>c. sim_clock_set_paused True (sim_clock_set_realtime True c)) s) = quiet s"
    by (simp add: quiet_def on_clock_def set_world_def sim_clock_set_paused_def sim_clock_set_realtime_def case_prod_unfold Let_def)
qed

lemma running_append [simp]: "ap_running (log_append_line line s) = ap_running s" "ap_input (log_append_line line s) = ap_input s"
  "ap_pipe (log_append_line line s) = ap_pipe s"
  by (simp_all add: log_append_line_def event_push_def gui_now_def set_world_def case_prod_unfold Let_def)

lemma blank_opens:
  obtains s0 where "gui_open False blank_cli = Some s0" "quiet s0" "ap_running s0" "ap_input s0 = []" "ap_pipe s0 = None"
    "s0 = fold log_append_line greeting (capture_stdout_init False
      (on_clock (\<lambda>c. sim_clock_set_paused True (sim_clock_set_realtime True c)) (initial_state blank_cli)))"
proof -
  let ?s = "capture_stdout_init False (on_clock (\<lambda>c. sim_clock_set_paused True (sim_clock_set_realtime True c)) (initial_state blank_cli))"
  have "quiet (t\<lparr>ap_pipe := p\<rparr>) = quiet t" for t p by (simp add: quiet_def)
  then have "quiet ?s" by (simp add: capture_stdout_init_def) (simp add: quiet_def initial_state_def blank_cli_def sim_clock_initial_def)
  moreover have "ap_running ?s" "ap_input ?s = []" "ap_pipe ?s = None"
    by (simp_all add: capture_stdout_init_def on_clock_def set_world_def initial_state_def)
  moreover have "quiet (fold log_append_line ls t) = quiet t \<and> ap_running (fold log_append_line ls t) = ap_running t \<and>
      ap_input (fold log_append_line ls t) = ap_input t \<and> ap_pipe (fold log_append_line ls t) = ap_pipe t" for ls t
    by (induction ls arbitrary: t) simp_all
  ultimately have f: "quiet (fold log_append_line ls ?s) \<and> ap_running (fold log_append_line ls ?s) \<and> ap_input (fold log_append_line ls ?s) = [] \<and>
      ap_pipe (fold log_append_line ls ?s) = None" for ls by simp
  have "layout_nodes (initial_state blank_cli) = Some (initial_state blank_cli)" by (simp add: layout_nodes_def initial_state_def blank_cli_def)
  then have "gui_open False blank_cli = Some (fold log_append_line greeting ?s)"
    using f [of greeting] by (simp add: gui_open_def capture_stdout_drain_def del: fold_simps)
  then show ?thesis using f [of greeting] that by blast
qed

lemma quiet_frame:
  assumes "handle_events wd es s = Some s1" "quiet s1" "ap_pipe s1 = None"
  obtains calls s2 where "gui_frame wd (es, ticks) s = Some (calls, s2)" "quiet s2" "ap_pipe s2 = None" "ap_input s2 = ap_input s1"
    "ap_running s2 = ap_running s1" "rings s2 = rings s1"
proof -
  let ?n = "snd (gui_now s1)"
  have n: "quiet ?n" using assms(2) by simp
  have idle: "tick_slots deliver now is w = Some w" if "ck_in_flight (w_clock w) = replicate SIM_INFLIGHT_MAX empty_slot" "\<forall>i \<in> set is. i < SIM_INFLIGHT_MAX"
    for deliver now "is" and w :: world
    using that by (induction "is") (simp_all add: take_due_def empty_slot_def)
  have tick: "sim_clock_tick send now (ap_world ?n) = Some (ap_world ?n)" for send now
    unfolding sim_clock_tick_def by (rule idle) (use n in \<open>simp_all add: quiet_def\<close>)
  have due: "due_nodes (ap_sim ?n) now = Some []" for now
  proof -
    have "filter fl_active (replicate k empty_slot) = []" for k by (simp add: empty_slot_def)
    then show ?thesis using n by (simp add: due_nodes_def quiet_def)
  qed
  let ?s2 = "flash_nodes (fst (gui_now s1)) [] (set_world (ap_world ?n) ?n)"
  have s2: "si_nodes (ap_sim ?s2) = []" "ap_pipe ?s2 = None" "ap_input ?s2 = ap_input s1" "ap_running ?s2 = ap_running s1" "quiet ?s2"
    using n assms(3) by (simp_all add: quiet_def flash_nodes_def set_world_def gui_now_def case_prod_unfold Let_def)
  have r: "rings ?s2 = rings s1"
  proof -
    have "rings (flash_nodes now [] t) = rings t" for now t by (simp add: flash_nodes_def rings_def)
    then show ?thesis by simp
  qed
  have "gui_frame wd (es, ticks) s = render ticks ?s2"
    using assms(1) n tick due s2(2) by (simp add: gui_frame_def quiet_def case_prod_unfold Let_def capture_stdout_drain_def)
  then show ?thesis using that s2 r by (auto simp: render_def)
qed

text \<open>Typing a line and the return key.\<close>

definition entered :: "string \<Rightarrow> sdl_event list" where
  "entered line = [SDL_TEXTINPUT line, SDL_KEYDOWN SDLK_RETURN False]"

text \<open>A line whose command leaves the simulator alone.\<close>

lemma typed:
  assumes "\<forall>c. \<exists>out. process (wd_outside wd) line c = Some (going, out, c)" "line \<noteq> []" "length line < INPUT_BUF_LEN - 1"
    "quiet s" "ap_pipe s = None" "ap_input s = []"
  obtains s' where "handle_events wd (entered line) s = Some s'" "quiet s'" "ap_pipe s' = None" "ap_input s' = []"
    "ap_running s' = (going \<and> ap_running s)"
proof -
  define t where "t = s\<lparr>ap_input := line\<rparr>"
  define s2 where "s2 = log_append_line (snprintf_s (INPUT_BUF_LEN + 8) (''magi> '' @ line)) (history_push line t)"
  have push: "quiet (history_push line t) = quiet t" "ap_pipe (history_push line t) = ap_pipe t" "ap_input (history_push line t) = ap_input t"
    "ap_running (history_push line t) = ap_running t" for t by (simp_all add: history_push_def Let_def quiet_def)
  have t: "quiet t" "ap_pipe t = None" "ap_input t = line" "ap_running t = ap_running s" using assms(4,5) by (simp_all add: t_def quiet_def)
  then have s2: "quiet s2" "ap_pipe s2 = None" "ap_input s2 = line" "ap_running s2 = ap_running s" by (simp_all add: s2_def push)
  obtain out where out: "process (wd_outside wd) line (ap_cli s2) = Some (going, out, ap_cli s2)" using assms(1) by blast
  have line: "snprintf_s INPUT_BUF_LEN line = line" using assms(3) by (simp add: snprintf_s_def)
  let ?s3 = "s2\<lparr>ap_terminal := ap_terminal s2 @ out\<rparr>"
  let ?s4 = "if going then ?s3 else ?s3\<lparr>ap_running := False\<rparr>"
  have "handle_events wd (entered line) s = cli_dispatch wd t"
    using assms(3,6) by (cases "cli_dispatch wd t") (simp_all add: entered_def text_input_def key_down_def t_def)
  also have "\<dots> = Some (?s4\<lparr>ap_needs_layout := True, ap_input := [], ap_log_scroll := 0\<rparr>)"
    unfolding cli_dispatch_def Let_def t(3) push(3) s2_def [symmetric] s2(3) line out
    using assms(2) s2(2) by (simp add: write_stdout_def capture_stdout_drain_def)
  finally show ?thesis by (rule that) (use s2 in \<open>simp_all add: quiet_def\<close>)
qed

lemma plain_commands:
  "\<forall>c. \<exists>out. process ou ''help'' c = Some (True, out, c)" "\<forall>c. \<exists>out. process ou ''exit'' c = Some (False, out, c)"
proof -
  have "tokens ''help'' = [''help'']" "tokens ''exit'' = [''exit'']" by code_simp+
  then show "\<forall>c. \<exists>out. process ou ''help'' c = Some (True, out, c)" "\<forall>c. \<exists>out. process ou ''exit'' c = Some (False, out, c)"
    by (simp_all add: process_def node_command_def)
qed

text \<open>The number that the next event gets.\<close>

definition next_event_id :: "app_state \<Rightarrow> nat" where
  "next_event_id s = ap_first_event_id s + ap_events_count s"

text \<open>What a line that is logged comes to: its place in the log, and the event that it is taken for, if it is one.\<close>

definition line_recorded :: "string \<Rightarrow> app_state \<Rightarrow> app_state \<Rightarrow> bool" where
  "line_recorded line s s' \<longleftrightarrow> ap_log_lines s' ! ap_log_head s = snprintf_s LOG_LINE_LEN line \<and>
     (case classify_event (ap_sim s) line EVENT_SUMMARY_LEN of (kind, node, summary) \<Rightarrow>
        if kind = EV_NONE \<or> kind = EV_GENERIC \<and>
            (hd line = CHR ''='' \<or> take 5 line = ''magi>'' \<or> strstr line ''MAGI SYSTEM'' \<or> strstr line ''Commands:'')
        then ap_events s' = ap_events s \<and> next_event_id s' = next_event_id s
        else next_event_id s' = next_event_id s + 1 \<and> ap_events s' ! (next_event_id s mod EVENT_RING_CAP) =
          \<lparr>ev_kind = kind, ev_time = fst (gui_now s), ev_log_idx = ap_log_head s, ev_node_idx = node,
             ev_summary = snprintf_s EVENT_SUMMARY_LEN summary\<rparr>)"

lemma events_counted:
  assumes "gui_holds evs cmds s"
  shows "next_event_id s = length evs" "ap_events_count s = min EVENT_RING_CAP (next_event_id s)"
    "ap_first_event_id s = length evs - EVENT_RING_CAP" "ap_events_head s = next_event_id s mod EVENT_RING_CAP" "length (ap_events s) = EVENT_RING_CAP"
    "ap_first_event_id s \<le> k \<Longrightarrow> k < next_event_id s \<Longrightarrow> ap_events s ! (k mod EVENT_RING_CAP) = evs ! k"
proof -
  note h = assms [unfolded gui_holds_def events_are_def ring_state_def recent_def]
  show n: "next_event_id s = length evs" using h by (simp add: next_event_id_def)
  show "ap_events_count s = min EVENT_RING_CAP (next_event_id s)" "ap_first_event_id s = length evs - EVENT_RING_CAP"
    "ap_events_head s = next_event_id s mod EVENT_RING_CAP" "length (ap_events s) = EVENT_RING_CAP"
    unfolding n using h by simp_all
  show "ap_first_event_id s \<le> k \<Longrightarrow> k < next_event_id s \<Longrightarrow> ap_events s ! (k mod EVENT_RING_CAP) = evs ! k"
    unfolding n using h by simp
qed

lemma logged_line:
  assumes "gui_holds evs cmds s"
  shows "line_recorded line s (log_append_line line s)"
proof -
  obtain ls where ls: "log_is ls s" using assms by (auto simp: gui_holds_def)
  then have log: "ap_log_head s < length (ap_log_lines s)" using ring_bounds [of LOG_LINES ls] by (auto simp: log_is_def)
  note e = events_counted(2,4,5) [OF assms]
  have head: "ap_events_head s < length (ap_events s)" using e by simp
  obtain kind node summary where c: "classify_event (ap_sim s) line EVENT_SUMMARY_LEN = (kind, node, summary)"
    by (cases "classify_event (ap_sim s) line EVENT_SUMMARY_LEN")
  define s1 where "s1 = s\<lparr>ap_log_lines := (ap_log_lines s)[ap_log_head s := snprintf_s LOG_LINE_LEN line], ap_log_head := (ap_log_head s + 1) mod LOG_LINES,
     ap_log_count := (if ap_log_count s < LOG_LINES then ap_log_count s + 1 else ap_log_count s)\<rparr>"
  have eq: "log_append_line line s = event_push line (ap_log_head s) s1" by (simp add: log_append_line_def s1_def Let_def)
  have s1: "ap_cli s1 = ap_cli s" "ap_events s1 = ap_events s" "ap_events_head s1 = ap_events_head s"
    "ap_events_count s1 = ap_events_count s" "ap_first_event_id s1 = ap_first_event_id s" by (simp_all add: s1_def)
  have now: "fst (gui_now s1) = fst (gui_now s)" by (simp add: gui_now_def s1 case_prod_unfold Let_def)
  have lines: "ap_log_lines (log_append_line line s) ! ap_log_head s = snprintf_s LOG_LINE_LEN line"
    unfolding eq using log by (simp add: s1_def)
  have other: "ap_events (snd (gui_now t)) = ap_events t" "ap_events_head (snd (gui_now t)) = ap_events_head t"
    "ap_events_count (snd (gui_now t)) = ap_events_count t" "ap_first_event_id (snd (gui_now t)) = ap_first_event_id t" for t
    by (simp_all add: gui_now_def case_prod_unfold Let_def)
  let ?skip = "kind = EV_NONE \<or> kind = EV_GENERIC \<and>
    (hd line = CHR ''='' \<or> take 5 line = ''magi>'' \<or> strstr line ''MAGI SYSTEM'' \<or> strstr line ''Commands:'')"
  show ?thesis
  proof (cases ?skip)
    case True
    then have "event_push line (ap_log_head s) s1 = s1" using c by (auto simp: event_push_def s1)
    then show ?thesis using lines c True unfolding line_recorded_def eq by (simp add: s1 next_event_id_def)
  next
    case False
    have kind: "kind \<noteq> EV_NONE" using False by blast
    have said: "\<not> (kind = EV_GENERIC \<and>
      (hd line = CHR ''='' \<or> take 5 line = ''magi>'' \<or> strstr line ''MAGI SYSTEM'' \<or> strstr line ''Commands:''))" using False by blast
    let ?e = "\<lparr>ev_kind = kind, ev_time = fst (gui_now s), ev_log_idx = ap_log_head s, ev_node_idx = node, ev_summary = snprintf_s EVENT_SUMMARY_LEN summary\<rparr>"
    have push: "ap_events (event_push line (ap_log_head s) s1) = (ap_events s)[ap_events_head s := ?e]"
      "ap_events_count (event_push line (ap_log_head s) s1) = (if ap_events_count s < EVENT_RING_CAP then ap_events_count s + 1 else ap_events_count s)"
      "ap_first_event_id (event_push line (ap_log_head s) s1) = (if ap_events_count s < EVENT_RING_CAP then ap_first_event_id s else ap_first_event_id s + 1)"
      unfolding event_push_def s1(1) c Let_def prod.case if_not_P [OF kind] if_not_P [OF said] by (simp_all add: s1 now other case_prod_unfold Let_def)
    have "next_event_id (log_append_line line s) = next_event_id s + 1" unfolding eq by (simp add: next_event_id_def push)
    moreover have "ap_events (log_append_line line s) ! (next_event_id s mod EVENT_RING_CAP) = ?e"
      unfolding eq push(1) using head e(2) by simp
    ultimately show ?thesis using lines c False unfolding line_recorded_def by simp
  qed
qed

text \<open>C21. The lists of the window, whatever the user and the simulation do. Take any moment of a session and any later one. The history of the input
  line holds the last 32 of the lines that were entered since the window was opened, in their order: what stood in the input line
  whenever a return key was pressed and it was not empty. The events are numbered as they come; those kept are the last 512 numbers, from \<^verbatim>\<open>first_event_id\<close> on,
  each in the slot of its number modulo 512, with a kind and a summary that fits; an event that was there at the first
  moment and is still kept is the same event, and no number is ever taken back. A line that is logged next is recorded: in the next place of the log, and, when it is
  classified as an event and is no banner or prompt, as the event with the next number, with the kind, node and summary of its classification and the time. The indices are inside of
  their arrays and the texts shorter than their buffers.\<close>

theorem gui_rings_hold:
  assumes "gui_open pipe_works c = Some s0" "gui_loop wd before s0 = Some s1" "gui_loop wd after s1 = Some s"
  defines "cmds \<equiv> lines_of_frames wd before s0 @ lines_of_frames wd after s1"
  shows "ap_history_count s = length cmds \<and> length (ap_history s) = HISTORY_LEN \<and>
    (\<forall>k < length cmds. length cmds \<le> k + HISTORY_LEN \<longrightarrow> ap_history s ! (k mod HISTORY_LEN) = cmds ! k) \<and>
    (\<forall>l \<in> set cmds. l \<noteq> [] \<and> length l < INPUT_BUF_LEN) \<and> length (ap_input s) < INPUT_BUF_LEN \<and>
    0 \<le> ap_history_idx s \<and> int (length cmds) - int HISTORY_LEN \<le> ap_history_idx s \<and> ap_history_idx s \<le> int (length cmds) \<and>
    next_event_id s1 \<le> next_event_id s \<and> ap_events_count s = min EVENT_RING_CAP (next_event_id s) \<and>
    ap_events_head s = next_event_id s mod EVENT_RING_CAP \<and> length (ap_events s) = EVENT_RING_CAP \<and>
    (\<forall>k. ap_first_event_id s \<le> k \<and> k < next_event_id s \<longrightarrow>
      ev_kind (ap_events s ! (k mod EVENT_RING_CAP)) \<noteq> EV_NONE \<and> length (ev_summary (ap_events s ! (k mod EVENT_RING_CAP))) < EVENT_SUMMARY_LEN \<and>
      (k < next_event_id s1 \<longrightarrow> ap_first_event_id s1 \<le> k \<and> ap_events s ! (k mod EVENT_RING_CAP) = ap_events s1 ! (k mod EVENT_RING_CAP))) \<and>
    (\<forall>line. line_recorded line s (log_append_line line s)) \<and>
    length (ap_log_lines s) = LOG_LINES \<and> ap_log_head s < LOG_LINES \<and> ap_log_count s \<le> LOG_LINES \<and> length (ap_log_partial s) < LOG_LINE_LEN"
proof -
  obtain ev0 where h0: "gui_holds ev0 [] s0" by (rule open_holds [OF assms(1)])
  obtain ev1 where h1: "gui_holds (ev0 @ ev1) ([] @ lines_of_frames wd before s0) s1" by (rule loop_holds [OF h0 assms(2)])
  obtain ev2 where "gui_holds ((ev0 @ ev1) @ ev2) (([] @ lines_of_frames wd before s0) @ lines_of_frames wd after s1) s"
    by (rule loop_holds [OF h1 assms(3)])
  then have h: "gui_holds (ev0 @ ev1 @ ev2) cmds s" by (simp add: cmds_def)
  then obtain ls where ls: "log_is ls s" by (auto simp: gui_holds_def)
  have log: "length (ap_log_lines s) = LOG_LINES \<and> ap_log_head s < LOG_LINES \<and> ap_log_count s \<le> LOG_LINES \<and> length (ap_log_partial s) < LOG_LINE_LEN"
    using ls ring_bounds [of LOG_LINES ls] by (auto simp: log_is_def)
  have lines: "commands_are cmds s" using h by (simp add: gui_holds_def)
  note n1 = events_counted [OF h1] and n = events_counted [OF h]
  have kept: "ev_kind (ap_events s ! (k mod EVENT_RING_CAP)) \<noteq> EV_NONE \<and> length (ev_summary (ap_events s ! (k mod EVENT_RING_CAP))) < EVENT_SUMMARY_LEN \<and>
      (k < next_event_id s1 \<longrightarrow> ap_first_event_id s1 \<le> k \<and> ap_events s ! (k mod EVENT_RING_CAP) = ap_events s1 ! (k mod EVENT_RING_CAP))"
    if "ap_first_event_id s \<le> k" "k < next_event_id s" for k
  proof -
    have at: "ap_events s ! (k mod EVENT_RING_CAP) = (ev0 @ ev1 @ ev2) ! k" by (rule n(6) [OF that])
    have "(ev0 @ ev1 @ ev2) ! k \<in> set (ev0 @ ev1 @ ev2)" using that(2) unfolding n(1) by (rule nth_mem)
    then have "ev_kind ((ev0 @ ev1 @ ev2) ! k) \<noteq> EV_NONE \<and> length (ev_summary ((ev0 @ ev1 @ ev2) ! k)) < EVENT_SUMMARY_LEN"
      using h unfolding gui_holds_def events_are_def by blast
    moreover have "ap_first_event_id s1 \<le> k" using that(1) unfolding n(3) n1(3) by simp
    moreover have "ap_events s1 ! (k mod EVENT_RING_CAP) = (ev0 @ ev1 @ ev2) ! k" if k1: "k < next_event_id s1"
      using n1(6) [OF \<open>ap_first_event_id s1 \<le> k\<close> k1] k1 unfolding n1(1) by (simp add: nth_append)
    ultimately show ?thesis unfolding at by simp
  qed
  have "next_event_id s1 \<le> next_event_id s" unfolding n(1) n1(1) by simp
  with lines log kept n(2,4,5) logged_line [OF h] show ?thesis unfolding commands_are_def recent_def by blast
qed

theorem gui_rings_hold_witness:
  "\<exists>s0 s. gui_open False blank_cli = Some s0 \<and> gui_loop blank_window [([], 0), (entered ''help'', 1), (entered ''exit'', 2), ([], 3)] s0 = Some s \<and>
    \<not> ap_running s \<and> ap_history_count s = 2 \<and> ap_history s ! 0 = ''help'' \<and> ap_history s ! 1 = ''exit''"
proof -
  let ?frames = "[([], 0), (entered ''help'', 1), (entered ''exit'', 2), ([], 3)] :: frame list"
  obtain s0 where s0: "gui_open False blank_cli = Some s0" "quiet s0" "ap_running s0" "ap_input s0 = []" "ap_pipe s0 = None" by (rule blank_opens)
  have none: "handle_events blank_window [] s0 = Some s0" by simp
  obtain c1 s1 where s1: "gui_frame blank_window ([], 0) s0 = Some (c1, s1)" "quiet s1" "ap_pipe s1 = None" "ap_input s1 = ap_input s0" "ap_running s1 = ap_running s0"
    by (rule quiet_frame [OF none s0(2,5)])
  obtain t1 where t1: "handle_events blank_window (entered ''help'') s1 = Some t1" "quiet t1" "ap_pipe t1 = None" "ap_input t1 = []" "ap_running t1 = (True \<and> ap_running s1)"
    by (rule typed [OF plain_commands(1) _ _ s1(2,3)]) (use s0(4) s1(4) in simp_all)
  obtain c2 s2 where s2: "gui_frame blank_window (entered ''help'', 1) s1 = Some (c2, s2)" "quiet s2" "ap_pipe s2 = None" "ap_input s2 = ap_input t1" "ap_running s2 = ap_running t1"
    by (rule quiet_frame [OF t1(1-3)])
  obtain t2 where t2: "handle_events blank_window (entered ''exit'') s2 = Some t2" "quiet t2" "ap_pipe t2 = None" "ap_input t2 = []" "ap_running t2 = (False \<and> ap_running s2)"
    by (rule typed [OF plain_commands(2) _ _ s2(2,3)]) (use t1(4) s2(4) in simp_all)
  obtain c3 s where s: "gui_frame blank_window (entered ''exit'', 2) s2 = Some (c3, s)" "ap_running s = ap_running t2"
    by (rule quiet_frame [OF t2(1-3)])
  have run: "gui_loop blank_window ?frames s0 = Some s" using s0(3) s1 t1(5) s2 t2(5) s by simp
  have line: "lines_of_events wd (entered line) t = [line]" if "ap_input t = []" "line \<noteq> []" "length line < INPUT_BUF_LEN - 1" for wd line t
    using that by (simp add: entered_def entered_by_def text_input_def split: option.split)
  have lines: "lines_of_frames blank_window ?frames s0 = [''help'', ''exit'']"
    using s0(3,4) s1(1,4,5) s2(1,4,5) s t1(4,5) t2(5) by (simp add: line)
  have same: "gui_loop blank_window [] s0 = Some s0" by simp
  note g = gui_rings_hold [OF s0(1) same run, unfolded lines lines_of_frames.simps(1) append.simps(1)]
  have "ap_history_count s = 2" using g by simp
  moreover have "ap_history s ! 0 = ''help''" using conjunct1 [OF conjunct2 [OF conjunct2 [OF g]], rule_format, of 0] by simp
  moreover have "ap_history s ! 1 = ''exit''" using conjunct1 [OF conjunct2 [OF conjunct2 [OF g]], rule_format, of 1] by simp
  ultimately show ?thesis using s0(1) run s(2) t2(5) by blast
qed

section \<open>The history of the input line\<close>

lemma handle_events_append: "handle_events wd (xs @ ys) s = Option.bind (handle_events wd xs s) (handle_events wd ys)"
proof (induction xs arbitrary: s)
  case (Cons x xs)
  show ?case by (cases "handle_event wd x s") (simp_all add: Cons.IH)
qed simp

lemma idx_append [simp]: "ap_history_idx (log_append_line line s) = ap_history_idx s"
  by (simp add: log_append_line_def Let_def)

lemma idx_drain [simp]: "ap_history_idx (capture_stdout_drain s) = ap_history_idx s"
proof -
  have "ap_history_idx (log_append_char c t) = ap_history_idx t" for c t by (simp add: log_append_char_def)
  then have "ap_history_idx (fold log_append_char cs t) = ap_history_idx t" for cs t by (induction cs arbitrary: t) simp_all
  then show ?thesis by (simp add: capture_stdout_drain_def log_append_chars_def split: option.split)
qed

lemma dispatch_input:
  assumes "cli_dispatch wd s = Some s'" "ap_input s \<noteq> []"
  shows "ap_input s' = []" "ap_history_idx s' = int (ap_history_count s) + 1"
proof -
  define s1 where "s1 = history_push (ap_input s) s"
  have s1: "ap_history_idx s1 = int (ap_history_count s) + 1" using assms(2) by (simp add: s1_def history_push_def Let_def)
  obtain s2 s3 out keep c where run: "s2 = log_append_line (snprintf_s (INPUT_BUF_LEN + 8) (''magi> '' @ ap_input s1)) s1"
    "write_stdout wd out (s2\<lparr>ap_cli := c\<rparr>) = Some s3"
    "s' = (capture_stdout_drain (if keep then s3 else s3\<lparr>ap_running := False\<rparr>))\<lparr>ap_needs_layout := True, ap_input := [], ap_log_scroll := 0\<rparr>"
    using assms unfolding cli_dispatch_def s1_def by (auto simp: bind_eq_Some_conv Let_def)
  have "ap_history_idx s3 = ap_history_idx s2" using run(2) by (auto simp: write_stdout_def split: option.splits if_splits)
  then show "ap_input s' = []" "ap_history_idx s' = int (ap_history_count s) + 1" using s1 by (simp_all add: run(1,3))
qed

lemma entered_holds:
  assumes "gui_holds evs cmds s" "ap_input s = []" "line \<noteq> []" "length line < INPUT_BUF_LEN - 1" "handle_events wd (entered line) s = Some s'"
  obtains more where "gui_holds (evs @ more) (cmds @ [line]) s'" "ap_input s' = []" "ap_history_idx s' = int (length (cmds @ [line]))"
proof -
  let ?s = "s\<lparr>ap_input := line\<rparr>"
  have d: "cli_dispatch wd ?s = Some s'" using assms(2,4,5) by (auto simp: entered_def text_input_def key_down_def bind_eq_Some_conv)
  have h: "gui_holds evs cmds ?s" by (rule input_holds [OF assms(1)]) (use assms(4) in simp)
  obtain more where m: "gui_holds (evs @ more) (cmds @ (if ap_input ?s = [] then [] else [ap_input ?s])) s'" by (rule dispatch_holds [OF h d])
  have "ap_history_count s = length cmds" using assms(1) by (simp add: gui_holds_def commands_are_def)
  then show ?thesis using that [of more] m dispatch_input [OF d] assms(3) by simp
qed

lemma all_entered_hold:
  assumes "gui_holds evs cmds s" "ap_input s = []" "\<forall>line \<in> set cs. line \<noteq> [] \<and> length line < INPUT_BUF_LEN - 1"
    "handle_events wd (concat (map entered cs)) s = Some s'" "cs \<noteq> []"
  obtains more where "gui_holds (evs @ more) (cmds @ cs) s'" "ap_history_idx s' = int (length (cmds @ cs))"
proof -
  have "\<exists>more. gui_holds (evs @ more) (cmds @ cs) s' \<and> ap_history_idx s' = int (length (cmds @ cs))"
    using assms
  proof (induction cs arbitrary: s evs cmds)
    case (Cons line cs)
    obtain s1 where s1: "handle_events wd (entered line) s = Some s1" "handle_events wd (concat (map entered cs)) s1 = Some s'"
      using Cons.prems(4) by (auto simp: handle_events_append bind_eq_Some_conv)
    obtain more where m: "gui_holds (evs @ more) (cmds @ [line]) s1" "ap_input s1 = []" "ap_history_idx s1 = int (length (cmds @ [line]))"
      by (rule entered_holds [OF Cons.prems(1,2) _ _ s1(1)]) (use Cons.prems(3) in auto)
    show ?case
    proof (cases "cs = []")
      case True
      then show ?thesis using m s1(2) by auto
    next
      case False
      from Cons.IH [OF m(1,2) _ s1(2) False] Cons.prems(3) show ?thesis by auto
    qed
  qed simp
  then show ?thesis using that by blast
qed

text \<open>Going up: one line further back every time, and not beyond the oldest that is kept.\<close>

lemma recalled:
  assumes "gui_holds evs cmds s" "ap_history_idx s = int (length cmds)" "k \<le> length cmds" "k \<le> HISTORY_LEN"
    "handle_events wd (replicate k (SDL_KEYDOWN SDLK_UP ctrl)) s = Some s'" "0 < k"
  shows "ap_input s' = cmds ! (length cmds - k)"
proof -
  have "gui_holds evs cmds s' \<and> ap_history_idx s' = int (length cmds - k) \<and> (0 < k \<longrightarrow> ap_input s' = cmds ! (length cmds - k))"
    using assms(3-5)
  proof (induction k arbitrary: s')
    case 0
    then show ?case using assms(1,2) by simp
  next
    case (Suc k)
    obtain t where t: "handle_events wd (replicate k (SDL_KEYDOWN SDLK_UP ctrl)) s = Some t" "s' = history_recall (- 1) t"
    proof -
      have up: "replicate (Suc k) (SDL_KEYDOWN SDLK_UP ctrl) = replicate k (SDL_KEYDOWN SDLK_UP ctrl) @ [SDL_KEYDOWN SDLK_UP ctrl]"
        by (simp add: replicate_append_same)
      show thesis using Suc.prems(3) that unfolding up handle_events_append by (auto simp: bind_eq_Some_conv key_down_def)
    qed
    have h: "gui_holds evs cmds t" "ap_history_idx t = int (length cmds - k)" using Suc.IH [OF _ _ t(1)] Suc.prems by simp_all
    have ne: "cmds \<noteq> []" and lt: "length cmds - Suc k \<noteq> length cmds" using Suc.prems(1) by auto
    have i: "min (int (length cmds)) (max (max 0 (int (length cmds) - int HISTORY_LEN)) (ap_history_idx t + - 1)) = int (length cmds - Suc k)"
      using Suc.prems(1,2) unfolding h(2) by auto
    have e: "s' = t\<lparr>ap_history_idx := int (length cmds - Suc k), ap_input := cmds ! (length cmds - Suc k)\<rparr>"
      using history_recall_holds(1) [OF h(1) ne, of "- 1"] lt unfolding i t(2) by simp
    show ?case using history_recall_holds(2) [OF h(1) ne, of "- 1"] unfolding t(2) [symmetric] by (simp add: e)
  qed
  then show ?thesis using assms(6) by blast
qed

text \<open>C16. The input line has a memory: in any window that is reached, after some lines were entered,
  going up \<open>k\<close> times, at most 32, brings back the \<open>k\<close>-th last of them, to the letter, whatever their commands did and printed.\<close>

theorem history_recalled:
  assumes "gui_open pipe_works c = Some s0" "gui_loop wd frames s0 = Some s1" "ap_input s1 = []"
    "\<forall>line \<in> set cs. line \<noteq> [] \<and> length line < INPUT_BUF_LEN - 1" "0 < k" "k \<le> length cs" "k \<le> HISTORY_LEN"
    "handle_events wd (concat (map entered cs) @ replicate k (SDL_KEYDOWN SDLK_UP ctrl)) s1 = Some s"
  shows "ap_input s = cs ! (length cs - k)"
proof -
  obtain evs cmds where h: "gui_holds evs cmds s1" by (rule reached [OF assms(1,2)])
  obtain s2 where s2: "handle_events wd (concat (map entered cs)) s1 = Some s2" "handle_events wd (replicate k (SDL_KEYDOWN SDLK_UP ctrl)) s2 = Some s"
    using assms(8) by (auto simp: handle_events_append bind_eq_Some_conv)
  have "cs \<noteq> []" using assms(5,6) by auto
  then obtain more where m: "gui_holds (evs @ more) (cmds @ cs) s2" "ap_history_idx s2 = int (length (cmds @ cs))"
    by (rule all_entered_hold [OF h assms(3,4) s2(1)])
  have "ap_input s = (cmds @ cs) ! (length (cmds @ cs) - k)" by (rule recalled [OF m _ assms(7) s2(2) assms(5)]) (use assms(6) in simp)
  moreover have "length (cmds @ cs) - k = length cmds + (length cs - k)" using assms(6) by simp
  ultimately show ?thesis by (simp only: nth_append_length_plus)
qed

theorem history_recalled_witness:
  "\<exists>s0 s1 s. gui_open False blank_cli = Some s0 \<and> gui_loop blank_window [([], 0)] s0 = Some s1 \<and>
    handle_events blank_window (entered ''help'' @ entered ''exit'' @ [SDL_KEYDOWN SDLK_UP False, SDL_KEYDOWN SDLK_UP False]) s1 = Some s \<and> ap_input s = ''help''"
proof -
  obtain s0 where s0: "gui_open False blank_cli = Some s0" "quiet s0" "ap_running s0" "ap_input s0 = []" "ap_pipe s0 = None" by (rule blank_opens)
  have none: "handle_events blank_window [] s0 = Some s0" by simp
  obtain c1 s1 where s1: "gui_frame blank_window ([], 0) s0 = Some (c1, s1)" "quiet s1" "ap_pipe s1 = None" "ap_input s1 = ap_input s0"
    by (rule quiet_frame [OF none s0(2,5)])
  have loop: "gui_loop blank_window [([], 0)] s0 = Some s1" "ap_input s1 = []" using s0 s1 by simp_all
  obtain t1 where t1: "handle_events blank_window (entered ''help'') s1 = Some t1" "quiet t1" "ap_pipe t1 = None" "ap_input t1 = []"
    by (rule typed [OF plain_commands(1) _ _ s1(2,3) loop(2)]) simp_all
  obtain t2 where t2: "handle_events blank_window (entered ''exit'') t1 = Some t2"
    by (rule typed [OF plain_commands(2) _ _ t1(2-4)]) simp_all
  let ?ups = "replicate 2 (SDL_KEYDOWN SDLK_UP False)"
  obtain s where s: "handle_events blank_window ?ups t2 = Some s" by (simp add: numeral_2_eq_2 key_down_def)
  have run: "handle_events blank_window (concat (map entered [''help'', ''exit'']) @ ?ups) s1 = Some s"
    using t1(1) t2 s by (simp add: handle_events_append)
  have lens: "\<forall>line \<in> set [''help'', ''exit'']. line \<noteq> [] \<and> length line < INPUT_BUF_LEN - 1" "0 < (2 :: nat)" "2 \<le> length [''help'', ''exit'']" "2 \<le> HISTORY_LEN"
    by simp_all
  have "ap_input s = ''help''" using history_recalled [OF s0(1) loop lens run] by simp
  moreover have "handle_events blank_window (entered ''help'' @ entered ''exit'' @ [SDL_KEYDOWN SDLK_UP False, SDL_KEYDOWN SDLK_UP False]) s1 = Some s"
    using run by (simp add: numeral_2_eq_2)
  ultimately show ?thesis using s0(1) loop(1) by blast
qed

section \<open>The events\<close>

lemma activated:
  assumes "0 \<le> ap_events_scroll s + row" "ap_events_scroll s + row < int (ap_events_count s)"
  shows "ap_selected_event (events_activate_row row s) = int (ap_first_event_id s) + int (ap_events_count s) - 1 - (ap_events_scroll s + row)"
proof -
  have "ap_selected_event (pause t) = ap_selected_event t" for t by (simp add: pause_def on_clock_def)
  then show ?thesis using assms by (simp add: events_activate_row_def Let_def case_prod_unfold gui_now_def)
qed

lemma blank_has_events:
  assumes "gui_open False blank_cli = Some s0"
  shows "0 < ap_events_count s0"
proof -
  let ?line = "''Try: H1 ping 10.0.0.5  |  topology  |  help''"
  obtain t where s0: "s0 = log_append_line ?line t"
  proof -
    obtain s1 where "s0 = fold log_append_line greeting s1" using assms by (rule_tac blank_opens) auto
    moreover have "greeting = butlast greeting @ [?line]" by (simp add: greeting_def)
    ultimately have "s0 = fold log_append_line (butlast greeting @ [?line]) s1" by metis
    then show thesis using that by simp
  qed
  have kind: "event_kind_of ?line (event_rest ?line) = EV_GENERIC" "\<not> strstr ?line ''MAGI SYSTEM''" "\<not> strstr ?line ''Commands:''" by code_simp+
  have "0 < ap_events_count (event_push ?line slot u)" for slot u
    using kind by (simp add: event_push_def classify_event_def case_prod_unfold Let_def)
  then show ?thesis unfolding s0 log_append_line_def Let_def .
qed

lemma quiet_activate: "quiet s \<Longrightarrow> quiet (events_activate_row row s)" "ap_pipe (events_activate_row row s) = ap_pipe s"
  "ap_running (events_activate_row row s) = ap_running s"
proof -
  have p: "quiet (pause t) = quiet t" "ap_pipe (pause t) = ap_pipe t" "ap_running (pause t) = ap_running t" for t
    by (simp_all add: pause_def quiet_def on_clock_def set_world_def sim_clock_set_paused_def case_prod_unfold Let_def)
  show "quiet s \<Longrightarrow> quiet (events_activate_row row s)" by (simp add: events_activate_row_def Let_def p) (simp add: quiet_def)
  show "ap_pipe (events_activate_row row s) = ap_pipe s" "ap_running (events_activate_row row s) = ap_running s"
    by (simp_all add: events_activate_row_def Let_def p gui_now_def set_world_def case_prod_unfold)
qed

text \<open>C19. An event that is selected stays selected: the number that a click remembers goes on to stand for the
  same event, wherever the row has moved to and whatever was recorded since, for as long as the event is one of the last 512.\<close>

theorem selected_event_stays:
  assumes "gui_open pipe_works c = Some s0" "gui_loop wd before s0 = Some s"
    "0 \<le> ap_events_scroll s + row" "ap_events_scroll s + row < int (ap_events_count s)"
    "gui_loop wd after (events_activate_row row s) = Some s2"
    "int (ap_first_event_id s2) \<le> ap_selected_event (events_activate_row row s)"
  shows "\<exists>back \<ge> 0. back < int (ap_events_count s2) \<and>
    int (ap_first_event_id s2) + int (ap_events_count s2) - 1 - back = ap_selected_event (events_activate_row row s) \<and>
    ap_events s2 ! event_slot s2 back = ap_events s ! event_slot s (ap_events_scroll s + row)"
proof -
  let ?b = "ap_events_scroll s + row"
  obtain evs cmds where h: "gui_holds evs cmds s" by (rule reached [OF assms(1,2)])
  note at = event_at [OF h assms(3,4)]
  have sel: "ap_selected_event (events_activate_row row s) = int (length evs - 1 - nat ?b)" using activated [OF assms(3,4)] at(3) by simp
  have h1: "gui_holds evs cmds (events_activate_row row s)" using h rings_eq(4) [OF rings_activate] by simp
  obtain more where h2: "gui_holds (evs @ more) (cmds @ lines_of_frames wd after (events_activate_row row s)) s2" by (rule loop_holds [OF h1 assms(5)])
  define b2 where "b2 = int (length (evs @ more)) - 1 - int (length evs - 1 - nat ?b)"
  have "ap_events_count s2 = min EVENT_RING_CAP (length (evs @ more))" "ap_first_event_id s2 = length (evs @ more) - EVENT_RING_CAP"
    using h2 by (simp_all add: gui_holds_def events_are_def ring_state_def)
  then have b2: "0 \<le> b2" "b2 < int (ap_events_count s2)" using assms(6) at(2) unfolding sel by (simp_all add: b2_def)
  note at2 = event_at [OF h2 b2]
  have k: "length (evs @ more) - 1 - nat b2 = length evs - 1 - nat ?b" using at(2) by (simp add: b2_def) linarith
  have "ap_events s2 ! event_slot s2 b2 = evs ! (length evs - 1 - nat ?b)" using at2(1) at(2) unfolding k by (simp add: nth_append)
  then show ?thesis using b2 at(1) at2(3) k sel by auto
qed

theorem selected_event_stays_witness:
  "\<exists>s0 s2 row. gui_open False blank_cli = Some s0 \<and> gui_loop blank_window [([], 0)] (events_activate_row row s0) = Some s2 \<and>
    (\<exists>back \<ge> 0. int (ap_first_event_id s2) + int (ap_events_count s2) - 1 - back = ap_selected_event (events_activate_row row s0) \<and>
      ap_events s2 ! event_slot s2 back = ap_events s0 ! event_slot s0 (ap_events_scroll s0 + row))"
proof -
  obtain s0 where s0: "gui_open False blank_cli = Some s0" "quiet s0" "ap_running s0" "ap_input s0 = []" "ap_pipe s0 = None" by (rule blank_opens)
  let ?row = "- ap_events_scroll s0"
  let ?s = "events_activate_row ?row s0"
  have row: "0 \<le> ap_events_scroll s0 + ?row" "ap_events_scroll s0 + ?row < int (ap_events_count s0)" using blank_has_events [OF s0(1)] by simp_all
  have same: "gui_loop blank_window [] s0 = Some s0" by simp
  have none: "handle_events blank_window [] ?s = Some ?s" by simp
  obtain c2 s2 where s2: "gui_frame blank_window ([], 0) ?s = Some (c2, s2)" "rings s2 = rings ?s"
    by (rule quiet_frame [OF none]) (use s0 quiet_activate in auto)
  have loop: "gui_loop blank_window [([], 0)] ?s = Some s2" using s0(3) s2(1) quiet_activate(3) by simp
  have "ap_first_event_id s2 = ap_first_event_id s0" using s2(2) rings_activate [of ?row s0] by (simp add: rings_def)
  then have "int (ap_first_event_id s2) \<le> ap_selected_event ?s" using activated [OF row] blank_has_events [OF s0(1)] by simp
  from selected_event_stays [OF s0(1) same row loop this] show ?thesis using s0(1) loop by blast
qed

text \<open>C35. A click on an event is meant to make the node of the event flash, and does not. The click selects the node, and the border
  of a selected node is drawn in place of that of a flash, at whatever time the picture is drawn; besides, the flash is set to begin only
  350 ms of simulated time after the click, and the click stops that time: at no earlier time would the node flash even if
  it were not selected.\<close>

theorem clicked_node_not_flashed:
  assumes "0 \<le> ap_events_scroll s + row" "ap_events_scroll s + row < int (ap_events_count s)"
    "ev_node_idx (ap_events s ! event_slot s (ap_events_scroll s + row)) = int i" "i < length (si_nodes (ap_sim s))"
    "i < length (ap_flash_at s)"
  shows "ap_selected_idx (events_activate_row row s) = int i \<and> sim_clock_is_paused (w_clock (ap_world (events_activate_row row s))) \<and>
    (\<forall>t gn. node_border (events_activate_row row s) t i gn =
      fill_rounded_rect (gn_x gn - gn_w gn div 2 - 3) (gn_y gn - gn_h gn div 2 - 3) (gn_w gn + 6) (gn_h gn + 6) (NODE_RADIUS + 2) COL_SEL) \<and>
    (\<forall>t < fst (gui_now s) + FLASH_MS. \<not> is_flash t (ap_flash_at (events_activate_row row s) ! i)) \<and>
    (sim_clock_is_paused (w_clock (ap_world s)) \<longrightarrow> fst (gui_now (events_activate_row row s)) = fst (gui_now s))"
proof -
  obtain t w where now: "now_ms (ap_world s) = (t, w)" by fastforce
  define u where "u = (set_world w (s\<lparr>ap_selected_event := int (ap_first_event_id s) + int (ap_events_count s) - 1 - (ap_events_scroll s + row)\<rparr>))\<lparr>
    ap_flash_at := (ap_flash_at s)[i := t + FLASH_MS], ap_selected_idx := int i\<rparr>"
  have e: "events_activate_row row s = pause u" using assms now by (simp add: events_activate_row_def Let_def gui_now_def u_def set_world_def)
  have flash: "ap_flash_at (pause u) ! i = t + FLASH_MS" using assms(5) by (simp add: pause_def on_clock_def u_def set_world_def)
  have paused: "sim_clock_is_paused (w_clock (ap_world (pause u)))"
    by (simp add: pause_def on_clock_def set_world_def sim_clock_is_paused_def sim_clock_set_paused_def case_prod_unfold Let_def)
  have same: "fst (gui_now (pause u)) = fst (gui_now s)" if "sim_clock_is_paused (w_clock (ap_world s))"
    using that now by (auto simp: pause_def u_def gui_now_def set_world_def now_ms_def sim_clock_now_ms_def sim_clock_is_paused_def)
  have t: "fst (gui_now s) = t" by (simp add: gui_now_def now)
  have sel: "ap_selected_idx (pause u) = int i" by (simp add: pause_def on_clock_def u_def set_world_def)
  then have "node_border (pause u) r i gn =
      fill_rounded_rect (gn_x gn - gn_w gn div 2 - 3) (gn_y gn - gn_h gn div 2 - 3) (gn_w gn + 6) (gn_h gn + 6) (NODE_RADIUS + 2) COL_SEL"
    for r gn by (simp add: node_border_def Let_def)
  moreover have "\<not> is_flash r (ap_flash_at (pause u) ! i)" if "r < fst (gui_now s) + FLASH_MS" for r
    using that t unfolding flash by (simp add: is_flash_def Let_def)
  ultimately show ?thesis using paused same sel unfolding e by blast
qed

theorem clicked_node_not_flashed_witness:
  "\<exists>s. ap_events_count s = 1 \<and> ap_selected_idx (events_activate_row 0 s) = 0 \<and> \<not> is_flash (fst (gui_now s) + 349) (ap_flash_at (events_activate_row 0 s) ! 0)"
proof -
  let ?s = "(initial_state blank_cli)\<lparr>ap_cli := blank_cli\<lparr>cl_sim := (cl_sim blank_cli)\<lparr>si_nodes := [\<lparr>en_name = ''H1'', en_type = SIM_NODE_HOST, en_node = None\<rparr>]\<rparr>\<rparr>,
    ap_events := replicate EVENT_RING_CAP (zero_event\<lparr>ev_kind := EV_GENERIC\<rparr>), ap_events_head := 1, ap_events_count := 1\<rparr>"
  have slot: "event_slot ?s 0 = 0" by (simp add: event_slot_def)
  have at: "ev_node_idx (ap_events ?s ! event_slot ?s (ap_events_scroll ?s + 0)) = int 0"
    by (simp add: event_slot_def initial_state_def zero_event_def)
  have "0 \<le> ap_events_scroll ?s + 0" "ap_events_scroll ?s + 0 < int (ap_events_count ?s)" "0 < length (si_nodes (ap_sim ?s))" "0 < length (ap_flash_at ?s)"
    by (simp_all add: initial_state_def)
  note h = this
  note click = clicked_node_not_flashed [OF h(1,2) at h(3,4)]
  have "\<not> is_flash (fst (gui_now ?s) + 349) (ap_flash_at (events_activate_row 0 ?s) ! 0)" using click by simp
  moreover have "ap_selected_idx (events_activate_row 0 ?s) = 0" using click by simp
  ultimately show ?thesis by (intro exI [of _ ?s]) simp
qed

end
