(* ===== verification/Spec2Isabelle.thy ===== *)
theory Spec2Isabelle
  imports Tcp_Machine Tcp_Stream String_Map Simulator Wire Switch_Vlan Forwarding Router_Flush Json_Limits Loader_Roundtrip Dns_Names
    Table_Refinement Host_Dialogue Contact Dhcp_Dialogue Dns_Dialogue Tcp_Commands Session_Depth Unanswered Gui_Usage
begin

text \<open>
  A model of the Magi System, a network simulator with a TCP/IP stack of its own, and the theorems
  that say what the stack does. All files named here are under \<^verbatim>\<open>src/magi_system/\<close>.

  The program and its state. Hosts, switches and routers are nodes with interfaces; a link joins two
  interfaces; a frame that is sent is handled by the receiving node before the sending call returns, or,
  on real time and on a link with a delay, waits in a slot of the clock until it is due. The theories
  follow the layers:

  \<^item> Common ground. \<open>Prelude\<close> has the machine integers (words of their width), the big-endian readers
    and writers, and the search and shifting loops that many files repeat. \<open>Checksum\<close> is the Internet
    checksum, \<open>Table\<close> the arrays with linear search (\<^verbatim>\<open>map.c\<close>, \<^verbatim>\<open>arp.c\<close>, \<^verbatim>\<open>switch.c\<close>), \<open>Ring\<close> the
    queues of packets that wait for an address (\<^verbatim>\<open>host.c\<close>, \<^verbatim>\<open>router.c\<close>).
  \<^item> Wire formats. \<open>Address\<close> (\<^verbatim>\<open>core/mac.c\<close>, \<^verbatim>\<open>layer3/ipv4.c\<close>), \<open>Ethernet\<close>, \<open>Arp\<close>, \<open>Ipv4\<close>, \<open>Icmp\<close>,
    \<open>Udp\<close>, \<open>Tcp\<close>: one \<open>*_to_bytes\<close> and one \<open>*_from_bytes\<close> each, with the sizes and the refusals of
    the code.
  \<^item> Transport. \<open>Tcp_Socket\<close> is \<^verbatim>\<open>layer4/tcp_socket.c\<close>: the socket table, the calls of the
    application, and one \<open>rx_*\<close> definition for each state of the handler of segments. The segments that
    \<^verbatim>\<open>layer7/magi_socket.c\<close> and \<^verbatim>\<open>layer2/host.c\<close> build are there too.
  \<^item> State. \<open>Node\<close> (\<^verbatim>\<open>core/interface.h\<close>, \<^verbatim>\<open>core/link.h\<close>), \<open>Host_State\<close>, \<open>Switch_Table\<close>,
    \<open>Router_State\<close>, \<open>Sim_Clock\<close> (\<^verbatim>\<open>core/sim_clock.c\<close>) hold the records of the parts and the operations
    that do not send. \<open>World\<close> puts them together: the nodes by number, the links by their slot, the clock,
    and the static variables of the application layer.
  \<^item> Behaviour. \<open>Link\<close> (\<^verbatim>\<open>core/link.c\<close>), \<open>Host_Send\<close> and \<open>Host\<close> (\<^verbatim>\<open>layer2/host.c\<close>), \<open>Switch\<close>
    (\<^verbatim>\<open>layer2/switch.c\<close>), \<open>Router\<close> (\<^verbatim>\<open>layer3/router.c\<close>), \<open>Magi_Socket\<close>, \<open>Dhcp\<close>, \<open>Dns\<close>, \<open>Http\<close>
    (\<^verbatim>\<open>layer7/\<close>). Each of their functions that sends takes the sending function as an argument, and
    \<open>Network\<close> (\<^verbatim>\<open>core/interface.c\<close>) ties the knot.
  \<^item> Building a network. \<open>Simulator\<close> (\<^verbatim>\<open>simulator.c\<close>), \<open>Json\<close> (\<^verbatim>\<open>utils/json.c\<close>) and \<open>Loader\<close>
    (\<^verbatim>\<open>utils/loader.c\<close>).
  \<^item> The program. \<open>Console\<close> is the text it writes about the network (\<^verbatim>\<open>utils/visualizer.c\<close> and the
    tables), \<open>Cli_Network\<close>, \<open>Cli_Host\<close> and \<open>Cli_Services\<close> the commands of \<^verbatim>\<open>utils/cli.c\<close>, \<open>Cli\<close> the
    dispatch on the words of a line, the session, and \<^verbatim>\<open>main.c\<close>.
  \<^item> The window (\<^verbatim>\<open>gui/app.c\<close>). \<open>Gui_Font\<close> and \<open>Gui_Draw\<close> are the font and the drawing routines, \<open>Gui_State\<close> the
    state with the captured output, its log and events, and the history of the input line, \<open>Gui_Layout\<close> the places of
    the nodes and the text about a node, \<open>Gui_Render\<close> the calls of one frame, \<open>Gui_Events\<close> the handling of SDL's
    events, \<open>Png\<close> the file of the exported picture, and \<open>Gui\<close> the main loop and the export.

  What is shown, beside the lemmas of each component:

  \<^item> \<open>Tcp_Stream\<close>: whatever pieces of a stream arrive in whatever order, the application reads a prefix
    of the stream. \<open>Tcp_Machine\<close>: bounded buffers, the arcs of the state machine with the segment that establishes a connection, the handshake, a data
    transfer and the orderly close as conversations of two sockets, the socket table.
  \<^item> \<open>Wire\<close>: frames, packets, datagrams, segments, ARP messages and printed addresses are read back;
    what the checksums detect and what they do not see.
  \<^item> \<open>Switch_Vlan\<close>: frames stay in their VLAN, learned stations are found, and two ways out of a VLAN.
  \<^item> \<open>Routing\<close>, \<open>Forwarding\<close>, \<open>Router_Flush\<close>: longest prefix match, the invariant of the routing table,
    the packet and the ICMP error that leave a router for a frame that enters it, and the loop that a full
    ARP table makes endless.
  \<^item> \<open>Dhcp_Leases\<close>, \<open>Dns_Names\<close>: fresh offers, messages read back, a DNS lookup from query to address,
    and a query the server never answers.
  \<^item> \<open>Json_Roundtrip\<close>, \<open>Json_Limits\<close>, \<open>Loader_Roundtrip\<close>: what is written is parsed back, the parser keeps
    its limits, a file with a number that is printed with an exponent is refused wherever the number stands, and a saved topology is readable and restores
    the configuration of hosts, switches and routers, with the whole routing table.
  \<^item> \<open>Table_Refinement\<close>: the tables refine a bounded map; \<open>Link_Slots\<close>: linking connects, unlinking can
    disconnect others.
  \<^item> \<open>Host_Dialogue\<close>: the parts together: a ping between two hosts that do not know each other yet, from the call to
    the recorded reply, through the address resolution and the queue of waiting packets. \<open>Udp_Dialogue\<close>
    and \<open>Contact\<close> have the steps such conversations share: a datagram through a socket of its own, and the
    first packet between neighbours, which resolves the address when it is not known. On them rests
    \<open>Dhcp_Dialogue\<close>, a host asks for an address with the command of the user and leases one, and
    \<open>Dns_Dialogue\<close>, a host asks for the address of a name and prints what the server's table says, and
    \<open>Tcp_Dialogue\<close> with \<open>Tcp_Commands\<close>, two hosts connect with the handshake and one prints what the other sent.
    \<open>Unanswered\<close>: when nobody answers, the retries of a host end, and a ping to a neighbour it does not know is reported as unreachable;
    a network in which nobody has the address leaves such a request without an answer.
  \<^item> The window: \<open>Png\<close> and \<open>Gui\<close>, the exported file is a PNG in which a reader that has the checksums of the standards (a remainder of polynomials,
    and sums) finds the colours of every pixel again, unless a write is cut short, which the code does not notice; \<open>Gui_Draw\<close>, wrapped text uses the lines that were counted; \<open>Gui_Layout\<close>,
    every node is placed below the toolbar and inside the picture; \<open>Recent\<close>, \<open>Gui_Rings\<close> and \<open>Gui_Session\<close>, the arrays of the window are
    the last entries of all the lines that were entered and all the events that were numbered, through every event and every frame; \<open>Gui_Usage\<close>, lines
    are recalled as they were entered, a selected event stays the same event, and a clicked node has the border
    of a selection, never that of a flash.
  \<^item> \<open>Send_Depth\<close>, \<open>Session_Depth\<close>: the bound on nested sends. They are facts about the model's bound, not about the code: where a call, a command or a whole session
    returns at a depth, it returns the same at every greater depth.

  Interfaces. \<open>Bounded_Map\<close> states the contract of a table to its clients as locales, \<open>Keyed_Table\<close> derives
  it for every array with a key, and \<open>Arp\<close>, \<open>String_Map\<close> and \<open>Switch_Table\<close> interpret it on the code's
  operations; \<open>Ring\<close> states the contract of the pending queues, interpreted in \<open>Host_State\<close> and
  \<open>Router_State\<close>.

  Conventions. A pointer argument that is only read is a value, one that is written is returned; NULL
  arguments, which the callers do not pass, are left out. A result \<open>None\<close> of a function on the world is
  a call that does not return normally (an endless loop, a pointer to a node that is gone, an undefined
  conversion), while a failure that the code reports is a flag or an inner option. Loops that may not end are
  \<open>partial_function\<close>s, and what they never return is proved as such. The argument \<open>depth\<close> of
  \<open>net_send\<close> bounds only the depth of nested sends, which is the call stack of the code: no loop is cut, and
  the theorems about a node's handler hold for every sending function that keeps the named condition, so for
  every depth. The loops over ports, slots, questions and digits recurse over the bound the code has.
  C \<^verbatim>\<open>int\<close>s that are checked against small bounds are \<open>int\<close>s; \<^verbatim>\<open>float\<close> and \<^verbatim>\<open>double\<close> (delays, times and
  JSON numbers) are exact reals, so rounding is not modelled: the clock's subtraction of the time spent paused is exact here, while in the code the time
  after a resume can fall short of the paused time by a rounding error, and the cast of a loaded delay to \<^verbatim>\<open>float\<close> is the identity. The counters of lines, events and
  history entries that only grow are natural numbers, so a session with more than 2147483647 of them is outside of the model. \<^verbatim>\<open>rand\<close> and \<^verbatim>\<open>clock_gettime\<close> are sequences of
  values that are arguments or part of the state; \<^verbatim>\<open>calloc\<close> and \<^verbatim>\<open>malloc\<close> succeed, except in the picture export, where the three
  allocations, the bytes that each \<^verbatim>\<open>fwrite\<close> takes and those that \<^verbatim>\<open>fclose\<close> leaves are parameters. The commands
  return the text they write themselves; the lines that the layers log while they handle a packet are left out.
  A file is a name with its content; whether a name can be written is a parameter.

  In the window, SDL is a parameter: whether it starts, the events and the ticks of each frame, and the pixels that a
  renderer makes of a list of drawing calls. The window runs for the frames it is given; \<open>gui_run\<close> is \<open>None\<close> when it
  is still open after them. A pipe holds a limited number of characters, a parameter, and a command that writes more never
  returns, which is \<open>None\<close>. Angles, logarithms and pixel positions are computed on reals, and the
  conversion to \<^verbatim>\<open>int\<close> cuts off the fraction. The text that the pipe carries is the text of the commands.

  Not modelled: \<^verbatim>\<open>utils/debugger.c\<close> (the tests of the repository: fixed runs of the operations above, a
  parameter of the command \<^verbatim>\<open>debug\<close>), \<^verbatim>\<open>json_free\<close>, and the empty files \<^verbatim>\<open>layer7/rip.c\<close>,
  \<^verbatim>\<open>middleboxes/acl.c\<close> and \<^verbatim>\<open>middleboxes/nat.c\<close>. Of what is modelled, no theorem speaks of the retries of a
  router or of a whole HTTP dialogue.
\<close>

end
